(* ===== verification/Flycast_Prelude.thy ===== *)
theory Flycast_Prelude
  imports Main "HOL-Library.Word"
begin

text \<open>
  The prelude of the development: the machine integers of \<^verbatim>\<open>core/types.h\<close>, bit fields of
  C unions, the outcome type through which every operation that can throw or abort
  returns, and the lemmas on them that the components share.

  \<^item> \<open>u8\<close>, \<open>u16\<close>, \<open>u32\<close>, \<open>u64\<close> are the unsigned types of the source. A signed
    variable (\<open>s32\<close>, \<open>int\<close>) is held in a word of the same width and read with
    \<^const>\<open>sint\<close>, so that wrap-around is that of the host.
  \<^item> \<open>fld lo w x\<close> reads the bit field of \<open>w\<close> bits that starts at bit \<open>lo\<close>, and
    \<open>set_fld lo w v x\<close> assigns it, as the bit fields of \<open>sr_t\<close>, \<open>fpscr_t\<close> and of the
    CCN register unions do.
  \<^item> \<open>('s, 'a) outcome\<close> is the result of a C++ call on the state \<open>'s\<close>: a value with the
    state after the call, or an exception with the state at the throw.
\<close>

unbundle bit_operations_syntax

type_synonym u8 = "8 word"
type_synonym u16 = "16 word"
type_synonym u32 = "32 word"
type_synonym u64 = "64 word"

named_theorems field_simps_bits \<open>reading and writing of bit fields\<close>
named_theorems outcome_simps \<open>evaluation of the outcome combinators\<close>

section \<open>Bit fields of C unions\<close>

definition fld :: "nat \<Rightarrow> nat \<Rightarrow> 'a::len word \<Rightarrow> 'a word" where
  "fld lo w x = take_bit w (drop_bit lo x)"

definition set_fld :: "nat \<Rightarrow> nat \<Rightarrow> 'a::len word \<Rightarrow> 'a word \<Rightarrow> 'a word" where
  "set_fld lo w v x = (x AND NOT (push_bit lo (mask w))) OR push_bit lo (take_bit w v)"

lemma bit_fld: "bit (fld lo w x) i \<longleftrightarrow> i < w \<and> bit x (lo + i)"
  by (auto simp: fld_def bit_take_bit_iff bit_drop_bit_eq)

lemma bit_set_fld:
  fixes x :: "'a::len word"
  shows "bit (set_fld lo w v x) i \<longleftrightarrow>
    (if lo \<le> i \<and> i < lo + w then i < LENGTH('a) \<and> bit v (i - lo) else bit x i)"
  by (auto simp: set_fld_def bit_simps dest: bit_imp_le_length)

lemma fld_set_fld_same [field_simps_bits]:
  fixes x :: "'a::len word"
  assumes "lo + w \<le> LENGTH('a)"
  shows "fld lo w (set_fld lo w v x) = take_bit w v"
  using assms by (intro bit_word_eqI) (auto simp: bit_fld bit_set_fld bit_take_bit_iff)

lemma fld_set_fld_disjoint [field_simps_bits]:
  fixes x :: "'a::len word"
  assumes "lo + w \<le> lo' \<or> lo' + w' \<le> lo"
  shows "fld lo' w' (set_fld lo w v x) = fld lo' w' x"
  using assms by (intro bit_word_eqI) (auto simp: bit_fld bit_set_fld)

lemma set_fld_fld [field_simps_bits]:
  fixes x :: "'a::len word"
  shows "set_fld lo w (fld lo w x) x = x"
  by (intro bit_word_eqI) (auto simp: bit_fld bit_set_fld dest: bit_imp_le_length)

lemma unat_two_power: "w < LENGTH('a) \<Longrightarrow> unat ((2 :: 'a::len word) ^ w) = 2 ^ w"
proof -
  assume w: "w < LENGTH('a)"
  have "unat (of_nat (2 ^ w) :: 'a word) = 2 ^ w"
    using w by (simp add: unsigned_of_nat take_bit_nat_eq_self del: of_nat_power)
  then show ?thesis by simp
qed

lemma fld_less: "w < LENGTH('a) \<Longrightarrow> fld lo w (x :: 'a::len word) < 2 ^ w"
  by (simp add: fld_def word_less_nat_alt unsigned_take_bit_eq unat_two_power)

lemma fld_and_mask: "fld 0 w x = x AND mask w"
  by (simp add: fld_def take_bit_eq_mask)

section \<open>Outcomes: values, C++ exceptions, aborts\<close>

text \<open>
  What leaves a call other than a return: the SH4 exception object of
  \<^verbatim>\<open>sh4_core.h\<close> (the address to resume at and the event code), the fatal
  \<open>FlycastException\<close> of the emulator, and \<open>die\<close> or a failed \<open>verify\<close>, which stop the
  process.
\<close>

datatype halt =
    SH4ThrownException (ex_epc: u32) (ex_expEvn: u16)
  | FlycastException string
  | Die string

datatype ('s, 'a) outcome = Ret 'a 's | Throw halt 's

type_synonym ('s, 'a) M = "'s \<Rightarrow> ('s, 'a) outcome"

definition returnM :: "'a \<Rightarrow> ('s, 'a) M" where
  "returnM a s = Ret a s"

definition bindM :: "('s, 'a) M \<Rightarrow> ('a \<Rightarrow> ('s, 'b) M) \<Rightarrow> ('s, 'b) M" where
  "bindM m f s = (case m s of Ret a s' \<Rightarrow> f a s' | Throw e s' \<Rightarrow> Throw e s')"

definition getM :: "('s \<Rightarrow> 'a) \<Rightarrow> ('s, 'a) M" where
  "getM f s = Ret (f s) s"

definition modifyM :: "('s \<Rightarrow> 's) \<Rightarrow> ('s, unit) M" where
  "modifyM f s = Ret () (f s)"

definition throwM :: "halt \<Rightarrow> ('s, 'a) M" where
  "throwM e s = Throw e s"

definition liftM :: "('s \<Rightarrow> 'a \<times> 's) \<Rightarrow> ('s, 'a) M" where
  "liftM f s = (case f s of (a, s') \<Rightarrow> Ret a s')"

lemma returnM_apply [simp]: "returnM a s = Ret a s"
  by (simp add: returnM_def)

lemma getM_apply [simp]: "getM f s = Ret (f s) s"
  by (simp add: getM_def)

lemma modifyM_apply [simp]: "modifyM f s = Ret () (f s)"
  by (simp add: modifyM_def)

lemma throwM_apply [simp]: "throwM e s = Throw e s"
  by (simp add: throwM_def)

lemma liftM_apply [simp]: "liftM f s = Ret (fst (f s)) (snd (f s))"
  by (simp add: liftM_def split: prod.split)

lemma bindM_Ret [simp]: "m s = Ret a s' \<Longrightarrow> bindM m f s = f a s'"
  by (simp add: bindM_def)

lemma bindM_Throw [simp]: "m s = Throw e s' \<Longrightarrow> bindM m f s = Throw e s'"
  by (simp add: bindM_def)

lemma bindM_eq_Ret:
  "bindM m f s = Ret b s'' \<longleftrightarrow> (\<exists>a s'. m s = Ret a s' \<and> f a s' = Ret b s'')"
  by (simp add: bindM_def split: outcome.split)

lemma bindM_eq_Throw:
  "bindM m f s = Throw e s'' \<longleftrightarrow>
    m s = Throw e s'' \<or> (\<exists>a s'. m s = Ret a s' \<and> f a s' = Throw e s'')"
  by (auto simp: bindM_def split: outcome.split)

lemma bindM_assoc: "bindM (bindM m f) g = bindM m (\<lambda>a. bindM (f a) g)"
  by (rule ext) (simp add: bindM_def split: outcome.split)

fun state_of :: "('s, 'a) outcome \<Rightarrow> 's" where
  "state_of (Ret a s) = s"
| "state_of (Throw e s) = s"

fun returns :: "('s, 'a) outcome \<Rightarrow> bool" where
  "returns (Ret a s) = True"
| "returns (Throw e s) = False"

lemma returns_conv: "returns x \<longleftrightarrow> (\<exists>a s. x = Ret a s)"
  by (cases x) auto

section \<open>Words\<close>

definition bool_u32 :: "bool \<Rightarrow> u32" where
  "bool_u32 b = (if b then 1 else 0)"

lemma bool_u32_simps [simp]: "bool_u32 True = 1" "bool_u32 False = 0"
  by (simp_all add: bool_u32_def)

lemma bool_u32_eq_1 [simp]: "bool_u32 b = 1 \<longleftrightarrow> b"
  by (simp add: bool_u32_def)

lemma bool_u32_eq_0 [simp]: "bool_u32 b = 0 \<longleftrightarrow> \<not> b"
  by (simp add: bool_u32_def)

lemma unat_bool_u32: "unat (bool_u32 b) = of_bool b"
  by (simp add: bool_u32_def)

text \<open>Evaluation of the bits of a word expression; numerals are written as shifted masks first.\<close>

lemmas word_bits = bit_and_iff bit_or_iff bit_not_iff bit_push_bit_iff bit_drop_bit_eq bit_take_bit_iff
  bit_mask_iff comp_def possible_bit_word

lemma unat_of_nat_u32: "i < 2 ^ 32 \<Longrightarrow> unat (of_nat i :: u32) = i"
  by (simp add: unsigned_of_nat take_bit_nat_eq_self)

lemma u32_of_nat_eq: "i < 2 ^ 32 \<Longrightarrow> j < 2 ^ 32 \<Longrightarrow> (of_nat i :: u32) = of_nat j \<longleftrightarrow> i = j"
  by (metis unat_of_nat_u32)

text \<open>Word addresses.\<close>

lemma word_aligned: "(x :: u32) AND NOT 3 = x \<longleftrightarrow> take_bit 2 x = 0"
proof
  have c: "(3 :: u32) = mask 2" by (simp add: mask_eq_exp_minus_1)
  show "take_bit 2 x = 0" if "x AND NOT 3 = x"
    by (subst that [symmetric], unfold c, rule bit_word_eqI) (simp only: word_bits, simp)
  show "x AND NOT 3 = x" if t: "take_bit 2 x = 0"
  proof -
    have "\<not> (bit x n \<and> n < 2)" for n
      using arg_cong [OF t, of "\<lambda>y. bit y n"] by (auto simp: bit_take_bit_iff)
    then show ?thesis
      unfolding c by (intro bit_word_eqI) (simp only: word_bits, blast)
  qed
qed

lemma word_aligned_add:
  assumes x: "take_bit 2 (x :: u32) = 0"
  shows "take_bit 2 (x + 4 * y) = 0"
proof -
  have "x = push_bit 2 (drop_bit 2 x)" using bits_ident [of 2 x] x by simp
  then have "x = 4 * drop_bit 2 x" by (simp add: push_bit_eq_mult mult.commute)
  then have "x + 4 * y = 4 * (drop_bit 2 x + y)" by (metis distrib_left)
  then have "x + 4 * y = push_bit 2 (drop_bit 2 x + y)" by (simp add: push_bit_eq_mult mult.commute)
  then show ?thesis by (simp only: take_bit_push_bit) simp
qed

text \<open>Cycle counts the scheduler accepts, read back as signed numbers.\<close>

lemma sint_in_range: "0 \<le> v \<Longrightarrow> v \<le> 200000000 \<Longrightarrow> sint (word_of_int v :: u32) = v"
  by (simp add: signed_of_int signed_take_bit_int_eq_self)

end
