(* ===== verification/Sh4_State.thy ===== *)
theory Sh4_State
  imports Flycast_Prelude
begin

text \<open>
  The data model: the SH4 register file (\<^verbatim>\<open>hw/sh4/sh4_if.h\<close>), the static variables of the
  interrupt controller, of the scheduler, of the MMU, of the timers, of the Holly interrupt
  controller, of the graphics chip and of the address space, and the record of all of them, the machine. The
  parts of the emulator that are not modelled (the renderer, the sound chip, the drives) are a
  value of the type parameter \<open>'d\<close> of the machine, and the functions through which the
  modelled code reaches them are the fields of the record \<open>env\<close>.

  C arrays with an index that the code masks to the array's size are functions on a word of
  that width (\<open>r[16]\<close> on \<open>4 word\<close>), so that no index is out of range.
\<close>

section \<open>Status registers\<close>

text \<open>
  \<^verbatim>\<open>sr_t\<close>: the status register with its T bit kept apart. The bit fields of the union are
  read and written with \<^const>\<open>fld\<close> and \<^const>\<open>set_fld\<close>.
\<close>

record sr_t =
  sr_status :: u32
  sr_T :: u32

definition SR_MASK :: u32 where
  "SR_MASK = 0x700083F2"

definition getFull :: "sr_t \<Rightarrow> u32" where
  "getFull sr = (sr_status sr AND SR_MASK) OR sr_T sr"

definition setFull :: "u32 \<Rightarrow> sr_t" where
  "setFull v = \<lparr>sr_status = v AND SR_MASK, sr_T = v AND 1\<rparr>"

definition st_S :: "u32 \<Rightarrow> u32" where "st_S = fld 1 1"
definition st_IMASK :: "u32 \<Rightarrow> u32" where "st_IMASK = fld 4 4"
definition st_Q :: "u32 \<Rightarrow> u32" where "st_Q = fld 8 1"
definition st_M :: "u32 \<Rightarrow> u32" where "st_M = fld 9 1"
definition st_FD :: "u32 \<Rightarrow> u32" where "st_FD = fld 15 1"
definition st_BL :: "u32 \<Rightarrow> u32" where "st_BL = fld 28 1"
definition st_RB :: "u32 \<Rightarrow> u32" where "st_RB = fld 29 1"
definition st_MD :: "u32 \<Rightarrow> u32" where "st_MD = fld 30 1"

definition set_S :: "u32 \<Rightarrow> u32 \<Rightarrow> u32" where "set_S = set_fld 1 1"
definition set_Q :: "u32 \<Rightarrow> u32 \<Rightarrow> u32" where "set_Q = set_fld 8 1"
definition set_M :: "u32 \<Rightarrow> u32 \<Rightarrow> u32" where "set_M = set_fld 9 1"
definition set_BL :: "u32 \<Rightarrow> u32 \<Rightarrow> u32" where "set_BL = set_fld 28 1"
definition set_RB :: "u32 \<Rightarrow> u32 \<Rightarrow> u32" where "set_RB = set_fld 29 1"
definition set_MD :: "u32 \<Rightarrow> u32 \<Rightarrow> u32" where "set_MD = set_fld 30 1"

lemmas st_defs = st_S_def st_IMASK_def st_Q_def st_M_def st_FD_def st_BL_def st_RB_def st_MD_def
lemmas set_st_defs = set_S_def set_Q_def set_M_def set_BL_def set_RB_def set_MD_def

text \<open>The fields of \<^verbatim>\<open>fpscr_t\<close> that the code reads.\<close>

definition fp_RM :: "u32 \<Rightarrow> u32" where "fp_RM = fld 0 2"
definition fp_DN :: "u32 \<Rightarrow> u32" where "fp_DN = fld 18 1"
definition fp_PR :: "u32 \<Rightarrow> u32" where "fp_PR = fld 19 1"
definition fp_SZ :: "u32 \<Rightarrow> u32" where "fp_SZ = fld 20 1"
definition fp_FR :: "u32 \<Rightarrow> u32" where "fp_FR = fld 21 1"

section \<open>The SH4 context\<close>

text \<open>
  \<^verbatim>\<open>Sh4Context\<close>. Floating-point registers are held as their bit patterns. The store queues
  (\<^verbatim>\<open>sq_buffer\<close>) are a block of the address space and live with its memory. The function
  pointer \<^verbatim>\<open>doSqWrite\<close> is null or one of the handlers of \<^verbatim>\<open>storeq.cpp\<close>.
\<close>

datatype SQWriteFunc =
    sqWrite_null | sqWrite_mmu | sqWrite_nommu | sqWrite_nommu_area_3 | sqWrite_nommu_area_3_nonvmem | sqWriteTA

record Sh4Context =
  ctx_xf :: "4 word \<Rightarrow> u32"
  ctx_fr :: "4 word \<Rightarrow> u32"
  ctx_r :: "4 word \<Rightarrow> u32"
  ctx_mac :: u64
  ctx_r_bank :: "3 word \<Rightarrow> u32"
  ctx_gbr :: u32
  ctx_ssr :: u32
  ctx_spc :: u32
  ctx_sgr :: u32
  ctx_dbr :: u32
  ctx_vbr :: u32
  ctx_pr :: u32
  ctx_fpul :: u32
  ctx_pc :: u32
  ctx_sr :: sr_t
  ctx_fpscr :: u32
  ctx_old_sr :: u32
  ctx_old_fpscr :: u32
  ctx_CpuRunning :: bool
  ctx_sh4_sched_next :: u32
  ctx_interrupt_pend :: u32
  ctx_cycle_counter :: u32
  ctx_doSqWrite :: SQWriteFunc

text \<open>\<^verbatim>\<open>mac\<close> is a union of the 64-bit \<open>full\<close> and the halves \<open>l\<close>, \<open>h\<close> (little endian).\<close>

definition mac_l :: "Sh4Context \<Rightarrow> u32" where
  "mac_l c = ucast (ctx_mac c)"

definition mac_h :: "Sh4Context \<Rightarrow> u32" where
  "mac_h c = ucast (drop_bit 32 (ctx_mac c))"

definition set_mac_l :: "u32 \<Rightarrow> Sh4Context \<Rightarrow> Sh4Context" where
  "set_mac_l v = ctx_mac_update (set_fld 0 32 (ucast v))"

definition set_mac_h :: "u32 \<Rightarrow> Sh4Context \<Rightarrow> Sh4Context" where
  "set_mac_h v = ctx_mac_update (set_fld 32 32 (ucast v))"

definition set_r :: "4 word \<Rightarrow> u32 \<Rightarrow> Sh4Context \<Rightarrow> Sh4Context" where
  "set_r n v = ctx_r_update (\<lambda>rs. rs(n := v))"

definition set_T :: "u32 \<Rightarrow> Sh4Context \<Rightarrow> Sh4Context" where
  "set_T v = ctx_sr_update (sr_T_update (\<lambda>_. v))"

definition upd_status :: "(u32 \<Rightarrow> u32) \<Rightarrow> Sh4Context \<Rightarrow> Sh4Context" where
  "upd_status f = ctx_sr_update (sr_status_update f)"

definition ctx_T :: "Sh4Context \<Rightarrow> u32" where
  "ctx_T c = sr_T (ctx_sr c)"

definition ctx_status :: "Sh4Context \<Rightarrow> u32" where
  "ctx_status c = sr_status (ctx_sr c)"

section \<open>State of the interrupt controller\<close>

text \<open>
  The static variables of \<^verbatim>\<open>sh4_interrupts.cpp\<close> and the three priority registers of the
  INTC module. The arrays are indexed by \<open>InterruptID\<close>, by bit number and by level.
\<close>

record interrupts =
  InterruptEnvId :: "nat \<Rightarrow> u16"
  InterruptBit :: "nat \<Rightarrow> u32"
  InterruptLevelBit :: "nat \<Rightarrow> u32"
  interrupt_vpend :: u32
  interrupt_vmask :: u32
  decoded_srimask :: u32
  INTC_IPRA :: u16
  INTC_IPRB :: u16
  INTC_IPRC :: u16

section \<open>CCN registers and TLBs\<close>

text \<open>
  The registers of the CCN module the code reads, and \<open>CCN_QACR_TR[0]\<close> of \<^verbatim>\<open>storeq.cpp\<close>, the
  base of the store queue transfers that is derived from \<open>CCN_QACR0\<close>.
\<close>

record ccn_regs =
  CCN_PTEH :: u32
  CCN_PTEL :: u32
  CCN_TEA :: u32
  CCN_MMUCR :: u32
  CCN_TRA :: u32
  CCN_EXPEVT :: u32
  CCN_INTEVT :: u32
  CCN_PTEA :: u32
  CCN_QACR0 :: u32
  CCN_QACR1 :: u32
  CCN_QACR_TR :: u32
  CCN_CCR :: u32

record TLB_Entry =
  Address :: u32
  Data :: u32
  Assistance :: u32

record mmu_state =
  UTLB :: "6 word \<Rightarrow> TLB_Entry"
  ITLB :: "2 word \<Rightarrow> TLB_Entry"
  ITLB_LRU_USE :: "6 word \<Rightarrow> u32"
  mmuOn :: bool
  sq_remap :: "6 word \<Rightarrow> u32"

section \<open>Scheduler, cycle counter, address space\<close>

text \<open>
  An element of \<^verbatim>\<open>sch_list\<close>: callback pointer (\<open>None\<close> for a null pointer), argument, tag,
  start and end time. Times are C \<open>int\<close>s.
\<close>

record sched_list =
  sched_cb :: "nat option"
  sched_arg :: nat
  sched_tag :: u32
  sched_start :: u32
  sched_end :: u32

record sched_state =
  sh4_sched_ffb :: u64
  sch_list :: "sched_list list"
  sh4_sched_next_id :: int

text \<open>\<open>EX\<close> is a keyword of HOL, so that constructor has a suffix.\<close>

datatype sh4_eu = MT | EX_unit | BR | LS | FE | CO

record cycles_state =
  lastUnit :: sh4_eu
  memOps :: u32

text \<open>
  An element of \<^verbatim>\<open>memInfo_ptr\<close>, the table indexed by the upper 8 bits of an address: a
  handler number (the pointer part is null), or the base of a host memory block and the
  shift that is kept in the low 5 bits of the pointer.
\<close>

datatype meminfo = Handler nat | Block nat nat

section \<open>Caches\<close>

text \<open>
  The lines of \<^verbatim>\<open>Sh4ICache\<close> (256) and of \<^verbatim>\<open>Sh4OCache\<close> (512) and the times at which the two
  write buffers of the latter are empty again.
\<close>

record icache_line =
  il_valid :: bool
  il_address :: u32
  il_data :: "5 word \<Rightarrow> u8"

record ocache_line =
  ol_valid :: bool
  ol_dirty :: bool
  ol_address :: u32
  ol_data :: "5 word \<Rightarrow> u8"

record caches =
  icache_lines :: "8 word \<Rightarrow> icache_line"
  ocache_lines :: "9 word \<Rightarrow> ocache_line"
  writeBackBufferCycles :: u64
  writeThroughBufferCycles :: u64

section \<open>Peripheral registers\<close>

text \<open>
  The register arrays of the modules of the SH4 (\<^verbatim>\<open>sh4_mmr.cpp\<close>), by module. The registers
  that the modelled code reads by name are fields of their own: those of \<open>ccn_regs\<close>, the
  priorities of the INTC, and \<open>TSTR\<close>, \<open>TCOR\<close> and \<open>TCR\<close> of the timers.
\<close>

datatype p4_module = CCN | UBC | BSC | DMAC | CPG | RTC | INTC | TMU | SCI | SCIF

record tmu_state =
  TMU_TSTR :: u8
  TMU_TCOR :: "nat \<Rightarrow> u32"
  TMU_TCR :: "nat \<Rightarrow> u16"
  tmu_shift :: "nat \<Rightarrow> u32"
  tmu_mask :: "nat \<Rightarrow> u64"
  old_mode :: "nat \<Rightarrow> u32"
  tmu_sched :: "nat \<Rightarrow> int"
  tmu_ch_base :: "nat \<Rightarrow> u64"

record holly_regs =
  SB_ISTNRM :: u32
  SB_ISTNRM1 :: u32
  SB_ISTEXT :: u32
  SB_ISTERR :: u32
  SB_IML2NRM :: u32
  SB_IML2EXT :: u32
  SB_IML2ERR :: u32
  SB_IML4NRM :: u32
  SB_IML4EXT :: u32
  SB_IML4ERR :: u32
  SB_IML6NRM :: u32
  SB_IML6EXT :: u32
  SB_IML6ERR :: u32

section \<open>The graphics chip\<close>

text \<open>
  The registers of the PowerVR (\<^verbatim>\<open>pvr_regs\<close>, an array of bytes as in the source), the window of
  video memory the renderer watches, the YUV converter of \<^verbatim>\<open>pvr_mem.cpp\<close> and the variables of
  the sync pulse generator, \<^verbatim>\<open>spg.cpp\<close>.
\<close>

record pvr_state =
  pvr_regs :: "u32 \<Rightarrow> u8"
  pal_needs_update :: bool
  fb_watch_addr_start :: u32
  fb_watch_addr_end :: u32
  fb_dirty :: bool
  YUV_tempdata :: "u32 \<Rightarrow> u8"
  YUV_dest :: u32
  YUV_blockcount :: u32
  YUV_x_curr :: u32
  YUV_y_curr :: u32
  YUV_x_size :: u32
  YUV_y_size :: u32
  YUV_index :: u32

record spg_state =
  clc_pvr_scanline :: u32
  pvr_numscanlines :: u32
  prv_cur_scanline :: u32
  Line_Cycles :: u32
  Frame_Cycles :: u32
  render_end_schid :: int
  vblank_schid :: int
  lightgun_line :: u32
  lightgun_hpos :: u32
  lightgun_flip :: u32
  maple_int_pending :: bool

section \<open>The serial port\<close>

text \<open>The members of \<^verbatim>\<open>SCIFSerialPort\<close>. \<open>scif_pipe\<close> says whether a pipe is attached.\<close>

record scif_state =
  scif_pipe :: bool
  schedId :: int
  brkSchedId :: int
  frameSize :: int
  cyclesPerBit :: int
  statusLastRead :: u16
  txFifo :: "u8 list"
  rxFifo :: "u8 list"
  transmitting :: bool

section \<open>The machine\<close>

record 'd machine =
  m_ctx :: Sh4Context
  m_intc :: interrupts
  m_ccn :: ccn_regs
  m_mmu :: mmu_state
  m_sched :: sched_state
  m_cycles :: cycles_state
  m_map :: "8 word \<Rightarrow> meminfo"
  m_mem :: "nat \<Rightarrow> u32 \<Rightarrow> u8"
  m_tmu :: tmu_state
  m_holly :: holly_regs
  m_p4 :: "p4_module \<Rightarrow> nat \<Rightarrow> u32"
  m_sb :: "nat \<Rightarrow> u32"
  m_cache :: caches
  m_ocr :: "u32 \<Rightarrow> u8"
  m_scif :: scif_state
  m_pvr :: pvr_state
  m_spg :: spg_state
  m_dev :: 'd

text \<open>
  What the modelled code calls and this development does not define. The handler tables
  \<^verbatim>\<open>RF8\<close> to \<^verbatim>\<open>WF32\<close> of \<^verbatim>\<open>addrspace.cpp\<close> hold one function per handler number; the scheduler
calls back by callback number; \<open>e_data_translation\<close> (its first argument is true for a
  write), \<open>e_instruction_translation\<close> and \<open>e_UTLB_Sync\<close> are the address translation, of which
  the repository has two, \<^verbatim>\<open>mmu.cpp\<close> and \<^verbatim>\<open>fastmmu.cpp\<close>; the opcodes of branches call the
  interpreter's delay slot routine; \<open>e_fpu\<close> stands for the handlers of \<^verbatim>\<open>sh4_fpu.cpp\<close>, by
  opcode.
\<close>

type_synonym ('d, 'a) SM = "('d machine, 'a) M"

text \<open>\<^verbatim>\<open>enum class MmuError\<close> of \<^verbatim>\<open>modules/mmu.h\<close>.\<close>

datatype MmuError = NONE | TLB_MISS | TLB_MHIT | PROTECTED | FIRSTWRITE | BADADDR

record 'd env =
  e_RF8 :: "nat \<Rightarrow> u32 \<Rightarrow> ('d, u8) SM"
  e_RF16 :: "nat \<Rightarrow> u32 \<Rightarrow> ('d, u16) SM"
  e_RF32 :: "nat \<Rightarrow> u32 \<Rightarrow> ('d, u32) SM"
  e_WF8 :: "nat \<Rightarrow> u32 \<Rightarrow> u8 \<Rightarrow> ('d, unit) SM"
  e_WF16 :: "nat \<Rightarrow> u32 \<Rightarrow> u16 \<Rightarrow> ('d, unit) SM"
  e_WF32 :: "nat \<Rightarrow> u32 \<Rightarrow> u32 \<Rightarrow> ('d, unit) SM"
  e_data_translation :: "bool \<Rightarrow> u32 \<Rightarrow> ('d, MmuError \<times> u32) SM"
  e_instruction_translation :: "u32 \<Rightarrow> ('d, MmuError \<times> u32) SM"
  e_UTLB_Sync :: "u32 \<Rightarrow> 'd machine \<Rightarrow> bool \<times> 'd machine"
  e_sched_cb :: "nat \<Rightarrow> u32 \<Rightarrow> u32 \<Rightarrow> u32 \<Rightarrow> nat \<Rightarrow> 'd machine \<Rightarrow> u32 \<times> 'd machine"
  e_doSqWrite :: "SQWriteFunc \<Rightarrow> u32 \<Rightarrow> ('d, unit) SM"
  e_fpu :: "u32 \<Rightarrow> ('d, unit) SM"
  e_reios_trap :: "u32 \<Rightarrow> ('d, unit) SM"
  e_ExecuteDelayslot :: "('d, unit) SM"
  e_ExecuteDelayslot_RTE :: "('d, unit) SM"

definition on_ctx :: "(Sh4Context \<Rightarrow> Sh4Context) \<Rightarrow> 'd machine \<Rightarrow> 'd machine" where
  "on_ctx f = m_ctx_update f"

text \<open>The machine as the loader leaves it: every static variable as it is initialised, zero where it is not.\<close>

definition zero_ctx :: Sh4Context where
  "zero_ctx = \<lparr>ctx_xf = (\<lambda>_. 0), ctx_fr = (\<lambda>_. 0), ctx_r = (\<lambda>_. 0),
    ctx_mac = 0, ctx_r_bank = (\<lambda>_. 0), ctx_gbr = 0, ctx_ssr = 0, ctx_spc = 0, ctx_sgr = 0,
    ctx_dbr = 0, ctx_vbr = 0, ctx_pr = 0, ctx_fpul = 0, ctx_pc = 0,
    ctx_sr = \<lparr>sr_status = 0, sr_T = 0\<rparr>, ctx_fpscr = 0, ctx_old_sr = 0, ctx_old_fpscr = 0,
    ctx_CpuRunning = False, ctx_sh4_sched_next = 0, ctx_interrupt_pend = 0,
    ctx_cycle_counter = 0, ctx_doSqWrite = sqWrite_null\<rparr>"

definition zero_intc :: interrupts where
  "zero_intc = \<lparr>InterruptEnvId = (\<lambda>_. 0), InterruptBit = (\<lambda>_. 0), InterruptLevelBit = (\<lambda>_. 0),
    interrupt_vpend = 0, interrupt_vmask = 0, decoded_srimask = 0,
    INTC_IPRA = 0, INTC_IPRB = 0, INTC_IPRC = 0\<rparr>"

definition zero_entry :: TLB_Entry where
  "zero_entry = \<lparr>Address = 0, Data = 0, Assistance = 0\<rparr>"

definition zero_machine :: "'d \<Rightarrow> 'd machine" where
  "zero_machine d = \<lparr>m_ctx = zero_ctx, m_intc = zero_intc,
    m_ccn = \<lparr>CCN_PTEH = 0, CCN_PTEL = 0, CCN_TEA = 0, CCN_MMUCR = 0, CCN_TRA = 0,
      CCN_EXPEVT = 0, CCN_INTEVT = 0, CCN_PTEA = 0, CCN_QACR0 = 0, CCN_QACR1 = 0,
      CCN_QACR_TR = 0, CCN_CCR = 0\<rparr>,
    m_mmu = \<lparr>UTLB = (\<lambda>_. zero_entry), ITLB = (\<lambda>_. zero_entry), ITLB_LRU_USE = (\<lambda>_. 0),
      mmuOn = False, sq_remap = (\<lambda>_. 0)\<rparr>,
    m_sched = \<lparr>sh4_sched_ffb = 0, sch_list = [], sh4_sched_next_id = -1\<rparr>,
    m_cycles = \<lparr>lastUnit = CO, memOps = 0\<rparr>,
    m_map = (\<lambda>_. Handler 0), m_mem = (\<lambda>_ _. 0),
    m_tmu = \<lparr>TMU_TSTR = 0, TMU_TCOR = (\<lambda>_. 0), TMU_TCR = (\<lambda>_. 0), tmu_shift = (\<lambda>_. 0),
      tmu_mask = (\<lambda>_. 0), old_mode = (\<lambda>_. 0xFFFF), tmu_sched = (\<lambda>_. 0), tmu_ch_base = (\<lambda>_. 0)\<rparr>,
    m_holly = \<lparr>SB_ISTNRM = 0, SB_ISTNRM1 = 0, SB_ISTEXT = 0, SB_ISTERR = 0,
      SB_IML2NRM = 0, SB_IML2EXT = 0, SB_IML2ERR = 0, SB_IML4NRM = 0, SB_IML4EXT = 0,
      SB_IML4ERR = 0, SB_IML6NRM = 0, SB_IML6EXT = 0, SB_IML6ERR = 0\<rparr>,
    m_p4 = (\<lambda>_ _. 0), m_sb = (\<lambda>_. 0),
    m_cache = \<lparr>icache_lines = (\<lambda>_. \<lparr>il_valid = False, il_address = 0, il_data = (\<lambda>_. 0)\<rparr>),
      ocache_lines = (\<lambda>_. \<lparr>ol_valid = False, ol_dirty = False, ol_address = 0, ol_data = (\<lambda>_. 0)\<rparr>),
      writeBackBufferCycles = 0, writeThroughBufferCycles = 0\<rparr>,
    m_ocr = (\<lambda>_. 0),
    m_scif = \<lparr>scif_pipe = False, schedId = -1, brkSchedId = -1, frameSize = 10, cyclesPerBit = 32770,
      statusLastRead = 0, txFifo = [], rxFifo = [], transmitting = False\<rparr>,
    m_pvr = \<lparr>pvr_regs = (\<lambda>_. 0), pal_needs_update = True, fb_watch_addr_start = 0,
      fb_watch_addr_end = 0, fb_dirty = False, YUV_tempdata = (\<lambda>_. 0), YUV_dest = 0,
      YUV_blockcount = 0, YUV_x_curr = 0, YUV_y_curr = 0, YUV_x_size = 0, YUV_y_size = 0,
      YUV_index = 0\<rparr>,
    m_spg = \<lparr>clc_pvr_scanline = 0, pvr_numscanlines = 512, prv_cur_scanline = -1, Line_Cycles = 0,
      Frame_Cycles = 0, render_end_schid = 0, vblank_schid = 0, lightgun_line = 0xffff,
      lightgun_hpos = 0, lightgun_flip = 0, maple_int_pending = False\<rparr>,
    m_dev = d\<rparr>"

text \<open>An environment in which nothing happens, for the concrete instances.\<close>

definition idle_env :: "'d env" where
  "idle_env = \<lparr>e_RF8 = (\<lambda>_ _. returnM 0), e_RF16 = (\<lambda>_ _. returnM 0), e_RF32 = (\<lambda>_ _. returnM 0),
     e_WF8 = (\<lambda>_ _ _. returnM ()), e_WF16 = (\<lambda>_ _ _. returnM ()), e_WF32 = (\<lambda>_ _ _. returnM ()),
     e_data_translation = (\<lambda>_ a. returnM (NONE, a)), e_instruction_translation = (\<lambda>a. returnM (NONE, a)),
     e_UTLB_Sync = (\<lambda>_ s. (True, s)), e_sched_cb = (\<lambda>_ _ _ _ _ s. (0, s)),
     e_doSqWrite = (\<lambda>_ _. returnM ()), e_fpu = (\<lambda>_. returnM ()), e_reios_trap = (\<lambda>_. returnM ()),
     e_ExecuteDelayslot = returnM (), e_ExecuteDelayslot_RTE = returnM ()\<rparr>"

end
