(* ===== verification/Addrspace.thy ===== *)
theory Addrspace
  imports Sh4_State
begin

text \<open>
  The physical address space, \<^verbatim>\<open>hw/mem/addrspace.cpp\<close>, and the map of the Dreamcast's areas,
  \<^verbatim>\<open>hw/sh4/sh4_mem.cpp\<close>. A page of 16 MB is served by a handler or is a window into a block
  of host memory. A block is a number (its host address in the source) and its contents are
  bytes; an offset is reduced to the size of the block by the two shifts of the source. The
  source shifts a 32-bit variable by the pointer itself, which relies on the host taking the
  shift count modulo 32; the low 5 bits of the pointer are the shift.

  The specification is a memory of bytes: a write is read back, and nothing else changes.
\<close>

section \<open>Little-endian access to a block\<close>

definition ld16 :: "(u32 \<Rightarrow> u8) \<Rightarrow> u32 \<Rightarrow> u16" where
  "ld16 f a = ucast (f a) OR push_bit 8 (ucast (f (a + 1)))"

definition ld32 :: "(u32 \<Rightarrow> u8) \<Rightarrow> u32 \<Rightarrow> u32" where
  "ld32 f a = ucast (ld16 f a) OR push_bit 16 (ucast (ld16 f (a + 2)))"

definition ld64 :: "(u32 \<Rightarrow> u8) \<Rightarrow> u32 \<Rightarrow> u64" where
  "ld64 f a = ucast (ld32 f a) OR push_bit 32 (ucast (ld32 f (a + 4)))"

definition st16 :: "u32 \<Rightarrow> u16 \<Rightarrow> (u32 \<Rightarrow> u8) \<Rightarrow> u32 \<Rightarrow> u8" where
  "st16 a v f = f(a := ucast v, a + 1 := ucast (drop_bit 8 v))"

definition st32 :: "u32 \<Rightarrow> u32 \<Rightarrow> (u32 \<Rightarrow> u8) \<Rightarrow> u32 \<Rightarrow> u8" where
  "st32 a v f = st16 (a + 2) (ucast (drop_bit 16 v)) (st16 a (ucast v) f)"

definition st64 :: "u32 \<Rightarrow> u64 \<Rightarrow> (u32 \<Rightarrow> u8) \<Rightarrow> u32 \<Rightarrow> u8" where
  "st64 a v f = st32 (a + 4) (ucast (drop_bit 32 v)) (st32 a (ucast v) f)"

section \<open>readt and writet\<close>

definition page_of :: "u32 \<Rightarrow> 8 word" where
  "page_of addr = ucast (drop_bit 24 addr)"

definition wrap_addr :: "nat \<Rightarrow> u32 \<Rightarrow> u32" where
  "wrap_addr sh addr = drop_bit (sh mod 32) (push_bit (sh mod 32) addr)"

definition upd_block :: "nat \<Rightarrow> ((u32 \<Rightarrow> u8) \<Rightarrow> u32 \<Rightarrow> u8) \<Rightarrow> 'd machine \<Rightarrow> 'd machine" where
  "upd_block b f = m_mem_update (\<lambda>mem. mem(b := f (mem b)))"

definition readt8 :: "'d env \<Rightarrow> u32 \<Rightarrow> ('d, u8) SM" where
  "readt8 E addr s = (case m_map s (page_of addr) of
     Block b sh \<Rightarrow> Ret (m_mem s b (wrap_addr sh addr)) s
   | Handler h \<Rightarrow> e_RF8 E h addr s)"

definition readt16 :: "'d env \<Rightarrow> u32 \<Rightarrow> ('d, u16) SM" where
  "readt16 E addr s = (case m_map s (page_of addr) of
     Block b sh \<Rightarrow> Ret (ld16 (m_mem s b) (wrap_addr sh addr)) s
   | Handler h \<Rightarrow> e_RF16 E h addr s)"

definition readt32 :: "'d env \<Rightarrow> u32 \<Rightarrow> ('d, u32) SM" where
  "readt32 E addr s = (case m_map s (page_of addr) of
     Block b sh \<Rightarrow> Ret (ld32 (m_mem s b) (wrap_addr sh addr)) s
   | Handler h \<Rightarrow> e_RF32 E h addr s)"

definition readt64 :: "'d env \<Rightarrow> u32 \<Rightarrow> ('d, u64) SM" where
  "readt64 E addr s = (case m_map s (page_of addr) of
     Block b sh \<Rightarrow> Ret (ld64 (m_mem s b) (wrap_addr sh addr)) s
   | Handler h \<Rightarrow>
       bindM (e_RF32 E h addr) (\<lambda>lo.
       bindM (e_RF32 E h (addr + 4)) (\<lambda>hi.
       returnM (ucast lo OR push_bit 32 (ucast hi)))) s)"

definition writet8 :: "'d env \<Rightarrow> u32 \<Rightarrow> u8 \<Rightarrow> ('d, unit) SM" where
  "writet8 E addr data s = (case m_map s (page_of addr) of
     Block b sh \<Rightarrow> Ret () (upd_block b (\<lambda>f. f(wrap_addr sh addr := data)) s)
   | Handler h \<Rightarrow> e_WF8 E h addr data s)"

definition writet16 :: "'d env \<Rightarrow> u32 \<Rightarrow> u16 \<Rightarrow> ('d, unit) SM" where
  "writet16 E addr data s = (case m_map s (page_of addr) of
     Block b sh \<Rightarrow> Ret () (upd_block b (st16 (wrap_addr sh addr) data) s)
   | Handler h \<Rightarrow> e_WF16 E h addr data s)"

definition writet32 :: "'d env \<Rightarrow> u32 \<Rightarrow> u32 \<Rightarrow> ('d, unit) SM" where
  "writet32 E addr data s = (case m_map s (page_of addr) of
     Block b sh \<Rightarrow> Ret () (upd_block b (st32 (wrap_addr sh addr) data) s)
   | Handler h \<Rightarrow> e_WF32 E h addr data s)"

definition writet64 :: "'d env \<Rightarrow> u32 \<Rightarrow> u64 \<Rightarrow> ('d, unit) SM" where
  "writet64 E addr data s = (case m_map s (page_of addr) of
     Block b sh \<Rightarrow> Ret () (upd_block b (st64 (wrap_addr sh addr) data) s)
   | Handler h \<Rightarrow>
       bindM (e_WF32 E h addr (ucast data)) (\<lambda>_.
       e_WF32 E h (addr + 4) (ucast (drop_bit 32 data))) s)"

section \<open>Mapping functions\<close>

text \<open>
  \<^verbatim>\<open>FindMask\<close> counts up to the shift that turns \<open>-1\<close> into the mask; for a word that is not
  a mask its loop does not end, which is \<open>None\<close> here. The 32 shift counts are all the
  different ones of the host.
\<close>

definition FindMask :: "u32 \<Rightarrow> nat option" where
  "FindMask msk = List.find (\<lambda>rv. msk = drop_bit rv 0xFFFFFFFF) [0..<32]"

type_synonym memmap = "8 word \<Rightarrow> meminfo"

definition mapHandler :: "nat \<Rightarrow> nat \<Rightarrow> nat \<Rightarrow> memmap \<Rightarrow> memmap" where
  "mapHandler h start end m = fold (\<lambda>i m. m(of_nat i := Handler h)) [start..<Suc end] m"

text \<open>
  The entry is \<open>&base[j & mask] + FindMask(mask) - (j & mask)\<close>, which is the base with the
  shift in its low bits, whatever \<open>j\<close>.
\<close>

definition mapBlock :: "nat \<Rightarrow> nat \<Rightarrow> nat \<Rightarrow> u32 \<Rightarrow> memmap \<Rightarrow> memmap option" where
  "mapBlock base start end msk m = (case FindMask msk of None \<Rightarrow> None
     | Some sh \<Rightarrow> Some (fold (\<lambda>i m. m(of_nat i := Block base sh)) [start..<Suc end] m))"

definition mirrorMapping :: "nat \<Rightarrow> nat \<Rightarrow> nat \<Rightarrow> memmap \<Rightarrow> memmap" where
  "mirrorMapping new_region start sz m =
     fold (\<lambda>k m. m(of_nat (new_region + k) := m (of_nat (start + k)))) [0..<sz] m"

text \<open>\<^verbatim>\<open>mapBlockMirror\<close>: one block mapped again and again. It is called with a block of at
  least one page; a smaller one would make the loop of the source endless.\<close>

function mapBlockMirror_loop ::
  "nat \<Rightarrow> nat \<Rightarrow> nat \<Rightarrow> nat \<Rightarrow> u32 \<Rightarrow> memmap \<Rightarrow> memmap option" where
  "mapBlockMirror_loop base maip end block_size msk m =
     (if end < maip then Some m
      else if block_size = 0 then None
      else case mapBlock base maip (maip + block_size - 1) msk m of
        None \<Rightarrow> None
      | Some m' \<Rightarrow> mapBlockMirror_loop base (maip + block_size) end block_size msk m')"
  by pat_completeness auto
termination
  by (relation "measure (\<lambda>(_, maip, end, _, _, _). Suc end - maip)") auto

definition mapBlockMirror :: "nat \<Rightarrow> nat \<Rightarrow> nat \<Rightarrow> u32 \<Rightarrow> memmap \<Rightarrow> memmap option" where
  "mapBlockMirror base start end blck_size m =
     mapBlockMirror_loop base start end (unat (drop_bit 24 blck_size)) (blck_size - 1) m"

definition addrspace_init :: memmap where
  "addrspace_init = (\<lambda>_. Handler 0)"

section \<open>The memory map of the system\<close>

text \<open>
  The handler numbers that the registrations return, and the host blocks. \<open>a_elan\<close> is set
  on a Naomi 2, whose geometry processor maps area 2.
\<close>

record areas =
  a_area0 :: nat
  a_area0_mirror :: nat
  a_area1_32b :: nat
  a_area4_lower :: nat
  a_area4_upper :: nat
  a_area5 :: nat
  a_area7_ocr :: nat
  a_p4arrays :: nat
  a_p4mmr :: nat
  a_elan :: "(nat \<times> nat \<times> nat) option"
  a_vram :: nat
  a_ram :: nat
  a_elan_ram :: nat
  a_sq :: nat
  VRAM_MASK :: u32
  RAM_SIZE :: u32
  ELAN_RAM_MASK :: u32

definition RAM_MASK :: "areas \<Rightarrow> u32" where
  "RAM_MASK a = RAM_SIZE a - 1"

definition map_area0 :: "areas \<Rightarrow> nat \<Rightarrow> memmap \<Rightarrow> memmap" where
  "map_area0 a base m = mapHandler (a_area0_mirror a) (0x02 OR base) (0x03 OR base)
     (mapHandler (a_area0 a) (0x00 OR base) (0x01 OR base) m)"

definition map_area1 :: "areas \<Rightarrow> nat \<Rightarrow> memmap \<Rightarrow> memmap option" where
  "map_area1 a base m = map_option (\<lambda>m1.
       mirrorMapping (0x06 OR base) (0x04 OR base) 0x02
         (mapHandler (a_area1_32b a) (0x05 OR base) (0x05 OR base) m1))
     (mapBlock (a_vram a) (0x04 OR base) (0x04 OR base) (VRAM_MASK a) m)"

definition elan_vmem_map :: "areas \<Rightarrow> nat \<Rightarrow> memmap \<Rightarrow> memmap option" where
  "elan_vmem_map a base m = (case a_elan a of None \<Rightarrow> Some m
     | Some (reg, cmd, ram) \<Rightarrow> mapBlock (a_elan_ram a) (base OR 0xA) (base OR 0xB) (ELAN_RAM_MASK a)
         (mapHandler ram (base OR 0xA) (base OR 0xB)
           (mapHandler cmd (base OR 9) (base OR 9)
             (mapHandler reg (base OR 8) (base OR 8) m))))"

definition map_area3 :: "areas \<Rightarrow> nat \<Rightarrow> memmap \<Rightarrow> memmap option" where
  "map_area3 a base m = mapBlockMirror (a_ram a) (0x0C OR base) (0x0F OR base) (RAM_SIZE a) m"

definition map_area4 :: "areas \<Rightarrow> nat \<Rightarrow> memmap \<Rightarrow> memmap" where
  "map_area4 a base m = mapHandler (a_area4_upper a) (0x13 OR base) (0x13 OR base)
     (mapHandler (a_area4_lower a) (0x11 OR base) (0x11 OR base) m)"

definition map_area5 :: "areas \<Rightarrow> nat \<Rightarrow> memmap \<Rightarrow> memmap" where
  "map_area5 a base m = mapHandler (a_area5 a) (base OR 0x14) (base OR 0x17) m"

definition map_area7 :: "areas \<Rightarrow> memmap \<Rightarrow> memmap" where
  "map_area7 a m = mapHandler (a_area7_ocr a) 0x7C 0x7F m"

definition map_p4 :: "areas \<Rightarrow> memmap \<Rightarrow> memmap option" where
  "map_p4 a m =
    Option.bind (mapBlock (a_sq a) 0xE0 0xE0 63 m) (\<lambda>m.
    Option.bind (mapBlock (a_sq a) 0xE1 0xE1 63 m) (\<lambda>m.
    Option.bind (mapBlock (a_sq a) 0xE2 0xE2 63 m) (\<lambda>m.
    Option.bind (mapBlock (a_sq a) 0xE3 0xE3 63 m) (\<lambda>m.
    Some (mapHandler (a_p4mmr a) 0xFF 0xFF (mapHandler (a_p4arrays a) 0xF0 0xF7 m))))))"

definition map_areas :: "areas \<Rightarrow> nat \<Rightarrow> memmap \<Rightarrow> memmap option" where
  "map_areas a base m =
    Option.bind (map_area1 a base (map_area0 a base m)) (\<lambda>m.
    Option.bind (elan_vmem_map a base m) (\<lambda>m.
    Option.bind (map_area3 a base m) (\<lambda>m.
    Some (map_area5 a base (map_area4 a base m)))))"

definition mem_map_default :: "areas \<Rightarrow> memmap option" where
  "mem_map_default a =
    Option.bind (fold (\<lambda>i mo. Option.bind mo (map_areas a (push_bit 5 i))) [0..<8]
      (Some addrspace_init)) (\<lambda>m. map_p4 a (map_area7 a m))"

section \<open>Direct pointers\<close>

text \<open>\<^verbatim>\<open>GetMemPtr\<close> returns a pointer into main memory (here the offset) or null.\<close>

definition GetMemPtr :: "areas \<Rightarrow> u32 \<Rightarrow> u32 \<Rightarrow> u32 option" where
  "GetMemPtr a addr sz =
    (if drop_bit 29 addr AND 7 = 7 then None
     else if drop_bit 26 addr AND 7 = 3 then
       (if RAM_SIZE a < (addr AND RAM_MASK a) + sz then None else Some (addr AND RAM_MASK a))
     else None)"

definition IsOnRam :: "u32 \<Rightarrow> bool" where
  "IsOnRam addr \<longleftrightarrow> drop_bit 26 addr AND 7 = 3 \<and> drop_bit 29 addr AND 7 \<noteq> 7"

section \<open>Bytes of a store\<close>

lemma ld16_st16 [simp]: "ld16 (st16 a v f) a = v"
  unfolding ld16_def st16_def by (rule bit_word_eqI) (auto simp: bit_simps)

lemma ld16_bit: "bit (ld16 f a) i \<longleftrightarrow> (if i < 8 then bit (f a) i else bit (f (a + 1)) (i - 8))"
  by (auto simp: ld16_def bit_simps dest: bit_imp_le_length)

lemma st16_other: "x \<noteq> a \<Longrightarrow> x \<noteq> a + 1 \<Longrightarrow> st16 a v f x = f x"
  by (simp add: st16_def)

lemma ld16_cong: "f a = g a \<Longrightarrow> f (a + 1) = g (a + 1) \<Longrightarrow> ld16 f a = ld16 g a"
  by (simp add: ld16_def)

lemma st32_other:
  "x \<noteq> a \<Longrightarrow> x \<noteq> a + 1 \<Longrightarrow> x \<noteq> a + 2 \<Longrightarrow> x \<noteq> a + 3 \<Longrightarrow> st32 a v f x = f x"
  by (simp add: st32_def st16_def add.assoc)

lemma ld32_cong:
  "f a = g a \<Longrightarrow> f (a + 1) = g (a + 1) \<Longrightarrow> f (a + 2) = g (a + 2) \<Longrightarrow> f (a + 3) = g (a + 3) \<Longrightarrow>
   ld32 f a = ld32 g a"
  by (simp add: ld32_def ld16_def add.assoc)

lemma ld32_st32 [simp]: "ld32 (st32 a v f) a = v"
proof -
  have "ld16 (st32 a v f) a = ucast v"
  proof -
    have "ld16 (st32 a v f) a = ld16 (st16 a (ucast v) f) a"
      by (rule ld16_cong) (simp_all add: st32_def st16_def add.assoc)
    then show ?thesis by simp
  qed
  moreover have "ld16 (st32 a v f) (a + 2) = ucast (drop_bit 16 v)"
    by (simp add: st32_def)
  ultimately show ?thesis
    unfolding ld32_def by (intro bit_word_eqI) (auto simp: bit_simps)
qed

lemma ld64_st64 [simp]: "ld64 (st64 a v f) a = v"
proof -
  have "ld32 (st64 a v f) a = ucast v"
  proof -
    have "ld32 (st64 a v f) a = ld32 (st32 a (ucast v) f) a"
      by (rule ld32_cong; unfold st64_def; rule st32_other) (simp_all add: add.assoc)
    then show ?thesis by simp
  qed
  moreover have "ld32 (st64 a v f) (a + 4) = ucast (drop_bit 32 v)"
    by (simp add: st64_def)
  ultimately show ?thesis
    unfolding ld64_def by (intro bit_word_eqI) (auto simp: bit_simps)
qed

text \<open>A word stored at one aligned offset does not disturb the words at the others.\<close>

lemma aligned_word_add:
  fixes p q :: u32
  assumes "p AND NOT 3 = p" "q AND NOT 3 = q" "p + of_nat i = q + of_nat j" "i < 4" "j < 4"
  shows "p = q"
proof -
  have c: "(3 :: u32) = mask 2" by (simp add: mask_eq_exp_minus_1)
  have top: "x + of_nat k AND NOT 3 = x" if x: "x AND NOT 3 = x" and k: "k < 4" for x :: u32 and k
  proof -
    have t: "take_bit 2 (of_nat k :: u32) = of_nat k"
      using k by (simp add: take_bit_of_nat take_bit_nat_eq_self)
    have lo: "bit (of_nat k :: u32) n \<Longrightarrow> n < 2" for n
      using t by (metis bit_take_bit_iff)
    have hi: "bit x n \<Longrightarrow> 2 \<le> n" for n
      using x unfolding c by (metis bit_and_iff bit_mask_iff bit_not_iff not_le_imp_less bit_imp_le_length possible_bit_word)
    have "x + of_nat k = x OR of_nat k"
    proof -
      have "\<not> (bit x n \<and> bit (of_nat k :: u32) n)" for n using lo [of n] hi [of n] by auto
      then have "x AND of_nat k = 0"
        by (intro bit_word_eqI) (simp add: bit_and_iff)
      then show ?thesis using word_plus_and_or [of x "of_nat k"] by simp
    qed
    moreover have "(x OR of_nat k) AND NOT 3 = x"
      unfolding c by (rule bit_word_eqI) (simp only: word_bits, auto dest: lo hi)
    ultimately show ?thesis by simp
  qed
  show ?thesis using top [OF assms(1,4)] top [OF assms(2,5)] assms(3) by simp
qed

lemma ld32_st32_aligned:
  assumes "p AND NOT 3 = p" "q AND NOT 3 = q"
  shows "ld32 (st32 p v f) q = (if q = p then v else ld32 f q)"
proof (cases "q = p")
  case False
  have d: "q + of_nat i \<noteq> p + of_nat j" if "i < 4" "j < 4" for i j
    using aligned_word_add [OF assms(2,1) _ that] False by blast
  have o: "st32 p v f (q + of_nat i) = f (q + of_nat i)" if "i < 4" for i
    using d [OF that, of 0] d [OF that, of 1] d [OF that, of 2] d [OF that, of 3]
    by (intro st32_other) (simp_all add: add.commute)
  have "ld32 (st32 p v f) q = ld32 f q"
    using o [of 0] o [of 1] o [of 2] o [of 3] by (intro ld32_cong) simp_all
  then show ?thesis using False by simp
qed simp

section \<open>The wrap of an offset\<close>

lemma wrap_addr_take: "sh < 32 \<Longrightarrow> wrap_addr sh addr = take_bit (32 - sh) addr"
  unfolding wrap_addr_def
  by (rule bit_word_eqI) (auto simp: bit_simps dest: bit_imp_le_length)

lemma FindMask_mask:
  assumes "0 < k" "k \<le> 32"
  shows "FindMask (mask k) = Some (32 - k)"
proof -
  have eq: "drop_bit rv (0xFFFFFFFF :: u32) = mask (32 - rv)" if "rv < 32" for rv
  proof -
    have "(0xFFFFFFFF :: u32) = - 1" by simp
    then show ?thesis
      using that by (intro bit_word_eqI) (simp only: bit_drop_bit_eq, auto simp: bit_simps)
  qed
  have inj: "j = k" if "(mask k :: u32) = mask j" "j \<le> 32" for j
  proof -
    have "(bit (mask k :: u32) i \<longleftrightarrow> i < k) \<and> (bit (mask j :: u32) i \<longleftrightarrow> i < j)" for i
      using assms that(2) by (auto simp: bit_mask_iff)
    then have "i < k \<longleftrightarrow> i < j" for i using that(1) by metis
    then show ?thesis by (meson linorder_neqE_nat less_irrefl)
  qed
  have "List.find (\<lambda>rv. mask k = drop_bit rv (0xFFFFFFFF :: u32)) [0..<32] = Some (32 - k)"
    unfolding find_Some_iff
  proof (intro exI [of _ "32 - k"] conjI allI impI)
    show "(mask k :: u32) = drop_bit ([0..<32] ! (32 - k)) 0xFFFFFFFF"
      using assms by (subst eq) simp_all
    fix j assume j: "j < 32 - k"
    show "(mask k :: u32) \<noteq> drop_bit ([0..<32] ! j) 0xFFFFFFFF"
    proof
      assume "(mask k :: u32) = drop_bit ([0..<32] ! j) 0xFFFFFFFF"
      with j have "(mask k :: u32) = mask (32 - j)" by (simp add: eq)
      from inj [OF this] j show False by simp
    qed
  qed (use assms in simp_all)
  then show ?thesis by (simp add: FindMask_def)
qed

text \<open>The result of \<^verbatim>\<open>FindMask\<close> makes the two shifts of an access the reduction by the mask.\<close>

lemma FindMask_wrap:
  assumes "FindMask msk = Some sh"
  shows "wrap_addr sh addr = addr AND msk"
proof -
  from assms have sh: "sh < 32" and m: "msk = drop_bit sh 0xFFFFFFFF"
    by (auto simp: FindMask_def find_Some_iff)
  have "(0xFFFFFFFF :: u32) = - 1" by simp
  with sh have "msk = mask (32 - sh)"
    unfolding m by (intro bit_word_eqI) (simp only: bit_drop_bit_eq, auto simp: bit_simps)
  with sh show ?thesis by (simp add: wrap_addr_take take_bit_eq_mask)
qed

section \<open>What the mapping functions do\<close>

lemma of_nat_page: "i < 256 \<Longrightarrow> p = (of_nat i :: 8 word) \<longleftrightarrow> unat p = i"
  by (auto simp: unsigned_of_nat take_bit_nat_eq_self)

lemma fold_map_upd:
  "n \<le> 256 \<Longrightarrow> fold (\<lambda>i m. m(of_nat i := v)) [s..<n] m (p :: 8 word) =
     (if s \<le> unat p \<and> unat p < n then v else m p)"
proof (induction n)
  case (Suc n)
  then show ?case by (cases "s \<le> n") (auto simp: of_nat_page less_Suc_eq)
qed simp

lemma mapHandler_apply:
  "e < 256 \<Longrightarrow> mapHandler h s e m p = (if s \<le> unat p \<and> unat p \<le> e then Handler h else m p)"
  unfolding mapHandler_def by (subst fold_map_upd) auto

lemma mapBlock_apply:
  "e < 256 \<Longrightarrow> mapBlock b s e msk m = Some m' \<Longrightarrow>
   \<exists>sh. FindMask msk = Some sh \<and>
     m' p = (if s \<le> unat p \<and> unat p \<le> e then Block b sh else m p)"
  unfolding mapBlock_def by (auto split: option.splits simp del: upt_Suc simp: fold_map_upd)

text \<open>The memory sizes of the platforms (\<^verbatim>\<open>setPlatform\<close> in \<^verbatim>\<open>emulator.cpp\<close>).\<close>

definition areas_wf :: "areas \<Rightarrow> bool" where
  "areas_wf a \<longleftrightarrow> RAM_SIZE a \<in> {0x1000000, 0x2000000} \<and> VRAM_MASK a \<in> {0x7FFFFF, 0xFFFFFF} \<and>
     ELAN_RAM_MASK a = 0x1FFFFFF"

lemma FindMask_sizes:
  "FindMask 0xFFFFFF = Some 8" "FindMask 0x1FFFFFF = Some 7" "FindMask 0x7FFFFF = Some 9"
  "FindMask 63 = Some 26"
  using FindMask_mask [of 24] FindMask_mask [of 25] FindMask_mask [of 23] FindMask_mask [of 6]
  by (simp_all add: mask_eq_exp_minus_1)

definition ram_shift :: "areas \<Rightarrow> nat" where
  "ram_shift a = (if RAM_SIZE a = 0x1000000 then 8 else 7)"

lemma ram_shift: "areas_wf a \<Longrightarrow> FindMask (RAM_MASK a) = Some (ram_shift a)"
  by (auto simp: areas_wf_def ram_shift_def RAM_MASK_def FindMask_sizes)

definition vram_shift :: "areas \<Rightarrow> nat" where
  "vram_shift a = (if VRAM_MASK a = 0x7FFFFF then 9 else 8)"

lemma vram_shift: "areas_wf a \<Longrightarrow> FindMask (VRAM_MASK a) = Some (vram_shift a)"
  by (auto simp: areas_wf_def vram_shift_def FindMask_sizes)

lemma mapBlock_Some:
  "FindMask msk = Some sh \<Longrightarrow> e < 256 \<Longrightarrow> \<exists>m'. mapBlock b s e msk m = Some m' \<and>
     (\<forall>p. m' p = (if s \<le> unat p \<and> unat p \<le> e then Block b sh else m p))"
  unfolding mapBlock_def by (auto simp del: upt_Suc simp: fold_map_upd)

lemma bank_cases:
  fixes i :: nat
  assumes "i < 8"
  obtains "i = 0" | "i = 1" | "i = 2" | "i = 3" | "i = 4" | "i = 5" | "i = 6" | "i = 7"
  using assms by linarith

text \<open>Bit-or with an area number is addition: the low five bits of a base are clear.\<close>

lemma or_base:
  assumes "k < 32"
  shows "(k :: nat) OR push_bit 5 i = k + 32 * i" "push_bit 5 i OR k = 32 * i + k"
proof -
  have k: "take_bit 5 k = k" using assms by (simp add: take_bit_nat_eq_self)
  have "k OR push_bit 5 i = k + push_bit 5 i"
  proof (rule disjunctive_add [symmetric])
    fix n
    have "bit (take_bit 5 k) n \<longrightarrow> n < 5" by (simp add: bit_take_bit_iff)
    then show "\<not> bit k n \<or> \<not> bit (push_bit 5 i) n" unfolding k by (auto simp: bit_push_bit_iff)
  qed
  then show "k OR push_bit 5 i = k + 32 * i" "push_bit 5 i OR k = 32 * i + k"
    by (simp_all add: push_bit_eq_mult or.commute)
qed

lemma or_base_0_1: "0 OR push_bit 5 i = 32 * (i :: nat)" "Suc 0 OR push_bit 5 i = Suc (32 * i)"
  using or_base [of 0 i] or_base [of 1 i] by simp_all

lemma mapBlockMirror_loop_Some:
  assumes "FindMask msk = Some sh" "0 < bs" "e < 256" "Suc e = maip + bs * k"
  shows "\<exists>m'. mapBlockMirror_loop b maip e bs msk m = Some m' \<and>
    (\<forall>p. m' p = (if maip \<le> unat p \<and> unat p \<le> e then Block b sh else m p))"
  using assms(4)
proof (induction k arbitrary: maip m)
  case 0
  then show ?case by auto
next
  case (Suc k)
  have "bs \<le> bs * Suc k" by simp
  with Suc.prems assms(2,3) have le: "maip + bs - 1 < 256" "maip + bs - 1 \<le> e" "\<not> e < maip"
    by linarith+
  obtain m1 where m1: "mapBlock b maip (maip + bs - 1) msk m = Some m1"
    "\<And>p. m1 p = (if maip \<le> unat p \<and> unat p \<le> maip + bs - 1 then Block b sh else m p)"
    using mapBlock_Some [OF assms(1) le(1)] by blast
  have "Suc e = maip + bs + bs * k" using Suc.prems by simp
  from Suc.IH [OF this] obtain m' where m': "mapBlockMirror_loop b (maip + bs) e bs msk m1 = Some m'"
    "\<And>p. m' p = (if maip + bs \<le> unat p \<and> unat p \<le> e then Block b sh else m1 p)" by blast
  have "mapBlockMirror_loop b maip e bs msk m = Some m'"
    using m1(1) m'(1) le assms(2) by (subst mapBlockMirror_loop.simps) simp
  moreover have "m' p = (if maip \<le> unat p \<and> unat p \<le> e then Block b sh else m p)" for p
    using le assms(2) by (auto simp: m'(2) m1(2))
  ultimately show ?case by blast
qed

lemma map_area3_Some:
  assumes "areas_wf a" "i < 8"
  shows "\<exists>m'. map_area3 a (push_bit 5 i) m = Some m' \<and>
    (\<forall>p. m' p = (if 12 + 32 * i \<le> unat p \<and> unat p \<le> 15 + 32 * i
       then Block (a_ram a) (ram_shift a) else m p))"
proof -
  let ?bs = "unat (drop_bit 24 (RAM_SIZE a))"
  have "?bs = 1 \<or> ?bs = 2" using assms(1) by (auto simp: areas_wf_def)
  then have "0 < ?bs" "Suc (15 + 32 * i) = 12 + 32 * i + ?bs * (4 div ?bs)" by auto
  from mapBlockMirror_loop_Some [OF ram_shift [OF assms(1)] this(1) _ this(2), of "a_ram a" m]
  show ?thesis
    using assms(2) by (simp add: map_area3_def mapBlockMirror_def or_base RAM_MASK_def)
qed

text \<open>What an area map leaves alone: everything outside its 32 pages, and the RAM pages.\<close>

lemma mirrorMapping_2:
  "mirrorMapping n st 2 m p = (if p = of_nat (n + 1) then (m(of_nat n := m (of_nat st))) (of_nat (st + 1))
     else if p = of_nat n then m (of_nat st) else m p)"
  by (simp add: mirrorMapping_def numeral_2_eq_2 add.commute)

lemma map_area1_Some:
  assumes "areas_wf a" "i < 8"
  shows "\<exists>m'. map_area1 a (push_bit 5 i) m = Some m' \<and>
    (\<forall>p. \<not> (4 + 32 * i \<le> unat p \<and> unat p \<le> 7 + 32 * i) \<longrightarrow> m' p = m p) \<and>
    (\<forall>p. unat p = 4 + 32 * i \<longrightarrow> m' p = Block (a_vram a) (vram_shift a))"
proof -
  from mapBlock_Some [OF vram_shift [OF assms(1)], of "4 + 32 * i" "a_vram a" "4 + 32 * i" m] assms(2)
  obtain m1 where m1: "mapBlock (a_vram a) (4 + 32 * i) (4 + 32 * i) (VRAM_MASK a) m = Some m1"
    "\<And>p. m1 p = (if 4 + 32 * i \<le> unat p \<and> unat p \<le> 4 + 32 * i then Block (a_vram a) (vram_shift a) else m p)"
    by auto
  show ?thesis
    using assms(2) of_nat_page [of "7 + 32 * i" _] of_nat_page [of "6 + 32 * i" _]
    by (simp add: map_area1_def or_base m1(1) mirrorMapping_2 mapHandler_apply m1(2))
qed

lemma elan_vmem_map_Some:
  assumes "areas_wf a" "i < 8"
  shows "\<exists>m'. elan_vmem_map a (push_bit 5 i) m = Some m' \<and>
    (\<forall>p. \<not> (8 + 32 * i \<le> unat p \<and> unat p \<le> 11 + 32 * i) \<longrightarrow> m' p = m p)"
proof -
  have f: "FindMask (ELAN_RAM_MASK a) = Some 7" using assms(1) by (simp add: areas_wf_def FindMask_sizes)
  show ?thesis
  proof (cases "a_elan a")
    case (Some hs)
    obtain r c h where hs: "hs = (r, c, h)" by (cases hs)
    let ?m = "mapHandler h (32 * i + 10) (32 * i + 11) (mapHandler c (32 * i + 9) (32 * i + 9)
      (mapHandler r (32 * i + 8) (32 * i + 8) m))"
    from mapBlock_Some [OF f, of "32 * i + 11" "a_elan_ram a" "32 * i + 10" ?m] assms(2)
    show ?thesis by (auto simp: elan_vmem_map_def Some hs or_base mapHandler_apply)
  qed (simp add: elan_vmem_map_def)
qed

lemma map_areas_Some:
  assumes "areas_wf a" "i < 8"
  shows "\<exists>m'. map_areas a (push_bit 5 i) m = Some m' \<and>
    (\<forall>p. unat p div 32 \<noteq> i \<longrightarrow> m' p = m p) \<and>
    (\<forall>p. 12 + 32 * i \<le> unat p \<and> unat p \<le> 15 + 32 * i \<longrightarrow> m' p = Block (a_ram a) (ram_shift a)) \<and>
    (\<forall>p. unat p = 4 + 32 * i \<longrightarrow> m' p = Block (a_vram a) (vram_shift a))"
proof -
  let ?b = "push_bit 5 i"
  obtain m1 where m1: "map_area1 a ?b (map_area0 a ?b m) = Some m1"
    "\<And>p. \<not> (4 + 32 * i \<le> unat p \<and> unat p \<le> 7 + 32 * i) \<Longrightarrow> m1 p = map_area0 a ?b m p"
    "\<And>p. unat p = 4 + 32 * i \<Longrightarrow> m1 p = Block (a_vram a) (vram_shift a)"
    using map_area1_Some [OF assms] by blast
  obtain m2 where m2: "elan_vmem_map a ?b m1 = Some m2"
    "\<And>p. \<not> (8 + 32 * i \<le> unat p \<and> unat p \<le> 11 + 32 * i) \<Longrightarrow> m2 p = m1 p"
    using elan_vmem_map_Some [OF assms] by blast
  obtain m3 where m3: "map_area3 a ?b m2 = Some m3"
    "\<And>p. m3 p = (if 12 + 32 * i \<le> unat p \<and> unat p \<le> 15 + 32 * i
       then Block (a_ram a) (ram_shift a) else m2 p)"
    using map_area3_Some [OF assms] by blast
  let ?m = "map_area5 a ?b (map_area4 a ?b m3)"
  have "map_areas a ?b m = Some ?m" by (simp add: map_areas_def m1(1) m2(1) m3(1))
  moreover have "?m p = m p" if "unat p div 32 \<noteq> i" for p
  proof -
    have out: "\<not> (32 * i \<le> unat p \<and> unat p \<le> 31 + 32 * i)" using that by auto
    then show ?thesis
      using assms(2) m1(2) [of p] m2(2) [of p]
      by (simp add: map_area5_def map_area4_def map_area0_def or_base or_base_0_1
          mapHandler_apply m3(2)) (auto simp: push_bit_eq_mult mapHandler_apply)
  qed
  moreover have "?m p = Block (a_ram a) (ram_shift a)"
    if "12 + 32 * i \<le> unat p \<and> unat p \<le> 15 + 32 * i" for p
    using that assms(2) by (simp add: map_area5_def map_area4_def or_base mapHandler_apply m3(2))
  moreover have "?m p = Block (a_vram a) (vram_shift a)" if "unat p = 4 + 32 * i" for p
    using that assms(2) m1(3) [OF that] m2(2) [of p]
    by (simp add: map_area5_def map_area4_def or_base mapHandler_apply m3(2))
  ultimately show ?thesis by blast
qed

text \<open>The whole map: every area 3 page outside P4 is main memory, and the first
  page of every area 1 is video memory.\<close>

lemma map_areas_fold:
  assumes "areas_wf a" "n \<le> 8"
  shows "\<exists>m'. fold (\<lambda>i mo. Option.bind mo (map_areas a (push_bit 5 i))) [0..<n] (Some m) = Some m' \<and>
    (\<forall>p. unat p div 32 < n \<and> unat p div 4 mod 8 = 3 \<longrightarrow> m' p = Block (a_ram a) (ram_shift a)) \<and>
    (\<forall>p. unat p div 32 < n \<and> unat p mod 32 = 4 \<longrightarrow> m' p = Block (a_vram a) (vram_shift a))"
  using assms(2)
proof (induction n)
  case (Suc n)
  then obtain m1 where m1: "fold (\<lambda>i mo. Option.bind mo (map_areas a (push_bit 5 i))) [0..<n] (Some m) = Some m1"
    "\<And>p. unat p div 32 < n \<and> unat p div 4 mod 8 = 3 \<Longrightarrow> m1 p = Block (a_ram a) (ram_shift a)"
    "\<And>p. unat p div 32 < n \<and> unat p mod 32 = 4 \<Longrightarrow> m1 p = Block (a_vram a) (vram_shift a)" by auto
  from map_areas_Some [OF assms(1), of n m1] Suc.prems obtain m2 where
    m2: "map_areas a (push_bit 5 n) m1 = Some m2" "\<And>p. unat p div 32 \<noteq> n \<Longrightarrow> m2 p = m1 p"
    "\<And>p. 12 + 32 * n \<le> unat p \<and> unat p \<le> 15 + 32 * n \<Longrightarrow> m2 p = Block (a_ram a) (ram_shift a)"
    "\<And>p. unat p = 4 + 32 * n \<Longrightarrow> m2 p = Block (a_vram a) (vram_shift a)"
    by auto
  have "m2 p = Block (a_ram a) (ram_shift a)" if "unat p div 32 < Suc n" "unat p div 4 mod 8 = 3" for p
  proof (cases "unat p div 32 = n")
    case True
    define q where "q = unat p div 4"
    have "q div 8 = n" using True by (simp add: q_def div_mult2_eq [symmetric])
    moreover have "q mod 8 = 3" using that(2) by (simp add: q_def)
    ultimately have "q = 8 * n + 3" using div_mult_mod_eq [of q 8] by simp
    then have "12 + 32 * n \<le> unat p \<and> unat p \<le> 15 + 32 * n"
      unfolding q_def by linarith
    then show ?thesis by (rule m2(3))
  next
    case False
    with that m1(2) [of p] m2(2) [of p] show ?thesis by simp
  qed
  moreover have "m2 p = Block (a_vram a) (vram_shift a)" if "unat p div 32 < Suc n" "unat p mod 32 = 4" for p
  proof (cases "unat p div 32 = n")
    case True
    then have "unat p = 4 + 32 * n" using that(2) div_mult_mod_eq [of "unat p" 32] by simp
    then show ?thesis by (rule m2(4))
  next
    case False
    with that m1(3) [of p] m2(2) [of p] show ?thesis by simp
  qed
  ultimately show ?case using m1(1) m2(1) by simp
qed simp

lemma mem_map_default_ram:
  assumes "areas_wf a"
  shows "\<exists>m. mem_map_default a = Some m \<and>
    (\<forall>p. unat p div 4 mod 8 = 3 \<and> unat p < 0xE0 \<longrightarrow> m p = Block (a_ram a) (ram_shift a)) \<and>
    (\<forall>p. unat p mod 32 = 4 \<and> unat p < 0xE0 \<longrightarrow> m p = Block (a_vram a) (vram_shift a))"
proof -
  obtain m1 where m1: "fold (\<lambda>i mo. Option.bind mo (map_areas a (push_bit 5 i))) [0..<8] (Some addrspace_init) = Some m1"
    "\<And>p. unat p div 32 < 8 \<and> unat p div 4 mod 8 = 3 \<Longrightarrow> m1 p = Block (a_ram a) (ram_shift a)"
    "\<And>p. unat p div 32 < 8 \<and> unat p mod 32 = 4 \<Longrightarrow> m1 p = Block (a_vram a) (vram_shift a)"
    using map_areas_fold [OF assms, of 8 addrspace_init] by auto
  have blk: "\<exists>m'. mapBlock (a_sq a) k k 63 m = Some m' \<and> (\<forall>p. unat p < 0xE0 \<longrightarrow> m' p = m p)"
    if "0xE0 \<le> k" "k < 256" for k and m :: memmap
    using mapBlock_Some [OF FindMask_sizes(4), of k "a_sq a" k m] that by auto
  let ?m = "map_area7 a m1"
  obtain m2 where m2: "mapBlock (a_sq a) 0xE0 0xE0 63 ?m = Some m2" "\<And>p. unat p < 0xE0 \<Longrightarrow> m2 p = ?m p"
    using blk [of "0xE0" ?m] by auto
  obtain m3 where m3: "mapBlock (a_sq a) 0xE1 0xE1 63 m2 = Some m3" "\<And>p. unat p < 0xE0 \<Longrightarrow> m3 p = m2 p"
    using blk [of "0xE1"] by auto
  obtain m4 where m4: "mapBlock (a_sq a) 0xE2 0xE2 63 m3 = Some m4" "\<And>p. unat p < 0xE0 \<Longrightarrow> m4 p = m3 p"
    using blk [of "0xE2"] by auto
  obtain m5 where m5: "mapBlock (a_sq a) 0xE3 0xE3 63 m4 = Some m5" "\<And>p. unat p < 0xE0 \<Longrightarrow> m5 p = m4 p"
    using blk [of "0xE3"] by auto
  let ?r = "mapHandler (a_p4mmr a) 0xFF 0xFF (mapHandler (a_p4arrays a) 0xF0 0xF7 m5)"
  have "mem_map_default a = Some ?r"
    by (simp only: mem_map_default_def m1(1) Option.bind.bind_lunit map_p4_def m2(1) m3(1) m4(1) m5(1))
  moreover have top: "?r p = m1 p" if "\<not> (0x7C \<le> unat p \<and> unat p \<le> 0x7F)" "unat p < 0xE0" for p
    using that m2(2) [of p] m3(2) [of p] m4(2) [of p] m5(2) [of p]
    by (auto simp: mapHandler_apply map_area7_def)
  moreover have "?r p = Block (a_vram a) (vram_shift a)" if "unat p mod 32 = 4" "unat p < 0xE0" for p
  proof -
    have "\<not> (0x7C \<le> unat p \<and> unat p \<le> 0x7F)"
    proof
      assume "0x7C \<le> unat p \<and> unat p \<le> 0x7F"
      then have "unat p div 32 = 3" by linarith
      with that(1) div_mult_mod_eq [of "unat p" 32] have "unat p = 100" by simp
      with \<open>0x7C \<le> unat p \<and> unat p \<le> 0x7F\<close> show False by simp
    qed
    with top [of p] m1(3) [of p] that show ?thesis by auto
  qed
  moreover have "?r p = Block (a_ram a) (ram_shift a)"
    if "unat p div 4 mod 8 = 3" "unat p < 0xE0" for p
  proof -
    have "?r p = ?m p" using that m2(2) m3(2) m4(2) m5(2) by (simp add: mapHandler_apply)
    also have "\<dots> = m1 p"
    proof -
      have "\<not> (0x7C \<le> unat p \<and> unat p \<le> 0x7F)"
      proof
        assume "0x7C \<le> unat p \<and> unat p \<le> 0x7F"
        then have "unat p div 4 = 31" by linarith
        with that(1) show False by simp
      qed
      then show ?thesis by (auto simp: map_area7_def mapHandler_apply)
    qed
    also have "\<dots> = Block (a_ram a) (ram_shift a)" using m1(2) [of p] that by auto
    finally show ?thesis .
  qed
  ultimately show ?thesis by blast
qed

section \<open>Main memory through the map\<close>

lemma unat_and_7: "unat (x AND 7 :: u32) = unat x mod 8"
proof -
  have "x AND 7 = take_bit 3 x" by (simp add: take_bit_eq_mask mask_eq_exp_minus_1)
  then show ?thesis
    by (simp only: unsigned_take_bit_eq) (simp add: take_bit_eq_mod)
qed

lemma unat_drop_bit: "unat (drop_bit n x :: u32) = unat x div 2 ^ n"
  using unsigned_less [of x, where 'a = nat]
  by (subst unsigned_drop_bit_eq) (simp add: take_bit_nat_eq_self drop_bit_eq_div)

lemma unat_page_of: "unat (page_of addr) = unat addr div 2 ^ 24"
proof -
  have "unat addr < 2 ^ 32" using unsigned_less [of addr, where 'a = nat] by simp
  then have "unat addr div 2 ^ 24 < 2 ^ 8" by (simp add: div_less_iff_less_mult)
  then show ?thesis
    by (simp add: page_of_def unsigned_ucast_eq unat_drop_bit take_bit_nat_eq_self)
qed

lemma IsOnRam_page:
  assumes "IsOnRam addr"
  shows "unat (page_of addr) div 4 mod 8 = 3" "unat (page_of addr) < 0xE0"
proof -
  have "unat (drop_bit 26 addr AND 7) = 3" using assms by (simp add: IsOnRam_def)
  then show "unat (page_of addr) div 4 mod 8 = 3"
    by (simp add: unat_and_7 unat_drop_bit unat_page_of div_mult2_eq [symmetric])
  have "unat (drop_bit 29 addr AND 7) \<noteq> 7"
    using assms by (auto simp: IsOnRam_def word_unat_eq_iff)
  then have "unat addr div 2 ^ 29 mod 8 \<noteq> 7" by (simp add: unat_and_7 unat_drop_bit)
  moreover have "unat addr div 2 ^ 29 < 8"
    using unsigned_less [of addr, where 'a = nat] by (simp add: div_less_iff_less_mult)
  ultimately have "unat addr div 2 ^ 29 \<noteq> 7" "unat addr div 2 ^ 29 < 8" by simp_all
  then have "unat addr div 2 ^ 24 div 32 < 7" by (simp add: div_mult2_eq [symmetric])
  then show "unat (page_of addr) < 0xE0" by (simp add: unat_page_of)
qed

text \<open>The state of a machine whose address space was set up by \<^verbatim>\<open>mem_map_default\<close>.\<close>

definition ram_mapped :: "areas \<Rightarrow> 'd machine \<Rightarrow> bool" where
  "ram_mapped a s \<longleftrightarrow> areas_wf a \<and> mem_map_default a = Some (m_map s)"

lemma ram_mapped_page:
  assumes "ram_mapped a s" "IsOnRam addr"
  shows "m_map s (page_of addr) = Block (a_ram a) (ram_shift a)"
    "wrap_addr (ram_shift a) addr = addr AND RAM_MASK a"
  using assms mem_map_default_ram [of a] IsOnRam_page [OF assms(2)]
    FindMask_wrap [OF ram_shift]
  by (auto simp: ram_mapped_def)

lemma vram_mapped_page:
  assumes "ram_mapped a s" "unat (page_of addr) mod 32 = 4" "unat (page_of addr) < 0xE0"
  shows "m_map s (page_of addr) = Block (a_vram a) (vram_shift a)"
    "wrap_addr (vram_shift a) addr = addr AND VRAM_MASK a"
  using assms mem_map_default_ram [of a] FindMask_wrap [OF vram_shift]
  by (auto simp: ram_mapped_def)

definition in_word_at :: "u32 \<Rightarrow> nat \<Rightarrow> u32 \<Rightarrow> bool" where
  "in_word_at off n x \<longleftrightarrow> unat (x - off) < n"

lemma upd_block_simps [simp]:
  "m_map (upd_block b f s) = m_map s" "m_ctx (upd_block b f s) = m_ctx s"
  "m_mem (upd_block b f s) b = f (m_mem s b)" "c \<noteq> b \<Longrightarrow> m_mem (upd_block b f s) c = m_mem s c"
  "m_intc (upd_block b f s) = m_intc s" "m_ccn (upd_block b f s) = m_ccn s"
  "m_mmu (upd_block b f s) = m_mmu s" "m_sched (upd_block b f s) = m_sched s"
  "m_dev (upd_block b f s) = m_dev s" "m_cycles (upd_block b f s) = m_cycles s"
  "m_tmu (upd_block b f s) = m_tmu s" "m_holly (upd_block b f s) = m_holly s"
  by (simp_all add: upd_block_def)

lemma st_outside:
  "\<not> in_word_at off 2 x \<Longrightarrow> st16 off v16 f x = f x"
  "\<not> in_word_at off 4 x \<Longrightarrow> st32 off v32 f x = f x"
  "\<not> in_word_at off 8 x \<Longrightarrow> st64 off v64 f x = f x"
  by (auto simp: in_word_at_def st64_def st32_def st16_def add.assoc)

section \<open>Properties\<close>

text \<open>C7: In the memory map the system sets up, a value written to main memory at any address
  of area 3 outside P4 is read back at every mirror of that address, in each access size; the
  registers are not touched and no byte outside the written ones changes.\<close>
theorem ram_write_read_mirror:
  assumes "ram_mapped a s" and "IsOnRam x" and "IsOnRam y" and "x AND RAM_MASK a = y AND RAM_MASK a"
  shows "bindM (writet8 E x vb) (\<lambda>_. readt8 E y) s =
      Ret vb (upd_block (a_ram a) (\<lambda>f. f(x AND RAM_MASK a := vb)) s) \<and>
    bindM (writet16 E x vh) (\<lambda>_. readt16 E y) s =
      Ret vh (upd_block (a_ram a) (st16 (x AND RAM_MASK a) vh) s) \<and>
    bindM (writet32 E x vw) (\<lambda>_. readt32 E y) s =
      Ret vw (upd_block (a_ram a) (st32 (x AND RAM_MASK a) vw) s) \<and>
    bindM (writet64 E x vq) (\<lambda>_. readt64 E y) s =
      Ret vq (upd_block (a_ram a) (st64 (x AND RAM_MASK a) vq) s) \<and>
    (\<not> in_word_at (x AND RAM_MASK a) 8 z \<longrightarrow> st64 (x AND RAM_MASK a) vq f z = f z)"
  using ram_mapped_page [OF assms(1,2)] ram_mapped_page [OF assms(1,3)] assms(4)
  by (simp add: writet8_def writet16_def writet32_def writet64_def readt8_def readt16_def
      readt32_def readt64_def st_outside)

definition dreamcast_areas :: areas where
  "dreamcast_areas = \<lparr>a_area0 = 1, a_area0_mirror = 2, a_area1_32b = 3, a_area4_lower = 4,
     a_area4_upper = 5, a_area5 = 6, a_area7_ocr = 7, a_p4arrays = 8, a_p4mmr = 9, a_elan = None,
     a_vram = 1, a_ram = 0, a_elan_ram = 2, a_sq = 3, VRAM_MASK = 0x7FFFFF, RAM_SIZE = 0x1000000,
     ELAN_RAM_MASK = 0x1FFFFFF\<rparr>"

definition mapped_machine :: "'d \<Rightarrow> 'd machine" where
  "mapped_machine d = (zero_machine d)\<lparr>m_map := the (mem_map_default dreamcast_areas)\<rparr>"

lemma mapped_machine_ram: "ram_mapped dreamcast_areas (mapped_machine d)"
proof -
  have "areas_wf dreamcast_areas" by (simp add: areas_wf_def dreamcast_areas_def)
  with mem_map_default_ram [OF this] show ?thesis
    by (auto simp: ram_mapped_def mapped_machine_def)
qed

lemma dreamcast_RAM: "RAM_MASK dreamcast_areas = 0xFFFFFF" "RAM_SIZE dreamcast_areas = 0x1000000"
  "a_ram dreamcast_areas = 0"
  by (simp_all add: RAM_MASK_def dreamcast_areas_def)

theorem ram_write_read_mirror_witness:
  "bindM (writet32 idle_env 0x8C000010 0x12345678) (\<lambda>_. readt32 idle_env 0xAD000010) (mapped_machine ()) =
     Ret 0x12345678 (upd_block 0 (st32 0x10 0x12345678) (mapped_machine ()))"
  using ram_write_read_mirror [OF mapped_machine_ram [of "()"], where x = "0x8C000010" and y = "0xAD000010"
      and E = idle_env and vw = "0x12345678"]
  by (simp add: IsOnRam_def dreamcast_RAM)

text \<open>C23: A direct pointer agrees with the address space: when \<open>GetMemPtr\<close> returns an offset of
  main memory for a block of at most the size of the memory, every byte of the block lies in
  main memory, and the first one is the byte the address space reads at the address; and it
  returns one for every address of main memory whose block does not run over its end.\<close>
theorem GetMemPtr_coherent:
  assumes "ram_mapped a s" and "sz \<le> RAM_SIZE a"
  shows "(case GetMemPtr a addr sz of
      Some off \<Rightarrow> IsOnRam addr \<and> readt8 E addr s = Ret (m_mem s (a_ram a) off) s \<and>
        unat off + unat sz \<le> unat (RAM_SIZE a)
    | None \<Rightarrow> \<not> IsOnRam addr \<or> unat (RAM_SIZE a) < unat (addr AND RAM_MASK a) + unat sz)"
proof -
  have size: "unat (RAM_SIZE a) \<le> 2 ^ 25" and wf: "areas_wf a"
    using assms(1) by (auto simp: ram_mapped_def areas_wf_def)
  have off: "unat (addr AND RAM_MASK a) \<le> 2 ^ 25"
  proof -
    have "addr AND RAM_MASK a \<le> RAM_MASK a" by (rule word_and_le1)
    then show ?thesis using wf by (auto simp: areas_wf_def RAM_MASK_def word_le_nat_alt)
  qed
  have "unat sz \<le> unat (RAM_SIZE a)" using assms(2) by (simp add: word_le_nat_alt)
  with size off have sum: "unat ((addr AND RAM_MASK a) + sz) = unat (addr AND RAM_MASK a) + unat sz"
    by (intro unat_add_lem [THEN iffD1]) simp
  show ?thesis
    using ram_mapped_page [OF assms(1), of addr]
    by (auto simp: GetMemPtr_def IsOnRam_def readt8_def word_less_nat_alt sum not_less
        split: if_splits)
qed

theorem GetMemPtr_coherent_witness:
  "readt8 idle_env 0x8C001234 (mapped_machine ()) =
     Ret (m_mem (mapped_machine ()) 0 0x1234) (mapped_machine ()) \<and>
   GetMemPtr dreamcast_areas 0x8CFFFFF0 32 = None"
  using GetMemPtr_coherent [OF mapped_machine_ram [of "()"], where sz = 4 and addr = "0x8C001234" and E = idle_env]
  by (simp add: GetMemPtr_def dreamcast_RAM)

end
