(* ===== verification/Sh4_Interrupts.thy ===== *)
theory Sh4_Interrupts
  imports Sh4_State
begin

text \<open>
  The SH4 interrupt controller, \<^verbatim>\<open>hw/sh4/sh4_interrupts.cpp\<close> and the register interface
  \<^verbatim>\<open>hw/sh4/modules/intc.cpp\<close>. The controller keeps one bit per interrupt source, allocated
  in the order of the priorities, so that the pending interrupt of the highest priority is
  the highest bit of \<open>interrupt_pend\<close>.

  The specification side is \<open>src_pending\<close>, \<open>src_enabled\<close> and the priority \<open>GetPrLvl\<close> of a
  source; \<open>intc_wf\<close> says how the bit allocation represents them.
\<close>

section \<open>Event codes and interrupt sources\<close>

text \<open>\<^verbatim>\<open>enum Sh4ExceptionCode\<close>.\<close>

abbreviation (input) "Sh4Ex_TlbMissRead \<equiv> (0x40 :: u16)"
abbreviation (input) "Sh4Ex_TlbMissWrite \<equiv> (0x60 :: u16)"
abbreviation (input) "Sh4Ex_TlbInitPageWrite \<equiv> (0x80 :: u16)"
abbreviation (input) "Sh4Ex_TlbProtViolRead \<equiv> (0xa0 :: u16)"
abbreviation (input) "Sh4Ex_TlbProtViolWrite \<equiv> (0xc0 :: u16)"
abbreviation (input) "Sh4Ex_AddressErrorRead \<equiv> (0xe0 :: u16)"
abbreviation (input) "Sh4Ex_AddressErrorWrite \<equiv> (0x100 :: u16)"
abbreviation (input) "Sh4Ex_TlbMultiHit \<equiv> (0x140 :: u16)"
abbreviation (input) "Sh4Ex_Trap \<equiv> (0x160 :: u16)"
abbreviation (input) "Sh4Ex_IllegalInstr \<equiv> (0x180 :: u16)"
abbreviation (input) "Sh4Ex_SlotIllegalInstr \<equiv> (0x1a0 :: u16)"
abbreviation (input) "Sh4Ex_UserBreak \<equiv> (0x1e0 :: u16)"
abbreviation (input) "Sh4Ex_ExtInterrupt9 \<equiv> (0x320 :: u16)"
abbreviation (input) "Sh4Ex_ExtInterruptB \<equiv> (0x360 :: u16)"
abbreviation (input) "Sh4Ex_ExtInterruptD \<equiv> (0x3a0 :: u16)"
abbreviation (input) "Sh4Ex_TMU0 \<equiv> (0x400 :: u16)"
abbreviation (input) "Sh4Ex_TMU1 \<equiv> (0x420 :: u16)"
abbreviation (input) "Sh4Ex_TMU2 \<equiv> (0x440 :: u16)"
abbreviation (input) "Sh4Ex_TMU2_TICPI2 \<equiv> (0x460 :: u16)"
abbreviation (input) "Sh4Ex_RTC_ATI \<equiv> (0x480 :: u16)"
abbreviation (input) "Sh4Ex_RTC_PRI \<equiv> (0x4a0 :: u16)"
abbreviation (input) "Sh4Ex_RTC_CUI \<equiv> (0x4c0 :: u16)"
abbreviation (input) "Sh4Ex_SCI_ERI \<equiv> (0x4e0 :: u16)"
abbreviation (input) "Sh4Ex_SCI_RXI \<equiv> (0x500 :: u16)"
abbreviation (input) "Sh4Ex_SCI_TXI \<equiv> (0x520 :: u16)"
abbreviation (input) "Sh4Ex_SCI_TEI \<equiv> (0x540 :: u16)"
abbreviation (input) "Sh4Ex_WDT \<equiv> (0x560 :: u16)"
abbreviation (input) "Sh4Ex_REF_RCMI \<equiv> (0x580 :: u16)"
abbreviation (input) "Sh4Ex_REF_ROVI \<equiv> (0x5a0 :: u16)"
abbreviation (input) "Sh4Ex_HUDI \<equiv> (0x600 :: u16)"
abbreviation (input) "Sh4Ex_GPIO \<equiv> (0x620 :: u16)"
abbreviation (input) "Sh4Ex_DMAC_DTME0 \<equiv> (0x640 :: u16)"
abbreviation (input) "Sh4Ex_DMAC_DTME1 \<equiv> (0x680 :: u16)"
abbreviation (input) "Sh4Ex_DMAC_DTME2 \<equiv> (0x680 :: u16)"
abbreviation (input) "Sh4Ex_DMAC_DTME3 \<equiv> (0x6a0 :: u16)"
abbreviation (input) "Sh4Ex_DMAC_DMAE \<equiv> (0x6c0 :: u16)"
abbreviation (input) "Sh4Ex_SCIF_ERI \<equiv> (0x700 :: u16)"
abbreviation (input) "Sh4Ex_SCIF_RXI \<equiv> (0x720 :: u16)"
abbreviation (input) "Sh4Ex_SCIF_BRI \<equiv> (0x740 :: u16)"
abbreviation (input) "Sh4Ex_SCIF_TXI \<equiv> (0x760 :: u16)"
abbreviation (input) "Sh4Ex_FpuDisabled \<equiv> (0x800 :: u16)"
abbreviation (input) "Sh4Ex_SlotFpuDisabled \<equiv> (0x820 :: u16)"

text \<open>\<^verbatim>\<open>enum InterruptID\<close>, the sources this development names.\<close>

abbreviation (input) "sh4_IRL_9 \<equiv> (0 :: nat)"
abbreviation (input) "sh4_IRL_11 \<equiv> (1 :: nat)"
abbreviation (input) "sh4_IRL_13 \<equiv> (2 :: nat)"
abbreviation (input) "sh4_DMAC_DMTE1 \<equiv> (6 :: nat)"
abbreviation (input) "sh4_DMAC_DMTE2 \<equiv> (7 :: nat)"
abbreviation (input) "sh4_TMU0_TUNI0 \<equiv> (10 :: nat)"
abbreviation (input) "sh4_INT_ID_COUNT \<equiv> (28 :: nat)"

text \<open>
  \<^verbatim>\<open>InterptSourceList_Entry\<close>: the priority register, the shift of its 4-bit field, the
  event code. \<open>IRLPriority\<close> is the constant 0x0246 of the source.
\<close>

datatype prio_reg = IRLP | GIPA | GIPB | GIPC

definition prio_reg_value :: "prio_reg \<Rightarrow> interrupts \<Rightarrow> u16" where
  "prio_reg_value p i = (case p of
     IRLP \<Rightarrow> 0x0246 | GIPA \<Rightarrow> INTC_IPRA i | GIPB \<Rightarrow> INTC_IPRB i | GIPC \<Rightarrow> INTC_IPRC i)"

definition InterruptSourceList :: "(prio_reg \<times> nat \<times> u16) list" where
  "InterruptSourceList =
   [(IRLP, 0, Sh4Ex_ExtInterrupt9),
    (IRLP, 4, Sh4Ex_ExtInterruptB),
    (IRLP, 8, Sh4Ex_ExtInterruptD),
    (GIPC, 4 * 0, Sh4Ex_HUDI),
    (GIPC, 4 * 3, Sh4Ex_GPIO),
    (GIPC, 4 * 2, Sh4Ex_DMAC_DTME0),
    (GIPC, 4 * 2, Sh4Ex_DMAC_DTME1),
    (GIPC, 4 * 2, Sh4Ex_DMAC_DTME2),
    (GIPC, 4 * 2, Sh4Ex_DMAC_DTME3),
    (GIPC, 4 * 2, Sh4Ex_DMAC_DMAE),
    (GIPA, 4 * 3, Sh4Ex_TMU0),
    (GIPA, 4 * 2, Sh4Ex_TMU1),
    (GIPA, 4 * 1, Sh4Ex_TMU2),
    (GIPA, 4 * 1, Sh4Ex_TMU2_TICPI2),
    (GIPA, 4 * 0, Sh4Ex_RTC_ATI),
    (GIPA, 4 * 0, Sh4Ex_RTC_PRI),
    (GIPA, 4 * 0, Sh4Ex_RTC_CUI),
    (GIPB, 4 * 1, Sh4Ex_SCI_ERI),
    (GIPB, 4 * 1, Sh4Ex_SCI_RXI),
    (GIPB, 4 * 1, Sh4Ex_SCI_TXI),
    (GIPB, 4 * 1, Sh4Ex_SCI_TEI),
    (GIPC, 4 * 1, Sh4Ex_SCIF_ERI),
    (GIPC, 4 * 1, Sh4Ex_SCIF_RXI),
    (GIPC, 4 * 1, Sh4Ex_SCIF_BRI),
    (GIPC, 4 * 1, Sh4Ex_SCIF_TXI),
    (GIPB, 4 * 3, Sh4Ex_WDT),
    (GIPB, 4 * 2, Sh4Ex_REF_RCMI),
    (GIPA, 4 * 2, Sh4Ex_REF_ROVI)]"

definition IntEvnCode :: "nat \<Rightarrow> u16" where
  "IntEvnCode isrc = snd (snd (InterruptSourceList ! isrc))"

definition GetPrLvl :: "interrupts \<Rightarrow> nat \<Rightarrow> nat" where
  "GetPrLvl i isrc = (case InterruptSourceList ! isrc of
     (PrioReg, Shift, _) \<Rightarrow> unat (drop_bit Shift (prio_reg_value PrioReg i) AND 0xF))"

section \<open>The operations\<close>

definition recalc_pending_itrs :: "'d machine \<Rightarrow> 'd machine" where
  "recalc_pending_itrs s = on_ctx (ctx_interrupt_pend_update (\<lambda>_.
     interrupt_vpend (m_intc s) AND interrupt_vmask (m_intc s) AND decoded_srimask (m_intc s))) s"

text \<open>\<^verbatim>\<open>SRdecode\<close> returns whether an interrupt is pending, as \<^verbatim>\<open>UpdateSR\<close> then does.\<close>

definition SRdecode :: "'d machine \<Rightarrow> bool \<times> 'd machine" where
  "SRdecode s =
    (let srimask = (if st_BL (ctx_status (m_ctx s)) \<noteq> 0 then NOT 0xFFFFFFFF
           else NOT (InterruptLevelBit (m_intc s) (unat (st_IMASK (ctx_status (m_ctx s))))));
         s' = recalc_pending_itrs (m_intc_update (decoded_srimask_update (\<lambda>_. srimask)) s)
     in (ctx_interrupt_pend (m_ctx s') \<noteq> 0, s'))"

text \<open>
  \<^verbatim>\<open>SIIDRebuild\<close>: the body of the two nested loops, then the loops. \<open>vpend\<close> and \<open>vmask\<close> are
  the vectors before the rebuild, \<open>cnt\<close> the next free bit.
\<close>

definition siid_src ::
  "u32 \<Rightarrow> u32 \<Rightarrow> nat \<Rightarrow> nat \<Rightarrow> interrupts \<times> nat \<Rightarrow> interrupts \<times> nat" where
  "siid_src vpend vmask ilevel isrc = (\<lambda>(i, cnt).
     if GetPrLvl i isrc = ilevel then
       let p = InterruptBit i isrc AND vpend;
           m = InterruptBit i isrc AND vmask;
           b = push_bit cnt 1
       in (i\<lparr>InterruptEnvId := (InterruptEnvId i)(cnt := IntEvnCode isrc),
            InterruptBit := (InterruptBit i)(isrc := b),
            interrupt_vpend := (if p \<noteq> 0 then interrupt_vpend i OR b else interrupt_vpend i),
            interrupt_vmask := (if m \<noteq> 0 then interrupt_vmask i OR b else interrupt_vmask i)\<rparr>,
           cnt + 1)
     else (i, cnt))"

definition siid_level ::
  "u32 \<Rightarrow> u32 \<Rightarrow> nat \<Rightarrow> interrupts \<times> nat \<Rightarrow> interrupts \<times> nat" where
  "siid_level vpend vmask ilevel st =
    (let (i, cnt) = fold (siid_src vpend vmask ilevel) [0..<sh4_INT_ID_COUNT] st
     in (i\<lparr>InterruptLevelBit := (InterruptLevelBit i)(ilevel := push_bit cnt 1 - 1)\<rparr>, cnt))"

definition siid_table :: "interrupts \<Rightarrow> interrupts" where
  "siid_table i = fst (fold (siid_level (interrupt_vpend i) (interrupt_vmask i)) [0..<16]
     (i\<lparr>interrupt_vpend := 0, interrupt_vmask := 0\<rparr>, 0))"

definition SIIDRebuild :: "'d machine \<Rightarrow> 'd machine" where
  "SIIDRebuild s = snd (SRdecode (m_intc_update siid_table s))"

definition SetInterruptPend :: "nat \<Rightarrow> 'd machine \<Rightarrow> 'd machine" where
  "SetInterruptPend intr s = recalc_pending_itrs (m_intc_update (\<lambda>i.
     i\<lparr>interrupt_vpend := interrupt_vpend i OR InterruptBit i intr\<rparr>) s)"

definition ResetInterruptPend :: "nat \<Rightarrow> 'd machine \<Rightarrow> 'd machine" where
  "ResetInterruptPend intr s = recalc_pending_itrs (m_intc_update (\<lambda>i.
     i\<lparr>interrupt_vpend := interrupt_vpend i AND NOT (InterruptBit i intr)\<rparr>) s)"

definition SetInterruptMask :: "nat \<Rightarrow> 'd machine \<Rightarrow> 'd machine" where
  "SetInterruptMask intr s = recalc_pending_itrs (m_intc_update (\<lambda>i.
     i\<lparr>interrupt_vmask := interrupt_vmask i OR InterruptBit i intr\<rparr>) s)"

definition ResetInterruptMask :: "nat \<Rightarrow> 'd machine \<Rightarrow> 'd machine" where
  "ResetInterruptMask intr s = recalc_pending_itrs (m_intc_update (\<lambda>i.
     i\<lparr>interrupt_vmask := interrupt_vmask i AND NOT (InterruptBit i intr)\<rparr>) s)"

definition InterruptPend :: "nat \<Rightarrow> bool \<Rightarrow> 'd machine \<Rightarrow> 'd machine" where
  "InterruptPend intr v = (if \<not> v then ResetInterruptPend intr else SetInterruptPend intr)"

definition InterruptMask :: "nat \<Rightarrow> bool \<Rightarrow> 'd machine \<Rightarrow> 'd machine" where
  "InterruptMask intr v = (if \<not> v then ResetInterruptMask intr else SetInterruptMask intr)"

definition interrupts_reset :: "'d machine \<Rightarrow> 'd machine" where
  "interrupts_reset s = SIIDRebuild (m_intc_update (\<lambda>i.
     i\<lparr>interrupt_vpend := 0, interrupt_vmask := 0xFFFFFFFF, decoded_srimask := 0,
       InterruptBit := fold (\<lambda>k b. b(k := push_bit k 1)) [0..<sh4_INT_ID_COUNT]
         (InterruptBit i)\<rparr>) s)"

text \<open>The write handlers of the priority registers in \<^verbatim>\<open>modules/intc.cpp\<close>.\<close>

definition write_INTC_IPRA :: "u32 \<Rightarrow> u16 \<Rightarrow> 'd machine \<Rightarrow> 'd machine" where
  "write_INTC_IPRA addr data s =
     (if INTC_IPRA (m_intc s) \<noteq> data
      then SIIDRebuild (m_intc_update (INTC_IPRA_update (\<lambda>_. data)) s) else s)"

definition write_INTC_IPRB :: "u32 \<Rightarrow> u16 \<Rightarrow> 'd machine \<Rightarrow> 'd machine" where
  "write_INTC_IPRB addr data s =
     (if INTC_IPRB (m_intc s) \<noteq> data
      then SIIDRebuild (m_intc_update (INTC_IPRB_update (\<lambda>_. data)) s) else s)"

definition write_INTC_IPRC :: "u32 \<Rightarrow> u16 \<Rightarrow> 'd machine \<Rightarrow> 'd machine" where
  "write_INTC_IPRC addr data s =
     (if INTC_IPRC (m_intc s) \<noteq> data
      then SIIDRebuild (m_intc_update (INTC_IPRC_update (\<lambda>_. data)) s) else s)"

definition read_INTC_IPRD :: "u32 \<Rightarrow> u16" where
  "read_INTC_IPRD addr = 0"

text \<open>
  \<^verbatim>\<open>bitscanrev\<close> of \<^verbatim>\<open>oslib.h\<close>: the number of the highest set bit. The source leaves the
  result for 0 undefined; it is called for non-zero words only.
\<close>

definition bitscanrev :: "u32 \<Rightarrow> nat" where
  "bitscanrev v = (case filter (bit v) (rev [0..<32]) of [] \<Rightarrow> 0 | k # _ \<Rightarrow> k)"

section \<open>Priorities and the sorted allocation of bits\<close>

definition src_key :: "interrupts \<Rightarrow> nat \<Rightarrow> nat" where
  "src_key i s = GetPrLvl i s * 32 + s"

definition src_rank :: "interrupts \<Rightarrow> nat \<Rightarrow> nat" where
  "src_rank i s = length (filter (\<lambda>t. src_key i t < src_key i s) [0..<sh4_INT_ID_COUNT])"

definition level_count :: "interrupts \<Rightarrow> nat \<Rightarrow> nat" where
  "level_count i l = length (filter (\<lambda>t. GetPrLvl i t \<le> l) [0..<sh4_INT_ID_COUNT])"

lemma GetPrLvl_less: "GetPrLvl i s < 16"
proof -
  have "unat (x AND 0xF :: u16) < 16" for x
  proof -
    have "x AND 0xF \<le> (0xF :: u16)" by (rule word_and_le1)
    then show ?thesis by (simp add: word_le_nat_alt)
  qed
  then show ?thesis by (simp add: GetPrLvl_def split: prod.split)
qed

lemma GetPrLvl_cong:
  "INTC_IPRA i = INTC_IPRA j \<Longrightarrow> INTC_IPRB i = INTC_IPRB j \<Longrightarrow> INTC_IPRC i = INTC_IPRC j \<Longrightarrow>
   GetPrLvl i = GetPrLvl j"
  by (rule ext) (simp add: GetPrLvl_def prio_reg_value_def split: prod.split prio_reg.split)

text \<open>The body of the loop without its test, and the order in which sources pass the test.\<close>

definition siid_put :: "u32 \<Rightarrow> u32 \<Rightarrow> nat \<Rightarrow> interrupts \<times> nat \<Rightarrow> interrupts \<times> nat" where
  "siid_put vpend vmask isrc = (\<lambda>(i, cnt).
     let b = push_bit cnt 1
     in (i\<lparr>InterruptEnvId := (InterruptEnvId i)(cnt := IntEvnCode isrc),
          InterruptBit := (InterruptBit i)(isrc := b),
          interrupt_vpend := (if InterruptBit i isrc AND vpend \<noteq> 0
            then interrupt_vpend i OR b else interrupt_vpend i),
          interrupt_vmask := (if InterruptBit i isrc AND vmask \<noteq> 0
            then interrupt_vmask i OR b else interrupt_vmask i)\<rparr>,
         cnt + 1))"

definition siid_order :: "interrupts \<Rightarrow> nat \<Rightarrow> nat list" where
  "siid_order i n = concat (map (\<lambda>l. filter (\<lambda>s. GetPrLvl i s = l) [0..<sh4_INT_ID_COUNT]) [0..<n])"

lemma siid_src_put:
  "siid_src vp vm l s st = (if GetPrLvl (fst st) s = l then siid_put vp vm s st else st)"
  by (simp add: siid_src_def siid_put_def Let_def split: prod.split)

lemma siid_put_frame [simp]:
  "InterruptLevelBit (fst (siid_put vp vm s st)) = InterruptLevelBit (fst st)"
  "GetPrLvl (fst (siid_put vp vm s st)) = GetPrLvl (fst st)"
  "INTC_IPRA (fst (siid_put vp vm s st)) = INTC_IPRA (fst st)"
  "INTC_IPRB (fst (siid_put vp vm s st)) = INTC_IPRB (fst st)"
  "INTC_IPRC (fst (siid_put vp vm s st)) = INTC_IPRC (fst st)"
  by (auto simp: siid_put_def Let_def split: prod.split intro!: GetPrLvl_cong)

lemma fold_put_frame [simp]:
  "InterruptLevelBit (fst (fold (siid_put vp vm) xs st)) = InterruptLevelBit (fst st)"
  "GetPrLvl (fst (fold (siid_put vp vm) xs st)) = GetPrLvl (fst st)"
  "INTC_IPRA (fst (fold (siid_put vp vm) xs st)) = INTC_IPRA (fst st)"
  "INTC_IPRB (fst (fold (siid_put vp vm) xs st)) = INTC_IPRB (fst st)"
  "INTC_IPRC (fst (fold (siid_put vp vm) xs st)) = INTC_IPRC (fst st)"
  by (induction xs arbitrary: st) simp_all

lemma fold_src_put:
  "fold (siid_src vp vm l) xs st =
   fold (siid_put vp vm) (filter (\<lambda>s. GetPrLvl (fst st) s = l) xs) st"
  by (induction xs arbitrary: st) (simp_all add: siid_src_put)

lemma put_level_bit:
  "siid_put vp vm s (i\<lparr>InterruptLevelBit := f\<rparr>, c) =
   map_prod (InterruptLevelBit_update (\<lambda>_. f)) id (siid_put vp vm s (i, c))"
  by (simp add: siid_put_def Let_def)

lemma fold_put_level_bit:
  "fold (siid_put vp vm) xs (i\<lparr>InterruptLevelBit := f\<rparr>, c) =
   map_prod (InterruptLevelBit_update (\<lambda>_. f)) id (fold (siid_put vp vm) xs (i, c))"
proof (induction xs arbitrary: i c)
  case (Cons x xs)
  obtain j d where "siid_put vp vm x (i, c) = (j, d)" by fastforce
  with Cons.IH [of j d] show ?case by (simp add: put_level_bit)
qed simp

lemma siid_order_Suc:
  "siid_order i (Suc n) = siid_order i n @ filter (\<lambda>s. GetPrLvl i s = n) [0..<sh4_INT_ID_COUNT]"
  by (simp add: siid_order_def)

lemma length_siid_order:
  "length (siid_order i n) = length (filter (\<lambda>s. GetPrLvl i s < n) [0..<sh4_INT_ID_COUNT])"
proof (induction n)
  case (Suc n)
  have "length (filter P xs) + length (filter Q xs) = length (filter R xs)"
    if "\<And>x. P x \<Longrightarrow> \<not> Q x" "\<And>x. R x \<longleftrightarrow> P x \<or> Q x" for P Q R and xs :: "nat list"
    using that by (induction xs) auto
  from this [of "\<lambda>s. GetPrLvl i s < n" "\<lambda>s. GetPrLvl i s = n" "\<lambda>s. GetPrLvl i s < Suc n"]
  show ?case by (simp add: siid_order_Suc Suc less_Suc_eq)
qed (simp add: siid_order_def)

lemma length_siid_order_Suc: "length (siid_order i (Suc l)) = level_count i l"
  by (simp add: length_siid_order level_count_def less_Suc_eq_le)

lemma fold_level:
  assumes "n \<le> 16"
  shows "fold (siid_level vp vm) [0..<n] (i, 0) =
    map_prod (InterruptLevelBit_update (\<lambda>_ l. if l < n then push_bit (level_count i l) 1 - 1
        else InterruptLevelBit i l)) id
      (fold (siid_put vp vm) (siid_order i n) (i, 0)) \<and>
    snd (fold (siid_put vp vm) (siid_order i n) (i, 0)) = length (siid_order i n)"
  using assms
proof (induction n)
  case 0
  show ?case by (simp add: siid_order_def)
next
  case (Suc n)
  let ?f = "\<lambda>n l. if l < n then push_bit (level_count i l) 1 - 1 else InterruptLevelBit i l"
  obtain j c where jc: "fold (siid_put vp vm) (siid_order i n) (i, 0) = (j, c)" by fastforce
  have prio: "GetPrLvl j = GetPrLvl i"
    using fold_put_frame(2) [of vp vm "siid_order i n" "(i, 0)"] by (simp add: jc)
  have lev: "InterruptLevelBit j = InterruptLevelBit i"
    using fold_put_frame(1) [of vp vm "siid_order i n" "(i, 0)"] by (simp add: jc)
  have prio': "GetPrLvl (j\<lparr>InterruptLevelBit := g\<rparr>) = GetPrLvl i" for g
    by (subst prio [symmetric]) (rule GetPrLvl_cong, simp_all)
  let ?xs = "filter (\<lambda>s. GetPrLvl i s = n) [0..<sh4_INT_ID_COUNT]"
  obtain j' c' where jc': "fold (siid_put vp vm) ?xs (j, c) = (j', c')" by fastforce
  have cnt: "c' = c + length ?xs"
  proof -
    have "snd (fold (siid_put vp vm) xs st) = snd st + length xs" for xs st
      by (induction xs arbitrary: st) (simp_all add: siid_put_def Let_def split: prod.split)
    from this [of ?xs "(j, c)"] show ?thesis by (simp add: jc')
  qed
  have c: "c = length (siid_order i n)" using Suc jc by simp
  have c': "c' = level_count i n"
    using cnt c by (simp add: length_siid_order_Suc [symmetric] siid_order_Suc)
  have "fold (siid_level vp vm) [0..<Suc n] (i, 0) =
      siid_level vp vm n (map_prod (InterruptLevelBit_update (\<lambda>_. ?f n)) id (j, c))"
    using Suc jc by simp
  also have "\<dots> = (j'\<lparr>InterruptLevelBit := (?f n)(n := push_bit c' 1 - 1)\<rparr>, c')"
    by (simp add: siid_level_def fold_src_put prio' fold_put_level_bit jc' Let_def)
  also have "(?f n)(n := push_bit c' 1 - 1) = ?f (Suc n)"
    by (rule ext) (simp add: c')
  finally show ?case
    using cnt c by (simp add: siid_order_Suc jc jc' [unfolded c])
qed


lemma siid_put_Pair:
  "siid_put vp vm x (i, c) = (i', c') \<Longrightarrow>
     c' = Suc c \<and>
     InterruptBit i' = (InterruptBit i)(x := push_bit c 1) \<and>
     InterruptEnvId i' = (InterruptEnvId i)(c := IntEvnCode x) \<and>
     (\<forall>j. bit (interrupt_vpend i') j \<longleftrightarrow> bit (interrupt_vpend i) j \<or>
        j = c \<and> j < 32 \<and> InterruptBit i x AND vp \<noteq> 0) \<and>
     (\<forall>j. bit (interrupt_vmask i') j \<longleftrightarrow> bit (interrupt_vmask i) j \<or>
        j = c \<and> j < 32 \<and> InterruptBit i x AND vm \<noteq> 0)"
  by (auto simp: siid_put_def Let_def bit_simps split: if_splits)

text \<open>What the loop leaves behind, for any order of the sources without repetition.\<close>

lemma fold_put_result:
  assumes "distinct xs" and "fold (siid_put vp vm) xs (i, c) = (i', c')"
  shows "c' = c + length xs \<and>
     (\<forall>s. s \<notin> set xs \<longrightarrow> InterruptBit i' s = InterruptBit i s) \<and>
     (\<forall>k<length xs. InterruptBit i' (xs ! k) = push_bit (c + k) 1) \<and>
     (\<forall>k<length xs. InterruptEnvId i' (c + k) = IntEvnCode (xs ! k)) \<and>
     (\<forall>j. bit (interrupt_vpend i') j \<longleftrightarrow> bit (interrupt_vpend i) j \<or>
        (\<exists>k<length xs. j = c + k \<and> j < 32 \<and> InterruptBit i (xs ! k) AND vp \<noteq> 0)) \<and>
     (\<forall>j. bit (interrupt_vmask i') j \<longleftrightarrow> bit (interrupt_vmask i) j \<or>
        (\<exists>k<length xs. j = c + k \<and> j < 32 \<and> InterruptBit i (xs ! k) AND vm \<noteq> 0))"
  using assms
proof (induction xs arbitrary: i' c' rule: rev_induct)
  case Nil
  then show ?case by simp
next
  case (snoc x xs)
  obtain j d where jd: "fold (siid_put vp vm) xs (i, c) = (j, d)" by fastforce
  note IH = snoc.IH [OF _ jd]
  from snoc.prems jd have "siid_put vp vm x (j, d) = (i', c')" by simp
  from siid_put_Pair [OF this] snoc.prems(1) IH show ?case
    by (auto simp: nth_append less_Suc_eq)
qed

lemma distinct_siid_order: "distinct (siid_order i n)"
  by (induction n) (auto simp: siid_order_def)

lemma set_siid_order: "set (siid_order i n) = {s. s < sh4_INT_ID_COUNT \<and> GetPrLvl i s < n}"
  by (auto simp: siid_order_def)

lemma set_siid_order_all: "set (siid_order i 16) = {0..<sh4_INT_ID_COUNT}"
  by (auto simp: set_siid_order GetPrLvl_less)

lemma length_siid_order_all: "length (siid_order i 16) = sh4_INT_ID_COUNT"
  by (simp add: length_siid_order GetPrLvl_less)

lemma src_key_less_prio:
  "s < 32 \<Longrightarrow> t < 32 \<Longrightarrow> GetPrLvl i t < GetPrLvl i s \<Longrightarrow> src_key i t < src_key i s"
  by (simp add: src_key_def)

lemma src_key_less_iff:
  "s < 32 \<Longrightarrow> t < 32 \<Longrightarrow> src_key i t < src_key i s \<longleftrightarrow>
    GetPrLvl i t < GetPrLvl i s \<or> GetPrLvl i t = GetPrLvl i s \<and> t < s"
  by (auto simp: src_key_def)

lemma src_key_eq_iff: "s < 32 \<Longrightarrow> t < 32 \<Longrightarrow> src_key i s = src_key i t \<longleftrightarrow> s = t"
  by (metis src_key_less_iff nat_neq_iff)

lemma sorted_siid_order: "sorted_wrt (\<lambda>s t. src_key i s < src_key i t) (siid_order i n)"
proof (induction n)
  case (Suc n)
  have "sorted_wrt (\<lambda>s t. src_key i s < src_key i t)
      (filter (\<lambda>s. GetPrLvl i s = n) [0..<sh4_INT_ID_COUNT])"
  proof (rule sorted_wrt_mono_rel [where P = "(<)"])
    show "sorted_wrt (<) (filter (\<lambda>s. GetPrLvl i s = n) [0..<sh4_INT_ID_COUNT])"
      by (rule sorted_wrt_filter) (rule sorted_wrt_upt)
  qed (auto simp: src_key_less_iff)
  with Suc show ?case
    by (auto simp: siid_order_Suc sorted_wrt_append set_siid_order src_key_less_iff)
qed (simp add: siid_order_def)

lemma filter_less_nth:
  assumes "sorted_wrt (\<lambda>s t. f s < (f t :: nat)) xs" and "k < length xs"
  shows "filter (\<lambda>t. f t < f (xs ! k)) xs = take k xs"
proof -
  have "filter (\<lambda>t. f t < f (xs ! k)) (take k xs) = take k xs"
    using assms by (auto simp: filter_id_conv in_set_conv_nth sorted_wrt_iff_nth_less)
  moreover have "filter (\<lambda>t. f t < f (xs ! k)) (drop k xs) = []"
  proof -
    have "f (xs ! k) \<le> f (xs ! j)" if "k \<le> j" "j < length xs" for j
      using assms that by (cases "j = k") (auto simp: sorted_wrt_iff_nth_less order.order_iff_strict)
    then show ?thesis
      by (auto simp: filter_empty_conv in_set_conv_nth not_less)
  qed
  ultimately show ?thesis
    by (metis append_Nil2 append_take_drop_id filter_append)
qed

lemma src_rank_card:
  "src_rank i s = card {t. t < sh4_INT_ID_COUNT \<and> src_key i t < src_key i s}"
  by (simp add: src_rank_def distinct_length_filter Int_def conj_commute)

lemma level_count_card: "level_count i l = card {t. t < sh4_INT_ID_COUNT \<and> GetPrLvl i t \<le> l}"
  by (simp add: level_count_def distinct_length_filter Int_def conj_commute)

lemma src_rank_nth:
  assumes "k < sh4_INT_ID_COUNT"
  shows "src_rank i (siid_order i 16 ! k) = k"
proof -
  let ?xs = "siid_order i 16"
  have "src_rank i (?xs ! k) = length (filter (\<lambda>t. src_key i t < src_key i (?xs ! k)) ?xs)"
    using distinct_siid_order [of i 16] set_siid_order_all [of i]
    by (simp add: src_rank_card distinct_length_filter Int_def conj_commute)
  also have "\<dots> = k"
    using assms by (simp add: filter_less_nth [OF sorted_siid_order] length_siid_order_all)
  finally show ?thesis .
qed

lemma src_rank_less:
  assumes "s < sh4_INT_ID_COUNT"
  shows "src_rank i s < sh4_INT_ID_COUNT"
proof -
  obtain k where "k < sh4_INT_ID_COUNT" "s = siid_order i 16 ! k"
    using assms set_siid_order_all [of i] length_siid_order_all [of i]
    by (metis atLeastLessThan_iff in_set_conv_nth le0)
  then show ?thesis by (simp add: src_rank_nth)
qed

lemma src_rank_mono:
  assumes "s < sh4_INT_ID_COUNT" "t < sh4_INT_ID_COUNT" "src_key i t < src_key i s"
  shows "src_rank i t < src_rank i s"
  unfolding src_rank_card
  by (rule psubset_card_mono) (use assms in \<open>auto intro: less_trans\<close>)

lemma src_rank_less_iff:
  assumes "s < sh4_INT_ID_COUNT" "t < sh4_INT_ID_COUNT"
  shows "src_rank i t < src_rank i s \<longleftrightarrow> src_key i t < src_key i s"
  using src_rank_mono [OF assms, of i] src_rank_mono [OF assms(2,1), of i] assms
  by (cases "src_key i s" "src_key i t" rule: linorder_cases) (auto simp: src_key_eq_iff)

lemma src_rank_inj:
  "s < sh4_INT_ID_COUNT \<Longrightarrow> t < sh4_INT_ID_COUNT \<Longrightarrow> src_rank i s = src_rank i t \<longleftrightarrow> s = t"
  using src_rank_less_iff [of s t i] src_rank_less_iff [of t s i]
  by (auto simp: src_key_less_iff)

lemma level_count_le_rank:
  assumes "s < sh4_INT_ID_COUNT"
  shows "level_count i l \<le> src_rank i s \<longleftrightarrow> l < GetPrLvl i s"
proof
  assume "l < GetPrLvl i s"
  then show "level_count i l \<le> src_rank i s"
    unfolding src_rank_card level_count_card
    by (intro card_mono) (use assms in \<open>auto simp: src_key_less_iff\<close>)
next
  assume le: "level_count i l \<le> src_rank i s"
  have "src_rank i s < level_count i l" if "GetPrLvl i s \<le> l"
    unfolding src_rank_card level_count_card
    by (rule psubset_card_mono) (use assms that in \<open>auto simp: src_key_less_iff\<close>)
  with le show "l < GetPrLvl i s" by (meson leD leI)
qed


section \<open>The representation invariant\<close>

text \<open>
  Source \<open>s\<close> owns bit \<open>src_rank i s\<close>; the mask of a level covers the sources up to that
  level; no pending bit lies outside the allocated ones.
\<close>

definition intc_wf :: "interrupts \<Rightarrow> bool" where
  "intc_wf i \<longleftrightarrow>
     (\<forall>s < sh4_INT_ID_COUNT. InterruptBit i s = 2 ^ src_rank i s \<and>
        InterruptEnvId i (src_rank i s) = IntEvnCode s) \<and>
     (\<forall>l<16. InterruptLevelBit i l = mask (level_count i l)) \<and>
     (\<forall>j. bit (interrupt_vpend i) j \<longrightarrow> j < sh4_INT_ID_COUNT)"

definition src_pending :: "interrupts \<Rightarrow> nat \<Rightarrow> bool" where
  "src_pending i s \<longleftrightarrow> InterruptBit i s AND interrupt_vpend i \<noteq> 0"

definition src_enabled :: "interrupts \<Rightarrow> nat \<Rightarrow> bool" where
  "src_enabled i s \<longleftrightarrow> InterruptBit i s AND interrupt_vmask i \<noteq> 0"

lemma exp_and_neq_0: "2 ^ k AND v \<noteq> 0 \<longleftrightarrow> bit (v :: u32) k"
  by (metis and.commute and_exp_eq_0_iff_not_bit)

lemma intc_wfD:
  assumes "intc_wf i"
  shows "s < sh4_INT_ID_COUNT \<Longrightarrow> InterruptBit i s = 2 ^ src_rank i s"
    and "s < sh4_INT_ID_COUNT \<Longrightarrow> InterruptEnvId i (src_rank i s) = IntEvnCode s"
    and "l < 16 \<Longrightarrow> InterruptLevelBit i l = mask (level_count i l)"
    and "bit (interrupt_vpend i) j \<Longrightarrow> j < sh4_INT_ID_COUNT"
  using assms by (auto simp: intc_wf_def)

lemma src_pending_bit:
  "intc_wf i \<Longrightarrow> s < sh4_INT_ID_COUNT \<Longrightarrow> src_pending i s \<longleftrightarrow> bit (interrupt_vpend i) (src_rank i s)"
  by (simp add: src_pending_def intc_wfD exp_and_neq_0)

lemma src_enabled_bit:
  "intc_wf i \<Longrightarrow> s < sh4_INT_ID_COUNT \<Longrightarrow> src_enabled i s \<longleftrightarrow> bit (interrupt_vmask i) (src_rank i s)"
  by (simp add: src_enabled_def intc_wfD exp_and_neq_0)

lemma src_rank_cong: "GetPrLvl i = GetPrLvl j \<Longrightarrow> src_rank i = src_rank j"
  by (rule ext) (simp add: src_rank_def src_key_def)

lemma level_count_cong: "GetPrLvl i = GetPrLvl j \<Longrightarrow> level_count i = level_count j"
  by (rule ext) (simp add: level_count_def)

lemma siid_table_fold:
  obtains j c where
    "fold (siid_put (interrupt_vpend i) (interrupt_vmask i)) (siid_order i 16)
       (i\<lparr>interrupt_vpend := 0, interrupt_vmask := 0\<rparr>, 0) = (j, c)"
    and "siid_table i = j\<lparr>InterruptLevelBit := (\<lambda>l. if l < 16 then push_bit (level_count i l) 1 - 1
      else InterruptLevelBit i l)\<rparr>"
    and "GetPrLvl j = GetPrLvl i"
proof -
  let ?i0 = "i\<lparr>interrupt_vpend := 0, interrupt_vmask := 0\<rparr>"
  have prio: "GetPrLvl ?i0 = GetPrLvl i" by (rule GetPrLvl_cong) simp_all
  have order: "siid_order ?i0 = siid_order i" by (rule ext) (simp only: siid_order_def prio)
  have level: "level_count ?i0 = level_count i" by (rule level_count_cong [OF prio])
  obtain j c where jc: "fold (siid_put (interrupt_vpend i) (interrupt_vmask i)) (siid_order i 16)
      (?i0, 0) = (j, c)" by fastforce
  moreover have "GetPrLvl j = GetPrLvl i"
    using fold_put_frame(2) [of "interrupt_vpend i" "interrupt_vmask i" "siid_order i 16" "(?i0, 0)"]
    by (simp add: jc prio)
  moreover have "siid_table i = j\<lparr>InterruptLevelBit := (\<lambda>l. if l < 16
      then push_bit (level_count i l) 1 - 1 else InterruptLevelBit i l)\<rparr>"
    using fold_level [of 16 "interrupt_vpend i" "interrupt_vmask i" ?i0] jc
    by (simp add: siid_table_def order level cong: if_cong)
  ultimately show ?thesis using that by blast
qed

lemma siid_table_spec:
  shows "GetPrLvl (siid_table i) = GetPrLvl i"
    and "s < sh4_INT_ID_COUNT \<Longrightarrow> InterruptBit (siid_table i) s = 2 ^ src_rank i s"
    and "s < sh4_INT_ID_COUNT \<Longrightarrow> InterruptEnvId (siid_table i) (src_rank i s) = IntEvnCode s"
    and "l < 16 \<Longrightarrow> InterruptLevelBit (siid_table i) l = mask (level_count i l)"
    and "bit (interrupt_vpend (siid_table i)) j \<longleftrightarrow>
      (\<exists>s < sh4_INT_ID_COUNT. j = src_rank i s \<and> src_pending i s)"
    and "bit (interrupt_vmask (siid_table i)) j \<longleftrightarrow>
      (\<exists>s < sh4_INT_ID_COUNT. j = src_rank i s \<and> src_enabled i s)"
proof -
  obtain t c where jc: "fold (siid_put (interrupt_vpend i) (interrupt_vmask i)) (siid_order i 16)
       (i\<lparr>interrupt_vpend := 0, interrupt_vmask := 0\<rparr>, 0) = (t, c)"
    and tab: "siid_table i = t\<lparr>InterruptLevelBit := (\<lambda>l. if l < 16
      then push_bit (level_count i l) 1 - 1 else InterruptLevelBit i l)\<rparr>"
    and prio: "GetPrLvl t = GetPrLvl i"
    by (rule siid_table_fold)
  note res = fold_put_result [OF distinct_siid_order jc]
  have nth: "\<exists>k < sh4_INT_ID_COUNT. s = siid_order i 16 ! k \<and> src_rank i s = k"
    if "s < sh4_INT_ID_COUNT" for s
    using that set_siid_order_all [of i] length_siid_order_all [of i] src_rank_nth [of _ i]
    by (metis atLeastLessThan_iff in_set_conv_nth le0)
  have nth_less: "siid_order i 16 ! k < sh4_INT_ID_COUNT" if "k < sh4_INT_ID_COUNT" for k
    using that set_siid_order_all [of i] length_siid_order_all [of i]
    by (metis atLeastLessThan_iff nth_mem)
  show "GetPrLvl (siid_table i) = GetPrLvl i"
    by (subst prio [symmetric]) (rule GetPrLvl_cong, simp_all add: tab)
  show "InterruptBit (siid_table i) s = 2 ^ src_rank i s" if "s < sh4_INT_ID_COUNT"
    using nth [OF that] res by (auto simp: tab length_siid_order_all)
  show "InterruptEnvId (siid_table i) (src_rank i s) = IntEvnCode s" if "s < sh4_INT_ID_COUNT"
    using nth [OF that] res by (auto simp: tab length_siid_order_all)
  show "InterruptLevelBit (siid_table i) l = mask (level_count i l)" if "l < 16"
    using that by (simp add: tab mask_eq_exp_minus_1)
  have "bit (interrupt_vpend (siid_table i)) j \<longleftrightarrow>
      (\<exists>k < sh4_INT_ID_COUNT. j = k \<and> src_pending i (siid_order i 16 ! k))"
    using res by (auto simp: tab length_siid_order_all src_pending_def)
  then show "bit (interrupt_vpend (siid_table i)) j \<longleftrightarrow>
      (\<exists>s < sh4_INT_ID_COUNT. j = src_rank i s \<and> src_pending i s)"
    using nth nth_less src_rank_nth by metis
  have "bit (interrupt_vmask (siid_table i)) j \<longleftrightarrow>
      (\<exists>k < sh4_INT_ID_COUNT. j = k \<and> src_enabled i (siid_order i 16 ! k))"
    using res by (auto simp: tab length_siid_order_all src_enabled_def)
  then show "bit (interrupt_vmask (siid_table i)) j \<longleftrightarrow>
      (\<exists>s < sh4_INT_ID_COUNT. j = src_rank i s \<and> src_enabled i s)"
    using nth nth_less src_rank_nth by metis
qed

lemma siid_table_wf: "intc_wf (siid_table i)"
proof -
  have "src_rank (siid_table i) = src_rank i" "level_count (siid_table i) = level_count i"
    by (rule src_rank_cong [OF siid_table_spec(1)], rule level_count_cong [OF siid_table_spec(1)])
  then show ?thesis
    by (auto simp: intc_wf_def siid_table_spec src_rank_less)
qed

lemma siid_table_pending:
  assumes "s < sh4_INT_ID_COUNT"
  shows "src_pending (siid_table i) s = src_pending i s"
proof -
  have "src_pending (siid_table i) s = bit (interrupt_vpend (siid_table i)) (src_rank i s)"
    by (simp add: src_pending_def siid_table_spec(2) assms exp_and_neq_0)
  with assms show ?thesis using src_rank_inj [of s] by (auto simp: siid_table_spec(5))
qed

lemma siid_table_enabled:
  assumes "s < sh4_INT_ID_COUNT"
  shows "src_enabled (siid_table i) s = src_enabled i s"
proof -
  have "src_enabled (siid_table i) s = bit (interrupt_vmask (siid_table i)) (src_rank i s)"
    by (simp add: src_enabled_def siid_table_spec(2) assms exp_and_neq_0)
  with assms show ?thesis using src_rank_inj [of s] by (auto simp: siid_table_spec(6))
qed

lemma bitscanrev_highest:
  assumes "v \<noteq> 0"
  shows "bit v (bitscanrev v) \<and> (\<forall>j. bit v j \<longrightarrow> j \<le> bitscanrev v)"
proof -
  let ?ys = "filter (bit v) [0..<32]"
  have "?ys \<noteq> []"
  proof
    assume "?ys = []"
    then have "\<not> bit v j" for j
      by (cases "j < 32") (auto simp: filter_empty_conv dest: bit_imp_le_length)
    then have "v = 0" by (intro bit_word_eqI) simp
    with assms show False ..
  qed
  then obtain ks k where ys: "?ys = ks @ [k]" by (metis rev_exhaust)
  then have k: "bitscanrev v = k" by (simp add: bitscanrev_def rev_filter [symmetric])
  have "sorted ?ys" by (simp add: sorted_wrt_filter)
  then have "\<forall>j\<in>set ?ys. j \<le> k" unfolding ys by (auto simp: sorted_append)
  moreover have "j \<in> set ?ys" if "bit v j" for j
    using that bit_imp_le_length [OF that] by simp
  moreover have "k \<in> set ?ys" unfolding ys by simp
  ultimately show ?thesis unfolding k by auto
qed


section \<open>The machine's view\<close>

text \<open>
  \<open>intc_inv\<close>: the allocation is right and \<open>interrupt_pend\<close> of the context is up to date with
  the three vectors. \<open>sr_decoded\<close>: the vector of the status register is up to date.
  \<open>interruptible\<close> is the specification: source \<open>t\<close> may interrupt the CPU.
\<close>

definition intc_inv :: "'d machine \<Rightarrow> bool" where
  "intc_inv s \<longleftrightarrow> intc_wf (m_intc s) \<and> ctx_interrupt_pend (m_ctx s) =
     interrupt_vpend (m_intc s) AND interrupt_vmask (m_intc s) AND decoded_srimask (m_intc s)"

definition sr_decoded :: "'d machine \<Rightarrow> bool" where
  "sr_decoded s \<longleftrightarrow> decoded_srimask (m_intc s) =
     (if st_BL (ctx_status (m_ctx s)) \<noteq> 0 then 0
      else NOT (InterruptLevelBit (m_intc s) (unat (st_IMASK (ctx_status (m_ctx s))))))"

definition interruptible :: "'d machine \<Rightarrow> nat \<Rightarrow> bool" where
  "interruptible s t \<longleftrightarrow> t < sh4_INT_ID_COUNT \<and> src_pending (m_intc s) t \<and>
     src_enabled (m_intc s) t \<and> st_BL (ctx_status (m_ctx s)) = 0 \<and>
     unat (st_IMASK (ctx_status (m_ctx s))) < GetPrLvl (m_intc s) t"

lemma unat_st_IMASK: "unat (st_IMASK v) < 16"
  using fld_less [of 4 4 v] by (simp add: st_IMASK_def word_less_nat_alt)

lemma intc_wf_pend_bits:
  assumes "intc_wf i" "bit (interrupt_vpend i) j"
  obtains t where "t < sh4_INT_ID_COUNT" "j = src_rank i t"
  using src_rank_nth [of j i] intc_wfD(4) [OF assms] set_siid_order_all [of i]
    length_siid_order_all [of i]
  by (metis atLeastLessThan_iff nth_mem)

lemma pend_bit:
  assumes "intc_inv s" "sr_decoded s" "t < sh4_INT_ID_COUNT"
  shows "bit (ctx_interrupt_pend (m_ctx s)) (src_rank (m_intc s) t) \<longleftrightarrow> interruptible s t"
proof -
  let ?i = "m_intc s"
  have wf: "intc_wf ?i" using assms by (simp add: intc_inv_def)
  have r: "src_rank ?i t < 28" using assms by (intro src_rank_less)
  show ?thesis
    using assms wf r unat_st_IMASK [of "ctx_status (m_ctx s)"]
    by (auto simp: intc_inv_def sr_decoded_def interruptible_def src_pending_bit src_enabled_bit
        bit_simps intc_wfD(3) level_count_le_rank [symmetric] not_less)
qed

lemma pend_nonzero:
  assumes "intc_inv s" "sr_decoded s"
  shows "ctx_interrupt_pend (m_ctx s) \<noteq> 0 \<longleftrightarrow> (\<exists>t. interruptible s t)"
proof
  assume nz: "ctx_interrupt_pend (m_ctx s) \<noteq> 0"
  let ?k = "bitscanrev (ctx_interrupt_pend (m_ctx s))"
  have k: "bit (ctx_interrupt_pend (m_ctx s)) ?k" using bitscanrev_highest [OF nz] by blast
  then have "bit (interrupt_vpend (m_intc s)) ?k"
    using assms(1) by (simp add: intc_inv_def bit_simps)
  then obtain t where "t < sh4_INT_ID_COUNT" "?k = src_rank (m_intc s) t"
    using assms(1) by (auto simp: intc_inv_def elim: intc_wf_pend_bits)
  with k pend_bit [OF assms, of t] show "\<exists>t. interruptible s t" by auto
next
  assume "\<exists>t. interruptible s t"
  then obtain t where t: "interruptible s t" ..
  then have "t < sh4_INT_ID_COUNT" by (simp add: interruptible_def)
  from pend_bit [OF assms this] t show "ctx_interrupt_pend (m_ctx s) \<noteq> 0" by auto
qed

text \<open>The source whose event code the highest pending bit selects.\<close>

lemma highest_pending:
  assumes "intc_inv s" "sr_decoded s" "ctx_interrupt_pend (m_ctx s) \<noteq> 0"
  obtains t where "interruptible s t"
    and "InterruptEnvId (m_intc s) (bitscanrev (ctx_interrupt_pend (m_ctx s))) = IntEvnCode t"
    and "\<And>u. interruptible s u \<Longrightarrow> src_key (m_intc s) u \<le> src_key (m_intc s) t"
proof -
  let ?p = "ctx_interrupt_pend (m_ctx s)" and ?i = "m_intc s"
  have wf: "intc_wf ?i" using assms(1) by (simp add: intc_inv_def)
  have k: "bit ?p (bitscanrev ?p)" "\<And>j. bit ?p j \<Longrightarrow> j \<le> bitscanrev ?p"
    using bitscanrev_highest [OF assms(3)] by auto
  then have "bit (interrupt_vpend ?i) (bitscanrev ?p)"
    using assms(1) by (simp add: intc_inv_def bit_simps)
  then obtain t where t: "t < sh4_INT_ID_COUNT" "bitscanrev ?p = src_rank ?i t"
    using wf by (auto elim: intc_wf_pend_bits)
  show ?thesis
  proof
    show "interruptible s t" using k(1) t pend_bit [OF assms(1,2) t(1)] by simp
    show "InterruptEnvId ?i (bitscanrev ?p) = IntEvnCode t"
      using t intc_wfD(2) [OF wf] by simp
    fix u assume u: "interruptible s u"
    then have u28: "u < sh4_INT_ID_COUNT" by (simp add: interruptible_def)
    have "src_rank ?i u \<le> src_rank ?i t"
      using k(2) [of "src_rank ?i u"] u pend_bit [OF assms(1,2) u28] t by simp
    then show "src_key ?i u \<le> src_key ?i t"
      using src_rank_less_iff [OF u28 t(1), of ?i] by linarith
  qed
qed

section \<open>The operations keep the invariant and implement the specification\<close>

lemma recalc_simps [simp]:
  "m_intc (recalc_pending_itrs s) = m_intc s"
  "m_sched (recalc_pending_itrs s) = m_sched s"
  "m_ccn (recalc_pending_itrs s) = m_ccn s"
  "m_mmu (recalc_pending_itrs s) = m_mmu s"
  "m_tmu (recalc_pending_itrs s) = m_tmu s"
  "m_holly (recalc_pending_itrs s) = m_holly s"
  "m_p4 (recalc_pending_itrs s) = m_p4 s"
  "m_sb (recalc_pending_itrs s) = m_sb s"
  "m_cache (recalc_pending_itrs s) = m_cache s"
  "m_dev (recalc_pending_itrs s) = m_dev s"
  "m_cycles (recalc_pending_itrs s) = m_cycles s"
  "m_map (recalc_pending_itrs s) = m_map s"
  "m_mem (recalc_pending_itrs s) = m_mem s"
  "ctx_status (m_ctx (recalc_pending_itrs s)) = ctx_status (m_ctx s)"
  "ctx_sr (m_ctx (recalc_pending_itrs s)) = ctx_sr (m_ctx s)"
  "ctx_interrupt_pend (m_ctx (recalc_pending_itrs s)) =
    interrupt_vpend (m_intc s) AND interrupt_vmask (m_intc s) AND decoded_srimask (m_intc s)"
  by (simp_all add: recalc_pending_itrs_def on_ctx_def ctx_status_def)

lemma intc_inv_recalc: "intc_wf (m_intc s) \<Longrightarrow> intc_inv (recalc_pending_itrs s)"
  by (simp add: intc_inv_def)

lemma intc_frame [simp]:
  "GetPrLvl (i\<lparr>decoded_srimask := d\<rparr>) = GetPrLvl i"
  "GetPrLvl (i\<lparr>interrupt_vpend := p\<rparr>) = GetPrLvl i"
  "GetPrLvl (i\<lparr>interrupt_vmask := p\<rparr>) = GetPrLvl i"
  "src_rank (i\<lparr>decoded_srimask := d\<rparr>) = src_rank i"
  "src_rank (i\<lparr>interrupt_vpend := p\<rparr>) = src_rank i"
  "src_rank (i\<lparr>interrupt_vmask := p\<rparr>) = src_rank i"
  "level_count (i\<lparr>decoded_srimask := d\<rparr>) = level_count i"
  "level_count (i\<lparr>interrupt_vpend := p\<rparr>) = level_count i"
  "level_count (i\<lparr>interrupt_vmask := p\<rparr>) = level_count i"
  "src_pending (i\<lparr>decoded_srimask := d\<rparr>) = src_pending i"
  "src_enabled (i\<lparr>decoded_srimask := d\<rparr>) = src_enabled i"
  "src_pending (i\<lparr>interrupt_vmask := p\<rparr>) = src_pending i"
  "src_enabled (i\<lparr>interrupt_vpend := p\<rparr>) = src_enabled i"
  by (auto simp: src_pending_def src_enabled_def intro!: GetPrLvl_cong src_rank_cong
      level_count_cong)

lemma intc_wf_frame [simp]:
  "intc_wf (i\<lparr>decoded_srimask := d\<rparr>) = intc_wf i"
  "intc_wf (i\<lparr>interrupt_vmask := d\<rparr>) = intc_wf i"
  by (simp_all add: intc_wf_def)

lemma SRdecode_simps [simp]:
  "m_sched (snd (SRdecode s)) = m_sched s"
  "m_ccn (snd (SRdecode s)) = m_ccn s"
  "m_mmu (snd (SRdecode s)) = m_mmu s"
  "m_tmu (snd (SRdecode s)) = m_tmu s"
  "m_holly (snd (SRdecode s)) = m_holly s"
  "m_p4 (snd (SRdecode s)) = m_p4 s"
  "m_sb (snd (SRdecode s)) = m_sb s"
  "m_cache (snd (SRdecode s)) = m_cache s"
  "m_dev (snd (SRdecode s)) = m_dev s"
  "m_cycles (snd (SRdecode s)) = m_cycles s"
  "m_map (snd (SRdecode s)) = m_map s"
  "m_mem (snd (SRdecode s)) = m_mem s"
  "ctx_sr (m_ctx (snd (SRdecode s))) = ctx_sr (m_ctx s)"
  "ctx_status (m_ctx (snd (SRdecode s))) = ctx_status (m_ctx s)"
  "GetPrLvl (m_intc (snd (SRdecode s))) = GetPrLvl (m_intc s)"
  "src_pending (m_intc (snd (SRdecode s))) = src_pending (m_intc s)"
  "src_enabled (m_intc (snd (SRdecode s))) = src_enabled (m_intc s)"
  "intc_wf (m_intc (snd (SRdecode s))) = intc_wf (m_intc s)"
  by (simp_all add: SRdecode_def Let_def ctx_status_def)

lemma SRdecode_fst: "fst (SRdecode s) \<longleftrightarrow> ctx_interrupt_pend (m_ctx (snd (SRdecode s))) \<noteq> 0"
  by (simp add: SRdecode_def Let_def)

lemma SRdecode_inv:
  assumes "intc_wf (m_intc s)"
  shows "intc_inv (snd (SRdecode s))" and "sr_decoded (snd (SRdecode s))"
  using assms by (simp_all add: SRdecode_def Let_def intc_inv_def sr_decoded_def)

lemma interruptible_SRdecode [simp]:
  "interruptible (snd (SRdecode s)) = interruptible s"
  by (rule ext) (simp add: interruptible_def)

text \<open>
  The contract of a set of interrupt lines: raising and lowering a line changes that line
  and no other. It is met by the pending vector and by the mask vector.
\<close>

locale interrupt_lines =
  fixes set_line :: "nat \<Rightarrow> 's \<Rightarrow> 's"
    and reset_line :: "nat \<Rightarrow> 's \<Rightarrow> 's"
    and line :: "'s \<Rightarrow> nat \<Rightarrow> bool"
    and inv :: "'s \<Rightarrow> bool"
  assumes line_set: "inv s \<Longrightarrow> k < sh4_INT_ID_COUNT \<Longrightarrow> j < sh4_INT_ID_COUNT \<Longrightarrow>
      line (set_line k s) j \<longleftrightarrow> j = k \<or> line s j"
    and line_reset: "inv s \<Longrightarrow> k < sh4_INT_ID_COUNT \<Longrightarrow> j < sh4_INT_ID_COUNT \<Longrightarrow>
      line (reset_line k s) j \<longleftrightarrow> j \<noteq> k \<and> line s j"
    and inv_set: "inv s \<Longrightarrow> k < sh4_INT_ID_COUNT \<Longrightarrow> inv (set_line k s)"
    and inv_reset: "inv s \<Longrightarrow> k < sh4_INT_ID_COUNT \<Longrightarrow> inv (reset_line k s)"
begin

text \<open>Driving a line with a level, as \<^verbatim>\<open>InterruptPend\<close> and \<^verbatim>\<open>InterruptMask\<close> do.\<close>

lemma line_drive:
  "inv s \<Longrightarrow> k < sh4_INT_ID_COUNT \<Longrightarrow> j < sh4_INT_ID_COUNT \<Longrightarrow>
   line ((if \<not> v then reset_line k else set_line k) s) j \<longleftrightarrow> (if j = k then v else line s j)"
  by (simp add: line_set line_reset)

lemma inv_drive:
  "inv s \<Longrightarrow> k < sh4_INT_ID_COUNT \<Longrightarrow> inv ((if \<not> v then reset_line k else set_line k) s)"
  by (simp add: inv_set inv_reset)

lemma lines_set:
  "inv s \<Longrightarrow> k < sh4_INT_ID_COUNT \<Longrightarrow>
   {j. j < sh4_INT_ID_COUNT \<and> line (set_line k s) j} =
   insert k {j. j < sh4_INT_ID_COUNT \<and> line s j}"
  by (auto simp: line_set)

lemma lines_reset:
  "inv s \<Longrightarrow> k < sh4_INT_ID_COUNT \<Longrightarrow>
   {j. j < sh4_INT_ID_COUNT \<and> line (reset_line k s) j} =
   {j. j < sh4_INT_ID_COUNT \<and> line s j} - {k}"
  by (auto simp: line_reset)

end

lemma intc_wf_vpend:
  "intc_wf i \<Longrightarrow> (\<And>j. bit v j \<Longrightarrow> j < sh4_INT_ID_COUNT) \<Longrightarrow> intc_wf (i\<lparr>interrupt_vpend := v\<rparr>)"
  by (simp add: intc_wf_def)

lemma intc_wf_InterruptBit_less:
  "intc_wf i \<Longrightarrow> k < sh4_INT_ID_COUNT \<Longrightarrow> bit (InterruptBit i k) j \<Longrightarrow> j < sh4_INT_ID_COUNT"
  using src_rank_less [of k i] by (auto simp: intc_wfD bit_simps)

interpretation pend: interrupt_lines SetInterruptPend ResetInterruptPend
  "\<lambda>s. src_pending (m_intc s)" intc_inv
proof unfold_locales
  fix s :: "'a machine" and k j
  assume inv: "intc_inv s" and k: "k < sh4_INT_ID_COUNT"
  have wf: "intc_wf (m_intc s)" using inv by (simp add: intc_inv_def)
  let ?i = "m_intc s"
  have wf_set: "intc_wf (?i\<lparr>interrupt_vpend := interrupt_vpend ?i OR InterruptBit ?i k\<rparr>)"
    by (rule intc_wf_vpend [OF wf])
      (use intc_wfD(4) [OF wf] intc_wf_InterruptBit_less [OF wf k] in \<open>auto simp: bit_simps\<close>)
  have wf_reset: "intc_wf (?i\<lparr>interrupt_vpend := interrupt_vpend ?i AND NOT (InterruptBit ?i k)\<rparr>)"
    by (rule intc_wf_vpend [OF wf]) (use intc_wfD(4) [OF wf] in \<open>auto simp: bit_simps\<close>)
  show "intc_inv (SetInterruptPend k s)" "intc_inv (ResetInterruptPend k s)"
    using wf_set wf_reset by (simp_all add: SetInterruptPend_def ResetInterruptPend_def intc_inv_recalc)
  assume j: "j < sh4_INT_ID_COUNT"
  have r: "src_rank ?i j < 32" using src_rank_less [OF j, of ?i] by simp
  show "src_pending (m_intc (SetInterruptPend k s)) j \<longleftrightarrow> j = k \<or> src_pending (m_intc s) j"
    using wf wf_set j k r
    by (auto simp: SetInterruptPend_def src_pending_bit bit_simps intc_wfD src_rank_inj)
  show "src_pending (m_intc (ResetInterruptPend k s)) j \<longleftrightarrow> j \<noteq> k \<and> src_pending (m_intc s) j"
    using wf wf_reset j k r
    by (auto simp: ResetInterruptPend_def src_pending_bit bit_simps intc_wfD src_rank_inj)
qed

interpretation msk: interrupt_lines SetInterruptMask ResetInterruptMask
  "\<lambda>s. src_enabled (m_intc s)" intc_inv
proof unfold_locales
  fix s :: "'a machine" and k j
  assume inv: "intc_inv s" and k: "k < sh4_INT_ID_COUNT"
  have wf: "intc_wf (m_intc s)" using inv by (simp add: intc_inv_def)
  let ?i = "m_intc s"
  show "intc_inv (SetInterruptMask k s)" "intc_inv (ResetInterruptMask k s)"
    using wf by (simp_all add: SetInterruptMask_def ResetInterruptMask_def intc_inv_recalc)
  assume j: "j < sh4_INT_ID_COUNT"
  have r: "src_rank ?i j < 32" using src_rank_less [OF j, of ?i] by simp
  show "src_enabled (m_intc (SetInterruptMask k s)) j \<longleftrightarrow> j = k \<or> src_enabled (m_intc s) j"
    using wf j k r
    by (auto simp: SetInterruptMask_def src_enabled_bit bit_simps intc_wfD src_rank_inj)
  show "src_enabled (m_intc (ResetInterruptMask k s)) j \<longleftrightarrow> j \<noteq> k \<and> src_enabled (m_intc s) j"
    using wf j k r
    by (auto simp: ResetInterruptMask_def src_enabled_bit bit_simps intc_wfD src_rank_inj)
qed

section \<open>Reset and rebuild\<close>

lemma SIIDRebuild_frame [simp]:
  "ctx_status (m_ctx (SIIDRebuild s)) = ctx_status (m_ctx s)"
  "GetPrLvl (m_intc (SIIDRebuild s)) = GetPrLvl (m_intc s)"
  "m_dev (SIIDRebuild s) = m_dev s"
  by (simp_all add: SIIDRebuild_def SRdecode_def Let_def recalc_pending_itrs_def on_ctx_def
      ctx_status_def siid_table_spec)

lemma SIIDRebuild_inv: "intc_inv (SIIDRebuild s)" "sr_decoded (SIIDRebuild s)"
  unfolding SIIDRebuild_def by (rule SRdecode_inv, simp add: siid_table_wf)+

lemma SIIDRebuild_lines:
  "t < sh4_INT_ID_COUNT \<Longrightarrow> src_pending (m_intc (SIIDRebuild s)) t = src_pending (m_intc s) t"
  "t < sh4_INT_ID_COUNT \<Longrightarrow> src_enabled (m_intc (SIIDRebuild s)) t = src_enabled (m_intc s) t"
  by (simp_all add: SIIDRebuild_def siid_table_pending siid_table_enabled)

lemma fold_fun_upd:
  "fold (\<lambda>k b. b(k := f k)) [0..<n] b j = (if j < n then f j else b j)"
  by (induction n) auto

lemma interrupts_reset_inv:
  "intc_inv (interrupts_reset s)" "sr_decoded (interrupts_reset s)"
  "t < sh4_INT_ID_COUNT \<Longrightarrow> \<not> src_pending (m_intc (interrupts_reset s)) t"
  "t < sh4_INT_ID_COUNT \<Longrightarrow> src_enabled (m_intc (interrupts_reset s)) t"
  "GetPrLvl (m_intc (interrupts_reset s)) = GetPrLvl (m_intc s)"
  "ctx_status (m_ctx (interrupts_reset s)) = ctx_status (m_ctx s)"
proof -
  show "GetPrLvl (m_intc (interrupts_reset s)) = GetPrLvl (m_intc s)"
    by (simp add: interrupts_reset_def) (rule GetPrLvl_cong, simp_all)
  have "(0xFFFFFFFF :: u32) = - 1" by simp
  then have ones: "2 ^ t AND (0xFFFFFFFF :: u32) \<noteq> 0" if "t < 32" for t
    using that by (simp only: exp_and_neq_0) simp
  then show "src_enabled (m_intc (interrupts_reset s)) t" if "t < sh4_INT_ID_COUNT"
    using that
    by (simp add: interrupts_reset_def SIIDRebuild_lines)
      (simp add: src_enabled_def fold_fun_upd)
  show "\<not> src_pending (m_intc (interrupts_reset s)) t" if "t < sh4_INT_ID_COUNT"
    using that by (simp add: interrupts_reset_def SIIDRebuild_lines) (simp add: src_pending_def)
qed (simp_all add: interrupts_reset_def SIIDRebuild_inv)

lemma lines_frame [simp]:
  "src_enabled (m_intc (SetInterruptPend k s)) = src_enabled (m_intc s)"
  "src_enabled (m_intc (ResetInterruptPend k s)) = src_enabled (m_intc s)"
  "src_pending (m_intc (SetInterruptMask k s)) = src_pending (m_intc s)"
  "src_pending (m_intc (ResetInterruptMask k s)) = src_pending (m_intc s)"
  "GetPrLvl (m_intc (SetInterruptPend k s)) = GetPrLvl (m_intc s)"
  "GetPrLvl (m_intc (ResetInterruptPend k s)) = GetPrLvl (m_intc s)"
  "GetPrLvl (m_intc (SetInterruptMask k s)) = GetPrLvl (m_intc s)"
  "GetPrLvl (m_intc (ResetInterruptMask k s)) = GetPrLvl (m_intc s)"
  "ctx_status (m_ctx (SetInterruptPend k s)) = ctx_status (m_ctx s)"
  "ctx_status (m_ctx (ResetInterruptPend k s)) = ctx_status (m_ctx s)"
  "ctx_status (m_ctx (SetInterruptMask k s)) = ctx_status (m_ctx s)"
  "ctx_status (m_ctx (ResetInterruptMask k s)) = ctx_status (m_ctx s)"
  by (simp_all add: SetInterruptPend_def ResetInterruptPend_def SetInterruptMask_def
      ResetInterruptMask_def)

lemma sr_decoded_lines [simp]:
  "sr_decoded (SetInterruptPend k s) = sr_decoded s"
  "sr_decoded (ResetInterruptPend k s) = sr_decoded s"
  "sr_decoded (SetInterruptMask k s) = sr_decoded s"
  "sr_decoded (ResetInterruptMask k s) = sr_decoded s"
  by (simp_all add: SetInterruptPend_def ResetInterruptPend_def SetInterruptMask_def
      ResetInterruptMask_def sr_decoded_def)

lemma src_lines_IPRA [simp]:
  "src_pending (INTC_IPRA_update f i) = src_pending i"
  "src_enabled (INTC_IPRA_update f i) = src_enabled i"
  by (simp_all add: src_pending_def src_enabled_def fun_eq_iff)

text \<open>A priority change at run time: the lines survive, with the new priorities in force.\<close>

lemma write_INTC_IPR:
  assumes "intc_inv s" "sr_decoded s" "t < sh4_INT_ID_COUNT"
  shows "intc_inv (write_INTC_IPRA a d s)" "sr_decoded (write_INTC_IPRA a d s)"
    "src_pending (m_intc (write_INTC_IPRA a d s)) t = src_pending (m_intc s) t"
    "src_enabled (m_intc (write_INTC_IPRA a d s)) t = src_enabled (m_intc s) t"
    "GetPrLvl (m_intc (write_INTC_IPRA a d s)) = GetPrLvl (INTC_IPRA_update (\<lambda>_. d) (m_intc s))"
  using assms
  by (auto simp: write_INTC_IPRA_def SIIDRebuild_inv SIIDRebuild_lines intro: GetPrLvl_cong)

text \<open>
  Driving a line, as the devices do: the line follows the level, the other lines, the masks
  and the rest of the machine stay as they are.
\<close>

lemma InterruptPend_frame [simp]:
  "m_holly (InterruptPend k v s) = m_holly s"
  "m_p4 (InterruptPend k v s) = m_p4 s"
  "m_sb (InterruptPend k v s) = m_sb s"
  "m_cache (InterruptPend k v s) = m_cache s"
  "m_tmu (InterruptPend k v s) = m_tmu s"
  "m_sched (InterruptPend k v s) = m_sched s"
  "m_ccn (InterruptPend k v s) = m_ccn s"
  "m_dev (InterruptPend k v s) = m_dev s"
  "m_mmu (InterruptPend k v s) = m_mmu s"
  "m_cycles (InterruptPend k v s) = m_cycles s"
  "m_map (InterruptPend k v s) = m_map s"
  "m_mem (InterruptPend k v s) = m_mem s"
  "m_pvr (InterruptPend k v s) = m_pvr s"
  "m_spg (InterruptPend k v s) = m_spg s"
  "m_scif (InterruptPend k v s) = m_scif s"
  "m_ocr (InterruptPend k v s) = m_ocr s"
  "ctx_sr (m_ctx (InterruptPend k v s)) = ctx_sr (m_ctx s)"
  "ctx_cycle_counter (m_ctx (InterruptPend k v s)) = ctx_cycle_counter (m_ctx s)"
  "ctx_sh4_sched_next (m_ctx (InterruptPend k v s)) = ctx_sh4_sched_next (m_ctx s)"
  "ctx_status (m_ctx (InterruptPend k v s)) = ctx_status (m_ctx s)"
  "src_enabled (m_intc (InterruptPend k v s)) = src_enabled (m_intc s)"
  "GetPrLvl (m_intc (InterruptPend k v s)) = GetPrLvl (m_intc s)"
  by (simp_all add: InterruptPend_def SetInterruptPend_def ResetInterruptPend_def
      recalc_pending_itrs_def on_ctx_def ctx_status_def)

lemma InterruptMask_frame [simp]:
  "m_holly (InterruptMask k v s) = m_holly s"
  "m_p4 (InterruptMask k v s) = m_p4 s"
  "m_sb (InterruptMask k v s) = m_sb s"
  "m_cache (InterruptMask k v s) = m_cache s"
  "m_tmu (InterruptMask k v s) = m_tmu s"
  "m_sched (InterruptMask k v s) = m_sched s"
  "m_ccn (InterruptMask k v s) = m_ccn s"
  "m_dev (InterruptMask k v s) = m_dev s"
  "m_mmu (InterruptMask k v s) = m_mmu s"
  "m_cycles (InterruptMask k v s) = m_cycles s"
  "m_map (InterruptMask k v s) = m_map s"
  "m_mem (InterruptMask k v s) = m_mem s"
  "m_pvr (InterruptMask k v s) = m_pvr s"
  "m_spg (InterruptMask k v s) = m_spg s"
  "m_scif (InterruptMask k v s) = m_scif s"
  "m_ocr (InterruptMask k v s) = m_ocr s"
  "ctx_sr (m_ctx (InterruptMask k v s)) = ctx_sr (m_ctx s)"
  "ctx_cycle_counter (m_ctx (InterruptMask k v s)) = ctx_cycle_counter (m_ctx s)"
  "ctx_sh4_sched_next (m_ctx (InterruptMask k v s)) = ctx_sh4_sched_next (m_ctx s)"
  "ctx_status (m_ctx (InterruptMask k v s)) = ctx_status (m_ctx s)"
  "src_pending (m_intc (InterruptMask k v s)) = src_pending (m_intc s)"
  "GetPrLvl (m_intc (InterruptMask k v s)) = GetPrLvl (m_intc s)"
  by (simp_all add: InterruptMask_def SetInterruptMask_def ResetInterruptMask_def
      recalc_pending_itrs_def on_ctx_def ctx_status_def)

lemma InterruptPend_inv:
  assumes "intc_inv s" "sr_decoded s" "k < sh4_INT_ID_COUNT"
  shows "intc_inv (InterruptPend k v s)" "sr_decoded (InterruptPend k v s)"
    and "j < sh4_INT_ID_COUNT \<Longrightarrow>
      src_pending (m_intc (InterruptPend k v s)) j \<longleftrightarrow> (if j = k then v else src_pending (m_intc s) j)"
  using assms pend.inv_drive [of s k v] pend.line_drive [of s k j v]
  by (simp_all add: InterruptPend_def)

lemma InterruptMask_inv:
  assumes "intc_inv s" "sr_decoded s" "k < sh4_INT_ID_COUNT"
  shows "intc_inv (InterruptMask k v s)" "sr_decoded (InterruptMask k v s)"
    and "j < sh4_INT_ID_COUNT \<Longrightarrow>
      src_enabled (m_intc (InterruptMask k v s)) j \<longleftrightarrow> (if j = k then v else src_enabled (m_intc s) j)"
  using assms msk.inv_drive [of s k v] msk.line_drive [of s k j v]
  by (simp_all add: InterruptMask_def)

section \<open>Properties\<close>

text \<open>C15: Whatever the state of the controller, rebuilding the sorted interrupt table yields
  the representation in which every source owns the bit of its rank by priority, each level
  mask covers exactly the sources of that level and below, and the context's pending word is
  up to date; no interrupt is lost, raised, masked or unmasked by it.\<close>
theorem SIIDRebuild_sorted:
  "intc_inv (SIIDRebuild s) \<and> sr_decoded (SIIDRebuild s) \<and>
   {t. t < sh4_INT_ID_COUNT \<and> src_pending (m_intc (SIIDRebuild s)) t} =
     {t. t < sh4_INT_ID_COUNT \<and> src_pending (m_intc s) t} \<and>
   {t. t < sh4_INT_ID_COUNT \<and> src_enabled (m_intc (SIIDRebuild s)) t} =
     {t. t < sh4_INT_ID_COUNT \<and> src_enabled (m_intc s) t} \<and>
   GetPrLvl (m_intc (SIIDRebuild s)) = GetPrLvl (m_intc s)"
  by (auto simp: SIIDRebuild_inv SIIDRebuild_lines)

text \<open>C16: Driving an interrupt line, or its mask, changes that line and no other, keeps the
  representation and refreshes the pending word of the context.\<close>
theorem InterruptPend_Mask_refine:
  assumes "intc_inv s" and "k < sh4_INT_ID_COUNT"
  shows "intc_inv (InterruptPend k v s) \<and> intc_inv (InterruptMask k v s) \<and>
    {t. t < sh4_INT_ID_COUNT \<and> src_pending (m_intc (InterruptPend k v s)) t} =
      (if v then insert k {t. t < sh4_INT_ID_COUNT \<and> src_pending (m_intc s) t}
       else {t. t < sh4_INT_ID_COUNT \<and> src_pending (m_intc s) t} - {k}) \<and>
    {t. t < sh4_INT_ID_COUNT \<and> src_enabled (m_intc (InterruptMask k v s)) t} =
      (if v then insert k {t. t < sh4_INT_ID_COUNT \<and> src_enabled (m_intc s) t}
       else {t. t < sh4_INT_ID_COUNT \<and> src_enabled (m_intc s) t} - {k}) \<and>
    src_enabled (m_intc (InterruptPend k v s)) = src_enabled (m_intc s) \<and>
    src_pending (m_intc (InterruptMask k v s)) = src_pending (m_intc s)"
  using pend.inv_drive [OF assms] msk.inv_drive [OF assms] pend.lines_set [OF assms]
    pend.lines_reset [OF assms] msk.lines_set [OF assms] msk.lines_reset [OF assms]
  by (simp add: InterruptPend_def InterruptMask_def)

theorem InterruptPend_Mask_refine_witness:
  "{t. t < sh4_INT_ID_COUNT \<and>
     src_pending (m_intc (InterruptPend sh4_IRL_9 True (interrupts_reset (zero_machine ())))) t} =
   {sh4_IRL_9}"
  using InterruptPend_Mask_refine [of "interrupts_reset (zero_machine ())" sh4_IRL_9 True]
  by (simp add: interrupts_reset_inv cong: conj_cong)

end
