(* ===== verification/Sh4_Core_Regs.thy ===== *)
theory Sh4_Core_Regs
  imports Sh4_Interrupts
begin

text \<open>
  Register banks and status registers, \<^verbatim>\<open>hw/sh4/sh4_core_regs.cpp\<close>. The register file keeps
  the active bank of \<open>r0\<close> to \<open>r7\<close> in \<open>r\<close> and the other one in \<open>r_bank\<close>; \<open>old_sr\<close> records
  which bank that is. \<open>bank_view\<close> is the abstraction: the register a program means by
  \<open>Rk_BANKb\<close>, wherever it is kept. The host's rounding mode, which \<^verbatim>\<open>UpdateFPSCR\<close> also sets,
  is state of the host CPU and not of the machine.
\<close>

section \<open>The operations\<close>

definition ChangeGPR :: "Sh4Context \<Rightarrow> Sh4Context" where
  "ChangeGPR c = c\<lparr>ctx_r := (\<lambda>n. if unat n < 8 then ctx_r_bank c (ucast n) else ctx_r c n),
     ctx_r_bank := (\<lambda>k. ctx_r c (ucast k))\<rparr>"

definition UpdateSR_banks :: "Sh4Context \<Rightarrow> Sh4Context" where
  "UpdateSR_banks c =
    (let c1 = (if st_MD (ctx_status c) \<noteq> 0
           then (if st_RB (ctx_old_sr c) \<noteq> st_RB (ctx_status c) then ChangeGPR c else c)
           else (if st_RB (ctx_old_sr c) \<noteq> 0 then ChangeGPR c else c));
         old = ctx_status c1
     in c1\<lparr>ctx_old_sr := set_RB (st_RB old AND st_MD (ctx_status c1)) old\<rparr>)"

definition UpdateSR :: "'d machine \<Rightarrow> bool \<times> 'd machine" where
  "UpdateSR s = SRdecode (on_ctx UpdateSR_banks s)"

definition UpdateFPSCR :: "Sh4Context \<Rightarrow> Sh4Context" where
  "UpdateFPSCR c =
    (let c1 = (if fp_FR (ctx_fpscr c) \<noteq> fp_FR (ctx_old_fpscr c)
           then c\<lparr>ctx_xf := ctx_fr c, ctx_fr := ctx_xf c\<rparr> else c)
     in c1\<lparr>ctx_old_fpscr := ctx_fpscr c1\<rparr>)"

section \<open>Single-bit fields\<close>

lemma fld_1: "fld lo (Suc 0) x = of_bool (bit x lo)"
  by (rule bit_word_eqI) (auto simp: bit_fld bit_1_iff)

lemma flag_bits:
  "st_S x = of_bool (bit x 1)" "st_Q x = of_bool (bit x 8)" "st_M x = of_bool (bit x 9)"
  "st_FD x = of_bool (bit x 15)" "st_BL x = of_bool (bit x 28)" "st_RB x = of_bool (bit x 29)"
  "st_MD x = of_bool (bit x 30)"
  by (simp_all add: st_defs fld_1)

lemma flag_set [simp]:
  "st_S (set_S v x) = take_bit 1 v" "st_Q (set_Q v x) = take_bit 1 v" "st_M (set_M v x) = take_bit 1 v"
  "st_BL (set_BL v x) = take_bit 1 v" "st_RB (set_RB v x) = take_bit 1 v"
  "st_MD (set_MD v x) = take_bit 1 v"
  by (simp_all add: st_defs set_st_defs field_simps_bits)

lemma flag_set_other [simp]:
  "st_BL (set_MD v x) = st_BL x" "st_BL (set_RB v x) = st_BL x"
  "st_MD (set_BL v x) = st_MD x" "st_MD (set_RB v x) = st_MD x"
  "st_RB (set_BL v x) = st_RB x" "st_RB (set_MD v x) = st_RB x"
  "st_MD (set_S v x) = st_MD x" "st_RB (set_S v x) = st_RB x" "st_BL (set_S v x) = st_BL x"
  "st_MD (set_Q v x) = st_MD x" "st_RB (set_Q v x) = st_RB x" "st_BL (set_Q v x) = st_BL x"
  "st_MD (set_M v x) = st_MD x" "st_RB (set_M v x) = st_RB x" "st_BL (set_M v x) = st_BL x"
  "st_M (set_Q v x) = st_M x" "st_Q (set_M v x) = st_Q x"
  "st_S (set_Q v x) = st_S x" "st_S (set_M v x) = st_S x"
  "st_Q (set_S v x) = st_Q x" "st_M (set_S v x) = st_M x"
  by (simp_all add: st_defs set_st_defs field_simps_bits)

section \<open>Status register words\<close>

text \<open>The masked status never holds a bit outside \<open>SR_MASK\<close>, and T is a bit.\<close>

definition sr_wf :: "sr_t \<Rightarrow> bool" where
  "sr_wf sr \<longleftrightarrow> sr_status sr AND SR_MASK = sr_status sr \<and> (sr_T sr = 0 \<or> sr_T sr = 1)"

lemma bits_of_u32: "bit (w :: u32) i \<longleftrightarrow> i \<in> set (filter (bit w) [0..<32])"
  by (auto dest: bit_imp_le_length)

lemma SR_MASK_bits: "bit SR_MASK i \<longleftrightarrow> i \<in> {1, 4, 5, 6, 7, 8, 9, 15, 28, 29, 30}"
proof -
  have "filter (bit SR_MASK) [0..<32] = [1, 4, 5, 6, 7, 8, 9, 15, 28, 29, 30]"
    by code_simp
  then show ?thesis by (subst bits_of_u32) simp
qed

lemma bit_word_1: "bit (1 :: 'a::len word) i \<longleftrightarrow> i = 0"
  by (auto simp: bit_1_iff)

lemma setFull_wf [simp]: "sr_wf (setFull v)"
proof -
  have "v AND 1 = (of_bool (bit v 0) :: u32)"
    by (rule bit_word_eqI) (auto simp: bit_and_iff bit_word_1 intro: gr0I)
  then have "v AND 1 = 0 \<or> v AND 1 = 1"
    by simp
  then show ?thesis by (simp add: sr_wf_def setFull_def and.assoc)
qed

lemma getFull_setFull_word: "getFull (setFull v) = v AND (SR_MASK OR 1)"
  by (simp add: getFull_def setFull_def bit.conj_disj_distrib and.assoc)

lemma SR_MASK_and_1 [simp]: "1 AND SR_MASK = (0 :: u32)" "SR_MASK AND 1 = (0 :: u32)"
  by (simp_all add: SR_MASK_def)

lemma setFull_getFull: "sr_wf sr \<Longrightarrow> setFull (getFull sr) = sr"
proof -
  assume wf: "sr_wf sr"
  have t: "sr_T sr AND 1 = sr_T sr" "sr_T sr AND SR_MASK = 0" using wf by (auto simp: sr_wf_def)
  have s: "sr_status sr AND SR_MASK = sr_status sr" using wf by (simp add: sr_wf_def)
  have "sr_status sr AND 1 = sr_status sr AND (SR_MASK AND 1)"
    by (subst s [symmetric]) (simp only: and.assoc)
  then have s1: "sr_status sr AND 1 = 0" by simp
  show ?thesis
    by (cases sr) (use t s s1 in \<open>simp add: setFull_def getFull_def bit.conj_disj_distrib2\<close>)
qed

lemma set_status_mask:
  assumes "x AND SR_MASK = x"
  shows "set_S v x AND SR_MASK = set_S v x" "set_Q v x AND SR_MASK = set_Q v x"
    "set_M v x AND SR_MASK = set_M v x" "set_BL v x AND SR_MASK = set_BL v x"
    "set_MD v x AND SR_MASK = set_MD v x" "set_RB v x AND SR_MASK = set_RB v x"
proof -
  have x: "bit x i \<Longrightarrow> bit SR_MASK i" for i
    using assms by (metis bit_and_iff)
  have set_fld: "set_fld lo 1 v x AND SR_MASK = set_fld lo 1 v x" if "bit SR_MASK lo" for lo
    by (rule bit_word_eqI)
      (use that x in \<open>auto simp: bit_simps bit_set_fld split: if_splits dest: le_antisym\<close>)
  show "set_S v x AND SR_MASK = set_S v x" "set_Q v x AND SR_MASK = set_Q v x"
    "set_M v x AND SR_MASK = set_M v x" "set_BL v x AND SR_MASK = set_BL v x"
    "set_MD v x AND SR_MASK = set_MD v x" "set_RB v x AND SR_MASK = set_RB v x"
    unfolding set_st_defs by (rule set_fld, simp add: SR_MASK_bits)+
qed

section \<open>The banked registers\<close>

text \<open>
  \<open>bank_active c\<close>: bank 1 is the one kept in \<open>r\<close>. \<open>arch_bank1\<close>: the status register selects
  bank 1 (mode and bank bit both set).
\<close>

definition bank_active :: "Sh4Context \<Rightarrow> bool" where
  "bank_active c \<longleftrightarrow> st_RB (ctx_old_sr c) \<noteq> 0"

definition arch_bank1 :: "Sh4Context \<Rightarrow> bool" where
  "arch_bank1 c \<longleftrightarrow> st_MD (ctx_status c) \<noteq> 0 \<and> st_RB (ctx_status c) \<noteq> 0"

definition bank_view :: "Sh4Context \<Rightarrow> bool \<Rightarrow> 3 word \<Rightarrow> u32" where
  "bank_view c b k = (if bank_active c = b then ctx_r c (ucast k) else ctx_r_bank c k)"

lemma ucast_3_4_less: "unat (ucast (k :: 3 word) :: 4 word) < 8"
proof -
  have "unat (ucast k :: 4 word) = unat k"
    using unsigned_less [of k, where 'a = nat]
    by (simp add: unsigned_ucast_eq take_bit_nat_eq_self)
  then show ?thesis using unsigned_less [of k, where 'a = nat] by simp
qed

lemma ucast_3_4_3 [simp]: "(ucast (ucast (k :: 3 word) :: 4 word) :: 3 word) = k"
  by (rule bit_word_eqI) (auto simp: bit_simps)

lemma ucast_4_3_4: "unat n < 8 \<Longrightarrow> (ucast (ucast (n :: 4 word) :: 3 word) :: 4 word) = n"
proof -
  assume "unat n < 8"
  then have "take_bit 3 n = n"
    by (intro word_unat_eq_iff [THEN iffD2]) (simp add: unsigned_take_bit_eq take_bit_nat_eq_self)
  then have "\<not> bit n i" if "\<not> i < 3" for i
    using that by (metis bit_take_bit_iff)
  then show ?thesis by (intro bit_word_eqI) (auto simp: bit_simps)
qed

lemma ChangeGPR_bank [simp]:
  "ctx_r (ChangeGPR c) (ucast (k :: 3 word)) = ctx_r_bank c k"
  "ctx_r_bank (ChangeGPR c) k = ctx_r c (ucast k)"
  using ucast_3_4_less [of k] by (simp_all add: ChangeGPR_def)

lemma ChangeGPR_involution: "ChangeGPR (ChangeGPR c) = c"
  using ucast_3_4_less by (cases c) (auto simp: ChangeGPR_def ucast_4_3_4 fun_eq_iff)

lemma ChangeGPR_frame [simp]:
  "ctx_sr (ChangeGPR c) = ctx_sr c" "ctx_status (ChangeGPR c) = ctx_status c"
  "ctx_old_sr (ChangeGPR c) = ctx_old_sr c" "ctx_pc (ChangeGPR c) = ctx_pc c"
  "ctx_ssr (ChangeGPR c) = ctx_ssr c" "ctx_spc (ChangeGPR c) = ctx_spc c"
  "ctx_sgr (ChangeGPR c) = ctx_sgr c" "ctx_vbr (ChangeGPR c) = ctx_vbr c"
  "ctx_interrupt_pend (ChangeGPR c) = ctx_interrupt_pend c"
  "8 \<le> unat n \<Longrightarrow> ctx_r (ChangeGPR c) n = ctx_r c n"
  by (simp_all add: ChangeGPR_def ctx_status_def)

lemma UpdateSR_banks_frame [simp]:
  "ctx_sr (UpdateSR_banks c) = ctx_sr c" "ctx_status (UpdateSR_banks c) = ctx_status c"
  "ctx_pc (UpdateSR_banks c) = ctx_pc c" "ctx_ssr (UpdateSR_banks c) = ctx_ssr c"
  "ctx_spc (UpdateSR_banks c) = ctx_spc c" "ctx_sgr (UpdateSR_banks c) = ctx_sgr c"
  "ctx_vbr (UpdateSR_banks c) = ctx_vbr c"
  "ctx_interrupt_pend (UpdateSR_banks c) = ctx_interrupt_pend c"
  "8 \<le> unat n \<Longrightarrow> ctx_r (UpdateSR_banks c) n = ctx_r c n"
  by (simp_all add: UpdateSR_banks_def Let_def ctx_status_def)

lemma UpdateSR_banks_active: "bank_active (UpdateSR_banks c) \<longleftrightarrow> arch_bank1 c"
  by (auto simp: bank_active_def arch_bank1_def UpdateSR_banks_def Let_def flag_bits(6,7)
      set_RB_def bit_set_fld ctx_status_def bit_simps bit_word_1)

lemma UpdateSR_banks_view: "bank_view (UpdateSR_banks c) = bank_view c"
proof (rule ext)+
  fix b k
  have swap: "bank_view (UpdateSR_banks c) b k =
      (if bank_active c = arch_bank1 c then if arch_bank1 c = b then ctx_r c (ucast k) else ctx_r_bank c k
       else if arch_bank1 c = b then ctx_r_bank c k else ctx_r c (ucast k))"
    unfolding bank_view_def [of "UpdateSR_banks c"] UpdateSR_banks_active
    by (simp add: UpdateSR_banks_def Let_def bank_active_def arch_bank1_def flag_bits)
  then show "bank_view (UpdateSR_banks c) b k = bank_view c b k"
    by (auto simp: bank_view_def)
qed

lemma UpdateFPSCR_idem: "UpdateFPSCR (UpdateFPSCR c) = UpdateFPSCR c"
  by (simp add: UpdateFPSCR_def Let_def)

lemma UpdateSR_simps [simp]:
  "m_sched (snd (UpdateSR s)) = m_sched s" "m_ccn (snd (UpdateSR s)) = m_ccn s"
  "m_mmu (snd (UpdateSR s)) = m_mmu s" "m_tmu (snd (UpdateSR s)) = m_tmu s"
  "m_holly (snd (UpdateSR s)) = m_holly s" "m_dev (snd (UpdateSR s)) = m_dev s"
  "m_cycles (snd (UpdateSR s)) = m_cycles s" "m_map (snd (UpdateSR s)) = m_map s"
  "m_mem (snd (UpdateSR s)) = m_mem s"
  "ctx_sr (m_ctx (snd (UpdateSR s))) = ctx_sr (m_ctx s)"
  "ctx_status (m_ctx (snd (UpdateSR s))) = ctx_status (m_ctx s)"
  by (simp_all add: UpdateSR_def on_ctx_def)

end
