(* ===== verification/Sh4_Exceptions.thy ===== *)
theory Sh4_Exceptions
  imports Sh4_Core_Regs
begin

text \<open>
  Entry into interrupts and exceptions: \<^verbatim>\<open>UpdateINTC\<close>, \<^verbatim>\<open>Do_Interrupt\<close> and
  \<^verbatim>\<open>Do_Exception\<close> of \<^verbatim>\<open>hw/sh4/sh4_interrupts.cpp\<close>. The call of the debugger at the end of
  both is the empty inline function of a build without the gdb server; the \<open>assert\<close> on the
  event code is compiled out of a release build and is the predicate \<open>exception_event\<close>.
\<close>

section \<open>The operations\<close>

text \<open>The part the two entries share: save the state, switch to privileged bank 1, block.\<close>

definition exception_entry :: "u32 \<Rightarrow> 'd machine \<Rightarrow> 'd machine" where
  "exception_entry spc s = snd (UpdateSR (on_ctx (\<lambda>c.
     upd_status (\<lambda>st. set_RB 1 (set_MD 1 (set_BL 1 st)))
       (c\<lparr>ctx_ssr := getFull (ctx_sr c), ctx_spc := spc, ctx_sgr := ctx_r c 15\<rparr>)) s))"

definition Do_Interrupt :: "u16 \<Rightarrow> 'd machine \<Rightarrow> 'd machine" where
  "Do_Interrupt intEvn s =
    (let s1 = m_ccn_update (CCN_INTEVT_update (\<lambda>_. ucast intEvn)) s;
         s2 = exception_entry (ctx_pc (m_ctx s1)) s1
     in on_ctx (\<lambda>c. c\<lparr>ctx_pc := ctx_vbr c + 0x600\<rparr>) s2)"

definition Do_Exception :: "u32 \<Rightarrow> u16 \<Rightarrow> ('d, unit) SM" where
  "Do_Exception epc expEvn s =
    (if st_BL (ctx_status (m_ctx s)) \<noteq> 0
     then Throw (FlycastException ''Fatal: SH4 exception when blocked'') s
     else
       let s1 = m_ccn_update (CCN_EXPEVT_update (\<lambda>_. ucast expEvn)) s;
           s2 = exception_entry epc s1;
           off = (if expEvn = Sh4Ex_TlbMissRead \<or> expEvn = Sh4Ex_TlbMissWrite
                  then 0x400 else 0x100)
       in Ret () (on_ctx (\<lambda>c. c\<lparr>ctx_pc := ctx_vbr c + off\<rparr>) s2))"

definition UpdateINTC :: "'d machine \<Rightarrow> int \<times> 'd machine" where
  "UpdateINTC s =
    (if ctx_interrupt_pend (m_ctx s) = 0 then (0, s)
     else (1, Do_Interrupt
       (InterruptEnvId (m_intc s) (bitscanrev (ctx_interrupt_pend (m_ctx s)))) s))"

definition exception_event :: "u16 \<Rightarrow> bool" where
  "exception_event e \<longleftrightarrow> Sh4Ex_TlbMissRead \<le> e \<and> e \<le> Sh4Ex_SlotIllegalInstr \<or>
     e = Sh4Ex_FpuDisabled \<or> e = Sh4Ex_SlotFpuDisabled \<or> e = Sh4Ex_UserBreak"

section \<open>What the entry does to the machine\<close>

lemma on_ctx_simps [simp]:
  "m_ctx (on_ctx f s) = f (m_ctx s)" "m_intc (on_ctx f s) = m_intc s"
  "m_ccn (on_ctx f s) = m_ccn s" "m_mmu (on_ctx f s) = m_mmu s"
  "m_sched (on_ctx f s) = m_sched s" "m_cycles (on_ctx f s) = m_cycles s"
  "m_map (on_ctx f s) = m_map s" "m_mem (on_ctx f s) = m_mem s" "m_tmu (on_ctx f s) = m_tmu s"
  "m_holly (on_ctx f s) = m_holly s" "m_dev (on_ctx f s) = m_dev s"
  by (simp_all add: on_ctx_def)

lemma m_ctx_SRdecode:
  "m_ctx (snd (SRdecode s)) =
     m_ctx s\<lparr>ctx_interrupt_pend := ctx_interrupt_pend (m_ctx (snd (SRdecode s)))\<rparr>"
  by (simp add: SRdecode_def Let_def recalc_pending_itrs_def)

lemma ctx_SRdecode [simp]:
  "ctx_r (m_ctx (snd (SRdecode s))) = ctx_r (m_ctx s)"
  "ctx_r_bank (m_ctx (snd (SRdecode s))) = ctx_r_bank (m_ctx s)"
  "ctx_pc (m_ctx (snd (SRdecode s))) = ctx_pc (m_ctx s)"
  "ctx_ssr (m_ctx (snd (SRdecode s))) = ctx_ssr (m_ctx s)"
  "ctx_spc (m_ctx (snd (SRdecode s))) = ctx_spc (m_ctx s)"
  "ctx_sgr (m_ctx (snd (SRdecode s))) = ctx_sgr (m_ctx s)"
  "ctx_vbr (m_ctx (snd (SRdecode s))) = ctx_vbr (m_ctx s)"
  "ctx_old_sr (m_ctx (snd (SRdecode s))) = ctx_old_sr (m_ctx s)"
  "bank_view (m_ctx (snd (SRdecode s))) = bank_view (m_ctx s)"
  by (subst m_ctx_SRdecode, simp add: bank_view_def bank_active_def fun_eq_iff)+

lemma UpdateSR_view: "bank_view (m_ctx (snd (UpdateSR s))) = bank_view (m_ctx s)"
  by (simp add: UpdateSR_def UpdateSR_banks_view)

lemma UpdateSR_active: "bank_active (m_ctx (snd (UpdateSR s))) \<longleftrightarrow> arch_bank1 (m_ctx s)"
  using UpdateSR_banks_active [of "m_ctx s"]
  by (simp add: UpdateSR_def bank_active_def)

lemma UpdateSR_inv:
  assumes "intc_wf (m_intc s)"
  shows "intc_inv (snd (UpdateSR s))" "sr_decoded (snd (UpdateSR s))"
  using assms by (simp_all add: UpdateSR_def SRdecode_inv)

lemma UpdateSR_intc [simp]:
  "GetPrLvl (m_intc (snd (UpdateSR s))) = GetPrLvl (m_intc s)"
  "src_pending (m_intc (snd (UpdateSR s))) = src_pending (m_intc s)"
  "src_enabled (m_intc (snd (UpdateSR s))) = src_enabled (m_intc s)"
  "intc_wf (m_intc (snd (UpdateSR s))) = intc_wf (m_intc s)"
  by (simp_all add: UpdateSR_def)

lemma UpdateSR_ctx [simp]:
  "ctx_pc (m_ctx (snd (UpdateSR s))) = ctx_pc (m_ctx s)"
  "ctx_ssr (m_ctx (snd (UpdateSR s))) = ctx_ssr (m_ctx s)"
  "ctx_spc (m_ctx (snd (UpdateSR s))) = ctx_spc (m_ctx s)"
  "ctx_sgr (m_ctx (snd (UpdateSR s))) = ctx_sgr (m_ctx s)"
  "ctx_vbr (m_ctx (snd (UpdateSR s))) = ctx_vbr (m_ctx s)"
  "8 \<le> unat n \<Longrightarrow> ctx_r (m_ctx (snd (UpdateSR s))) n = ctx_r (m_ctx s) n"
  by (simp_all add: UpdateSR_def)

lemma upd_status_simps [simp]:
  "ctx_status (upd_status f c) = f (ctx_status c)" "ctx_pc (upd_status f c) = ctx_pc c"
  "ctx_ssr (upd_status f c) = ctx_ssr c" "ctx_spc (upd_status f c) = ctx_spc c"
  "ctx_sgr (upd_status f c) = ctx_sgr c" "ctx_vbr (upd_status f c) = ctx_vbr c"
  "ctx_r (upd_status f c) = ctx_r c" "ctx_r_bank (upd_status f c) = ctx_r_bank c"
  "ctx_old_sr (upd_status f c) = ctx_old_sr c"
  "sr_T (ctx_sr (upd_status f c)) = sr_T (ctx_sr c)"
  "sr_status (ctx_sr (upd_status f c)) = f (sr_status (ctx_sr c))"
  "ctx_interrupt_pend (upd_status f c) = ctx_interrupt_pend c"
  by (simp_all add: upd_status_def ctx_status_def)

lemma bank_view_cong:
  "ctx_r c = ctx_r d \<Longrightarrow> ctx_r_bank c = ctx_r_bank d \<Longrightarrow> ctx_old_sr c = ctx_old_sr d \<Longrightarrow>
   bank_view c = bank_view d"
  by (simp add: bank_view_def bank_active_def fun_eq_iff)

lemma ctx_status_spc [simp]:
  "ctx_status (c\<lparr>ctx_ssr := a\<rparr>) = ctx_status c" "ctx_status (c\<lparr>ctx_spc := b\<rparr>) = ctx_status c"
  "ctx_status (c\<lparr>ctx_sgr := d\<rparr>) = ctx_status c" "ctx_status (c\<lparr>ctx_pc := d\<rparr>) = ctx_status c"
  by (simp_all add: ctx_status_def)

lemma sr_wf_upd_status:
  "sr_wf (ctx_sr c) \<Longrightarrow> (\<And>v. v AND SR_MASK = v \<Longrightarrow> f v AND SR_MASK = f v) \<Longrightarrow>
   sr_wf (ctx_sr (upd_status f c))"
  by (simp add: sr_wf_def)

text \<open>
  The saved state, the new status and the frame of an entry, as one fact: what RTE needs to
  come back, and what the handler may rely on.
\<close>

lemma exception_entry_ctx:
  fixes s :: "'d machine" and spc :: u32
  defines "c \<equiv> m_ctx s" and "c' \<equiv> m_ctx (exception_entry spc s)"
  shows "ctx_ssr c' = getFull (ctx_sr c)" "ctx_spc c' = spc" "ctx_sgr c' = ctx_r c 15"
    "ctx_vbr c' = ctx_vbr c" "ctx_pc c' = ctx_pc c" "8 \<le> unat n \<Longrightarrow> ctx_r c' n = ctx_r c n"
    "bank_view c' = bank_view c" "bank_active c'"
    "ctx_status c' = set_RB 1 (set_MD 1 (set_BL 1 (ctx_status c)))"
    "sr_T (ctx_sr c') = sr_T (ctx_sr c)"
proof -
  show "bank_view c' = bank_view c"
    unfolding c'_def exception_entry_def UpdateSR_view
    by (rule bank_view_cong) (simp_all add: c_def)
  show "bank_active c'"
    unfolding c'_def exception_entry_def UpdateSR_active
    by (simp add: arch_bank1_def)
qed (simp_all add: c_def c'_def exception_entry_def)

lemma exception_entry_frame [simp]:
  "m_ccn (exception_entry spc s) = m_ccn s" "m_mmu (exception_entry spc s) = m_mmu s"
  "m_sched (exception_entry spc s) = m_sched s" "m_mem (exception_entry spc s) = m_mem s"
  "m_map (exception_entry spc s) = m_map s" "m_dev (exception_entry spc s) = m_dev s"
  "m_tmu (exception_entry spc s) = m_tmu s" "m_holly (exception_entry spc s) = m_holly s"
  "m_cycles (exception_entry spc s) = m_cycles s"
  "src_pending (m_intc (exception_entry spc s)) = src_pending (m_intc s)"
  "src_enabled (m_intc (exception_entry spc s)) = src_enabled (m_intc s)"
  "intc_wf (m_intc (exception_entry spc s)) = intc_wf (m_intc s)"
  by (simp_all add: exception_entry_def)

lemma exception_entry_inv:
  assumes "intc_wf (m_intc s)"
  shows "intc_inv (exception_entry spc s)" "sr_decoded (exception_entry spc s)"
  unfolding exception_entry_def
  by (rule UpdateSR_inv, simp add: assms)+

lemma exception_entry_sr_wf:
  "sr_wf (ctx_sr (m_ctx s)) \<Longrightarrow> sr_wf (ctx_sr (m_ctx (exception_entry spc s)))"
  by (simp add: exception_entry_def sr_wf_upd_status set_status_mask)

lemma exception_entry_BL: "st_BL (ctx_status (m_ctx (exception_entry spc s))) = 1"
  by (simp add: exception_entry_ctx)

text \<open>After an entry nothing interrupts the CPU until the handler clears BL.\<close>

lemma exception_entry_blocks:
  assumes "intc_wf (m_intc s)"
  shows "ctx_interrupt_pend (m_ctx (exception_entry spc s)) = 0"
proof -
  let ?s = "exception_entry spc s"
  have "\<not> interruptible ?s t" for t
    by (simp add: interruptible_def exception_entry_BL)
  with pend_nonzero [OF exception_entry_inv [OF assms], of spc] show ?thesis by blast
qed

lemma intc_inv_pc [simp]:
  "intc_inv (on_ctx (\<lambda>c. c\<lparr>ctx_pc := f c\<rparr>) s) = intc_inv s"
  "sr_decoded (on_ctx (\<lambda>c. c\<lparr>ctx_pc := f c\<rparr>) s) = sr_decoded s"
  by (simp_all add: intc_inv_def sr_decoded_def)

section \<open>Properties\<close>

text \<open>C17: The interrupt controller delivers the interruptible source (pending, unmasked,
  SR.BL clear, priority above SR.IMASK) of the highest priority, with its event code, and
  does nothing when there is none; among sources of equal priority it takes the one with the
  largest identifier.\<close>
theorem UpdateINTC_highest:
  assumes "intc_inv s" and "sr_decoded s"
  shows "if \<exists>t. interruptible s t
    then \<exists>t. interruptible s t \<and> UpdateINTC s = (1, Do_Interrupt (IntEvnCode t) s) \<and>
      {u. interruptible s u \<and> (GetPrLvl (m_intc s) t < GetPrLvl (m_intc s) u \<or>
         GetPrLvl (m_intc s) t = GetPrLvl (m_intc s) u \<and> t < u)} = {}
    else UpdateINTC s = (0, s)"
proof (cases "\<exists>t. interruptible s t")
  case True
  then have nz: "ctx_interrupt_pend (m_ctx s) \<noteq> 0" using pend_nonzero [OF assms] by simp
  obtain t where t: "interruptible s t"
    and ev: "InterruptEnvId (m_intc s) (bitscanrev (ctx_interrupt_pend (m_ctx s))) = IntEvnCode t"
    and top: "\<And>u. interruptible s u \<Longrightarrow> src_key (m_intc s) u \<le> src_key (m_intc s) t"
    using highest_pending [OF assms nz] by metis
  have "{u. interruptible s u \<and> (GetPrLvl (m_intc s) t < GetPrLvl (m_intc s) u \<or>
         GetPrLvl (m_intc s) t = GetPrLvl (m_intc s) u \<and> t < u)} = {}"
    using t top by (auto simp: interruptible_def src_key_less_iff not_less [symmetric])
  with True t ev nz show ?thesis by (auto simp: UpdateINTC_def)
qed (use pend_nonzero [OF assms] in \<open>auto simp: UpdateINTC_def\<close>)

definition witness_machine :: "unit machine" where
  "witness_machine = SetInterruptPend sh4_TMU0_TUNI0
     (SetInterruptPend sh4_IRL_9 (interrupts_reset (zero_machine ())))"

lemma witness_machine_inv:
  "intc_inv witness_machine" "sr_decoded witness_machine"
  "ctx_status (m_ctx witness_machine) = 0"
  "GetPrLvl (m_intc witness_machine) = GetPrLvl zero_intc"
  "t < sh4_INT_ID_COUNT \<Longrightarrow> src_pending (m_intc witness_machine) t \<longleftrightarrow>
     t = sh4_TMU0_TUNI0 \<or> t = sh4_IRL_9"
  "t < sh4_INT_ID_COUNT \<Longrightarrow> src_enabled (m_intc witness_machine) t"
  by (simp_all add: witness_machine_def interrupts_reset_inv pend.inv_set pend.line_set)
    (simp_all add: zero_machine_def zero_ctx_def ctx_status_def)

lemma witness_machine_interruptible: "interruptible witness_machine t \<longleftrightarrow> t = sh4_IRL_9"
  by (auto simp: interruptible_def witness_machine_inv flag_bits st_IMASK_def fld_def
      GetPrLvl_def prio_reg_value_def InterruptSourceList_def zero_intc_def)

theorem UpdateINTC_highest_witness:
  "UpdateINTC witness_machine = (1, Do_Interrupt (IntEvnCode sh4_IRL_9) witness_machine)"
  using UpdateINTC_highest [of witness_machine]
  by (simp add: witness_machine_inv witness_machine_interruptible)

text \<open>C18: An exception enters its handler with the complete state to come back saved: the
  status register with T in SSR, the address in SPC, \<open>r15\<close> in SGR; the CPU is privileged, on
  register bank 1 and blocked, no interrupt is pending for it, every banked register keeps
  its value, and the vector is VBR + 0x400 for a TLB miss and VBR + 0x100 otherwise. When
  SR.BL is already set the emulator stops with a fatal error and changes nothing.\<close>
theorem Do_Exception_entry:
  assumes "intc_wf (m_intc s)"
  shows "if st_BL (ctx_status (m_ctx s)) \<noteq> 0
    then Do_Exception epc ev s =
      Throw (FlycastException ''Fatal: SH4 exception when blocked'') s
    else \<exists>s'. Do_Exception epc ev s = Ret () s' \<and>
      ctx_ssr (m_ctx s') = getFull (ctx_sr (m_ctx s)) \<and> ctx_spc (m_ctx s') = epc \<and>
      ctx_sgr (m_ctx s') = ctx_r (m_ctx s) 15 \<and>
      ctx_pc (m_ctx s') = ctx_vbr (m_ctx s) +
        (if ev = Sh4Ex_TlbMissRead \<or> ev = Sh4Ex_TlbMissWrite then 0x400 else 0x100) \<and>
      CCN_EXPEVT (m_ccn s') = ucast ev \<and>
      bank_view (m_ctx s') = bank_view (m_ctx s) \<and> bank_active (m_ctx s') \<and>
      st_BL (ctx_status (m_ctx s')) = 1 \<and> st_MD (ctx_status (m_ctx s')) = 1 \<and>
      ctx_interrupt_pend (m_ctx s') = 0 \<and> intc_inv s' \<and> sr_decoded s'"
proof (cases "st_BL (ctx_status (m_ctx s)) \<noteq> 0")
  case False
  let ?s1 = "m_ccn_update (CCN_EXPEVT_update (\<lambda>_. ucast ev)) s"
  let ?off = "if ev = Sh4Ex_TlbMissRead \<or> ev = Sh4Ex_TlbMissWrite then 0x400 else 0x100 :: u32"
  let ?s' = "on_ctx (\<lambda>c. c\<lparr>ctx_pc := ctx_vbr c + ?off\<rparr>) (exception_entry epc ?s1)"
  have wf: "intc_wf (m_intc ?s1)" using assms by simp
  have view: "bank_view (c\<lparr>ctx_pc := p\<rparr>) = bank_view c" "bank_active (c\<lparr>ctx_pc := p\<rparr>) = bank_active c"
    for c p by (simp_all add: bank_view_def bank_active_def fun_eq_iff)
  have "Do_Exception epc ev s = Ret () ?s'"
    using False by (simp add: Do_Exception_def Let_def)
  moreover have "bank_view (m_ctx ?s') = bank_view (m_ctx s)" "bank_active (m_ctx ?s')"
    by (simp_all add: view exception_entry_ctx)
  moreover have "intc_inv ?s'" "sr_decoded ?s'" "ctx_interrupt_pend (m_ctx ?s') = 0"
    using exception_entry_inv [OF wf] exception_entry_blocks [OF wf] by simp_all
  ultimately show ?thesis
    using False
    by (subst if_not_P, simp) (intro exI [of _ ?s'], simp add: exception_entry_ctx view)
qed (simp add: Do_Exception_def)

theorem Do_Exception_entry_witness:
  "\<exists>s'. Do_Exception 0x8C010000 Sh4Ex_Trap witness_machine = Ret () s' \<and>
     ctx_spc (m_ctx s') = 0x8C010000 \<and> ctx_pc (m_ctx s') = ctx_vbr (m_ctx witness_machine) + 0x100"
  using Do_Exception_entry [of witness_machine "0x8C010000" Sh4Ex_Trap] witness_machine_inv(1,3)
  by (auto simp: flag_bits intc_inv_def)

end
