(* ===== verification/Sh4_Mem.thy ===== *)
theory Sh4_Mem
  imports Addrspace Sh4_Exceptions
begin

text \<open>
  Memory access by the CPU: the access functions of \<^verbatim>\<open>modules/mmu.cpp\<close> that check the
  alignment, translate the address and raise the exception, and the choice between them and
  the untranslated access of \<^verbatim>\<open>SetMemoryHandlers\<close> in \<^verbatim>\<open>sh4_mem.cpp\<close>. The source keeps the choice
  in function pointers that are set whenever \<open>mmuOn\<close> changes; the model reads \<open>mmuOn\<close>. The
  translation itself is a parameter, with \<^verbatim>\<open>mmu.cpp\<close> as an instance in another theory.
\<close>

section \<open>Raising MMU exceptions\<close>

abbreviation (input) "MMU_TT_IREAD \<equiv> (0 :: nat)"
abbreviation (input) "MMU_TT_DWRITE \<equiv> (1 :: nat)"
abbreviation (input) "MMU_TT_DREAD \<equiv> (2 :: nat)"

text \<open>The event a translation error raises; \<open>Inl\<close> is a \<open>die\<close> or a failed \<open>verify\<close>.\<close>

definition mmu_event :: "MmuError \<Rightarrow> nat \<Rightarrow> string + u16" where
  "mmu_event mmu_error am = (case mmu_error of
     NONE \<Rightarrow> Inl ''Error: mmu_error == MmuError::NONE)''
   | TLB_MISS \<Rightarrow> Inr (if am = MMU_TT_DWRITE then Sh4Ex_TlbMissWrite else Sh4Ex_TlbMissRead)
   | TLB_MHIT \<Rightarrow> Inr Sh4Ex_TlbMultiHit
   | PROTECTED \<Rightarrow> Inr (if am = MMU_TT_DWRITE then Sh4Ex_TlbProtViolWrite else Sh4Ex_TlbProtViolRead)
   | FIRSTWRITE \<Rightarrow> if am = MMU_TT_DWRITE then Inr Sh4Ex_TlbInitPageWrite else Inl ''verify''
   | BADADDR \<Rightarrow> Inr (if am = MMU_TT_DWRITE then Sh4Ex_AddressErrorWrite else Sh4Ex_AddressErrorRead))"

definition mmuException_regs :: "u32 \<Rightarrow> 'd machine \<Rightarrow> 'd machine" where
  "mmuException_regs address = m_ccn_update (\<lambda>c.
     c\<lparr>CCN_TEA := address, CCN_PTEH := set_fld 10 22 (drop_bit 10 address) (CCN_PTEH c)\<rparr>)"

definition mmu_raise_exception :: "MmuError \<Rightarrow> u32 \<Rightarrow> nat \<Rightarrow> ('d, 'a) SM" where
  "mmu_raise_exception mmu_error address am s =
    (let s1 = mmuException_regs address s
     in case mmu_event mmu_error am of
          Inl msg \<Rightarrow> Throw (Die msg) s1
        | Inr ev \<Rightarrow> Throw (SH4ThrownException (ctx_pc (m_ctx s1) - 2) ev) s1)"

definition DoMMUException :: "u32 \<Rightarrow> MmuError \<Rightarrow> nat \<Rightarrow> ('d, unit) SM" where
  "DoMMUException address mmu_error access_type s =
    (let s1 = mmuException_regs address s
     in case mmu_event mmu_error access_type of
          Inl msg \<Rightarrow> Throw (Die msg) s1
        | Inr ev \<Rightarrow> Do_Exception (ctx_pc (m_ctx s1)) ev s1)"

section \<open>Translated access\<close>

text \<open>Check of the alignment and translation, shared by the access functions.\<close>

definition mmu_data_address :: "'d env \<Rightarrow> bool \<Rightarrow> u32 \<Rightarrow> u32 \<Rightarrow> ('d, u32) SM" where
  "mmu_data_address E write algn adr =
    (let tt = (if write then MMU_TT_DWRITE else MMU_TT_DREAD)
     in if adr AND algn \<noteq> 0 then mmu_raise_exception BADADDR adr tt
        else bindM (e_data_translation E write adr) (\<lambda>(rv, addr).
          if rv \<noteq> NONE then mmu_raise_exception rv adr tt else returnM addr))"

definition mmu_ReadMem8 :: "'d env \<Rightarrow> u32 \<Rightarrow> ('d, u8) SM" where
  "mmu_ReadMem8 E adr = bindM (mmu_data_address E False 0 adr) (readt8 E)"

definition mmu_ReadMem16 :: "'d env \<Rightarrow> u32 \<Rightarrow> ('d, u16) SM" where
  "mmu_ReadMem16 E adr = bindM (mmu_data_address E False 1 adr) (readt16 E)"

definition mmu_ReadMem32 :: "'d env \<Rightarrow> u32 \<Rightarrow> ('d, u32) SM" where
  "mmu_ReadMem32 E adr = bindM (mmu_data_address E False 3 adr) (readt32 E)"

definition mmu_ReadMem64 :: "'d env \<Rightarrow> u32 \<Rightarrow> ('d, u64) SM" where
  "mmu_ReadMem64 E adr = bindM (mmu_data_address E False 3 adr) (readt64 E)"

definition mmu_WriteMem8 :: "'d env \<Rightarrow> u32 \<Rightarrow> u8 \<Rightarrow> ('d, unit) SM" where
  "mmu_WriteMem8 E adr data = bindM (mmu_data_address E True 0 adr) (\<lambda>addr. writet8 E addr data)"

definition mmu_WriteMem16 :: "'d env \<Rightarrow> u32 \<Rightarrow> u16 \<Rightarrow> ('d, unit) SM" where
  "mmu_WriteMem16 E adr data = bindM (mmu_data_address E True 1 adr) (\<lambda>addr. writet16 E addr data)"

definition mmu_WriteMem32 :: "'d env \<Rightarrow> u32 \<Rightarrow> u32 \<Rightarrow> ('d, unit) SM" where
  "mmu_WriteMem32 E adr data = bindM (mmu_data_address E True 3 adr) (\<lambda>addr. writet32 E addr data)"

definition mmu_WriteMem64 :: "'d env \<Rightarrow> u32 \<Rightarrow> u64 \<Rightarrow> ('d, unit) SM" where
  "mmu_WriteMem64 E adr data = bindM (mmu_data_address E True 3 adr) (\<lambda>addr. writet64 E addr data)"

definition mmu_IReadMem16 :: "'d env \<Rightarrow> u32 \<Rightarrow> ('d, u16) SM" where
  "mmu_IReadMem16 E vaddr =
    (if vaddr AND 1 \<noteq> 0 then mmu_raise_exception BADADDR vaddr MMU_TT_IREAD
     else bindM (e_instruction_translation E vaddr) (\<lambda>(rv, addr).
       if rv \<noteq> NONE then mmu_raise_exception rv vaddr MMU_TT_IREAD else readt16 E addr))"

section \<open>The function pointers\<close>

definition ReadMem8 :: "'d env \<Rightarrow> u32 \<Rightarrow> ('d, u8) SM" where
  "ReadMem8 E a s = (if mmuOn (m_mmu s) then mmu_ReadMem8 E a s else readt8 E a s)"

definition ReadMem16 :: "'d env \<Rightarrow> u32 \<Rightarrow> ('d, u16) SM" where
  "ReadMem16 E a s = (if mmuOn (m_mmu s) then mmu_ReadMem16 E a s else readt16 E a s)"

definition IReadMem16 :: "'d env \<Rightarrow> u32 \<Rightarrow> ('d, u16) SM" where
  "IReadMem16 E a s = (if mmuOn (m_mmu s) then mmu_IReadMem16 E a s else readt16 E a s)"

definition ReadMem32 :: "'d env \<Rightarrow> u32 \<Rightarrow> ('d, u32) SM" where
  "ReadMem32 E a s = (if mmuOn (m_mmu s) then mmu_ReadMem32 E a s else readt32 E a s)"

definition ReadMem64 :: "'d env \<Rightarrow> u32 \<Rightarrow> ('d, u64) SM" where
  "ReadMem64 E a s = (if mmuOn (m_mmu s) then mmu_ReadMem64 E a s else readt64 E a s)"

definition WriteMem8 :: "'d env \<Rightarrow> u32 \<Rightarrow> u8 \<Rightarrow> ('d, unit) SM" where
  "WriteMem8 E a d s = (if mmuOn (m_mmu s) then mmu_WriteMem8 E a d s else writet8 E a d s)"

definition WriteMem16 :: "'d env \<Rightarrow> u32 \<Rightarrow> u16 \<Rightarrow> ('d, unit) SM" where
  "WriteMem16 E a d s = (if mmuOn (m_mmu s) then mmu_WriteMem16 E a d s else writet16 E a d s)"

definition WriteMem32 :: "'d env \<Rightarrow> u32 \<Rightarrow> u32 \<Rightarrow> ('d, unit) SM" where
  "WriteMem32 E a d s = (if mmuOn (m_mmu s) then mmu_WriteMem32 E a d s else writet32 E a d s)"

definition WriteMem64 :: "'d env \<Rightarrow> u32 \<Rightarrow> u64 \<Rightarrow> ('d, unit) SM" where
  "WriteMem64 E a d s = (if mmuOn (m_mmu s) then mmu_WriteMem64 E a d s else writet64 E a d s)"

section \<open>Block transfers\<close>

text \<open>
  \<^verbatim>\<open>WriteMemBlock_nommu_dma\<close> and its helpers. \<open>readConst\<close> and \<open>writeConst\<close> give the block and
  the offset an address lies in, or \<open>None\<close> for a handler. A copy between blocks is \<open>memcpy\<close>.
\<close>

definition block_of :: "u32 \<Rightarrow> 'd machine \<Rightarrow> (nat \<times> u32) option" where
  "block_of addr s = (case m_map s (page_of addr) of
     Block b sh \<Rightarrow> Some (b, wrap_addr sh addr) | Handler h \<Rightarrow> None)"

definition memcpy :: "nat \<Rightarrow> u32 \<Rightarrow> (u32 \<Rightarrow> u8) \<Rightarrow> u32 \<Rightarrow> nat \<Rightarrow> 'd machine \<Rightarrow> 'd machine" where
  "memcpy b dst src off sz = upd_block b (\<lambda>f. fold (\<lambda>k f.
     f(dst + of_nat k := src (off + of_nat k))) [0..<sz] f)"

text \<open>The source buffer of the pointer variant is the block \<open>sb\<close> from offset \<open>off\<close>, read as the
  loop goes along.\<close>

function WriteMemBlock_nommu_ptr_loop ::
  "'d env \<Rightarrow> u32 \<Rightarrow> nat \<Rightarrow> u32 \<Rightarrow> nat \<Rightarrow> nat \<Rightarrow> ('d, unit) SM" where
  "WriteMemBlock_nommu_ptr_loop E dst sb off i sz =
    (if sz \<le> i then returnM ()
     else if 4 \<le> sz - i then
       bindM (getM (\<lambda>s. ld32 (m_mem s sb) (off + of_nat i))) (\<lambda>v.
       bindM (writet32 E (dst + of_nat i) v) (\<lambda>_.
       WriteMemBlock_nommu_ptr_loop E dst sb off (i + 4) sz))
     else if 2 \<le> sz - i then
       bindM (getM (\<lambda>s. ld16 (m_mem s sb) (off + of_nat i))) (\<lambda>v.
       bindM (writet16 E (dst + of_nat i) v) (\<lambda>_.
       WriteMemBlock_nommu_ptr_loop E dst sb off (i + 2) sz))
     else
       bindM (getM (\<lambda>s. m_mem s sb (off + of_nat i))) (\<lambda>v.
       bindM (writet8 E (dst + of_nat i) v) (\<lambda>_.
       WriteMemBlock_nommu_ptr_loop E dst sb off (i + 1) sz)))"
  by pat_completeness auto
termination
  by (relation "measure (\<lambda>(_, _, _, _, i, sz). sz - i)") auto

declare WriteMemBlock_nommu_ptr_loop.simps [simp del]

definition WriteMemBlock_nommu_ptr ::
  "'d env \<Rightarrow> u32 \<Rightarrow> nat \<Rightarrow> u32 \<Rightarrow> nat \<Rightarrow> ('d, unit) SM" where
  "WriteMemBlock_nommu_ptr E dst sb off sz s = (case block_of dst s of
     Some (b, d) \<Rightarrow> Ret () (memcpy b d (m_mem s sb) off sz s)
   | None \<Rightarrow> WriteMemBlock_nommu_ptr_loop E dst sb off 0 sz s)"

fun dma_words :: "'d env \<Rightarrow> u32 \<Rightarrow> u32 \<Rightarrow> nat list \<Rightarrow> ('d, unit) SM" where
  "dma_words E dst src [] = returnM ()"
| "dma_words E dst src (i # is) =
     bindM (readt32 E (src + of_nat i)) (\<lambda>v.
     bindM (writet32 E (dst + of_nat i) v) (\<lambda>_. dma_words E dst src is))"

definition WriteMemBlock_nommu_dma :: "'d env \<Rightarrow> u32 \<Rightarrow> u32 \<Rightarrow> nat \<Rightarrow> ('d, unit) SM" where
  "WriteMemBlock_nommu_dma E dst src sz s = (case (block_of dst s, block_of src s) of
     (Some (b, d), Some (b', o')) \<Rightarrow> Ret () (memcpy b d (m_mem s b') o' sz s)
   | (None, Some (b', o')) \<Rightarrow> WriteMemBlock_nommu_ptr E dst b' o' sz s
   | (_, None) \<Rightarrow> if sz mod 4 = 0
       then dma_words E dst src (map (\<lambda>k. 4 * k) [0..<sz div 4]) s
       else Throw (Die ''verify'') s)"

section \<open>Quiet and precise computations\<close>

text \<open>
  \<open>regs_of\<close> is the part of the context a program sees: everything but the words through
  which devices and the scheduler signal the CPU loop. A computation is \<open>quiet\<close> if it keeps
  that part and raises no SH4 exception; it is \<open>precise\<close> if it keeps that part on return and
  on an SH4 exception, which then carries the address of the instruction; it is
  \<open>precise_op\<close> if it keeps it on an SH4 exception.
\<close>

definition regs_of :: "Sh4Context \<Rightarrow> Sh4Context" where
  "regs_of c = c\<lparr>ctx_interrupt_pend := 0, ctx_cycle_counter := 0, ctx_sh4_sched_next := 0,
     ctx_doSqWrite := sqWrite_nommu, ctx_CpuRunning := False\<rparr>"

fun precise_throw :: "Sh4Context \<Rightarrow> halt \<Rightarrow> 'd machine \<Rightarrow> bool" where
  "precise_throw c (SH4ThrownException p e) s' =
     (regs_of (m_ctx s') = regs_of c \<and> p = ctx_pc c - 2 \<and> exception_event e)"
| "precise_throw c (FlycastException m) s' = True"
| "precise_throw c (Die m) s' = True"

fun sh4_throw :: "halt \<Rightarrow> bool" where
  "sh4_throw (SH4ThrownException p e) = True"
| "sh4_throw (FlycastException m) = False"
| "sh4_throw (Die m) = False"

definition quiet :: "('d, 'a) SM \<Rightarrow> bool" where
  "quiet m \<longleftrightarrow> (\<forall>s. case m s of Ret a s' \<Rightarrow> regs_of (m_ctx s') = regs_of (m_ctx s)
     | Throw e s' \<Rightarrow> \<not> sh4_throw e)"

definition precise :: "('d, 'a) SM \<Rightarrow> bool" where
  "precise m \<longleftrightarrow> (\<forall>s. case m s of Ret a s' \<Rightarrow> regs_of (m_ctx s') = regs_of (m_ctx s)
     | Throw e s' \<Rightarrow> precise_throw (m_ctx s) e s')"

definition precise_op :: "('d, 'a) SM \<Rightarrow> bool" where
  "precise_op m \<longleftrightarrow> (\<forall>s. case m s of Ret a s' \<Rightarrow> True
     | Throw e s' \<Rightarrow> precise_throw (m_ctx s) e s')"

definition handlers_quiet :: "'d env \<Rightarrow> bool" where
  "handlers_quiet E \<longleftrightarrow> (\<forall>h a. quiet (e_RF8 E h a) \<and> quiet (e_RF16 E h a) \<and> quiet (e_RF32 E h a)) \<and>
     (\<forall>h a d. quiet (e_WF8 E h a d)) \<and> (\<forall>h a d. quiet (e_WF16 E h a d)) \<and>
     (\<forall>h a d. quiet (e_WF32 E h a d))"

named_theorems precise_intros \<open>quiet and precise computations\<close>

lemma precise_throw_other: "\<not> sh4_throw e \<Longrightarrow> precise_throw c e s'"
  by (cases e) simp_all

lemma quietI:
  "(\<And>s a s'. m s = Ret a s' \<Longrightarrow> regs_of (m_ctx s') = regs_of (m_ctx s)) \<Longrightarrow>
   (\<And>s e s'. m s = Throw e s' \<Longrightarrow> \<not> sh4_throw e) \<Longrightarrow> quiet m"
  by (auto simp: quiet_def split: outcome.split)

lemma preciseI:
  "(\<And>s a s'. m s = Ret a s' \<Longrightarrow> regs_of (m_ctx s') = regs_of (m_ctx s)) \<Longrightarrow>
   (\<And>s e s'. m s = Throw e s' \<Longrightarrow> precise_throw (m_ctx s) e s') \<Longrightarrow> precise m"
  by (auto simp: precise_def split: outcome.split)

lemma precise_opI:
  "(\<And>s e s'. m s = Throw e s' \<Longrightarrow> precise_throw (m_ctx s) e s') \<Longrightarrow> precise_op m"
  by (auto simp: precise_op_def split: outcome.split)

lemma quietD:
  assumes "quiet m"
  shows "m s = Ret a s' \<Longrightarrow> regs_of (m_ctx s') = regs_of (m_ctx s)"
    and "m s = Throw e s' \<Longrightarrow> \<not> sh4_throw e"
  using assms [unfolded quiet_def, rule_format, of s] by simp_all

lemma preciseD:
  assumes "precise m"
  shows "m s = Ret a s' \<Longrightarrow> regs_of (m_ctx s') = regs_of (m_ctx s)"
    and "m s = Throw e s' \<Longrightarrow> precise_throw (m_ctx s) e s'"
  using assms [unfolded precise_def, rule_format, of s] by simp_all

lemma precise_opD:
  "precise_op m \<Longrightarrow> m s = Throw e s' \<Longrightarrow> precise_throw (m_ctx s) e s'"
  unfolding precise_op_def by (drule spec [of _ s]) simp

lemma quiet_precise: "quiet m \<Longrightarrow> precise m"
  by (rule preciseI) (auto dest: quietD intro: precise_throw_other)

lemma precise_precise_op: "precise m \<Longrightarrow> precise_op m"
  by (rule precise_opI) (rule preciseD)

lemma regs_of_pc:
  assumes "regs_of c = regs_of d"
  shows "ctx_pc c = ctx_pc d"
  using arg_cong [OF assms, of ctx_pc] by (simp add: regs_of_def)

lemma precise_throw_cong:
  "precise_throw c e s' \<Longrightarrow> regs_of c = regs_of d \<Longrightarrow> precise_throw d e s'"
  by (cases e) (auto dest: regs_of_pc)

lemma precise_returnM [precise_intros]: "precise (returnM a)"
  by (simp add: precise_def)

lemma precise_getM [precise_intros]: "precise (getM f)"
  by (simp add: precise_def)

lemma precise_op_modifyM [precise_intros]: "precise_op (modifyM f)"
  by (simp add: precise_op_def)

lemma precise_op_returnM [precise_intros]: "precise_op (returnM f)"
  by (simp add: precise_op_def)

lemma precise_op_Die [precise_intros]: "precise_op (throwM (Die m))"
  by (simp add: precise_op_def)

lemma quiet_returnM [precise_intros]: "quiet (returnM a)"
  by (simp add: quiet_def)

lemma quiet_bind:
  assumes m: "quiet m" and f: "\<And>a. quiet (f a)"
  shows "quiet (bindM m f)"
  by (rule quietI)
    (auto simp: bindM_eq_Ret bindM_eq_Throw quietD(1) [OF f] quietD(1) [OF m]
      dest: quietD(2) [OF m] quietD(2) [OF f])

lemma precise_bind:
  assumes m: "precise m" and f: "\<And>a. precise (f a)"
  shows "precise (bindM m f)"
proof (rule preciseI)
  fix s e s' assume "bindM m f s = Throw e s'"
  then consider "m s = Throw e s'" | a s1 where "m s = Ret a s1" "f a s1 = Throw e s'"
    by (auto simp: bindM_eq_Throw)
  then show "precise_throw (m_ctx s) e s'"
    by cases (auto dest: preciseD [OF m] preciseD [OF f] intro: precise_throw_cong)
qed (auto simp: bindM_eq_Ret preciseD(1) [OF m] preciseD(1) [OF f])

lemma precise_op_bind:
  assumes m: "precise m" and f: "\<And>a. precise_op (f a)"
  shows "precise_op (bindM m f)"
proof (rule precise_opI)
  fix s e s' assume "bindM m f s = Throw e s'"
  then consider "m s = Throw e s'" | a s1 where "m s = Ret a s1" "f a s1 = Throw e s'"
    by (auto simp: bindM_eq_Throw)
  then show "precise_throw (m_ctx s) e s'"
    by cases (auto dest: preciseD [OF m] precise_opD [OF f] intro: precise_throw_cong)
qed

lemma precise_fn: "(\<And>s. precise (\<lambda>s'. f s s')) \<Longrightarrow> precise (\<lambda>s. f s s)"
  by (rule preciseI) (auto dest: preciseD)

text \<open>The accesses of the address space are quiet when the handlers are.\<close>

lemma handlers_quietD:
  assumes "handlers_quiet E"
  shows "quiet (e_RF8 E h a)" "quiet (e_RF16 E h a)" "quiet (e_RF32 E h a)"
    "quiet (e_WF8 E h a d8)" "quiet (e_WF16 E h a d16)" "quiet (e_WF32 E h a d32)"
  using assms by (simp_all add: handlers_quiet_def)

lemma quiet_case_page:
  assumes "\<And>b sh. quiet (f b sh)" "\<And>h. quiet (g h)"
  shows "quiet (\<lambda>s. case m_map s p of Block b sh \<Rightarrow> f b sh s | Handler h \<Rightarrow> g h s)"
  by (rule quietI) (auto split: meminfo.splits dest: quietD [OF assms(1)] quietD [OF assms(2)])

lemma quiet_upd_block: "quiet (\<lambda>s. Ret () (upd_block b f s))"
  by (simp add: quiet_def)

lemma quiet_get: "quiet (\<lambda>s. Ret (f s) s)"
  by (simp add: quiet_def)

lemma addrspace_quiet:
  assumes "handlers_quiet E"
  shows "quiet (readt8 E a)" "quiet (readt16 E a)" "quiet (readt32 E a)" "quiet (readt64 E a)"
    "quiet (writet8 E a d8)" "quiet (writet16 E a d16)" "quiet (writet32 E a d32)"
    "quiet (writet64 E a d64)"
  unfolding readt8_def [abs_def] readt16_def [abs_def] readt32_def [abs_def] readt64_def [abs_def]
    writet8_def [abs_def] writet16_def [abs_def] writet32_def [abs_def] writet64_def [abs_def]
  by (rule quiet_case_page; intro quiet_get quiet_upd_block quiet_bind quiet_returnM
      handlers_quietD [OF assms])+

section \<open>Address translation as an interface\<close>

text \<open>
  What the access functions rely on: a translation keeps the registers and throws no SH4
  exception itself; its verdict is turned into one by the caller.
\<close>

locale address_translation =
  fixes dtrans :: "bool \<Rightarrow> u32 \<Rightarrow> ('d, MmuError \<times> u32) SM"
    and itrans :: "u32 \<Rightarrow> ('d, MmuError \<times> u32) SM"
  assumes dtrans_quiet: "quiet (dtrans w a)"
    and itrans_quiet: "quiet (itrans a)"
begin

lemma raise_precise: "precise (mmu_raise_exception err adr am)"
proof (rule preciseI)
  fix s e s' assume "mmu_raise_exception err adr am s = Throw e s'"
  then show "precise_throw (m_ctx s) e s'"
    by (auto simp: mmu_raise_exception_def Let_def mmu_event_def mmuException_regs_def
        exception_event_def split: MmuError.splits if_splits)
qed (auto simp: mmu_raise_exception_def Let_def split: sum.splits)

lemma data_address_precise:
  assumes "e_data_translation E = dtrans"
  shows "precise (mmu_data_address E w algn adr)"
proof -
  have "precise (bindM (dtrans w adr) (\<lambda>(rv, addr). if rv \<noteq> NONE
      then mmu_raise_exception rv adr am else returnM addr))" for am
    by (rule precise_bind [OF quiet_precise [OF dtrans_quiet]])
      (auto intro: raise_precise precise_returnM split: prod.split)
  then show ?thesis by (simp add: mmu_data_address_def assms Let_def raise_precise)
qed

lemma access_precise:
  assumes "handlers_quiet E" "e_data_translation E = dtrans" "e_instruction_translation E = itrans"
  shows "precise (ReadMem8 E a)" "precise (ReadMem16 E a)" "precise (ReadMem32 E a)"
    "precise (ReadMem64 E a)" "precise (WriteMem8 E a d8)" "precise (WriteMem16 E a d16)"
    "precise (WriteMem32 E a d32)" "precise (WriteMem64 E a d64)"
    "precise (IReadMem16 E a)"
proof -
  have sel: "precise (\<lambda>s. if mmuOn (m_mmu s) then f s else g s)" if "precise f" "precise g" for f g
    using that by (intro preciseI) (auto dest: preciseD split: if_splits)
  have tr: "precise (bindM (mmu_data_address E w al a) f)" if "\<And>x. quiet (f x)" for w al f
    using that by (intro precise_bind data_address_precise [OF assms(2)] quiet_precise)
  have it: "precise (mmu_IReadMem16 E a)"
  proof -
    have "precise (bindM (itrans a) (\<lambda>(rv, addr). if rv \<noteq> NONE
        then mmu_raise_exception rv a am else readt16 E addr))" for am
      by (rule precise_bind [OF quiet_precise [OF itrans_quiet]])
        (auto intro: raise_precise quiet_precise addrspace_quiet [OF assms(1)] split: prod.split)
    then show ?thesis by (simp add: mmu_IReadMem16_def assms(3) raise_precise)
  qed
  note q = addrspace_quiet [OF assms(1)]
  show "precise (ReadMem8 E a)" "precise (ReadMem16 E a)" "precise (ReadMem32 E a)"
    "precise (ReadMem64 E a)" "precise (WriteMem8 E a d8)" "precise (WriteMem16 E a d16)"
    "precise (WriteMem32 E a d32)" "precise (WriteMem64 E a d64)" "precise (IReadMem16 E a)"
    unfolding ReadMem8_def [abs_def] ReadMem16_def [abs_def] ReadMem32_def [abs_def]
      ReadMem64_def [abs_def] WriteMem8_def [abs_def] WriteMem16_def [abs_def]
      WriteMem32_def [abs_def] WriteMem64_def [abs_def] IReadMem16_def [abs_def]
      mmu_ReadMem8_def mmu_ReadMem16_def mmu_ReadMem32_def mmu_ReadMem64_def mmu_WriteMem8_def
      mmu_WriteMem16_def mmu_WriteMem32_def mmu_WriteMem64_def
    by (rule sel, rule tr it, rule q, rule quiet_precise, rule q)+
      (rule sel [OF it], rule quiet_precise, rule q)
qed

end

end
