(* ===== verification/Holly_Intc.thy ===== *)
theory Holly_Intc
  imports Sh4_Exceptions
begin

text \<open>
  The interrupt controller of the Holly chip, \<^verbatim>\<open>hw/holly/holly_intc.cpp\<close>: the status
  registers of its events (normal, external, error; on the Naomi 2 a second normal register
  for the other graphics chip), the nine masks of its three levels, and the three lines it drives into
  the interrupt controller of the SH4 (\<^verbatim>\<open>Sh4_Interrupts\<close>), whose contract, the
  locale \<open>interrupt_lines\<close>, is what the lemmas here use of it.
\<close>

section \<open>Events\<close>

abbreviation (input) "holly_nrm \<equiv> (0x0000 :: u32)"
abbreviation (input) "holly_ext \<equiv> (0x0100 :: u32)"
abbreviation (input) "holly_err \<equiv> (0x0200 :: u32)"

datatype HollyInterruptID =
    holly_RENDER_DONE_vd | holly_RENDER_DONE_isp | holly_RENDER_DONE | holly_SCANINT1
    | holly_SCANINT2 | holly_HBLank | holly_YUV_DMA | holly_OPAQUE | holly_OPAQUEMOD
    | holly_TRANS | holly_TRANSMOD | holly_PVR_DMA | holly_MAPLE_DMA | holly_MAPLE_VBOI
    | holly_GDROM_DMA | holly_SPU_DMA | holly_EXT_DMA1 | holly_EXT_DMA2 | holly_DEV_DMA
    | holly_CH2_DMA | holly_PVR_SortDMA | holly_PUNCHTHRU | holly_GDROM_CMD | holly_SPU_IRQ
    | holly_EXP_8BIT | holly_EXP_PCI | holly_PRIM_NOMEM | holly_MATR_NOMEM
    | holly_MAPLE_ILLADDR | holly_MAPLE_OVERRUN | holly_MAPLE_FIFO | holly_MAPLE_ILLCMD
    | holly_AICA_ILLADDR | holly_EXT1_ILLADDR | holly_EXT2_ILLADDR | holly_DEV_ILLADDR
    | holly_AICA_OVERRUN | holly_EXT1_OVERRUN | holly_EXT2_OVERRUN | holly_DEV_OVERRUN

fun holly_id :: "HollyInterruptID \<Rightarrow> u32" where
  "holly_id holly_RENDER_DONE_vd = holly_nrm OR 0"
| "holly_id holly_RENDER_DONE_isp = holly_nrm OR 1"
| "holly_id holly_RENDER_DONE = holly_nrm OR 2"
| "holly_id holly_SCANINT1 = holly_nrm OR 3"
| "holly_id holly_SCANINT2 = holly_nrm OR 4"
| "holly_id holly_HBLank = holly_nrm OR 5"
| "holly_id holly_YUV_DMA = holly_nrm OR 6"
| "holly_id holly_OPAQUE = holly_nrm OR 7"
| "holly_id holly_OPAQUEMOD = holly_nrm OR 8"
| "holly_id holly_TRANS = holly_nrm OR 9"
| "holly_id holly_TRANSMOD = holly_nrm OR 10"
| "holly_id holly_PVR_DMA = holly_nrm OR 11"
| "holly_id holly_MAPLE_DMA = holly_nrm OR 12"
| "holly_id holly_MAPLE_VBOI = holly_nrm OR 13"
| "holly_id holly_GDROM_DMA = holly_nrm OR 14"
| "holly_id holly_SPU_DMA = holly_nrm OR 15"
| "holly_id holly_EXT_DMA1 = holly_nrm OR 16"
| "holly_id holly_EXT_DMA2 = holly_nrm OR 17"
| "holly_id holly_DEV_DMA = holly_nrm OR 18"
| "holly_id holly_CH2_DMA = holly_nrm OR 19"
| "holly_id holly_PVR_SortDMA = holly_nrm OR 20"
| "holly_id holly_PUNCHTHRU = holly_nrm OR 21"
| "holly_id holly_GDROM_CMD = holly_ext OR 0"
| "holly_id holly_SPU_IRQ = holly_ext OR 1"
| "holly_id holly_EXP_8BIT = holly_ext OR 2"
| "holly_id holly_EXP_PCI = holly_ext OR 3"
| "holly_id holly_PRIM_NOMEM = holly_err OR 2"
| "holly_id holly_MATR_NOMEM = holly_err OR 3"
| "holly_id holly_MAPLE_ILLADDR = holly_err OR 8"
| "holly_id holly_MAPLE_OVERRUN = holly_err OR 9"
| "holly_id holly_MAPLE_FIFO = holly_err OR 10"
| "holly_id holly_MAPLE_ILLCMD = holly_err OR 11"
| "holly_id holly_AICA_ILLADDR = holly_err OR 15"
| "holly_id holly_EXT1_ILLADDR = holly_err OR 16"
| "holly_id holly_EXT2_ILLADDR = holly_err OR 17"
| "holly_id holly_DEV_ILLADDR = holly_err OR 18"
| "holly_id holly_AICA_OVERRUN = holly_err OR 19"
| "holly_id holly_EXT1_OVERRUN = holly_err OR 20"
| "holly_id holly_EXT2_OVERRUN = holly_err OR 21"
| "holly_id holly_DEV_OVERRUN = holly_err OR 22"

section \<open>The operations\<close>

definition asic_RL6Pending :: "'d machine \<Rightarrow> 'd machine" where
  "asic_RL6Pending s =
    (let h = m_holly s;
         t1 = SB_ISTNRM h AND SB_IML6NRM h \<noteq> 0;
         t2 = SB_ISTERR h AND SB_IML6ERR h \<noteq> 0;
         t3 = SB_ISTEXT h AND SB_IML6EXT h \<noteq> 0;
         t4 = SB_ISTNRM1 h AND SB_IML6NRM h \<noteq> 0
     in InterruptPend sh4_IRL_9 (t1 \<or> t2 \<or> t3 \<or> t4) s)"

definition asic_RL4Pending :: "'d machine \<Rightarrow> 'd machine" where
  "asic_RL4Pending s =
    (let h = m_holly s;
         t1 = SB_ISTNRM h AND SB_IML4NRM h \<noteq> 0;
         t2 = SB_ISTERR h AND SB_IML4ERR h \<noteq> 0;
         t3 = SB_ISTEXT h AND SB_IML4EXT h \<noteq> 0;
         t4 = SB_ISTNRM1 h AND SB_IML4NRM h \<noteq> 0
     in InterruptPend sh4_IRL_11 (t1 \<or> t2 \<or> t3 \<or> t4) s)"

definition asic_RL2Pending :: "'d machine \<Rightarrow> 'd machine" where
  "asic_RL2Pending s =
    (let h = m_holly s;
         t1 = SB_ISTNRM h AND SB_IML2NRM h \<noteq> 0;
         t2 = SB_ISTERR h AND SB_IML2ERR h \<noteq> 0;
         t3 = SB_ISTEXT h AND SB_IML2EXT h \<noteq> 0;
         t4 = SB_ISTNRM1 h AND SB_IML2NRM h \<noteq> 0
     in InterruptPend sh4_IRL_13 (t1 \<or> t2 \<or> t3 \<or> t4) s)"

definition asic_RLPending :: "'d machine \<Rightarrow> 'd machine" where
  "asic_RLPending s = asic_RL6Pending (asic_RL4Pending (asic_RL2Pending s))"

text \<open>\<open>id_type\<close> and \<open>id_bit\<close>: the upper and the lower byte of an event.\<close>

definition id_type :: "HollyInterruptID \<Rightarrow> u8" where
  "id_type iid = ucast (drop_bit 8 (holly_id iid))"

definition id_bit :: "HollyInterruptID \<Rightarrow> nat" where
  "id_bit iid = unat (ucast (holly_id iid) :: u8)"

definition asic_RaiseInterrupt :: "HollyInterruptID \<Rightarrow> 'd machine \<Rightarrow> 'd machine" where
  "asic_RaiseInterrupt iid s =
    (let m = push_bit (id_bit iid) 1
     in asic_RLPending (m_holly_update (\<lambda>h.
          if id_type iid = 0 then h\<lparr>SB_ISTNRM := SB_ISTNRM h OR m\<rparr>
          else if id_type iid = 1 then h\<lparr>SB_ISTEXT := SB_ISTEXT h OR m\<rparr>
          else if id_type iid = 2 then h\<lparr>SB_ISTERR := SB_ISTERR h OR m\<rparr>
          else h) s))"

definition asic_RaiseInterruptBothCLX :: "HollyInterruptID \<Rightarrow> 'd machine \<Rightarrow> 'd machine" where
  "asic_RaiseInterruptBothCLX iid s =
    (let m = push_bit (id_bit iid) 1
     in asic_RLPending (m_holly_update (\<lambda>h.
          if id_type iid = 0
          then h\<lparr>SB_ISTNRM1 := SB_ISTNRM1 h OR m, SB_ISTNRM := SB_ISTNRM h OR m\<rparr>
          else if id_type iid = 1 then h\<lparr>SB_ISTEXT := SB_ISTEXT h OR m\<rparr>
          else if id_type iid = 2 then h\<lparr>SB_ISTERR := SB_ISTERR h OR m\<rparr>
          else h) s))"

definition asic_CancelInterrupt :: "HollyInterruptID \<Rightarrow> 'd machine \<Rightarrow> 'd machine" where
  "asic_CancelInterrupt iid s =
    (let m = NOT (push_bit (id_bit iid) 1)
     in asic_RLPending (m_holly_update (\<lambda>h.
          if id_type iid = 0 then h\<lparr>SB_ISTNRM := SB_ISTNRM h AND m\<rparr>
          else if id_type iid = 1 then h\<lparr>SB_ISTEXT := SB_ISTEXT h AND m\<rparr>
          else if id_type iid = 2 then h\<lparr>SB_ISTERR := SB_ISTERR h AND m\<rparr>
          else h) s))"

text \<open>
  The register handlers. Their first argument is the template argument \<open>Naomi2\<close>; an address
  with bit 25 set is then that of the other graphics chip, CLXB.
\<close>

definition is_CLXB :: "bool \<Rightarrow> u32 \<Rightarrow> bool" where
  "is_CLXB Naomi2 addr \<longleftrightarrow> Naomi2 \<and> addr AND 0x02000000 \<noteq> 0"

definition Read_SB_ISTNRM :: "bool \<Rightarrow> u32 \<Rightarrow> 'd machine \<Rightarrow> u32" where
  "Read_SB_ISTNRM Naomi2 addr s =
    (let h = m_holly s;
         tmp = (if is_CLXB Naomi2 addr then SB_ISTNRM1 h else SB_ISTNRM h) AND 0x3FFFFFFF;
         tmp = (if SB_ISTEXT h \<noteq> 0 then tmp OR 0x40000000 else tmp)
     in if SB_ISTERR h \<noteq> 0 then tmp OR 0x80000000 else tmp)"

definition Write_SB_ISTNRM :: "bool \<Rightarrow> u32 \<Rightarrow> u32 \<Rightarrow> 'd machine \<Rightarrow> 'd machine" where
  "Write_SB_ISTNRM Naomi2 addr data s = asic_RLPending (m_holly_update (\<lambda>h.
     if is_CLXB Naomi2 addr then h\<lparr>SB_ISTNRM1 := SB_ISTNRM1 h AND NOT data\<rparr>
     else h\<lparr>SB_ISTNRM := SB_ISTNRM h AND NOT data\<rparr>) s)"

definition Write_SB_ISTEXT :: "u32 \<Rightarrow> u32 \<Rightarrow> 'd machine \<Rightarrow> 'd machine" where
  "Write_SB_ISTEXT addr data s = s"

definition Write_SB_ISTERR :: "u32 \<Rightarrow> u32 \<Rightarrow> 'd machine \<Rightarrow> 'd machine" where
  "Write_SB_ISTERR addr data s =
     asic_RLPending (m_holly_update (\<lambda>h. h\<lparr>SB_ISTERR := SB_ISTERR h AND NOT data\<rparr>) s)"

definition Write_SB_IML6NRM :: "bool \<Rightarrow> u32 \<Rightarrow> u32 \<Rightarrow> 'd machine \<Rightarrow> 'd machine" where
  "Write_SB_IML6NRM Naomi2 addr data s =
    (if is_CLXB Naomi2 addr then s
     else asic_RL6Pending (m_holly_update (SB_IML6NRM_update (\<lambda>_. data)) s))"

definition Write_SB_IML4NRM :: "bool \<Rightarrow> u32 \<Rightarrow> u32 \<Rightarrow> 'd machine \<Rightarrow> 'd machine" where
  "Write_SB_IML4NRM Naomi2 addr data s =
    (if is_CLXB Naomi2 addr then s
     else asic_RL4Pending (m_holly_update (SB_IML4NRM_update (\<lambda>_. data)) s))"

definition Write_SB_IML2NRM :: "bool \<Rightarrow> u32 \<Rightarrow> u32 \<Rightarrow> 'd machine \<Rightarrow> 'd machine" where
  "Write_SB_IML2NRM Naomi2 addr data s =
    (if is_CLXB Naomi2 addr then s
     else asic_RL2Pending (m_holly_update (SB_IML2NRM_update (\<lambda>_. data)) s))"

definition Write_SB_IML6EXT :: "bool \<Rightarrow> u32 \<Rightarrow> u32 \<Rightarrow> 'd machine \<Rightarrow> 'd machine" where
  "Write_SB_IML6EXT Naomi2 addr data s =
    (if is_CLXB Naomi2 addr then s
     else asic_RL6Pending (m_holly_update (SB_IML6EXT_update (\<lambda>_. data)) s))"

definition Write_SB_IML4EXT :: "bool \<Rightarrow> u32 \<Rightarrow> u32 \<Rightarrow> 'd machine \<Rightarrow> 'd machine" where
  "Write_SB_IML4EXT Naomi2 addr data s =
    (if is_CLXB Naomi2 addr then s
     else asic_RL4Pending (m_holly_update (SB_IML4EXT_update (\<lambda>_. data)) s))"

definition Write_SB_IML2EXT :: "bool \<Rightarrow> u32 \<Rightarrow> u32 \<Rightarrow> 'd machine \<Rightarrow> 'd machine" where
  "Write_SB_IML2EXT Naomi2 addr data s =
    (if is_CLXB Naomi2 addr then s
     else asic_RL2Pending (m_holly_update (SB_IML2EXT_update (\<lambda>_. data)) s))"

definition Write_SB_IML6ERR :: "bool \<Rightarrow> u32 \<Rightarrow> u32 \<Rightarrow> 'd machine \<Rightarrow> 'd machine" where
  "Write_SB_IML6ERR Naomi2 addr data s =
    (if is_CLXB Naomi2 addr then s
     else asic_RL6Pending (m_holly_update (SB_IML6ERR_update (\<lambda>_. data)) s))"

definition Write_SB_IML4ERR :: "bool \<Rightarrow> u32 \<Rightarrow> u32 \<Rightarrow> 'd machine \<Rightarrow> 'd machine" where
  "Write_SB_IML4ERR Naomi2 addr data s =
    (if is_CLXB Naomi2 addr then s
     else asic_RL4Pending (m_holly_update (SB_IML4ERR_update (\<lambda>_. data)) s))"

definition Write_SB_IML2ERR :: "bool \<Rightarrow> u32 \<Rightarrow> u32 \<Rightarrow> 'd machine \<Rightarrow> 'd machine" where
  "Write_SB_IML2ERR Naomi2 addr data s =
    (if is_CLXB Naomi2 addr then s
     else asic_RL2Pending (m_holly_update (SB_IML2ERR_update (\<lambda>_. data)) s))"

lemmas Write_SB_IML_defs =
  Write_SB_IML6NRM_def Write_SB_IML4NRM_def Write_SB_IML2NRM_def
  Write_SB_IML6EXT_def Write_SB_IML4EXT_def Write_SB_IML2EXT_def
  Write_SB_IML6ERR_def Write_SB_IML4ERR_def Write_SB_IML2ERR_def

section \<open>What the controller promises\<close>

text \<open>
  The asserted events as a set of pairs of a kind and a bit; on the Naomi 2 the events of the
  second chip are those of kind 3. \<open>level_asserted\<close>: an event is asserted that one of the
  masks of the level selects (the normal mask serves both chips). \<open>holly_inv\<close>: the interrupt
  controller of the CPU is well formed and each of its three Holly lines shows whether its
  level is asserted.
\<close>

definition events :: "holly_regs \<Rightarrow> (nat \<times> nat) set" where
  "events h = {(0, b) |b. bit (SB_ISTNRM h) b} \<union> {(1, b) |b. bit (SB_ISTEXT h) b} \<union>
     {(2, b) |b. bit (SB_ISTERR h) b} \<union> {(3, b) |b. bit (SB_ISTNRM1 h) b}"

definition selected :: "u32 \<times> u32 \<times> u32 \<Rightarrow> (nat \<times> nat) set" where
  "selected ms = (case ms of (nrm, ext, err) \<Rightarrow>
     {(0, b) |b. bit nrm b} \<union> {(1, b) |b. bit ext b} \<union> {(2, b) |b. bit err b} \<union>
     {(3, b) |b. bit nrm b})"

definition level_masks :: "nat \<Rightarrow> holly_regs \<Rightarrow> u32 \<times> u32 \<times> u32" where
  "level_masks k h =
    (if k = sh4_IRL_9 then (SB_IML6NRM h, SB_IML6EXT h, SB_IML6ERR h)
     else if k = sh4_IRL_11 then (SB_IML4NRM h, SB_IML4EXT h, SB_IML4ERR h)
     else (SB_IML2NRM h, SB_IML2EXT h, SB_IML2ERR h))"

definition level_asserted :: "nat \<Rightarrow> holly_regs \<Rightarrow> bool" where
  "level_asserted k h \<longleftrightarrow> events h \<inter> selected (level_masks k h) \<noteq> {}"

definition holly_inv :: "'d machine \<Rightarrow> bool" where
  "holly_inv s \<longleftrightarrow> intc_inv s \<and> sr_decoded s \<and>
     (\<forall>k<3. src_pending (m_intc s) k \<longleftrightarrow> level_asserted k (m_holly s))"

definition id_event :: "HollyInterruptID \<Rightarrow> nat \<times> nat" where
  "id_event iid = (unat (id_type iid), id_bit iid)"

section \<open>The lines\<close>

lemma and_neq_0_bit: "a AND b \<noteq> 0 \<longleftrightarrow> (\<exists>n. bit a n \<and> bit (b :: u32) n)"
proof -
  have "bit a n \<Longrightarrow> n < 32" for n using bit_imp_le_length [of a n] by simp
  then show ?thesis by (auto simp: bit_eq_iff bit_simps)
qed

lemma mem_events:
  "(t, b) \<in> events h \<longleftrightarrow> t = 0 \<and> bit (SB_ISTNRM h) b \<or> t = 1 \<and> bit (SB_ISTEXT h) b \<or>
     t = 2 \<and> bit (SB_ISTERR h) b \<or> t = 3 \<and> bit (SB_ISTNRM1 h) b"
  by (simp add: events_def)

lemma mem_selected:
  "(t, b) \<in> selected (nrm, ext, err) \<longleftrightarrow> (t = 0 \<or> t = 3) \<and> bit nrm b \<or> t = 1 \<and> bit ext b \<or>
     t = 2 \<and> bit err b"
  by (auto simp: selected_def)

lemma level_asserted_bits:
  "level_asserted k h \<longleftrightarrow> (\<exists>t b. (t, b) \<in> events h \<and> (t, b) \<in> selected (level_masks k h))"
  by (auto simp: level_asserted_def)

lemma level_asserted_code:
  "level_asserted k h \<longleftrightarrow> (case level_masks k h of (nrm, ext, err) \<Rightarrow>
     SB_ISTNRM h AND nrm \<noteq> 0 \<or> SB_ISTERR h AND err \<noteq> 0 \<or>
     SB_ISTEXT h AND ext \<noteq> 0 \<or> SB_ISTNRM1 h AND nrm \<noteq> 0)"
proof (cases "level_masks k h")
  case (fields nrm ext err)
  show ?thesis
    unfolding level_asserted_bits fields prod.case and_neq_0_bit mem_events mem_selected by fastforce
qed

lemma RLPending_conv:
  "asic_RL6Pending s = InterruptPend sh4_IRL_9 (level_asserted sh4_IRL_9 (m_holly s)) s"
  "asic_RL4Pending s = InterruptPend sh4_IRL_11 (level_asserted sh4_IRL_11 (m_holly s)) s"
  "asic_RL2Pending s = InterruptPend sh4_IRL_13 (level_asserted sh4_IRL_13 (m_holly s)) s"
  by (simp_all add: asic_RL6Pending_def asic_RL4Pending_def asic_RL2Pending_def
      level_asserted_code level_masks_def Let_def)

text \<open>Driving a line from its level makes that line right and leaves the others.\<close>

definition line_right :: "nat \<Rightarrow> 'd machine \<Rightarrow> bool" where
  "line_right k s \<longleftrightarrow> (src_pending (m_intc s) k \<longleftrightarrow> level_asserted k (m_holly s))"

lemma holly_inv_lines:
  "holly_inv s \<longleftrightarrow> intc_inv s \<and> sr_decoded s \<and> line_right sh4_IRL_9 s \<and>
     line_right sh4_IRL_11 s \<and> line_right sh4_IRL_13 s"
proof -
  have "(\<forall>k<3. P k) \<longleftrightarrow> P 0 \<and> P 1 \<and> P (2 :: nat)" for P
    by (auto simp: numeral_3_eq_3 numeral_2_eq_2 less_Suc_eq)
  then show ?thesis by (simp add: holly_inv_def line_right_def)
qed

lemma drive_level:
  assumes "intc_inv s" "sr_decoded s" "k < sh4_INT_ID_COUNT" "v = level_asserted k (m_holly s)"
  shows "intc_inv (InterruptPend k v s)" "sr_decoded (InterruptPend k v s)"
    "line_right k (InterruptPend k v s)"
    "j < sh4_INT_ID_COUNT \<Longrightarrow> j \<noteq> k \<Longrightarrow> line_right j (InterruptPend k v s) \<longleftrightarrow> line_right j s"
  using assms by (simp_all add: InterruptPend_inv line_right_def)

lemma holly_inv_RLPending:
  "intc_inv s \<Longrightarrow> sr_decoded s \<Longrightarrow> holly_inv (asic_RLPending s)"
  by (simp add: holly_inv_lines asic_RLPending_def RLPending_conv drive_level)

lemma update_holly_frame [simp]:
  "intc_inv (m_holly_update f s) = intc_inv s"
  "sr_decoded (m_holly_update f s) = sr_decoded s"
  by (simp_all add: intc_inv_def sr_decoded_def)

lemma m_holly_RLPending [simp]:
  "m_holly (asic_RLPending s) = m_holly s"
  "m_holly (asic_RL6Pending s) = m_holly s"
  "m_holly (asic_RL4Pending s) = m_holly s"
  "m_holly (asic_RL2Pending s) = m_holly s"
  by (simp_all add: asic_RLPending_def RLPending_conv)

text \<open>Raising an event touches the event registers and the interrupt controller.\<close>

lemma RLPending_frame [simp]:
  "m_p4 (asic_RLPending s) = m_p4 s"
  "m_sb (asic_RLPending s) = m_sb s"
  "m_cache (asic_RLPending s) = m_cache s"
  "m_tmu (asic_RLPending s) = m_tmu s"
  "m_sched (asic_RLPending s) = m_sched s"
  "m_ccn (asic_RLPending s) = m_ccn s"
  "m_dev (asic_RLPending s) = m_dev s"
  "m_mmu (asic_RLPending s) = m_mmu s"
  "m_cycles (asic_RLPending s) = m_cycles s"
  "m_map (asic_RLPending s) = m_map s"
  "m_mem (asic_RLPending s) = m_mem s"
  "m_pvr (asic_RLPending s) = m_pvr s"
  "m_spg (asic_RLPending s) = m_spg s"
  "m_scif (asic_RLPending s) = m_scif s"
  "m_ocr (asic_RLPending s) = m_ocr s"
  by (simp_all add: asic_RLPending_def RLPending_conv)

lemma asic_frame [simp]:
  "m_p4 (asic_RaiseInterrupt e s) = m_p4 s"
  "m_sb (asic_RaiseInterrupt e s) = m_sb s"
  "m_cache (asic_RaiseInterrupt e s) = m_cache s"
  "m_tmu (asic_RaiseInterrupt e s) = m_tmu s"
  "m_sched (asic_RaiseInterrupt e s) = m_sched s"
  "m_ccn (asic_RaiseInterrupt e s) = m_ccn s"
  "m_dev (asic_RaiseInterrupt e s) = m_dev s"
  "m_mmu (asic_RaiseInterrupt e s) = m_mmu s"
  "m_cycles (asic_RaiseInterrupt e s) = m_cycles s"
  "m_map (asic_RaiseInterrupt e s) = m_map s"
  "m_mem (asic_RaiseInterrupt e s) = m_mem s"
  "m_pvr (asic_RaiseInterrupt e s) = m_pvr s"
  "m_spg (asic_RaiseInterrupt e s) = m_spg s"
  "m_scif (asic_RaiseInterrupt e s) = m_scif s"
  "m_ocr (asic_RaiseInterrupt e s) = m_ocr s"
  by (simp_all add: asic_RaiseInterrupt_def Let_def)

lemma level_asserted_masks:
  "level_masks k h' = level_masks k h \<Longrightarrow> events h' = events h \<Longrightarrow>
   level_asserted k h' = level_asserted k h"
  by (simp add: level_asserted_def)

text \<open>Writing the masks of one level leaves the other two levels as they are.\<close>

lemma holly_inv_level:
  assumes inv: "holly_inv s" and k: "k < 3"
    and f: "\<And>j. j < 3 \<Longrightarrow> j \<noteq> k \<Longrightarrow> level_masks j (f (m_holly s)) = level_masks j (m_holly s)"
      "events (f (m_holly s)) = events (m_holly s)"
  shows "holly_inv (InterruptPend k (level_asserted k (f (m_holly s))) (m_holly_update f s))"
proof -
  let ?s = "m_holly_update f s"
  have c: "intc_inv ?s" "sr_decoded ?s" "k < sh4_INT_ID_COUNT"
    using inv k by (simp_all add: holly_inv_def)
  show ?thesis
    unfolding holly_inv_def
  proof (intro conjI allI impI)
    fix j :: nat assume j: "j < 3"
    let ?s' = "InterruptPend k (level_asserted k (f (m_holly s))) ?s"
    have "src_pending (m_intc ?s') j \<longleftrightarrow>
        (if j = k then level_asserted k (f (m_holly s)) else src_pending (m_intc s) j)"
      using c j by (simp add: InterruptPend_inv)
    moreover have "src_pending (m_intc s) j \<longleftrightarrow> level_asserted j (m_holly s)"
      using inv j by (simp add: holly_inv_def)
    moreover have "level_asserted j (m_holly s) \<longleftrightarrow> level_asserted j (f (m_holly s))" if "j \<noteq> k"
      using level_asserted_masks [OF f(1) [OF j that] f(2)] by simp
    ultimately show "src_pending (m_intc ?s') j \<longleftrightarrow> level_asserted j (m_holly ?s')" by auto
  qed (use c in \<open>simp_all add: InterruptPend_inv\<close>)
qed

lemma events_IML [simp]:
  "events (SB_IML6NRM_update f h) = events h" "events (SB_IML4NRM_update f h) = events h"
  "events (SB_IML2NRM_update f h) = events h" "events (SB_IML6EXT_update f h) = events h"
  "events (SB_IML4EXT_update f h) = events h" "events (SB_IML2EXT_update f h) = events h"
  "events (SB_IML6ERR_update f h) = events h" "events (SB_IML4ERR_update f h) = events h"
  "events (SB_IML2ERR_update f h) = events h"
  by (simp_all add: events_def)

lemma holly_inv_write_IML:
  assumes "holly_inv s"
  shows "holly_inv (Write_SB_IML6NRM n a d s)" "holly_inv (Write_SB_IML4NRM n a d s)"
    "holly_inv (Write_SB_IML2NRM n a d s)" "holly_inv (Write_SB_IML6EXT n a d s)"
    "holly_inv (Write_SB_IML4EXT n a d s)" "holly_inv (Write_SB_IML2EXT n a d s)"
    "holly_inv (Write_SB_IML6ERR n a d s)" "holly_inv (Write_SB_IML4ERR n a d s)"
    "holly_inv (Write_SB_IML2ERR n a d s)"
  using assms
  by (simp_all add: Write_SB_IML_defs RLPending_conv holly_inv_level level_masks_def)

section \<open>Events as a set\<close>

lemma id_event_kind: "id_type iid = 0 \<or> id_type iid = 1 \<or> id_type iid = 2" "id_bit iid < 32"
  by (cases iid; simp add: id_type_def id_bit_def)+

lemma bit_set_flag: "n < 32 \<Longrightarrow> bit (x OR 2 ^ n :: u32) b \<longleftrightarrow> bit x b \<or> b = n"
  by (auto simp: bit_simps)

lemma bit_clear_flag: "bit (x AND NOT (2 ^ n) :: u32) b \<longleftrightarrow> bit x b \<and> b \<noteq> n"
  by (auto simp: bit_simps dest: bit_imp_le_length)

lemma bit_clear_mask: "bit (x AND NOT (y :: u32)) b \<longleftrightarrow> bit x b \<and> \<not> bit y b"
  by (auto simp: bit_simps dest: bit_imp_le_length)

lemmas events_split = set_eq_iff split_paired_all mem_events

lemma events_eqI: "(\<And>t b. (t, b) \<in> events h \<longleftrightarrow> (t, b) \<in> X) \<Longrightarrow> events h = X"
  by auto

lemma events_raise:
  "events (m_holly (asic_RaiseInterrupt iid s)) = insert (id_event iid) (events (m_holly s))"
proof (rule events_eqI)
  fix t b
  show "(t, b) \<in> events (m_holly (asic_RaiseInterrupt iid s)) \<longleftrightarrow>
      (t, b) \<in> insert (id_event iid) (events (m_holly s))"
    using id_event_kind [of iid]
    by (auto simp: asic_RaiseInterrupt_def Let_def mem_events id_event_def bit_set_flag)
qed

lemma events_cancel:
  "events (m_holly (asic_CancelInterrupt iid s)) = events (m_holly s) - {id_event iid}"
proof (rule events_eqI)
  fix t b
  show "(t, b) \<in> events (m_holly (asic_CancelInterrupt iid s)) \<longleftrightarrow>
      (t, b) \<in> events (m_holly s) - {id_event iid}"
    using id_event_kind [of iid]
    by (auto simp: asic_CancelInterrupt_def Let_def mem_events id_event_def bit_clear_flag)
qed

lemma events_RLPending_write:
  "events (m_holly (Write_SB_ISTNRM n a d s)) =
     events (m_holly s) - Pair (if is_CLXB n a then 3 else 0) ` {b. bit d b}"
  "events (m_holly (Write_SB_ISTERR a d s)) = events (m_holly s) - Pair 2 ` {b. bit d b}"
proof -
  show "events (m_holly (Write_SB_ISTNRM n a d s)) =
     events (m_holly s) - Pair (if is_CLXB n a then 3 else 0) ` {b. bit d b}"
    by (rule events_eqI) (auto simp: Write_SB_ISTNRM_def mem_events bit_clear_mask)
  show "events (m_holly (Write_SB_ISTERR a d s)) = events (m_holly s) - Pair 2 ` {b. bit d b}"
    by (rule events_eqI) (auto simp: Write_SB_ISTERR_def mem_events bit_clear_mask)
qed

lemma level_masks_raise [simp]:
  "level_masks k (m_holly (asic_RaiseInterrupt iid s)) = level_masks k (m_holly s)"
  "level_masks k (m_holly (asic_CancelInterrupt iid s)) = level_masks k (m_holly s)"
  by (simp_all add: asic_RaiseInterrupt_def asic_CancelInterrupt_def Let_def level_masks_def)

lemma Read_SB_ISTNRM_bit:
  "bit (Read_SB_ISTNRM n a s) b \<longleftrightarrow>
    (if b < 30 then (if is_CLXB n a then 3 else 0, b) \<in> events (m_holly s)
     else b = 30 \<and> (\<exists>c. (1, c) \<in> events (m_holly s)) \<or>
       b = 31 \<and> (\<exists>c. (2, c) \<in> events (m_holly s)))"
proof -
  have m: "(0x3FFFFFFF :: u32) = mask 30"
    by (simp add: mask_eq_exp_minus_1)
  define A B where "A = (0x40000000 :: u32)" and "B = (0x80000000 :: u32)"
  have f: "bit A b \<longleftrightarrow> b = 30" "bit B b \<longleftrightarrow> b = 31"
    using bit_set_flag [of 30 0 b] bit_set_flag [of 31 0 b] by (simp_all add: A_def B_def)
  have z: "x \<noteq> 0 \<longleftrightarrow> (\<exists>c. bit (x :: u32) c)" for x
    using and_neq_0_bit [of x x] by simp
  show ?thesis
    unfolding Read_SB_ISTNRM_def Let_def m z mem_events A_def [symmetric] B_def [symmetric]
    by (auto simp: bit_or_iff bit_and_iff bit_mask_iff f)
qed

section \<open>The steps of the controller and of its surroundings\<close>

text \<open>
  One step: an event is raised or cancelled by a device, the program writes one of the
  registers (\<open>n\<close> is true on the Naomi 2), another device drives its own interrupt line, a
  mask changes, the status register is written, the priorities are written.
\<close>

inductive holly_step :: "bool \<Rightarrow> 'd machine \<Rightarrow> 'd machine \<Rightarrow> bool" for n where
  "holly_step n s (asic_RaiseInterrupt iid s)"
| "holly_step n s (asic_RaiseInterruptBothCLX iid s)"
| "holly_step n s (asic_CancelInterrupt iid s)"
| "holly_step n s (Write_SB_ISTNRM n a d s)"
| "holly_step n s (Write_SB_ISTEXT a d s)"
| "holly_step n s (Write_SB_ISTERR a d s)"
| "holly_step n s (Write_SB_IML6NRM n a d s)"
| "holly_step n s (Write_SB_IML4NRM n a d s)"
| "holly_step n s (Write_SB_IML2NRM n a d s)"
| "holly_step n s (Write_SB_IML6EXT n a d s)"
| "holly_step n s (Write_SB_IML4EXT n a d s)"
| "holly_step n s (Write_SB_IML2EXT n a d s)"
| "holly_step n s (Write_SB_IML6ERR n a d s)"
| "holly_step n s (Write_SB_IML4ERR n a d s)"
| "holly_step n s (Write_SB_IML2ERR n a d s)"
| "3 \<le> k \<Longrightarrow> k < sh4_INT_ID_COUNT \<Longrightarrow> holly_step n s (InterruptPend k v s)"
| "k < sh4_INT_ID_COUNT \<Longrightarrow> holly_step n s (InterruptMask k v s)"
| "holly_step n s (snd (SRdecode (on_ctx (upd_status f) s)))"
| "holly_step n s (write_INTC_IPRA a p s)"

inductive_cases holly_stepE: "holly_step n s s'"

lemma holly_inv_other:
  assumes "holly_inv s"
  shows "3 \<le> k \<Longrightarrow> k < sh4_INT_ID_COUNT \<Longrightarrow> holly_inv (InterruptPend k v s)"
    "k < sh4_INT_ID_COUNT \<Longrightarrow> holly_inv (InterruptMask k v s)"
    "holly_inv (snd (SRdecode (on_ctx (upd_status f) s)))"
    "holly_inv (write_INTC_IPRA a p s)"
proof -
  have c: "intc_inv s" "sr_decoded s" using assms by (simp_all add: holly_inv_def)
  show "holly_inv (InterruptPend k v s)" if "3 \<le> k" "k < sh4_INT_ID_COUNT"
    using assms c that by (simp add: holly_inv_def InterruptPend_inv)
  show "holly_inv (InterruptMask k v s)" if "k < sh4_INT_ID_COUNT"
    using assms c that by (simp add: holly_inv_def InterruptMask_inv)
  have "intc_wf (m_intc (on_ctx (upd_status f) s))"
    using c by (simp add: intc_inv_def on_ctx_def)
  from SRdecode_inv [OF this] show "holly_inv (snd (SRdecode (on_ctx (upd_status f) s)))"
    using assms by (simp add: holly_inv_def on_ctx_def)
  have "m_holly (write_INTC_IPRA a p s) = m_holly s"
    by (simp add: write_INTC_IPRA_def SIIDRebuild_def)
  with assms write_INTC_IPR [OF c, of 0] write_INTC_IPR [OF c] show "holly_inv (write_INTC_IPRA a p s)"
    by (simp add: holly_inv_def)
qed

lemma holly_step_inv: "holly_step n s s' \<Longrightarrow> holly_inv s \<Longrightarrow> holly_inv s'"
proof (induction rule: holly_step.induct)
  case (4 s a d)
  then show ?case unfolding Write_SB_ISTNRM_def by (intro holly_inv_RLPending) (simp_all add: holly_inv_def)
qed (simp_all add: asic_RaiseInterrupt_def asic_RaiseInterruptBothCLX_def asic_CancelInterrupt_def
    Write_SB_ISTERR_def Write_SB_ISTEXT_def Let_def holly_inv_RLPending holly_inv_write_IML
    holly_inv_other, simp_all add: holly_inv_def holly_inv_RLPending [unfolded holly_inv_def])

lemma holly_inv_reset:
  "events (m_holly s) = {} \<Longrightarrow> holly_inv (interrupts_reset s)"
  by (simp add: holly_inv_def interrupts_reset_inv level_asserted_def)
    (simp add: interrupts_reset_def SIIDRebuild_def)

lemma holly_steps_inv: "(holly_step n)\<^sup>*\<^sup>* s s' \<Longrightarrow> holly_inv s \<Longrightarrow> holly_inv s'"
  by (induction rule: rtranclp_induct) (auto intro: holly_step_inv)

lemma holly_line:
  "holly_inv s \<Longrightarrow> k < 3 \<Longrightarrow> src_pending (m_intc s) k \<longleftrightarrow> level_asserted k (m_holly s)"
  by (simp add: holly_inv_def)

lemma raise_asserts:
  "id_event iid \<in> selected (level_masks k (m_holly s)) \<Longrightarrow>
   level_asserted k (m_holly (asic_RaiseInterrupt iid s))"
  by (auto simp: level_asserted_def events_raise)

lemma raise_frame [simp]:
  "ctx_status (m_ctx (asic_RaiseInterrupt iid s)) = ctx_status (m_ctx s)"
  "src_enabled (m_intc (asic_RaiseInterrupt iid s)) = src_enabled (m_intc s)"
  by (simp_all add: asic_RaiseInterrupt_def asic_RLPending_def RLPending_conv Let_def)

lemma IRL_level: "GetPrLvl i sh4_IRL_9 = 6" "GetPrLvl i sh4_IRL_11 = 4" "GetPrLvl i sh4_IRL_13 = 2"
  by (simp_all add: GetPrLvl_def InterruptSourceList_def prio_reg_value_def)

section \<open>Properties\<close>

text \<open>C12: From reset on, whatever events are raised, cancelled or acknowledged, whatever masks,
  priorities and status are written and whatever other devices do with their own lines, each
  of the three interrupt lines of the Holly chip is pending exactly when an event is asserted
  that the masks of its level select.\<close>
theorem holly_lines_invariant:
  assumes "events (m_holly s) = {}" and "(holly_step n)\<^sup>*\<^sup>* (interrupts_reset s) s'" and "k < 3"
  shows "src_pending (m_intc s') k \<longleftrightarrow> events (m_holly s') \<inter> selected (level_masks k (m_holly s')) \<noteq> {}"
  using holly_line [OF holly_steps_inv [OF assms(2) holly_inv_reset [OF assms(1)]] assms(3)]
  by (simp add: level_asserted_def)

lemma zero_events: "events (m_holly (zero_machine d)) = {}"
  by (simp add: zero_machine_def events_def)

definition holly_witness :: "unit machine" where
  "holly_witness = Write_SB_IML6NRM False 0 8 (interrupts_reset (zero_machine ()))"

lemma holly_witness_inv: "holly_inv holly_witness"
  unfolding holly_witness_def by (intro holly_inv_write_IML holly_inv_reset zero_events)

lemma holly_witness_masks:
  "level_masks sh4_IRL_9 (m_holly holly_witness) = (8, 0, 0)"
  by (simp add: holly_witness_def Write_SB_IML6NRM_def is_CLXB_def RLPending_conv level_masks_def
      interrupts_reset_def SIIDRebuild_def zero_machine_def)

lemma holly_witness_selected: "id_event holly_SCANINT1 \<in> selected (level_masks sh4_IRL_9 (m_holly holly_witness))"
  unfolding holly_witness_masks by (simp add: id_event_def id_type_def id_bit_def mem_selected)

theorem holly_lines_invariant_witness:
  "src_pending (m_intc (asic_RaiseInterrupt holly_SCANINT1 holly_witness)) sh4_IRL_9"
proof -
  have "(holly_step False)\<^sup>*\<^sup>* (interrupts_reset (zero_machine ()))
      (asic_RaiseInterrupt holly_SCANINT1 holly_witness)"
    using holly_step.intros(7) [of False "interrupts_reset (zero_machine ())" 0 8]
      holly_step.intros(1) [of False holly_witness holly_SCANINT1]
    by (simp add: holly_witness_def)
  from holly_lines_invariant [OF zero_events this, of sh4_IRL_9]
  show ?thesis
    using raise_asserts [OF holly_witness_selected] by (simp add: level_asserted_def)
qed

text \<open>C30: The status registers implement a set of asserted events: raising an event adds it,
  cancelling it removes it, writing a register acknowledges exactly the events whose bits are
  written as one, the external register cannot be written, and the normal register reads the
  normal events in its lower 30 bits and, in its upper two, whether an external and whether
  an error event is asserted.\<close>
theorem holly_events_refine:
  "events (m_holly (asic_RaiseInterrupt iid s)) = insert (id_event iid) (events (m_holly s)) \<and>
   events (m_holly (asic_CancelInterrupt iid s)) = events (m_holly s) - {id_event iid} \<and>
   events (m_holly (Write_SB_ISTNRM n a d s)) =
     events (m_holly s) - Pair (if is_CLXB n a then 3 else 0) ` {b. bit d b} \<and>
   events (m_holly (Write_SB_ISTERR a d s)) = events (m_holly s) - Pair 2 ` {b. bit d b} \<and>
   events (m_holly (Write_SB_ISTEXT a d s)) = events (m_holly s) \<and>
   {b. bit (Read_SB_ISTNRM n a s) b} =
     {b. b < 30 \<and> (if is_CLXB n a then 3 else 0, b) \<in> events (m_holly s)} \<union>
     {b. b = 30 \<and> (\<exists>c. (1, c) \<in> events (m_holly s))} \<union>
     {b. b = 31 \<and> (\<exists>c. (2, c) \<in> events (m_holly s))}"
proof (intro conjI events_raise events_cancel events_RLPending_write)
  have "bit (Read_SB_ISTNRM n a s) b \<longleftrightarrow> b < 30 \<and> (if is_CLXB n a then 3 else 0, b) \<in> events (m_holly s) \<or>
      b = 30 \<and> (\<exists>c. (1, c) \<in> events (m_holly s)) \<or> b = 31 \<and> (\<exists>c. (2, c) \<in> events (m_holly s))" for b
    by (subst Read_SB_ISTNRM_bit) simp
  then show "{b. bit (Read_SB_ISTNRM n a s) b} =
     {b. b < 30 \<and> (if is_CLXB n a then 3 else 0, b) \<in> events (m_holly s)} \<union>
     {b. b = 30 \<and> (\<exists>c. (1, c) \<in> events (m_holly s))} \<union>
     {b. b = 31 \<and> (\<exists>c. (2, c) \<in> events (m_holly s))}" by blast
qed (simp add: Write_SB_ISTEXT_def)

text \<open>C31: Raising an event that the masks of the highest level select makes the CPU take an
  interrupt at its next check, if the line is enabled there, interrupts are not blocked and
  the interrupt mask is below the line's level, 6.\<close>
theorem holly_event_interrupts:
  assumes "holly_inv s" and "id_event iid \<in> selected (level_masks sh4_IRL_9 (m_holly s))"
    and "src_enabled (m_intc s) sh4_IRL_9"
    and "st_BL (ctx_status (m_ctx s)) = 0" and "unat (st_IMASK (ctx_status (m_ctx s))) < 6"
  shows "fst (UpdateINTC (asic_RaiseInterrupt iid s)) = 1"
proof -
  let ?s = "asic_RaiseInterrupt iid s"
  have inv: "holly_inv ?s" by (rule holly_step_inv [OF holly_step.intros(1) assms(1)])
  have "src_pending (m_intc ?s) sh4_IRL_9"
    using holly_line [OF inv, of sh4_IRL_9] raise_asserts [OF assms(2)] by simp
  then have "interruptible ?s sh4_IRL_9"
    using assms(3-5) by (simp add: interruptible_def IRL_level)
  moreover have "intc_inv ?s" "sr_decoded ?s" using inv by (simp_all add: holly_inv_def)
  ultimately have "ctx_interrupt_pend (m_ctx ?s) \<noteq> 0" using pend_nonzero by blast
  then show ?thesis by (simp add: UpdateINTC_def Let_def)
qed

theorem holly_event_interrupts_witness:
  "fst (UpdateINTC (asic_RaiseInterrupt holly_SCANINT1 holly_witness)) = 1"
proof (rule holly_event_interrupts [OF holly_witness_inv holly_witness_selected])
  have s: "holly_witness = InterruptPend sh4_IRL_9 v (m_holly_update f (interrupts_reset (zero_machine ())))"
    if "f = SB_IML6NRM_update (\<lambda>_. 8)" "v = level_asserted sh4_IRL_9 (f (m_holly (interrupts_reset (zero_machine ()))))"
    for f v using that by (simp add: holly_witness_def Write_SB_IML6NRM_def is_CLXB_def RLPending_conv)
  show "src_enabled (m_intc holly_witness) sh4_IRL_9"
    "st_BL (ctx_status (m_ctx holly_witness)) = 0"
    "unat (st_IMASK (ctx_status (m_ctx holly_witness))) < 6"
    by (simp_all add: s interrupts_reset_inv)
      (simp_all add: zero_machine_def zero_ctx_def ctx_status_def st_defs fld_def)
qed

end
