(* ===== verification/Pvr_Mem.thy ===== *)
theory Pvr_Mem
  imports Sh4_Mem Holly_Intc
begin

text \<open>
  Video memory and the YUV converter, \<^verbatim>\<open>hw/pvr/pvr_mem.cpp\<close>. Video memory is the block
  \<open>a_vram\<close>. It is two banks wide: the 64-bit area addresses it as it is, the 32-bit area one
  bank after the other, and \<^verbatim>\<open>pvr_map32\<close> converts between the two.

  The lemmas show that the 32-bit area is a memory of words of its own (a permutation of the
  words of the 64-bit one), that a macro block of the converter is laid out as a 4:2:2 texture
  of 16 by 16 pixels and nothing else is written, and that the converter is a queue of 32-byte
  units that converts every twelve of them, however the units of a frame are cut into calls.
\<close>

section \<open>Registers\<close>

definition PvrReg :: "u32 \<Rightarrow> 'd machine \<Rightarrow> u32" where
  "PvrReg x s = ld32 (pvr_regs (m_pvr s)) (x AND 0x7FFF)"

definition set_PvrReg :: "u32 \<Rightarrow> u32 \<Rightarrow> 'd machine \<Rightarrow> 'd machine" where
  "set_PvrReg x v = m_pvr_update (pvr_regs_update (st32 (x AND 0x7FFF) v))"

abbreviation (input) "TA_YUV_TEX_BASE_addr \<equiv> (0x148 :: u32)"
abbreviation (input) "TA_YUV_TEX_CTRL_addr \<equiv> (0x14C :: u32)"
abbreviation (input) "TA_YUV_TEX_CNT_addr \<equiv> (0x150 :: u32)"

definition TA_YUV_TEX_BASE :: "'d machine \<Rightarrow> u32" where
  "TA_YUV_TEX_BASE = PvrReg TA_YUV_TEX_BASE_addr"

definition TA_YUV_TEX_CTRL :: "'d machine \<Rightarrow> u32" where
  "TA_YUV_TEX_CTRL = PvrReg TA_YUV_TEX_CTRL_addr"

definition TA_YUV_TEX_CNT :: "'d machine \<Rightarrow> u32" where
  "TA_YUV_TEX_CNT = PvrReg TA_YUV_TEX_CNT_addr"

text \<open>The bit fields of \<^verbatim>\<open>TA_YUV_TEX_CTRL_type\<close>.\<close>

definition yuv_u_size :: "u32 \<Rightarrow> u32" where "yuv_u_size = fld 0 6"
definition yuv_v_size :: "u32 \<Rightarrow> u32" where "yuv_v_size = fld 8 6"
definition yuv_form :: "u32 \<Rightarrow> u32" where "yuv_form = fld 24 1"

text \<open>The registers of the system bus, by address (\<^verbatim>\<open>SB_REG_32\<close> of \<^verbatim>\<open>holly/sb.h\<close>).\<close>

definition SB_REG_32 :: "u32 \<Rightarrow> 'd machine \<Rightarrow> u32" where
  "SB_REG_32 addr s = m_sb s (unat (addr - 0x005F6800) div 4)"

definition set_SB :: "u32 \<Rightarrow> u32 \<Rightarrow> 'd machine \<Rightarrow> 'd machine" where
  "set_SB addr v = m_sb_update (\<lambda>r. r(unat (addr - 0x005F6800) div 4 := v))"

text \<open>The registers of the system bus that select the bus width of the texture paths.\<close>

definition SB_LMMODE0 :: "'d machine \<Rightarrow> u32" where
  "SB_LMMODE0 s = m_sb s 0x21"

definition SB_LMMODE1 :: "'d machine \<Rightarrow> u32" where
  "SB_LMMODE1 s = m_sb s 0x22"

lemma set_SB_simps [simp]:
  "m_p4 (set_SB x v s) = m_p4 s" "m_mem (set_SB x v s) = m_mem s" "m_pvr (set_SB x v s) = m_pvr s"
  "m_holly (set_SB x v s) = m_holly s" "m_intc (set_SB x v s) = m_intc s" "m_ctx (set_SB x v s) = m_ctx s"
  "m_spg (set_SB x v s) = m_spg s"
  "m_sb (set_SB x v s) i = (if i = unat (x - 0x005F6800) div 4 then v else m_sb s i)"
  by (simp_all add: set_SB_def)

section \<open>The YUV converter\<close>

definition YUV_init :: "areas \<Rightarrow> 'd machine \<Rightarrow> 'd machine" where
  "YUV_init a s =
    (let s1 = m_pvr_update (\<lambda>p. p\<lparr>YUV_x_curr := 0, YUV_y_curr := 0,
                YUV_dest := TA_YUV_TEX_BASE s AND VRAM_MASK a\<rparr>) s;
         s2 = set_PvrReg TA_YUV_TEX_CNT_addr 0 s1;
         u = yuv_u_size (TA_YUV_TEX_CTRL s2); v = yuv_v_size (TA_YUV_TEX_CTRL s2)
     in m_pvr_update (\<lambda>p. p\<lparr>YUV_blockcount := (u + 1) * (v + 1),
          YUV_x_size := (u + 1) * 16, YUV_y_size := (v + 1) * 16, YUV_index := 0\<rparr>) s2)"

text \<open>
  The pointers of the two loops of \<^verbatim>\<open>YUV_Block8x8\<close> (\<open>inuv\<close>, \<open>iny\<close>, \<open>line_out_0\<close>,
  \<open>line_out_1\<close>) are offsets, into the macro block and into video memory.
\<close>

type_synonym yuv_ptrs = "u32 \<times> u32 \<times> u32 \<times> u32 \<times> (u32 \<Rightarrow> u8)"

fun YUV_pixels :: "(u32 \<Rightarrow> u8) \<Rightarrow> yuv_ptrs \<Rightarrow> yuv_ptrs" where
  "YUV_pixels inp (inuv, iny, l0, l1, vram) =
    (let u = inp inuv; v = inp (inuv + 64)
     in (inuv + 1, iny + 2, l0 + 4, l1 + 4,
         vram(l0 := u, l0 + 1 := inp iny, l0 + 2 := v, l0 + 3 := inp (iny + 1),
              l1 := u, l1 + 1 := inp (iny + 8), l1 + 2 := v, l1 + 3 := inp (iny + 9))))"

fun YUV_next_lines :: "u32 \<Rightarrow> yuv_ptrs \<Rightarrow> yuv_ptrs" where
  "YUV_next_lines x_size (inuv, iny, l0, l1, vram) =
    (inuv + 4, iny + 8, l0 + (x_size * 4 - 8 * 2), l1 + (x_size * 4 - 8 * 2), vram)"

definition YUV_two_lines :: "(u32 \<Rightarrow> u8) \<Rightarrow> u32 \<Rightarrow> yuv_ptrs \<Rightarrow> yuv_ptrs" where
  "YUV_two_lines inp x_size p = YUV_next_lines x_size ((YUV_pixels inp ^^ 4) p)"

definition YUV_Block8x8 :: "(u32 \<Rightarrow> u8) \<Rightarrow> u32 \<Rightarrow> u32 \<Rightarrow> u32 \<Rightarrow> u32 \<Rightarrow> (u32 \<Rightarrow> u8) \<Rightarrow> u32 \<Rightarrow> u8" where
  "YUV_Block8x8 inp x_size inuv iny out vram =
    (case (YUV_two_lines inp x_size ^^ 4) (inuv, iny, out, out + x_size * 2, vram) of
       (_, _, _, _, vram') \<Rightarrow> vram')"

definition YUV_Block384 :: "(u32 \<Rightarrow> u8) \<Rightarrow> u32 \<Rightarrow> u32 \<Rightarrow> (u32 \<Rightarrow> u8) \<Rightarrow> u32 \<Rightarrow> u8" where
  "YUV_Block384 inp x_size out vram =
     YUV_Block8x8 inp x_size 36 (128 + 192) (out + x_size * 8 * 2 + 8 * 2)
      (YUV_Block8x8 inp x_size 32 (128 + 128) (out + x_size * 8 * 2)
       (YUV_Block8x8 inp x_size 4 (128 + 64) (out + 8 * 2)
        (YUV_Block8x8 inp x_size 0 128 out vram)))"

text \<open>The position of the next macro block.\<close>

definition YUV_advance :: "pvr_state \<Rightarrow> pvr_state" where
  "YUV_advance p0 =
    (let p = p0\<lparr>YUV_dest := YUV_dest p0 + 32, YUV_x_curr := YUV_x_curr p0 + 16\<rparr>
     in if YUV_x_curr p = YUV_x_size p
        then let p1 = p\<lparr>YUV_dest := YUV_dest p + 15 * YUV_x_size p * 2, YUV_x_curr := 0,
                    YUV_y_curr := YUV_y_curr p + 16\<rparr>
             in if YUV_y_curr p1 = YUV_y_size p1 then p1\<lparr>YUV_y_curr := 0\<rparr> else p1
        else p)"

definition YUV_ConvertMacroBlock :: "areas \<Rightarrow> (u32 \<Rightarrow> u8) \<Rightarrow> 'd machine \<Rightarrow> 'd machine" where
  "YUV_ConvertMacroBlock a datap s =
    (let s1 = set_PvrReg TA_YUV_TEX_CNT_addr (TA_YUV_TEX_CNT s + 1) s;
         s2 = upd_block (a_vram a) (YUV_Block384 datap (YUV_x_size (m_pvr s1)) (YUV_dest (m_pvr s1))) s1;
         s3 = m_pvr_update YUV_advance s2
     in if YUV_blockcount (m_pvr s3) = TA_YUV_TEX_CNT s3 then asic_RaiseInterrupt holly_YUV_DMA s3 else s3)"

text \<open>
  \<^verbatim>\<open>YUV_data\<close>: \<open>count\<close> units of 32 bytes. A macro block is twelve units. The pointer \<open>data\<close>
  is the function \<open>data\<close> from the offset \<open>off\<close>.
\<close>

definition tempdata_copy :: "(u32 \<Rightarrow> u8) \<Rightarrow> u32 \<Rightarrow> u32 \<Rightarrow> 'd machine \<Rightarrow> 'd machine" where
  "tempdata_copy data off n = m_pvr_update (\<lambda>p. YUV_tempdata_update (\<lambda>t.
     fold (\<lambda>k t. t(32 * YUV_index p + of_nat k := data (off + of_nat k))) [0..<unat (n * 32)] t) p)"

lemma pvr_update_id [simp]:
  "YUV_index (YUV_advance p) = YUV_index p" "YUV_tempdata (YUV_advance p) = YUV_tempdata p"
  "YUV_x_size (YUV_advance p) = YUV_x_size p" "YUV_blockcount (YUV_advance p) = YUV_blockcount p"
  "pvr_regs (YUV_advance p) = pvr_regs p"
  by (simp_all add: YUV_advance_def Let_def)

lemma ConvertMacroBlock_index [simp]:
  "YUV_index (m_pvr (YUV_ConvertMacroBlock a d s)) = YUV_index (m_pvr s)"
  by (simp add: YUV_ConvertMacroBlock_def Let_def set_PvrReg_def upd_block_def)

function YUV_data_loop :: "areas \<Rightarrow> (u32 \<Rightarrow> u8) \<Rightarrow> u32 \<Rightarrow> u32 \<Rightarrow> 'd machine \<Rightarrow> 'd machine" where
  "YUV_data_loop a data off count s =
    (if count = 0 then s
     else let idx = YUV_index (m_pvr s) in
       if 12 \<le> idx + count then
         let dr = 12 - idx;
             s1 = (if idx = 0 then YUV_ConvertMacroBlock a (\<lambda>k. data (off + k)) s
                   else let s2 = tempdata_copy data off dr s
                        in m_pvr_update (YUV_index_update (\<lambda>_. 0))
                             (YUV_ConvertMacroBlock a (YUV_tempdata (m_pvr s2)) s2))
         in YUV_data_loop a data (off + dr * 32) (count - dr) s1
       else m_pvr_update (YUV_index_update (\<lambda>i. i + count)) (tempdata_copy data off count s))"
  by pat_completeness auto
termination
proof (relation "measures [\<lambda>(_, _, _, _, s). of_bool (YUV_index (m_pvr s) \<noteq> 0), \<lambda>(_, _, _, count, _). unat count]")
  fix a :: areas and data off and count :: u32 and s s1 :: "'d machine" and idx dr
  assume c: "count \<noteq> 0" "idx = YUV_index (m_pvr s)" "12 \<le> idx + count" "dr = 12 - idx"
    and s1: "s1 = (if idx = 0 then YUV_ConvertMacroBlock a (\<lambda>k. data (off + k)) s
                   else let s2 = tempdata_copy data off dr s
                        in m_pvr_update (YUV_index_update (\<lambda>_. 0))
                             (YUV_ConvertMacroBlock a (YUV_tempdata (m_pvr s2)) s2))"
  show "((a, data, off + dr * 32, count - dr, s1), a, data, off, count, s)
    \<in> measures [\<lambda>(_, _, _, _, s). of_bool (YUV_index (m_pvr s) \<noteq> 0), \<lambda>(_, _, _, count, _). unat count]"
  proof (cases "idx = 0")
    case True
    then have "unat (count - 12) < unat count"
      using c by (simp add: unat_sub word_le_nat_alt)
    then show ?thesis using True c s1 by simp
  next
    case False
    then show ?thesis using c s1 by (simp add: Let_def)
  qed
qed simp

declare YUV_data_loop.simps [simp del]

definition YUV_data :: "areas \<Rightarrow> (u32 \<Rightarrow> u8) \<Rightarrow> u32 \<Rightarrow> 'd machine \<Rightarrow> 'd machine" where
  "YUV_data a data count s =
    (if YUV_blockcount (m_pvr s) = 0 then s
     else
       let s1 = (if YUV_blockcount (m_pvr s) = TA_YUV_TEX_CNT s then YUV_init a s else s)
       in if yuv_form (TA_YUV_TEX_CTRL s1) \<noteq> 0 then s1
          else YUV_data_loop a data 0 count s1)"

definition YUV_reset :: "'d machine \<Rightarrow> 'd machine" where
  "YUV_reset = m_pvr_update (\<lambda>p. p\<lparr>YUV_tempdata := (\<lambda>_. 0), YUV_dest := 0, YUV_blockcount := 0,
     YUV_x_curr := 0, YUV_y_curr := 0, YUV_x_size := 0, YUV_y_size := 0, YUV_index := 0\<rparr>)"

section \<open>The 32-bit area\<close>

definition VRAM_BANK_BIT :: u32 where
  "VRAM_BANK_BIT = 0x400000"

definition pvr_map32 :: "areas \<Rightarrow> u32 \<Rightarrow> u32" where
  "pvr_map32 a offset32 =
    (let static_bits = VRAM_MASK a - (VRAM_BANK_BIT * 2 - 1) + 3;
         offset_bits = (VRAM_BANK_BIT - 1) AND NOT 3;
         bank = (offset32 AND VRAM_BANK_BIT) div VRAM_BANK_BIT
     in (offset32 AND static_bits) OR (offset32 AND offset_bits) * 2 OR bank * 4)"

definition vram :: "areas \<Rightarrow> 'd machine \<Rightarrow> u32 \<Rightarrow> u8" where
  "vram a s = m_mem s (a_vram a)"

definition pvr_read32p8 :: "areas \<Rightarrow> u32 \<Rightarrow> 'd machine \<Rightarrow> u8" where
  "pvr_read32p8 a addr s = vram a s (pvr_map32 a addr)"

definition pvr_read32p16 :: "areas \<Rightarrow> u32 \<Rightarrow> 'd machine \<Rightarrow> u16" where
  "pvr_read32p16 a addr s = ld16 (vram a s) (pvr_map32 a addr AND NOT 1)"

definition pvr_read32p32 :: "areas \<Rightarrow> u32 \<Rightarrow> 'd machine \<Rightarrow> u32" where
  "pvr_read32p32 a addr s = ld32 (vram a s) (pvr_map32 a addr AND NOT 3)"

text \<open>The check of \<^verbatim>\<open>pvr_write32p\<close> for a write to the frame buffer on screen.\<close>

definition fb_watch :: "areas \<Rightarrow> u32 \<Rightarrow> 'd machine \<Rightarrow> 'd machine" where
  "fb_watch a addr s =
    (let vaddr = addr AND VRAM_MASK a
     in if fb_watch_addr_start (m_pvr s) \<le> vaddr \<and> vaddr < fb_watch_addr_end (m_pvr s)
        then m_pvr_update (fb_dirty_update (\<lambda>_. True)) s else s)"

definition pvr_write32p8 :: "areas \<Rightarrow> bool \<Rightarrow> u32 \<Rightarrow> u8 \<Rightarrow> 'd machine \<Rightarrow> 'd machine" where
  "pvr_write32p8 a Internal addr data s =
    (if \<not> Internal then s
     else upd_block (a_vram a) (\<lambda>f. f(pvr_map32 a addr := data)) (fb_watch a addr s))"

definition pvr_write32p16 :: "areas \<Rightarrow> u32 \<Rightarrow> u16 \<Rightarrow> 'd machine \<Rightarrow> 'd machine" where
  "pvr_write32p16 a addr data s =
     upd_block (a_vram a) (st16 (pvr_map32 a (addr AND NOT 1)) data) (fb_watch a (addr AND NOT 1) s)"

definition pvr_write32p32 :: "areas \<Rightarrow> u32 \<Rightarrow> u32 \<Rightarrow> 'd machine \<Rightarrow> 'd machine" where
  "pvr_write32p32 a addr data s =
     upd_block (a_vram a) (st32 (pvr_map32 a (addr AND NOT 3)) data) (fb_watch a (addr AND NOT 3) s)"

text \<open>The handlers of area 4 (the template argument \<open>upper\<close> selects the mirror).\<close>

definition access32 :: "bool \<Rightarrow> 'd machine \<Rightarrow> bool" where
  "access32 upper s \<longleftrightarrow> (if upper then SB_LMMODE1 s else SB_LMMODE0 s) = 1"

definition pvr_read_area4_8 :: "areas \<Rightarrow> bool \<Rightarrow> u32 \<Rightarrow> 'd machine \<Rightarrow> u8" where
  "pvr_read_area4_8 a upper addr s =
    (if access32 upper s then pvr_read32p8 a addr s else vram a s (addr AND VRAM_MASK a))"

definition pvr_read_area4_16 :: "areas \<Rightarrow> bool \<Rightarrow> u32 \<Rightarrow> 'd machine \<Rightarrow> u16" where
  "pvr_read_area4_16 a upper addr s =
    (if access32 upper s then pvr_read32p16 a addr s else ld16 (vram a s) (addr AND VRAM_MASK a))"

definition pvr_read_area4_32 :: "areas \<Rightarrow> bool \<Rightarrow> u32 \<Rightarrow> 'd machine \<Rightarrow> u32" where
  "pvr_read_area4_32 a upper addr s =
    (if access32 upper s then pvr_read32p32 a addr s else ld32 (vram a s) (addr AND VRAM_MASK a))"

definition pvr_write_area4_8 :: "areas \<Rightarrow> bool \<Rightarrow> u32 \<Rightarrow> u8 \<Rightarrow> 'd machine \<Rightarrow> 'd machine" where
  "pvr_write_area4_8 a upper addr data s =
    (if access32 upper s then pvr_write32p8 a False addr data s
     else upd_block (a_vram a) (\<lambda>f. f(addr AND VRAM_MASK a := data)) s)"

definition pvr_write_area4_16 :: "areas \<Rightarrow> bool \<Rightarrow> u32 \<Rightarrow> u16 \<Rightarrow> 'd machine \<Rightarrow> 'd machine" where
  "pvr_write_area4_16 a upper addr data s =
    (if access32 upper s then pvr_write32p16 a addr data s
     else upd_block (a_vram a) (st16 (addr AND VRAM_MASK a) data) s)"

definition pvr_write_area4_32 :: "areas \<Rightarrow> bool \<Rightarrow> u32 \<Rightarrow> u32 \<Rightarrow> 'd machine \<Rightarrow> 'd machine" where
  "pvr_write_area4_32 a upper addr data s =
    (if access32 upper s then pvr_write32p32 a addr data s
     else upd_block (a_vram a) (st32 (addr AND VRAM_MASK a) data) s)"

section \<open>Writes to the tile accelerator\<close>

text \<open>The list parser of the tile accelerator (\<^verbatim>\<open>ta.cpp\<close>): one burst, and a number of units.\<close>

record 'd pvr_env =
  ta_vtx_data32 :: "(u32 \<Rightarrow> u8) \<Rightarrow> 'd machine \<Rightarrow> 'd machine"
  ta_vtx_data :: "(u32 \<Rightarrow> u8) \<Rightarrow> u32 \<Rightarrow> 'd machine \<Rightarrow> 'd machine"

definition TAWrite :: "areas \<Rightarrow> 'd pvr_env \<Rightarrow> u32 \<Rightarrow> (u32 \<Rightarrow> u8) \<Rightarrow> u32 \<Rightarrow> 'd machine \<Rightarrow> 'd machine" where
  "TAWrite a P address data count s =
    (if address AND 0x800000 = 0 then ta_vtx_data P data count s
     else YUV_data a data count s)"

section \<open>The permutation of the words of video memory\<close>

lemma pvr_map32_bits:
  assumes "areas_wf a"
  shows "bit (pvr_map32 a x) i \<longleftrightarrow>
    (if i < 2 then bit x i else if i = 2 then bit x 22 else if i < 23 then bit x (i - 1)
     else i = 23 \<and> VRAM_MASK a = 0xFFFFFF \<and> bit x 23)"
proof -
  define n :: nat where "n = (if VRAM_MASK a = 0xFFFFFF then 1 else 0)"
  have st: "VRAM_MASK a - (VRAM_BANK_BIT * 2 - 1) + 3 = mask 2 OR push_bit 23 (mask n)"
    using assms by (auto simp: areas_wf_def VRAM_BANK_BIT_def n_def mask_eq_exp_minus_1 push_bit_eq_mult)
  have off: "(VRAM_BANK_BIT - 1) AND NOT 3 = push_bit 2 (mask 20)"
    by (simp add: VRAM_BANK_BIT_def mask_eq_exp_minus_1 push_bit_eq_mult)
  have d: "(x AND VRAM_BANK_BIT) div VRAM_BANK_BIT = drop_bit 22 (x AND push_bit 22 (mask 1))"
    by (simp add: VRAM_BANK_BIT_def drop_bit_eq_div push_bit_eq_mult mask_eq_exp_minus_1)
  have m: "(x AND y) * 2 = push_bit 1 (x AND y)" "drop_bit 22 y * 4 = push_bit 2 (drop_bit 22 y)" for y :: u32
    by (simp_all add: push_bit_eq_mult)
  have eq: "pvr_map32 a x = (x AND (mask 2 OR push_bit 23 (mask n))) OR
      push_bit 1 (x AND push_bit 2 (mask 20)) OR push_bit 2 (drop_bit 22 (x AND push_bit 22 (mask 1)))"
    by (simp only: pvr_map32_def Let_def st off d m)
  show ?thesis
    unfolding eq n_def by (simp only: word_bits) (auto split: if_splits)
qed

text \<open>The word an address of the 32-bit area denotes.\<close>

definition vram_word :: "areas \<Rightarrow> u32 \<Rightarrow> u32" where
  "vram_word a x = x AND VRAM_MASK a AND NOT 3"

lemma bit_vram_word:
  assumes "areas_wf a"
  shows "bit (vram_word a x) i \<longleftrightarrow> 2 \<le> i \<and> i < (if VRAM_MASK a = 0xFFFFFF then 24 else 23) \<and> bit x i"
proof -
  have v: "VRAM_MASK a = mask (if VRAM_MASK a = 0xFFFFFF then 24 else 23)"
    using assms by (auto simp: areas_wf_def mask_eq_exp_minus_1)
  have "(3 :: u32) = mask 2" by (simp add: mask_eq_exp_minus_1)
  then show ?thesis
    unfolding vram_word_def
    by (subst v) (simp only: word_bits, auto dest: bit_imp_le_length)
qed

lemma pvr_map32_word:
  assumes a: "areas_wf a"
  shows "pvr_map32 a x AND NOT 3 = pvr_map32 a (x AND NOT 3)"
    and "pvr_map32 a (x AND NOT 3) = pvr_map32 a (vram_word a x)"
    and "pvr_map32 a (x AND NOT 3) \<le> VRAM_MASK a"
proof -
  have c: "(3 :: u32) = mask 2" by (simp add: mask_eq_exp_minus_1)
  show "pvr_map32 a x AND NOT 3 = pvr_map32 a (x AND NOT 3)"
    unfolding c by (rule bit_word_eqI) (auto simp: pvr_map32_bits [OF a] bit_simps)
  show "pvr_map32 a (x AND NOT 3) = pvr_map32 a (vram_word a x)"
    unfolding c by (rule bit_word_eqI) (auto simp: pvr_map32_bits [OF a] bit_vram_word [OF a] bit_simps)
  have v: "VRAM_MASK a = mask (if VRAM_MASK a = 0xFFFFFF then 24 else 23)"
    using a by (auto simp: areas_wf_def mask_eq_exp_minus_1)
  have "pvr_map32 a (x AND NOT 3) AND VRAM_MASK a = pvr_map32 a (x AND NOT 3)"
    by (subst v) (rule bit_word_eqI; auto simp: pvr_map32_bits [OF a] bit_simps)
  then show "pvr_map32 a (x AND NOT 3) \<le> VRAM_MASK a"
    by (metis word_and_le1)
qed

text \<open>Different words of the 32-bit area are different words of video memory, and every word
  of video memory is one.\<close>

lemma pvr_map32_inj:
  assumes a: "areas_wf a" and eq: "pvr_map32 a (vram_word a x) = pvr_map32 a (vram_word a y)"
  shows "vram_word a x = vram_word a y"
proof (rule bit_word_eqI)
  fix i assume "i < LENGTH(32)"
  have b: "bit (pvr_map32 a (vram_word a x)) j = bit (pvr_map32 a (vram_word a y)) j" for j
    using eq by simp
  show "bit (vram_word a x) i = bit (vram_word a y) i"
    using b [of "if i = 22 then 2 else if i < 22 then i + 1 else i"]
    by (cases "i < 22"; cases "i = 22"; cases "i = 23")
      (auto simp: pvr_map32_bits [OF a] bit_vram_word [OF a] split: if_splits)
qed

lemma pvr_map32_surj:
  assumes a: "areas_wf a" and p: "vram_word a p = p"
  shows "\<exists>x. vram_word a x = x \<and> pvr_map32 a x = p"
proof -
  define x where "x = push_bit 22 (take_bit 1 (drop_bit 2 p)) OR
    push_bit 2 (take_bit 20 (drop_bit 3 p)) OR push_bit 23 (take_bit 1 (drop_bit 23 p))"
  have bp: "bit p i \<Longrightarrow> 2 \<le> i \<and> i < (if VRAM_MASK a = 0xFFFFFF then 24 else 23)" for i
    using bit_vram_word [OF a, of p i] by (simp add: p)
  have bx: "bit x i \<longleftrightarrow> (if i = 22 then bit p 2 else if i = 23 then bit p 23 else 2 \<le> i \<and> i < 22 \<and> bit p (i + 1))" for i
    unfolding x_def by (simp only: word_bits) (auto simp: numeral_2_eq_2 split: if_splits)
  have "vram_word a x = x"
    by (rule bit_word_eqI) (auto simp: bit_vram_word [OF a] bx dest: bp split: if_splits)
  moreover have "pvr_map32 a x = p"
  proof (rule bit_word_eqI)
    fix i
    show "bit (pvr_map32 a x) i = bit p i"
      by (cases "i = 23") (auto simp: pvr_map32_bits [OF a] bx dest: bp split: if_splits)
  qed
  ultimately show ?thesis by blast
qed

lemma mem_fb_watch [simp]: "m_mem (fb_watch a x s) = m_mem s"
  by (simp add: fb_watch_def Let_def)

lemma pvr_map32_aligned: "areas_wf a \<Longrightarrow> pvr_map32 a (z AND NOT 3) AND NOT 3 = pvr_map32 a (z AND NOT 3)"
  using pvr_map32_word(1) [of a "z AND NOT 3"] by (simp add: and.assoc)

lemma pvr_read_write32:
  assumes "areas_wf a"
  shows "pvr_read32p32 a y (pvr_write32p32 a x v s) =
    (if vram_word a y = vram_word a x then v else pvr_read32p32 a y s)"
proof -
  note al = pvr_map32_aligned [OF assms]
  have inj: "(pvr_map32 a (z AND NOT 3) = pvr_map32 a (w AND NOT 3)) = (vram_word a z = vram_word a w)" for z w
    using pvr_map32_inj [OF assms, of z w] pvr_map32_word(2) [OF assms] by metis
  have w: "m_mem (pvr_write32p32 a x v s) (a_vram a) = st32 (pvr_map32 a (x AND NOT 3)) v (m_mem s (a_vram a))"
    by (simp add: pvr_write32p32_def upd_block_def)
  show ?thesis
    unfolding pvr_read32p32_def vram_def w pvr_map32_word(1) [OF assms] ld32_st32_aligned [OF al al] inj by (rule refl)
qed

text \<open>C35: The 32-bit area of video memory is a memory of words: a word written through it is read
  back through it at the same address of video memory, and every other word of the area keeps
  its value. Its words are those of the 64-bit area, permuted: the word lies within video
  memory, at an offset from which the 64-bit area reads it.\<close>
theorem vram_32bit_path:
  assumes "areas_wf a"
  shows "pvr_read32p32 a y (pvr_write32p32 a x v s) =
      (if vram_word a y = vram_word a x then v else pvr_read32p32 a y s) \<and>
    (let p = pvr_map32 a (y AND NOT 3)
     in p \<le> VRAM_MASK a \<and> vram_word a p = p \<and> pvr_read32p32 a y s = ld32 (vram a s) p) \<and>
    (\<exists>z. vram_word a z = z \<and> pvr_map32 a z = vram_word a y)"
proof -
  have "vram_word a (pvr_map32 a (y AND NOT 3)) = pvr_map32 a (y AND NOT 3)"
  proof (rule bit_word_eqI)
    fix i
    have "(3 :: u32) = mask 2" by (simp add: mask_eq_exp_minus_1)
    then have "\<not> (i < 2 \<and> bit (y AND NOT 3) i)"
      by (simp only: word_bits) auto
    then show "bit (vram_word a (pvr_map32 a (y AND NOT 3))) i = bit (pvr_map32 a (y AND NOT 3)) i"
      by (auto simp: bit_vram_word [OF assms] pvr_map32_bits [OF assms] split: if_splits)
  qed
  moreover have "vram_word a (vram_word a y) = vram_word a y"
    by (simp add: vram_word_def and.assoc and.left_commute)
  ultimately show ?thesis
    using pvr_map32_word(1) [OF assms, of y] pvr_map32_word(3) [OF assms, of y]
    by (intro conjI pvr_read_write32 [OF assms] pvr_map32_surj [OF assms]) (simp add: Let_def pvr_read32p32_def)
qed

theorem vram_32bit_path_witness:
  "(let s = pvr_write32p32 dreamcast_areas 0xA5400004 0x12345678 (zero_machine ())
    in pvr_read32p32 dreamcast_areas 0x5400004 s = 0x12345678)"
proof -
  have "areas_wf dreamcast_areas" by (simp add: areas_wf_def dreamcast_areas_def)
  note p = conjunct1 [OF vram_32bit_path [OF this, of "0x5400004" "0xA5400004" "0x12345678" "zero_machine ()"]]
  have "vram_word dreamcast_areas 0x5400004 = vram_word dreamcast_areas 0xA5400004"
    by (simp add: vram_word_def dreamcast_areas_def)
  then show ?thesis unfolding Let_def p by (simp only: if_True simp_thms)
qed

section \<open>The layout of a macro block\<close>

text \<open>\<open>f'\<close> is \<open>f\<close> with the values \<open>v x\<close> at the places \<open>A x\<close> of the points of \<open>S\<close>.\<close>

definition patched :: "('i \<Rightarrow> 'p) \<Rightarrow> ('i \<Rightarrow> 'v) \<Rightarrow> 'i set \<Rightarrow> ('p \<Rightarrow> 'v) \<Rightarrow> ('p \<Rightarrow> 'v) \<Rightarrow> bool" where
  "patched A v S f f' \<longleftrightarrow> (\<forall>x\<in>S. f' (A x) = v x) \<and> (\<forall>p. p \<notin> A ` S \<longrightarrow> f' p = f p)"

lemma patched_empty: "patched A v {} f f"
  by (simp add: patched_def)

lemma patched_insert:
  assumes "patched A v S f f'" "inj_on A U" "S \<subseteq> U" "x \<in> U"
  shows "patched A v (insert x S) f (f'(A x := v x))"
  using assms by (auto simp: patched_def inj_on_def)

lemma patched_list:
  assumes "inj_on A U" "S \<subseteq> U"
  shows "patched A v S f f' \<Longrightarrow> set xs \<subseteq> U \<Longrightarrow>
    patched A v (set xs \<union> S) f (fold (\<lambda>x f. f(A x := v x)) xs f')"
  using assms(2)
proof (induction xs arbitrary: S f')
  case (Cons x xs)
  then show ?case
    using Cons.IH [OF patched_insert [OF Cons.prems(1) assms(1)], of x] by simp
qed simp

text \<open>
  The texture: line \<open>y\<close>, byte \<open>k\<close> of a block of 16 lines of 32 bytes. The odd bytes of a
  line are luminance, from four blocks of 8 by 8 bytes; bytes 0 and 2 of four are the chroma
  samples, one for a square of two by two pixels.
\<close>

definition yuv_addr :: "u32 \<Rightarrow> u32 \<Rightarrow> nat \<times> nat \<Rightarrow> u32" where
  "yuv_addr out x_size = (\<lambda>(y, k). out + of_nat y * (x_size * 2) + of_nat k)"

definition yuv_val :: "(u32 \<Rightarrow> u8) \<Rightarrow> nat \<times> nat \<Rightarrow> u8" where
  "yuv_val inp = (\<lambda>(y, k).
    if odd k then inp (of_nat (128 + 64 * (2 * (y div 8) + k div 16) + 8 * (y mod 8) + k mod 16 div 2))
    else if k mod 4 = 0 then inp (of_nat (8 * (y div 2) + k div 4))
    else inp (of_nat (64 + 8 * (y div 2) + k div 4)))"

text \<open>The pointers before pixel pair \<open>c\<close> of line pair \<open>r\<close> of the block \<open>(by, bx)\<close>.\<close>

definition yuv_at :: "(u32 \<Rightarrow> u8) \<Rightarrow> u32 \<Rightarrow> u32 \<Rightarrow> (nat \<times> nat) set \<Rightarrow> (u32 \<Rightarrow> u8) \<Rightarrow> nat \<Rightarrow> nat \<Rightarrow> nat \<Rightarrow> nat \<Rightarrow> yuv_ptrs \<Rightarrow> bool" where
  "yuv_at inp out x_size Q f yb bx r c p \<longleftrightarrow> (\<exists>f'. p =
     (of_nat (8 * (4 * yb + r) + 4 * bx + c), of_nat (128 + 64 * (2 * yb + bx) + 16 * r + 2 * c),
      yuv_addr out x_size (8 * yb + 2 * r, 16 * bx + 4 * c),
      yuv_addr out x_size (8 * yb + 2 * r + 1, 16 * bx + 4 * c), f') \<and>
    patched (yuv_addr out x_size) (yuv_val inp)
      (Q \<union> {8 * yb..<8 * yb + 2 * r} \<times> {16 * bx..<16 * bx + 16} \<union>
       {8 * yb + 2 * r, 8 * yb + 2 * r + 1} \<times> {16 * bx..<16 * bx + 4 * c}) f f')"

lemma yuv_val_point:
  assumes "r < 4" "c < 4" "d < 2" "j < 4"
  shows "yuv_val inp (8 * yb + 2 * r + d, 16 * bx + 4 * c + j) =
    (if odd j then inp (of_nat (128 + 64 * (2 * yb + bx) + 8 * (2 * r + d) + (2 * c + j div 2)))
     else if j = 0 then inp (of_nat (8 * (4 * yb + r) + (4 * bx + c)))
     else inp (of_nat (64 + 8 * (4 * yb + r) + (4 * bx + c))))"
proof -
  have k: "16 * bx + 4 * c + j = (4 * c + j) + bx * 16" "16 * bx + 4 * c + j = j + (4 * bx + c) * 4"
    and y: "8 * yb + 2 * r + d = (2 * r + d) + yb * 8" "8 * yb + 2 * r + d = d + (4 * yb + r) * 2"
    by simp_all
  have "(16 * bx + 4 * c + j) div 16 = bx" "(16 * bx + 4 * c + j) mod 16 = 4 * c + j"
    using assms unfolding k(1) by simp_all
  moreover have "(16 * bx + 4 * c + j) div 4 = 4 * bx + c" "(16 * bx + 4 * c + j) mod 4 = j"
    using assms mod_mult_self1 [of j "4 * bx + c" 4] unfolding k(2) by simp_all
  moreover have "(8 * yb + 2 * r + d) div 8 = yb" "(8 * yb + 2 * r + d) mod 8 = 2 * r + d"
    using assms unfolding y(1) by simp_all
  moreover have "(8 * yb + 2 * r + d) div 2 = 4 * yb + r"
    using assms unfolding y(2) by simp
  moreover have "odd (16 * bx + 4 * c + j) = odd j" "(4 * c + j) div 2 = 2 * c + j div 2" by simp_all
  ultimately show ?thesis by (simp only: yuv_val_def prod.case)
qed

abbreviation "yuv_area \<equiv> {..<16 :: nat} \<times> {..<32 :: nat}"

lemma yuv_pixels_step:
  assumes at: "yuv_at inp out x_size Q f yb bx r c p"
    and inj: "inj_on (yuv_addr out x_size) yuv_area"
    and b: "Q \<subseteq> yuv_area" "yb < 2" "bx < 2" "r < 4" "c < 4"
  shows "yuv_at inp out x_size Q f yb bx r (Suc c) (YUV_pixels inp p)"
proof -
  let ?Y = "8 * yb + 2 * r" and ?K = "16 * bx + 4 * c" and ?A = "yuv_addr out x_size"
  let ?S = "Q \<union> {8 * yb..<8 * yb + 2 * r} \<times> {16 * bx..<16 * bx + 16} \<union> {?Y, ?Y + 1} \<times> {16 * bx..<?K}"
  from at obtain f' where p: "p = (of_nat (8 * (4 * yb + r) + 4 * bx + c),
      of_nat (128 + 64 * (2 * yb + bx) + 16 * r + 2 * c), ?A (?Y, ?K), ?A (?Y + 1, ?K), f')"
    and f': "patched ?A (yuv_val inp) ?S f f'"
    by (auto simp: yuv_at_def)
  have v: "yuv_val inp (?Y, ?K) = inp (of_nat (8 * (4 * yb + r) + 4 * bx + c))"
    "yuv_val inp (?Y, ?K + 1) = inp (of_nat (128 + 64 * (2 * yb + bx) + 16 * r + 2 * c))"
    "yuv_val inp (?Y, ?K + 2) = inp (of_nat (8 * (4 * yb + r) + 4 * bx + c) + 64)"
    "yuv_val inp (?Y, ?K + 3) = inp (of_nat (128 + 64 * (2 * yb + bx) + 16 * r + 2 * c) + 1)"
    "yuv_val inp (?Y + 1, ?K) = inp (of_nat (8 * (4 * yb + r) + 4 * bx + c))"
    "yuv_val inp (?Y + 1, ?K + 1) = inp (of_nat (128 + 64 * (2 * yb + bx) + 16 * r + 2 * c) + 8)"
    "yuv_val inp (?Y + 1, ?K + 2) = inp (of_nat (8 * (4 * yb + r) + 4 * bx + c) + 64)"
    "yuv_val inp (?Y + 1, ?K + 3) = inp (of_nat (128 + 64 * (2 * yb + bx) + 16 * r + 2 * c) + 9)"
    using b yuv_val_point [of r c 0 0 inp yb bx] yuv_val_point [of r c 0 1 inp yb bx]
      yuv_val_point [of r c 0 2 inp yb bx] yuv_val_point [of r c 0 3 inp yb bx]
      yuv_val_point [of r c 1 0 inp yb bx] yuv_val_point [of r c 1 1 inp yb bx]
      yuv_val_point [of r c 1 2 inp yb bx] yuv_val_point [of r c 1 3 inp yb bx]
    by (simp_all add: algebra_simps)
  define xs where "xs = [(?Y, ?K), (?Y, ?K + 1), (?Y, ?K + 2), (?Y, ?K + 3),
    (?Y + 1, ?K), (?Y + 1, ?K + 1), (?Y + 1, ?K + 2), (?Y + 1, ?K + 3)]"
  have A: "?A (y, k + 1) = ?A (y, k) + 1" "?A (y, k + 2) = ?A (y, k) + 2"
    "?A (y, k + 3) = ?A (y, k) + 3" "?A (y, k + 4) = ?A (y, k) + 4" for y k
    by (simp_all add: yuv_addr_def)
  have "fold (\<lambda>x f. f(?A x := yuv_val inp x)) xs f' = snd (snd (snd (snd (YUV_pixels inp p))))"
    by (simp only: xs_def p YUV_pixels.simps Let_def snd_conv fold.simps comp_def id_def v A)
  moreover have "16 * bx + 4 * Suc c = ?K + 4" by simp
  ultimately have "YUV_pixels inp p = (of_nat (8 * (4 * yb + r) + 4 * bx + Suc c),
      of_nat (128 + 64 * (2 * yb + bx) + 16 * r + 2 * Suc c), ?A (?Y, 16 * bx + 4 * Suc c),
      ?A (?Y + 1, 16 * bx + 4 * Suc c), fold (\<lambda>x f. f(?A x := yuv_val inp x)) xs f')"
    unfolding p by (simp only: YUV_pixels.simps Let_def snd_conv A) simp
  moreover have "patched ?A (yuv_val inp) (set xs \<union> ?S) f (fold (\<lambda>x f. f(?A x := yuv_val inp x)) xs f')"
    using f' b by (intro patched_list [OF inj]) (auto simp: xs_def)
  moreover have "set xs \<union> ?S = Q \<union> {8 * yb..<8 * yb + 2 * r} \<times> {16 * bx..<16 * bx + 16} \<union>
      {?Y, ?Y + 1} \<times> {16 * bx..<16 * bx + 4 * Suc c}"
  proof -
    have "{16 * bx..<16 * bx + 4 * Suc c} = {16 * bx..<?K} \<union> {?K, ?K + 1, ?K + 2, ?K + 3}"
      by auto
    then show ?thesis by (auto simp: xs_def)
  qed
  ultimately show ?thesis by (simp add: yuv_at_def)
qed

lemma yuv_two_lines_step:
  assumes at: "yuv_at inp out x_size Q f yb bx r 0 p"
    and inj: "inj_on (yuv_addr out x_size) yuv_area"
    and b: "Q \<subseteq> yuv_area" "yb < 2" "bx < 2" "r < 4"
  shows "yuv_at inp out x_size Q f yb bx (Suc r) 0 (YUV_two_lines inp x_size p)"
proof -
  have "yuv_at inp out x_size Q f yb bx r c ((YUV_pixels inp ^^ c) p)" if "c \<le> 4" for c
    using that at by (induction c) (auto intro: yuv_pixels_step [OF _ inj b])
  from this [of 4] obtain f' where f': "(YUV_pixels inp ^^ 4) p =
     (of_nat (8 * (4 * yb + r) + 4 * bx + 4), of_nat (128 + 64 * (2 * yb + bx) + 16 * r + 2 * 4),
      yuv_addr out x_size (8 * yb + 2 * r, 16 * bx + 4 * 4),
      yuv_addr out x_size (8 * yb + 2 * r + 1, 16 * bx + 4 * 4), f')"
    "patched (yuv_addr out x_size) (yuv_val inp)
      (Q \<union> {8 * yb..<8 * yb + 2 * r} \<times> {16 * bx..<16 * bx + 16} \<union>
       {8 * yb + 2 * r, 8 * yb + 2 * r + 1} \<times> {16 * bx..<16 * bx + 4 * 4}) f f'"
    by (auto simp: yuv_at_def)
  have "{8 * yb..<8 * yb + 2 * r} \<union> {8 * yb + 2 * r, 8 * yb + 2 * r + 1} = {8 * yb..<8 * yb + 2 * Suc r}"
    by auto
  then have "Q \<union> {8 * yb..<8 * yb + 2 * r} \<times> {16 * bx..<16 * bx + 16} \<union>
       {8 * yb + 2 * r, 8 * yb + 2 * r + 1} \<times> {16 * bx..<16 * bx + 4 * 4} =
     Q \<union> {8 * yb..<8 * yb + 2 * Suc r} \<times> {16 * bx..<16 * bx + 16}"
    by (simp add: Un_assoc Sigma_Un_distrib1 [symmetric])
  note f'(2) [unfolded this]
  moreover have "YUV_two_lines inp x_size p =
     (of_nat (8 * (4 * yb + Suc r) + 4 * bx + 0), of_nat (128 + 64 * (2 * yb + bx) + 16 * Suc r + 2 * 0),
      yuv_addr out x_size (8 * yb + 2 * Suc r, 16 * bx + 4 * 0),
      yuv_addr out x_size (8 * yb + 2 * Suc r + 1, 16 * bx + 4 * 0), f')"
    by (simp add: YUV_two_lines_def f'(1) yuv_addr_def algebra_simps)
  ultimately show ?thesis by (simp add: yuv_at_def)
qed

lemma yuv_block8x8:
  assumes f: "patched (yuv_addr out x_size) (yuv_val inp) Q f0 f"
    and inj: "inj_on (yuv_addr out x_size) yuv_area"
    and b: "Q \<subseteq> yuv_area" "yb < 2" "bx < 2"
  shows "patched (yuv_addr out x_size) (yuv_val inp)
    (Q \<union> {8 * yb..<8 * yb + 8} \<times> {16 * bx..<16 * bx + 16}) f0
    (YUV_Block8x8 inp x_size (of_nat (32 * yb + 4 * bx)) (of_nat (128 + 64 * (2 * yb + bx)))
      (yuv_addr out x_size (8 * yb, 16 * bx)) f)"
proof -
  let ?p = "(of_nat (32 * yb + 4 * bx), of_nat (128 + 64 * (2 * yb + bx)),
      yuv_addr out x_size (8 * yb, 16 * bx), yuv_addr out x_size (8 * yb, 16 * bx) + x_size * 2, f) :: yuv_ptrs"
  have "yuv_at inp out x_size Q f0 yb bx r 0 ((YUV_two_lines inp x_size ^^ r) ?p)" if "r \<le> 4" for r
    using that
  proof (induction r)
    case 0
    show ?case using f by (simp add: yuv_at_def yuv_addr_def algebra_simps)
  qed (auto intro: yuv_two_lines_step [OF _ inj b])
  from this [of 4] show ?thesis
    by (auto simp: yuv_at_def YUV_Block8x8_def)
qed

lemma yuv_block384:
  assumes inj: "inj_on (yuv_addr out x_size) yuv_area"
  shows "patched (yuv_addr out x_size) (yuv_val inp) yuv_area f (YUV_Block384 inp x_size out f)"
proof -
  let ?A = "yuv_addr out x_size" and ?v = "yuv_val inp"
  define f1 where "f1 = YUV_Block8x8 inp x_size 0 128 out f"
  define f2 where "f2 = YUV_Block8x8 inp x_size 4 (128 + 64) (out + 8 * 2) f1"
  define f3 where "f3 = YUV_Block8x8 inp x_size 32 (128 + 128) (out + x_size * 8 * 2) f2"
  have q: "{..<8} \<times> {..<16} \<subseteq> yuv_area" "{..<8} \<times> {..<16} \<union> {..<8} \<times> {16..<32} \<subseteq> yuv_area"
    "{..<8} \<times> {..<16} \<union> {..<8} \<times> {16..<32} \<union> {8..<16} \<times> {..<16} \<subseteq> yuv_area"
    by auto
  have 1: "patched ?A ?v ({..<8} \<times> {..<16}) f f1"
    using yuv_block8x8 [OF patched_empty inj, of 0 0 inp f]
    by (simp add: f1_def yuv_addr_def atLeast0LessThan)
  have 2: "patched ?A ?v ({..<8} \<times> {..<16} \<union> {..<8} \<times> {16..<32}) f f2"
    using yuv_block8x8 [OF 1 inj q(1), of 0 1] by (simp add: f2_def yuv_addr_def atLeast0LessThan)
  have 3: "patched ?A ?v ({..<8} \<times> {..<16} \<union> {..<8} \<times> {16..<32} \<union> {8..<16} \<times> {..<16}) f f3"
    using yuv_block8x8 [OF 2 inj q(2), of 1 0] by (simp add: f3_def yuv_addr_def atLeast0LessThan mult_ac)
  have "patched ?A ?v ({..<8} \<times> {..<16} \<union> {..<8} \<times> {16..<32} \<union> {8..<16} \<times> {..<16} \<union> {8..<16} \<times> {16..<32}) f
      (YUV_Block384 inp x_size out f)"
    using yuv_block8x8 [OF 3 inj q(3), of 1 1]
    by (simp add: YUV_Block384_def f1_def f2_def f3_def yuv_addr_def mult_ac add.assoc)
  moreover have "{..<8} \<times> {..<16} \<union> {..<8} \<times> {16..<32} \<union> {8..<16} \<times> {..<16} \<union> {8..<16} \<times> {16..<32} = yuv_area"
    by auto
  ultimately show ?thesis by simp
qed

lemma yuv_addr_inj:
  assumes "16 \<le> x_size" "x_size \<le> 0x1000"
  shows "inj_on (yuv_addr out x_size) yuv_area"
proof (rule inj_onI, clarify)
  fix y k y' k' :: nat
  assume b: "y < 16" "k < 32" "y' < 16" "k' < 32" and eq: "yuv_addr out x_size (y, k) = yuv_addr out x_size (y', k')"
  define w where "w = unat x_size * 2"
  have w: "32 \<le> w" "w \<le> 0x2000" using assms by (simp_all add: w_def word_le_nat_alt)
  have e: "yuv_addr out x_size (j, i) = out + of_nat (j * w + i)" for j i
    by (simp add: yuv_addr_def w_def)
  have small: "j * w + i < 2 ^ 32" if "j < 16" "i < 32" for j i
  proof -
    have "j * w \<le> 15 * 0x2000" using that w by (intro mult_le_mono) auto
    then show ?thesis using that by simp
  qed
  have "(of_nat (y * w + k) :: u32) = of_nat (y' * w + k')" using eq by (simp add: e)
  moreover have "unat (of_nat n :: u32) = n" if "n < 2 ^ 32" for n
    using that by (simp add: unsigned_of_nat take_bit_nat_eq_self)
  ultimately have "y * w + k = y' * w + k'"
    using small [OF b(1,2)] small [OF b(3,4)] by metis
  moreover have "(j * w + i) div w = j" if "i < 32" for i j
    using that w by (simp add: div_less)
  ultimately have "y = y'" using b by metis
  with \<open>y * w + k = y' * w + k'\<close> show "y = y' \<and> k = k'" by simp
qed

lemma vram_convert: "vram a (YUV_ConvertMacroBlock a d s) =
    YUV_Block384 d (YUV_x_size (m_pvr s)) (YUV_dest (m_pvr s)) (vram a s)"
  by (simp add: YUV_ConvertMacroBlock_def Let_def vram_def upd_block_def set_PvrReg_def)

text \<open>C34: A macro block of 384 bytes is converted to sixteen lines of sixteen pixels of a 4:2:2
  texture: every pixel gets its own luminance sample, from the 8 by 8 block it lies in, and
  every pair of pixels in two lines shares the two chroma samples; no byte of video memory
  outside the sixteen pieces of 32 bytes is touched.\<close>
theorem yuv_macroblock_layout:
  assumes "16 \<le> YUV_x_size (m_pvr s)" and "YUV_x_size (m_pvr s) \<le> 0x1000" and "x < 16" and "y < 16"
  shows "(let V = vram a (YUV_ConvertMacroBlock a d s);
      line = YUV_dest (m_pvr s) + of_nat y * (YUV_x_size (m_pvr s) * 2)
    in V (line + of_nat (2 * x + 1)) = d (of_nat (128 + 64 * (2 * (y div 8) + x div 8) + 8 * (y mod 8) + x mod 8)) \<and>
       V (line + of_nat (4 * (x div 2))) = d (of_nat (8 * (y div 2) + x div 2)) \<and>
       V (line + of_nat (4 * (x div 2) + 2)) = d (of_nat (64 + 8 * (y div 2) + x div 2)) \<and>
       (p \<notin> (\<lambda>(y, k). YUV_dest (m_pvr s) + of_nat y * (YUV_x_size (m_pvr s) * 2) + of_nat k) `
          ({..<16 :: nat} \<times> {..<32 :: nat}) \<longrightarrow> V p = vram a s p))"
proof -
  note pt = yuv_block384 [OF yuv_addr_inj [OF assms(1,2)], of "YUV_dest (m_pvr s)" d "vram a s"]
  have at: "vram a (YUV_ConvertMacroBlock a d s)
      (YUV_dest (m_pvr s) + of_nat y * (YUV_x_size (m_pvr s) * 2) + of_nat k) = yuv_val d (y, k)" if "k < 32" for k
    using pt assms(4) that by (simp add: patched_def vram_convert yuv_addr_def)
  have l: "yuv_val d (y, 2 * x + 1) = d (of_nat (128 + 64 * (2 * (y div 8) + x div 8) + 8 * (y mod 8) + x mod 8))"
    "yuv_val d (y, 4 * (x div 2)) = d (of_nat (8 * (y div 2) + x div 2))"
    "yuv_val d (y, 4 * (x div 2) + 2) = d (of_nat (64 + 8 * (y div 2) + x div 2))"
  proof -
    obtain q r where x: "x = 8 * q + r" "r < 8" by (metis mult_div_mod_eq mod_less_divisor zero_less_numeral)
    have "2 * x + 1 = (2 * r + 1) + q * 16" using x by simp
    then have "(2 * x + 1) div 16 = x div 8" "(2 * x + 1) mod 16 div 2 = x mod 8"
      using x(2) by (simp_all only: div_mult_self1 mod_mult_self1) (simp_all add: x(1))
    then show "yuv_val d (y, 2 * x + 1) = d (of_nat (128 + 64 * (2 * (y div 8) + x div 8) + 8 * (y mod 8) + x mod 8))"
      by (simp add: yuv_val_def)
    have "4 * (x div 2) + 2 = 2 + (x div 2) * 4" by simp
    then have "(4 * (x div 2) + 2) div 4 = x div 2" "(4 * (x div 2) + 2) mod 4 = 2"
      by (simp_all only: div_mult_self1 mod_mult_self1) simp_all
    then show "yuv_val d (y, 4 * (x div 2) + 2) = d (of_nat (64 + 8 * (y div 2) + x div 2))"
      by (simp add: yuv_val_def)
  qed (simp add: yuv_val_def)
  have k: "2 * x + 1 < 32" "4 * (x div 2) < 32" "4 * (x div 2) + 2 < 32" using assms(3) by presburger+
  have o1: "p \<notin> yuv_addr (YUV_dest (m_pvr s)) (YUV_x_size (m_pvr s)) ` yuv_area \<longrightarrow>
      vram a (YUV_ConvertMacroBlock a d s) p = vram a s p"
    using pt by (simp add: patched_def vram_convert)
  show ?thesis
    unfolding Let_def at [OF k(1)] at [OF k(2)] at [OF k(3)]
    by (intro conjI l o1 [unfolded yuv_addr_def])
qed

theorem yuv_macroblock_layout_witness:
  "(let s = m_pvr_update (YUV_x_size_update (\<lambda>_. 16)) (zero_machine ());
      V = vram dreamcast_areas (YUV_ConvertMacroBlock dreamcast_areas (\<lambda>k. ucast (k - 320)) s)
    in V (0 + of_nat 15 * (16 * 2) + of_nat 31) = 63)"
proof -
  let ?s = "m_pvr_update (YUV_x_size_update (\<lambda>_. 16)) (zero_machine ())"
  have z: "YUV_x_size (m_pvr ?s) = 16" "YUV_dest (m_pvr ?s) = 0" by (simp_all add: zero_machine_def)
  note yuv_macroblock_layout [of ?s 15 15 dreamcast_areas "\<lambda>k. ucast (k - 320)", unfolded Let_def z]
  then show ?thesis by (simp add: Let_def)
qed

section \<open>The converter as a queue\<close>

text \<open>Only the 384 bytes of the macro block matter.\<close>

lemma yuv_val_cong:
  assumes "\<And>i. i < 384 \<Longrightarrow> d (of_nat i) = d' (of_nat i)" "x \<in> yuv_area"
  shows "yuv_val d x = yuv_val d' x"
proof -
  obtain y k where x: "x = (y, k)" "y < 16" "k < 32" using assms(2) by auto
  have bound: "m < 2 \<Longrightarrow> n < 2 \<Longrightarrow> i < 8 \<Longrightarrow> j < 8 \<Longrightarrow> 128 + 64 * (2 * m + n) + 8 * i + j < 384"
    for m n i j :: nat by presburger
  from x have "y div 8 < 2" "k div 16 < 2" "y mod 8 < 8" "k mod 16 div 2 < 8" "y div 2 < 8" "k div 4 < 8"
    by auto
  then have b: "128 + 64 * (2 * (y div 8) + k div 16) + 8 * (y mod 8) + k mod 16 div 2 < 384"
    "8 * (y div 2) + k div 4 < 384" "64 + 8 * (y div 2) + k div 4 < 384"
    using bound [of "y div 8" "k div 16" "y mod 8" "k mod 16 div 2"] by simp_all
  note assms(1) [OF b(1)] assms(1) [OF b(2)] assms(1) [OF b(3)]
  then show ?thesis unfolding yuv_val_def x(1) prod.case by (simp only:)
qed

lemma patched_unique:
  assumes "patched A v S f g" "patched A v' S f g'" "\<And>x. x \<in> S \<Longrightarrow> v x = v' x"
  shows "g = g'"
proof
  fix p show "g p = g' p" using assms by (cases "p \<in> A ` S") (auto simp: patched_def)
qed

lemma yuv_block384_cong:
  assumes "\<And>i. i < 384 \<Longrightarrow> d (of_nat i) = d' (of_nat i)" "16 \<le> x_size" "x_size \<le> 0x1000"
  shows "YUV_Block384 d x_size out f = YUV_Block384 d' x_size out f"
proof -
  note pt = yuv_block384 [OF yuv_addr_inj [OF assms(2,3)], of out]
  show ?thesis
    by (rule patched_unique [OF pt pt]) (auto intro: yuv_val_cong assms(1))
qed

definition yuv_sized :: "'d machine \<Rightarrow> bool" where
  "yuv_sized s \<longleftrightarrow> 16 \<le> YUV_x_size (m_pvr s) \<and> YUV_x_size (m_pvr s) \<le> 0x1000"

lemma convert_cong:
  assumes "\<And>i. i < 384 \<Longrightarrow> d (of_nat i) = d' (of_nat i)" "yuv_sized s"
  shows "YUV_ConvertMacroBlock a d s = YUV_ConvertMacroBlock a d' s"
proof -
  have "YUV_Block384 d (YUV_x_size (m_pvr s)) out = YUV_Block384 d' (YUV_x_size (m_pvr s)) out" for out
    using assms by (intro ext yuv_block384_cong) (auto simp: yuv_sized_def)
  then show ?thesis by (simp add: YUV_ConvertMacroBlock_def Let_def set_PvrReg_def)
qed

lemma convert_sized [simp]: "yuv_sized (YUV_ConvertMacroBlock a d s) = yuv_sized s"
  by (simp add: yuv_sized_def YUV_ConvertMacroBlock_def Let_def set_PvrReg_def upd_block_def)

text \<open>The machine without the converter's buffer, and the bytes in the buffer.\<close>

definition yuv_clear :: "pvr_state \<Rightarrow> pvr_state" where
  "yuv_clear p = p\<lparr>YUV_tempdata := (\<lambda>_. 0), YUV_index := 0\<rparr>"

definition yuv_rest :: "'d machine \<Rightarrow> 'd machine" where
  "yuv_rest = m_pvr_update yuv_clear"

definition yuv_pending :: "'d machine \<Rightarrow> u8 list" where
  "yuv_pending s = map (\<lambda>k. YUV_tempdata (m_pvr s) (of_nat k)) [0..<32 * unat (YUV_index (m_pvr s))]"

lemma InterruptPend_pvr: "InterruptPend k v (m_pvr_update f s) = m_pvr_update f (InterruptPend k v s)"
  by (simp add: InterruptPend_def SetInterruptPend_def ResetInterruptPend_def recalc_pending_itrs_def on_ctx_def)

lemma asic_pvr: "asic_RaiseInterrupt e (m_pvr_update f s) = m_pvr_update f (asic_RaiseInterrupt e s)"
proof -
  have r: "asic_RLPending (m_pvr_update f s) = m_pvr_update f (asic_RLPending s)" for s :: "'a machine"
    by (simp add: asic_RLPending_def RLPending_conv InterruptPend_pvr)
  have h: "m_holly_update g (m_pvr_update f s) = m_pvr_update f (m_holly_update g s)" for g
    by simp
  show ?thesis unfolding asic_RaiseInterrupt_def Let_def h r ..
qed

lemma yuv_clear_advance: "yuv_clear (YUV_advance p) = YUV_advance (yuv_clear p)"
  by (simp add: yuv_clear_def YUV_advance_def Let_def)

lemma yuv_rest_convert: "yuv_rest (YUV_ConvertMacroBlock a d s) = YUV_ConvertMacroBlock a d (yuv_rest s)"
proof -
  have c: "yuv_rest (set_PvrReg x v t) = set_PvrReg x v (yuv_rest t)"
    "yuv_rest (upd_block b g t) = upd_block b g (yuv_rest t)"
    "yuv_rest (m_pvr_update YUV_advance t) = m_pvr_update YUV_advance (yuv_rest t)"
    "yuv_rest (asic_RaiseInterrupt e t) = asic_RaiseInterrupt e (yuv_rest t)"
    "PvrReg x (yuv_rest t) = PvrReg x t"
    "YUV_x_size (m_pvr (yuv_rest t)) = YUV_x_size (m_pvr t)"
    "YUV_dest (m_pvr (yuv_rest t)) = YUV_dest (m_pvr t)"
    "YUV_blockcount (m_pvr (yuv_rest t)) = YUV_blockcount (m_pvr t)" for x v b g e and t :: "'a machine"
    by (simp_all add: yuv_rest_def set_PvrReg_def upd_block_def asic_pvr PvrReg_def yuv_clear_advance comp_def)
      (simp_all add: yuv_clear_def)
  show ?thesis
    unfolding YUV_ConvertMacroBlock_def Let_def TA_YUV_TEX_CNT_def
    by (simp only: c(1-4) [symmetric] c(5-8) if_distrib [of yuv_rest])
qed

text \<open>
  The specification: a queue of bytes and the rest of the machine. A unit is appended, and
  384 bytes are converted.
\<close>

definition yuv_bytes :: "u8 list \<Rightarrow> u32 \<Rightarrow> u8" where
  "yuv_bytes q k = (if unat k < length q then q ! unat k else 0)"

definition yuv_accept :: "areas \<Rightarrow> u8 list \<Rightarrow> u8 list \<times> 'd machine \<Rightarrow> u8 list \<times> 'd machine" where
  "yuv_accept a u = (\<lambda>(q, t). if length (q @ u) < 384 then (q @ u, t)
     else ([], YUV_ConvertMacroBlock a (yuv_bytes (q @ u)) t))"

definition data_bytes :: "(u32 \<Rightarrow> u8) \<Rightarrow> u32 \<Rightarrow> nat \<Rightarrow> u8 list" where
  "data_bytes data off n = map (\<lambda>k. data (off + of_nat k)) [0..<n]"

definition data_units :: "(u32 \<Rightarrow> u8) \<Rightarrow> u32 \<Rightarrow> nat \<Rightarrow> u8 list list" where
  "data_units data off n = map (\<lambda>i. data_bytes data (off + of_nat (32 * i)) 32) [0..<n]"

definition yuv_abs :: "'d machine \<Rightarrow> u8 list \<times> 'd machine" where
  "yuv_abs s = (yuv_pending s, yuv_rest s)"

lemma length_data [simp]: "length (data_bytes d off n) = n" "length (data_units d off n) = n"
  by (simp_all add: data_bytes_def data_units_def)

lemma data_nth:
  "i < n \<Longrightarrow> data_bytes d off n ! i = d (off + of_nat i)"
  "i < n \<Longrightarrow> data_units d off n ! i = data_bytes d (off + of_nat (32 * i)) 32"
  by (simp_all add: data_bytes_def data_units_def)

lemma data_bytes_add: "data_bytes d off (m + n) = data_bytes d off m @ data_bytes d (off + of_nat m) n"
  by (rule nth_equalityI) (auto simp: nth_append data_nth of_nat_diff)

lemma data_units_add: "data_units d off (m + n) = data_units d off m @ data_units d (off + of_nat (32 * m)) n"
  by (rule nth_equalityI) (auto simp: nth_append data_nth of_nat_diff algebra_simps)

lemma data_units_concat: "concat (data_units d off n) = data_bytes d off (32 * n)"
proof (induction n)
  case (Suc n)
  have "data_units d off (Suc n) = data_units d off n @ [data_bytes d (off + of_nat (32 * n)) 32]"
    by (simp add: data_units_def)
  then show ?case using Suc data_bytes_add [of d off "32 * n" 32] by (simp add: add.commute)
qed (simp add: data_units_def data_bytes_def)

lemma accept_short:
  assumes "\<And>u. u \<in> set us \<Longrightarrow> length u = 32" "length q + 32 * length us < 384"
  shows "fold (yuv_accept a) us (q, t) = (q @ concat us, t)"
  using assms by (induction us arbitrary: q) (simp_all add: yuv_accept_def)

lemma accept_block:
  assumes "\<And>u. u \<in> set us \<Longrightarrow> length u = 32" "length q + 32 * length us = 384" "us \<noteq> []"
  shows "fold (yuv_accept a) us (q, t) = ([], YUV_ConvertMacroBlock a (yuv_bytes (q @ concat us)) t)"
proof -
  obtain vs u where us: "us = vs @ [u]" using assms(3) by (metis rev_exhaust)
  have "fold (yuv_accept a) vs (q, t) = (q @ concat vs, t)"
    using assms(1,2) us by (intro accept_short) auto
  moreover have "length (concat vs) = 32 * length vs"
    using assms(1) us by (induction vs arbitrary: us) auto
  ultimately show ?thesis using assms(1,2) us by (simp add: yuv_accept_def)
qed

lemma fold_copy:
  assumes "b + m < 2 ^ 32" "j < 2 ^ 32"
  shows "fold (\<lambda>k t. t(of_nat b + of_nat k := g k)) [0..<m] t (of_nat j :: u32) =
    (if b \<le> j \<and> j < b + m then g (j - b) else t (of_nat j))"
  using assms(1)
proof (induction m)
  case (Suc m)
  then have "(of_nat j :: u32) = of_nat b + of_nat m \<longleftrightarrow> j = b + m"
    using u32_of_nat_eq [of j "b + m"] assms(2) by simp
  with Suc show ?case by (auto simp: not_le)
qed auto

lemma pending_copy:
  assumes "unat (YUV_index (m_pvr s)) + unat n \<le> 12"
  shows "map (\<lambda>k. YUV_tempdata (m_pvr (tempdata_copy data off n s)) (of_nat k))
      [0..<32 * unat (YUV_index (m_pvr s)) + 32 * unat n] =
    yuv_pending s @ data_bytes data off (32 * unat n)"
proof (rule nth_equalityI)
  let ?b = "32 * unat (YUV_index (m_pvr s))"
  have m: "unat (n * 32) = 32 * unat n"
    using assms by (subst unat_mult_lem [THEN iffD1]) auto
  fix i assume "i < length (map (\<lambda>k. YUV_tempdata (m_pvr (tempdata_copy data off n s)) (of_nat k)) [0..<?b + 32 * unat n])"
  then have i: "i < ?b + 32 * unat n" by simp
  moreover have "?b + 32 * unat n < 2 ^ 32" using assms by simp
  moreover have "(32 * YUV_index (m_pvr s) :: u32) = of_nat ?b" by simp
  ultimately show "map (\<lambda>k. YUV_tempdata (m_pvr (tempdata_copy data off n s)) (of_nat k)) [0..<?b + 32 * unat n] ! i =
      (yuv_pending s @ data_bytes data off (32 * unat n)) ! i"
    using fold_copy [of ?b "32 * unat n" i "\<lambda>k. data (off + of_nat k)" "YUV_tempdata (m_pvr s)"]
    by (simp add: tempdata_copy_def yuv_pending_def nth_append data_nth m)
qed (simp add: yuv_pending_def)

lemma tempdata_copy_simps [simp]:
  "YUV_index (m_pvr (tempdata_copy data off n s)) = YUV_index (m_pvr s)"
  "yuv_sized (tempdata_copy data off n s) = yuv_sized s"
  "yuv_rest (tempdata_copy data off n s) = yuv_rest s"
  by (simp_all add: tempdata_copy_def yuv_sized_def yuv_rest_def comp_def yuv_clear_def)

lemma yuv_index_simps [simp]:
  "yuv_sized (m_pvr_update (YUV_index_update g) s) = yuv_sized s"
  "yuv_rest (m_pvr_update (YUV_index_update g) s) = yuv_rest s"
  "yuv_sized (yuv_rest s) = yuv_sized s"
  by (simp_all add: yuv_sized_def yuv_rest_def comp_def yuv_clear_def)

lemma length_pending [simp]: "length (yuv_pending s) = 32 * unat (YUV_index (m_pvr s))"
  by (simp add: yuv_pending_def)

lemma data_units_length: "u \<in> set (data_units d off n) \<Longrightarrow> length u = 32"
  by (auto simp: data_units_def)

lemma yuv_loop_refine:
  assumes "YUV_index (m_pvr s) < 12" "yuv_sized s" "unat n + 12 < 2 ^ 32"
  shows "yuv_abs (YUV_data_loop a data off n s) =
    fold (yuv_accept a) (data_units data off (unat n)) (yuv_abs s)"
  using assms
proof (induction a data off n s rule: YUV_data_loop.induct)
  case (1 a data off n s)
  define idx where "idx = YUV_index (m_pvr s)"
  have idx: "unat idx < 12" using 1(2) by (simp add: idx_def word_less_nat_alt)
  have add: "unat (idx + n) = unat idx + unat n"
    using 1(4) idx by (intro unat_add_lem [THEN iffD1]) simp
  show ?case
  proof (cases "n = 0")
    case True
    then show ?thesis by (subst YUV_data_loop.simps) (simp add: data_units_def)
  next
    case n0: False
    show ?thesis
    proof (cases "12 \<le> idx + n")
      case full: True
      define dr where "dr = 12 - idx"
      have dr: "unat dr = 12 - unat idx"
        using idx by (simp add: dr_def unat_sub word_le_nat_alt)
      have le: "unat dr \<le> unat n" using full add dr by (simp add: word_le_nat_alt)
      then have n: "unat n = unat dr + unat (n - dr)"
        by (simp add: unat_sub word_le_nat_alt)
      define s2 where "s2 = tempdata_copy data off dr s"
      define d where "d = (if idx = 0 then (\<lambda>k. data (off + k)) else YUV_tempdata (m_pvr s2))"
      define s1 where "s1 = (if idx = 0 then YUV_ConvertMacroBlock a (\<lambda>k. data (off + k)) s
        else let s2 = tempdata_copy data off dr s
             in m_pvr_update (YUV_index_update (\<lambda>_. 0)) (YUV_ConvertMacroBlock a (YUV_tempdata (m_pvr s2)) s2))"
      let ?q = "yuv_pending s @ data_bytes data off (32 * unat dr)"
      have lq: "length ?q = 384" using idx dr by (simp add: idx_def)
      have bytes: "yuv_bytes ?q (of_nat i) = d (of_nat i)" if i: "i < 384" for i
      proof (cases "idx = 0")
        case True
        then show ?thesis using i dr lq
          by (simp add: yuv_bytes_def d_def unat_of_nat_u32 yuv_pending_def idx_def data_nth)
      next
        case False
        have e: "32 * unat (YUV_index (m_pvr s)) + 32 * unat dr = 384"
          using idx dr by (simp add: idx_def)
        have "map (\<lambda>k. YUV_tempdata (m_pvr s2) (of_nat k)) [0..<384] = ?q"
          using pending_copy [of s dr data off] idx dr unfolding e s2_def by (simp add: idx_def)
        then have "?q ! i = YUV_tempdata (m_pvr s2) (of_nat i)"
          using i by (metis (no_types, lifting) add_0 diff_zero length_upt nth_map nth_upt)
        then show ?thesis using False i lq by (simp add: yuv_bytes_def d_def unat_of_nat_u32)
      qed
      have abs1: "yuv_abs s1 = ([], YUV_ConvertMacroBlock a d (yuv_rest s))"
        by (auto simp: yuv_abs_def s1_def d_def s2_def Let_def yuv_rest_convert yuv_pending_def idx_def)
      have "fold (yuv_accept a) (data_units data off (unat dr)) (yuv_abs s) =
          ([], YUV_ConvertMacroBlock a (yuv_bytes ?q) (yuv_rest s))"
        unfolding yuv_abs_def data_units_concat [symmetric]
        using idx dr by (intro accept_block) (auto simp: data_units_length data_units_def idx_def)
      also have "YUV_ConvertMacroBlock a (yuv_bytes ?q) (yuv_rest s) = YUV_ConvertMacroBlock a d (yuv_rest s)"
        using bytes 1(3) by (intro convert_cong) simp_all
      finally have first: "fold (yuv_accept a) (data_units data off (unat dr)) (yuv_abs s) = yuv_abs s1"
        by (simp add: abs1)
      have "YUV_index (m_pvr s1) = 0" "yuv_sized s1"
        using 1(3) by (simp_all add: s1_def Let_def idx_def)
      moreover have "unat (n - dr) + 12 < 2 ^ 32" using 1(4) n by linarith
      ultimately have "yuv_abs (YUV_data_loop a data (off + dr * 32) (n - dr) s1) =
          fold (yuv_accept a) (data_units data (off + dr * 32) (unat (n - dr))) (yuv_abs s1)"
        using 1(1) [OF n0 idx_def _ dr_def s1_def] full by simp
      moreover have "data_units data off (unat n) =
          data_units data off (unat dr) @ data_units data (off + dr * 32) (unat (n - dr))"
        unfolding n by (simp add: data_units_add mult.commute)
      moreover have "YUV_data_loop a data off n s = YUV_data_loop a data (off + dr * 32) (n - dr) s1"
        using n0 full by (subst YUV_data_loop.simps) (simp add: Let_def s1_def dr_def idx_def)
      ultimately show ?thesis by (simp add: first)
    next
      case part: False
      define s1 where "s1 = m_pvr_update (YUV_index_update (\<lambda>i. i + n)) (tempdata_copy data off n s)"
      have lt: "unat idx + unat n < 12" using part add by (simp add: word_le_nat_alt)
      have "yuv_pending s1 = yuv_pending s @ data_bytes data off (32 * unat n)"
        using pending_copy [of s n data off] lt add
        by (simp add: s1_def yuv_pending_def [of "m_pvr_update _ _"] idx_def distrib_left)
      then have "yuv_abs s1 = (yuv_pending s @ concat (data_units data off (unat n)), yuv_rest s)"
        by (simp add: yuv_abs_def s1_def data_units_concat)
      moreover have "fold (yuv_accept a) (data_units data off (unat n)) (yuv_abs s) =
          (yuv_pending s @ concat (data_units data off (unat n)), yuv_rest s)"
        unfolding yuv_abs_def using lt by (intro accept_short) (auto simp: data_units_length idx_def)
      moreover have "YUV_data_loop a data off n s = s1"
        using n0 part by (subst YUV_data_loop.simps) (simp add: Let_def s1_def idx_def)
      ultimately show ?thesis by simp
    qed
  qed
qed

definition yuv_wf :: "'d machine \<Rightarrow> bool" where
  "yuv_wf s \<longleftrightarrow> YUV_index (m_pvr s) < 12 \<and> yuv_sized s"

lemma yuv_wf_loop:
  "yuv_wf s \<Longrightarrow> unat n + 12 < 2 ^ 32 \<Longrightarrow> yuv_wf (YUV_data_loop a data off n s)"
proof (induction a data off n s rule: YUV_data_loop.induct)
  case (1 a data off n s)
  define idx where "idx = YUV_index (m_pvr s)"
  have idx: "unat idx < 12" using 1(2) by (simp add: idx_def yuv_wf_def word_less_nat_alt)
  have add: "unat (idx + n) = unat idx + unat n"
    using 1(3) idx by (intro unat_add_lem [THEN iffD1]) simp
  consider "n = 0" | "n \<noteq> 0" "12 \<le> idx + n" | "n \<noteq> 0" "\<not> 12 \<le> idx + n" by blast
  then show ?case
  proof cases
    case 1
    then show ?thesis using \<open>yuv_wf s\<close> by (subst YUV_data_loop.simps) simp
  next
    case 2
    have "unat (12 - idx) = 12 - unat idx" using idx by (simp add: unat_sub word_le_nat_alt)
    then have "unat (n - (12 - idx)) \<le> unat n"
      using 2(2) add by (simp add: unat_sub word_le_nat_alt)
    then show ?thesis
      using 1(1) [OF 2(1) idx_def 2(2) refl refl] 1(2,3) 2
      by (subst YUV_data_loop.simps) (auto simp: Let_def yuv_wf_def idx_def)
  next
    case 3
    then show ?thesis using 1(2)
      by (subst YUV_data_loop.simps) (simp add: Let_def yuv_wf_def idx_def add.commute)
  qed
qed

lemma PvrReg_set:
  assumes "x AND 0x7FFC = x" "y AND 0x7FFC = y"
  shows "PvrReg y (set_PvrReg x v s) = (if y = x then v else PvrReg y s)"
proof -
  have n: "z AND 0x7FFF = z" "z AND NOT 3 = z" if z: "z AND 0x7FFC = z" for z :: u32
  proof -
    have "(z AND 0x7FFC) AND 0x7FFF = z AND 0x7FFC" "(z AND 0x7FFC) AND NOT 3 = z AND 0x7FFC"
      by (simp_all add: and.assoc)
    then show "z AND 0x7FFF = z" "z AND NOT 3 = z" unfolding z .
  qed
  show ?thesis using ld32_st32_aligned [of x y v "pvr_regs (m_pvr s)"] n [OF assms(1)] n [OF assms(2)]
    by (simp add: PvrReg_def set_PvrReg_def)
qed

definition yuv_start :: "areas \<Rightarrow> 'd machine \<Rightarrow> 'd machine" where
  "yuv_start a s = (if YUV_blockcount (m_pvr s) = TA_YUV_TEX_CNT s then YUV_init a s else s)"

lemma YUV_init_simps [simp]:
  "TA_YUV_TEX_CTRL (YUV_init a s) = TA_YUV_TEX_CTRL s"
  "TA_YUV_TEX_CNT (YUV_init a s) = 0"
  "YUV_blockcount (m_pvr (YUV_init a s)) =
    (yuv_u_size (TA_YUV_TEX_CTRL s) + 1) * (yuv_v_size (TA_YUV_TEX_CTRL s) + 1)"
  "YUV_index (m_pvr (YUV_init a s)) = 0"
proof -
  have "PvrReg x (m_pvr_update (\<lambda>p. p\<lparr>YUV_x_curr := c, YUV_y_curr := y, YUV_dest := d\<rparr>) t) = PvrReg x t"
    "PvrReg x (m_pvr_update (\<lambda>p. p\<lparr>YUV_blockcount := b, YUV_x_size := c, YUV_y_size := y, YUV_index := d\<rparr>) t) =
      PvrReg x t" for x b c y d and t :: "'a machine"
    by (simp_all add: PvrReg_def)
  then show "TA_YUV_TEX_CTRL (YUV_init a s) = TA_YUV_TEX_CTRL s" "TA_YUV_TEX_CNT (YUV_init a s) = 0"
    "YUV_blockcount (m_pvr (YUV_init a s)) =
      (yuv_u_size (TA_YUV_TEX_CTRL s) + 1) * (yuv_v_size (TA_YUV_TEX_CTRL s) + 1)"
    by (simp_all add: YUV_init_def Let_def TA_YUV_TEX_CTRL_def TA_YUV_TEX_CNT_def PvrReg_set)
qed (simp add: YUV_init_def Let_def)

lemma yuv_wf_init: "yuv_wf (YUV_init a s)"
proof -
  have "16 \<le> (yuv_u_size x + 1) * 16 \<and> (yuv_u_size x + 1) * 16 \<le> 0x1000" for x
  proof -
    have "yuv_u_size x < 64" using fld_less [of 6 0 x] by (simp add: yuv_u_size_def)
    then have "unat (yuv_u_size x) < 64" by (simp add: word_less_nat_alt)
    then have "unat ((yuv_u_size x + 1) * 16) = (unat (yuv_u_size x) + 1) * 16"
      by (simp add: unat_word_ariths)
    with \<open>unat (yuv_u_size x) < 64\<close> show ?thesis by (simp add: word_le_nat_alt)
  qed
  then show ?thesis by (simp add: yuv_wf_def yuv_sized_def YUV_init_def Let_def)
qed

lemma yuv_data_call:
  assumes "yuv_wf s" and "YUV_blockcount (m_pvr s) \<noteq> 0" and "yuv_form (TA_YUV_TEX_CTRL s) = 0"
    and "n \<le> 0x8000000"
  shows "yuv_abs (YUV_data a data n s) =
      fold (yuv_accept a) (data_units data 0 (unat n)) (yuv_abs (yuv_start a s))"
    and "yuv_wf (YUV_data a data n s)"
proof -
  have w: "yuv_wf (yuv_start a s)" "yuv_form (TA_YUV_TEX_CTRL (yuv_start a s)) = 0"
    using assms(1,3) yuv_wf_init [of a s] by (simp_all add: yuv_start_def)
  have n: "unat n + 12 < 2 ^ 32" using assms(4) by (simp add: word_le_nat_alt)
  have "YUV_data a data n s = YUV_data_loop a data 0 n (yuv_start a s)"
    using assms(2) w(2) by (simp add: YUV_data_def yuv_start_def Let_def)
  then show "yuv_abs (YUV_data a data n s) =
      fold (yuv_accept a) (data_units data 0 (unat n)) (yuv_abs (yuv_start a s))"
    and "yuv_wf (YUV_data a data n s)"
    using yuv_loop_refine [OF _ _ n, of "yuv_start a s" a data 0] yuv_wf_loop [OF w(1) n] w(1)
    by (simp_all add: yuv_wf_def)
qed

text \<open>The registers of the converter through the specification.\<close>

lemma yuv_rest_regs [simp]:
  "YUV_blockcount (m_pvr (yuv_rest s)) = YUV_blockcount (m_pvr s)"
  "pvr_regs (m_pvr (yuv_rest s)) = pvr_regs (m_pvr s)"
  by (simp_all add: yuv_rest_def yuv_clear_def)

lemma convert_regs [simp]:
  "YUV_blockcount (m_pvr (YUV_ConvertMacroBlock a d s)) = YUV_blockcount (m_pvr s)"
  "TA_YUV_TEX_CTRL (YUV_ConvertMacroBlock a d s) = TA_YUV_TEX_CTRL s"
  "TA_YUV_TEX_CNT (YUV_ConvertMacroBlock a d s) = TA_YUV_TEX_CNT s + 1"
proof -
  have "PvrReg x (YUV_ConvertMacroBlock a d s) = PvrReg x (set_PvrReg TA_YUV_TEX_CNT_addr (TA_YUV_TEX_CNT s + 1) s)" for x
    by (simp add: YUV_ConvertMacroBlock_def Let_def PvrReg_def upd_block_def)
  then show "TA_YUV_TEX_CTRL (YUV_ConvertMacroBlock a d s) = TA_YUV_TEX_CTRL s"
    "TA_YUV_TEX_CNT (YUV_ConvertMacroBlock a d s) = TA_YUV_TEX_CNT s + 1"
    by (simp_all add: TA_YUV_TEX_CTRL_def TA_YUV_TEX_CNT_def PvrReg_set)
qed (simp add: YUV_ConvertMacroBlock_def Let_def set_PvrReg_def upd_block_def)

lemma accept_count:
  assumes "\<And>u. u \<in> set us \<Longrightarrow> length u = 32" "length q < 384" "32 dvd length q"
    and "fold (yuv_accept a) us (q, t) = (q', t')"
  shows "TA_YUV_TEX_CNT t' = TA_YUV_TEX_CNT t + of_nat ((length q + 32 * length us) div 384) \<and>
    TA_YUV_TEX_CTRL t' = TA_YUV_TEX_CTRL t \<and> YUV_blockcount (m_pvr t') = YUV_blockcount (m_pvr t) \<and>
    length q' = (length q + 32 * length us) mod 384"
  using assms
proof (induction us arbitrary: q t)
  case (Cons u us)
  have u: "length u = 32" "\<And>v. v \<in> set us \<Longrightarrow> length v = 32" using Cons.prems(1) by simp_all
  show ?case
  proof (cases "length q + 32 < 384")
    case True
    then show ?thesis
      using Cons.IH [OF u(2), of "q @ u" t] Cons.prems(3,4) u(1) by (simp add: yuv_accept_def algebra_simps)
  next
    case False
    obtain k where k: "length q = 32 * k" using Cons.prems(3) by (elim dvdE)
    then have "k < 12" "11 \<le> k" using False Cons.prems(2) by simp_all
    then have l: "length q = 352" using k by simp
    have d: "(384 + 32 * length us) div 384 = Suc (32 * length us div 384)"
      "(384 + 32 * length us) mod 384 = 32 * length us mod 384" by simp_all
    show ?thesis
      using Cons.IH [OF u(2), of "[]" "YUV_ConvertMacroBlock a (yuv_bytes (q @ u)) t"] Cons.prems(4) u(1) d
      by (simp add: yuv_accept_def l algebra_simps)
  qed
qed auto

text \<open>
  A frame: the converter as \<^verbatim>\<open>YUV_init\<close> leaves it and as it stays until all blocks of the frame are
  converted, and the bytes the frame still takes.
\<close>

definition yuv_ready :: "'d machine \<Rightarrow> bool" where
  "yuv_ready s \<longleftrightarrow> yuv_wf s \<and> yuv_form (TA_YUV_TEX_CTRL s) = 0 \<and>
     YUV_blockcount (m_pvr s) \<in> {1..0x1000} \<and> TA_YUV_TEX_CNT s \<le> YUV_blockcount (m_pvr s)"

definition yuv_left :: "'d machine \<Rightarrow> nat" where
  "yuv_left s = 384 * (unat (YUV_blockcount (m_pvr s)) - unat (TA_YUV_TEX_CNT s)) - length (yuv_pending s)"

lemma yuv_ready_init:
  assumes "yuv_form (TA_YUV_TEX_CTRL s) = 0"
  shows "yuv_ready (YUV_init a s)"
proof -
  have "(u + 1) * (v + 1) \<in> {1..0x1000}" if "u < 64" "v < 64" for u v :: u32
  proof -
    have "unat u < 64" "unat v < 64" using that by (simp_all add: word_less_nat_alt)
    moreover from this have "(unat u + 1) * (unat v + 1) \<le> 64 * 64" by (intro mult_le_mono) simp_all
    ultimately have "unat ((u + 1) * (v + 1)) = (unat u + 1) * (unat v + 1)"
      by (simp add: unat_word_ariths)
    then show ?thesis
      using \<open>(unat u + 1) * (unat v + 1) \<le> 64 * 64\<close> by (simp add: word_le_nat_alt)
  qed
  moreover have "yuv_u_size x < 64" "yuv_v_size x < 64" for x
    using fld_less [of 6 0 x] fld_less [of 6 8 x] by (simp_all add: yuv_u_size_def yuv_v_size_def)
  ultimately show ?thesis using assms by (simp add: yuv_ready_def yuv_wf_init)
qed

lemma yuv_left_0:
  assumes "yuv_ready s"
  shows "yuv_left s = 0 \<longleftrightarrow> TA_YUV_TEX_CNT s = YUV_blockcount (m_pvr s)"
proof -
  have "unat (TA_YUV_TEX_CNT s) \<le> unat (YUV_blockcount (m_pvr s))" "unat (YUV_index (m_pvr s)) < 12"
    using assms by (simp_all add: yuv_ready_def yuv_wf_def word_le_nat_alt word_less_nat_alt)
  then show ?thesis
    by (auto simp: yuv_left_def word_unat_eq_iff diff_is_0_eq)
qed

lemma yuv_start_left: "yuv_ready s \<Longrightarrow> 0 < yuv_left s \<Longrightarrow> yuv_start a s = s"
  using yuv_left_0 [of s] by (auto simp: yuv_start_def)

lemma yuv_ready_start: "yuv_ready s \<Longrightarrow> yuv_ready (yuv_start a s)"
  using yuv_ready_init [of s a] by (auto simp: yuv_start_def yuv_ready_def)

text \<open>One call that does not go past the end of the frame.\<close>

lemma yuv_call_count:
  fixes s :: "'d machine" and data :: "u32 \<Rightarrow> u8" and a :: areas
  assumes s: "yuv_ready s" and n: "32 * unat n \<le> yuv_left s" "0 < n"
  defines "t \<equiv> YUV_data a data n s" and "k \<equiv> (length (yuv_pending s) + 32 * unat n) div 384"
  shows "yuv_abs t = fold (yuv_accept a) (data_units data 0 (unat n)) (yuv_abs s)" "yuv_wf t"
    "length (yuv_pending s) + 32 * unat n = 384 * k + length (yuv_pending t)" "length (yuv_pending t) < 384"
    "YUV_blockcount (m_pvr t) = YUV_blockcount (m_pvr s)" "TA_YUV_TEX_CTRL t = TA_YUV_TEX_CTRL s"
    "TA_YUV_TEX_CNT t = TA_YUV_TEX_CNT s + of_nat k"
proof -
  let ?p = "length (yuv_pending s)"
  have wf: "yuv_wf s" "YUV_blockcount (m_pvr s) \<noteq> 0" "yuv_form (TA_YUV_TEX_CTRL s) = 0"
    "unat (YUV_blockcount (m_pvr s)) \<le> 0x1000"
    using s by (auto simp: yuv_ready_def word_le_nat_alt)
  have p: "?p < 384" "32 dvd ?p" using wf(1) by (simp_all add: yuv_wf_def word_less_nat_alt)
  have start: "yuv_start a s = s" using yuv_start_left [OF s] n by (simp add: word_less_nat_alt)
  have "yuv_left s \<le> 384 * 0x1000" using wf(4) by (simp add: yuv_left_def)
  then have "n \<le> 0x8000000" using n(1) by (simp add: word_le_nat_alt)
  note c = yuv_data_call [OF wf(1-3) this, of a data, folded t_def, unfolded start]
  show "yuv_abs t = fold (yuv_accept a) (data_units data 0 (unat n)) (yuv_abs s)" "yuv_wf t" by (fact c)+
  have "fold (yuv_accept a) (data_units data 0 (unat n)) (yuv_pending s, yuv_rest s) = (yuv_pending t, yuv_rest t)"
    using c(1) by (simp add: yuv_abs_def)
  note q = accept_count [OF data_units_length p this]
  then show "?p + 32 * unat n = 384 * k + length (yuv_pending t)" "length (yuv_pending t) < 384"
    by (simp_all add: k_def)
  show "YUV_blockcount (m_pvr t) = YUV_blockcount (m_pvr s)" "TA_YUV_TEX_CTRL t = TA_YUV_TEX_CTRL s"
    "TA_YUV_TEX_CNT t = TA_YUV_TEX_CNT s + of_nat k"
    using q by (simp_all add: k_def TA_YUV_TEX_CTRL_def TA_YUV_TEX_CNT_def PvrReg_def)
qed

lemma yuv_call_in_frame:
  fixes s :: "'d machine" and data :: "u32 \<Rightarrow> u8" and a :: areas
  assumes s: "yuv_ready s" and n: "32 * unat n \<le> yuv_left s" "0 < n"
  defines "t \<equiv> YUV_data a data n s"
  shows "yuv_abs t = fold (yuv_accept a) (data_units data 0 (unat n)) (yuv_abs s)" "yuv_ready t"
    "yuv_left t = yuv_left s - 32 * unat n" "yuv_left t = 0 \<Longrightarrow> yuv_pending t = []"
proof -
  let ?B = "YUV_blockcount (m_pvr s)" and ?C = "TA_YUV_TEX_CNT s" and ?p = "length (yuv_pending s)"
  let ?k = "(?p + 32 * unat n) div 384"
  note c = yuv_call_count [OF s n, of a data, folded t_def]
  show "yuv_abs t = fold (yuv_accept a) (data_units data 0 (unat n)) (yuv_abs s)" by (rule c(1))
  have wf: "unat ?C \<le> unat ?B" "unat ?B \<le> 0x1000" using s by (auto simp: yuv_ready_def word_le_nat_alt)
  have pos: "0 < yuv_left s" using n by (simp add: word_less_nat_alt)
  then have "?p + 32 * unat n \<le> 384 * (unat ?B - unat ?C)" using n(1) by (simp add: yuv_left_def)
  then have "?k \<le> (384 * (unat ?B - unat ?C)) div 384" by (rule div_le_mono)
  then have kb: "?k \<le> unat ?B - unat ?C" by simp
  have C: "unat (TA_YUV_TEX_CNT t) = unat ?C + ?k"
  proof -
    have "?C + of_nat ?k = of_nat (unat ?C + ?k)" by simp
    moreover have "unat ?C + ?k \<le> 0x1000" using kb wf by linarith
    then have "unat ?C + ?k < 2 ^ 32" by simp
    ultimately show ?thesis unfolding c(7) by (metis unat_of_nat_u32)
  qed
  show "yuv_ready t"
    using s c(2) C kb wf(1) by (auto simp: yuv_ready_def c(5,6) word_le_nat_alt)
  show left: "yuv_left t = yuv_left s - 32 * unat n"
  proof -
    have "yuv_left t = 384 * (unat ?B - (unat ?C + ?k)) - length (yuv_pending t)"
      unfolding yuv_left_def C c(5) ..
    also have "\<dots> = 384 * (unat ?B - unat ?C) - (384 * ?k + length (yuv_pending t))"
      by (simp only: diff_diff_left [symmetric] diff_mult_distrib2)
    also have "\<dots> = yuv_left s - 32 * unat n"
      unfolding c(3) [symmetric] yuv_left_def by (simp only: diff_diff_left)
    finally show ?thesis .
  qed
  assume "yuv_left t = 0"
  then have "?p + 32 * unat n = 384 * (unat ?B - unat ?C)"
    using n(1) pos unfolding left by (simp add: yuv_left_def)
  then have "length (yuv_pending t) = 0" using c(3,4) by simp
  then show "yuv_pending t = []" by blast
qed

definition YUV_calls :: "areas \<Rightarrow> ((u32 \<Rightarrow> u8) \<times> u32) list \<Rightarrow> 'd machine \<Rightarrow> 'd machine" where
  "YUV_calls a = fold (\<lambda>(data, n). YUV_data a data n)"

definition calls_units :: "((u32 \<Rightarrow> u8) \<times> u32) list \<Rightarrow> u8 list list" where
  "calls_units cs = concat (map (\<lambda>(data, n). data_units data 0 (unat n)) cs)"

lemma yuv_calls_in_frame:
  assumes "yuv_ready s" "\<And>c. c \<in> set cs \<Longrightarrow> 0 < snd c" "32 * length (calls_units cs) \<le> yuv_left s"
  shows "yuv_abs (YUV_calls a cs s) = fold (yuv_accept a) (calls_units cs) (yuv_abs s)"
    "yuv_ready (YUV_calls a cs s)" "yuv_left (YUV_calls a cs s) = yuv_left s - 32 * length (calls_units cs)"
    "cs \<noteq> [] \<Longrightarrow> yuv_left (YUV_calls a cs s) = 0 \<Longrightarrow> yuv_pending (YUV_calls a cs s) = []"
proof -
  have "yuv_abs (YUV_calls a cs s) = fold (yuv_accept a) (calls_units cs) (yuv_abs s) \<and>
    yuv_ready (YUV_calls a cs s) \<and> yuv_left (YUV_calls a cs s) = yuv_left s - 32 * length (calls_units cs) \<and>
    (cs \<noteq> [] \<longrightarrow> yuv_left (YUV_calls a cs s) = 0 \<longrightarrow> yuv_pending (YUV_calls a cs s) = [])"
    using assms
  proof (induction cs arbitrary: s)
    case (Cons c cs)
    obtain data n where c: "c = (data, n)" by fastforce
    have u: "calls_units (c # cs) = data_units data 0 (unat n) @ calls_units cs" by (simp add: calls_units_def c)
    have "32 * unat n \<le> yuv_left s" "0 < n" using Cons.prems(2) [of c] Cons.prems(3) [unfolded u] by (simp_all add: c)
    note t = yuv_call_in_frame [OF Cons.prems(1) this, of a data]
    have "32 * length (calls_units cs) \<le> yuv_left (YUV_data a data n s)"
      using Cons.prems(3) by (simp add: u t(3))
    from Cons.IH [OF t(2) _ this] Cons.prems(2) show ?case
      using t(4) by (cases cs) (simp_all add: YUV_calls_def c u t(1,3) calls_units_def)
  qed (simp add: YUV_calls_def calls_units_def)
  then show "yuv_abs (YUV_calls a cs s) = fold (yuv_accept a) (calls_units cs) (yuv_abs s)"
    "yuv_ready (YUV_calls a cs s)" "yuv_left (YUV_calls a cs s) = yuv_left s - 32 * length (calls_units cs)"
    "cs \<noteq> [] \<Longrightarrow> yuv_left (YUV_calls a cs s) = 0 \<Longrightarrow> yuv_pending (YUV_calls a cs s) = []" by blast+
qed

text \<open>C33: Within a frame the YUV converter is a queue. Take a converter that has been started, and any
  sequence of non-empty calls that together give it no more than the rest of its frame, or, if the
  last frame is complete, than the frame the first call starts. However the data is cut into
  calls, each unit of 32 bytes is appended to the bytes that wait, and every 384 bytes are
  converted as one macro block, in order; nothing is lost or converted twice, what the frame
  still takes shrinks by the bytes given, and when it has got them all it is complete and no
  byte waits. Past that the code promises nothing: units behind the end of a frame in the same call are dropped
  by the next one, or run on into blocks beyond the frame.\<close>
theorem yuv_data_queue:
  assumes "yuv_ready s" and "cs \<noteq> []" and "\<And>c. c \<in> set cs \<Longrightarrow> 0 < snd c"
    and "32 * length (calls_units cs) \<le> yuv_left (yuv_start a s)"
  shows "yuv_abs (YUV_calls a cs s) = fold (yuv_accept a) (calls_units cs) (yuv_abs (yuv_start a s)) \<and>
    yuv_ready (YUV_calls a cs s) \<and>
    yuv_left (YUV_calls a cs s) = yuv_left (yuv_start a s) - 32 * length (calls_units cs) \<and>
    (TA_YUV_TEX_CNT (YUV_calls a cs s) = YUV_blockcount (m_pvr (YUV_calls a cs s)) \<longleftrightarrow>
      yuv_left (YUV_calls a cs s) = 0) \<and>
    (yuv_left (YUV_calls a cs s) = 0 \<longrightarrow> yuv_pending (YUV_calls a cs s) = [])"
proof -
  note st = yuv_ready_start [OF assms(1), of a]
  obtain data n cs' where cs: "cs = (data, n) # cs'" using assms(2) by (metis neq_Nil_conv surj_pair)
  have "YUV_data a data n (yuv_start a s) = YUV_data a data n s"
    using assms(1) st by (auto simp: YUV_data_def yuv_start_def yuv_ready_def Let_def)
  then have e: "YUV_calls a cs (yuv_start a s) = YUV_calls a cs s" by (simp add: YUV_calls_def cs)
  note c = yuv_calls_in_frame [OF st assms(3,4), of a, unfolded e]
  show ?thesis using c assms(2) yuv_left_0 [OF c(2)] by simp
qed

text \<open>Two calls at the start of a frame of four macro blocks.\<close>

theorem yuv_data_queue_witness:
  "(let s = YUV_init dreamcast_areas (set_PvrReg 0x14C 0x101 (zero_machine ()));
        t = YUV_calls dreamcast_areas [(\<lambda>k. 7, 3), (\<lambda>k. 8, 2)] s
    in fst (yuv_abs t) = replicate 96 7 @ replicate 64 8 \<and> yuv_left t = 4 * 384 - 160)"
proof -
  let ?s = "YUV_init dreamcast_areas (set_PvrReg 0x14C 0x101 (zero_machine ()))"
  let ?cs = "[(\<lambda>k. 7, 3), (\<lambda>k. 8, 2)] :: ((u32 \<Rightarrow> u8) \<times> u32) list"
  have c: "TA_YUV_TEX_CTRL (set_PvrReg 0x14C 0x101 (zero_machine ())) = 0x101"
    by (simp add: TA_YUV_TEX_CTRL_def PvrReg_set)
  have r: "yuv_ready ?s" by (rule yuv_ready_init) (simp add: c yuv_form_def fld_def)
  have b: "YUV_blockcount (m_pvr ?s) = 4"
    by (simp add: c yuv_u_size_def yuv_v_size_def fld_def take_bit_eq_mask mask_eq_exp_minus_1 drop_bit_eq_div)
  have p: "yuv_pending ?s = []" "yuv_left ?s = 4 * 384" by (simp_all add: yuv_pending_def yuv_left_def b del: YUV_init_simps(3))
  have st: "yuv_start dreamcast_areas ?s = ?s" using yuv_start_left [OF r] p by simp
  have u: "concat (calls_units ?cs) = replicate 96 7 @ replicate 64 8" "length (calls_units ?cs) = 5"
    by (simp_all add: calls_units_def data_units_concat data_bytes_def map_replicate_const)
  have "32 * length (calls_units ?cs) \<le> yuv_left (yuv_start dreamcast_areas ?s)" unfolding u st p by simp
  moreover have "0 < snd c" if "c \<in> set ?cs" for c using that by auto
  ultimately have q: "yuv_abs (YUV_calls dreamcast_areas ?cs ?s) =
      fold (yuv_accept dreamcast_areas) (calls_units ?cs) ([], yuv_rest ?s) \<and>
    yuv_left (YUV_calls dreamcast_areas ?cs ?s) = 4 * 384 - 160"
    using yuv_data_queue [OF r, of ?cs dreamcast_areas] by (simp add: u st p yuv_abs_def)
  have "fold (yuv_accept dreamcast_areas) (calls_units ?cs) ([], yuv_rest ?s) = (concat (calls_units ?cs), yuv_rest ?s)"
  proof -
    have "length v = 32" if "v \<in> set (calls_units ?cs)" for v
      using that by (auto simp: calls_units_def data_units_length)
    then show ?thesis using u(2) accept_short [of "calls_units ?cs" "[]"] by simp
  qed
  with q show ?thesis by (simp add: Let_def u(1))
qed

text \<open>
  The destination of a macro block is checked against nothing: a texture base near the end of
  video memory makes the converter write behind it.
\<close>

lemma yuv_writes_past_vram:
  "\<exists>(s :: unit machine) d p. VRAM_MASK dreamcast_areas < p \<and>
    YUV_dest (m_pvr s) \<le> VRAM_MASK dreamcast_areas \<and> yuv_wf s \<and>
    vram dreamcast_areas (YUV_ConvertMacroBlock dreamcast_areas d s) p \<noteq> vram dreamcast_areas s p"
proof -
  let ?s = "m_pvr_update (\<lambda>p. p\<lparr>YUV_x_size := 16, YUV_dest := 0x7FFFF8\<rparr>) (zero_machine ())"
  have z: "YUV_x_size (m_pvr ?s) = 16" "YUV_dest (m_pvr ?s) = 0x7FFFF8" "YUV_index (m_pvr ?s) = 0"
    by (simp_all add: zero_machine_def)
  have 1: "YUV_dest (m_pvr ?s) \<le> VRAM_MASK dreamcast_areas" "yuv_wf ?s"
    "VRAM_MASK dreamcast_areas < (0x800000 :: u32)"
    by (simp_all add: z yuv_wf_def yuv_sized_def dreamcast_areas_def zero_machine_def)
  have "vram dreamcast_areas (YUV_ConvertMacroBlock dreamcast_areas (\<lambda>k. 1) ?s) 0x800000 = 1"
    using yuv_macroblock_layout [of ?s 4 0 dreamcast_areas "\<lambda>k. 1"] by (simp add: z Let_def)
  moreover have "vram dreamcast_areas ?s 0x800000 = 0" by (simp add: vram_def zero_machine_def)
  ultimately have "vram dreamcast_areas (YUV_ConvertMacroBlock dreamcast_areas (\<lambda>k. 1) ?s) 0x800000 \<noteq>
      vram dreamcast_areas ?s 0x800000" by simp
  with 1 show ?thesis by blast
qed

section \<open>The processor and the graphics chip\<close>

text \<open>The converter reaches the processor only through its interrupt.\<close>

lemma memcpy_ctx [simp]: "m_ctx (memcpy b d src off n s) = m_ctx s"
  by (simp add: memcpy_def upd_block_def)

lemma vram_ctx:
  "m_ctx (pvr_write32p8 a i x v8 s) = m_ctx s" "m_ctx (pvr_write32p16 a x v16 s) = m_ctx s"
  "m_ctx (pvr_write32p32 a x v32 s) = m_ctx s"
  by (simp_all add: pvr_write32p8_def pvr_write32p16_def pvr_write32p32_def fb_watch_def Let_def upd_block_def)

lemma InterruptPend_regs: "regs_of (m_ctx (InterruptPend k v s)) = regs_of (m_ctx s)"
  by (simp add: InterruptPend_def SetInterruptPend_def ResetInterruptPend_def recalc_pending_itrs_def
      on_ctx_def regs_of_def)

lemma asic_regs: "regs_of (m_ctx (asic_RaiseInterrupt e s)) = regs_of (m_ctx s)"
  by (simp add: asic_RaiseInterrupt_def Let_def asic_RLPending_def RLPending_conv InterruptPend_regs)

text \<open>An assertion that the converter keeps: memory, its own state and its event do not matter.\<close>

definition yuv_frame :: "('d machine \<Rightarrow> bool) \<Rightarrow> bool" where
  "yuv_frame I \<longleftrightarrow> (\<forall>f s. I s \<longrightarrow> I (m_pvr_update f s)) \<and> (\<forall>b f s. I s \<longrightarrow> I (upd_block b f s)) \<and>
     (\<forall>s. I s \<longrightarrow> I (asic_RaiseInterrupt holly_YUV_DMA s))"

lemma YUV_data_loop_keeps:
  assumes I: "yuv_frame I"
  shows "I s \<Longrightarrow> I (YUV_data_loop a data off n s)"
proof (induction a data off n s rule: YUV_data_loop.induct)
  case (1 a data off n s)
  have c: "I (YUV_ConvertMacroBlock a d t)" if "I t" for d t
    using I that by (simp add: YUV_ConvertMacroBlock_def Let_def yuv_frame_def set_PvrReg_def)
  have t: "I (tempdata_copy data off k t)" if "I t" for k t
    using I that by (simp add: tempdata_copy_def yuv_frame_def)
  have i: "I (m_pvr_update g t)" if "I t" for g t using I that by (simp add: yuv_frame_def)
  show ?case
    using 1 c t i by (subst YUV_data_loop.simps) (simp add: Let_def)
qed

lemma YUV_data_keeps:
  assumes I: "yuv_frame I" and s: "I s"
  shows "I (YUV_data a data n s)"
proof -
  have "I (YUV_init a s)"
    using I s by (simp add: YUV_init_def Let_def yuv_frame_def set_PvrReg_def)
  then show ?thesis
    using s YUV_data_loop_keeps [OF I] by (simp add: YUV_data_def Let_def)
qed

lemma YUV_data_regs: "regs_of (m_ctx (YUV_data a data n s)) = regs_of (m_ctx s)"
proof -
  have "yuv_frame (\<lambda>t :: 'a machine. regs_of (m_ctx t) = regs_of (m_ctx s))"
    by (simp add: yuv_frame_def upd_block_def asic_regs)
  then show ?thesis by (rule YUV_data_keeps) simp
qed

end
