(* ===== verification/Sh4_Sched.thy ===== *)
theory Sh4_Sched
  imports Sh4_Exceptions
begin

text \<open>
  The scheduler of timed callbacks, \<^verbatim>\<open>hw/sh4/sh4_sched.cpp\<close>, and \<^verbatim>\<open>UpdateSystem_INTC\<close> of the
  interpreter, which advances it by one time slice. Time is the 64-bit word
  \<open>sh4_sched_ffb - sh4_sched_next\<close>; the times in the list are its lower 32 bits. A callback is
  a function of the environment. The source walks the list by reference while callbacks may
  register or remove entries; the model walks the indices of the list as it was.
\<close>

abbreviation (input) "SH4_TIMESLICE \<equiv> (448 :: u32)"
abbreviation (input) "SH4_MAIN_CLOCK \<equiv> (200000000 :: u32)"
abbreviation (input) "sched_none \<equiv> (0xFFFFFFFF :: u32)"

section \<open>The operations\<close>

definition sh4_sched_now64 :: "'d machine \<Rightarrow> u64" where
  "sh4_sched_now64 s = sh4_sched_ffb (m_sched s) - scast (ctx_sh4_sched_next (m_ctx s))"

definition sh4_sched_now :: "'d machine \<Rightarrow> u32" where
  "sh4_sched_now s = ucast (sh4_sched_ffb (m_sched s) - scast (ctx_sh4_sched_next (m_ctx s)))"

definition sh4_sched_remaining :: "sched_list \<Rightarrow> u32 \<Rightarrow> u32" where
  "sh4_sched_remaining sched reference =
     (if sched_end sched \<noteq> sched_none then sched_end sched - reference else sched_none)"

text \<open>The search of \<^verbatim>\<open>sh4_sched_ffts\<close>: \<open>slot\<close> and \<open>diff\<close> after the entries from index \<open>i\<close>.\<close>

fun ffts_scan :: "u32 \<Rightarrow> nat \<Rightarrow> sched_list list \<Rightarrow> int \<times> u32 \<Rightarrow> int \<times> u32" where
  "ffts_scan now i [] best = best"
| "ffts_scan now i (e # es) (slot, diff) =
     (let remaining = sh4_sched_remaining e now
      in ffts_scan now (Suc i) es (if remaining < diff then (int i, remaining) else (slot, diff)))"

definition sh4_sched_ffts :: "'d machine \<Rightarrow> 'd machine" where
  "sh4_sched_ffts s =
    (let (slot, diff) = ffts_scan (sh4_sched_now s) 0 (sch_list (m_sched s)) (-1, sched_none);
         next' = (if slot \<noteq> -1 then diff else SH4_MAIN_CLOCK);
         ffb = sh4_sched_ffb (m_sched s) - scast (ctx_sh4_sched_next (m_ctx s)) + scast next'
     in on_ctx (ctx_sh4_sched_next_update (\<lambda>_. next'))
          (m_sched_update (\<lambda>c. c\<lparr>sh4_sched_ffb := ffb, sh4_sched_next_id := slot\<rparr>) s))"

definition upd_sched :: "nat \<Rightarrow> (sched_list \<Rightarrow> sched_list) \<Rightarrow> 'd machine \<Rightarrow> 'd machine" where
  "upd_sched i f = m_sched_update (sch_list_update (\<lambda>l. l[i := f (l ! i)]))"

fun first_free :: "nat \<Rightarrow> sched_list list \<Rightarrow> nat option" where
  "first_free i [] = None"
| "first_free i (e # es) = (if sched_cb e = None then Some i else first_free (Suc i) es)"

definition sh4_sched_register :: "u32 \<Rightarrow> nat option \<Rightarrow> nat \<Rightarrow> 'd machine \<Rightarrow> nat \<times> 'd machine" where
  "sh4_sched_register tag ssc arg s =
    (let t = \<lparr>sched_cb = ssc, sched_arg = arg, sched_tag = tag, sched_start = sched_none,
           sched_end = sched_none\<rparr>
     in case first_free 0 (sch_list (m_sched s)) of
          Some i \<Rightarrow> (i, upd_sched i (\<lambda>_. t) s)
        | None \<Rightarrow> (length (sch_list (m_sched s)), m_sched_update (sch_list_update (\<lambda>l. l @ [t])) s))"

definition sh4_sched_unregister :: "int \<Rightarrow> ('d, unit) SM" where
  "sh4_sched_unregister i s =
    (let n = int (length (sch_list (m_sched s)))
     in if i = -1 then Ret () s
        else if \<not> i < n then Throw (Die ''verify'') s
        else Ret () (sh4_sched_ffts (if i = n - 1
          then m_sched_update (sch_list_update butlast) s
          else upd_sched (nat i) (\<lambda>e. e\<lparr>sched_cb := None, sched_end := sched_none\<rparr>) s)))"

definition request_entry :: "u32 \<Rightarrow> u32 \<Rightarrow> sched_list \<Rightarrow> sched_list" where
  "request_entry now cycles e =
    (let end1 = (if cycles = sched_none then sched_none
           else if now + cycles = sched_none then now + cycles + 1 else now + cycles)
     in e\<lparr>sched_start := now, sched_end := end1\<rparr>)"

definition sh4_sched_request :: "nat \<Rightarrow> u32 \<Rightarrow> ('d, unit) SM" where
  "sh4_sched_request i cycles s =
    (if cycles = sched_none \<or> 0 \<le> sint cycles \<and> sint cycles \<le> sint SH4_MAIN_CLOCK
     then Ret () (sh4_sched_ffts (upd_sched i (request_entry (sh4_sched_now s) cycles) s))
     else Throw (Die ''verify'') s)"

definition sh4_sched_is_scheduled :: "nat \<Rightarrow> 'd machine \<Rightarrow> bool" where
  "sh4_sched_is_scheduled i s \<longleftrightarrow> sched_end (sch_list (m_sched s) ! i) \<noteq> sched_none"

definition sh4_sched_elapsed :: "nat \<Rightarrow> 'd machine \<Rightarrow> u32 \<times> 'd machine" where
  "sh4_sched_elapsed i s =
    (let e = sch_list (m_sched s) ! i; now = sh4_sched_now s
     in if sched_end e \<noteq> sched_none
        then (now - sched_start e, upd_sched i (sched_start_update (\<lambda>_. now)) s)
        else (sched_none, s))"

definition handle_cb :: "'d env \<Rightarrow> nat \<Rightarrow> ('d, unit) SM" where
  "handle_cb E i s =
    (let e = sch_list (m_sched s) ! i;
         remain = sched_end e - sched_start e;
         (elapsd, s1) = sh4_sched_elapsed i s;
         jitter = elapsd - remain;
         s2 = upd_sched i (sched_end_update (\<lambda>_. sched_none)) s1;
         (re_sch, s3) = e_sched_cb E (the (sched_cb e)) (sched_tag e) remain jitter (sched_arg e) s2
     in if 0 < sint re_sch
        then sh4_sched_request i (if sint (re_sch - jitter) < 0 then 0 else re_sch - jitter) s3
        else Ret () s3)"

fun tick_loop :: "'d env \<Rightarrow> u32 \<Rightarrow> u32 \<Rightarrow> nat list \<Rightarrow> ('d, unit) SM" where
  "tick_loop E fztime cycles [] s = Ret () s"
| "tick_loop E fztime cycles (i # is) s =
    (let remaining = sh4_sched_remaining (sch_list (m_sched s) ! i) fztime
     in if i < length (sch_list (m_sched s)) \<and> 0 \<le> sint remaining \<and> sint remaining \<le> sint cycles
        then bindM (handle_cb E i) (\<lambda>_. tick_loop E fztime cycles is) s
        else tick_loop E fztime cycles is s)"

definition sh4_sched_tick :: "'d env \<Rightarrow> u32 \<Rightarrow> ('d, unit) SM" where
  "sh4_sched_tick E cycles s =
    (if 0 \<le> sint (ctx_sh4_sched_next (m_ctx s)) then Ret () s
     else let fztime = sh4_sched_now s - cycles
       in bindM (if sh4_sched_next_id (m_sched s) \<noteq> -1
                 then tick_loop E fztime cycles [0..<length (sch_list (m_sched s))] else returnM ())
            (\<lambda>_. modifyM sh4_sched_ffts) s)"

definition sh4_sched_reset :: "bool \<Rightarrow> 'd machine \<Rightarrow> 'd machine" where
  "sh4_sched_reset hard s =
    (if hard then on_ctx (ctx_sh4_sched_next_update (\<lambda>_. 0))
       (m_sched_update (\<lambda>c. c\<lparr>sh4_sched_ffb := 0, sh4_sched_next_id := -1,
          sch_list := map (\<lambda>e. e\<lparr>sched_start := sched_none, sched_end := sched_none\<rparr>) (sch_list c)\<rparr>) s)
     else s)"

text \<open>\<^verbatim>\<open>UpdateSystem_INTC\<close> of \<^verbatim>\<open>sh4_interpreter.cpp\<close>.\<close>

definition UpdateSystem_INTC :: "'d env \<Rightarrow> ('d, int) SM" where
  "UpdateSystem_INTC E s =
    (let s1 = on_ctx (ctx_sh4_sched_next_update (\<lambda>n. n - SH4_TIMESLICE)) s
     in bindM (if sint (ctx_sh4_sched_next (m_ctx s1)) < 0 then sh4_sched_tick E SH4_TIMESLICE else returnM ())
          (\<lambda>_ s2. if ctx_interrupt_pend (m_ctx s2) \<noteq> 0 then liftM UpdateINTC s2 else Ret 0 s2) s1)"

section \<open>Time\<close>

lemma sh4_sched_now_now64: "sh4_sched_now s = ucast (sh4_sched_now64 s)"
  by (simp add: sh4_sched_now_def sh4_sched_now64_def)

lemma now64_ffts [simp]: "sh4_sched_now64 (sh4_sched_ffts s) = sh4_sched_now64 s"
  by (simp add: sh4_sched_ffts_def sh4_sched_now64_def split: prod.split)

lemma now_ffts [simp]: "sh4_sched_now (sh4_sched_ffts s) = sh4_sched_now s"
  by (simp add: sh4_sched_now_now64)

lemma now64_upd_sched [simp]: "sh4_sched_now64 (upd_sched i f s) = sh4_sched_now64 s"
  by (simp add: sh4_sched_now64_def upd_sched_def)

lemma sch_list_ffts [simp]: "sch_list (m_sched (sh4_sched_ffts s)) = sch_list (m_sched s)"
  by (simp add: sh4_sched_ffts_def split: prod.split)

lemma sch_list_upd [simp]:
  "sch_list (m_sched (upd_sched i f s)) = (sch_list (m_sched s))[i := f (sch_list (m_sched s) ! i)]"
  by (simp add: upd_sched_def)

section \<open>The next event\<close>

text \<open>The times to go of all entries, an unscheduled one counting as \<open>0xFFFFFFFF\<close>.\<close>

definition times_to_go :: "'d machine \<Rightarrow> u32 list" where
  "times_to_go s = map (\<lambda>e. sh4_sched_remaining e (sh4_sched_now s)) (sch_list (m_sched s))"

lemma ffts_scan_spec:
  "ffts_scan now i es (slot, diff) = (slot', diff') \<Longrightarrow>
     (\<forall>e\<in>set es. diff' \<le> sh4_sched_remaining e now) \<and> diff' \<le> diff \<and>
     ((slot', diff') = (slot, diff) \<or>
      (\<exists>k<length es. slot' = int (i + k) \<and> diff' = sh4_sched_remaining (es ! k) now \<and> diff' < diff))"
proof (induction es arbitrary: i slot diff)
  case Nil
  then show ?case by simp
next
  case (Cons e es)
  let ?r = "sh4_sched_remaining e now"
  show ?case
  proof (cases "?r < diff")
    case True
    with Cons.prems have "ffts_scan now (Suc i) es (int i, ?r) = (slot', diff')" by (simp add: Let_def)
    note IH = Cons.IH [OF this]
    then consider "(slot', diff') = (int i, ?r)" | k where "k < length es"
      "slot' = int (Suc i + k)" "diff' = sh4_sched_remaining (es ! k) now" "diff' < ?r" by blast
    then have "\<exists>k<length (e # es). slot' = int (i + k) \<and>
        diff' = sh4_sched_remaining ((e # es) ! k) now \<and> diff' < diff"
    proof cases
      case 1
      then show ?thesis using True by (intro exI [of _ 0]) simp
    next
      case (2 k)
      then show ?thesis using True by (intro exI [of _ "Suc k"]) auto
    qed
    with IH True show ?thesis by auto
  next
    case False
    with Cons.prems have "ffts_scan now (Suc i) es (slot, diff) = (slot', diff')" by (simp add: Let_def)
    note IH = Cons.IH [OF this]
    then consider "(slot', diff') = (slot, diff)" | k where "k < length es"
      "slot' = int (Suc i + k)" "diff' = sh4_sched_remaining (es ! k) now" "diff' < diff" by blast
    then have "(slot', diff') = (slot, diff) \<or> (\<exists>k<length (e # es). slot' = int (i + k) \<and>
        diff' = sh4_sched_remaining ((e # es) ! k) now \<and> diff' < diff)"
    proof cases
      case (2 k)
      then show ?thesis by (intro disjI2 exI [of _ "Suc k"]) auto
    qed simp
    with IH False show ?thesis by auto
  qed
qed

lemma ffts_next:
  "ctx_sh4_sched_next (m_ctx (sh4_sched_ffts s)) =
     (let (slot, diff) = ffts_scan (sh4_sched_now s) 0 (sch_list (m_sched s)) (-1, sched_none)
      in if slot \<noteq> -1 then diff else SH4_MAIN_CLOCK)"
  "sh4_sched_next_id (m_sched (sh4_sched_ffts s)) =
     fst (ffts_scan (sh4_sched_now s) 0 (sch_list (m_sched s)) (-1, sched_none))"
  by (simp_all add: sh4_sched_ffts_def split: prod.split)

lemma times_to_go_ffts [simp]: "times_to_go (sh4_sched_ffts s) = times_to_go s"
  by (simp add: times_to_go_def)

lemma word_le_max: "(x :: u32) \<le> sched_none"
  using unsigned_less [of x, where 'a = nat] by (simp add: word_le_nat_alt)

lemma ffts_earliest:
  fixes s :: "'d machine"
  defines "n \<equiv> ctx_sh4_sched_next (m_ctx (sh4_sched_ffts s))"
    and "k \<equiv> sh4_sched_next_id (m_sched (sh4_sched_ffts s))"
  shows "if \<forall>t\<in>set (times_to_go s). t = sched_none then k = -1 \<and> n = SH4_MAIN_CLOCK
    else 0 \<le> k \<and> nat k < length (times_to_go s) \<and> n = times_to_go s ! nat k \<and>
      (\<forall>t\<in>set (times_to_go s). n \<le> t)"
proof -
  let ?now = "sh4_sched_now s" and ?es = "sch_list (m_sched s)"
  obtain slot diff where sd: "ffts_scan ?now 0 ?es (-1, sched_none) = (slot, diff)" by fastforce
  note spec = ffts_scan_spec [OF sd]
  have n: "n = (if slot \<noteq> -1 then diff else SH4_MAIN_CLOCK)" "k = slot"
    by (simp_all add: n_def k_def ffts_next sd)
  consider "slot = -1" "diff = sched_none" | j where "j < length ?es" "slot = int j"
    "diff = sh4_sched_remaining (?es ! j) ?now" "diff < sched_none"
    using spec by auto
  then show ?thesis
  proof cases
    case 1
    then have "\<forall>t\<in>set (times_to_go s). t = sched_none"
      using spec word_le_max by (auto simp: times_to_go_def intro: antisym)
    with n 1 show ?thesis by simp
  next
    case (2 j)
    then have "times_to_go s ! j \<noteq> sched_none" "times_to_go s ! j \<in> set (times_to_go s)"
      by (simp_all add: times_to_go_def)
    then have "\<not> (\<forall>t\<in>set (times_to_go s). t = sched_none)" by blast
    with n 2 spec show ?thesis by (auto simp: times_to_go_def)
  qed
qed

lemma request_valid:
  assumes "cycles = sched_none \<or> 0 \<le> sint cycles \<and> sint cycles \<le> sint SH4_MAIN_CLOCK"
  shows "sh4_sched_request i cycles s =
    Ret () (sh4_sched_ffts (upd_sched i (request_entry (sh4_sched_now s) cycles) s))"
  using assms by (simp only: sh4_sched_request_def if_True simp_thms)

lemma now64_callbacks:
  assumes cb: "\<And>n t r j a (s :: 'd machine). sh4_sched_now64 (snd (e_sched_cb E n t r j a s)) = sh4_sched_now64 s"
  shows "sh4_sched_now64 (state_of (handle_cb E i s)) = sh4_sched_now64 s"
    and "sh4_sched_now64 (state_of (tick_loop E f c js s)) = sh4_sched_now64 s"
proof -
  have req: "sh4_sched_now64 (state_of (sh4_sched_request i c s)) = sh4_sched_now64 s" for i c and s :: "'d machine"
    by (simp add: sh4_sched_request_def)
  have ela: "sh4_sched_now64 (snd (sh4_sched_elapsed i s)) = sh4_sched_now64 s" for i and s :: "'d machine"
    by (simp add: sh4_sched_elapsed_def Let_def)
  have h: "sh4_sched_now64 (state_of (handle_cb E i s)) = sh4_sched_now64 s" for i and s :: "'d machine"
    using cb ela [of i s]
    by (simp add: handle_cb_def Let_def req split: prod.split)
      (metis now64_upd_sched snd_conv)
  then show "sh4_sched_now64 (state_of (handle_cb E i s)) = sh4_sched_now64 s" .
  show "sh4_sched_now64 (state_of (tick_loop E f c js s)) = sh4_sched_now64 s"
  proof (induction js arbitrary: s)
    case (Cons j js)
    have "sh4_sched_now64 (state_of (bindM (handle_cb E j) (\<lambda>_. tick_loop E f c js) s)) = sh4_sched_now64 s"
      using h [of j s] Cons.IH by (cases "handle_cb E j s") (simp_all add: bindM_def)
    then show ?case using Cons.IH by (simp add: Let_def)
  qed simp
qed

lemma ctx_next_UpdateINTC: "ctx_sh4_sched_next (m_ctx (snd (UpdateINTC s))) = ctx_sh4_sched_next (m_ctx s)"
  "m_sched (snd (UpdateINTC s)) = m_sched s"
proof -
  have "ctx_sh4_sched_next (m_ctx (snd (SRdecode s))) = ctx_sh4_sched_next (m_ctx s)" for s :: "'a machine"
    by (subst m_ctx_SRdecode) simp
  then have "ctx_sh4_sched_next (m_ctx (exception_entry p s)) = ctx_sh4_sched_next (m_ctx s)"
    for p and s :: "'a machine"
    by (simp add: exception_entry_def UpdateSR_def UpdateSR_banks_def ChangeGPR_def Let_def upd_status_def)
  then show "ctx_sh4_sched_next (m_ctx (snd (UpdateINTC s))) = ctx_sh4_sched_next (m_ctx s)"
    "m_sched (snd (UpdateINTC s)) = m_sched s"
    by (simp_all add: UpdateINTC_def Do_Interrupt_def Let_def)
qed

lemma now64_UpdateINTC: "sh4_sched_now64 (snd (UpdateINTC s)) = sh4_sched_now64 s"
  by (simp add: sh4_sched_now64_def ctx_next_UpdateINTC)

lemma scast_minus_slice:
  assumes "- (2 ^ 31) + 448 \<le> sint (n :: u32)"
  shows "(scast (n - SH4_TIMESLICE) :: u64) = scast n - 448"
proof -
  have "sint n < 2 ^ 31" using sint_less [of n] by simp
  then have "sint (n - 448) = sint n - 448"
    using assms by (simp add: sint_word_ariths signed_take_bit_int_eq_self)
  then show ?thesis by (metis of_int_diff of_int_numeral of_int_sint scast_eq)
qed

section \<open>Properties\<close>

text \<open>C20: Scheduling never moves time: the search for the next event keeps the current time, and
  the next wake-up is the smallest time to go of the scheduled entries (at that entry), or one
  second when nothing is scheduled.\<close>
theorem sched_ffts_earliest:
  "sh4_sched_now64 (sh4_sched_ffts s) = sh4_sched_now64 s \<and>
   (if set (times_to_go s) \<subseteq> {sched_none}
    then sh4_sched_next_id (m_sched (sh4_sched_ffts s)) = -1 \<and>
      ctx_sh4_sched_next (m_ctx (sh4_sched_ffts s)) = SH4_MAIN_CLOCK
    else ctx_sh4_sched_next (m_ctx (sh4_sched_ffts s)) = Min (set (times_to_go s)) \<and>
      times_to_go s ! nat (sh4_sched_next_id (m_sched (sh4_sched_ffts s))) = Min (set (times_to_go s)))"
proof (cases "set (times_to_go s) \<subseteq> {sched_none}")
  case True
  then have "\<forall>t\<in>set (times_to_go s). t = sched_none" by auto
  with ffts_earliest [of s] True show ?thesis by simp
next
  case False
  then have "\<not> (\<forall>t\<in>set (times_to_go s). t = sched_none)" by auto
  note n = ffts_earliest [of s, unfolded if_not_P [OF this]]
  then have e: "ctx_sh4_sched_next (m_ctx (sh4_sched_ffts s)) =
      times_to_go s ! nat (sh4_sched_next_id (m_sched (sh4_sched_ffts s)))"
    "times_to_go s ! nat (sh4_sched_next_id (m_sched (sh4_sched_ffts s))) \<in> set (times_to_go s)"
    "\<And>t. t \<in> set (times_to_go s) \<Longrightarrow> ctx_sh4_sched_next (m_ctx (sh4_sched_ffts s)) \<le> t"
    by (blast, metis nth_mem, blast)
  then have "ctx_sh4_sched_next (m_ctx (sh4_sched_ffts s)) = Min (set (times_to_go s))"
    by (intro Min_eqI [symmetric]) auto
  with e(1) False show ?thesis by simp
qed

text \<open>C21: A request for a valid number of cycles returns; it schedules its entry that many
  cycles from now (one more when the end would be the mark of an unscheduled entry), or
  cancels it for -1, leaves every other entry as it is and never wakes up later than the
  requested time.\<close>
theorem sched_request_ok:
  assumes "i < length (sch_list (m_sched s))"
    and "cycles = sched_none \<or> 0 \<le> sint cycles \<and> sint cycles \<le> 200000000"
  shows "\<exists>s'. sh4_sched_request i cycles s = Ret () s' \<and> sh4_sched_now64 s' = sh4_sched_now64 s \<and>
    sh4_sched_is_scheduled i s' = (cycles \<noteq> sched_none) \<and>
    (cycles \<noteq> sched_none \<longrightarrow>
       times_to_go s' ! i = (if sh4_sched_now s + cycles = sched_none then cycles + 1 else cycles) \<and>
       ctx_sh4_sched_next (m_ctx s') \<le> times_to_go s' ! i) \<and>
    map sched_cb (sch_list (m_sched s')) = map sched_cb (sch_list (m_sched s)) \<and>
    take i (sch_list (m_sched s')) = take i (sch_list (m_sched s)) \<and>
    drop (Suc i) (sch_list (m_sched s')) = drop (Suc i) (sch_list (m_sched s))"
proof -
  let ?u = "upd_sched i (request_entry (sh4_sched_now s) cycles) s"
  let ?s' = "sh4_sched_ffts ?u"
  have now: "sh4_sched_now ?u = sh4_sched_now s" by (simp add: sh4_sched_now_now64)
  have "sint SH4_MAIN_CLOCK = 200000000" by simp
  with assms(2) have r: "sh4_sched_request i cycles s = Ret () ?s'"
    by (intro request_valid) simp
  have e: "sch_list (m_sched ?u) ! i = request_entry (sh4_sched_now s) cycles (sch_list (m_sched s) ! i)"
    using assms(1) by simp
  have cb: "map sched_cb (sch_list (m_sched ?u)) = map sched_cb (sch_list (m_sched s))"
    using assms(1) by (simp add: map_update request_entry_def list_update_same_conv)
  have ttg: "times_to_go ?u ! i = (if sh4_sched_now s + cycles = sched_none then cycles + 1 else cycles)"
    if "cycles \<noteq> sched_none"
  proof -
    have "(0 :: u32) \<noteq> sched_none" by simp
    then show ?thesis
      using assms(1) that
      by (auto simp: times_to_go_def now request_entry_def sh4_sched_remaining_def eq_diff_eq
          diff_eq_eq add.commute)
  qed
  have "ctx_sh4_sched_next (m_ctx ?s') \<le> times_to_go ?u ! i" if "cycles \<noteq> sched_none"
  proof -
    have mem: "times_to_go ?u ! i \<in> set (times_to_go ?u)" using assms(1) by (intro nth_mem) (simp add: times_to_go_def)
    have "times_to_go ?u ! i \<noteq> sched_none"
    proof -
      have "cycles + 1 \<noteq> sched_none" if "sh4_sched_now s + cycles = sched_none"
      proof
        assume "cycles + 1 = sched_none"
        then have c: "cycles = 0xFFFFFFFE" by (simp add: eq_diff_eq [symmetric])
        with assms(2) \<open>cycles \<noteq> sched_none\<close> show False by simp
      qed
      with that ttg show ?thesis by auto
    qed
    with mem ffts_earliest [of ?u] show ?thesis by (auto split: if_splits)
  qed
  with r e cb ttg show ?thesis
    using assms(1)
    by (intro exI [of _ ?s']) (auto simp: sh4_sched_is_scheduled_def request_entry_def)
qed

definition sched_witness :: "unit machine" where
  "sched_witness = snd (sh4_sched_register 0 (Some 1) 0 (snd (sh4_sched_register 0 (Some 0) 0 (zero_machine ()))))"

theorem sched_request_ok_witness:
  "\<exists>s'. sh4_sched_request 1 1000 sched_witness = Ret () s' \<and> sh4_sched_is_scheduled 1 s' \<and>
     times_to_go s' ! 1 = 1000"
proof -
  have "sch_list (m_sched sched_witness) = [\<lparr>sched_cb = Some 0, sched_arg = 0, sched_tag = 0,
      sched_start = sched_none, sched_end = sched_none\<rparr>, \<lparr>sched_cb = Some 1, sched_arg = 0,
      sched_tag = 0, sched_start = sched_none, sched_end = sched_none\<rparr>]"
    "sh4_sched_now sched_witness = 0"
    by (simp_all add: sched_witness_def sh4_sched_register_def zero_machine_def zero_ctx_def
        sh4_sched_now_def)
  with sched_request_ok [of 1 sched_witness 1000] show ?thesis by auto
qed

text \<open>C22: One time slice moves the time by exactly 448 cycles, whatever callbacks run, provided
  these do not set the clock, and whatever interrupt is taken at its end.\<close>
theorem UpdateSystem_INTC_time:
  assumes "\<And>n t r j a (s :: 'd machine). sh4_sched_now64 (snd (e_sched_cb E n t r j a s)) = sh4_sched_now64 s"
    and "- (2 ^ 31) + 448 \<le> sint (ctx_sh4_sched_next (m_ctx s))"
  shows "sh4_sched_now64 (state_of (UpdateSystem_INTC E s)) = sh4_sched_now64 s + 448"
proof -
  let ?s1 = "on_ctx (ctx_sh4_sched_next_update (\<lambda>n. n - SH4_TIMESLICE)) s"
  have t1: "sh4_sched_now64 ?s1 = sh4_sched_now64 s + 448"
    using scast_minus_slice [OF assms(2)] by (simp add: sh4_sched_now64_def)
  let ?tick = "if sint (ctx_sh4_sched_next (m_ctx ?s1)) < 0 then sh4_sched_tick E SH4_TIMESLICE else returnM ()"
  have "sh4_sched_now64 (state_of (sh4_sched_tick E c s)) = sh4_sched_now64 s" for c and s :: "'d machine"
  proof -
    have "sh4_sched_now64 (state_of (bindM (if b then tick_loop E f c js else returnM ())
        (\<lambda>_. modifyM sh4_sched_ffts) s)) = sh4_sched_now64 s" for b f c js and s :: "'d machine"
      using now64_callbacks(2) [OF assms(1), of f c js s]
      by (cases "tick_loop E f c js s") (simp_all add: bindM_def)
    then show ?thesis by (simp add: sh4_sched_tick_def Let_def)
  qed
  then have "sh4_sched_now64 (state_of (?tick ?s1)) = sh4_sched_now64 s + 448"
    using t1 by simp
  then show ?thesis
    unfolding UpdateSystem_INTC_def Let_def
    by (cases "?tick ?s1") (simp_all add: bindM_def now64_UpdateINTC)
qed

theorem UpdateSystem_INTC_time_witness:
  "sh4_sched_now64 (state_of (UpdateSystem_INTC idle_env sched_witness)) =
   sh4_sched_now64 sched_witness + 448"
  by (rule UpdateSystem_INTC_time)
    (simp_all add: idle_env_def sched_witness_def sh4_sched_register_def zero_machine_def zero_ctx_def)

end
