(* ===== verification/Spg.thy ===== *)
theory Spg
  imports Pvr_Mem Sh4_Sched
begin

text \<open>
  The sync pulse generator, \<^verbatim>\<open>hw/pvr/spg.cpp\<close>: the raster line, kept as a count of cycles that a
  scheduler callback turns into lines, with the interrupts of the vertical and horizontal
  blanking and the light gun. The vertical blanking handlers of the controller bus and of the
  renderer are parameters. Host time, which only feeds a speed estimate, is not modelled.

  The lemmas show that the callback always ends, that it passes through every line in order,
  and that it is asked for exactly at the next line at which something happens.
\<close>

section \<open>Registers\<close>

record 'd vblank_env =
  ve_maple_vblank :: "'d machine \<Rightarrow> 'd machine"
  ve_rend_vblank :: "'d machine \<Rightarrow> 'd machine"

definition SPG_HBLANK_INT :: "'d machine \<Rightarrow> u32" where "SPG_HBLANK_INT = PvrReg 0xC8"
definition SPG_VBLANK_INT :: "'d machine \<Rightarrow> u32" where "SPG_VBLANK_INT = PvrReg 0xCC"
definition SPG_CONTROL :: "'d machine \<Rightarrow> u32" where "SPG_CONTROL = PvrReg 0xD0"
definition SPG_LOAD :: "'d machine \<Rightarrow> u32" where "SPG_LOAD = PvrReg 0xD8"
definition SPG_VBLANK :: "'d machine \<Rightarrow> u32" where "SPG_VBLANK = PvrReg 0xDC"
definition SPG_STATUS :: "'d machine \<Rightarrow> u32" where "SPG_STATUS = PvrReg 0x10C"
definition FB_R_CTRL :: "'d machine \<Rightarrow> u32" where "FB_R_CTRL = PvrReg 0x44"

definition vclk_div :: "u32 \<Rightarrow> u32" where "vclk_div = fld 23 1"
definition hcount :: "u32 \<Rightarrow> u32" where "hcount = fld 0 10"
definition vcount :: "u32 \<Rightarrow> u32" where "vcount = fld 16 10"
definition interlace :: "u32 \<Rightarrow> u32" where "interlace = fld 4 1"
definition hblank_int_mode :: "u32 \<Rightarrow> u32" where "hblank_int_mode = fld 12 2"
definition line_comp_val :: "u32 \<Rightarrow> u32" where "line_comp_val = fld 0 10"
definition vblank_in_line :: "u32 \<Rightarrow> u32" where "vblank_in_line = fld 0 10"
definition vblank_out_line :: "u32 \<Rightarrow> u32" where "vblank_out_line = fld 16 10"
definition vstart :: "u32 \<Rightarrow> u32" where "vstart = fld 0 10"
definition vbend :: "u32 \<Rightarrow> u32" where "vbend = fld 16 10"

definition set_SPG_STATUS :: "(u32 \<Rightarrow> u32) \<Rightarrow> 'd machine \<Rightarrow> 'd machine" where
  "set_SPG_STATUS f s = set_PvrReg 0x10C (f (SPG_STATUS s)) s"

section \<open>Timing\<close>

definition PIXEL_CLOCK :: u32 where
  "PIXEL_CLOCK = 27 * 1000 * 1000"

definition CalculateSync :: "('d, unit) SM" where
  "CalculateSync s =
    (let pixel_clock = PIXEL_CLOCK div (if vclk_div (FB_R_CTRL s) \<noteq> 0 then 1 else 2);
         lines = vcount (SPG_LOAD s) + 1;
         lc = ucast (ucast SH4_MAIN_CLOCK * ucast (hcount (SPG_LOAD s) + 1) div ucast pixel_clock :: u64);
         lc' = (if interlace (SPG_CONTROL s) \<noteq> 0 then lc div 2 else lc);
         s1 = m_spg_update (\<lambda>g. g\<lparr>pvr_numscanlines := lines, Line_Cycles := lc', Frame_Cycles := lines * lc',
                prv_cur_scanline := 0, clc_pvr_scanline := 0\<rparr>) s
     in sh4_sched_request (nat (vblank_schid (m_spg s1))) lc' s1)"

text \<open>\<open>spg_min lo line m\<close>: one of the tests of \<^verbatim>\<open>getNextSpgInterrupt\<close>.\<close>

definition spg_min :: "u32 \<Rightarrow> u32 \<Rightarrow> u32 \<Rightarrow> u32" where
  "spg_min lo line m = (if lo \<le> line then min m line else m)"

definition min_active :: "'d machine \<Rightarrow> u32" where
  "min_active s =
    (let g = m_spg s;
         lo = prv_cur_scanline g + 1;
         m1 = spg_min lo (vblank_in_line (SPG_VBLANK_INT s)) (pvr_numscanlines g);
         m2 = spg_min lo (vblank_out_line (SPG_VBLANK_INT s)) m1;
         m3 = spg_min lo (vstart (SPG_VBLANK s)) m2;
         m4 = spg_min lo (vbend (SPG_VBLANK s)) m3;
         m5 = (if lightgun_line g \<noteq> 0xffff then spg_min lo (lightgun_line g) m4 else m4);
         m6 = (if hblank_int_mode (SPG_HBLANK_INT s) = 0 then spg_min lo (line_comp_val (SPG_HBLANK_INT s)) m5 else m5)
     in max m6 lo)"

definition getNextSpgInterrupt :: "'d machine \<Rightarrow> u32" where
  "getNextSpgInterrupt s =
    (if hblank_int_mode (SPG_HBLANK_INT s) = 2 then Line_Cycles (m_spg s)
     else (min_active s - prv_cur_scanline (m_spg s)) * Line_Cycles (m_spg s))"

definition rescheduleSPG :: "('d, unit) SM" where
  "rescheduleSPG s = sh4_sched_request (nat (vblank_schid (m_spg s))) (getNextSpgInterrupt s) s"

section \<open>The raster\<close>

abbreviation (input) "SB_MDST_addr \<equiv> (0x005F6C18 :: u32)"

definition line_advance :: "'d machine \<Rightarrow> 'd machine" where
  "line_advance = m_spg_update (\<lambda>g. g\<lparr>prv_cur_scanline := (prv_cur_scanline g + 1) mod pvr_numscanlines g,
     clc_pvr_scanline := clc_pvr_scanline g - Line_Cycles g\<rparr>)"

definition line_vblank_in :: "'d machine \<Rightarrow> 'd machine" where
  "line_vblank_in s =
    (if vblank_in_line (SPG_VBLANK_INT s) = prv_cur_scanline (m_spg s)
     then asic_RaiseInterrupt holly_SCANINT1
       (if maple_int_pending (m_spg s)
        then set_SB SB_MDST_addr 0 (m_spg_update (maple_int_pending_update (\<lambda>_. False)) s) else s)
     else s)"

definition line_vblank_out :: "'d vblank_env \<Rightarrow> 'd machine \<Rightarrow> 'd machine" where
  "line_vblank_out V s =
    (if vblank_out_line (SPG_VBLANK_INT s) = prv_cur_scanline (m_spg s)
     then asic_RaiseInterrupt holly_SCANINT2 (ve_maple_vblank V s) else s)"

definition line_status :: "'d machine \<Rightarrow> 'd machine" where
  "line_status s =
    (let line = prv_cur_scanline (m_spg s);
         s1 = (if vstart (SPG_VBLANK s) = line then set_SPG_STATUS (set_fld 13 1 1) s else s);
         s2 = (if vbend (SPG_VBLANK s1) = line then set_SPG_STATUS (set_fld 13 1 0) s1 else s1)
     in set_SPG_STATUS (set_fld 0 10 line) s2)"

definition line_hblank :: "'d machine \<Rightarrow> 'd machine" where
  "line_hblank s =
    (let mode = hblank_int_mode (SPG_HBLANK_INT s)
     in if mode = 0
        then if prv_cur_scanline (m_spg s) = line_comp_val (SPG_HBLANK_INT s)
             then asic_RaiseInterrupt holly_HBLank s else s
        else if mode = 2 then asic_RaiseInterrupt holly_HBLank s
        else s)"

definition line_frame :: "'d vblank_env \<Rightarrow> 'd machine \<Rightarrow> 'd machine" where
  "line_frame V s =
    (if prv_cur_scanline (m_spg s) = 0
     then ve_rend_vblank V (set_SPG_STATUS (set_fld 10 1
            (if interlace (SPG_CONTROL s) \<noteq> 0 then NOT (fld 10 1 (SPG_STATUS s)) else 0)) s)
     else s)"

definition line_lightgun :: "'d machine \<Rightarrow> 'd machine" where
  "line_lightgun s =
    (let l = lightgun_line (m_spg s)
     in if l \<noteq> 0xffff \<and> l = prv_cur_scanline (m_spg s)
        then m_spg_update (lightgun_line_update (\<lambda>_. 0xffff)) (set_SB SB_MDST_addr 0
          (set_PvrReg 0xC4 (push_bit 16 (l AND 0x3FF) OR (lightgun_hpos (m_spg s) AND 0x3FF))
            (m_spg_update (maple_int_pending_update (\<lambda>_. False)) s)))
        else s)"

text \<open>The body of the loop of \<^verbatim>\<open>spg_line_sched\<close>, and the loop, which ends when less than a line is left.\<close>

definition spg_line :: "'d vblank_env \<Rightarrow> 'd machine \<Rightarrow> 'd machine" where
  "spg_line V s = line_lightgun (line_frame V (line_hblank (line_status
     (line_vblank_out V (line_vblank_in (line_advance s))))))"

partial_function (option) spg_loop :: "'d vblank_env \<Rightarrow> 'd machine \<Rightarrow> 'd machine option" where
  "spg_loop V s = (if Line_Cycles (m_spg s) \<le> clc_pvr_scanline (m_spg s) then spg_loop V (spg_line V s) else Some s)"

definition add_clc :: "u32 \<Rightarrow> 'd machine \<Rightarrow> 'd machine" where
  "add_clc n = m_spg_update (clc_pvr_scanline_update (\<lambda>c. c + n))"

definition spg_line_sched :: "'d vblank_env \<Rightarrow> u32 \<Rightarrow> u32 \<Rightarrow> u32 \<Rightarrow> 'd machine \<Rightarrow> (u32 \<times> 'd machine) option" where
  "spg_line_sched V tag cycles jitter s =
     map_option (\<lambda>s'. (getNextSpgInterrupt s', s')) (spg_loop V (add_clc (cycles + jitter) s))"

section \<open>Light gun, start and end\<close>

definition read_lightgun_position :: "int \<Rightarrow> int \<Rightarrow> 'd machine \<Rightarrow> 'd machine" where
  "read_lightgun_position x y s =
    (if y < 0 \<or> 480 \<le> y \<or> x < 0 \<or> 640 \<le> x
     then m_spg_update (\<lambda>g. g\<lparr>maple_int_pending := True, lightgun_line := 0xffff\<rparr>) s
     else let line = word_of_int (y div (if interlace (SPG_CONTROL s) \<noteq> 0 then 2 else 1)) + vblank_out_line (SPG_VBLANK_INT s)
       in m_spg_update (\<lambda>g. g\<lparr>maple_int_pending := True,
            lightgun_line := line XOR (drop_bit 1 (lightgun_flip g) AND 1),
            lightgun_hpos := word_of_int (x + 286) XOR (lightgun_flip g AND 1),
            lightgun_flip := lightgun_flip g + 1\<rparr>) s)"

definition spg_Init :: "nat \<Rightarrow> nat \<Rightarrow> 'd machine \<Rightarrow> 'd machine" where
  "spg_Init render_cb line_cb s =
    (case sh4_sched_register 0 (Some render_cb) 0 s of (i, s1) \<Rightarrow>
     (case sh4_sched_register 0 (Some line_cb) 0 (m_spg_update (render_end_schid_update (\<lambda>_. int i)) s1) of (j, s2) \<Rightarrow>
       m_spg_update (vblank_schid_update (\<lambda>_. int j)) s2))"

definition spg_Term :: "('d, unit) SM" where
  "spg_Term s =
    bindM (sh4_sched_unregister (render_end_schid (m_spg s))) (\<lambda>_.
    bindM (modifyM (m_spg_update (render_end_schid_update (\<lambda>_. -1)))) (\<lambda>_.
    bindM (sh4_sched_unregister (vblank_schid (m_spg s))) (\<lambda>_.
    modifyM (m_spg_update (vblank_schid_update (\<lambda>_. -1)))))) s"

definition spg_Reset :: "bool \<Rightarrow> ('d, unit) SM" where
  "spg_Reset hard = bindM CalculateSync (\<lambda>_. modifyM (m_spg_update (\<lambda>g.
     g\<lparr>maple_int_pending := False, lightgun_line := 0xffff, lightgun_hpos := 0\<rparr>)))"

text \<open>The cycles a frame takes to render: from the size of the lists of its contexts, if there is one.\<close>

definition scheduleRenderDone :: "bool \<Rightarrow> int list option \<Rightarrow> ('d, unit) SM" where
  "scheduleRenderDone naomi2 sizes s =
    (let cycles = (case sizes of None \<Rightarrow> 4096
       | Some l \<Rightarrow> if naomi2 then 1500000 else min (450000 + sum_list l * 100) 1500000)
     in sh4_sched_request (nat (render_end_schid (m_spg s))) (word_of_int cycles) s)"


section \<open>Lines\<close>

lemma set_PvrReg_spg [simp]: "m_spg (set_PvrReg x v s) = m_spg s" "m_spg (set_SPG_STATUS f s) = m_spg s"
  by (simp_all add: set_PvrReg_def set_SPG_STATUS_def)

definition raster :: "spg_state \<Rightarrow> u32 \<times> u32 \<times> u32 \<times> u32" where
  "raster g = (prv_cur_scanline g, clc_pvr_scanline g, pvr_numscanlines g, Line_Cycles g)"

text \<open>
  \<open>keeps_raster\<close>: the handlers called at a vertical blanking leave the position and the timing of the
  raster alone. They may do anything else, to the light gun for instance: the controller bus may read
  the position of a light gun there (\<^verbatim>\<open>maple_if.cpp\<close>).
\<close>

definition keeps_raster :: "'d vblank_env \<Rightarrow> bool" where
  "keeps_raster V \<longleftrightarrow> (\<forall>s. raster (m_spg (ve_maple_vblank V s)) = raster (m_spg s) \<and>
     raster (m_spg (ve_rend_vblank V s)) = raster (m_spg s))"

lemma raster_lightgun: "raster (m_spg (read_lightgun_position x y s)) = raster (m_spg s)"
  by (simp add: read_lightgun_position_def raster_def Let_def)

lemma raster_phases:
  "raster (m_spg (line_lightgun s)) = raster (m_spg s)"
  "raster (m_spg (line_hblank s)) = raster (m_spg s)"
  "raster (m_spg (line_status s)) = raster (m_spg s)"
  "raster (m_spg (line_vblank_in s)) = raster (m_spg s)"
  by (simp_all add: line_lightgun_def line_hblank_def line_status_def line_vblank_in_def raster_def Let_def)

lemma raster_vblank:
  assumes "keeps_raster V"
  shows "raster (m_spg (line_frame V s)) = raster (m_spg s)" "raster (m_spg (line_vblank_out V s)) = raster (m_spg s)"
  using assms by (simp_all add: line_frame_def line_vblank_out_def keeps_raster_def)

lemma spg_line_spg:
  assumes "keeps_raster V"
  shows "prv_cur_scanline (m_spg (spg_line V s)) = (prv_cur_scanline (m_spg s) + 1) mod pvr_numscanlines (m_spg s)"
    "clc_pvr_scanline (m_spg (spg_line V s)) = clc_pvr_scanline (m_spg s) - Line_Cycles (m_spg s)"
    "pvr_numscanlines (m_spg (spg_line V s)) = pvr_numscanlines (m_spg s)"
    "Line_Cycles (m_spg (spg_line V s)) = Line_Cycles (m_spg s)"
proof -
  have "raster (m_spg (spg_line V s)) = raster (m_spg (line_advance s))"
    unfolding spg_line_def raster_phases raster_vblank [OF assms] ..
  then show "prv_cur_scanline (m_spg (spg_line V s)) = (prv_cur_scanline (m_spg s) + 1) mod pvr_numscanlines (m_spg s)"
    "clc_pvr_scanline (m_spg (spg_line V s)) = clc_pvr_scanline (m_spg s) - Line_Cycles (m_spg s)"
    "pvr_numscanlines (m_spg (spg_line V s)) = pvr_numscanlines (m_spg s)"
    "Line_Cycles (m_spg (spg_line V s)) = Line_Cycles (m_spg s)"
    by (simp_all add: raster_def line_advance_def)
qed

lemma unat_diff: "(b :: u32) \<le> a \<Longrightarrow> unat (a - b) = unat a - unat b"
  by (simp add: unat_sub)

lemma spg_loop_lines:
  assumes "keeps_raster V" "0 < Line_Cycles (m_spg s)"
  shows "spg_loop V s = Some ((spg_line V ^^ (unat (clc_pvr_scanline (m_spg s)) div unat (Line_Cycles (m_spg s)))) s)"
  using assms(2)
proof (induction "unat (clc_pvr_scanline (m_spg s))" arbitrary: s rule: less_induct)
  case less
  let ?c = "clc_pvr_scanline (m_spg s)" and ?l = "Line_Cycles (m_spg s)" and ?t = "spg_line V s"
  have l: "0 < unat ?l" using less.prems by (simp add: word_less_nat_alt)
  show ?case
  proof (cases "?l \<le> ?c")
    case False
    then show ?thesis by (simp add: spg_loop.simps [of V s] word_le_nat_alt)
  next
    case True
    note t = spg_line_spg [OF assms(1), of s]
    have c: "unat (clc_pvr_scanline (m_spg ?t)) = unat ?c - unat ?l" unfolding t by (rule unat_diff [OF True])
    have le: "unat ?l \<le> unat ?c" using True by (simp add: word_le_nat_alt)
    have "spg_loop V ?t = Some ((spg_line V ^^ (unat (clc_pvr_scanline (m_spg ?t)) div unat ?l)) ?t)"
    proof -
      have "unat (clc_pvr_scanline (m_spg ?t)) < unat ?c" using c l le by linarith
      from less.hyps [OF this] less.prems show ?thesis by (simp add: t)
    qed
    moreover have "unat ?c div unat ?l = Suc ((unat ?c - unat ?l) div unat ?l)"
      using le l by (rule le_div_geq [rotated])
    ultimately show ?thesis
      using True by (simp add: spg_loop.simps [of V s] c funpow_Suc_right del: funpow.simps)
  qed
qed

lemma spg_lines_spg:
  assumes "keeps_raster V" "prv_cur_scanline (m_spg s) < pvr_numscanlines (m_spg s)" "pvr_numscanlines (m_spg s) \<le> 1024"
  shows "unat (prv_cur_scanline (m_spg ((spg_line V ^^ k) s))) =
      (unat (prv_cur_scanline (m_spg s)) + k) mod unat (pvr_numscanlines (m_spg s))"
    "pvr_numscanlines (m_spg ((spg_line V ^^ k) s)) = pvr_numscanlines (m_spg s)"
    "Line_Cycles (m_spg ((spg_line V ^^ k) s)) = Line_Cycles (m_spg s)"
    "clc_pvr_scanline (m_spg ((spg_line V ^^ k) s)) = clc_pvr_scanline (m_spg s) - of_nat k * Line_Cycles (m_spg s)"
proof (induction k)
  case 0
  { case 1 show ?case using assms(2) by (simp add: word_less_nat_alt) }
  { case 2 show ?case by simp }
  { case 3 show ?case by simp }
  { case 4 show ?case by simp }
next
  case (Suc k)
  let ?t = "(spg_line V ^^ k) s"
  note t = spg_line_spg [OF assms(1), of ?t]
  { case 1
    have "unat (pvr_numscanlines (m_spg s)) \<le> 1024" using assms(3) by (simp add: word_le_nat_alt)
    moreover have "unat (prv_cur_scanline (m_spg ?t)) < unat (pvr_numscanlines (m_spg s))"
      using Suc(1) assms(2) by (simp add: word_less_nat_alt)
    ultimately have "unat (prv_cur_scanline (m_spg ?t) + 1) = unat (prv_cur_scanline (m_spg ?t)) + 1"
      by (simp add: unat_word_ariths)
    then show ?case using Suc by (simp add: t unat_mod mod_Suc_eq) }
  { case 2 show ?case using Suc by (simp add: t) }
  { case 3 show ?case using Suc by (simp add: t) }
  { case 4 show ?case using Suc by (simp add: t algebra_simps) }
qed

section \<open>The next event\<close>

text \<open>The lines at which something happens, by the registers.\<close>

definition spg_event :: "'d machine \<Rightarrow> u32 \<Rightarrow> bool" where
  "spg_event s l \<longleftrightarrow> hblank_int_mode (SPG_HBLANK_INT s) = 2 \<or>
     l = vblank_in_line (SPG_VBLANK_INT s) \<or> l = vblank_out_line (SPG_VBLANK_INT s) \<or>
     l = vstart (SPG_VBLANK s) \<or> l = vbend (SPG_VBLANK s) \<or>
     lightgun_line (m_spg s) \<noteq> 0xffff \<and> l = lightgun_line (m_spg s) \<or>
     hblank_int_mode (SPG_HBLANK_INT s) = 0 \<and> l = line_comp_val (SPG_HBLANK_INT s)"

text \<open>\<open>earliest lo P n m\<close>: \<open>m\<close> is the first line from \<open>lo\<close> on with \<open>P\<close>, or the end \<open>n\<close>.\<close>

definition earliest :: "u32 \<Rightarrow> (u32 \<Rightarrow> bool) \<Rightarrow> u32 \<Rightarrow> u32 \<Rightarrow> bool" where
  "earliest lo P n m \<longleftrightarrow> lo \<le> m \<and> m \<le> n \<and> (\<forall>l. lo \<le> l \<longrightarrow> l < m \<longrightarrow> \<not> P l) \<and> (m = n \<or> P m)"

lemma earliest_min:
  assumes "earliest lo P n m"
  shows "earliest lo (\<lambda>l. P l \<or> l = x) n (spg_min lo x m)"
proof (cases "lo \<le> x \<and> x < m")
  case True
  then have "spg_min lo x m = x" by (simp add: spg_min_def)
  moreover have "x \<le> n" using True assms unfolding earliest_def by (meson less_imp_le order_trans)
  moreover have "\<not> P l" if "lo \<le> l" "l < x" for l
    using True assms that unfolding earliest_def by (meson less_trans)
  ultimately show ?thesis using True unfolding earliest_def by (metis less_irrefl)
next
  case False
  then have "spg_min lo x m = m" by (auto simp: spg_min_def)
  then show ?thesis using False assms unfolding earliest_def by auto
qed

lemma earliest_none: "lo \<le> n \<Longrightarrow> earliest lo (\<lambda>_. False) n n"
  by (simp add: earliest_def)

lemma earliest_cong: "earliest lo P n m \<Longrightarrow> (\<And>l. P l = Q l) \<Longrightarrow> earliest lo Q n m"
  by (simp add: earliest_def)

lemma min_active_earliest:
  assumes "hblank_int_mode (SPG_HBLANK_INT s) \<noteq> 2" "prv_cur_scanline (m_spg s) + 1 \<le> pvr_numscanlines (m_spg s)"
  shows "earliest (prv_cur_scanline (m_spg s) + 1) (spg_event s) (pvr_numscanlines (m_spg s)) (min_active s)"
proof -
  let ?g = "m_spg s" let ?lo = "prv_cur_scanline ?g + 1" and ?n = "pvr_numscanlines ?g"
  let ?h = "SPG_HBLANK_INT s" and ?v = "SPG_VBLANK_INT s" and ?b = "SPG_VBLANK s"
  define m4 where "m4 = spg_min ?lo (vbend ?b) (spg_min ?lo (vstart ?b)
    (spg_min ?lo (vblank_out_line ?v) (spg_min ?lo (vblank_in_line ?v) ?n)))"
  define P4 where "P4 l \<longleftrightarrow> (((False \<or> l = vblank_in_line ?v) \<or> l = vblank_out_line ?v) \<or> l = vstart ?b) \<or> l = vbend ?b" for l
  have e4: "earliest ?lo P4 ?n m4"
    unfolding m4_def P4_def by (intro earliest_min earliest_none assms(2))
  define m5 where "m5 = (if lightgun_line ?g \<noteq> 0xffff then spg_min ?lo (lightgun_line ?g) m4 else m4)"
  define P5 where "P5 l \<longleftrightarrow> P4 l \<or> lightgun_line ?g \<noteq> 0xffff \<and> l = lightgun_line ?g" for l
  have e5: "earliest ?lo P5 ?n m5"
    using e4 earliest_min [OF e4, of "lightgun_line ?g"] unfolding m5_def
    by (cases "lightgun_line ?g = 0xffff") (auto intro: earliest_cong simp: P5_def)
  define m6 where "m6 = (if hblank_int_mode ?h = 0 then spg_min ?lo (line_comp_val ?h) m5 else m5)"
  define P6 where "P6 l \<longleftrightarrow> P5 l \<or> hblank_int_mode ?h = 0 \<and> l = line_comp_val ?h" for l
  have e6: "earliest ?lo P6 ?n m6"
    using e5 earliest_min [OF e5, of "line_comp_val ?h"] unfolding m6_def
    by (cases "hblank_int_mode ?h = 0") (auto intro: earliest_cong simp: P6_def)
  have "min_active s = max m6 ?lo"
    by (simp add: min_active_def Let_def m6_def m5_def m4_def)
  also have "\<dots> = m6" using e6 unfolding earliest_def by (simp add: max.absorb1)
  finally have m: "min_active s = m6" .
  have "P6 l = spg_event s l" for l
    unfolding P6_def P5_def P4_def spg_event_def using assms(1) by blast
  from earliest_cong [OF e6 this] show ?thesis unfolding m .
qed

text \<open>The next event in lines: \<open>n\<close> lines away, none before it.\<close>

definition next_event :: "'d machine \<Rightarrow> nat \<Rightarrow> bool" where
  "next_event s n \<longleftrightarrow> 0 < n \<and>
     unat (prv_cur_scanline (m_spg s)) + n \<le> unat (pvr_numscanlines (m_spg s)) \<and>
     (\<forall>k. 0 < k \<longrightarrow> k < n \<longrightarrow> \<not> spg_event s (prv_cur_scanline (m_spg s) + of_nat k)) \<and>
     (unat (prv_cur_scanline (m_spg s)) + n = unat (pvr_numscanlines (m_spg s)) \<or>
      spg_event s (prv_cur_scanline (m_spg s) + of_nat n))"

text \<open>A generator that has been set up: the ranges \<^verbatim>\<open>CalculateSync\<close> gives the variables.\<close>

definition raster_ok :: "spg_state \<Rightarrow> bool" where
  "raster_ok g \<longleftrightarrow> 0 < Line_Cycles g \<and> Line_Cycles g \<le> 0x4000 \<and>
     prv_cur_scanline g < pvr_numscanlines g \<and> pvr_numscanlines g \<le> 1024"

lemma raster_okD:
  assumes "raster_ok g"
  shows "0 < unat (Line_Cycles g)" "unat (Line_Cycles g) \<le> 0x4000"
    "unat (prv_cur_scanline g) < unat (pvr_numscanlines g)" "unat (pvr_numscanlines g) \<le> 1024"
    "k \<le> 1024 \<Longrightarrow> unat (prv_cur_scanline g + of_nat k) = unat (prv_cur_scanline g) + k"
proof -
  show *: "0 < unat (Line_Cycles g)" "unat (Line_Cycles g) \<le> 0x4000"
    "unat (prv_cur_scanline g) < unat (pvr_numscanlines g)" "unat (pvr_numscanlines g) \<le> 1024"
    using assms by (simp_all add: raster_ok_def word_le_nat_alt word_less_nat_alt)
  show "unat (prv_cur_scanline g + of_nat k) = unat (prv_cur_scanline g) + k" if "k \<le> 1024"
    using that *(3,4) by (simp add: unat_word_ariths unat_of_nat)
qed

lemma getNextSpgInterrupt_lines:
  assumes "raster_ok (m_spg s)"
  shows "\<exists>n. next_event s n \<and> unat (getNextSpgInterrupt s) = n * unat (Line_Cycles (m_spg s))"
proof (cases "hblank_int_mode (SPG_HBLANK_INT s) = 2")
  case True
  then have "getNextSpgInterrupt s = Line_Cycles (m_spg s)" "spg_event s l" for l
    by (simp_all add: getNextSpgInterrupt_def spg_event_def)
  then show ?thesis using raster_okD(3) [OF assms] by (intro exI [of _ 1]) (simp add: next_event_def)
next
  case False
  let ?g = "m_spg s" let ?p = "unat (prv_cur_scanline ?g)" and ?N = "unat (pvr_numscanlines ?g)"
  note r = raster_okD(1-4) [OF assms] and suc = raster_okD(5) [OF assms]
  have "prv_cur_scanline ?g + 1 \<le> pvr_numscanlines ?g" using suc [of 1] r(3) by (simp add: word_le_nat_alt)
  note e = min_active_earliest [OF False this]
  let ?n = "unat (min_active s) - ?p"
  have le: "?p + 1 \<le> unat (min_active s)" "unat (min_active s) \<le> ?N"
    using e suc [of 1] by (simp_all add: earliest_def word_le_nat_alt)
  have m: "min_active s = prv_cur_scanline ?g + of_nat ?n"
    using le suc [of ?n] r(4) by (intro word_unat_eq_iff [THEN iffD2]) simp
  have "unat (min_active s - prv_cur_scanline ?g) = ?n"
    using le by (intro unat_diff) (simp add: word_le_nat_alt)
  moreover have "?n * unat (Line_Cycles ?g) \<le> 1024 * 0x4000" using le r by (intro mult_le_mono) simp_all
  ultimately have "unat (getNextSpgInterrupt s) = ?n * unat (Line_Cycles ?g)"
    using False by (simp add: getNextSpgInterrupt_def unat_word_ariths)
  moreover have "\<not> spg_event s (prv_cur_scanline ?g + of_nat k)" if "0 < k" "k < ?n" for k
    using e suc [of k] suc [of 1] that le r(4) unfolding earliest_def by (simp add: word_le_nat_alt word_less_nat_alt)
  moreover have "?p + ?n = ?N \<or> spg_event s (prv_cur_scanline ?g + of_nat ?n)"
    using e le unfolding earliest_def m [symmetric] by auto
  ultimately show ?thesis using le by (intro exI [of _ ?n]) (simp add: next_event_def)
qed

text \<open>
  A callback after \<open>n\<close> lines and a lateness passes these lines, and those the lateness makes up with
  the cycles left over from the last callback; the rest is left over again.
\<close>

lemma spg_sched_lines:
  assumes "keeps_raster V" "raster_ok (m_spg s)" "n \<le> 1024" "unat d = n * unat (Line_Cycles (m_spg s))"
    and j: "clc_pvr_scanline (m_spg s) < Line_Cycles (m_spg s)" "jitter \<le> 0x7FFFFFFF"
  defines "late \<equiv> unat (clc_pvr_scanline (m_spg s)) + unat jitter"
  defines "k \<equiv> n + late div unat (Line_Cycles (m_spg s))"
  defines "s' \<equiv> (spg_line V ^^ k) (add_clc (d + jitter) s)"
  shows "spg_line_sched V tag d jitter s = Some (getNextSpgInterrupt s', s')"
    "unat (prv_cur_scanline (m_spg s')) = (unat (prv_cur_scanline (m_spg s)) + k) mod unat (pvr_numscanlines (m_spg s))"
    "unat (clc_pvr_scanline (m_spg s')) = late mod unat (Line_Cycles (m_spg s))"
proof -
  let ?g = "m_spg s" and ?s0 = "add_clc (d + jitter) s" let ?L = "unat (Line_Cycles ?g)"
  note r = raster_okD(1-4) [OF assms(2)]
  have s0: "prv_cur_scanline (m_spg ?s0) = prv_cur_scanline ?g" "pvr_numscanlines (m_spg ?s0) = pvr_numscanlines ?g"
    "Line_Cycles (m_spg ?s0) = Line_Cycles ?g" "clc_pvr_scanline (m_spg ?s0) = clc_pvr_scanline ?g + (d + jitter)"
    by (simp_all add: add_clc_def)
  have nL: "n * ?L \<le> 1024 * 0x4000" using assms(3) r by (intro mult_le_mono) simp_all
  have late: "late < 0x80004000" using j r(2) by (simp add: late_def word_le_nat_alt word_less_nat_alt)
  have total: "n * ?L + late = k * ?L + late mod ?L"
    by (simp add: k_def add_mult_distrib)
  have w: "clc_pvr_scanline ?g + (d + jitter) = of_nat (n * ?L + late)"
    unfolding assms(4) [symmetric] late_def by (simp add: algebra_simps)
  have c: "unat (clc_pvr_scanline ?g + (d + jitter)) = n * ?L + late"
    unfolding w using nL late by (intro unat_of_nat_u32) simp
  have "unat (clc_pvr_scanline (m_spg ?s0)) div unat (Line_Cycles (m_spg ?s0)) = k"
    unfolding s0 c using r(1) by (simp add: k_def)
  with spg_loop_lines [OF assms(1), of ?s0] assms(2) have "spg_loop V ?s0 = Some s'" by (simp add: s0 s'_def raster_ok_def)
  then show "spg_line_sched V tag d jitter s = Some (getNextSpgInterrupt s', s')" by (simp add: spg_line_sched_def)
  note t = spg_lines_spg [OF assms(1), of ?s0 k, folded s'_def, unfolded s0]
  show "unat (prv_cur_scanline (m_spg s')) = (unat (prv_cur_scanline ?g) + k) mod unat (pvr_numscanlines ?g)"
    using t(1) assms(2) by (simp add: raster_ok_def)
  have "clc_pvr_scanline (m_spg s') = of_nat (n * ?L + late) - of_nat (k * ?L)"
    using t(4) assms(2) by (simp add: raster_ok_def w)
  also have "\<dots> = of_nat (late mod ?L)" unfolding total by simp
  finally have e: "clc_pvr_scanline (m_spg s') = of_nat (late mod ?L)" .
  have "late mod ?L < 2 ^ 32" using mod_less_divisor [OF r(1), of late] r(2) by (simp del: mod_less_divisor)
  then show "unat (clc_pvr_scanline (m_spg s')) = late mod ?L"
    unfolding e by (rule unat_of_nat_u32)
qed

text \<open>C39: No line is missed and none is late. While the line timer is set up and less than a line is
  left over, the callback is asked for a positive number of whole lines, which the scheduler
  accepts: none of the lines before the last is one at which a register asks for something to
  happen, and the last one is, or it is the first line of the next frame. Provided that the
  handlers of the vertical blanking do not change the position and the timing of the raster, the callback,
  called after that time or later by any number of cycles the scheduler can report, always
  ends, having passed one after the other through exactly these lines and, when it was late, those
  that lie in the lateness; the cycles of the line it stops in are kept.\<close>
theorem spg_wakeup_exact:
  assumes "keeps_raster V" and "raster_ok (m_spg s)"
    and "clc_pvr_scanline (m_spg s) < Line_Cycles (m_spg s)" and "jitter \<le> 0x7FFFFFFF"
  shows "\<exists>n k s'. next_event s n \<and>
    k = n + (unat (clc_pvr_scanline (m_spg s)) + unat jitter) div unat (Line_Cycles (m_spg s)) \<and>
    sint (getNextSpgInterrupt s) = int (n * unat (Line_Cycles (m_spg s))) \<and> sint (getNextSpgInterrupt s) \<le> 200000000 \<and>
    spg_line_sched V tag (getNextSpgInterrupt s) jitter s = Some (getNextSpgInterrupt s', s') \<and>
    s' = (spg_line V ^^ k) (add_clc (getNextSpgInterrupt s + jitter) s) \<and>
    unat (prv_cur_scanline (m_spg s')) = (unat (prv_cur_scanline (m_spg s)) + k) mod unat (pvr_numscanlines (m_spg s)) \<and>
    unat (clc_pvr_scanline (m_spg s')) =
      (unat (clc_pvr_scanline (m_spg s)) + unat jitter) mod unat (Line_Cycles (m_spg s))"
proof -
  let ?L = "unat (Line_Cycles (m_spg s))"
  from getNextSpgInterrupt_lines [OF assms(2)] obtain n where
    n: "next_event s n" "unat (getNextSpgInterrupt s) = n * ?L" by blast
  have n': "n \<le> 1024" using n(1) raster_okD(4) [OF assms(2)] by (simp add: next_event_def)
  then have "n * ?L \<le> 1024 * 0x4000" using raster_okD [OF assms(2)] by (intro mult_le_mono) simp_all
  then have i: "0 \<le> int (n * ?L)" "int (n * ?L) \<le> 200000000" by linarith+
  have d: "getNextSpgInterrupt s = word_of_int (int (n * ?L))" unfolding n(2) [symmetric] by simp
  have sd: "sint (getNextSpgInterrupt s) = int (n * ?L)" unfolding d by (rule sint_in_range [OF i])
  let ?k = "n + (unat (clc_pvr_scanline (m_spg s)) + unat jitter) div ?L"
  show ?thesis
    using n(1) sd i(2) spg_sched_lines [OF assms(1,2) n' n(2) assms(3,4)]
    by (intro exI [of _ n] exI [of _ ?k] exI [of _ "(spg_line V ^^ ?k) (add_clc (getNextSpgInterrupt s + jitter) s)"]) simp
qed

text \<open>
  An NTSC raster in the middle of a frame, with all line registers at zero. The controller bus
  reads a light gun at every vertical blanking, and the callback is more than a line late.
\<close>

definition raster_example :: "unit machine" where
  "raster_example = m_spg_update (\<lambda>g. g\<lparr>pvr_numscanlines := 263, Line_Cycles := 12711,
     prv_cur_scanline := 100, clc_pvr_scanline := 3\<rparr>) (zero_machine ())"

theorem spg_wakeup_exact_witness:
  "\<exists>n s'. 0 < n \<and> sint (getNextSpgInterrupt raster_example) = int (n * 12711) \<and>
     spg_line_sched \<lparr>ve_maple_vblank = read_lightgun_position 100 200, ve_rend_vblank = \<lambda>s. s\<rparr> 0
       (getNextSpgInterrupt raster_example) 13000 raster_example = Some (getNextSpgInterrupt s', s') \<and>
     unat (clc_pvr_scanline (m_spg s')) = 292"
proof -
  let ?V = "\<lparr>ve_maple_vblank = read_lightgun_position 100 200, ve_rend_vblank = \<lambda>s. s\<rparr> :: unit vblank_env"
  have k: "keeps_raster ?V" by (simp add: keeps_raster_def raster_lightgun)
  have v: "Line_Cycles (m_spg raster_example) = 12711" "prv_cur_scanline (m_spg raster_example) = 100"
    "pvr_numscanlines (m_spg raster_example) = 263" "clc_pvr_scanline (m_spg raster_example) = 3"
    by (simp_all add: raster_example_def)
  have ok: "raster_ok (m_spg raster_example)" by (simp add: raster_ok_def v)
  have "clc_pvr_scanline (m_spg raster_example) < Line_Cycles (m_spg raster_example)" "(13000 :: u32) \<le> 0x7FFFFFFF"
    unfolding v by simp_all
  from spg_wakeup_exact [OF k ok this, of 0] obtain n s' where
    "next_event raster_example n" "sint (getNextSpgInterrupt raster_example) = int (n * unat (Line_Cycles (m_spg raster_example)))"
    "spg_line_sched ?V 0 (getNextSpgInterrupt raster_example) 13000 raster_example = Some (getNextSpgInterrupt s', s')"
    "unat (clc_pvr_scanline (m_spg s')) =
      (unat (clc_pvr_scanline (m_spg raster_example)) + unat (13000 :: u32)) mod unat (Line_Cycles (m_spg raster_example))"
    by (elim exE conjE)
  then show ?thesis unfolding v next_event_def by (intro exI [of _ n] exI [of _ s']) simp
qed

section \<open>Rescheduling in the middle of a line\<close>

text \<open>
  \<^verbatim>\<open>rescheduleSPG\<close> starts the request anew at the present time and leaves the count of cycles
  alone: the time since the last callback is counted by nobody, and the raster falls behind.
\<close>

lemma rescheduleSPG_forgets:
  assumes "rescheduleSPG s = Ret () s'" "nat (vblank_schid (m_spg s)) < length (sch_list (m_sched s))"
  shows "m_spg s' = m_spg s"
    "sched_start (sch_list (m_sched s') ! nat (vblank_schid (m_spg s))) = sh4_sched_now s"
  using assms
  by (auto simp: rescheduleSPG_def sh4_sched_request_def sh4_sched_ffts_def upd_sched_def on_ctx_def
      request_entry_def Let_def split: if_splits prod.splits)

text \<open>The line length is never zero once it has been computed, so the loop of the callback ends.\<close>

lemma line_cycles_bounds:
  fixes h pc :: u32
  assumes "unat h < 1024" "pc = 27000000 \<or> pc = 13500000"
  defines "lc \<equiv> ucast (ucast SH4_MAIN_CLOCK * ucast (h + 1) div ucast pc :: u64) :: u32"
  shows "unat lc = 200000000 * (unat h + 1) div unat pc" "7 \<le> unat lc" "unat lc \<le> 15170"
proof -
  have h: "unat (h + 1) = unat h + 1" using assms(1) by (simp add: unat_word_ariths)
  have "unat (ucast SH4_MAIN_CLOCK * ucast (h + 1) :: u64) = 200000000 * (unat h + 1)"
    using assms(1) h by (simp add: unat_word_ariths unsigned_ucast_eq take_bit_eq_mod)
  moreover have "unat (ucast pc :: u64) = unat pc" using assms(2) by (auto simp: unsigned_ucast_eq take_bit_eq_mod)
  ultimately have q: "unat (ucast SH4_MAIN_CLOCK * ucast (h + 1) div ucast pc :: u64) = 200000000 * (unat h + 1) div unat pc"
    by (simp add: unat_div)
  have b: "7 \<le> 200000000 * (unat h + 1) div unat pc" "200000000 * (unat h + 1) div unat pc \<le> 15170"
    using assms(1,2) by auto
  with q show "unat lc = 200000000 * (unat h + 1) div unat pc"
    by (simp add: lc_def unsigned_ucast_eq take_bit_eq_mod)
  with b show "7 \<le> unat lc" "unat lc \<le> 15170" by simp_all
qed

lemma CalculateSync_line:
  assumes "CalculateSync s = Ret () s'"
  shows "raster_ok (m_spg s')" "prv_cur_scanline (m_spg s') = 0" "clc_pvr_scanline (m_spg s') = 0"
proof -
  let ?h = "hcount (SPG_LOAD s)" and ?v = "vcount (SPG_LOAD s)"
  let ?pc = "PIXEL_CLOCK div (if vclk_div (FB_R_CTRL s) \<noteq> 0 then 1 else 2)"
  let ?lc = "ucast (ucast SH4_MAIN_CLOCK * ucast (?h + 1) div ucast ?pc :: u64) :: u32"
  have hv: "unat ?h < 1024" "unat ?v < 1024"
    using fld_less [of 10 0 "SPG_LOAD s"] fld_less [of 10 16 "SPG_LOAD s"] by (simp_all add: hcount_def vcount_def word_less_nat_alt)
  have pc: "?pc = 27000000 \<or> ?pc = 13500000" by (simp add: PIXEL_CLOCK_def)
  have m: "m_spg s' = (m_spg s)\<lparr>pvr_numscanlines := ?v + 1,
      Line_Cycles := (if interlace (SPG_CONTROL s) \<noteq> 0 then ?lc div 2 else ?lc),
      Frame_Cycles := (?v + 1) * (if interlace (SPG_CONTROL s) \<noteq> 0 then ?lc div 2 else ?lc),
      prv_cur_scanline := 0, clc_pvr_scanline := 0\<rparr>"
    using assms by (auto simp: CalculateSync_def sh4_sched_request_def sh4_sched_ffts_def upd_sched_def on_ctx_def
      Let_def split: if_splits prod.splits)
  note b = line_cycles_bounds [OF hv(1) pc]
  have "0 < unat (?lc div 2)" "unat (?lc div 2) \<le> 0x4000" unfolding unat_div using b(2,3) by simp_all
  moreover have "unat (?v + 1) = unat ?v + 1" using hv(2) by (simp add: unat_word_ariths)
  ultimately show "raster_ok (m_spg s')"
    using b(2,3) hv(2) unfolding m raster_ok_def by (simp add: word_le_nat_alt word_less_nat_alt)
  show "prv_cur_scanline (m_spg s') = 0" "clc_pvr_scanline (m_spg s') = 0" unfolding m by simp_all
qed

end
