(* ===== verification/Pvr_Regs.thy ===== *)
theory Pvr_Regs
  imports Spg
begin

text \<open>
  The registers of the graphics chip, \<^verbatim>\<open>hw/pvr/pvr_regs.cpp\<close>: what each write starts. The
  renderer and the list parser of the tile accelerator are parameters. Logging is left out.

  The lemmas show which registers cannot be written, that a plain register reads back what was
  written to it and that no write to one register changes another.
\<close>

section \<open>Reads and writes\<close>

record 'd render_env =
  re_start_render :: "'d machine \<Rightarrow> 'd machine"
  re_ListInit :: "bool \<Rightarrow> 'd machine \<Rightarrow> 'd machine"
  re_SoftReset :: "'d machine \<Rightarrow> 'd machine"
  re_swap_frame :: "u32 \<Rightarrow> 'd machine \<Rightarrow> 'd machine"
  re_set_fb_write_addr :: "u32 \<Rightarrow> 'd machine \<Rightarrow> 'd machine"
  re_updateFogTable :: "'d machine \<Rightarrow> 'd machine"

abbreviation (input) "pvr_RegMask \<equiv> (0x7FFF :: u32)"

definition pvr_ReadReg :: "u32 \<Rightarrow> 'd machine \<Rightarrow> u32" where
  "pvr_ReadReg addr = PvrReg addr"

definition check_framebuffer_write :: "areas \<Rightarrow> 'd machine \<Rightarrow> 'd machine" where
  "check_framebuffer_write a s =
    (let sz = PvrReg 0x5C s;
         fb_size = (fld 10 10 sz + 1) * (fld 0 10 sz + fld 20 10 sz) * 4;
         start = (if interlace (SPG_CONTROL s) \<noteq> 0 then PvrReg 0x54 s else PvrReg 0x50 s) AND VRAM_MASK a
     in m_pvr_update (\<lambda>p. p\<lparr>fb_watch_addr_start := start, fb_watch_addr_end := start + fb_size\<rparr>) s)"

definition set_pal_update :: "bool \<Rightarrow> 'd machine \<Rightarrow> 'd machine" where
  "set_pal_update b = m_pvr_update (pal_needs_update_update (\<lambda>_. b))"

text \<open>The default branch, before the assignment of the register.\<close>

definition write_default :: "'d render_env \<Rightarrow> u32 \<Rightarrow> u32 \<Rightarrow> 'd machine \<Rightarrow> 'd machine" where
  "write_default R addr data s =
    (if 0x1000 \<le> addr \<and> PvrReg addr s \<noteq> data then set_pal_update True s
     else if 0x200 \<le> addr \<and> addr \<le> 0x3FC \<and> PvrReg addr s \<noteq> data then re_updateFogTable R s
     else s)"

definition pvr_WriteReg :: "areas \<Rightarrow> 'd render_env \<Rightarrow> u32 \<Rightarrow> u32 \<Rightarrow> ('d, unit) SM" where
  "pvr_WriteReg a R paddr data s =
    (let addr = paddr AND pvr_RegMask
     in if addr = 0 \<or> addr = 4 \<or> addr = 0x150 then Ret () s
        else if addr = 0x14 then Ret () (YUV_init a (re_start_render R s))
        else if addr = 0x144 then Ret ()
          (if drop_bit 31 data \<noteq> 0
           then let s1 = re_ListInit R False s;
                    s2 = set_PvrReg 0x134 (PvrReg 0x164 s1) s1
             in set_PvrReg 0x138 (PvrReg 0x128 s2) s2
           else s)
        else if addr = 8 then Ret () (if data AND 1 \<noteq> 0 then re_SoftReset R s else s)
        else if addr = 0x160 then Ret () (set_PvrReg addr data (re_ListInit R True s))
        else if addr = 0xD0 \<or> addr = 0xD8 then
          (if PvrReg addr s \<noteq> data then CalculateSync (set_PvrReg addr data s) else Ret () s)
        else if addr = 0x44 then
          (let s1 = set_PvrReg addr data s
           in if (PvrReg addr s XOR data) AND 0x800000 \<noteq> 0 then CalculateSync s1 else Ret () s1)
        else if addr = 0x5C then Ret ()
          (if PvrReg addr s \<noteq> data
           then check_framebuffer_write a (m_pvr_update (fb_dirty_update (\<lambda>_. False)) (set_PvrReg addr data s)) else s)
        else if addr = 0x148 then Ret () (YUV_init a (set_PvrReg addr (data AND 0x00FFFFF8) s))
        else if addr = 0x14C then Ret () (YUV_init a (set_PvrReg addr data s))
        else if addr = 0x50 \<or> addr = 0x54 then
          (let d = data AND 0x00fffffc in Ret () (set_PvrReg addr d (re_swap_frame R d s)))
        else if addr = 0x60 then
          (let d = data AND 0x01fffffc in Ret () (set_PvrReg addr d (re_set_fb_write_addr R d s)))
        else if addr = 0x64 then Ret () (set_PvrReg addr (data AND 0x01fffffc) s)
        else if addr = 0xC8 then
          (let d = data AND 0x03FF33FF
           in if d \<noteq> SPG_HBLANK_INT s then rescheduleSPG (set_PvrReg addr d s) else Ret () s)
        else if addr = 0x108 then Ret () (set_PvrReg addr data
          (set_pal_update (pal_needs_update (m_pvr s) \<or> (data XOR PvrReg 0x108 s) AND 3 \<noteq> 0) s))
        else Ret () (set_PvrReg addr data (write_default R addr data s)))"

section \<open>Reset\<close>

definition pvr_reset_values :: "(u32 \<times> u32) list" where
  "pvr_reset_values =
    [(0x00, 0x17FD11DB), (0x04, 0x00000011), (0x08, 0x00000007), (0xC8, 0x031D0000), (0xCC, 0x00150104),
     (0x7C, 0x0007DF77), (0x80, 0x00000007), (0x98, 0x00402000), (0xA0, 0x00000020), (0xA4, 0x0000001F),
     (0xA8, 0x15F28997), (0xD4, 0x007E0345), (0xD8, 0x01060359), (0xDC, 0x01500104), (0xE0, 0x07F1933F),
     (0xE8, 0x00000108), (0xEC, 0x0000009D), (0xF0, 0x00150015), (0xF4, 0x00000400), (0x110, 0x00090639),
     (0x11C, 0x000000FF)]"

definition Regs_Reset :: "bool \<Rightarrow> 'd machine \<Rightarrow> 'd machine" where
  "Regs_Reset hard s = fold (\<lambda>(x, v). set_PvrReg x v) pvr_reset_values
     (if hard then m_pvr_update (pvr_regs_update (\<lambda>_ _. 0)) s else s)"

section \<open>Registers are a memory of words\<close>

lemma PvrReg_write:
  assumes "take_bit 2 x = 0" "take_bit 2 y = 0"
  shows "PvrReg x (set_PvrReg y v s) = (if x AND pvr_RegMask = y AND pvr_RegMask then v else PvrReg x s)"
proof -
  have al: "(z AND 0x7FFF) AND NOT 3 = z AND 0x7FFF" if "take_bit 2 z = 0" for z :: u32
  proof -
    have "take_bit 2 (z AND 0x7FFF) = 0" using that by (simp add: take_bit_and)
    then show ?thesis by (simp only: word_aligned)
  qed
  show ?thesis
    using ld32_st32_aligned [OF al [OF assms(2)] al [OF assms(1)]]
    by (simp add: PvrReg_def set_PvrReg_def eq_commute)
qed

text \<open>Writes to the read-only registers do nothing, and a plain register keeps its value.\<close>

lemma pvr_WriteReg_read_only:
  "paddr AND pvr_RegMask \<in> {0, 4, 0x150} \<Longrightarrow> pvr_WriteReg a R paddr data s = Ret () s"
  by (auto simp: pvr_WriteReg_def Let_def)

definition plain_reg :: "u32 \<Rightarrow> bool" where
  "plain_reg addr \<longleftrightarrow> addr < 0x200 \<and> addr \<notin> {0, 4, 0x150, 0x14, 0x144, 8, 0x160, 0xD0, 0xD8, 0x44, 0x5C, 0x148,
     0x14C, 0x50, 0x54, 0x60, 0x64, 0xC8, 0x108}"

lemma pvr_WriteReg_plain:
  assumes "plain_reg (paddr AND pvr_RegMask)"
  shows "pvr_WriteReg a R paddr data s = Ret () (set_PvrReg (paddr AND pvr_RegMask) data s)"
proof -
  define x where "x = paddr AND pvr_RegMask"
  have "x < 0x200" using assms by (simp add: plain_reg_def x_def)
  then have "\<not> 0x1000 \<le> x" "\<not> 0x200 \<le> x" by (simp_all add: word_less_nat_alt word_le_nat_alt)
  then have "write_default R x data s = s"
    by (simp add: write_default_def)
  then show ?thesis
    using assms unfolding pvr_WriteReg_def Let_def x_def [symmetric] by (simp add: plain_reg_def)
qed

lemma pvr_WriteReg_plain_read:
  assumes "plain_reg (paddr AND pvr_RegMask)" "take_bit 2 paddr = 0" "take_bit 2 y = 0"
    "pvr_WriteReg a R paddr data s = Ret () s'"
  shows "pvr_ReadReg y s' = (if y AND pvr_RegMask = paddr AND pvr_RegMask then data else pvr_ReadReg y s)"
  using assms(4) PvrReg_write [OF assms(3), of "paddr AND pvr_RegMask" data s] assms(2)
  by (simp add: pvr_WriteReg_plain [OF assms(1)] pvr_ReadReg_def take_bit_and and.assoc)

end
