(* ===== verification/Sh4_Mmu.thy ===== *)
theory Sh4_Mmu
  imports Sh4_Mem
begin

text \<open>
  The translation of addresses of \<^verbatim>\<open>hw/sh4/modules/mmu.cpp\<close>: the two TLBs, the store queue
  translation, the instruction TLB with its LRU replacement, \<^verbatim>\<open>mmu_set_state\<close> and the LRU
  table of \<^verbatim>\<open>MMU_init\<close>. This is the code of a build without \<^verbatim>\<open>FAST_MMU\<close>. It provides the
  interface \<open>address_translation\<close>.
\<close>

section \<open>Register fields\<close>

definition PTEH_ASID :: "u32 \<Rightarrow> u32" where "PTEH_ASID = fld 0 8"
definition PTEH_VPN :: "u32 \<Rightarrow> u32" where "PTEH_VPN = fld 10 22"
definition PTEL_SH :: "u32 \<Rightarrow> u32" where "PTEL_SH = fld 1 1"
definition PTEL_D :: "u32 \<Rightarrow> u32" where "PTEL_D = fld 2 1"
definition PTEL_SZ0 :: "u32 \<Rightarrow> u32" where "PTEL_SZ0 = fld 4 1"
definition PTEL_PR :: "u32 \<Rightarrow> u32" where "PTEL_PR = fld 5 2"
definition PTEL_SZ1 :: "u32 \<Rightarrow> u32" where "PTEL_SZ1 = fld 7 1"
definition PTEL_V :: "u32 \<Rightarrow> u32" where "PTEL_V = fld 8 1"
definition PTEL_PPN :: "u32 \<Rightarrow> u32" where "PTEL_PPN = fld 10 19"
definition MMUCR_AT :: "u32 \<Rightarrow> u32" where "MMUCR_AT = fld 0 1"
definition MMUCR_SV :: "u32 \<Rightarrow> u32" where "MMUCR_SV = fld 8 1"
definition MMUCR_SQMD :: "u32 \<Rightarrow> u32" where "MMUCR_SQMD = fld 9 1"
definition MMUCR_URC :: "u32 \<Rightarrow> u32" where "MMUCR_URC = fld 10 6"
definition MMUCR_URB :: "u32 \<Rightarrow> u32" where "MMUCR_URB = fld 18 6"
definition MMUCR_LRUI :: "u32 \<Rightarrow> u32" where "MMUCR_LRUI = fld 26 6"
definition QACR_Area :: "u32 \<Rightarrow> u32" where "QACR_Area = fld 2 3"

definition entry_sz :: "u32 \<Rightarrow> u32" where
  "entry_sz data = PTEL_SZ1 data * 2 + PTEL_SZ0 data"

definition mmu_mask :: "u32 \<Rightarrow> u32" where
  "mmu_mask sz = [push_bit 10 (drop_bit 10 0xFFFFFFFF), push_bit 12 (drop_bit 12 0xFFFFFFFF),
     push_bit 16 (drop_bit 16 0xFFFFFFFF), push_bit 20 (drop_bit 20 0xFFFFFFFF)] ! unat (fld 0 2 sz)"

definition fast_reg_lut :: "u32 \<Rightarrow> u32" where
  "fast_reg_lut i = [0, 0, 0, 0, 1, 1, 0, 1] ! unat (fld 0 3 i)"

section \<open>The unified TLB\<close>

definition need_asid_match :: "u32 \<Rightarrow> 'd machine \<Rightarrow> bool" where
  "need_asid_match data s \<longleftrightarrow> PTEL_SH data = 0 \<and>
     (st_MD (ctx_status (m_ctx s)) = 0 \<or> MMUCR_SV (CCN_MMUCR (m_ccn s)) = 0)"

definition mmu_match :: "u32 \<Rightarrow> u32 \<Rightarrow> u32 \<Rightarrow> 'd machine \<Rightarrow> bool" where
  "mmu_match va addr data s =
    (if PTEL_V data = 0 then False
     else let msk = mmu_mask (entry_sz data)
       in if push_bit 10 (PTEH_VPN addr) AND msk = va AND msk
          then \<not> need_asid_match data s \<or> PTEH_ASID addr = PTEH_ASID (CCN_PTEH (m_ccn s))
          else False)"

text \<open>VPN to PPN, low bits unchanged.\<close>

definition entry_translate :: "u32 \<Rightarrow> u32 \<Rightarrow> u32" where
  "entry_translate data va = (let msk = mmu_mask (entry_sz data)
     in (push_bit 10 (PTEL_PPN data) AND msk) OR (va AND NOT msk))"

text \<open>The loop over the entries: the entry found so far, and the address.\<close>

fun utlb_scan :: "u32 \<Rightarrow> 'd machine \<Rightarrow> TLB_Entry list \<Rightarrow> TLB_Entry option \<Rightarrow> u32 \<Rightarrow>
    MmuError \<times> TLB_Entry option \<times> u32" where
  "utlb_scan va s [] found rv = (if found = None then TLB_MISS else NONE, found, rv)"
| "utlb_scan va s (e # es) found rv =
    (if mmu_match va (Address e) (Data e) s
     then (if found \<noteq> None then (TLB_MHIT, found, rv)
           else utlb_scan va s es (Some e) (entry_translate (Data e) va))
     else utlb_scan va s es found rv)"

definition UTLB_list :: "'d machine \<Rightarrow> TLB_Entry list" where
  "UTLB_list s = map (\<lambda>i. UTLB (m_mmu s) (of_nat i)) [0..<64]"

definition bump_URC :: "u32 \<Rightarrow> u32" where
  "bump_URC mmucr = (let m1 = set_fld 10 6 (MMUCR_URC mmucr + 1) mmucr
     in if MMUCR_URB m1 = MMUCR_URC m1 then set_fld 10 6 0 m1 else m1)"

definition mmu_full_lookup ::
  "u32 \<Rightarrow> u32 \<Rightarrow> 'd machine \<Rightarrow> (MmuError \<times> TLB_Entry option \<times> u32) \<times> 'd machine" where
  "mmu_full_lookup va rv s =
    (let s1 = m_ccn_update (CCN_MMUCR_update bump_URC) s
     in (utlb_scan va s1 (UTLB_list s1) None rv, s1))"

definition mmu_QACR_SQ :: "u32 \<Rightarrow> 'd machine \<Rightarrow> u32" where
  "mmu_QACR_SQ va s =
    (let sqi = drop_bit 5 va AND 1;
         addr = push_bit 26 (if sqi \<noteq> 0 then QACR_Area (CCN_QACR1 (m_ccn s)) else QACR_Area (CCN_QACR0 (m_ccn s)))
     in addr OR (va AND 0x03ffffe0))"

text \<open>The protection checks on the entry found. \<open>write\<close> is the translation type.\<close>

definition check_protection :: "bool \<Rightarrow> u32 \<Rightarrow> 'd machine \<Rightarrow> MmuError" where
  "check_protection write data s =
    (if drop_bit 1 (PTEL_PR data) = 0 \<and> st_MD (ctx_status (m_ctx s)) = 0 then PROTECTED
     else if write \<and> PTEL_PR data AND 1 = 0 then PROTECTED
     else if write \<and> PTEL_D data = 0 then FIRSTWRITE
     else NONE)"

definition mmu_full_SQ :: "bool \<Rightarrow> u32 \<Rightarrow> u32 \<Rightarrow> 'd machine \<Rightarrow> (MmuError \<times> u32) \<times> 'd machine" where
  "mmu_full_SQ write va rv s =
    (if va AND 3 \<noteq> 0 \<or> (MMUCR_SQMD (CCN_MMUCR (m_ccn s)) = 1 \<and> st_MD (ctx_status (m_ctx s)) = 0)
     then ((BADADDR, rv), s)
     else if MMUCR_AT (CCN_MMUCR (m_ccn s)) \<noteq> 0 then
       (case mmu_full_lookup va rv s of ((err, entry, rv1), s1) \<Rightarrow>
          let rv2 = rv1 AND NOT 31
          in if err \<noteq> NONE then ((err, rv2), s1)
             else ((check_protection write (Data (the entry)) s1, rv2), s1))
     else ((NONE, mmu_QACR_SQ va s), s))"

definition mmu_data_translation :: "bool \<Rightarrow> u32 \<Rightarrow> u32 \<Rightarrow> 'd machine \<Rightarrow> (MmuError \<times> u32) \<times> 'd machine" where
  "mmu_data_translation write va rv s =
    (if write \<and> va AND 0xFC000000 = 0xE0000000 then
       (case mmu_full_SQ True va rv s of ((err, rv1), s1) \<Rightarrow>
          if err \<noteq> NONE then ((err, rv1), s1) else ((NONE, va), s1))
     else if st_MD (ctx_status (m_ctx s)) = 0 \<and> va AND 0x80000000 \<noteq> 0 then ((BADADDR, rv), s)
     else if va AND 0xFC000000 = 0x7C000000 then ((NONE, va), s)
     else if fast_reg_lut (drop_bit 29 va) \<noteq> 0 then ((NONE, va), s)
     else (case mmu_full_lookup va rv s of ((err, entry, rv1), s1) \<Rightarrow>
       if err \<noteq> NONE then ((err, rv1), s1)
       else let prot = check_protection write (Data (the entry)) s1
         in if prot \<noteq> NONE then ((prot, rv1), s1)
            else ((NONE, if rv1 AND 0x1C000000 = 0x1C000000 then rv1 OR 0xF0000000 else rv1), s1)))"

section \<open>The instruction TLB\<close>

definition ITLB_LRU_OR :: "nat \<Rightarrow> u32" where
  "ITLB_LRU_OR e = [0x00, 0x20, 0x14, 0x0B] ! (e mod 4)"

definition ITLB_LRU_AND :: "nat \<Rightarrow> u32" where
  "ITLB_LRU_AND e = [0x07, 0x39, 0x3E, 0x3F] ! (e mod 4)"

text \<open>\<^verbatim>\<open>MMU_init\<close> fills the table; its \<open>verify\<close> states that no key matches two entries.\<close>

definition lru_key :: "nat \<Rightarrow> u32" where
  "lru_key e = NOT (ITLB_LRU_AND e) AND 0x3F"

definition lru_row :: "nat \<Rightarrow> nat \<Rightarrow> (6 word \<Rightarrow> u32) option \<Rightarrow> (6 word \<Rightarrow> u32) option" where
  "lru_row e i tab = (case tab of None \<Rightarrow> None
     | Some t \<Rightarrow> if (of_nat i AND (lru_key e OR ITLB_LRU_OR e)) = lru_key e
         then (if t (of_nat i) = 0xFFFFFFFF then Some (t(of_nat i := of_nat e)) else None)
         else Some t)"

definition LRU_table :: "(6 word \<Rightarrow> u32) option" where
  "LRU_table = fold (\<lambda>e. fold (lru_row e) [0..<64]) [0..<4] (Some (\<lambda>_. 0xFFFFFFFF))"

definition itlb_match :: "u32 \<Rightarrow> TLB_Entry \<Rightarrow> 'd machine \<Rightarrow> bool" where
  "itlb_match va e s =
    (if PTEL_V (Data e) = 0 then False
     else let msk = mmu_mask (entry_sz (Data e))
       in push_bit 10 (PTEH_VPN (Address e)) AND msk = va AND msk \<and>
          (\<not> need_asid_match (Data e) s \<or> PTEH_ASID (Address e) = PTEH_ASID (CCN_PTEH (m_ccn s))))"

text \<open>\<open>Inl\<close> is the early return with a multiple hit.\<close>

fun itlb_scan :: "u32 \<Rightarrow> 'd machine \<Rightarrow> nat list \<Rightarrow> nat option \<Rightarrow> u32 \<Rightarrow>
    (nat option \<times> u32) + (nat option \<times> u32)" where
  "itlb_scan va s [] found rv = Inr (found, rv)"
| "itlb_scan va s (i # is) found rv =
    (let e = ITLB (m_mmu s) (of_nat i)
     in if itlb_match va e s
        then (if found \<noteq> None then Inl (found, rv)
              else itlb_scan va s is (Some i) (entry_translate (Data e) va))
        else itlb_scan va s is found rv)"

definition touch_LRUI :: "nat \<Rightarrow> u32 \<Rightarrow> u32" where
  "touch_LRUI e mmucr =
    (let m1 = set_fld 26 6 (MMUCR_LRUI mmucr AND ITLB_LRU_AND e) mmucr
     in set_fld 26 6 (MMUCR_LRUI m1 OR ITLB_LRU_OR e) m1)"

text \<open>The hit: update of the LRU bits.\<close>

definition itlb_hit :: "nat \<Rightarrow> u32 \<Rightarrow> ('d, MmuError \<times> nat option \<times> u32) SM" where
  "itlb_hit i rv s = Ret (NONE, Some i, rv) (m_ccn_update (CCN_MMUCR_update (touch_LRUI i)) s)"

text \<open>The body at the label, after the replacement (\<open>mmach\<close> is true).\<close>

definition itlb_retry :: "u32 \<Rightarrow> u32 \<Rightarrow> ('d, MmuError \<times> nat option \<times> u32) SM" where
  "itlb_retry va rv s = (case itlb_scan va s [0..<4] None rv of
     Inl (i, rv1) \<Rightarrow> Ret (TLB_MHIT, i, rv1) s
   | Inr (Some i, rv1) \<Rightarrow> itlb_hit i rv1 s
   | Inr (None, rv1) \<Rightarrow> Throw (Die ''verify'') s)"

definition mmu_instruction_lookup :: "u32 \<Rightarrow> u32 \<Rightarrow> ('d, MmuError \<times> nat option \<times> u32) SM" where
  "mmu_instruction_lookup va rv s = (case itlb_scan va s [0..<4] None rv of
     Inl (i, rv1) \<Rightarrow> Ret (TLB_MHIT, i, rv1) s
   | Inr (Some i, rv1) \<Rightarrow> itlb_hit i rv1 s
   | Inr (None, rv1) \<Rightarrow>
       (case mmu_full_lookup va rv1 s of ((err, entry, rv2), s1) \<Rightarrow>
          if err \<noteq> NONE then Ret (err, None, rv2) s1
          else let replace_index = ITLB_LRU_USE (m_mmu s1) (ucast (MMUCR_LRUI (CCN_MMUCR (m_ccn s1))))
            in if replace_index = 0xFFFFFFFF then Throw (Die ''verify'') s1
               else itlb_retry va rv2 (m_mmu_update (\<lambda>m.
                 m\<lparr>ITLB := (ITLB m)(ucast replace_index := the entry)\<rparr>) s1)))"

definition mmu_instruction_translation :: "u32 \<Rightarrow> u32 \<Rightarrow> ('d, MmuError \<times> u32) SM" where
  "mmu_instruction_translation va rv s =
    (if st_MD (ctx_status (m_ctx s)) = 0 \<and> va AND 0x80000000 \<noteq> 0 then Ret (BADADDR, rv) s
     else if drop_bit 29 va = 7 then Ret (BADADDR, rv) s
     else if fast_reg_lut (drop_bit 29 va) \<noteq> 0 then Ret (NONE, va) s
     else bindM (mmu_instruction_lookup va rv) (\<lambda>(err, i, rv1) s1.
       if err \<noteq> NONE then Ret (err, rv1) s1
       else Ret (check_protection False (Data (ITLB (m_mmu s1) (of_nat (the i)))) s1, rv1) s1) s)"

section \<open>Maintenance\<close>

definition UTLB_Sync :: "u32 \<Rightarrow> 'd machine \<Rightarrow> bool \<times> 'd machine" where
  "UTLB_Sync entry s =
    (let e = UTLB (m_mmu s) (ucast entry)
     in if PTEL_V (Data e) = 0 then (True, s)
        else if PTEH_VPN (Address e) AND drop_bit 10 0xFC000000 = drop_bit 10 0xE0000000 then
          let vpn_sq = drop_bit 10 (PTEH_VPN (Address e) AND 0x7FFFF) AND 0x3F
          in (True, m_mmu_update (\<lambda>m. m\<lparr>sq_remap := (sq_remap m)(ucast vpn_sq :=
                push_bit 10 (PTEL_PPN (Data e)))\<rparr>) s)
        else (False, s))"

definition mmu_flush_table :: "'d machine \<Rightarrow> 'd machine" where
  "mmu_flush_table = m_mmu_update (\<lambda>m.
     m\<lparr>ITLB := (\<lambda>i. Data_update (set_fld 8 1 0) (ITLB m i)),
       UTLB := (\<lambda>i. Data_update (set_fld 8 1 0) (UTLB m i))\<rparr>)"

text \<open>
  \<^verbatim>\<open>mmu_set_state\<close> turns full translation on when it recognises the kernel of Windows CE in
  memory; \<open>ram\<close> is the block of main memory. \<^verbatim>\<open>SetMemoryHandlers\<close> is in the choice made by
  each access; \<^verbatim>\<open>setSqwHandler\<close> is a parameter here.
\<close>

definition ce_magic :: "u8 list" where
  "ce_magic = [0x53, 0, 0x48, 0, 0x2D, 0, 0x34, 0, 0x20, 0, 0x4B, 0, 0x65, 0, 0x72, 0, 0x6E, 0,
     0x65, 0, 0x6C, 0]"

definition mmu_set_state :: "('d machine \<Rightarrow> 'd machine) \<Rightarrow> areas \<Rightarrow> 'd machine \<Rightarrow> 'd machine" where
  "mmu_set_state setSqwHandler a s =
    (let at = (\<lambda>p. map (\<lambda>k. m_mem s (a_ram a) (p + of_nat k)) [0..<length ce_magic]);
         s1 = (if MMUCR_AT (CCN_MMUCR (m_ccn s)) = 1 then
             (if at 0x0110a8 = ce_magic \<or> at 0x011118 = ce_magic
              then m_mmu_update (mmuOn_update (\<lambda>_. True)) s else s)
           else m_mmu_update (mmuOn_update (\<lambda>_. False)) s)
     in setSqwHandler s1)"

definition MMU_reset :: "('d machine \<Rightarrow> 'd machine) \<Rightarrow> areas \<Rightarrow> 'd machine \<Rightarrow> 'd machine" where
  "MMU_reset setSqwHandler a s =
    m_mmu_update (sq_remap_update (\<lambda>_ _. 0)) (mmu_flush_table (mmu_set_state setSqwHandler a
      (m_mmu_update (\<lambda>m. m\<lparr>UTLB := (\<lambda>_. zero_entry), ITLB := (\<lambda>_. zero_entry)\<rparr>) s)))"

text \<open>Store queue addresses; without translation the 1 MB remap table is used.\<close>

definition mmu_TranslateSQW :: "u32 \<Rightarrow> ('d, u32) SM" where
  "mmu_TranslateSQW adr s =
    (if \<not> mmuOn (m_mmu s)
     then Ret (sq_remap (m_mmu s) (ucast (drop_bit 20 adr AND 0x3F)) OR (adr AND 0xFFFE0)) s
     else case mmu_full_SQ False adr 0 s of ((tv, addr), s1) \<Rightarrow>
       if tv \<noteq> NONE then mmu_raise_exception tv adr MMU_TT_DREAD s1 else Ret addr s1)"

text \<open>The two translations as the access functions call them, and the environment with them.\<close>

definition mmu_dtrans :: "bool \<Rightarrow> u32 \<Rightarrow> ('d, MmuError \<times> u32) SM" where
  "mmu_dtrans w va = liftM (mmu_data_translation w va 0)"

definition mmu_itrans :: "u32 \<Rightarrow> ('d, MmuError \<times> u32) SM" where
  "mmu_itrans va = mmu_instruction_translation va 0"

definition with_mmu :: "'d env \<Rightarrow> 'd env" where
  "with_mmu E = E\<lparr>e_data_translation := mmu_dtrans, e_instruction_translation := mmu_itrans,
     e_UTLB_Sync := UTLB_Sync\<rparr>"

section \<open>Frames\<close>

lemma bump_URC_SV: "MMUCR_SV (bump_URC v) = MMUCR_SV v"
  by (simp add: bump_URC_def MMUCR_SV_def Let_def field_simps_bits)

lemma touch_LRUI_SV: "MMUCR_SV (touch_LRUI i v) = MMUCR_SV v"
  by (simp add: touch_LRUI_def MMUCR_SV_def Let_def field_simps_bits)

lemma bump_URC_LRUI: "MMUCR_LRUI (bump_URC v) = MMUCR_LRUI v"
  by (simp add: bump_URC_def MMUCR_LRUI_def Let_def field_simps_bits)

text \<open>What a match depends on.\<close>

definition match_env :: "'d machine \<Rightarrow> bool \<times> bool \<times> u32" where
  "match_env s = (st_MD (ctx_status (m_ctx s)) = 0, MMUCR_SV (CCN_MMUCR (m_ccn s)) = 0,
     PTEH_ASID (CCN_PTEH (m_ccn s)))"

lemma mmu_match_cong:
  assumes "match_env s = match_env s'"
  shows "mmu_match va ad d s = mmu_match va ad d s'" "itlb_match va e s = itlb_match va e s'"
  using assms by (auto simp: mmu_match_def itlb_match_def need_asid_match_def match_env_def Let_def)

lemma itlb_match_mmu_match: "itlb_match va e s = mmu_match va (Address e) (Data e) s"
  by (simp add: itlb_match_def mmu_match_def Let_def)

lemma match_env_bump [simp]:
  "match_env (m_ccn_update (CCN_MMUCR_update bump_URC) s) = match_env s"
  "match_env (m_ccn_update (CCN_MMUCR_update (touch_LRUI i)) s) = match_env s"
  "match_env (m_mmu_update f s) = match_env s"
  by (simp_all add: match_env_def bump_URC_SV touch_LRUI_SV)

section \<open>The lookup as a filter\<close>

definition tlb_matches :: "u32 \<Rightarrow> 'd machine \<Rightarrow> TLB_Entry list" where
  "tlb_matches va s = filter (\<lambda>e. mmu_match va (Address e) (Data e) s) (UTLB_list s)"

definition lookup_spec :: "u32 \<Rightarrow> u32 \<Rightarrow> TLB_Entry list \<Rightarrow> MmuError \<times> TLB_Entry option \<times> u32" where
  "lookup_spec va rv es = (case es of [] \<Rightarrow> (TLB_MISS, None, rv)
     | e # es' \<Rightarrow> (if es' = [] then NONE else TLB_MHIT, Some e, entry_translate (Data e) va))"

lemma utlb_scan_Some:
  "utlb_scan va s es (Some e) rv =
    (if filter (\<lambda>e. mmu_match va (Address e) (Data e) s) es = [] then (NONE, Some e, rv)
     else (TLB_MHIT, Some e, rv))"
  by (induction es) simp_all

lemma utlb_scan_spec:
  "utlb_scan va s es None rv = lookup_spec va rv (filter (\<lambda>e. mmu_match va (Address e) (Data e) s) es)"
  by (induction es) (simp_all add: lookup_spec_def utlb_scan_Some)

lemma full_lookup_spec:
  "mmu_full_lookup va rv s =
    (lookup_spec va rv (tlb_matches va s), m_ccn_update (CCN_MMUCR_update bump_URC) s)"
proof -
  let ?s = "m_ccn_update (CCN_MMUCR_update bump_URC) s"
  have "mmu_match va ad d ?s = mmu_match va ad d s" for ad d
    by (rule mmu_match_cong) simp
  then show ?thesis
    by (simp add: mmu_full_lookup_def utlb_scan_spec tlb_matches_def UTLB_list_def Let_def)
qed

lemma check_protection_cong:
  "match_env s = match_env s' \<Longrightarrow> check_protection w d s = check_protection w d s'"
  by (simp add: check_protection_def match_env_def)

section \<open>Translated addresses\<close>

lemma page_low_bits:
  "entry_translate d va AND NOT (mmu_mask (entry_sz d)) = va AND NOT (mmu_mask (entry_sz d))"
  unfolding entry_translate_def Let_def
  by (rule bit_word_eqI) (auto simp: bit_simps)

lemma mmu_mask_values: "mmu_mask sz \<in> {0xFFFFFC00, 0xFFFFF000, 0xFFFF0000, 0xFFF00000}"
proof -
  have "unat (fld 0 2 sz) < 4" using fld_less [of 2 0 sz] by (simp add: word_less_nat_alt)
  then consider "unat (fld 0 2 sz) = 0" | "unat (fld 0 2 sz) = 1" | "unat (fld 0 2 sz) = 2"
    | "unat (fld 0 2 sz) = 3" by linarith
  then show ?thesis by cases (simp_all add: mmu_mask_def)
qed

section \<open>The replacement order of the instruction TLB\<close>

text \<open>
  The abstraction of the six LRU bits: the entries from the least to the most recently used.
  Bit 5 compares entries 0 and 1, and so on; it is set when the second was used later.
\<close>

definition lru_pairs :: "(nat \<times> nat \<times> nat) list" where
  "lru_pairs = [(0, 1, 5), (0, 2, 4), (0, 3, 3), (1, 2, 2), (1, 3, 1), (2, 3, 0)]"

definition used_later :: "nat list \<Rightarrow> nat \<Rightarrow> nat \<Rightarrow> bool" where
  "used_later p a b \<longleftrightarrow> b \<in> set (tl (dropWhile (\<lambda>x. x \<noteq> a) p))"

definition lru_code :: "nat list \<Rightarrow> u32" where
  "lru_code p = fold (\<lambda>(a, b, k) w. if used_later p a b then w OR push_bit k 1 else w) lru_pairs 0"

definition lru_orders :: "nat list list" where
  "lru_orders = filter distinct (List.n_lists 4 [0..<4])"

definition lru_ok :: "(6 word \<Rightarrow> u32) \<Rightarrow> bool" where
  "lru_ok t \<longleftrightarrow> list_all (\<lambda>p. t (ucast (lru_code p)) = of_nat (hd p) \<and> hd p < 4 \<and>
     list_all (\<lambda>e. (lru_code p AND ITLB_LRU_AND e) OR ITLB_LRU_OR e = lru_code (remove1 e p @ [e]))
       [0..<4]) lru_orders"

lemma LRU_table_ok: "(case LRU_table of None \<Rightarrow> False | Some t \<Rightarrow> lru_ok t)"
  by code_simp

text \<open>\<open>lru_state s p\<close>: the bits encode the order \<open>p\<close> and the table is the one of \<^verbatim>\<open>MMU_init\<close>.\<close>

definition lru_state :: "'d machine \<Rightarrow> nat list \<Rightarrow> bool" where
  "lru_state s p \<longleftrightarrow> p \<in> set lru_orders \<and> MMUCR_LRUI (CCN_MMUCR (m_ccn s)) = lru_code p \<and>
     LRU_table = Some (ITLB_LRU_USE (m_mmu s))"

definition itlb_touch :: "nat \<Rightarrow> 'd machine \<Rightarrow> 'd machine" where
  "itlb_touch i = m_ccn_update (CCN_MMUCR_update (touch_LRUI i))"

definition itlb_fill :: "nat \<Rightarrow> TLB_Entry \<Rightarrow> 'd machine \<Rightarrow> 'd machine" where
  "itlb_fill i e = m_mmu_update (\<lambda>m. m\<lparr>ITLB := (ITLB m)(of_nat i := e)\<rparr>)"

lemma MMUCR_LRUI_touch: "MMUCR_LRUI (touch_LRUI e v) = (MMUCR_LRUI v AND ITLB_LRU_AND e) OR ITLB_LRU_OR e"
proof -
  have "e mod 4 = 0 \<or> e mod 4 = 1 \<or> e mod 4 = 2 \<or> e mod 4 = 3" by linarith
  then have "take_bit 6 (ITLB_LRU_OR e) = ITLB_LRU_OR e"
    "take_bit 6 (ITLB_LRU_AND e) = ITLB_LRU_AND e"
    by (elim disjE; simp add: ITLB_LRU_OR_def ITLB_LRU_AND_def)+
  moreover have "take_bit 6 (MMUCR_LRUI v) = MMUCR_LRUI v"
    by (simp add: MMUCR_LRUI_def fld_def)
  ultimately show ?thesis
    by (simp add: touch_LRUI_def Let_def MMUCR_LRUI_def field_simps_bits)
qed

lemma lru_stateD:
  assumes "lru_state s p"
  shows "ITLB_LRU_USE (m_mmu s) (ucast (MMUCR_LRUI (CCN_MMUCR (m_ccn s)))) = of_nat (hd p)"
    "hd p < 4" "i < 4 \<Longrightarrow> lru_code (remove1 i p @ [i]) = (lru_code p AND ITLB_LRU_AND i) OR ITLB_LRU_OR i"
    "i < 4 \<Longrightarrow> remove1 i p @ [i] \<in> set lru_orders"
proof -
  have tab: "lru_ok (ITLB_LRU_USE (m_mmu s))"
  proof -
    have t: "LRU_table = Some (ITLB_LRU_USE (m_mmu s))" using assms by (simp only: lru_state_def)
    show ?thesis using LRU_table_ok unfolding t by (simp only: option.case)
  qed
  have p: "p \<in> set lru_orders" using assms by (simp add: lru_state_def)
  show "ITLB_LRU_USE (m_mmu s) (ucast (MMUCR_LRUI (CCN_MMUCR (m_ccn s)))) = of_nat (hd p)" "hd p < 4"
    using tab p assms by (simp_all add: lru_ok_def list_all_iff lru_state_def)
  show "lru_code (remove1 i p @ [i]) = (lru_code p AND ITLB_LRU_AND i) OR ITLB_LRU_OR i" if "i < 4"
    using tab p that by (simp add: lru_ok_def list_all_iff)
  have "distinct p" "length p = 4" "set p \<subseteq> {0..<4}"
    using p by (auto simp: lru_orders_def set_n_lists)
  then have "set p = {0..<4}" by (metis card_atLeastLessThan card_subset_eq diff_zero distinct_card finite_atLeastLessThan)
  with \<open>distinct p\<close> \<open>length p = 4\<close> show "remove1 i p @ [i] \<in> set lru_orders" if "i < 4"
    using that by (auto simp: lru_orders_def set_n_lists length_remove1 distinct_remove1 set_remove1_eq)
qed

lemma lru_state_touch: "lru_state s p \<Longrightarrow> i < 4 \<Longrightarrow> lru_state (itlb_touch i s) (remove1 i p @ [i])"
  using lru_stateD(3,4) [of s p i]
  by (simp add: lru_state_def itlb_touch_def MMUCR_LRUI_touch)

lemma lru_state_frame:
  "lru_state (m_ccn_update (CCN_MMUCR_update bump_URC) s) p = lru_state s p"
  "lru_state (itlb_fill i e s) p = lru_state s p"
  by (simp_all add: lru_state_def bump_URC_LRUI itlb_fill_def)

section \<open>The instruction lookup\<close>

definition itlb_hits :: "u32 \<Rightarrow> 'd machine \<Rightarrow> nat list" where
  "itlb_hits va s = filter (\<lambda>i. itlb_match va (ITLB (m_mmu s) (of_nat i)) s) [0..<4]"

lemma itlb_scan_Some:
  "itlb_scan va s is (Some k) rv =
    (if filter (\<lambda>i. itlb_match va (ITLB (m_mmu s) (of_nat i)) s) is = [] then Inr (Some k, rv)
     else Inl (Some k, rv))"
  by (induction "is") (simp_all add: Let_def)

lemma itlb_scan_spec:
  "itlb_scan va s is None rv =
    (case filter (\<lambda>i. itlb_match va (ITLB (m_mmu s) (of_nat i)) s) is of
       [] \<Rightarrow> Inr (None, rv)
     | i # is' \<Rightarrow> (if is' = [] then Inr else Inl)
         (Some i, entry_translate (Data (ITLB (m_mmu s) (of_nat i))) va))"
  by (induction "is") (simp_all add: Let_def itlb_scan_Some)

lemma of_nat_2_word_eq: "i < 4 \<Longrightarrow> j < 4 \<Longrightarrow> (of_nat i :: 2 word) = of_nat j \<longleftrightarrow> i = j"
  by (auto simp: word_unat_eq_iff unsigned_of_nat take_bit_nat_eq_self)

lemma itlb_hits_fill:
  assumes "itlb_hits va s = []" "k < 4" "mmu_match va (Address e) (Data e) s"
  shows "itlb_hits va (itlb_fill k e s) = [k]"
proof -
  have m: "itlb_match va x (itlb_fill k e s) = itlb_match va x s" for x
    by (rule mmu_match_cong) (simp add: itlb_fill_def)
  have none: "\<not> itlb_match va (ITLB (m_mmu s) (of_nat i)) s" if "i < 4" for i
    using assms(1) that by (auto simp: itlb_hits_def filter_empty_conv)
  have "itlb_hits va (itlb_fill k e s) = filter (\<lambda>i. i = k) [0..<4]"
    unfolding itlb_hits_def m
    by (rule filter_cong)
      (use assms(2,3) none in \<open>auto simp: itlb_fill_def of_nat_2_word_eq itlb_match_mmu_match\<close>)
  also have "\<dots> = [k]"
  proof -
    from assms(2) consider "k = 0" | "k = 1" | "k = 2" | "k = 3" by linarith
    then show ?thesis by cases (simp_all add: upt_rec)
  qed
  finally show ?thesis .
qed

lemma ucast_of_nat_2: "k < 4 \<Longrightarrow> (ucast (of_nat k :: u32) :: 2 word) = of_nat k"
  by (simp add: word_unat_eq_iff unsigned_of_nat unsigned_ucast_eq take_bit_nat_eq_self)

lemma of_nat_not_m1: "k < 4 \<Longrightarrow> (of_nat k :: u32) \<noteq> 0xFFFFFFFF"
  by (simp add: word_unat_eq_iff unsigned_of_nat take_bit_nat_eq_self)


lemma itlb_hits_cong: "match_env s = match_env s' \<Longrightarrow> ITLB (m_mmu s) = ITLB (m_mmu s') \<Longrightarrow>
    itlb_hits va s = itlb_hits va s'"
  unfolding itlb_hits_def using mmu_match_cong(2) [of s s' va] by simp

text \<open>The state after a lookup, by what the two TLBs hold; \<open>p\<close> is the order of use.\<close>

definition itlb_spec :: "nat list \<Rightarrow> u32 \<Rightarrow> u32 \<Rightarrow> 'd machine \<Rightarrow> (MmuError \<times> nat option \<times> u32) \<times> 'd machine" where
  "itlb_spec p va rv s = (case itlb_hits va s of
     i # is \<Rightarrow> let tr = entry_translate (Data (ITLB (m_mmu s) (of_nat i))) va
       in if is = [] then ((NONE, Some i, tr), itlb_touch i s) else ((TLB_MHIT, Some i, tr), s)
   | [] \<Rightarrow> let s1 = m_ccn_update (CCN_MMUCR_update bump_URC) s
       in case tlb_matches va s of
          [] \<Rightarrow> ((TLB_MISS, None, rv), s1)
        | e # es \<Rightarrow> let tr = entry_translate (Data e) va
            in if es = [] then ((NONE, Some (hd p), tr), itlb_touch (hd p) (itlb_fill (hd p) e s1))
               else ((TLB_MHIT, None, tr), s1))"

lemma mmu_instruction_lookup_spec:
  assumes "lru_state s p"
  shows "mmu_instruction_lookup va rv s = Ret (fst (itlb_spec p va rv s)) (snd (itlb_spec p va rv s))"
proof (cases "itlb_hits va s")
  case (Cons i js)
  then show ?thesis
    by (simp add: mmu_instruction_lookup_def itlb_scan_spec itlb_hits_def [symmetric] itlb_spec_def
        Let_def itlb_hit_def itlb_touch_def)
next
  case Nil
  let ?s1 = "m_ccn_update (CCN_MMUCR_update bump_URC) s"
  have hits1: "itlb_hits va ?s1 = []" using Nil by (subst itlb_hits_cong [of _ s]) simp_all
  show ?thesis
  proof (cases "tlb_matches va s")
    case Nil2: Nil
    then show ?thesis
      using Nil by (simp add: mmu_instruction_lookup_def itlb_scan_spec itlb_hits_def [symmetric]
          itlb_spec_def full_lookup_spec lookup_spec_def Let_def)
  next
    case (Cons e es)
    then have "mmu_match va (Address e) (Data e) s" by (auto simp: tlb_matches_def dest: filter_eq_ConsD)
    then have match: "mmu_match va (Address e) (Data e) ?s1"
      by (subst mmu_match_cong [of _ s]) simp_all
    have hd4: "hd p < 4" and use: "ITLB_LRU_USE (m_mmu s) (ucast (MMUCR_LRUI (CCN_MMUCR (m_ccn s)))) = of_nat (hd p)"
      using lru_stateD [OF assms] by simp_all
    have hits2: "itlb_hits va (itlb_fill (hd p) e ?s1) = [hd p]"
      by (rule itlb_hits_fill [OF hits1 hd4 match])
    have entry: "ITLB (m_mmu (itlb_fill (hd p) e ?s1)) (of_nat (hd p)) = e" by (simp add: itlb_fill_def)
    have "itlb_retry va rv2 (itlb_fill (hd p) e ?s1) =
        Ret (NONE, Some (hd p), entry_translate (Data e) va) (itlb_touch (hd p) (itlb_fill (hd p) e ?s1))" for rv2
      using hits2 entry
      by (simp add: itlb_retry_def itlb_scan_spec itlb_hits_def [symmetric] itlb_hit_def itlb_touch_def)
    then show ?thesis
      using Nil Cons use hd4
      by (simp add: mmu_instruction_lookup_def itlb_scan_spec itlb_hits_def [symmetric]
          itlb_spec_def full_lookup_spec lookup_spec_def Let_def bump_URC_LRUI of_nat_not_m1
          ucast_of_nat_2 itlb_fill_def)
  qed
qed

section \<open>The interface of the access functions\<close>

lemma full_lookup_ctx: "mmu_full_lookup va rv s = (r, s') \<Longrightarrow> m_ctx s' = m_ctx s"
  by (auto simp: mmu_full_lookup_def Let_def)

lemma full_SQ_ctx: "mmu_full_SQ w va rv s = (r, s') \<Longrightarrow> m_ctx s' = m_ctx s"
  by (auto simp: mmu_full_SQ_def Let_def split: prod.splits if_splits dest: full_lookup_ctx)

lemma data_translation_ctx: "m_ctx (snd (mmu_data_translation w va rv s)) = m_ctx s"
  by (auto simp: mmu_data_translation_def Let_def split: prod.split
      dest: full_lookup_ctx full_SQ_ctx)

lemma itlb_retry_quiet: "quiet (itlb_retry va rv)"
  by (rule quietI) (auto simp: itlb_retry_def itlb_hit_def split: sum.splits prod.splits option.splits)

lemma instruction_lookup_quiet: "quiet (mmu_instruction_lookup va rv)"
proof (rule quietI)
  fix s :: "'a machine" and a s'
  assume "mmu_instruction_lookup va rv s = Ret a s'"
  then show "regs_of (m_ctx s') = regs_of (m_ctx s)"
    by (auto simp: mmu_instruction_lookup_def itlb_hit_def Let_def
        split: sum.splits prod.splits option.splits if_splits
        dest!: full_lookup_ctx quietD(1) [OF itlb_retry_quiet])
next
  fix s :: "'a machine" and e s'
  assume "mmu_instruction_lookup va rv s = Throw e s'"
  then show "\<not> sh4_throw e"
    by (auto simp: mmu_instruction_lookup_def itlb_hit_def Let_def
        split: sum.splits prod.splits option.splits if_splits
        dest: quietD(2) [OF itlb_retry_quiet])
qed

lemma mmu_dtrans_quiet: "quiet (mmu_dtrans w a)"
  by (simp add: quiet_def mmu_dtrans_def data_translation_ctx)

lemma mmu_itrans_quiet: "quiet (mmu_itrans a)"
proof -
  have f: "quiet (\<lambda>s1. if err \<noteq> NONE then Ret (err, rv1) s1 else Ret (g s1, rv1) s1)" for err rv1 g
    by (simp add: quiet_def)
  have "quiet (bindM (mmu_instruction_lookup a 0) (\<lambda>(err, i, rv1) s1.
       if err \<noteq> NONE then Ret (err, rv1) s1
       else Ret (check_protection False (Data (ITLB (m_mmu s1) (of_nat (the i)))) s1, rv1) s1))"
    by (rule quiet_bind [OF instruction_lookup_quiet]) (simp add: f split: prod.split)
  then show ?thesis
    by (intro quietI)
      (auto simp: mmu_itrans_def mmu_instruction_translation_def split: if_splits
        dest: quietD)
qed

interpretation strict_mmu: address_translation mmu_dtrans mmu_itrans
  by unfold_locales (rule mmu_dtrans_quiet, rule mmu_itrans_quiet)

section \<open>Properties\<close>

text \<open>The region of addresses that goes through the TLB, and the access that may reach it.\<close>

definition translated :: "bool \<Rightarrow> u32 \<Rightarrow> 'd machine \<Rightarrow> bool" where
  "translated w va s \<longleftrightarrow> \<not> (w \<and> va AND 0xFC000000 = 0xE0000000) \<and> va AND 0xFC000000 \<noteq> 0x7C000000 \<and>
     fast_reg_lut (drop_bit 29 va) = 0 \<and> (st_MD (ctx_status (m_ctx s)) = 0 \<longrightarrow> va AND 0x80000000 = 0)"

lemma data_translation_eq:
  assumes "translated w va s"
  shows "fst (mmu_data_translation w va rv s) = (case tlb_matches va s of [] \<Rightarrow> (TLB_MISS, rv)
    | e # es \<Rightarrow> let pa = entry_translate (Data e) va in
        if es \<noteq> [] then (TLB_MHIT, pa)
        else if check_protection w (Data e) s \<noteq> NONE then (check_protection w (Data e) s, pa)
        else (NONE, if pa AND 0x1C000000 = 0x1C000000 then pa OR 0xF0000000 else pa))"
proof -
  have prot: "check_protection w d (m_ccn_update (CCN_MMUCR_update bump_URC) s) = check_protection w d s" for d
    by (rule check_protection_cong) simp
  show ?thesis
    using assms
    by (auto simp: mmu_data_translation_def translated_def full_lookup_spec lookup_spec_def Let_def
        prot split: list.split)
qed

lemma data_translation_state:
  assumes "translated w va s"
  shows "snd (mmu_data_translation w va rv s) = m_ccn_update (CCN_MMUCR_update bump_URC) s"
  using assms
  by (auto simp: mmu_data_translation_def translated_def full_lookup_spec Let_def split: prod.split)

text \<open>The protection key of a page, bit by bit: bit 1 opens it to user mode, bit 0 to writes.\<close>

definition key_refuses :: "bool \<Rightarrow> u32 \<Rightarrow> 'd machine \<Rightarrow> bool" where
  "key_refuses w d s \<longleftrightarrow> st_MD (ctx_status (m_ctx s)) = 0 \<and> \<not> bit (PTEL_PR d) 1 \<or> w \<and> \<not> bit (PTEL_PR d) 0"

lemma check_protection_key:
  "check_protection w d s =
    (if key_refuses w d s then PROTECTED else if w \<and> PTEL_D d = 0 then FIRSTWRITE else NONE)"
proof -
  have "drop_bit 1 (PTEL_PR d) = 0 \<longleftrightarrow> \<not> bit (PTEL_PR d) 1"
  proof
    assume "\<not> bit (PTEL_PR d) 1"
    then show "drop_bit 1 (PTEL_PR d) = 0"
      by (intro bit_word_eqI) (auto simp: PTEL_PR_def bit_fld bit_drop_bit_eq)
  next
    have "bit (PTEL_PR d) 1 = bit (drop_bit 1 (PTEL_PR d)) 0" by (simp add: bit_drop_bit_eq)
    also assume "drop_bit 1 (PTEL_PR d) = 0"
    finally show "\<not> bit (PTEL_PR d) 1" by simp
  qed
  moreover have "PTEL_PR d AND 1 = 0 \<longleftrightarrow> \<not> bit (PTEL_PR d) 0"
    by (metis and_exp_eq_0_iff_not_bit power_0)
  ultimately show ?thesis by (auto simp: check_protection_def key_refuses_def)
qed

text \<open>
  What a TLB entry promises, without masks: it is valid, the address lies in its page, and it is
  shared, or the CPU is privileged in single virtual mode, or its address space is the current one.
\<close>

definition page_bits :: "u32 \<Rightarrow> nat" where
  "page_bits d = (if PTEL_SZ1 d = 0 then if PTEL_SZ0 d = 0 then 10 else 12
     else if PTEL_SZ0 d = 0 then 16 else 20)"

definition page_mapped :: "u32 \<Rightarrow> 'd machine \<Rightarrow> TLB_Entry \<Rightarrow> bool" where
  "page_mapped va s e \<longleftrightarrow> PTEL_V (Data e) \<noteq> 0 \<and>
     drop_bit (page_bits (Data e)) va = drop_bit (page_bits (Data e)) (Address e) \<and>
     (PTEL_SH (Data e) \<noteq> 0 \<or>
      st_MD (ctx_status (m_ctx s)) \<noteq> 0 \<and> MMUCR_SV (CCN_MMUCR (m_ccn s)) \<noteq> 0 \<or>
      PTEH_ASID (Address e) = PTEH_ASID (CCN_PTEH (m_ccn s)))"

lemma fld_bit_cases: "fld n 1 (d :: u32) = 0 \<or> fld n 1 d = 1"
  using fld_less [of 1 n d] by (auto simp: word_less_nat_alt word_unat_eq_iff)

lemma mmu_mask_page: "mmu_mask (entry_sz d) = NOT (mask (page_bits d))"
  using fld_bit_cases [of 4 d] fld_bit_cases [of 7 d]
  by (auto simp: mmu_mask_def entry_sz_def page_bits_def PTEL_SZ0_def PTEL_SZ1_def
      mask_eq_exp_minus_1 fld_and_mask)

lemma and_not_mask_push: "x AND NOT (mask n) = push_bit n (drop_bit n (x :: u32))"
  by (rule bit_word_eqI) (auto simp: bit_simps)

lemma and_not_mask_eq: "x AND NOT (mask n) = y AND NOT (mask n) \<longleftrightarrow> drop_bit n x = drop_bit n (y :: u32)"
proof
  assume "x AND NOT (mask n) = y AND NOT (mask n)"
  then have "drop_bit n (x AND NOT (mask n)) = drop_bit n (y AND NOT (mask n))" by simp
  moreover have "drop_bit n (z AND NOT (mask n)) = drop_bit n z" for z :: u32
    by (rule bit_word_eqI) (auto simp: bit_simps dest: bit_imp_le_length)
  ultimately show "drop_bit n x = drop_bit n y" by simp
qed (simp add: and_not_mask_push)

lemma mmu_match_page_mapped: "mmu_match va (Address e) (Data e) s = page_mapped va s e"
proof -
  have "drop_bit n (push_bit 10 (PTEH_VPN a)) = drop_bit n a" if "10 \<le> n" for n and a :: u32
    using that by (intro bit_word_eqI) (auto simp: bit_simps PTEH_VPN_def bit_fld dest: bit_imp_le_length)
  then have "drop_bit (page_bits d) (push_bit 10 (PTEH_VPN a)) = drop_bit (page_bits d) a" for d a
    by (simp add: page_bits_def)
  then show ?thesis
    by (auto simp: mmu_match_def page_mapped_def Let_def mmu_mask_page and_not_mask_eq need_asid_match_def)
qed

lemma tlb_matches_page_mapped: "tlb_matches va s = filter (page_mapped va s) (UTLB_list s)"
  by (simp add: tlb_matches_def mmu_match_page_mapped)

text \<open>The physical address behind an entry: its page number above the bits of the page, the
  offset of the virtual address below.\<close>

definition page_address :: "u32 \<Rightarrow> TLB_Entry \<Rightarrow> u32" where
  "page_address va e = (let n = page_bits (Data e)
     in push_bit n (drop_bit (n - 10) (PTEL_PPN (Data e))) OR va AND mask n)"

lemma entry_translate_page: "entry_translate (Data e) va = page_address va e"
proof -
  have "push_bit 10 p AND NOT (mask n) = push_bit n (drop_bit (n - 10) p)" if "10 \<le> n" for n and p :: u32
    using that by (intro bit_word_eqI) (auto simp: bit_simps dest: bit_imp_le_length)
  moreover have "10 \<le> page_bits (Data e)" by (simp add: page_bits_def)
  ultimately show ?thesis
    by (simp add: entry_translate_def page_address_def Let_def mmu_mask_page)
qed

text \<open>C9: A data access that goes through the TLB gets the verdict of the entries that map its
  address. No entry is a TLB miss and several are a multiple hit. A single entry refuses the
  access as protected exactly when its key is closed to it (bit 1 of the key for user mode, bit 0
  for a write), answers a permitted write with a first write exactly when the page is not
  dirty, and otherwise translates it: the physical address is the entry's page number followed by
  the offset in the page, moved to the P4 region when it lies in area 7. The only change of state is the step of
  the replacement counter.\<close>
theorem data_translation_sound:
  assumes "translated w va s"
  shows "case mmu_data_translation w va rv s of ((err, pa), s') \<Rightarrow>
    s' = m_ccn_update (CCN_MMUCR_update bump_URC) s \<and>
    (case filter (page_mapped va s) (UTLB_list s) of
       [] \<Rightarrow> err = TLB_MISS
     | [e] \<Rightarrow> (err = PROTECTED \<longleftrightarrow> key_refuses w (Data e) s) \<and>
         (err = FIRSTWRITE \<longleftrightarrow> \<not> key_refuses w (Data e) s \<and> w \<and> PTEL_D (Data e) = 0) \<and>
         (err = NONE \<longleftrightarrow> \<not> key_refuses w (Data e) s \<and> \<not> (w \<and> PTEL_D (Data e) = 0)) \<and>
         (err = NONE \<longrightarrow> pa = (if page_address va e AND 0x1C000000 = 0x1C000000
            then page_address va e OR 0xF0000000 else page_address va e))
     | _ \<Rightarrow> err = TLB_MHIT)"
  using data_translation_eq [OF assms, of rv] data_translation_state [OF assms, of rv]
  by (auto simp: tlb_matches_page_mapped Let_def check_protection_key entry_translate_page
      split: list.splits prod.splits if_splits)

definition mmu_witness :: "unit machine" where
  "mmu_witness = m_mmu_update (\<lambda>m. m\<lparr>UTLB := (UTLB m)(0 := \<lparr>Address = 0x00010000,
     Data = 0x0C000174, Assistance = 0\<rparr>)\<rparr>) (zero_machine ())"

theorem data_translation_sound_witness:
  "fst (mmu_data_translation True 0x00010ABC 0 mmu_witness) = (NONE, 0x0C000ABC) \<and>
   length (filter (page_mapped 0x00010ABC mmu_witness) (UTLB_list mmu_witness)) = 1 \<and>
   \<not> key_refuses True 0x0C000174 mmu_witness"
proof -
  have t: "translated True 0x00010ABC mmu_witness" by code_simp
  have m: "filter (page_mapped 0x00010ABC mmu_witness) (UTLB_list mmu_witness) =
      [\<lparr>Address = 0x00010000, Data = 0x0C000174, Assistance = 0\<rparr>]"
    by code_simp
  have "fst (mmu_data_translation True 0x00010ABC 0 mmu_witness) = (NONE, 0x0C000ABC)" by code_simp
  with data_translation_sound [OF t, of 0] show ?thesis
    by (auto simp: m split: prod.splits)
qed

text \<open>C10: While the LRU bits encode an order of use, an instruction lookup never reaches a failed
  \<open>verify\<close>: it returns what the contents of the two TLBs say, a miss in the instruction TLB
  replaces the entry that was used least recently, and the bits afterwards encode the order
  with the entry of the hit moved to the end.\<close>
theorem instruction_lookup_lru:
  assumes "lru_state s p"
  shows "case itlb_spec p va rv s of ((err, i, pa), s') \<Rightarrow>
    mmu_instruction_lookup va rv s = Ret (err, i, pa) s' \<and>
    (err = NONE \<longrightarrow> (\<exists>k. i = Some k \<and> lru_state s' (remove1 k p @ [k]) \<and>
       (itlb_hits va s = [] \<longrightarrow> k = hd p))) \<and>
    (err \<noteq> NONE \<longrightarrow> lru_state s' p)"
proof -
  have hit: "i < 4" if "itlb_hits va s = i # js" for i js
    using that by (metis atLeastLessThan_iff filter_is_subset itlb_hits_def list.set_intros(1)
        atLeast_upt lessThan_iff subsetD)
  show ?thesis
    using mmu_instruction_lookup_spec [OF assms, of va rv] assms lru_state_touch [OF assms hit]
      lru_stateD(2) [OF assms]
    by (auto simp: itlb_spec_def Let_def lru_state_frame split: list.splits
        intro!: lru_state_touch)
qed

definition lru_witness :: "unit machine" where
  "lru_witness = m_mmu_update (ITLB_LRU_USE_update (\<lambda>_. the LRU_table)) mmu_witness"

lemma lru_witness_state: "lru_state lru_witness [3, 2, 1, 0]"
proof -
  have "[3, 2, 1, 0] \<in> set lru_orders" "lru_code [3, 2, 1, 0] = 0" by code_simp+
  moreover have "LRU_table = Some (the LRU_table)" using LRU_table_ok
    by (metis option.collapse option.simps(4))
  ultimately show ?thesis
    by (simp add: lru_state_def lru_witness_def mmu_witness_def zero_machine_def MMUCR_LRUI_def fld_def)
qed

theorem instruction_lookup_lru_witness:
  "\<exists>s'. mmu_instruction_lookup 0x00010ABC 0 lru_witness = Ret (NONE, Some 3, 0x0C000ABC) s'"
proof -
  have hits: "itlb_hits 0x00010ABC lru_witness = itlb_hits 0x00010ABC mmu_witness"
    by (rule itlb_hits_cong) (simp_all add: lru_witness_def)
  have m: "tlb_matches 0x00010ABC lru_witness = tlb_matches 0x00010ABC mmu_witness"
    using mmu_match_cong(1) [of lru_witness mmu_witness "0x00010ABC"]
    by (simp add: tlb_matches_def UTLB_list_def lru_witness_def)
  have "itlb_hits 0x00010ABC mmu_witness = []"
    "map Data (tlb_matches 0x00010ABC mmu_witness) = [0x0C000174]"
    "entry_translate 0x0C000174 0x00010ABC = 0x0C000ABC" by code_simp+
  then have "fst (itlb_spec [3, 2, 1, 0] 0x00010ABC 0 lru_witness) = (NONE, Some 3, 0x0C000ABC)"
    by (auto simp: itlb_spec_def hits m Let_def split: list.splits)
  with instruction_lookup_lru [OF lru_witness_state, of "0x00010ABC" 0] show ?thesis
    by (auto split: prod.splits)
qed

end
