(* ===== verification/Sh4_Ops_Base.thy ===== *)
theory Sh4_Ops_Base
  imports Sh4_Sched Sh4_Mem
begin

text \<open>
  What the instruction handlers of \<^verbatim>\<open>hw/sh4/interpr/sh4_opcodes.cpp\<close> share: the operand
  macros of \<^verbatim>\<open>hw/sh4/dyna/decoder.h\<close>, the push and pop of a register, and the rules by which
  a handler is shown to be precise and to keep the status register well formed.
\<close>

section \<open>Operands\<close>

definition GetN :: "u32 \<Rightarrow> 4 word" where "GetN op = ucast (drop_bit 8 op)"
definition GetM :: "u32 \<Rightarrow> 4 word" where "GetM op = ucast (drop_bit 4 op)"
definition GetBank :: "u32 \<Rightarrow> 3 word" where "GetBank op = ucast (GetM op)"
definition GetImm4 :: "u32 \<Rightarrow> u32" where "GetImm4 op = op AND 0xf"
definition GetImm8 :: "u32 \<Rightarrow> u32" where "GetImm8 op = op AND 0xff"
definition GetSImm8 :: "u32 \<Rightarrow> u32" where "GetSImm8 op = scast (ucast (op AND 0xff) :: u8)"
definition GetImm12 :: "u32 \<Rightarrow> u32" where "GetImm12 op = op AND 0xfff"

definition GetSImm12 :: "u32 \<Rightarrow> u32" where
  "GetSImm12 op = scast (signed_drop_bit 4 (ucast (push_bit 4 (GetImm12 op)) :: u16))"

definition branch_target_s8 :: "Sh4Context \<Rightarrow> u32 \<Rightarrow> u32" where
  "branch_target_s8 c op = GetSImm8 op * 2 + 2 + ctx_pc c"

definition branch_target_s12 :: "Sh4Context \<Rightarrow> u32 \<Rightarrow> u32" where
  "branch_target_s12 c op = GetSImm12 op * 2 + 2 + ctx_pc c"

section \<open>Access to the context\<close>

definition with_ctx :: "(Sh4Context \<Rightarrow> ('d, 'a) SM) \<Rightarrow> ('d, 'a) SM" where
  "with_ctx f s = f (m_ctx s) s"

definition upd :: "(Sh4Context \<Rightarrow> Sh4Context) \<Rightarrow> ('d, unit) SM" where
  "upd f = modifyM (on_ctx f)"

text \<open>\<open>push32\<close>: \<open>u32 addr = r[n] - 4; WriteMemU32(addr, v); r[n] = addr\<close>.\<close>

definition push32 :: "'d env \<Rightarrow> 4 word \<Rightarrow> (Sh4Context \<Rightarrow> u32) \<Rightarrow> ('d, unit) SM" where
  "push32 E n v = with_ctx (\<lambda>c. let addr = ctx_r c n - 4
     in bindM (WriteMem32 E addr (v c)) (\<lambda>_. upd (set_r n addr)))"

text \<open>\<open>pop32\<close>: \<open>ReadMemU32(dest, r[n]); r[n] += 4\<close>.\<close>

definition pop32 :: "'d env \<Rightarrow> 4 word \<Rightarrow> (u32 \<Rightarrow> Sh4Context \<Rightarrow> Sh4Context) \<Rightarrow> ('d, unit) SM" where
  "pop32 E n f = with_ctx (\<lambda>c. bindM (ReadMem32 E (ctx_r c n)) (\<lambda>v. upd (\<lambda>c.
     let c1 = f v c in set_r n (ctx_r c1 n + 4) c1)))"

lemma with_ctx_apply [simp]: "with_ctx f s = f (m_ctx s) s"
  by (simp add: with_ctx_def)

lemma upd_apply [simp]: "upd f s = Ret () (on_ctx f s)"
  by (simp add: upd_def)

section \<open>Precise handlers\<close>

lemma precise_op_with_ctx: "(\<And>c. precise_op (f c)) \<Longrightarrow> precise_op (with_ctx f)"
  by (rule precise_opI) (auto dest: precise_opD)

lemma precise_with_ctx: "(\<And>c. precise (f c)) \<Longrightarrow> precise (with_ctx f)"
  by (rule preciseI) (auto dest: preciseD)

lemma precise_op_upd: "precise_op (upd f)"
  by (rule precise_opI) simp

text \<open>The accesses of an environment are precise.\<close>

definition access_ok :: "'d env \<Rightarrow> bool" where
  "access_ok E \<longleftrightarrow> (\<forall>a. precise (ReadMem8 E a) \<and> precise (ReadMem16 E a) \<and> precise (ReadMem32 E a) \<and>
     precise (IReadMem16 E a)) \<and> (\<forall>a d. precise (WriteMem8 E a d)) \<and>
     (\<forall>a d. precise (WriteMem16 E a d)) \<and> (\<forall>a d. precise (WriteMem32 E a d))"

lemma access_okD:
  assumes "access_ok E"
  shows "precise (ReadMem8 E a)" "precise (ReadMem16 E a)" "precise (ReadMem32 E a)"
    "precise (WriteMem8 E a d8)" "precise (WriteMem16 E a d16)" "precise (WriteMem32 E a d32)"
    "precise (IReadMem16 E a)"
  using assms by (simp_all add: access_ok_def)

lemma precise_op_push32: "access_ok E \<Longrightarrow> precise_op (push32 E n v)"
  unfolding push32_def Let_def
  by (intro precise_op_with_ctx precise_op_bind access_okD precise_op_upd)

lemma precise_op_pop32: "access_ok E \<Longrightarrow> precise_op (pop32 E n f)"
  unfolding pop32_def
  by (intro precise_op_with_ctx precise_op_bind access_okD precise_op_upd)

lemmas precise_op_rules = precise_op_with_ctx precise_op_bind access_okD precise_op_upd
  precise_op_push32 precise_op_pop32 precise_with_ctx precise_bind precise_returnM

section \<open>Fields of the context under the basic updates\<close>

lemma set_r_simps [simp]:
  "ctx_r (set_r n v c) = (ctx_r c)(n := v)" "ctx_pc (set_r n v c) = ctx_pc c"
  "ctx_sr (set_r n v c) = ctx_sr c" "ctx_mac (set_r n v c) = ctx_mac c"
  "ctx_T (set_r n v c) = ctx_T c" "ctx_status (set_r n v c) = ctx_status c"
  "ctx_pr (set_r n v c) = ctx_pr c" "ctx_r_bank (set_r n v c) = ctx_r_bank c"
  "ctx_old_sr (set_r n v c) = ctx_old_sr c" "ctx_gbr (set_r n v c) = ctx_gbr c"
  by (simp_all add: set_r_def ctx_T_def ctx_status_def)

lemma set_T_simps [simp]:
  "ctx_r (set_T v c) = ctx_r c" "ctx_pc (set_T v c) = ctx_pc c" "ctx_mac (set_T v c) = ctx_mac c"
  "ctx_T (set_T v c) = v" "ctx_status (set_T v c) = ctx_status c" "ctx_pr (set_T v c) = ctx_pr c"
  "sr_T (ctx_sr (set_T v c)) = v" "sr_status (ctx_sr (set_T v c)) = sr_status (ctx_sr c)"
  by (simp_all add: set_T_def ctx_T_def ctx_status_def)

lemma upd_status_more [simp]:
  "ctx_T (upd_status f c) = ctx_T c" "ctx_mac (upd_status f c) = ctx_mac c"
  "ctx_pr (upd_status f c) = ctx_pr c"
  by (simp_all add: upd_status_def ctx_T_def)

text \<open>Well-formedness of the status register, as the functions on contexts keep it.\<close>

definition ctx_wf :: "Sh4Context \<Rightarrow> bool" where
  "ctx_wf c \<longleftrightarrow> sr_wf (ctx_sr c)"

lemma ctx_wf_set_r [simp]: "ctx_wf (set_r n v c) = ctx_wf c"
  by (simp add: ctx_wf_def)

lemma ctx_wf_set_T: "ctx_wf c \<Longrightarrow> v = 0 \<or> v = 1 \<Longrightarrow> ctx_wf (set_T v c)"
  by (simp add: ctx_wf_def sr_wf_def)

lemma ctx_wf_upd_status:
  "ctx_wf c \<Longrightarrow> (\<And>v. v AND SR_MASK = v \<Longrightarrow> f v AND SR_MASK = f v) \<Longrightarrow> ctx_wf (upd_status f c)"
  by (simp add: ctx_wf_def sr_wf_def)

lemma ctx_wf_T: "ctx_wf c \<Longrightarrow> ctx_T c = 0 \<or> ctx_T c = 1"
  by (auto simp: ctx_wf_def sr_wf_def ctx_T_def)

lemma ctx_wf_frame [simp]:
  "ctx_wf (ctx_mac_update f c) = ctx_wf c" "ctx_wf (ctx_pr_update g c) = ctx_wf c"
  "ctx_wf (ctx_pc_update g c) = ctx_wf c" "ctx_wf (ctx_gbr_update g c) = ctx_wf c"
  "ctx_wf (ctx_vbr_update g c) = ctx_wf c" "ctx_wf (ctx_ssr_update g c) = ctx_wf c"
  "ctx_wf (ctx_spc_update g c) = ctx_wf c" "ctx_wf (ctx_sgr_update g c) = ctx_wf c"
  "ctx_wf (ctx_dbr_update g c) = ctx_wf c" "ctx_wf (ctx_fpul_update g c) = ctx_wf c"
  "ctx_wf (ctx_r_bank_update h c) = ctx_wf c"
  by (simp_all add: ctx_wf_def)

lemma ctx_wf_mac [simp]: "ctx_wf (set_mac_l v c) = ctx_wf c" "ctx_wf (set_mac_h v c) = ctx_wf c"
  by (simp_all add: set_mac_l_def set_mac_h_def)

end
