(* ===== verification/Sh4_Ops_Transfer.thy ===== *)
theory Sh4_Ops_Transfer
  imports Sh4_Ops_Base
begin

text \<open>
  The data transfer instructions of \<^verbatim>\<open>hw/sh4/interpr/sh4_opcodes.cpp\<close>, under the names of
  the source, in its order. An instruction that touches no memory is a function of the
  context; the others are computations on the machine, which an address error or a TLB
  exception leaves at the access.
\<close>

section \<open>Control and system registers to a general register\<close>

definition i0000_nnnn_0001_0010 :: "u32 \<Rightarrow> Sh4Context \<Rightarrow> Sh4Context" where \<comment> \<open>stc GBR,Rn\<close>
  "i0000_nnnn_0001_0010 op c = set_r (GetN op) (ctx_gbr c) c"

definition i0000_nnnn_0010_0010 :: "u32 \<Rightarrow> Sh4Context \<Rightarrow> Sh4Context" where \<comment> \<open>stc VBR,Rn\<close>
  "i0000_nnnn_0010_0010 op c = set_r (GetN op) (ctx_vbr c) c"

definition i0000_nnnn_0011_0010 :: "u32 \<Rightarrow> Sh4Context \<Rightarrow> Sh4Context" where \<comment> \<open>stc SSR,Rn\<close>
  "i0000_nnnn_0011_0010 op c = set_r (GetN op) (ctx_ssr c) c"

definition i0000_nnnn_0011_1010 :: "u32 \<Rightarrow> Sh4Context \<Rightarrow> Sh4Context" where \<comment> \<open>stc SGR,Rn\<close>
  "i0000_nnnn_0011_1010 op c = set_r (GetN op) (ctx_sgr c) c"

definition i0000_nnnn_0100_0010 :: "u32 \<Rightarrow> Sh4Context \<Rightarrow> Sh4Context" where \<comment> \<open>stc SPC,Rn\<close>
  "i0000_nnnn_0100_0010 op c = set_r (GetN op) (ctx_spc c) c"

definition i0000_nnnn_1mmm_0010 :: "u32 \<Rightarrow> Sh4Context \<Rightarrow> Sh4Context" where \<comment> \<open>stc Rm_BANK,Rn\<close>
  "i0000_nnnn_1mmm_0010 op c = set_r (GetN op) (ctx_r_bank c (GetBank op)) c"

definition i0000_nnnn_0101_1010 :: "u32 \<Rightarrow> Sh4Context \<Rightarrow> Sh4Context" where \<comment> \<open>sts FPUL,Rn\<close>
  "i0000_nnnn_0101_1010 op c = set_r (GetN op) (ctx_fpul c) c"

definition i0000_nnnn_1111_1010 :: "u32 \<Rightarrow> Sh4Context \<Rightarrow> Sh4Context" where \<comment> \<open>stc DBR,Rn\<close>
  "i0000_nnnn_1111_1010 op c = set_r (GetN op) (ctx_dbr c) c"

definition i0000_nnnn_0000_1010 :: "u32 \<Rightarrow> Sh4Context \<Rightarrow> Sh4Context" where \<comment> \<open>sts MACH,Rn\<close>
  "i0000_nnnn_0000_1010 op c = set_r (GetN op) (mac_h c) c"

definition i0000_nnnn_0001_1010 :: "u32 \<Rightarrow> Sh4Context \<Rightarrow> Sh4Context" where \<comment> \<open>sts MACL,Rn\<close>
  "i0000_nnnn_0001_1010 op c = set_r (GetN op) (mac_l c) c"

definition i0000_nnnn_0010_1010 :: "u32 \<Rightarrow> Sh4Context \<Rightarrow> Sh4Context" where \<comment> \<open>sts PR,Rn\<close>
  "i0000_nnnn_0010_1010 op c = set_r (GetN op) (ctx_pr c) c"

section \<open>Indexed and displaced moves\<close>

definition i0000_nnnn_mmmm_1100 :: "'d env \<Rightarrow> u32 \<Rightarrow> ('d, unit) SM" where \<comment> \<open>mov.b @(R0,Rm),Rn\<close>
  "i0000_nnnn_mmmm_1100 E op = with_ctx (\<lambda>c. bindM (ReadMem8 E (ctx_r c 0 + ctx_r c (GetM op))) (\<lambda>v. upd (set_r (GetN op) (scast v))))"

definition i0000_nnnn_mmmm_1101 :: "'d env \<Rightarrow> u32 \<Rightarrow> ('d, unit) SM" where \<comment> \<open>mov.w @(R0,Rm),Rn\<close>
  "i0000_nnnn_mmmm_1101 E op = with_ctx (\<lambda>c. bindM (ReadMem16 E (ctx_r c 0 + ctx_r c (GetM op))) (\<lambda>v. upd (set_r (GetN op) (scast v))))"

definition i0000_nnnn_mmmm_1110 :: "'d env \<Rightarrow> u32 \<Rightarrow> ('d, unit) SM" where \<comment> \<open>mov.l @(R0,Rm),Rn\<close>
  "i0000_nnnn_mmmm_1110 E op = with_ctx (\<lambda>c. bindM (ReadMem32 E (ctx_r c 0 + ctx_r c (GetM op))) (\<lambda>v. upd (set_r (GetN op) v)))"

definition i0000_nnnn_mmmm_0100 :: "'d env \<Rightarrow> u32 \<Rightarrow> ('d, unit) SM" where \<comment> \<open>mov.b Rm,@(R0,Rn)\<close>
  "i0000_nnnn_mmmm_0100 E op = with_ctx (\<lambda>c. WriteMem8 E (ctx_r c 0 + ctx_r c (GetN op)) (ucast (ctx_r c (GetM op))))"

definition i0000_nnnn_mmmm_0101 :: "'d env \<Rightarrow> u32 \<Rightarrow> ('d, unit) SM" where \<comment> \<open>mov.w Rm,@(R0,Rn)\<close>
  "i0000_nnnn_mmmm_0101 E op = with_ctx (\<lambda>c. WriteMem16 E (ctx_r c 0 + ctx_r c (GetN op)) (ucast (ctx_r c (GetM op))))"

definition i0000_nnnn_mmmm_0110 :: "'d env \<Rightarrow> u32 \<Rightarrow> ('d, unit) SM" where \<comment> \<open>mov.l Rm,@(R0,Rn)\<close>
  "i0000_nnnn_mmmm_0110 E op = with_ctx (\<lambda>c. WriteMem32 E (ctx_r c 0 + ctx_r c (GetN op)) (ctx_r c (GetM op)))"

definition i0001_nnnn_mmmm_iiii :: "'d env \<Rightarrow> u32 \<Rightarrow> ('d, unit) SM" where \<comment> \<open>mov.l Rm,@(disp,Rn)\<close>
  "i0001_nnnn_mmmm_iiii E op = with_ctx (\<lambda>c. WriteMem32 E (ctx_r c (GetN op) + push_bit 2 (GetImm4 op)) (ctx_r c (GetM op)))"

section \<open>Stores\<close>

definition i0010_nnnn_mmmm_0000 :: "'d env \<Rightarrow> u32 \<Rightarrow> ('d, unit) SM" where \<comment> \<open>mov.b Rm,@Rn\<close>
  "i0010_nnnn_mmmm_0000 E op = with_ctx (\<lambda>c. WriteMem8 E (ctx_r c (GetN op)) (ucast (ctx_r c (GetM op))))"

definition i0010_nnnn_mmmm_0001 :: "'d env \<Rightarrow> u32 \<Rightarrow> ('d, unit) SM" where \<comment> \<open>mov.w Rm,@Rn\<close>
  "i0010_nnnn_mmmm_0001 E op = with_ctx (\<lambda>c. WriteMem16 E (ctx_r c (GetN op)) (ucast (ctx_r c (GetM op))))"

definition i0010_nnnn_mmmm_0010 :: "'d env \<Rightarrow> u32 \<Rightarrow> ('d, unit) SM" where \<comment> \<open>mov.l Rm,@Rn\<close>
  "i0010_nnnn_mmmm_0010 E op = with_ctx (\<lambda>c. WriteMem32 E (ctx_r c (GetN op)) (ctx_r c (GetM op)))"

definition i0010_nnnn_mmmm_0100 :: "'d env \<Rightarrow> u32 \<Rightarrow> ('d, unit) SM" where \<comment> \<open>mov.b Rm,@-Rn\<close>
  "i0010_nnnn_mmmm_0100 E op = with_ctx (\<lambda>c. let addr = ctx_r c (GetN op) - 1
     in bindM (WriteMem8 E addr (ucast (ctx_r c (GetM op)))) (\<lambda>_. upd (set_r (GetN op) addr)))"

definition i0010_nnnn_mmmm_0101 :: "'d env \<Rightarrow> u32 \<Rightarrow> ('d, unit) SM" where \<comment> \<open>mov.w Rm,@-Rn\<close>
  "i0010_nnnn_mmmm_0101 E op = with_ctx (\<lambda>c. let addr = ctx_r c (GetN op) - 2
     in bindM (WriteMem16 E addr (ucast (ctx_r c (GetM op)))) (\<lambda>_. upd (set_r (GetN op) addr)))"

definition i0010_nnnn_mmmm_0110 :: "'d env \<Rightarrow> u32 \<Rightarrow> ('d, unit) SM" where \<comment> \<open>mov.l Rm,@-Rn\<close>
  "i0010_nnnn_mmmm_0110 E op = with_ctx (\<lambda>c. let addr = ctx_r c (GetN op) - 4
     in bindM (WriteMem32 E addr (ctx_r c (GetM op))) (\<lambda>_. upd (set_r (GetN op) addr)))"

section \<open>Pushes of control and system registers\<close>

definition i0100_nnnn_0101_0010 :: "'d env \<Rightarrow> u32 \<Rightarrow> ('d, unit) SM" where \<comment> \<open>sts.l FPUL,@-Rn\<close>
  "i0100_nnnn_0101_0010 E op = push32 E (GetN op) (\<lambda>c. ctx_fpul c)"

definition i0100_nnnn_0000_0010 :: "'d env \<Rightarrow> u32 \<Rightarrow> ('d, unit) SM" where \<comment> \<open>sts.l MACH,@-Rn\<close>
  "i0100_nnnn_0000_0010 E op = push32 E (GetN op) (\<lambda>c. mac_h c)"

definition i0100_nnnn_0001_0010 :: "'d env \<Rightarrow> u32 \<Rightarrow> ('d, unit) SM" where \<comment> \<open>sts.l MACL,@-Rn\<close>
  "i0100_nnnn_0001_0010 E op = push32 E (GetN op) (\<lambda>c. mac_l c)"

definition i0100_nnnn_0010_0010 :: "'d env \<Rightarrow> u32 \<Rightarrow> ('d, unit) SM" where \<comment> \<open>sts.l PR,@-Rn\<close>
  "i0100_nnnn_0010_0010 E op = push32 E (GetN op) (\<lambda>c. ctx_pr c)"

definition i0100_nnnn_1111_0010 :: "'d env \<Rightarrow> u32 \<Rightarrow> ('d, unit) SM" where \<comment> \<open>sts.l DBR,@-Rn\<close>
  "i0100_nnnn_1111_0010 E op = push32 E (GetN op) (\<lambda>c. ctx_dbr c)"

definition i0100_nnnn_0001_0011 :: "'d env \<Rightarrow> u32 \<Rightarrow> ('d, unit) SM" where \<comment> \<open>stc.l GBR,@-Rn\<close>
  "i0100_nnnn_0001_0011 E op = push32 E (GetN op) (\<lambda>c. ctx_gbr c)"

definition i0100_nnnn_0010_0011 :: "'d env \<Rightarrow> u32 \<Rightarrow> ('d, unit) SM" where \<comment> \<open>stc.l VBR,@-Rn\<close>
  "i0100_nnnn_0010_0011 E op = push32 E (GetN op) (\<lambda>c. ctx_vbr c)"

definition i0100_nnnn_0011_0011 :: "'d env \<Rightarrow> u32 \<Rightarrow> ('d, unit) SM" where \<comment> \<open>stc.l SSR,@-Rn\<close>
  "i0100_nnnn_0011_0011 E op = push32 E (GetN op) (\<lambda>c. ctx_ssr c)"

definition i0100_nnnn_0011_0010 :: "'d env \<Rightarrow> u32 \<Rightarrow> ('d, unit) SM" where \<comment> \<open>stc.l SGR,@-Rn\<close>
  "i0100_nnnn_0011_0010 E op = push32 E (GetN op) (\<lambda>c. ctx_sgr c)"

definition i0100_nnnn_0100_0011 :: "'d env \<Rightarrow> u32 \<Rightarrow> ('d, unit) SM" where \<comment> \<open>stc.l SPC,@-Rn\<close>
  "i0100_nnnn_0100_0011 E op = push32 E (GetN op) (\<lambda>c. ctx_spc c)"

definition i0100_nnnn_1mmm_0011 :: "'d env \<Rightarrow> u32 \<Rightarrow> ('d, unit) SM" where \<comment> \<open>stc Rm_BANK,@-Rn\<close>
  "i0100_nnnn_1mmm_0011 E op = push32 E (GetN op) (\<lambda>c. ctx_r_bank c (GetBank op))"

section \<open>Pops of control and system registers\<close>

definition i0100_nnnn_0000_0110 :: "'d env \<Rightarrow> u32 \<Rightarrow> ('d, unit) SM" where \<comment> \<open>lds.l @Rn+,MACH\<close>
  "i0100_nnnn_0000_0110 E op = pop32 E (GetN op) set_mac_h"

definition i0100_nnnn_0001_0110 :: "'d env \<Rightarrow> u32 \<Rightarrow> ('d, unit) SM" where \<comment> \<open>lds.l @Rn+,MACL\<close>
  "i0100_nnnn_0001_0110 E op = pop32 E (GetN op) set_mac_l"

definition i0100_nnnn_0010_0110 :: "'d env \<Rightarrow> u32 \<Rightarrow> ('d, unit) SM" where \<comment> \<open>lds.l @Rn+,PR\<close>
  "i0100_nnnn_0010_0110 E op = pop32 E (GetN op) (\<lambda>v. ctx_pr_update (\<lambda>_. v))"

definition i0100_nnnn_0101_0110 :: "'d env \<Rightarrow> u32 \<Rightarrow> ('d, unit) SM" where \<comment> \<open>lds.l @Rn+,FPUL\<close>
  "i0100_nnnn_0101_0110 E op = pop32 E (GetN op) (\<lambda>v. ctx_fpul_update (\<lambda>_. v))"

definition i0100_nnnn_1111_0110 :: "'d env \<Rightarrow> u32 \<Rightarrow> ('d, unit) SM" where \<comment> \<open>lds.l @Rn+,DBR\<close>
  "i0100_nnnn_1111_0110 E op = pop32 E (GetN op) (\<lambda>v. ctx_dbr_update (\<lambda>_. v))"

definition i0100_nnnn_0001_0111 :: "'d env \<Rightarrow> u32 \<Rightarrow> ('d, unit) SM" where \<comment> \<open>ldc.l @Rn+,GBR\<close>
  "i0100_nnnn_0001_0111 E op = pop32 E (GetN op) (\<lambda>v. ctx_gbr_update (\<lambda>_. v))"

definition i0100_nnnn_0010_0111 :: "'d env \<Rightarrow> u32 \<Rightarrow> ('d, unit) SM" where \<comment> \<open>ldc.l @Rn+,VBR\<close>
  "i0100_nnnn_0010_0111 E op = pop32 E (GetN op) (\<lambda>v. ctx_vbr_update (\<lambda>_. v))"

definition i0100_nnnn_0011_0111 :: "'d env \<Rightarrow> u32 \<Rightarrow> ('d, unit) SM" where \<comment> \<open>ldc.l @Rn+,SSR\<close>
  "i0100_nnnn_0011_0111 E op = pop32 E (GetN op) (\<lambda>v. ctx_ssr_update (\<lambda>_. v))"

definition i0100_nnnn_0011_0110 :: "'d env \<Rightarrow> u32 \<Rightarrow> ('d, unit) SM" where \<comment> \<open>ldc.l @Rn+,SGR\<close>
  "i0100_nnnn_0011_0110 E op = pop32 E (GetN op) (\<lambda>v. ctx_sgr_update (\<lambda>_. v))"

definition i0100_nnnn_0100_0111 :: "'d env \<Rightarrow> u32 \<Rightarrow> ('d, unit) SM" where \<comment> \<open>ldc.l @Rn+,SPC\<close>
  "i0100_nnnn_0100_0111 E op = pop32 E (GetN op) (\<lambda>v. ctx_spc_update (\<lambda>_. v))"

definition i0100_nnnn_1mmm_0111 :: "'d env \<Rightarrow> u32 \<Rightarrow> ('d, unit) SM" where \<comment> \<open>ldc.l @Rn+,Rm_BANK\<close>
  "i0100_nnnn_1mmm_0111 E op = pop32 E (GetN op) (\<lambda>v. ctx_r_bank_update (\<lambda>b. b(GetBank op := v)))"

section \<open>A general register to control and system registers\<close>

definition i0100_nnnn_0000_1010 :: "u32 \<Rightarrow> Sh4Context \<Rightarrow> Sh4Context" where \<comment> \<open>lds Rn,MACH\<close>
  "i0100_nnnn_0000_1010 op c = set_mac_h (ctx_r c (GetN op)) c"

definition i0100_nnnn_0001_1010 :: "u32 \<Rightarrow> Sh4Context \<Rightarrow> Sh4Context" where \<comment> \<open>lds Rn,MACL\<close>
  "i0100_nnnn_0001_1010 op c = set_mac_l (ctx_r c (GetN op)) c"

definition i0100_nnnn_0010_1010 :: "u32 \<Rightarrow> Sh4Context \<Rightarrow> Sh4Context" where \<comment> \<open>lds Rn,PR\<close>
  "i0100_nnnn_0010_1010 op c = c\<lparr>ctx_pr := ctx_r c (GetN op)\<rparr>"

definition i0100_nnnn_0101_1010 :: "u32 \<Rightarrow> Sh4Context \<Rightarrow> Sh4Context" where \<comment> \<open>lds Rn,FPUL\<close>
  "i0100_nnnn_0101_1010 op c = c\<lparr>ctx_fpul := ctx_r c (GetN op)\<rparr>"

definition i0100_nnnn_1111_1010 :: "u32 \<Rightarrow> Sh4Context \<Rightarrow> Sh4Context" where \<comment> \<open>ldc Rn,DBR\<close>
  "i0100_nnnn_1111_1010 op c = c\<lparr>ctx_dbr := ctx_r c (GetN op)\<rparr>"

definition i0100_nnnn_0001_1110 :: "u32 \<Rightarrow> Sh4Context \<Rightarrow> Sh4Context" where \<comment> \<open>ldc Rn,GBR\<close>
  "i0100_nnnn_0001_1110 op c = c\<lparr>ctx_gbr := ctx_r c (GetN op)\<rparr>"

definition i0100_nnnn_0010_1110 :: "u32 \<Rightarrow> Sh4Context \<Rightarrow> Sh4Context" where \<comment> \<open>ldc Rn,VBR\<close>
  "i0100_nnnn_0010_1110 op c = c\<lparr>ctx_vbr := ctx_r c (GetN op)\<rparr>"

definition i0100_nnnn_0011_1110 :: "u32 \<Rightarrow> Sh4Context \<Rightarrow> Sh4Context" where \<comment> \<open>ldc Rn,SSR\<close>
  "i0100_nnnn_0011_1110 op c = c\<lparr>ctx_ssr := ctx_r c (GetN op)\<rparr>"

definition i0100_nnnn_0011_1010 :: "u32 \<Rightarrow> Sh4Context \<Rightarrow> Sh4Context" where \<comment> \<open>ldc Rn,SGR\<close>
  "i0100_nnnn_0011_1010 op c = c\<lparr>ctx_sgr := ctx_r c (GetN op)\<rparr>"

definition i0100_nnnn_0100_1110 :: "u32 \<Rightarrow> Sh4Context \<Rightarrow> Sh4Context" where \<comment> \<open>ldc Rn,SPC\<close>
  "i0100_nnnn_0100_1110 op c = c\<lparr>ctx_spc := ctx_r c (GetN op)\<rparr>"

definition i0100_nnnn_1mmm_1110 :: "u32 \<Rightarrow> Sh4Context \<Rightarrow> Sh4Context" where \<comment> \<open>ldc Rn,Rm_BANK\<close>
  "i0100_nnnn_1mmm_1110 op c = c\<lparr>ctx_r_bank := (ctx_r_bank c)(GetBank op := ctx_r c (GetN op))\<rparr>"

section \<open>Loads\<close>

definition i0101_nnnn_mmmm_iiii :: "'d env \<Rightarrow> u32 \<Rightarrow> ('d, unit) SM" where \<comment> \<open>mov.l @(disp,Rm),Rn\<close>
  "i0101_nnnn_mmmm_iiii E op = with_ctx (\<lambda>c. bindM (ReadMem32 E (ctx_r c (GetM op) + push_bit 2 (GetImm4 op))) (\<lambda>v. upd (set_r (GetN op) v)))"

definition i0110_nnnn_mmmm_0000 :: "'d env \<Rightarrow> u32 \<Rightarrow> ('d, unit) SM" where \<comment> \<open>mov.b @Rm,Rn\<close>
  "i0110_nnnn_mmmm_0000 E op = with_ctx (\<lambda>c. bindM (ReadMem8 E (ctx_r c (GetM op))) (\<lambda>v. upd (set_r (GetN op) (scast v))))"

definition i0110_nnnn_mmmm_0001 :: "'d env \<Rightarrow> u32 \<Rightarrow> ('d, unit) SM" where \<comment> \<open>mov.w @Rm,Rn\<close>
  "i0110_nnnn_mmmm_0001 E op = with_ctx (\<lambda>c. bindM (ReadMem16 E (ctx_r c (GetM op))) (\<lambda>v. upd (set_r (GetN op) (scast v))))"

definition i0110_nnnn_mmmm_0010 :: "'d env \<Rightarrow> u32 \<Rightarrow> ('d, unit) SM" where \<comment> \<open>mov.l @Rm,Rn\<close>
  "i0110_nnnn_mmmm_0010 E op = with_ctx (\<lambda>c. bindM (ReadMem32 E (ctx_r c (GetM op))) (\<lambda>v. upd (set_r (GetN op) v)))"

definition i0110_nnnn_mmmm_0011 :: "u32 \<Rightarrow> Sh4Context \<Rightarrow> Sh4Context" where \<comment> \<open>mov Rm,Rn\<close>
  "i0110_nnnn_mmmm_0011 op c = set_r (GetN op) (ctx_r c (GetM op)) c"

definition i0110_nnnn_mmmm_0100 :: "'d env \<Rightarrow> u32 \<Rightarrow> ('d, unit) SM" where \<comment> \<open>mov.b @Rm+,Rn\<close>
  "i0110_nnnn_mmmm_0100 E op = with_ctx (\<lambda>c. bindM (ReadMem8 E (ctx_r c (GetM op))) (\<lambda>v. upd (\<lambda>c.
     let c1 = set_r (GetN op) (scast v) c
     in if GetN op \<noteq> GetM op then set_r (GetM op) (ctx_r c1 (GetM op) + 1) c1 else c1)))"

definition i0110_nnnn_mmmm_0101 :: "'d env \<Rightarrow> u32 \<Rightarrow> ('d, unit) SM" where \<comment> \<open>mov.w @Rm+,Rn\<close>
  "i0110_nnnn_mmmm_0101 E op = with_ctx (\<lambda>c. bindM (ReadMem16 E (ctx_r c (GetM op))) (\<lambda>v. upd (\<lambda>c.
     let c1 = set_r (GetN op) (scast v) c
     in if GetN op \<noteq> GetM op then set_r (GetM op) (ctx_r c1 (GetM op) + 2) c1 else c1)))"

definition i0110_nnnn_mmmm_0110 :: "'d env \<Rightarrow> u32 \<Rightarrow> ('d, unit) SM" where \<comment> \<open>mov.l @Rm+,Rn\<close>
  "i0110_nnnn_mmmm_0110 E op = with_ctx (\<lambda>c. bindM (ReadMem32 E (ctx_r c (GetM op))) (\<lambda>v. upd (\<lambda>c.
     let c1 = set_r (GetN op) v c
     in if GetN op \<noteq> GetM op then set_r (GetM op) (ctx_r c1 (GetM op) + 4) c1 else c1)))"

section \<open>Moves between R0 and displaced addresses\<close>

definition i1000_0000_mmmm_iiii :: "'d env \<Rightarrow> u32 \<Rightarrow> ('d, unit) SM" where \<comment> \<open>mov.b R0,@(disp,Rm)\<close>
  "i1000_0000_mmmm_iiii E op = with_ctx (\<lambda>c. WriteMem8 E (ctx_r c (GetM op) + GetImm4 op) (ucast (ctx_r c 0)))"

definition i1000_0001_mmmm_iiii :: "'d env \<Rightarrow> u32 \<Rightarrow> ('d, unit) SM" where \<comment> \<open>mov.w R0,@(disp,Rm)\<close>
  "i1000_0001_mmmm_iiii E op = with_ctx (\<lambda>c. WriteMem16 E (ctx_r c (GetM op) + push_bit 1 (GetImm4 op)) (ucast (ctx_r c 0)))"

definition i1000_0100_mmmm_iiii :: "'d env \<Rightarrow> u32 \<Rightarrow> ('d, unit) SM" where \<comment> \<open>mov.b @(disp,Rm),R0\<close>
  "i1000_0100_mmmm_iiii E op = with_ctx (\<lambda>c. bindM (ReadMem8 E (ctx_r c (GetM op) + GetImm4 op)) (\<lambda>v. upd (set_r 0 (scast v))))"

definition i1000_0101_mmmm_iiii :: "'d env \<Rightarrow> u32 \<Rightarrow> ('d, unit) SM" where \<comment> \<open>mov.w @(disp,Rm),R0\<close>
  "i1000_0101_mmmm_iiii E op = with_ctx (\<lambda>c. bindM (ReadMem16 E (ctx_r c (GetM op) + push_bit 1 (GetImm4 op))) (\<lambda>v. upd (set_r 0 (scast v))))"

definition i1001_nnnn_iiii_iiii :: "'d env \<Rightarrow> u32 \<Rightarrow> ('d, unit) SM" where \<comment> \<open>mov.w @(disp,PC),Rn\<close>
  "i1001_nnnn_iiii_iiii E op = with_ctx (\<lambda>c. bindM (ReadMem16 E (push_bit 1 (GetImm8 op) + ctx_pc c + 2)) (\<lambda>v. upd (set_r (GetN op) (scast v))))"

definition i1100_0000_iiii_iiii :: "'d env \<Rightarrow> u32 \<Rightarrow> ('d, unit) SM" where \<comment> \<open>mov.b R0,@(disp,GBR)\<close>
  "i1100_0000_iiii_iiii E op = with_ctx (\<lambda>c. WriteMem8 E (ctx_gbr c + GetImm8 op) (ucast (ctx_r c 0)))"

definition i1100_0001_iiii_iiii :: "'d env \<Rightarrow> u32 \<Rightarrow> ('d, unit) SM" where \<comment> \<open>mov.w R0,@(disp,GBR)\<close>
  "i1100_0001_iiii_iiii E op = with_ctx (\<lambda>c. WriteMem16 E (ctx_gbr c + push_bit 1 (GetImm8 op)) (ucast (ctx_r c 0)))"

definition i1100_0010_iiii_iiii :: "'d env \<Rightarrow> u32 \<Rightarrow> ('d, unit) SM" where \<comment> \<open>mov.l R0,@(disp,GBR)\<close>
  "i1100_0010_iiii_iiii E op = with_ctx (\<lambda>c. WriteMem32 E (ctx_gbr c + push_bit 2 (GetImm8 op)) (ctx_r c 0))"

definition i1100_0100_iiii_iiii :: "'d env \<Rightarrow> u32 \<Rightarrow> ('d, unit) SM" where \<comment> \<open>mov.b @(disp,GBR),R0\<close>
  "i1100_0100_iiii_iiii E op = with_ctx (\<lambda>c. bindM (ReadMem8 E (ctx_gbr c + GetImm8 op)) (\<lambda>v. upd (set_r 0 (scast v))))"

definition i1100_0101_iiii_iiii :: "'d env \<Rightarrow> u32 \<Rightarrow> ('d, unit) SM" where \<comment> \<open>mov.w @(disp,GBR),R0\<close>
  "i1100_0101_iiii_iiii E op = with_ctx (\<lambda>c. bindM (ReadMem16 E (ctx_gbr c + push_bit 1 (GetImm8 op))) (\<lambda>v. upd (set_r 0 (scast v))))"

definition i1100_0110_iiii_iiii :: "'d env \<Rightarrow> u32 \<Rightarrow> ('d, unit) SM" where \<comment> \<open>mov.l @(disp,GBR),R0\<close>
  "i1100_0110_iiii_iiii E op = with_ctx (\<lambda>c. bindM (ReadMem32 E (ctx_gbr c + push_bit 2 (GetImm8 op))) (\<lambda>v. upd (set_r 0 v)))"

definition i1100_0111_iiii_iiii :: "u32 \<Rightarrow> Sh4Context \<Rightarrow> Sh4Context" where \<comment> \<open>mova @(disp,PC),R0\<close>
  "i1100_0111_iiii_iiii op c = set_r 0 (((ctx_pc c + 2) AND 0xFFFFFFFC) + push_bit 2 (GetImm8 op)) c"

definition i1101_nnnn_iiii_iiii :: "'d env \<Rightarrow> u32 \<Rightarrow> ('d, unit) SM" where \<comment> \<open>mov.l @(disp,PC),Rn\<close>
  "i1101_nnnn_iiii_iiii E op = with_ctx (\<lambda>c. bindM (ReadMem32 E (push_bit 2 (GetImm8 op) + ((ctx_pc c + 2) AND 0xFFFFFFFC)))
     (\<lambda>v. upd (set_r (GetN op) v)))"

definition i1110_nnnn_iiii_iiii :: "u32 \<Rightarrow> Sh4Context \<Rightarrow> Sh4Context" where \<comment> \<open>mov #imm,Rn\<close>
  "i1110_nnnn_iiii_iiii op c = set_r (GetN op) (GetSImm8 op) c"

definition i0000_nnnn_1100_0011 :: "'d env \<Rightarrow> u32 \<Rightarrow> ('d, unit) SM" where \<comment> \<open>movca.l R0,@Rn\<close>
  "i0000_nnnn_1100_0011 E op = with_ctx (\<lambda>c. WriteMem32 E (ctx_r c (GetN op)) (ctx_r c 0))"

definition i0000_0000_0010_1000 :: "u32 \<Rightarrow> Sh4Context \<Rightarrow> Sh4Context" where \<comment> \<open>clrmac\<close>
  "i0000_0000_0010_1000 op c = c\<lparr>ctx_mac := 0\<rparr>"

lemmas transfer_ops_mem = i0000_nnnn_mmmm_1100_def i0000_nnnn_mmmm_1101_def
  i0000_nnnn_mmmm_1110_def i0000_nnnn_mmmm_0100_def i0000_nnnn_mmmm_0101_def
  i0000_nnnn_mmmm_0110_def i0001_nnnn_mmmm_iiii_def i0010_nnnn_mmmm_0000_def
  i0010_nnnn_mmmm_0001_def i0010_nnnn_mmmm_0010_def i0010_nnnn_mmmm_0100_def
  i0010_nnnn_mmmm_0101_def i0010_nnnn_mmmm_0110_def i0100_nnnn_0101_0010_def
  i0100_nnnn_0000_0010_def i0100_nnnn_0001_0010_def i0100_nnnn_0010_0010_def
  i0100_nnnn_1111_0010_def i0100_nnnn_0001_0011_def i0100_nnnn_0010_0011_def
  i0100_nnnn_0011_0011_def i0100_nnnn_0011_0010_def i0100_nnnn_0100_0011_def
  i0100_nnnn_1mmm_0011_def i0100_nnnn_0000_0110_def i0100_nnnn_0001_0110_def
  i0100_nnnn_0010_0110_def i0100_nnnn_0101_0110_def i0100_nnnn_1111_0110_def
  i0100_nnnn_0001_0111_def i0100_nnnn_0010_0111_def i0100_nnnn_0011_0111_def
  i0100_nnnn_0011_0110_def i0100_nnnn_0100_0111_def i0100_nnnn_1mmm_0111_def
  i0101_nnnn_mmmm_iiii_def i0110_nnnn_mmmm_0000_def i0110_nnnn_mmmm_0001_def
  i0110_nnnn_mmmm_0010_def i0110_nnnn_mmmm_0100_def i0110_nnnn_mmmm_0101_def
  i0110_nnnn_mmmm_0110_def i1000_0000_mmmm_iiii_def i1000_0001_mmmm_iiii_def
  i1000_0100_mmmm_iiii_def i1000_0101_mmmm_iiii_def i1001_nnnn_iiii_iiii_def
  i1100_0000_iiii_iiii_def i1100_0001_iiii_iiii_def i1100_0010_iiii_iiii_def
  i1100_0100_iiii_iiii_def i1100_0101_iiii_iiii_def i1100_0110_iiii_iiii_def
  i1101_nnnn_iiii_iiii_def i0000_nnnn_1100_0011_def

lemmas transfer_ops_pure = i0000_nnnn_0001_0010_def i0000_nnnn_0010_0010_def
  i0000_nnnn_0011_0010_def i0000_nnnn_0011_1010_def i0000_nnnn_0100_0010_def
  i0000_nnnn_1mmm_0010_def i0000_nnnn_0101_1010_def i0000_nnnn_1111_1010_def
  i0000_nnnn_0000_1010_def i0000_nnnn_0001_1010_def i0000_nnnn_0010_1010_def
  i0100_nnnn_0000_1010_def i0100_nnnn_0001_1010_def i0100_nnnn_0010_1010_def
  i0100_nnnn_0101_1010_def i0100_nnnn_1111_1010_def i0100_nnnn_0001_1110_def
  i0100_nnnn_0010_1110_def i0100_nnnn_0011_1110_def i0100_nnnn_0011_1010_def
  i0100_nnnn_0100_1110_def i0100_nnnn_1mmm_1110_def i0110_nnnn_mmmm_0011_def
  i1100_0111_iiii_iiii_def i1110_nnnn_iiii_iiii_def i0000_0000_0010_1000_def

end
