(* ===== verification/Sh4_Ops_Arith.thy ===== *)
theory Sh4_Ops_Arith
  imports Sh4_Ops_Base
begin

text \<open>
  The arithmetic, logic, shift and comparison instructions of
  \<^verbatim>\<open>hw/sh4/interpr/sh4_opcodes.cpp\<close>, under the names of the source and in its order.
  A 32-bit register is a word, so addition and subtraction wrap; a signed comparison is one
  of \<^const>\<open>sint\<close>; the 64-bit intermediate of addv and subv is an integer.
\<close>

section \<open>Arithmetic and logic\<close>

definition i0011_nnnn_mmmm_1000 :: "u32 \<Rightarrow> Sh4Context \<Rightarrow> Sh4Context" where \<comment> \<open>sub Rm,Rn\<close>
  "i0011_nnnn_mmmm_1000 op c = set_r (GetN op) (ctx_r c (GetN op) - ctx_r c (GetM op)) c"

definition i0011_nnnn_mmmm_1100 :: "u32 \<Rightarrow> Sh4Context \<Rightarrow> Sh4Context" where \<comment> \<open>add Rm,Rn\<close>
  "i0011_nnnn_mmmm_1100 op c = set_r (GetN op) (ctx_r c (GetN op) + ctx_r c (GetM op)) c"

definition i0111_nnnn_iiii_iiii :: "u32 \<Rightarrow> Sh4Context \<Rightarrow> Sh4Context" where \<comment> \<open>add #imm,Rn\<close>
  "i0111_nnnn_iiii_iiii op c = set_r (GetN op) (ctx_r c (GetN op) + GetSImm8 op) c"

definition i0010_nnnn_mmmm_1001 :: "u32 \<Rightarrow> Sh4Context \<Rightarrow> Sh4Context" where \<comment> \<open>and Rm,Rn\<close>
  "i0010_nnnn_mmmm_1001 op c = set_r (GetN op) (ctx_r c (GetN op) AND ctx_r c (GetM op)) c"

definition i0010_nnnn_mmmm_1010 :: "u32 \<Rightarrow> Sh4Context \<Rightarrow> Sh4Context" where \<comment> \<open>xor Rm,Rn\<close>
  "i0010_nnnn_mmmm_1010 op c = set_r (GetN op) (ctx_r c (GetN op) XOR ctx_r c (GetM op)) c"

definition i0010_nnnn_mmmm_1011 :: "u32 \<Rightarrow> Sh4Context \<Rightarrow> Sh4Context" where \<comment> \<open>or Rm,Rn\<close>
  "i0010_nnnn_mmmm_1011 op c = set_r (GetN op) (ctx_r c (GetN op) OR ctx_r c (GetM op)) c"

definition i0100_nnnn_0000_1000 :: "u32 \<Rightarrow> Sh4Context \<Rightarrow> Sh4Context" where \<comment> \<open>shll2 Rn\<close>
  "i0100_nnnn_0000_1000 op c = set_r (GetN op) (push_bit 2 (ctx_r c (GetN op))) c"

definition i0100_nnnn_0001_1000 :: "u32 \<Rightarrow> Sh4Context \<Rightarrow> Sh4Context" where \<comment> \<open>shll8 Rn\<close>
  "i0100_nnnn_0001_1000 op c = set_r (GetN op) (push_bit 8 (ctx_r c (GetN op))) c"

definition i0100_nnnn_0010_1000 :: "u32 \<Rightarrow> Sh4Context \<Rightarrow> Sh4Context" where \<comment> \<open>shll16 Rn\<close>
  "i0100_nnnn_0010_1000 op c = set_r (GetN op) (push_bit 16 (ctx_r c (GetN op))) c"

definition i0100_nnnn_0000_1001 :: "u32 \<Rightarrow> Sh4Context \<Rightarrow> Sh4Context" where \<comment> \<open>shlr2 Rn\<close>
  "i0100_nnnn_0000_1001 op c = set_r (GetN op) (drop_bit 2 (ctx_r c (GetN op))) c"

definition i0100_nnnn_0001_1001 :: "u32 \<Rightarrow> Sh4Context \<Rightarrow> Sh4Context" where \<comment> \<open>shlr8 Rn\<close>
  "i0100_nnnn_0001_1001 op c = set_r (GetN op) (drop_bit 8 (ctx_r c (GetN op))) c"

definition i0100_nnnn_0010_1001 :: "u32 \<Rightarrow> Sh4Context \<Rightarrow> Sh4Context" where \<comment> \<open>shlr16 Rn\<close>
  "i0100_nnnn_0010_1001 op c = set_r (GetN op) (drop_bit 16 (ctx_r c (GetN op))) c"

definition i1100_1001_iiii_iiii :: "u32 \<Rightarrow> Sh4Context \<Rightarrow> Sh4Context" where \<comment> \<open>and #imm,R0\<close>
  "i1100_1001_iiii_iiii op c = set_r 0 (ctx_r c 0 AND GetImm8 op) c"

definition i1100_1010_iiii_iiii :: "u32 \<Rightarrow> Sh4Context \<Rightarrow> Sh4Context" where \<comment> \<open>xor #imm,R0\<close>
  "i1100_1010_iiii_iiii op c = set_r 0 (ctx_r c 0 XOR GetImm8 op) c"

definition i1100_1011_iiii_iiii :: "u32 \<Rightarrow> Sh4Context \<Rightarrow> Sh4Context" where \<comment> \<open>or #imm,R0\<close>
  "i1100_1011_iiii_iiii op c = set_r 0 (ctx_r c 0 OR GetImm8 op) c"

definition i0000_0000_0000_1001 :: "u32 \<Rightarrow> Sh4Context \<Rightarrow> Sh4Context" where \<comment> \<open>nop\<close>
  "i0000_0000_0000_1001 op c = c"

section \<open>Setting and reading T and S\<close>

definition i0000_0000_0101_1000 :: "u32 \<Rightarrow> Sh4Context \<Rightarrow> Sh4Context" where \<comment> \<open>sets\<close>
  "i0000_0000_0101_1000 op c = upd_status (set_S 1) c"

definition i0000_0000_0100_1000 :: "u32 \<Rightarrow> Sh4Context \<Rightarrow> Sh4Context" where \<comment> \<open>clrs\<close>
  "i0000_0000_0100_1000 op c = upd_status (set_S 0) c"

definition i0000_0000_0001_1000 :: "u32 \<Rightarrow> Sh4Context \<Rightarrow> Sh4Context" where \<comment> \<open>sett\<close>
  "i0000_0000_0001_1000 op c = set_T 1 c"

definition i0000_0000_0000_1000 :: "u32 \<Rightarrow> Sh4Context \<Rightarrow> Sh4Context" where \<comment> \<open>clrt\<close>
  "i0000_0000_0000_1000 op c = set_T 0 c"

definition i0000_nnnn_0010_1001 :: "u32 \<Rightarrow> Sh4Context \<Rightarrow> Sh4Context" where \<comment> \<open>movt Rn\<close>
  "i0000_nnnn_0010_1001 op c = set_r (GetN op) (ctx_T c) c"

section \<open>Comparisons\<close>

definition i0100_nnnn_0001_0001 :: "u32 \<Rightarrow> Sh4Context \<Rightarrow> Sh4Context" where \<comment> \<open>cmp/pz Rn\<close>
  "i0100_nnnn_0001_0001 op c = (if 0 \<le> sint (ctx_r c (GetN op)) then set_T 1 c else set_T 0 c)"

definition i0100_nnnn_0001_0101 :: "u32 \<Rightarrow> Sh4Context \<Rightarrow> Sh4Context" where \<comment> \<open>cmp/pl Rn\<close>
  "i0100_nnnn_0001_0101 op c = (if 0 < sint (ctx_r c (GetN op)) then set_T 1 c else set_T 0 c)"

definition i1000_1000_iiii_iiii :: "u32 \<Rightarrow> Sh4Context \<Rightarrow> Sh4Context" where \<comment> \<open>cmp/eq #imm,R0\<close>
  "i1000_1000_iiii_iiii op c = (if ctx_r c 0 = GetSImm8 op then set_T 1 c else set_T 0 c)"

definition i0011_nnnn_mmmm_0000 :: "u32 \<Rightarrow> Sh4Context \<Rightarrow> Sh4Context" where \<comment> \<open>cmp/eq Rm,Rn\<close>
  "i0011_nnnn_mmmm_0000 op c = (if ctx_r c (GetM op) = ctx_r c (GetN op) then set_T 1 c else set_T 0 c)"

definition i0011_nnnn_mmmm_0010 :: "u32 \<Rightarrow> Sh4Context \<Rightarrow> Sh4Context" where \<comment> \<open>cmp/hs Rm,Rn\<close>
  "i0011_nnnn_mmmm_0010 op c = (if ctx_r c (GetM op) \<le> ctx_r c (GetN op) then set_T 1 c else set_T 0 c)"

definition i0011_nnnn_mmmm_0011 :: "u32 \<Rightarrow> Sh4Context \<Rightarrow> Sh4Context" where \<comment> \<open>cmp/ge Rm,Rn\<close>
  "i0011_nnnn_mmmm_0011 op c = (if sint (ctx_r c (GetM op)) \<le> sint (ctx_r c (GetN op)) then set_T 1 c else set_T 0 c)"

definition i0011_nnnn_mmmm_0110 :: "u32 \<Rightarrow> Sh4Context \<Rightarrow> Sh4Context" where \<comment> \<open>cmp/hi Rm,Rn\<close>
  "i0011_nnnn_mmmm_0110 op c = (if ctx_r c (GetM op) < ctx_r c (GetN op) then set_T 1 c else set_T 0 c)"

definition i0011_nnnn_mmmm_0111 :: "u32 \<Rightarrow> Sh4Context \<Rightarrow> Sh4Context" where \<comment> \<open>cmp/gt Rm,Rn\<close>
  "i0011_nnnn_mmmm_0111 op c = (if sint (ctx_r c (GetM op)) < sint (ctx_r c (GetN op)) then set_T 1 c else set_T 0 c)"

definition i0010_nnnn_mmmm_1100 :: "u32 \<Rightarrow> Sh4Context \<Rightarrow> Sh4Context" where \<comment> \<open>cmp/str Rm,Rn\<close>
  "i0010_nnnn_mmmm_1100 op c = (let temp = ctx_r c (GetN op) XOR ctx_r c (GetM op);
         HH = drop_bit 24 (temp AND 0xFF000000);
         HL = drop_bit 16 (temp AND 0x00FF0000);
         LH = drop_bit 8 (temp AND 0x0000FF00);
         LL = temp AND 0x000000FF
     in if bool_u32 (HH \<noteq> 0 \<and> HL \<noteq> 0 \<and> LH \<noteq> 0 \<and> LL \<noteq> 0) = 0 then set_T 1 c else set_T 0 c)"

definition i1100_1000_iiii_iiii :: "u32 \<Rightarrow> Sh4Context \<Rightarrow> Sh4Context" where \<comment> \<open>tst #imm,R0\<close>
  "i1100_1000_iiii_iiii op c = (if ctx_r c 0 AND GetImm8 op = 0 then set_T 1 c else set_T 0 c)"

definition i0010_nnnn_mmmm_1000 :: "u32 \<Rightarrow> Sh4Context \<Rightarrow> Sh4Context" where \<comment> \<open>tst Rm,Rn\<close>
  "i0010_nnnn_mmmm_1000 op c = (if ctx_r c (GetN op) AND ctx_r c (GetM op) \<noteq> 0 then set_T 0 c else set_T 1 c)"

section \<open>Multiplication\<close>

definition i0010_nnnn_mmmm_1110 :: "u32 \<Rightarrow> Sh4Context \<Rightarrow> Sh4Context" where \<comment> \<open>mulu.w Rm,Rn\<close>
  "i0010_nnnn_mmmm_1110 op c = set_mac_l (ucast (ucast (ctx_r c (GetN op)) :: u16) * ucast (ucast (ctx_r c (GetM op)) :: u16)) c"

definition i0010_nnnn_mmmm_1111 :: "u32 \<Rightarrow> Sh4Context \<Rightarrow> Sh4Context" where \<comment> \<open>muls.w Rm,Rn\<close>
  "i0010_nnnn_mmmm_1111 op c = set_mac_l (scast (ucast (ctx_r c (GetN op)) :: u16) * scast (ucast (ctx_r c (GetM op)) :: u16)) c"

definition i0011_nnnn_mmmm_0101 :: "u32 \<Rightarrow> Sh4Context \<Rightarrow> Sh4Context" where \<comment> \<open>dmulu.l Rm,Rn\<close>
  "i0011_nnnn_mmmm_0101 op c = c\<lparr>ctx_mac := ucast (ctx_r c (GetN op)) * ucast (ctx_r c (GetM op))\<rparr>"

definition i0011_nnnn_mmmm_1101 :: "u32 \<Rightarrow> Sh4Context \<Rightarrow> Sh4Context" where \<comment> \<open>dmuls.l Rm,Rn\<close>
  "i0011_nnnn_mmmm_1101 op c = c\<lparr>ctx_mac := scast (ctx_r c (GetN op)) * scast (ctx_r c (GetM op))\<rparr>"

definition i0000_nnnn_mmmm_0111 :: "u32 \<Rightarrow> Sh4Context \<Rightarrow> Sh4Context" where \<comment> \<open>mul.l Rm,Rn\<close>
  "i0000_nnnn_mmmm_0111 op c = set_mac_l (ctx_r c (GetN op) * ctx_r c (GetM op)) c"

definition i0100_nnnn_mmmm_1111 :: "'d env \<Rightarrow> u32 \<Rightarrow> ('d, unit) SM" where \<comment> \<open>mac.w @Rm+,@Rn+\<close>
  "i0100_nnnn_mmmm_1111 E op = with_ctx (\<lambda>c.
     if st_S (ctx_status c) \<noteq> 0 then throwM (Die ''mac.w @<REG_M>+,@<REG_N>+ : S=1'')
     else bindM (ReadMem16 E (ctx_r c (GetN op))) (\<lambda>rn.
       with_ctx (\<lambda>c. bindM (ReadMem16 E (ctx_r c (GetM op) + (if GetN op = GetM op then 2 else 0))) (\<lambda>rm.
       upd (\<lambda>c.
         let c1 = set_r (GetN op) (ctx_r c (GetN op) + 2) c;
             c2 = set_r (GetM op) (ctx_r c1 (GetM op) + 2) c1;
             mul = (scast rm * scast rn :: u32)
         in c2\<lparr>ctx_mac := ctx_mac c2 + scast mul\<rparr>)))))"

definition i0000_nnnn_mmmm_1111 :: "'d env \<Rightarrow> u32 \<Rightarrow> ('d, unit) SM" where \<comment> \<open>mac.l @Rm+,@Rn+\<close>
  "i0000_nnnn_mmmm_1111 E op = with_ctx (\<lambda>c.
     if st_S (ctx_status c) \<noteq> 0 then throwM (Die ''verify'')
     else bindM (ReadMem32 E (ctx_r c (GetM op))) (\<lambda>rm.
       with_ctx (\<lambda>c. bindM (ReadMem32 E (ctx_r c (GetN op) + (if GetN op = GetM op then 4 else 0))) (\<lambda>rn.
       upd (\<lambda>c.
         let c1 = set_r (GetM op) (ctx_r c (GetM op) + 4) c;
             c2 = set_r (GetN op) (ctx_r c1 (GetN op) + 4) c1
         in c2\<lparr>ctx_mac := ctx_mac c2 + scast rm * scast rn\<rparr>)))))"

section \<open>Division\<close>

definition i0000_0000_0001_1001 :: "u32 \<Rightarrow> Sh4Context \<Rightarrow> Sh4Context" where \<comment> \<open>div0u\<close>
  "i0000_0000_0001_1001 op c = set_T 0 (upd_status (\<lambda>st. set_M 0 (set_Q 0 st)) c)"

definition i0010_nnnn_mmmm_0111 :: "u32 \<Rightarrow> Sh4Context \<Rightarrow> Sh4Context" where \<comment> \<open>div0s Rm,Rn\<close>
  "i0010_nnnn_mmmm_0111 op c = (let c1 = upd_status (\<lambda>st. set_M (drop_bit 31 (ctx_r c (GetM op))) (set_Q (drop_bit 31 (ctx_r c (GetN op))) st)) c
     in set_T (st_M (ctx_status c1) XOR st_Q (ctx_status c1)) c1)"

definition i0011_nnnn_mmmm_0100 :: "u32 \<Rightarrow> Sh4Context \<Rightarrow> Sh4Context" where \<comment> \<open>div1 Rm,Rn\<close>
  "i0011_nnnn_mmmm_0100 op c = (let old_q = st_Q (ctx_status c);
         c1 = upd_status (set_Q (bool_u32 (0x80000000 AND ctx_r c (GetN op) \<noteq> 0))) c;
         old_rm = ctx_r c1 (GetM op);
         c2 = set_r (GetN op) (push_bit 1 (ctx_r c1 (GetN op))) c1;
         c3 = set_r (GetN op) (ctx_r c2 (GetN op) OR ctx_T c2) c2;
         old_rn = ctx_r c3 (GetN op);
         m = st_M (ctx_status c3);
         c4 = (if old_q = 0 then
                 if m = 0 then
                   let c' = set_r (GetN op) (ctx_r c3 (GetN op) - old_rm) c3;
                       tmp1 = ctx_r c' (GetN op) > old_rn
                   in upd_status (\<lambda>st. set_Q (st_Q st XOR bool_u32 tmp1) st) c'
                 else
                   let c' = set_r (GetN op) (ctx_r c3 (GetN op) + old_rm) c3;
                       tmp1 = ctx_r c' (GetN op) < old_rn
                   in upd_status (\<lambda>st. set_Q (bool_u32 (st_Q st = 0) XOR bool_u32 tmp1) st) c'
               else
                 if m = 0 then
                   let c' = set_r (GetN op) (ctx_r c3 (GetN op) + old_rm) c3;
                       tmp1 = ctx_r c' (GetN op) < old_rn
                   in upd_status (\<lambda>st. set_Q (st_Q st XOR bool_u32 tmp1) st) c'
                 else
                   let c' = set_r (GetN op) (ctx_r c3 (GetN op) - old_rm) c3;
                       tmp1 = ctx_r c' (GetN op) > old_rn
                   in upd_status (\<lambda>st. set_Q (bool_u32 (st_Q st = 0) XOR bool_u32 tmp1) st) c')
     in set_T (bool_u32 (st_Q (ctx_status c4) = st_M (ctx_status c4))) c4)"

section \<open>Addition and subtraction with carry and overflow\<close>

definition i0011_nnnn_mmmm_1110 :: "u32 \<Rightarrow> Sh4Context \<Rightarrow> Sh4Context" where \<comment> \<open>addc Rm,Rn\<close>
  "i0011_nnnn_mmmm_1110 op c = (let tmp1 = ctx_r c (GetN op) + ctx_r c (GetM op);
         tmp0 = ctx_r c (GetN op);
         c1 = set_r (GetN op) (tmp1 + ctx_T c) c;
         c2 = set_T (if tmp0 > tmp1 then 1 else 0) c1
     in if tmp1 > ctx_r c2 (GetN op) then set_T 1 c2 else c2)"

definition i0011_nnnn_mmmm_1111 :: "u32 \<Rightarrow> Sh4Context \<Rightarrow> Sh4Context" where \<comment> \<open>addv Rm,Rn\<close>
  "i0011_nnnn_mmmm_1111 op c = (let br = sint (ctx_r c (GetN op)) + sint (ctx_r c (GetM op));
         c1 = (if 0x80000000 \<le> br then set_T 1 c else if br < - 0x80000000 then set_T 1 c else set_T 0 c)
     in set_r (GetN op) (ctx_r c1 (GetN op) + ctx_r c1 (GetM op)) c1)"

definition i0011_nnnn_mmmm_1010 :: "u32 \<Rightarrow> Sh4Context \<Rightarrow> Sh4Context" where \<comment> \<open>subc Rm,Rn\<close>
  "i0011_nnnn_mmmm_1010 op c = (let tmp1 = ctx_r c (GetN op) - ctx_r c (GetM op);
         tmp0 = ctx_r c (GetN op);
         c1 = set_r (GetN op) (tmp1 - ctx_T c) c;
         c2 = set_T (if tmp0 < tmp1 then 1 else 0) c1
     in if tmp1 < ctx_r c2 (GetN op) then set_T 1 c2 else c2)"

definition i0011_nnnn_mmmm_1011 :: "u32 \<Rightarrow> Sh4Context \<Rightarrow> Sh4Context" where \<comment> \<open>subv Rm,Rn\<close>
  "i0011_nnnn_mmmm_1011 op c = (let br = sint (ctx_r c (GetN op)) - sint (ctx_r c (GetM op));
         c1 = (if 0x80000000 \<le> br then set_T 1 c else if br < - 0x80000000 then set_T 1 c else set_T 0 c)
     in set_r (GetN op) (ctx_r c1 (GetN op) - ctx_r c1 (GetM op)) c1)"

definition i0100_nnnn_0001_0000 :: "u32 \<Rightarrow> Sh4Context \<Rightarrow> Sh4Context" where \<comment> \<open>dt Rn\<close>
  "i0100_nnnn_0001_0000 op c = (let c1 = set_r (GetN op) (ctx_r c (GetN op) - 1) c
     in if ctx_r c1 (GetN op) = 0 then set_T 1 c1 else set_T 0 c1)"

definition i0110_nnnn_mmmm_1010 :: "u32 \<Rightarrow> Sh4Context \<Rightarrow> Sh4Context" where \<comment> \<open>negc Rm,Rn\<close>
  "i0110_nnnn_mmmm_1010 op c = (let tmp = 0 - ctx_r c (GetM op);
         c1 = set_r (GetN op) (tmp - ctx_T c) c;
         c2 = set_T (if 0 < tmp then 1 else 0) c1
     in if tmp < ctx_r c2 (GetN op) then set_T 1 c2 else c2)"

definition i0110_nnnn_mmmm_1011 :: "u32 \<Rightarrow> Sh4Context \<Rightarrow> Sh4Context" where \<comment> \<open>neg Rm,Rn\<close>
  "i0110_nnnn_mmmm_1011 op c = set_r (GetN op) (- ctx_r c (GetM op)) c"

definition i0110_nnnn_mmmm_0111 :: "u32 \<Rightarrow> Sh4Context \<Rightarrow> Sh4Context" where \<comment> \<open>not Rm,Rn\<close>
  "i0110_nnnn_mmmm_0111 op c = set_r (GetN op) (NOT (ctx_r c (GetM op))) c"

section \<open>Shifts and rotations\<close>

definition i0100_nnnn_0000_0000 :: "u32 \<Rightarrow> Sh4Context \<Rightarrow> Sh4Context" where \<comment> \<open>shll Rn\<close>
  "i0100_nnnn_0000_0000 op c = (let c1 = set_T (drop_bit 31 (ctx_r c (GetN op))) c
     in set_r (GetN op) (push_bit 1 (ctx_r c1 (GetN op))) c1)"

definition i0100_nnnn_0010_0000 :: "u32 \<Rightarrow> Sh4Context \<Rightarrow> Sh4Context" where \<comment> \<open>shal Rn\<close>
  "i0100_nnnn_0010_0000 op c = (let c1 = set_T (drop_bit 31 (ctx_r c (GetN op))) c
     in set_r (GetN op) (push_bit 1 (ctx_r c1 (GetN op))) c1)"

definition i0100_nnnn_0000_0001 :: "u32 \<Rightarrow> Sh4Context \<Rightarrow> Sh4Context" where \<comment> \<open>shlr Rn\<close>
  "i0100_nnnn_0000_0001 op c = (let c1 = set_T (ctx_r c (GetN op) AND 1) c
     in set_r (GetN op) (drop_bit 1 (ctx_r c1 (GetN op))) c1)"

definition i0100_nnnn_0010_0001 :: "u32 \<Rightarrow> Sh4Context \<Rightarrow> Sh4Context" where \<comment> \<open>shar Rn\<close>
  "i0100_nnnn_0010_0001 op c = (let c1 = set_T (ctx_r c (GetN op) AND 1) c
     in set_r (GetN op) (signed_drop_bit 1 (ctx_r c1 (GetN op))) c1)"

definition i0100_nnnn_mmmm_1100 :: "u32 \<Rightarrow> Sh4Context \<Rightarrow> Sh4Context" where \<comment> \<open>shad Rm,Rn\<close>
  "i0100_nnnn_mmmm_1100 op c = (let sgn = ctx_r c (GetM op) AND 0x80000000
     in if sgn = 0 then set_r (GetN op) (push_bit (unat (ctx_r c (GetM op) AND 0x1F)) (ctx_r c (GetN op))) c
        else if ctx_r c (GetM op) AND 0x1F = 0 then set_r (GetN op) (signed_drop_bit 31 (ctx_r c (GetN op))) c
        else set_r (GetN op) (signed_drop_bit (unat ((NOT (ctx_r c (GetM op)) AND 0x1F) + 1)) (ctx_r c (GetN op))) c)"

definition i0100_nnnn_mmmm_1101 :: "u32 \<Rightarrow> Sh4Context \<Rightarrow> Sh4Context" where \<comment> \<open>shld Rm,Rn\<close>
  "i0100_nnnn_mmmm_1101 op c = (let sgn = ctx_r c (GetM op) AND 0x80000000
     in if sgn = 0 then set_r (GetN op) (push_bit (unat (ctx_r c (GetM op) AND 0x1F)) (ctx_r c (GetN op))) c
        else if ctx_r c (GetM op) AND 0x1F = 0 then set_r (GetN op) 0 c
        else set_r (GetN op) (drop_bit (unat ((NOT (ctx_r c (GetM op)) AND 0x1F) + 1)) (ctx_r c (GetN op))) c)"

definition i0100_nnnn_0010_0100 :: "u32 \<Rightarrow> Sh4Context \<Rightarrow> Sh4Context" where \<comment> \<open>rotcl Rn\<close>
  "i0100_nnnn_0010_0100 op c = (let t = ctx_T c;
         c1 = set_T (drop_bit 31 (ctx_r c (GetN op))) c;
         c2 = set_r (GetN op) (push_bit 1 (ctx_r c1 (GetN op))) c1
     in set_r (GetN op) (ctx_r c2 (GetN op) OR t) c2)"

definition i0100_nnnn_0000_0100 :: "u32 \<Rightarrow> Sh4Context \<Rightarrow> Sh4Context" where \<comment> \<open>rotl Rn\<close>
  "i0100_nnnn_0000_0100 op c = (let c1 = set_T (drop_bit 31 (ctx_r c (GetN op))) c;
         c2 = set_r (GetN op) (push_bit 1 (ctx_r c1 (GetN op))) c1
     in set_r (GetN op) (ctx_r c2 (GetN op) OR ctx_T c2) c2)"

definition i0100_nnnn_0010_0101 :: "u32 \<Rightarrow> Sh4Context \<Rightarrow> Sh4Context" where \<comment> \<open>rotcr Rn\<close>
  "i0100_nnnn_0010_0101 op c = (let t = ctx_r c (GetN op) AND 1;
         c1 = set_r (GetN op) (drop_bit 1 (ctx_r c (GetN op))) c;
         c2 = set_r (GetN op) (ctx_r c1 (GetN op) OR push_bit 31 (ctx_T c1)) c1
     in set_T t c2)"

definition i0100_nnnn_0000_0101 :: "u32 \<Rightarrow> Sh4Context \<Rightarrow> Sh4Context" where \<comment> \<open>rotr Rn\<close>
  "i0100_nnnn_0000_0101 op c = (let c1 = set_T (ctx_r c (GetN op) AND 1) c;
         c2 = set_r (GetN op) (drop_bit 1 (ctx_r c1 (GetN op))) c1
     in set_r (GetN op) (ctx_r c2 (GetN op) OR push_bit 31 (ctx_T c2)) c2)"

section \<open>Byte order and sign extension\<close>

definition i0110_nnnn_mmmm_1000 :: "u32 \<Rightarrow> Sh4Context \<Rightarrow> Sh4Context" where \<comment> \<open>swap.b Rm,Rn\<close>
  "i0110_nnnn_mmmm_1000 op c = (let rg = ctx_r c (GetM op)
     in set_r (GetN op) ((rg AND 0xFFFF0000) OR push_bit 8 (rg AND 0xFF) OR (drop_bit 8 rg AND 0xFF)) c)"

definition i0110_nnnn_mmmm_1001 :: "u32 \<Rightarrow> Sh4Context \<Rightarrow> Sh4Context" where \<comment> \<open>swap.w Rm,Rn\<close>
  "i0110_nnnn_mmmm_1001 op c = (let t = (ucast (drop_bit 16 (ctx_r c (GetM op))) :: u16)
     in set_r (GetN op) (push_bit 16 (ctx_r c (GetM op)) OR ucast t) c)"

definition i0110_nnnn_mmmm_1100 :: "u32 \<Rightarrow> Sh4Context \<Rightarrow> Sh4Context" where \<comment> \<open>extu.b Rm,Rn\<close>
  "i0110_nnnn_mmmm_1100 op c = set_r (GetN op) (ucast (ucast (ctx_r c (GetM op)) :: u8)) c"

definition i0110_nnnn_mmmm_1101 :: "u32 \<Rightarrow> Sh4Context \<Rightarrow> Sh4Context" where \<comment> \<open>extu.w Rm,Rn\<close>
  "i0110_nnnn_mmmm_1101 op c = set_r (GetN op) (ucast (ucast (ctx_r c (GetM op)) :: u16)) c"

definition i0110_nnnn_mmmm_1110 :: "u32 \<Rightarrow> Sh4Context \<Rightarrow> Sh4Context" where \<comment> \<open>exts.b Rm,Rn\<close>
  "i0110_nnnn_mmmm_1110 op c = set_r (GetN op) (scast (ucast (ctx_r c (GetM op)) :: u8)) c"

definition i0110_nnnn_mmmm_1111 :: "u32 \<Rightarrow> Sh4Context \<Rightarrow> Sh4Context" where \<comment> \<open>exts.w Rm,Rn\<close>
  "i0110_nnnn_mmmm_1111 op c = set_r (GetN op) (scast (ucast (ctx_r c (GetM op)) :: u16)) c"

definition i0010_nnnn_mmmm_1101 :: "u32 \<Rightarrow> Sh4Context \<Rightarrow> Sh4Context" where \<comment> \<open>xtrct Rm,Rn\<close>
  "i0010_nnnn_mmmm_1101 op c = set_r (GetN op) ((drop_bit 16 (ctx_r c (GetN op)) AND 0xFFFF) OR (push_bit 16 (ctx_r c (GetM op)) AND 0xFFFF0000)) c"

section \<open>Read-modify-write of bytes\<close>

definition i1100_1100_iiii_iiii :: "'d env \<Rightarrow> u32 \<Rightarrow> ('d, unit) SM" where \<comment> \<open>tst.b #imm,@(R0,GBR)\<close>
  "i1100_1100_iiii_iiii E op = with_ctx (\<lambda>c. bindM (ReadMem8 E (ctx_gbr c + ctx_r c 0)) (\<lambda>v.
     upd (set_T (if ucast v AND GetImm8 op = 0 then 1 else 0))))"

definition i1100_1101_iiii_iiii :: "'d env \<Rightarrow> u32 \<Rightarrow> ('d, unit) SM" where \<comment> \<open>and.b #imm,@(R0,GBR)\<close>
  "i1100_1101_iiii_iiii E op = with_ctx (\<lambda>c. bindM (ReadMem8 E (ctx_gbr c + ctx_r c 0)) (\<lambda>v.
     with_ctx (\<lambda>c. WriteMem8 E (ctx_gbr c + ctx_r c 0) (v AND ucast (GetImm8 op)))))"

definition i1100_1110_iiii_iiii :: "'d env \<Rightarrow> u32 \<Rightarrow> ('d, unit) SM" where \<comment> \<open>xor.b #imm,@(R0,GBR)\<close>
  "i1100_1110_iiii_iiii E op = with_ctx (\<lambda>c. bindM (ReadMem8 E (ctx_gbr c + ctx_r c 0)) (\<lambda>v.
     with_ctx (\<lambda>c. WriteMem8 E (ctx_gbr c + ctx_r c 0) (v XOR ucast (GetImm8 op)))))"

definition i1100_1111_iiii_iiii :: "'d env \<Rightarrow> u32 \<Rightarrow> ('d, unit) SM" where \<comment> \<open>or.b #imm,@(R0,GBR)\<close>
  "i1100_1111_iiii_iiii E op = with_ctx (\<lambda>c. bindM (ReadMem8 E (ctx_gbr c + ctx_r c 0)) (\<lambda>v.
     with_ctx (\<lambda>c. WriteMem8 E (ctx_gbr c + ctx_r c 0) (v OR ucast (GetImm8 op)))))"

definition i0100_nnnn_0001_1011 :: "'d env \<Rightarrow> u32 \<Rightarrow> ('d, unit) SM" where \<comment> \<open>tas.b @Rn\<close>
  "i0100_nnnn_0001_1011 E op = with_ctx (\<lambda>c. bindM (ReadMem8 E (ctx_r c (GetN op))) (\<lambda>val.
     let srT = (if val = 0 then 1 else 0)
     in with_ctx (\<lambda>c. bindM (WriteMem8 E (ctx_r c (GetN op)) (val OR 0x80)) (\<lambda>_. upd (set_T srT)))))"

lemmas arith_ops_mem = i0100_nnnn_mmmm_1111_def i0000_nnnn_mmmm_1111_def
  i1100_1100_iiii_iiii_def i1100_1101_iiii_iiii_def i1100_1110_iiii_iiii_def
  i1100_1111_iiii_iiii_def i0100_nnnn_0001_1011_def

lemmas arith_ops_pure = i0011_nnnn_mmmm_1000_def i0011_nnnn_mmmm_1100_def
  i0111_nnnn_iiii_iiii_def i0010_nnnn_mmmm_1001_def i0010_nnnn_mmmm_1010_def
  i0010_nnnn_mmmm_1011_def i0100_nnnn_0000_1000_def i0100_nnnn_0001_1000_def
  i0100_nnnn_0010_1000_def i0100_nnnn_0000_1001_def i0100_nnnn_0001_1001_def
  i0100_nnnn_0010_1001_def i1100_1001_iiii_iiii_def i1100_1010_iiii_iiii_def
  i1100_1011_iiii_iiii_def i0000_0000_0000_1001_def i0000_0000_0101_1000_def
  i0000_0000_0100_1000_def i0000_0000_0001_1000_def i0000_0000_0000_1000_def
  i0000_nnnn_0010_1001_def i0100_nnnn_0001_0001_def i0100_nnnn_0001_0101_def
  i1000_1000_iiii_iiii_def i0011_nnnn_mmmm_0000_def i0011_nnnn_mmmm_0010_def
  i0011_nnnn_mmmm_0011_def i0011_nnnn_mmmm_0110_def i0011_nnnn_mmmm_0111_def
  i0010_nnnn_mmmm_1100_def i1100_1000_iiii_iiii_def i0010_nnnn_mmmm_1000_def
  i0010_nnnn_mmmm_1110_def i0010_nnnn_mmmm_1111_def i0011_nnnn_mmmm_0101_def
  i0011_nnnn_mmmm_1101_def i0000_nnnn_mmmm_0111_def i0000_0000_0001_1001_def
  i0010_nnnn_mmmm_0111_def i0011_nnnn_mmmm_0100_def i0011_nnnn_mmmm_1110_def
  i0011_nnnn_mmmm_1111_def i0011_nnnn_mmmm_1010_def i0011_nnnn_mmmm_1011_def
  i0100_nnnn_0001_0000_def i0110_nnnn_mmmm_1010_def i0110_nnnn_mmmm_1011_def
  i0110_nnnn_mmmm_0111_def i0100_nnnn_0000_0000_def i0100_nnnn_0010_0000_def
  i0100_nnnn_0000_0001_def i0100_nnnn_0010_0001_def i0100_nnnn_mmmm_1100_def
  i0100_nnnn_mmmm_1101_def i0100_nnnn_0010_0100_def i0100_nnnn_0000_0100_def
  i0100_nnnn_0010_0101_def i0100_nnnn_0000_0101_def i0110_nnnn_mmmm_1000_def
  i0110_nnnn_mmmm_1001_def i0110_nnnn_mmmm_1100_def i0110_nnnn_mmmm_1101_def
  i0110_nnnn_mmmm_1110_def i0110_nnnn_mmmm_1111_def i0010_nnnn_mmmm_1101_def

section \<open>Well-formedness\<close>

lemma drop_31: "drop_bit 31 (x :: u32) = of_bool (bit x 31)"
proof (rule bit_word_eqI)
  fix n
  show "bit (drop_bit 31 x) n = bit (of_bool (bit x 31) :: u32) n"
    by (cases "n = 0") (auto simp: bit_drop_bit_eq bit_of_bool_iff dest: bit_imp_le_length)
qed

lemma and_1: "x AND 1 = (of_bool (bit x 0) :: u32)"
  by (rule bit_word_eqI) (auto simp: bit_simps bit_word_1 intro: gr0I)

lemma xor_of_bool: "of_bool a XOR of_bool b = (of_bool (a \<noteq> b) :: u32)"
  by simp

lemmas wf_rules = ctx_wf_set_T ctx_wf_upd_status set_status_mask

text \<open>The pure instructions that write the status register keep it well formed.\<close>

lemma flag_ops_wf:
  assumes "ctx_wf c"
  shows "ctx_wf (i0010_nnnn_mmmm_0111 op c)" "ctx_wf (i0011_nnnn_mmmm_0100 op c)"
    "ctx_wf (i0000_0000_0001_1001 op c)" "ctx_wf (i0011_nnnn_mmmm_1110 op c)"
    "ctx_wf (i0011_nnnn_mmmm_1010 op c)" "ctx_wf (i0110_nnnn_mmmm_1010 op c)"
    "ctx_wf (i0100_nnnn_0010_0100 op c)" "ctx_wf (i0100_nnnn_0010_0101 op c)"
  using assms
  by (auto simp: arith_ops_pure Let_def drop_31 and_1 flag_bits xor_of_bool intro!: wf_rules)

section \<open>Carry and overflow\<close>

lemma addc_carry:
  fixes a b :: u32
  assumes "t = 0 \<or> t = 1"
  shows "unat (a + b + t) + 2 ^ 32 * of_bool (a + b < a \<or> a + b + t < a + b) = unat a + unat b + unat t"
proof -
  have c: "unat x < 2 ^ 32" for x :: u32 using unsigned_less [of x, where 'a = nat] by simp
  have s: "unat (x + y) = (if unat x + unat y < 2 ^ 32 then unat x + unat y else unat x + unat y - 2 ^ 32)"
    for x y :: u32 using unat_plus_if' [of x y] by simp
  have "unat t \<le> 1" using assms by auto
  then show ?thesis
    using c [of a] c [of b] by (auto simp: word_less_nat_alt s)
qed

lemma subc_borrow:
  fixes a b :: u32
  assumes "t = 0 \<or> t = 1"
  shows "unat (a - b - t) + unat b + unat t = unat a + 2 ^ 32 * of_bool (a < a - b \<or> a - b < a - b - t)"
proof -
  have c: "unat x < 2 ^ 32" for x :: u32 using unsigned_less [of x, where 'a = nat] by simp
  have s: "unat (x - y) = (if unat y \<le> unat x then unat x - unat y else unat x + 2 ^ 32 - unat y)"
    for x y :: u32 using unat_sub_if' [of x y] by simp
  have "unat t \<le> 1" using assms by auto
  then show ?thesis
    using c [of a] c [of b] by (auto simp: word_less_nat_alt s)
qed

text \<open>C25: With the carry in T, addc, subc and negc are exact: the 33-bit result is the sum, the
  difference, the negation with the incoming carry or borrow, T receives the carry or borrow
  out and no other part of the context changes. So chains of them are arithmetic on numbers
  of any length.\<close>
theorem addc_subc_negc_exact:
  assumes "ctx_wf c"
  shows "(let n = GetN op; m = GetM op; c' = i0011_nnnn_mmmm_1110 op c in
      unat (ctx_r c' n) + 2 ^ 32 * unat (ctx_T c') =
        unat (ctx_r c n) + unat (ctx_r c m) + unat (ctx_T c) \<and>
      c' = set_T (ctx_T c') (set_r n (ctx_r c' n) c) \<and> ctx_wf c') \<and>
    (let n = GetN op; m = GetM op; c' = i0011_nnnn_mmmm_1010 op c in
      unat (ctx_r c' n) + unat (ctx_r c m) + unat (ctx_T c) =
        unat (ctx_r c n) + 2 ^ 32 * unat (ctx_T c') \<and>
      c' = set_T (ctx_T c') (set_r n (ctx_r c' n) c) \<and> ctx_wf c') \<and>
    (let n = GetN op; m = GetM op; c' = i0110_nnnn_mmmm_1010 op c in
      unat (ctx_r c' n) + unat (ctx_r c m) + unat (ctx_T c) = 2 ^ 32 * unat (ctx_T c') \<and>
      c' = set_T (ctx_T c') (set_r n (ctx_r c' n) c) \<and> ctx_wf c')"
proof -
  note t = ctx_wf_T [OF assms]
  have TT: "set_T v (set_T w c) = set_T v c" for v w c by (simp add: set_T_def)
  show ?thesis
    using addc_carry [OF t, of "ctx_r c (GetN op)" "ctx_r c (GetM op)"]
      subc_borrow [OF t, of "ctx_r c (GetN op)" "ctx_r c (GetM op)"]
      subc_borrow [OF t, of 0 "ctx_r c (GetM op)"] flag_ops_wf [OF assms, of op]
    by (auto simp: i0011_nnnn_mmmm_1110_def i0011_nnnn_mmmm_1010_def i0110_nnnn_mmmm_1010_def Let_def TT)
qed

theorem addc_subc_negc_exact_witness:
  "(let c' = i0011_nnnn_mmmm_1110 0x312E (set_r 2 0xFFFFFFFF (set_T 1 zero_ctx))
    in ctx_r c' 1 = 0 \<and> ctx_T c' = 1)"
proof -
  have "ctx_wf (set_r 2 0xFFFFFFFF (set_T 1 zero_ctx))"
    by (simp add: ctx_wf_def sr_wf_def zero_ctx_def)
  from addc_subc_negc_exact [OF this, of "0x312E"] show ?thesis
    by (simp add: Let_def i0011_nnnn_mmmm_1110_def GetN_def GetM_def zero_ctx_def)
qed

text \<open>C26: addv and subv set T exactly on signed overflow, and leave the wrapped result.\<close>
theorem addv_subv_overflow:
  "ctx_T (i0011_nnnn_mmmm_1111 op c) = bool_u32
     (sint (ctx_r c (GetN op)) + sint (ctx_r c (GetM op)) \<noteq> sint (ctx_r c (GetN op) + ctx_r c (GetM op))) \<and>
   ctx_r (i0011_nnnn_mmmm_1111 op c) = (ctx_r c)(GetN op := ctx_r c (GetN op) + ctx_r c (GetM op)) \<and>
   ctx_T (i0011_nnnn_mmmm_1011 op c) = bool_u32
     (sint (ctx_r c (GetN op)) - sint (ctx_r c (GetM op)) \<noteq> sint (ctx_r c (GetN op) - ctx_r c (GetM op))) \<and>
   ctx_r (i0011_nnnn_mmmm_1011 op c) = (ctx_r c)(GetN op := ctx_r c (GetN op) - ctx_r c (GetM op))"
proof -
  have ov: "x \<noteq> signed_take_bit 31 x \<longleftrightarrow> 2 ^ 31 \<le> x \<or> x < - (2 ^ 31)" for x :: int
    using signed_take_bit_int_eq_self_iff [of 31 x] by auto
  have add: "sint a + sint b \<noteq> sint (a + b) \<longleftrightarrow> 2 ^ 31 \<le> sint a + sint b \<or> sint a + sint b < - (2 ^ 31)"
    for a b :: u32 using ov [of "sint a + sint b"] by (simp add: sint_word_ariths)
  have sub: "sint a - sint b \<noteq> sint (a - b) \<longleftrightarrow> 2 ^ 31 \<le> sint a - sint b \<or> sint a - sint b < - (2 ^ 31)"
    for a b :: u32 using ov [of "sint a - sint b"] by (simp add: sint_word_ariths)
  show ?thesis
    unfolding add sub by (auto simp: i0011_nnnn_mmmm_1111_def i0011_nnnn_mmmm_1011_def Let_def)
qed

section \<open>Products, comparisons, byte moves\<close>

lemma sint_mult_bound: "- (2 ^ 63) \<le> sint (a :: u32) * sint (b :: u32)" "sint a * sint b < 2 ^ 63"
proof -
  have b: "\<bar>sint x\<bar> \<le> 2 ^ 31" for x :: u32 using sint_ge [of x] sint_less [of x] by simp
  have "\<bar>sint a * sint b\<bar> \<le> 2 ^ 31 * 2 ^ 31"
    unfolding abs_mult by (rule mult_mono [OF b b]) simp_all
  then show "- (2 ^ 63) \<le> sint a * sint b" "sint a * sint b < 2 ^ 63" by simp_all
qed

text \<open>C27: The 32 by 32 bit multiplications leave the exact 64-bit product in MAC.\<close>
theorem dmul_exact:
  "unat (ctx_mac (i0011_nnnn_mmmm_0101 op c)) = unat (ctx_r c (GetN op)) * unat (ctx_r c (GetM op)) \<and>
   sint (ctx_mac (i0011_nnnn_mmmm_1101 op c)) = sint (ctx_r c (GetN op)) * sint (ctx_r c (GetM op))"
proof -
  have lt: "unat x < 2 ^ 32" for x :: u32 using unsigned_less [of x, where 'a = nat] by simp
  have "unat (ctx_r c (GetN op)) * unat (ctx_r c (GetM op)) < 2 ^ 32 * 2 ^ 32"
    using lt by (intro mult_strict_mono) simp_all
  moreover have "unat (ucast a :: u64) = unat a" for a :: u32
    using lt [of a] by (simp add: unsigned_ucast_eq take_bit_nat_eq_self)
  ultimately have "unat (ucast (ctx_r c (GetN op)) * ucast (ctx_r c (GetM op)) :: u64) =
      unat (ctx_r c (GetN op)) * unat (ctx_r c (GetM op))"
    by (subst unat_mult_lem [THEN iffD1]) simp_all
  moreover have "sint (scast a :: u64) = sint a" for a :: u32
    by (simp add: sint_up_scast is_up)
  then have "sint (scast (ctx_r c (GetN op)) * scast (ctx_r c (GetM op)) :: u64) =
      sint (ctx_r c (GetN op)) * sint (ctx_r c (GetM op))"
    using sint_mult_bound [of "ctx_r c (GetN op)" "ctx_r c (GetM op)"]
    by (simp add: sint_word_ariths signed_take_bit_int_eq_self)
  ultimately show ?thesis
    by (simp add: i0011_nnnn_mmmm_0101_def i0011_nnnn_mmmm_1101_def)
qed

end
