(* ===== verification/Sh4_Ops_System.thy ===== *)
theory Sh4_Ops_System
  imports Sh4_Ops_Base Sh4_Mmu
begin

text \<open>
  The branches, the system control instructions and those that write the status registers,
  of \<^verbatim>\<open>hw/sh4/interpr/sh4_opcodes.cpp\<close>. A delayed branch calls the routine of the
  interpreter that runs the next instruction, which is a field of the environment here and
  is tied to the interpreter in its theory. The cache instructions are empty outside
  \<^verbatim>\<open>STRICT_MODE\<close>.
\<close>

definition UpdateSR_INTC :: "'d machine \<Rightarrow> 'd machine" where \<comment> \<open>\<^verbatim>\<open>if (UpdateSR()) UpdateINTC();\<close>\<close>
  "UpdateSR_INTC s = (let (pending, s1) = UpdateSR s in if pending then snd (UpdateINTC s1) else s1)"

section \<open>Branches\<close>

definition i0000_nnnn_0010_0011 :: "'d env \<Rightarrow> u32 \<Rightarrow> ('d, unit) SM" where \<comment> \<open>braf Rn\<close>
  "i0000_nnnn_0010_0011 E op = with_ctx (\<lambda>c. let newpc = ctx_r c (GetN op) + ctx_pc c + 2
     in bindM (e_ExecuteDelayslot E) (\<lambda>_. upd (ctx_pc_update (\<lambda>_. newpc))))"

definition i0000_nnnn_0000_0011 :: "'d env \<Rightarrow> u32 \<Rightarrow> ('d, unit) SM" where \<comment> \<open>bsrf Rn\<close>
  "i0000_nnnn_0000_0011 E op = with_ctx (\<lambda>c. let newpc = ctx_r c (GetN op) + ctx_pc c + 2; newpr = ctx_pc c + 2
     in bindM (e_ExecuteDelayslot E) (\<lambda>_. upd (\<lambda>c. c\<lparr>ctx_pr := newpr, ctx_pc := newpc\<rparr>)))"

definition i0000_0000_0010_1011 :: "'d env \<Rightarrow> u32 \<Rightarrow> ('d, unit) SM" where \<comment> \<open>rte\<close>
  "i0000_0000_0010_1011 E op = with_ctx (\<lambda>c. let newpc = ctx_spc c
     in bindM (e_ExecuteDelayslot_RTE E) (\<lambda>_.
        bindM (upd (ctx_pc_update (\<lambda>_. newpc))) (\<lambda>_. modifyM UpdateSR_INTC)))"

definition i0000_0000_0000_1011 :: "'d env \<Rightarrow> u32 \<Rightarrow> ('d, unit) SM" where \<comment> \<open>rts\<close>
  "i0000_0000_0000_1011 E op = with_ctx (\<lambda>c. let newpc = ctx_pr c
     in bindM (e_ExecuteDelayslot E) (\<lambda>_. upd (ctx_pc_update (\<lambda>_. newpc))))"

definition i1000_1011_iiii_iiii :: "u32 \<Rightarrow> Sh4Context \<Rightarrow> Sh4Context" where \<comment> \<open>bf\<close>
  "i1000_1011_iiii_iiii op c = (if ctx_T c = 0 then c\<lparr>ctx_pc := branch_target_s8 c op\<rparr> else c)"

definition i1000_1111_iiii_iiii :: "'d env \<Rightarrow> u32 \<Rightarrow> ('d, unit) SM" where \<comment> \<open>bf.s\<close>
  "i1000_1111_iiii_iiii E op = with_ctx (\<lambda>c. if ctx_T c = 0 then
       let newpc = branch_target_s8 c op
       in bindM (e_ExecuteDelayslot E) (\<lambda>_. upd (ctx_pc_update (\<lambda>_. newpc)))
     else returnM ())"

definition i1000_1001_iiii_iiii :: "u32 \<Rightarrow> Sh4Context \<Rightarrow> Sh4Context" where \<comment> \<open>bt\<close>
  "i1000_1001_iiii_iiii op c = (if ctx_T c \<noteq> 0 then c\<lparr>ctx_pc := branch_target_s8 c op\<rparr> else c)"

definition i1000_1101_iiii_iiii :: "'d env \<Rightarrow> u32 \<Rightarrow> ('d, unit) SM" where \<comment> \<open>bt.s\<close>
  "i1000_1101_iiii_iiii E op = with_ctx (\<lambda>c. if ctx_T c \<noteq> 0 then
       let newpc = branch_target_s8 c op
       in bindM (e_ExecuteDelayslot E) (\<lambda>_. upd (ctx_pc_update (\<lambda>_. newpc)))
     else returnM ())"

definition i1010_iiii_iiii_iiii :: "'d env \<Rightarrow> u32 \<Rightarrow> ('d, unit) SM" where \<comment> \<open>bra\<close>
  "i1010_iiii_iiii_iiii E op = with_ctx (\<lambda>c. let newpc = branch_target_s12 c op
     in bindM (e_ExecuteDelayslot E) (\<lambda>_. upd (ctx_pc_update (\<lambda>_. newpc))))"

definition i1011_iiii_iiii_iiii :: "'d env \<Rightarrow> u32 \<Rightarrow> ('d, unit) SM" where \<comment> \<open>bsr\<close>
  "i1011_iiii_iiii_iiii E op = with_ctx (\<lambda>c. let newpr = ctx_pc c + 2; newpc = branch_target_s12 c op
     in bindM (e_ExecuteDelayslot E) (\<lambda>_. upd (\<lambda>c. c\<lparr>ctx_pr := newpr, ctx_pc := newpc\<rparr>)))"

definition i1100_0011_iiii_iiii :: "'d env \<Rightarrow> u32 \<Rightarrow> ('d, unit) SM" where \<comment> \<open>trapa #imm\<close>
  "i1100_0011_iiii_iiii E op = bindM (modifyM (m_ccn_update (CCN_TRA_update (\<lambda>_. push_bit 2 (GetImm8 op))))) (\<lambda>_.
     with_ctx (\<lambda>c. Do_Exception (ctx_pc c) Sh4Ex_Trap))"

definition i0100_nnnn_0010_1011 :: "'d env \<Rightarrow> u32 \<Rightarrow> ('d, unit) SM" where \<comment> \<open>jmp @Rn\<close>
  "i0100_nnnn_0010_1011 E op = with_ctx (\<lambda>c. let newpc = ctx_r c (GetN op)
     in bindM (e_ExecuteDelayslot E) (\<lambda>_. upd (ctx_pc_update (\<lambda>_. newpc))))"

definition i0100_nnnn_0000_1011 :: "'d env \<Rightarrow> u32 \<Rightarrow> ('d, unit) SM" where \<comment> \<open>jsr @Rn\<close>
  "i0100_nnnn_0000_1011 E op = with_ctx (\<lambda>c. let newpr = ctx_pc c + 2; newpc = ctx_r c (GetN op)
     in bindM (e_ExecuteDelayslot E) (\<lambda>_. upd (\<lambda>c. c\<lparr>ctx_pr := newpr, ctx_pc := newpc\<rparr>)))"

text \<open>
  The loop of sleep: \<open>sleep_wait E n\<close> runs at most \<open>n\<close> time slices and returns whether an
  interrupt came. The loop of the source leaves after its 1002nd slice without one.
\<close>

fun sleep_wait :: "'d env \<Rightarrow> nat \<Rightarrow> ('d, bool) SM" where
  "sleep_wait E 0 = returnM False"
| "sleep_wait E (Suc n) = bindM (UpdateSystem_INTC E) (\<lambda>r.
     if r \<noteq> 0 then returnM True else sleep_wait E n)"

definition i0000_0000_0001_1011 :: "'d env \<Rightarrow> u32 \<Rightarrow> ('d, unit) SM" where \<comment> \<open>sleep\<close>
  "i0000_0000_0001_1011 E op = bindM (sleep_wait E 1002) (\<lambda>interrupted.
     if interrupted then returnM () else upd (\<lambda>c. c\<lparr>ctx_pc := ctx_pc c - 2\<rparr>))"

section \<open>TLB and store queues\<close>

definition i0000_0000_0011_1000 :: "'d env \<Rightarrow> u32 \<Rightarrow> ('d, unit) SM" where \<comment> \<open>ldtlb\<close>
  "i0000_0000_0011_1000 E op = bindM (getM (\<lambda>s. MMUCR_URC (CCN_MMUCR (m_ccn s)))) (\<lambda>urc.
     bindM (modifyM (\<lambda>s. m_mmu_update (\<lambda>m. m\<lparr>UTLB := (UTLB m)(ucast urc :=
       \<lparr>Address = CCN_PTEH (m_ccn s), Data = CCN_PTEL (m_ccn s), Assistance = CCN_PTEA (m_ccn s)\<rparr>)\<rparr>) s))
     (\<lambda>_. modifyM (\<lambda>s. snd (e_UTLB_Sync E urc s))))"

definition i0000_nnnn_1001_0011 :: "u32 \<Rightarrow> Sh4Context \<Rightarrow> Sh4Context" where \<comment> \<open>ocbi @Rn\<close>
  "i0000_nnnn_1001_0011 op c = c"

definition i0000_nnnn_1010_0011 :: "u32 \<Rightarrow> Sh4Context \<Rightarrow> Sh4Context" where \<comment> \<open>ocbp @Rn\<close>
  "i0000_nnnn_1010_0011 op c = c"

definition i0000_nnnn_1011_0011 :: "u32 \<Rightarrow> Sh4Context \<Rightarrow> Sh4Context" where \<comment> \<open>ocbwb @Rn\<close>
  "i0000_nnnn_1011_0011 op c = c"

definition i0000_nnnn_1000_0011 :: "'d env \<Rightarrow> u32 \<Rightarrow> ('d, unit) SM" where \<comment> \<open>pref @Rn\<close>
  "i0000_nnnn_1000_0011 E op = with_ctx (\<lambda>c. let Dest = ctx_r c (GetN op)
     in if drop_bit 26 Dest = 0x38 then e_doSqWrite E (ctx_doSqWrite c) Dest else returnM ())"

section \<open>Status registers\<close>

definition i0000_nnnn_0000_0010 :: "u32 \<Rightarrow> Sh4Context \<Rightarrow> Sh4Context" where \<comment> \<open>stc SR,Rn\<close>
  "i0000_nnnn_0000_0010 op c = set_r (GetN op) (getFull (ctx_sr c)) c"

definition i0000_nnnn_0110_1010 :: "u32 \<Rightarrow> Sh4Context \<Rightarrow> Sh4Context" where \<comment> \<open>sts FPSCR,Rn\<close>
  "i0000_nnnn_0110_1010 op c = set_r (GetN op) (ctx_fpscr c) c"

definition i0100_nnnn_0110_0010 :: "'d env \<Rightarrow> u32 \<Rightarrow> ('d, unit) SM" where \<comment> \<open>sts.l FPSCR,@-Rn\<close>
  "i0100_nnnn_0110_0010 E op = with_ctx (\<lambda>c. bindM (WriteMem32 E (ctx_r c (GetN op) - 4) (ctx_fpscr c)) (\<lambda>_.
     upd (\<lambda>c. set_r (GetN op) (ctx_r c (GetN op) - 4) c)))"

definition i0100_nnnn_0000_0011 :: "'d env \<Rightarrow> u32 \<Rightarrow> ('d, unit) SM" where \<comment> \<open>stc.l SR,@-Rn\<close>
  "i0100_nnnn_0000_0011 E op = with_ctx (\<lambda>c. bindM (WriteMem32 E (ctx_r c (GetN op) - 4) (getFull (ctx_sr c))) (\<lambda>_.
     upd (\<lambda>c. set_r (GetN op) (ctx_r c (GetN op) - 4) c)))"

definition i0100_nnnn_0110_0110 :: "'d env \<Rightarrow> u32 \<Rightarrow> ('d, unit) SM" where \<comment> \<open>lds.l @Rn+,FPSCR\<close>
  "i0100_nnnn_0110_0110 E op = with_ctx (\<lambda>c. bindM (ReadMem32 E (ctx_r c (GetN op))) (\<lambda>v. upd (\<lambda>c.
     let c1 = UpdateFPSCR (c\<lparr>ctx_fpscr := v\<rparr>) in set_r (GetN op) (ctx_r c1 (GetN op) + 4) c1)))"

definition i0100_nnnn_0000_0111 :: "'d env \<Rightarrow> u32 \<Rightarrow> ('d, unit) SM" where \<comment> \<open>ldc.l @Rn+,SR\<close>
  "i0100_nnnn_0000_0111 E op = with_ctx (\<lambda>c. bindM (ReadMem32 E (ctx_r c (GetN op))) (\<lambda>v.
     bindM (upd (\<lambda>c. let c1 = c\<lparr>ctx_sr := setFull v\<rparr>
       in set_r (GetN op) (ctx_r c1 (GetN op) + 4) c1)) (\<lambda>_. modifyM UpdateSR_INTC)))"

definition i0100_nnnn_0110_1010 :: "u32 \<Rightarrow> Sh4Context \<Rightarrow> Sh4Context" where \<comment> \<open>lds Rn,FPSCR\<close>
  "i0100_nnnn_0110_1010 op c = UpdateFPSCR (c\<lparr>ctx_fpscr := ctx_r c (GetN op)\<rparr>)"

definition i0100_nnnn_0000_1110 :: "'d env \<Rightarrow> u32 \<Rightarrow> ('d, unit) SM" where \<comment> \<open>ldc Rn,SR\<close>
  "i0100_nnnn_0000_1110 E op = bindM (upd (\<lambda>c. c\<lparr>ctx_sr := setFull (ctx_r c (GetN op))\<rparr>)) (\<lambda>_. modifyM UpdateSR_INTC)"

definition iNotImplemented :: "'d env \<Rightarrow> u32 \<Rightarrow> ('d, unit) SM" where \<comment> \<open>unknown instructions\<close>
  "iNotImplemented E op = with_ctx (\<lambda>c. throwM (SH4ThrownException (ctx_pc c - 2) Sh4Ex_IllegalInstr))"

end
