(* ===== verification/Sh4_Opcode_List.thy ===== *)
theory Sh4_Opcode_List
  imports Sh4_Ops_Transfer Sh4_Ops_Arith Sh4_Ops_System
begin

text \<open>
  The decoder, \<^verbatim>\<open>hw/sh4/sh4_opcode_list.cpp\<close>: the list of instruction descriptions and
  \<^verbatim>\<open>BuildOpcodeTables\<close>, which expands it into the tables \<open>OpPtr\<close> and \<open>OpDesc\<close> of 65536
  entries. Of a description the recompiler's fields \<open>rec_oph\<close> and \<open>decode\<close> and the
  disassembly text \<open>diss\<close> are left out; the text stands beside each entry as a comment. The handlers of \<^verbatim>\<open>sh4_fpu.cpp\<close> and of the boot ROM trap
  are those of the environment.

  The last part shows that the expansion is a decoder: each opcode has at most one
  description, and both tables give it.
\<close>

section \<open>Descriptions\<close>

record 'd sh4_opcodelistentry =
  oph :: "'d env \<Rightarrow> u32 \<Rightarrow> ('d, unit) SM"
  op_mask :: u32
  op_rez :: u32
  op_type :: u32
  IssueCycles :: u8
  LatencyCycles :: u8
  op_unit :: sh4_eu
  ex_type :: u8

definition Mask_n_m :: u32 where
  "Mask_n_m = 0xF00F"
definition Mask_n_m_imm4 :: u32 where
  "Mask_n_m_imm4 = 0xF000"
definition Mask_n :: u32 where
  "Mask_n = 0xF0FF"
definition Mask_none :: u32 where
  "Mask_none = 0xFFFF"
definition Mask_imm8 :: u32 where
  "Mask_imm8 = 0xFF00"
definition Mask_n_imm8 :: u32 where
  "Mask_n_imm8 = 0xF000"
definition Mask_n_ml3bit :: u32 where
  "Mask_n_ml3bit = 0xF08F"
definition Mask_nh3bit :: u32 where
  "Mask_nh3bit = 0xF1FF"
definition Mask_nh2bit :: u32 where
  "Mask_nh2bit = 0xF3FF"

definition REIOS_OPCODE :: u32 where
  "REIOS_OPCODE = 0x085B"

definition Normal :: u32 where
  "Normal = 0"
definition ReadsPC :: u32 where
  "ReadsPC = 1"
definition WritesPC :: u32 where
  "WritesPC = 2"
definition Delayslot :: u32 where
  "Delayslot = 4"
definition WritesSR :: u32 where
  "WritesSR = 8"
definition WritesFPSCR :: u32 where
  "WritesFPSCR = 16"
definition UsesFPU :: u32 where
  "UsesFPU = 2048"
definition FWritesFPSCR :: u32 where
  "FWritesFPSCR = UsesFPU OR WritesFPSCR"
definition ReadWritePC :: u32 where
  "ReadWritePC = ReadsPC OR WritesPC"
definition WritesSRRWPC :: u32 where
  "WritesSRRWPC = WritesSR OR ReadsPC OR WritesPC"
definition Branch_dir :: u32 where
  "Branch_dir = ReadWritePC"
definition Branch_rel :: u32 where
  "Branch_rel = ReadWritePC"
definition Branch_dir_d :: u32 where
  "Branch_dir_d = Delayslot OR Branch_dir"
definition Branch_rel_d :: u32 where
  "Branch_rel_d = Delayslot OR Branch_rel"

lemmas op_masks = Mask_n_m_def Mask_n_m_imm4_def Mask_n_def Mask_none_def Mask_imm8_def
  Mask_n_imm8_def Mask_n_ml3bit_def Mask_nh3bit_def Mask_nh2bit_def

lemmas op_types = Normal_def ReadsPC_def WritesPC_def Delayslot_def WritesSR_def WritesFPSCR_def
  UsesFPU_def FWritesFPSCR_def ReadWritePC_def WritesSRRWPC_def Branch_dir_def Branch_rel_def
  Branch_dir_d_def Branch_rel_d_def

definition mk ::
  "('d env \<Rightarrow> u32 \<Rightarrow> ('d, unit) SM) \<Rightarrow> u32 \<Rightarrow> u32 \<Rightarrow> u32 \<Rightarrow> u8 \<Rightarrow> u8 \<Rightarrow> sh4_eu \<Rightarrow> u8 \<Rightarrow> 'd sh4_opcodelistentry" where
  "mk h ma re ty ic lc un ex = \<lparr>oph = h, op_mask = ma, op_rez = re, op_type = ty,
     IssueCycles = ic, LatencyCycles = lc, op_unit = un, ex_type = ex\<rparr>"

lemma mk_sel [simp]:
  "oph (mk h ma re ty ic lc un ex) = h" "op_mask (mk h ma re ty ic lc un ex) = ma"
  "op_rez (mk h ma re ty ic lc un ex) = re" "op_type (mk h ma re ty ic lc un ex) = ty"
  "IssueCycles (mk h ma re ty ic lc un ex) = ic" "LatencyCycles (mk h ma re ty ic lc un ex) = lc"
  "op_unit (mk h ma re ty ic lc un ex) = un" "ex_type (mk h ma re ty ic lc un ex) = ex"
  by (simp_all add: mk_def)

definition IsFloatingPoint :: "'d sh4_opcodelistentry \<Rightarrow> bool" where
  "IsFloatingPoint e \<longleftrightarrow> op_type e AND UsesFPU \<noteq> 0"

definition SetPC :: "'d sh4_opcodelistentry \<Rightarrow> bool" where
  "SetPC e \<longleftrightarrow> op_type e AND WritesPC \<noteq> 0"

definition NeedPC :: "'d sh4_opcodelistentry \<Rightarrow> bool" where
  "NeedPC e \<longleftrightarrow> op_type e AND ReadsPC \<noteq> 0"

definition SetSR :: "'d sh4_opcodelistentry \<Rightarrow> bool" where
  "SetSR e \<longleftrightarrow> op_type e AND WritesSR \<noteq> 0"

definition SetFPSCR :: "'d sh4_opcodelistentry \<Rightarrow> bool" where
  "SetFPSCR e \<longleftrightarrow> op_type e AND WritesFPSCR \<noteq> 0"

section \<open>Handlers\<close>

definition pure_op :: "(u32 \<Rightarrow> Sh4Context \<Rightarrow> Sh4Context) \<Rightarrow> 'd env \<Rightarrow> u32 \<Rightarrow> ('d, unit) SM" where
  "pure_op f E op = upd (f op)"

definition fpu_op :: "'d env \<Rightarrow> u32 \<Rightarrow> ('d, unit) SM" where
  "fpu_op E op = e_fpu E op"

definition reios_trap :: "'d env \<Rightarrow> u32 \<Rightarrow> ('d, unit) SM" where
  "reios_trap E op = e_reios_trap E op"

definition missing_opcode :: "'d sh4_opcodelistentry" where
  "missing_opcode = mk iNotImplemented 0 0 ReadWritePC 0 0 CO 1"

text \<open>The list is one array in the source; the second half starts at its comment \<open>ldc : @rn+\<close>.\<close>

definition opcodes_1 :: "'d sh4_opcodelistentry list" where
  "opcodes_1 =
   [mk reios_trap Mask_none REIOS_OPCODE Branch_dir 100 100 CO 1, \<comment> \<open>\<^verbatim>\<open>reios_trap\<close>\<close>
    mk i0000_nnnn_0010_0011 Mask_n 0x0023 Branch_rel_d 2 3 CO 4, \<comment> \<open>\<^verbatim>\<open>braf <REG_N>\<close>\<close>
    mk i0000_nnnn_0000_0011 Mask_n 0x0003 Branch_rel_d 2 3 CO 24, \<comment> \<open>\<^verbatim>\<open>bsrf <REG_N>\<close>\<close>
    mk i0000_nnnn_1100_0011 Mask_n 0x00C3 Normal 1 4 LS 12, \<comment> \<open>\<^verbatim>\<open>movca.l R0, @<REG_N>\<close>\<close>
    mk (pure_op i0000_nnnn_1001_0011) Mask_n 0x0093 Normal 1 2 LS 10, \<comment> \<open>\<^verbatim>\<open>ocbi @<REG_N>\<close>\<close>
    mk (pure_op i0000_nnnn_1010_0011) Mask_n 0x00A3 Normal 1 3 LS 11, \<comment> \<open>\<^verbatim>\<open>ocbp @<REG_N>\<close>\<close>
    mk (pure_op i0000_nnnn_1011_0011) Mask_n 0x00B3 Normal 1 3 LS 11, \<comment> \<open>\<^verbatim>\<open>ocbwb @<REG_N>\<close>\<close>
    mk i0000_nnnn_1000_0011 Mask_n 0x0083 Normal 1 1 LS 2, \<comment> \<open>\<^verbatim>\<open>pref @<REG_N>\<close>\<close>
    mk (pure_op i0000_nnnn_mmmm_0111) Mask_n_m 0x0007 Normal 2 4 CO 34, \<comment> \<open>\<^verbatim>\<open>mul.l <REG_M>,<REG_N>\<close>\<close>
    mk (pure_op i0000_0000_0010_1000) Mask_none 0x0028 Normal 1 3 CO 28, \<comment> \<open>\<^verbatim>\<open>clrmac\<close>\<close>
    mk (pure_op i0000_0000_0100_1000) Mask_none 0x0048 Normal 1 1 CO 1, \<comment> \<open>\<^verbatim>\<open>clrs\<close>\<close>
    mk (pure_op i0000_0000_0000_1000) Mask_none 0x0008 Normal 1 1 MT 1, \<comment> \<open>\<^verbatim>\<open>clrt\<close>\<close>
    mk i0000_0000_0011_1000 Mask_none 0x0038 Normal 1 1 CO 2, \<comment> \<open>\<^verbatim>\<open>ldtlb\<close>\<close>
    mk (pure_op i0000_0000_0101_1000) Mask_none 0x0058 Normal 1 1 CO 1, \<comment> \<open>\<^verbatim>\<open>sets\<close>\<close>
    mk (pure_op i0000_0000_0001_1000) Mask_none 0x0018 Normal 1 1 MT 1, \<comment> \<open>\<^verbatim>\<open>sett\<close>\<close>
    mk (pure_op i0000_0000_0001_1001) Mask_none 0x0019 Normal 1 1 EX_unit 1, \<comment> \<open>\<^verbatim>\<open>div0u\<close>\<close>
    mk (pure_op i0000_nnnn_0010_1001) Mask_n 0x0029 Normal 1 1 EX_unit 1, \<comment> \<open>\<^verbatim>\<open>movt <REG_N>\<close>\<close>
    mk (pure_op i0000_0000_0000_1001) Mask_none 0x0009 Normal 1 0 MT 1, \<comment> \<open>\<^verbatim>\<open>nop\<close>\<close>
    mk (pure_op i0000_0000_0000_1001) Mask_none 0x0000 Normal 1 0 MT 1, \<comment> \<open>\<^verbatim>\<open>nop0\<close>\<close>
    mk i0000_0000_0010_1011 Mask_none 0x002B Branch_dir_d 5 5 CO 8, \<comment> \<open>\<^verbatim>\<open>rte\<close>\<close>
    mk i0000_0000_0000_1011 Mask_none 0x000B Branch_dir_d 2 3 CO 4, \<comment> \<open>\<^verbatim>\<open>rts\<close>\<close>
    mk i0000_0000_0001_1011 Mask_none 0x001B ReadWritePC 4 4 CO 9, \<comment> \<open>\<^verbatim>\<open>sleep\<close>\<close>
    mk i0000_nnnn_mmmm_1111 Mask_n_m 0x000F Normal 2 4 CO 35, \<comment> \<open>\<^verbatim>\<open>mac.l @<REG_M>+,@<REG_N>+\<close>\<close>
    mk (pure_op i0010_nnnn_mmmm_0111) Mask_n_m 0x2007 Normal 1 1 EX_unit 1, \<comment> \<open>\<^verbatim>\<open>div0s <REG_M>,<REG_N>\<close>\<close>
    mk (pure_op i0010_nnnn_mmmm_1000) Mask_n_m 0x2008 Normal 1 1 MT 1, \<comment> \<open>\<^verbatim>\<open>tst <REG_M>,<REG_N>\<close>\<close>
    mk (pure_op i0010_nnnn_mmmm_1001) Mask_n_m 0x2009 Normal 1 1 EX_unit 1, \<comment> \<open>\<^verbatim>\<open>and <REG_M>,<REG_N>\<close>\<close>
    mk (pure_op i0010_nnnn_mmmm_1010) Mask_n_m 0x200A Normal 1 1 EX_unit 1, \<comment> \<open>\<^verbatim>\<open>xor <REG_M>,<REG_N>\<close>\<close>
    mk (pure_op i0010_nnnn_mmmm_1011) Mask_n_m 0x200B Normal 1 1 EX_unit 1, \<comment> \<open>\<^verbatim>\<open>or <REG_M>,<REG_N>\<close>\<close>
    mk (pure_op i0010_nnnn_mmmm_1100) Mask_n_m 0x200C Normal 1 1 MT 1, \<comment> \<open>\<^verbatim>\<open>cmp/str <REG_M>,<REG_N>\<close>\<close>
    mk (pure_op i0010_nnnn_mmmm_1101) Mask_n_m 0x200D Normal 1 1 EX_unit 1, \<comment> \<open>\<^verbatim>\<open>xtrct <REG_M>,<REG_N>\<close>\<close>
    mk (pure_op i0010_nnnn_mmmm_1110) Mask_n_m 0x200E Normal 2 4 CO 34, \<comment> \<open>\<^verbatim>\<open>mulu.w <REG_M>,<REG_N>\<close>\<close>
    mk (pure_op i0010_nnnn_mmmm_1111) Mask_n_m 0x200F Normal 2 4 CO 34, \<comment> \<open>\<^verbatim>\<open>muls.w <REG_M>,<REG_N>\<close>\<close>
    mk (pure_op i0011_nnnn_mmmm_0000) Mask_n_m 0x3000 Normal 1 1 MT 1, \<comment> \<open>\<^verbatim>\<open>cmp/eq <REG_M>,<REG_N>\<close>\<close>
    mk (pure_op i0011_nnnn_mmmm_0010) Mask_n_m 0x3002 Normal 1 1 MT 1, \<comment> \<open>\<^verbatim>\<open>cmp/hs <REG_M>,<REG_N>\<close>\<close>
    mk (pure_op i0011_nnnn_mmmm_0011) Mask_n_m 0x3003 Normal 1 1 MT 1, \<comment> \<open>\<^verbatim>\<open>cmp/ge <REG_M>,<REG_N>\<close>\<close>
    mk (pure_op i0011_nnnn_mmmm_0100) Mask_n_m 0x3004 Normal 1 1 EX_unit 1, \<comment> \<open>\<^verbatim>\<open>div1 <REG_M>,<REG_N>\<close>\<close>
    mk (pure_op i0011_nnnn_mmmm_0101) Mask_n_m 0x3005 Normal 2 4 CO 34, \<comment> \<open>\<^verbatim>\<open>dmulu.l <REG_M>,<REG_N>\<close>\<close>
    mk (pure_op i0011_nnnn_mmmm_0110) Mask_n_m 0x3006 Normal 1 1 MT 1, \<comment> \<open>\<^verbatim>\<open>cmp/hi <REG_M>,<REG_N>\<close>\<close>
    mk (pure_op i0011_nnnn_mmmm_0111) Mask_n_m 0x3007 Normal 1 1 MT 1, \<comment> \<open>\<^verbatim>\<open>cmp/gt <REG_M>,<REG_N>\<close>\<close>
    mk (pure_op i0011_nnnn_mmmm_1000) Mask_n_m 0x3008 Normal 1 1 EX_unit 1, \<comment> \<open>\<^verbatim>\<open>sub <REG_M>,<REG_N>\<close>\<close>
    mk (pure_op i0011_nnnn_mmmm_1010) Mask_n_m 0x300A Normal 1 1 EX_unit 1, \<comment> \<open>\<^verbatim>\<open>subc <REG_M>,<REG_N>\<close>\<close>
    mk (pure_op i0011_nnnn_mmmm_1011) Mask_n_m 0x300B Normal 1 1 EX_unit 1, \<comment> \<open>\<^verbatim>\<open>subv <REG_M>,<REG_N>\<close>\<close>
    mk (pure_op i0011_nnnn_mmmm_1100) Mask_n_m 0x300C Normal 1 1 EX_unit 1, \<comment> \<open>\<^verbatim>\<open>add <REG_M>,<REG_N>\<close>\<close>
    mk (pure_op i0011_nnnn_mmmm_1101) Mask_n_m 0x300D Normal 2 4 CO 34, \<comment> \<open>\<^verbatim>\<open>dmuls.l <REG_M>,<REG_N>\<close>\<close>
    mk (pure_op i0011_nnnn_mmmm_1110) Mask_n_m 0x300E Normal 1 1 EX_unit 1, \<comment> \<open>\<^verbatim>\<open>addc <REG_M>,<REG_N>\<close>\<close>
    mk (pure_op i0011_nnnn_mmmm_1111) Mask_n_m 0x300F Normal 1 1 EX_unit 1, \<comment> \<open>\<^verbatim>\<open>addv <REG_M>,<REG_N>\<close>\<close>
    mk i0000_nnnn_mmmm_0100 Mask_n_m 0x0004 Normal 1 1 LS 2, \<comment> \<open>\<^verbatim>\<open>mov.b <REG_M>,@(R0,<REG_N>)\<close>\<close>
    mk i0000_nnnn_mmmm_0101 Mask_n_m 0x0005 Normal 1 1 LS 2, \<comment> \<open>\<^verbatim>\<open>mov.w <REG_M>,@(R0,<REG_N>)\<close>\<close>
    mk i0000_nnnn_mmmm_0110 Mask_n_m 0x0006 Normal 1 1 LS 2, \<comment> \<open>\<^verbatim>\<open>mov.l <REG_M>,@(R0,<REG_N>)\<close>\<close>
    mk i0000_nnnn_mmmm_1100 Mask_n_m 0x000C Normal 1 2 LS 2, \<comment> \<open>\<^verbatim>\<open>mov.b @(R0,<REG_M>),<REG_N>\<close>\<close>
    mk i0000_nnnn_mmmm_1101 Mask_n_m 0x000D Normal 1 2 LS 2, \<comment> \<open>\<^verbatim>\<open>mov.w @(R0,<REG_M>),<REG_N>\<close>\<close>
    mk i0000_nnnn_mmmm_1110 Mask_n_m 0x000E Normal 1 2 LS 2, \<comment> \<open>\<^verbatim>\<open>mov.l @(R0,<REG_M>),<REG_N>\<close>\<close>
    mk i0001_nnnn_mmmm_iiii Mask_n_imm8 0x1000 Normal 1 1 LS 2, \<comment> \<open>\<^verbatim>\<open>mov.l <REG_M>,@(<disp4dw>,<REG_N>)\<close>\<close>
    mk i0101_nnnn_mmmm_iiii Mask_n_m_imm4 0x5000 Normal 1 2 LS 2, \<comment> \<open>\<^verbatim>\<open>mov.l @(<disp4dw>,<REG_M>),<REG_N>\<close>\<close>
    mk i0010_nnnn_mmmm_0000 Mask_n_m 0x2000 Normal 1 1 LS 2, \<comment> \<open>\<^verbatim>\<open>mov.b <REG_M>,@<REG_N>\<close>\<close>
    mk i0010_nnnn_mmmm_0001 Mask_n_m 0x2001 Normal 1 1 LS 2, \<comment> \<open>\<^verbatim>\<open>mov.w <REG_M>,@<REG_N>\<close>\<close>
    mk i0010_nnnn_mmmm_0010 Mask_n_m 0x2002 Normal 1 1 LS 2, \<comment> \<open>\<^verbatim>\<open>mov.l <REG_M>,@<REG_N>\<close>\<close>
    mk i0110_nnnn_mmmm_0000 Mask_n_m 0x6000 Normal 1 2 LS 2, \<comment> \<open>\<^verbatim>\<open>mov.b @<REG_M>,<REG_N>\<close>\<close>
    mk i0110_nnnn_mmmm_0001 Mask_n_m 0x6001 Normal 1 2 LS 2, \<comment> \<open>\<^verbatim>\<open>mov.w @<REG_M>,<REG_N>\<close>\<close>
    mk i0110_nnnn_mmmm_0010 Mask_n_m 0x6002 Normal 1 2 LS 2, \<comment> \<open>\<^verbatim>\<open>mov.l @<REG_M>,<REG_N>\<close>\<close>
    mk i0010_nnnn_mmmm_0100 Mask_n_m 0x2004 Normal 1 1 LS 2, \<comment> \<open>\<^verbatim>\<open>mov.b <REG_M>,@-<REG_N>\<close>\<close>
    mk i0010_nnnn_mmmm_0101 Mask_n_m 0x2005 Normal 1 1 LS 2, \<comment> \<open>\<^verbatim>\<open>mov.w <REG_M>,@-<REG_N>\<close>\<close>
    mk i0010_nnnn_mmmm_0110 Mask_n_m 0x2006 Normal 1 1 LS 2, \<comment> \<open>\<^verbatim>\<open>mov.l <REG_M>,@-<REG_N>\<close>\<close>
    mk i0110_nnnn_mmmm_0100 Mask_n_m 0x6004 Normal 1 2 LS 2, \<comment> \<open>\<^verbatim>\<open>mov.b @<REG_M>+,<REG_N>\<close>\<close>
    mk i0110_nnnn_mmmm_0101 Mask_n_m 0x6005 Normal 1 2 LS 2, \<comment> \<open>\<^verbatim>\<open>mov.w @<REG_M>+,<REG_N>\<close>\<close>
    mk i0110_nnnn_mmmm_0110 Mask_n_m 0x6006 Normal 1 2 LS 2, \<comment> \<open>\<^verbatim>\<open>mov.l @<REG_M>+,<REG_N>\<close>\<close>
    mk i1000_0000_mmmm_iiii Mask_imm8 0x8000 Normal 1 1 LS 2, \<comment> \<open>\<^verbatim>\<open>mov.b R0,@(<disp4b>,<REG_M>)\<close>\<close>
    mk i1000_0001_mmmm_iiii Mask_imm8 0x8100 Normal 1 1 LS 2, \<comment> \<open>\<^verbatim>\<open>mov.w R0,@(<disp4w>,<REG_M>)\<close>\<close>
    mk i1000_0100_mmmm_iiii Mask_imm8 0x8400 Normal 1 2 LS 2, \<comment> \<open>\<^verbatim>\<open>mov.b @(<disp4b>,<REG_M>),R0\<close>\<close>
    mk i1000_0101_mmmm_iiii Mask_imm8 0x8500 Normal 1 2 LS 2, \<comment> \<open>\<^verbatim>\<open>mov.w @(<disp4w>,<REG_M>),R0\<close>\<close>
    mk i1001_nnnn_iiii_iiii Mask_n_imm8 0x9000 ReadsPC 1 2 LS 2, \<comment> \<open>\<^verbatim>\<open>mov.w @(<PCdisp8w>),<REG_N>\<close>\<close>
    mk i1100_0000_iiii_iiii Mask_imm8 0xC000 Normal 1 1 LS 3, \<comment> \<open>\<^verbatim>\<open>mov.b R0,@(<disp8b>,GBR)\<close>\<close>
    mk i1100_0001_iiii_iiii Mask_imm8 0xC100 Normal 1 1 LS 3, \<comment> \<open>\<^verbatim>\<open>mov.w R0,@(<disp8w>,GBR)\<close>\<close>
    mk i1100_0010_iiii_iiii Mask_imm8 0xC200 Normal 1 1 LS 3, \<comment> \<open>\<^verbatim>\<open>mov.l R0,@(<disp8dw>,GBR)\<close>\<close>
    mk i1100_0100_iiii_iiii Mask_imm8 0xC400 Normal 1 2 LS 3, \<comment> \<open>\<^verbatim>\<open>mov.b @(<GBRdisp8b>),R0\<close>\<close>
    mk i1100_0101_iiii_iiii Mask_imm8 0xC500 Normal 1 2 LS 3, \<comment> \<open>\<^verbatim>\<open>mov.w @(<GBRdisp8w>),R0\<close>\<close>
    mk i1100_0110_iiii_iiii Mask_imm8 0xC600 Normal 1 2 LS 3, \<comment> \<open>\<^verbatim>\<open>mov.l @(<GBRdisp8dw>),R0\<close>\<close>
    mk i1101_nnnn_iiii_iiii Mask_n_imm8 0xD000 ReadsPC 1 2 LS 2, \<comment> \<open>\<^verbatim>\<open>mov.l @(<PCdisp8d>),<REG_N>\<close>\<close>
    mk (pure_op i0110_nnnn_mmmm_0011) Mask_n_m 0x6003 Normal 1 0 MT 1, \<comment> \<open>\<^verbatim>\<open>mov <REG_M>,<REG_N>\<close>\<close>
    mk (pure_op i1100_0111_iiii_iiii) Mask_imm8 0xC700 ReadsPC 1 1 EX_unit 1, \<comment> \<open>\<^verbatim>\<open>mova @(<PCdisp8d>),R0\<close>\<close>
    mk (pure_op i1110_nnnn_iiii_iiii) Mask_n_imm8 0xE000 Normal 1 1 EX_unit 1, \<comment> \<open>\<^verbatim>\<open>mov #<simm8hex>,<REG_N>\<close>\<close>
    mk i0100_nnnn_0101_0010 Mask_n 0x4052 UsesFPU 1 1 CO 2, \<comment> \<open>\<^verbatim>\<open>sts.l FPUL,@-<REG_N>\<close>\<close>
    mk i0100_nnnn_0110_0010 Mask_n 0x4062 UsesFPU 1 1 CO 2, \<comment> \<open>\<^verbatim>\<open>sts.l FPSCR,@-<REG_N>\<close>\<close>
    mk i0100_nnnn_0000_0010 Mask_n 0x4002 Normal 1 1 CO 31, \<comment> \<open>\<^verbatim>\<open>sts.l MACH,@-<REG_N>\<close>\<close>
    mk i0100_nnnn_0001_0010 Mask_n 0x4012 Normal 1 1 CO 31, \<comment> \<open>\<^verbatim>\<open>sts.l MACL,@-<REG_N>\<close>\<close>
    mk i0100_nnnn_0010_0010 Mask_n 0x4022 Normal 2 2 CO 27, \<comment> \<open>\<^verbatim>\<open>sts.l PR,@-<REG_N>\<close>\<close>
    mk i0100_nnnn_1111_0010 Mask_n 0x40F2 Normal 2 2 CO 22, \<comment> \<open>\<^verbatim>\<open>stc.l DBR,@-<REG_N>\<close>\<close>
    mk i0100_nnnn_0011_0010 Mask_n 0x4032 Normal 3 3 CO 23, \<comment> \<open>\<^verbatim>\<open>stc.l SGR,@-<REG_N>\<close>\<close>
    mk i0100_nnnn_0000_0011 Mask_n 0x4003 Normal 2 2 CO 22, \<comment> \<open>\<^verbatim>\<open>stc.l SR,@-<REG_N>\<close>\<close>
    mk i0100_nnnn_0001_0011 Mask_n 0x4013 Normal 2 2 CO 22, \<comment> \<open>\<^verbatim>\<open>stc.l GBR,@-<REG_N>\<close>\<close>
    mk i0100_nnnn_0010_0011 Mask_n 0x4023 Normal 2 2 CO 22, \<comment> \<open>\<^verbatim>\<open>stc.l VBR,@-<REG_N>\<close>\<close>
    mk i0100_nnnn_0011_0011 Mask_n 0x4033 Normal 2 2 CO 22, \<comment> \<open>\<^verbatim>\<open>stc.l SSR,@-<REG_N>\<close>\<close>
    mk i0100_nnnn_0100_0011 Mask_n 0x4043 Normal 2 2 CO 22, \<comment> \<open>\<^verbatim>\<open>stc.l SPC,@-<REG_N>\<close>\<close>
    mk i0100_nnnn_1mmm_0011 Mask_n_ml3bit 0x4083 Normal 2 2 CO 22, \<comment> \<open>\<^verbatim>\<open>stc <RM_BANK>,@-<REG_N>\<close>\<close>
    mk i0100_nnnn_0000_0110 Mask_n 0x4006 Normal 1 3 CO 29, \<comment> \<open>\<^verbatim>\<open>lds.l @<REG_N>+,MACH\<close>\<close>
    mk i0100_nnnn_0001_0110 Mask_n 0x4016 Normal 1 3 CO 29, \<comment> \<open>\<^verbatim>\<open>lds.l @<REG_N>+,MAC\<close>\<close>
    mk i0100_nnnn_0010_0110 Mask_n 0x4026 Normal 2 3 CO 25, \<comment> \<open>\<^verbatim>\<open>lds.l @<REG_N>+,PR\<close>\<close>
    mk i0100_nnnn_0011_0110 Mask_n 0x4036 Normal 3 3 CO 18, \<comment> \<open>\<^verbatim>\<open>ldc.l @<REG_N>+,SGR\<close>\<close>
    mk i0100_nnnn_0101_0110 Mask_n 0x4056 UsesFPU 1 2 CO 2, \<comment> \<open>\<^verbatim>\<open>lds.l @<REG_N>+,FPUL\<close>\<close>
    mk i0100_nnnn_0110_0110 Mask_n 0x4066 FWritesFPSCR 1 4 CO 33, \<comment> \<open>\<^verbatim>\<open>lds.l @<REG_N>+,FPSCR\<close>\<close>
    mk i0100_nnnn_1111_0110 Mask_n 0x40F6 Normal 1 3 CO 17] \<comment> \<open>\<^verbatim>\<open>ldc.l @<REG_N>+,DBR\<close>\<close>"

definition opcodes_2 :: "'d sh4_opcodelistentry list" where
  "opcodes_2 =
   [mk i0100_nnnn_0000_0111 Mask_n 0x4007 WritesSRRWPC 4 4 CO 19, \<comment> \<open>\<^verbatim>\<open>ldc.l @<REG_N>+,SR\<close>\<close>
    mk i0100_nnnn_0001_0111 Mask_n 0x4017 Normal 3 3 CO 18, \<comment> \<open>\<^verbatim>\<open>ldc.l @<REG_N>+,GBR\<close>\<close>
    mk i0100_nnnn_0010_0111 Mask_n 0x4027 Normal 1 3 CO 17, \<comment> \<open>\<^verbatim>\<open>ldc.l @<REG_N>+,VBR\<close>\<close>
    mk i0100_nnnn_0011_0111 Mask_n 0x4037 Normal 1 3 CO 17, \<comment> \<open>\<^verbatim>\<open>ldc.l @<REG_N>+,SSR\<close>\<close>
    mk i0100_nnnn_0100_0111 Mask_n 0x4047 Normal 1 3 CO 17, \<comment> \<open>\<^verbatim>\<open>ldc.l @<REG_N>+,SPC\<close>\<close>
    mk i0100_nnnn_1mmm_0111 Mask_n_ml3bit 0x4087 Normal 1 3 CO 17, \<comment> \<open>\<^verbatim>\<open>ldc.l @<REG_N>+,RM_BANK\<close>\<close>
    mk (pure_op i0000_nnnn_0000_0010) Mask_n 0x0002 Normal 2 2 CO 20, \<comment> \<open>\<^verbatim>\<open>stc SR,<REG_N>\<close>\<close>
    mk (pure_op i0000_nnnn_0001_0010) Mask_n 0x0012 Normal 2 2 CO 20, \<comment> \<open>\<^verbatim>\<open>stc GBR,<REG_N>\<close>\<close>
    mk (pure_op i0000_nnnn_0010_0010) Mask_n 0x0022 Normal 2 2 CO 20, \<comment> \<open>\<^verbatim>\<open>stc VBR,<REG_N>\<close>\<close>
    mk (pure_op i0000_nnnn_0011_0010) Mask_n 0x0032 Normal 2 2 CO 20, \<comment> \<open>\<^verbatim>\<open>stc SSR,<REG_N>\<close>\<close>
    mk (pure_op i0000_nnnn_0100_0010) Mask_n 0x0042 Normal 2 2 CO 20, \<comment> \<open>\<^verbatim>\<open>stc SPC,<REG_N>\<close>\<close>
    mk (pure_op i0000_nnnn_1mmm_0010) Mask_n_ml3bit 0x0082 Normal 2 2 CO 20, \<comment> \<open>\<^verbatim>\<open>stc RM_BANK,<REG_N>\<close>\<close>
    mk (pure_op i0000_nnnn_0000_1010) Mask_n 0x000A Normal 1 3 CO 30, \<comment> \<open>\<^verbatim>\<open>sts MACH,<REG_N>\<close>\<close>
    mk (pure_op i0000_nnnn_0001_1010) Mask_n 0x001A Normal 1 3 CO 30, \<comment> \<open>\<^verbatim>\<open>sts MACL,<REG_N>\<close>\<close>
    mk (pure_op i0000_nnnn_0010_1010) Mask_n 0x002A Normal 2 2 CO 26, \<comment> \<open>\<^verbatim>\<open>sts PR,<REG_N>\<close>\<close>
    mk (pure_op i0000_nnnn_0011_1010) Mask_n 0x003A Normal 3 3 CO 21, \<comment> \<open>\<^verbatim>\<open>sts SGR,<REG_N>\<close>\<close>
    mk (pure_op i0000_nnnn_0101_1010) Mask_n 0x005A UsesFPU 1 3 LS 1, \<comment> \<open>\<^verbatim>\<open>sts FPUL,<REG_N>\<close>\<close>
    mk (pure_op i0000_nnnn_0110_1010) Mask_n 0x006A UsesFPU 1 3 CO 1, \<comment> \<open>\<^verbatim>\<open>sts FPSCR,<REG_N>\<close>\<close>
    mk (pure_op i0000_nnnn_1111_1010) Mask_n 0x00FA Normal 2 2 CO 20, \<comment> \<open>\<^verbatim>\<open>sts DBR,<REG_N>\<close>\<close>
    mk (pure_op i0100_nnnn_0000_1010) Mask_n 0x400A Normal 1 3 CO 28, \<comment> \<open>\<^verbatim>\<open>lds <REG_N>,MACH\<close>\<close>
    mk (pure_op i0100_nnnn_0001_1010) Mask_n 0x401A Normal 1 3 CO 28, \<comment> \<open>\<^verbatim>\<open>lds <REG_N>,MAC\<close>\<close>
    mk (pure_op i0100_nnnn_0010_1010) Mask_n 0x402A Normal 2 3 CO 24, \<comment> \<open>\<^verbatim>\<open>lds <REG_N>,PR\<close>\<close>
    mk (pure_op i0100_nnnn_0011_1010) Mask_n 0x403A Normal 3 3 CO 15, \<comment> \<open>\<^verbatim>\<open>ldc <REG_N>,SGR\<close>\<close>
    mk (pure_op i0100_nnnn_0101_1010) Mask_n 0x405A UsesFPU 1 1 LS 1, \<comment> \<open>\<^verbatim>\<open>lds <REG_N>,FPUL\<close>\<close>
    mk (pure_op i0100_nnnn_0110_1010) Mask_n 0x406A FWritesFPSCR 1 4 CO 32, \<comment> \<open>\<^verbatim>\<open>lds <REG_N>,FPSCR\<close>\<close>
    mk (pure_op i0100_nnnn_1111_1010) Mask_n 0x40FA Normal 1 3 CO 14, \<comment> \<open>\<^verbatim>\<open>ldc <REG_N>,DBR\<close>\<close>
    mk i0100_nnnn_0000_1110 Mask_n 0x400E WritesSRRWPC 4 4 CO 16, \<comment> \<open>\<^verbatim>\<open>ldc <REG_N>,SR\<close>\<close>
    mk (pure_op i0100_nnnn_0001_1110) Mask_n 0x401E Normal 3 3 CO 15, \<comment> \<open>\<^verbatim>\<open>ldc <REG_N>,GBR\<close>\<close>
    mk (pure_op i0100_nnnn_0010_1110) Mask_n 0x402E Normal 1 3 CO 14, \<comment> \<open>\<^verbatim>\<open>ldc <REG_N>,VBR\<close>\<close>
    mk (pure_op i0100_nnnn_0011_1110) Mask_n 0x403E Normal 1 3 CO 14, \<comment> \<open>\<^verbatim>\<open>ldc <REG_N>,SSR\<close>\<close>
    mk (pure_op i0100_nnnn_0100_1110) Mask_n 0x404E Normal 1 3 CO 14, \<comment> \<open>\<^verbatim>\<open>ldc <REG_N>,SPC\<close>\<close>
    mk (pure_op i0100_nnnn_1mmm_1110) Mask_n_ml3bit 0x408E Normal 1 3 CO 14, \<comment> \<open>\<^verbatim>\<open>ldc <REG_N>,<RM_BANK>\<close>\<close>
    mk (pure_op i0100_nnnn_0000_0000) Mask_n 0x4000 Normal 1 1 EX_unit 1, \<comment> \<open>\<^verbatim>\<open>shll <REG_N>\<close>\<close>
    mk (pure_op i0100_nnnn_0001_0000) Mask_n 0x4010 Normal 1 1 EX_unit 1, \<comment> \<open>\<^verbatim>\<open>dt <REG_N>\<close>\<close>
    mk (pure_op i0100_nnnn_0010_0000) Mask_n 0x4020 Normal 1 1 EX_unit 1, \<comment> \<open>\<^verbatim>\<open>shal <REG_N>\<close>\<close>
    mk (pure_op i0100_nnnn_0000_0001) Mask_n 0x4001 Normal 1 1 EX_unit 1, \<comment> \<open>\<^verbatim>\<open>shlr <REG_N>\<close>\<close>
    mk (pure_op i0100_nnnn_0001_0001) Mask_n 0x4011 Normal 1 1 MT 1, \<comment> \<open>\<^verbatim>\<open>cmp/pz <REG_N>\<close>\<close>
    mk (pure_op i0100_nnnn_0010_0001) Mask_n 0x4021 Normal 1 1 EX_unit 1, \<comment> \<open>\<^verbatim>\<open>shar <REG_N>\<close>\<close>
    mk (pure_op i0100_nnnn_0010_0100) Mask_n 0x4024 Normal 1 1 EX_unit 1, \<comment> \<open>\<^verbatim>\<open>rotcl <REG_N>\<close>\<close>
    mk (pure_op i0100_nnnn_0000_0100) Mask_n 0x4004 Normal 1 1 EX_unit 1, \<comment> \<open>\<^verbatim>\<open>rotl <REG_N>\<close>\<close>
    mk (pure_op i0100_nnnn_0001_0101) Mask_n 0x4015 Normal 1 1 MT 1, \<comment> \<open>\<^verbatim>\<open>cmp/pl <REG_N>\<close>\<close>
    mk (pure_op i0100_nnnn_0010_0101) Mask_n 0x4025 Normal 1 1 EX_unit 1, \<comment> \<open>\<^verbatim>\<open>rotcr <REG_N>\<close>\<close>
    mk (pure_op i0100_nnnn_0000_0101) Mask_n 0x4005 Normal 1 1 EX_unit 1, \<comment> \<open>\<^verbatim>\<open>rotr <REG_N>\<close>\<close>
    mk (pure_op i0100_nnnn_0000_1000) Mask_n 0x4008 Normal 1 1 EX_unit 1, \<comment> \<open>\<^verbatim>\<open>shll2 <REG_N>\<close>\<close>
    mk (pure_op i0100_nnnn_0001_1000) Mask_n 0x4018 Normal 1 1 EX_unit 1, \<comment> \<open>\<^verbatim>\<open>shll8 <REG_N>\<close>\<close>
    mk (pure_op i0100_nnnn_0010_1000) Mask_n 0x4028 Normal 1 1 EX_unit 1, \<comment> \<open>\<^verbatim>\<open>shll16 <REG_N>\<close>\<close>
    mk (pure_op i0100_nnnn_0000_1001) Mask_n 0x4009 Normal 1 1 EX_unit 1, \<comment> \<open>\<^verbatim>\<open>shlr2 <REG_N>\<close>\<close>
    mk (pure_op i0100_nnnn_0001_1001) Mask_n 0x4019 Normal 1 1 EX_unit 1, \<comment> \<open>\<^verbatim>\<open>shlr8 <REG_N>\<close>\<close>
    mk (pure_op i0100_nnnn_0010_1001) Mask_n 0x4029 Normal 1 1 EX_unit 1, \<comment> \<open>\<^verbatim>\<open>shlr16 <REG_N>\<close>\<close>
    mk i0100_nnnn_0010_1011 Mask_n 0x402B Branch_dir_d 2 3 CO 4, \<comment> \<open>\<^verbatim>\<open>jmp @<REG_N>\<close>\<close>
    mk i0100_nnnn_0000_1011 Mask_n 0x400B Branch_dir_d 2 3 CO 24, \<comment> \<open>\<^verbatim>\<open>jsr @<REG_N>\<close>\<close>
    mk i0100_nnnn_0001_1011 Mask_n 0x401B Normal 5 5 CO 7, \<comment> \<open>\<^verbatim>\<open>tas.b @<REG_N>\<close>\<close>
    mk (pure_op i0100_nnnn_mmmm_1100) Mask_n_m 0x400C Normal 1 1 EX_unit 1, \<comment> \<open>\<^verbatim>\<open>shad <REG_M>,<REG_N>\<close>\<close>
    mk (pure_op i0100_nnnn_mmmm_1101) Mask_n_m 0x400D Normal 1 1 EX_unit 1, \<comment> \<open>\<^verbatim>\<open>shld <REG_M>,<REG_N>\<close>\<close>
    mk i0100_nnnn_mmmm_1111 Mask_n_m 0x400F Normal 2 4 CO 35, \<comment> \<open>\<^verbatim>\<open>mac.w @<REG_M>+,@<REG_N>+\<close>\<close>
    mk (pure_op i0110_nnnn_mmmm_0111) Mask_n_m 0x6007 Normal 1 1 EX_unit 1, \<comment> \<open>\<^verbatim>\<open>not <REG_M>,<REG_N>\<close>\<close>
    mk (pure_op i0110_nnnn_mmmm_1000) Mask_n_m 0x6008 Normal 1 1 EX_unit 1, \<comment> \<open>\<^verbatim>\<open>swap.b <REG_M>,<REG_N>\<close>\<close>
    mk (pure_op i0110_nnnn_mmmm_1001) Mask_n_m 0x6009 Normal 1 1 EX_unit 1, \<comment> \<open>\<^verbatim>\<open>swap.w <REG_M>,<REG_N>\<close>\<close>
    mk (pure_op i0110_nnnn_mmmm_1010) Mask_n_m 0x600A Normal 1 1 EX_unit 1, \<comment> \<open>\<^verbatim>\<open>negc <REG_M>,<REG_N>\<close>\<close>
    mk (pure_op i0110_nnnn_mmmm_1011) Mask_n_m 0x600B Normal 1 1 EX_unit 1, \<comment> \<open>\<^verbatim>\<open>neg <REG_M>,<REG_N>\<close>\<close>
    mk (pure_op i0110_nnnn_mmmm_1100) Mask_n_m 0x600C Normal 1 1 EX_unit 1, \<comment> \<open>\<^verbatim>\<open>extu.b <REG_M>,<REG_N>\<close>\<close>
    mk (pure_op i0110_nnnn_mmmm_1101) Mask_n_m 0x600D Normal 1 1 EX_unit 1, \<comment> \<open>\<^verbatim>\<open>extu.w <REG_M>,<REG_N>\<close>\<close>
    mk (pure_op i0110_nnnn_mmmm_1110) Mask_n_m 0x600E Normal 1 1 EX_unit 1, \<comment> \<open>\<^verbatim>\<open>exts.b <REG_M>,<REG_N>\<close>\<close>
    mk (pure_op i0110_nnnn_mmmm_1111) Mask_n_m 0x600F Normal 1 1 EX_unit 1, \<comment> \<open>\<^verbatim>\<open>exts.w <REG_M>,<REG_N>\<close>\<close>
    mk (pure_op i0111_nnnn_iiii_iiii) Mask_n_imm8 0x7000 Normal 1 1 EX_unit 1, \<comment> \<open>\<^verbatim>\<open>add #<simm8>,<REG_N>\<close>\<close>
    mk (pure_op i1000_1011_iiii_iiii) Mask_imm8 0x8B00 Branch_rel 1 2 BR 1, \<comment> \<open>\<^verbatim>\<open>bf <bdisp8>\<close>\<close>
    mk i1000_1111_iiii_iiii Mask_imm8 0x8F00 Branch_rel_d 1 2 BR 1, \<comment> \<open>\<^verbatim>\<open>bf.s <bdisp8>\<close>\<close>
    mk (pure_op i1000_1001_iiii_iiii) Mask_imm8 0x8900 Branch_rel 1 2 BR 1, \<comment> \<open>\<^verbatim>\<open>bt <bdisp8>\<close>\<close>
    mk i1000_1101_iiii_iiii Mask_imm8 0x8D00 Branch_rel_d 1 2 BR 1, \<comment> \<open>\<^verbatim>\<open>bt.s <bdisp8>\<close>\<close>
    mk (pure_op i1000_1000_iiii_iiii) Mask_imm8 0x8800 Normal 1 1 MT 1, \<comment> \<open>\<^verbatim>\<open>cmp/eq #<simm8hex>,R0\<close>\<close>
    mk i1010_iiii_iiii_iiii Mask_n_imm8 0xA000 Branch_rel_d 1 2 BR 1, \<comment> \<open>\<^verbatim>\<open>bra <bdisp12>\<close>\<close>
    mk i1011_iiii_iiii_iiii Mask_n_imm8 0xB000 Branch_rel_d 1 2 BR 14, \<comment> \<open>\<^verbatim>\<open>bsr <bdisp12>\<close>\<close>
    mk i1100_0011_iiii_iiii Mask_imm8 0xC300 ReadWritePC 7 7 CO 13, \<comment> \<open>\<^verbatim>\<open>trapa #<imm8>\<close>\<close>
    mk (pure_op i1100_1000_iiii_iiii) Mask_imm8 0xC800 Normal 1 1 MT 1, \<comment> \<open>\<^verbatim>\<open>tst #<imm8>,R0\<close>\<close>
    mk (pure_op i1100_1001_iiii_iiii) Mask_imm8 0xC900 Normal 1 1 EX_unit 1, \<comment> \<open>\<^verbatim>\<open>and #<imm8>,R0\<close>\<close>
    mk (pure_op i1100_1010_iiii_iiii) Mask_imm8 0xCA00 Normal 1 1 EX_unit 1, \<comment> \<open>\<^verbatim>\<open>xor #<imm8>,R0\<close>\<close>
    mk (pure_op i1100_1011_iiii_iiii) Mask_imm8 0xCB00 Normal 1 1 EX_unit 1, \<comment> \<open>\<^verbatim>\<open>or #<imm8>,R0\<close>\<close>
    mk i1100_1100_iiii_iiii Mask_imm8 0xCC00 Normal 3 3 CO 5, \<comment> \<open>\<^verbatim>\<open>tst.b #<imm8>,@(R0,GBR)\<close>\<close>
    mk i1100_1101_iiii_iiii Mask_imm8 0xCD00 Normal 4 4 CO 6, \<comment> \<open>\<^verbatim>\<open>and.b #<imm8>,@(R0,GBR)\<close>\<close>
    mk i1100_1110_iiii_iiii Mask_imm8 0xCE00 Normal 4 4 CO 6, \<comment> \<open>\<^verbatim>\<open>xor.b #<imm8>,@(R0,GBR)\<close>\<close>
    mk i1100_1111_iiii_iiii Mask_imm8 0xCF00 Normal 4 4 CO 6, \<comment> \<open>\<^verbatim>\<open>or.b #<imm8>,@(R0,GBR)\<close>\<close>
    mk fpu_op Mask_n_m 0xF000 UsesFPU 1 4 FE 36, \<comment> \<open>\<^verbatim>\<open>fadd <FREG_M_SD_F>,<FREG_N>\<close>\<close>
    mk fpu_op Mask_n_m 0xF001 UsesFPU 1 4 FE 36, \<comment> \<open>\<^verbatim>\<open>fsub <FREG_M_SD_F>,<FREG_N>\<close>\<close>
    mk fpu_op Mask_n_m 0xF002 UsesFPU 1 4 FE 36, \<comment> \<open>\<^verbatim>\<open>fmul <FREG_M_SD_F>,<FREG_N>\<close>\<close>
    mk fpu_op Mask_n_m 0xF003 UsesFPU 1 13 FE 37, \<comment> \<open>\<^verbatim>\<open>fdiv <FREG_M_SD_F>,<FREG_N>\<close>\<close>
    mk fpu_op Mask_n_m 0xF004 UsesFPU 1 4 FE 36, \<comment> \<open>\<^verbatim>\<open>fcmp/eq <FREG_M>,<FREG_N>\<close>\<close>
    mk fpu_op Mask_n_m 0xF005 UsesFPU 1 4 FE 36, \<comment> \<open>\<^verbatim>\<open>fcmp/gt <FREG_M>,<FREG_N>\<close>\<close>
    mk fpu_op Mask_n_m 0xF006 UsesFPU 1 2 LS 2, \<comment> \<open>\<^verbatim>\<open>fmov.s @(R0,<REG_M>),<FREG_N>\<close>\<close>
    mk fpu_op Mask_n_m 0xF007 UsesFPU 1 1 LS 2, \<comment> \<open>\<^verbatim>\<open>fmov.s <FREG_M>,@(R0,<REG_N>)\<close>\<close>
    mk fpu_op Mask_n_m 0xF008 UsesFPU 1 2 LS 2, \<comment> \<open>\<^verbatim>\<open>fmov.s @<REG_M>,<FREG_N>\<close>\<close>
    mk fpu_op Mask_n_m 0xF009 UsesFPU 1 2 LS 2, \<comment> \<open>\<^verbatim>\<open>fmov.s @<REG_M>+,<FREG_N>\<close>\<close>
    mk fpu_op Mask_n_m 0xF00A UsesFPU 1 1 LS 2, \<comment> \<open>\<^verbatim>\<open>fmov.s <FREG_M>,@<REG_N>\<close>\<close>
    mk fpu_op Mask_n_m 0xF00B UsesFPU 1 1 LS 2, \<comment> \<open>\<^verbatim>\<open>fmov.s <FREG_M>,@-<REG_N>\<close>\<close>
    mk fpu_op Mask_n_m 0xF00C UsesFPU 1 0 LS 1, \<comment> \<open>\<^verbatim>\<open>fmov <FREG_M>,<FREG_N>\<close>\<close>
    mk fpu_op Mask_n 0xF05D UsesFPU 1 0 LS 1, \<comment> \<open>\<^verbatim>\<open>fabs <FREG_N>\<close>\<close>
    mk fpu_op Mask_nh3bit 0xF0FD UsesFPU 1 3 FE 44, \<comment> \<open>\<^verbatim>\<open>FSCA FPUL, <DR_N>\<close>\<close>
    mk fpu_op Mask_n 0xF0BD UsesFPU 1 4 FE 38, \<comment> \<open>\<^verbatim>\<open>fcnvds <DR_N>,FPUL\<close>\<close>
    mk fpu_op Mask_n 0xF0AD UsesFPU 1 4 FE 38, \<comment> \<open>\<^verbatim>\<open>fcnvsd FPUL,<DR_N>\<close>\<close>
    mk fpu_op Mask_n 0xF0ED UsesFPU 1 5 FE 42, \<comment> \<open>\<^verbatim>\<open>fipr <FV_M>,<FV_N>\<close>\<close>
    mk fpu_op Mask_n 0xF08D UsesFPU 1 0 LS 1, \<comment> \<open>\<^verbatim>\<open>fldi0 <FREG_N>\<close>\<close>
    mk fpu_op Mask_n 0xF09D UsesFPU 1 0 LS 1, \<comment> \<open>\<^verbatim>\<open>fldi1 <FREG_N>\<close>\<close>
    mk fpu_op Mask_n 0xF01D UsesFPU 1 0 LS 1, \<comment> \<open>\<^verbatim>\<open>flds <FREG_N>,FPUL\<close>\<close>
    mk fpu_op Mask_n 0xF02D UsesFPU 1 4 FE 36, \<comment> \<open>\<^verbatim>\<open>float FPUL,<FREG_N>\<close>\<close>
    mk fpu_op Mask_n 0xF04D UsesFPU 1 0 LS 1, \<comment> \<open>\<^verbatim>\<open>fneg <FREG_N>\<close>\<close>
    mk fpu_op Mask_none 0xFBFD FWritesFPSCR 1 4 FE 36, \<comment> \<open>\<^verbatim>\<open>frchg\<close>\<close>
    mk fpu_op Mask_none 0xF3FD FWritesFPSCR 1 4 FE 36, \<comment> \<open>\<^verbatim>\<open>fschg\<close>\<close>
    mk fpu_op Mask_n 0xF06D UsesFPU 1 23 FE 41, \<comment> \<open>\<^verbatim>\<open>fsqrt <FREG_N>\<close>\<close>
    mk fpu_op Mask_n 0xF03D UsesFPU 1 4 FE 38, \<comment> \<open>\<^verbatim>\<open>ftrc <FREG_N>, FPUL\<close>\<close>
    mk fpu_op Mask_n 0xF00D UsesFPU 1 0 LS 1, \<comment> \<open>\<^verbatim>\<open>fsts FPUL,<FREG_N>\<close>\<close>
    mk fpu_op Mask_nh2bit 0xF1FD UsesFPU 1 8 FE 43, \<comment> \<open>\<^verbatim>\<open>ftrv xmtrx,<FV_N>\<close>\<close>
    mk fpu_op Mask_n_m 0xF00E UsesFPU 1 4 FE 36, \<comment> \<open>\<^verbatim>\<open>fmac <FREG_0>,<FREG_M>,<FREG_N>\<close>\<close>
    mk fpu_op Mask_n 0xF07D UsesFPU 1 4 FE 36] \<comment> \<open>\<^verbatim>\<open>FSRRA <FREG_N>\<close>\<close>"

definition opcodes :: "'d sh4_opcodelistentry list" where
  "opcodes = opcodes_1 @ opcodes_2"

lemmas opcodes_defs = opcodes_def opcodes_1_def opcodes_2_def

section \<open>The tables\<close>

type_synonym 'd op_tables = "(u16 \<Rightarrow> 'd env \<Rightarrow> u32 \<Rightarrow> ('d, unit) SM) \<times> (u16 \<Rightarrow> 'd sh4_opcodelistentry)"

text \<open>The number of opcodes of a mask and the position of the free bits; \<open>None\<close> is \<open>die\<close>.\<close>

definition mask_class :: "u32 \<Rightarrow> (nat \<times> nat) option" where
  "mask_class ma =
    (if ma = Mask_none then Some (1, 0)
     else if ma = Mask_n then Some (16, 8)
     else if ma = Mask_n_m then Some (256, 4)
     else if ma = Mask_n_m_imm4 then Some (256 * 16, 0)
     else if ma = Mask_imm8 then Some (256, 0)
     else if ma = Mask_n_ml3bit then Some (256, 4)
     else if ma = Mask_nh3bit then Some (8, 9)
     else if ma = Mask_nh2bit then Some (4, 10)
     else None)"

definition op_index :: "u32 \<Rightarrow> u32 \<Rightarrow> nat \<Rightarrow> nat \<Rightarrow> u32" where
  "op_index ma re shft i = (push_bit shft (of_nat i) AND NOT ma) + re"

definition fill_opcode :: "'d sh4_opcodelistentry \<Rightarrow> 'd op_tables \<Rightarrow> 'd op_tables option" where
  "fill_opcode e tabs = (case mask_class (op_mask e) of
     None \<Rightarrow> None
   | Some (count, shft) \<Rightarrow> Some (fold (\<lambda>i (ptr, desc).
       let idx = ucast (op_index (op_mask e) (op_rez e) shft i)
       in (ptr(idx := oph e), desc(idx := e))) [0..<count] tabs))"

fun fill_opcodes :: "'d sh4_opcodelistentry list \<Rightarrow> 'd op_tables \<Rightarrow> 'd op_tables option" where
  "fill_opcodes [] tabs = Some tabs"
| "fill_opcodes (e # es) tabs = (case fill_opcode e tabs of None \<Rightarrow> None | Some t \<Rightarrow> fill_opcodes es t)"

definition BuildOpcodeTables :: "'d op_tables option" where
  "BuildOpcodeTables = fill_opcodes opcodes (\<lambda>_. iNotImplemented, \<lambda>_. missing_opcode)"

definition OpPtr :: "u16 \<Rightarrow> 'd env \<Rightarrow> u32 \<Rightarrow> ('d, unit) SM" where
  "OpPtr = (case BuildOpcodeTables of Some (ptr, desc) \<Rightarrow> ptr | None \<Rightarrow> (\<lambda>_. iNotImplemented))"

definition OpDesc :: "u16 \<Rightarrow> 'd sh4_opcodelistentry" where
  "OpDesc = (case BuildOpcodeTables of Some (ptr, desc) \<Rightarrow> desc | None \<Rightarrow> (\<lambda>_. missing_opcode))"

section \<open>The expansion decodes\<close>

definition op_matches :: "u16 \<Rightarrow> 'd sh4_opcodelistentry \<Rightarrow> bool" where
  "op_matches op e \<longleftrightarrow> ucast op AND op_mask e = op_rez e"

definition decode :: "u16 \<Rightarrow> 'd sh4_opcodelistentry" where
  "decode op = (case find (op_matches op) opcodes of Some e \<Rightarrow> e | None \<Rightarrow> missing_opcode)"

definition entry_ok :: "'d sh4_opcodelistentry \<Rightarrow> bool" where
  "entry_ok e \<longleftrightarrow> op_rez e AND op_mask e = op_rez e \<and> mask_class (op_mask e) \<noteq> None \<and>
     op_mask e AND 0xF000 = 0xF000 \<and> drop_bit 16 (op_rez e) = 0 \<and>
     0 < IssueCycles e \<and> IssueCycles e \<le> 100 \<and> ex_type e < 45"

lemma opcodes_ok: "list_all entry_ok opcodes"
  by (simp add: opcodes_defs op_masks mask_class_def REIOS_OPCODE_def entry_ok_def)

text \<open>
  No two descriptions match the same opcode. A description is compared by the upper digit of
  its opcodes, its mask and its value.
\<close>

type_synonym op_key = "u32 \<times> u32 \<times> u32"

definition op_key :: "'d sh4_opcodelistentry \<Rightarrow> op_key" where
  "op_key e = (drop_bit 12 (op_rez e), op_mask e, op_rez e)"

fun keys_apart :: "op_key \<Rightarrow> op_key \<Rightarrow> bool" where
  "keys_apart (d, ma, re) (d', ma', re') =
     (if d = d' then (re XOR re') AND (ma AND ma') \<noteq> 0 else True)"

fun keys_disjoint :: "op_key list \<Rightarrow> bool" where
  "keys_disjoint [] = True"
| "keys_disjoint (k # ks) = (list_all (keys_apart k) ks \<and> keys_disjoint ks)"

definition op_keys_a :: "op_key list" where
  "op_keys_a = [
   (0x0, 0xFFFF, 0x85B), (0x0, 0xF0FF, 0x23), (0x0, 0xF0FF, 0x3), (0x0, 0xF0FF, 0xC3), (0x0,
   0xF0FF, 0x93), (0x0, 0xF0FF, 0xA3), (0x0, 0xF0FF, 0xB3), (0x0, 0xF0FF, 0x83), (0x0, 0xF00F,
   0x7), (0x0, 0xFFFF, 0x28), (0x0, 0xFFFF, 0x48), (0x0, 0xFFFF, 0x8), (0x0, 0xFFFF, 0x38),
   (0x0, 0xFFFF, 0x58), (0x0, 0xFFFF, 0x18), (0x0, 0xFFFF, 0x19), (0x0, 0xF0FF, 0x29), (0x0,
   0xFFFF, 0x9), (0x0, 0xFFFF, 0x0), (0x0, 0xFFFF, 0x2B), (0x0, 0xFFFF, 0xB), (0x0, 0xFFFF,
   0x1B), (0x0, 0xF00F, 0xF), (0x2, 0xF00F, 0x2007), (0x2, 0xF00F, 0x2008), (0x2, 0xF00F,
   0x2009), (0x2, 0xF00F, 0x200A), (0x2, 0xF00F, 0x200B), (0x2, 0xF00F, 0x200C), (0x2, 0xF00F,
   0x200D), (0x2, 0xF00F, 0x200E), (0x2, 0xF00F, 0x200F), (0x3, 0xF00F, 0x3000), (0x3, 0xF00F,
   0x3002), (0x3, 0xF00F, 0x3003), (0x3, 0xF00F, 0x3004), (0x3, 0xF00F, 0x3005), (0x3, 0xF00F,
   0x3006), (0x3, 0xF00F, 0x3007), (0x3, 0xF00F, 0x3008), (0x3, 0xF00F, 0x300A), (0x3, 0xF00F,
   0x300B), (0x3, 0xF00F, 0x300C), (0x3, 0xF00F, 0x300D), (0x3, 0xF00F, 0x300E), (0x3, 0xF00F,
   0x300F), (0x0, 0xF00F, 0x4), (0x0, 0xF00F, 0x5), (0x0, 0xF00F, 0x6), (0x0, 0xF00F, 0xC),
   (0x0, 0xF00F, 0xD), (0x0, 0xF00F, 0xE), (0x1, 0xF000, 0x1000), (0x5, 0xF000, 0x5000), (0x2,
   0xF00F, 0x2000), (0x2, 0xF00F, 0x2001), (0x2, 0xF00F, 0x2002), (0x6, 0xF00F, 0x6000), (0x6,
   0xF00F, 0x6001), (0x6, 0xF00F, 0x6002), (0x2, 0xF00F, 0x2004), (0x2, 0xF00F, 0x2005), (0x2,
   0xF00F, 0x2006), (0x6, 0xF00F, 0x6004), (0x6, 0xF00F, 0x6005), (0x6, 0xF00F, 0x6006), (0x8,
   0xFF00, 0x8000), (0x8, 0xFF00, 0x8100), (0x8, 0xFF00, 0x8400), (0x8, 0xFF00, 0x8500), (0x9,
   0xF000, 0x9000), (0xC, 0xFF00, 0xC000), (0xC, 0xFF00, 0xC100), (0xC, 0xFF00, 0xC200), (0xC,
   0xFF00, 0xC400), (0xC, 0xFF00, 0xC500), (0xC, 0xFF00, 0xC600), (0xD, 0xF000, 0xD000), (0x6,
   0xF00F, 0x6003), (0xC, 0xFF00, 0xC700), (0xE, 0xF000, 0xE000), (0x4, 0xF0FF, 0x4052), (0x4,
   0xF0FF, 0x4062), (0x4, 0xF0FF, 0x4002), (0x4, 0xF0FF, 0x4012), (0x4, 0xF0FF, 0x4022), (0x4,
   0xF0FF, 0x40F2), (0x4, 0xF0FF, 0x4032), (0x4, 0xF0FF, 0x4003), (0x4, 0xF0FF, 0x4013), (0x4,
   0xF0FF, 0x4023), (0x4, 0xF0FF, 0x4033), (0x4, 0xF0FF, 0x4043), (0x4, 0xF08F, 0x4083), (0x4,
   0xF0FF, 0x4006), (0x4, 0xF0FF, 0x4016), (0x4, 0xF0FF, 0x4026), (0x4, 0xF0FF, 0x4036), (0x4,
   0xF0FF, 0x4056), (0x4, 0xF0FF, 0x4066), (0x4, 0xF0FF, 0x40F6), (0x4, 0xF0FF, 0x4007), (0x4,
   0xF0FF, 0x4017), (0x4, 0xF0FF, 0x4027), (0x4, 0xF0FF, 0x4037), (0x4, 0xF0FF, 0x4047)]"

definition op_keys_b :: "op_key list" where
  "op_keys_b = [
   (0x4, 0xF08F, 0x4087), (0x0, 0xF0FF, 0x2), (0x0, 0xF0FF, 0x12), (0x0, 0xF0FF, 0x22), (0x0,
   0xF0FF, 0x32), (0x0, 0xF0FF, 0x42), (0x0, 0xF08F, 0x82), (0x0, 0xF0FF, 0xA), (0x0, 0xF0FF,
   0x1A), (0x0, 0xF0FF, 0x2A), (0x0, 0xF0FF, 0x3A), (0x0, 0xF0FF, 0x5A), (0x0, 0xF0FF, 0x6A),
   (0x0, 0xF0FF, 0xFA), (0x4, 0xF0FF, 0x400A), (0x4, 0xF0FF, 0x401A), (0x4, 0xF0FF, 0x402A),
   (0x4, 0xF0FF, 0x403A), (0x4, 0xF0FF, 0x405A), (0x4, 0xF0FF, 0x406A), (0x4, 0xF0FF, 0x40FA),
   (0x4, 0xF0FF, 0x400E), (0x4, 0xF0FF, 0x401E), (0x4, 0xF0FF, 0x402E), (0x4, 0xF0FF, 0x403E),
   (0x4, 0xF0FF, 0x404E), (0x4, 0xF08F, 0x408E), (0x4, 0xF0FF, 0x4000), (0x4, 0xF0FF, 0x4010),
   (0x4, 0xF0FF, 0x4020), (0x4, 0xF0FF, 0x4001), (0x4, 0xF0FF, 0x4011), (0x4, 0xF0FF, 0x4021),
   (0x4, 0xF0FF, 0x4024), (0x4, 0xF0FF, 0x4004), (0x4, 0xF0FF, 0x4015), (0x4, 0xF0FF, 0x4025),
   (0x4, 0xF0FF, 0x4005), (0x4, 0xF0FF, 0x4008), (0x4, 0xF0FF, 0x4018), (0x4, 0xF0FF, 0x4028),
   (0x4, 0xF0FF, 0x4009), (0x4, 0xF0FF, 0x4019), (0x4, 0xF0FF, 0x4029), (0x4, 0xF0FF, 0x402B),
   (0x4, 0xF0FF, 0x400B), (0x4, 0xF0FF, 0x401B), (0x4, 0xF00F, 0x400C), (0x4, 0xF00F, 0x400D),
   (0x4, 0xF00F, 0x400F), (0x6, 0xF00F, 0x6007), (0x6, 0xF00F, 0x6008), (0x6, 0xF00F, 0x6009),
   (0x6, 0xF00F, 0x600A), (0x6, 0xF00F, 0x600B), (0x6, 0xF00F, 0x600C), (0x6, 0xF00F, 0x600D),
   (0x6, 0xF00F, 0x600E), (0x6, 0xF00F, 0x600F), (0x7, 0xF000, 0x7000), (0x8, 0xFF00, 0x8B00),
   (0x8, 0xFF00, 0x8F00), (0x8, 0xFF00, 0x8900), (0x8, 0xFF00, 0x8D00), (0x8, 0xFF00, 0x8800),
   (0xA, 0xF000, 0xA000), (0xB, 0xF000, 0xB000), (0xC, 0xFF00, 0xC300), (0xC, 0xFF00, 0xC800),
   (0xC, 0xFF00, 0xC900), (0xC, 0xFF00, 0xCA00), (0xC, 0xFF00, 0xCB00), (0xC, 0xFF00, 0xCC00),
   (0xC, 0xFF00, 0xCD00), (0xC, 0xFF00, 0xCE00), (0xC, 0xFF00, 0xCF00), (0xF, 0xF00F, 0xF000),
   (0xF, 0xF00F, 0xF001), (0xF, 0xF00F, 0xF002), (0xF, 0xF00F, 0xF003), (0xF, 0xF00F, 0xF004),
   (0xF, 0xF00F, 0xF005), (0xF, 0xF00F, 0xF006), (0xF, 0xF00F, 0xF007), (0xF, 0xF00F, 0xF008),
   (0xF, 0xF00F, 0xF009), (0xF, 0xF00F, 0xF00A), (0xF, 0xF00F, 0xF00B), (0xF, 0xF00F, 0xF00C),
   (0xF, 0xF0FF, 0xF05D), (0xF, 0xF1FF, 0xF0FD), (0xF, 0xF0FF, 0xF0BD), (0xF, 0xF0FF, 0xF0AD),
   (0xF, 0xF0FF, 0xF0ED), (0xF, 0xF0FF, 0xF08D), (0xF, 0xF0FF, 0xF09D), (0xF, 0xF0FF, 0xF01D),
   (0xF, 0xF0FF, 0xF02D), (0xF, 0xF0FF, 0xF04D), (0xF, 0xFFFF, 0xFBFD), (0xF, 0xFFFF, 0xF3FD),
   (0xF, 0xF0FF, 0xF06D), (0xF, 0xF0FF, 0xF03D), (0xF, 0xF0FF, 0xF00D), (0xF, 0xF3FF, 0xF1FD),
   (0xF, 0xF00F, 0xF00E), (0xF, 0xF0FF, 0xF07D)]"

lemma op_keys: "map op_key opcodes = op_keys_a @ op_keys_b"
  by (simp add: opcodes_defs op_key_def op_masks REIOS_OPCODE_def op_keys_a_def op_keys_b_def)

lemma keys_disjoint_append: "keys_disjoint (ks @ ks') \<longleftrightarrow>
   keys_disjoint ks \<and> keys_disjoint ks' \<and> list_all (\<lambda>k. list_all (keys_apart k) ks') ks"
  by (induction ks) auto

lemma op_keys_a_disjoint: "keys_disjoint op_keys_a"
  by (simp add: op_keys_a_def)

lemma op_keys_b_disjoint: "keys_disjoint op_keys_b"
  by (simp add: op_keys_b_def)

lemma op_keys_apart: "list_all (\<lambda>k. list_all (keys_apart k) op_keys_b) op_keys_a"
  by (simp add: op_keys_a_def op_keys_b_def)

lemma opcodes_disjoint: "keys_disjoint (map op_key opcodes)"
  by (simp add: op_keys keys_disjoint_append op_keys_a_disjoint op_keys_b_disjoint op_keys_apart)

lemma matches_digit:
  assumes "op_matches op e" "entry_ok e"
  shows "drop_bit 12 (op_rez e) = drop_bit 12 (ucast op)"
proof (rule bit_word_eqI)
  fix n assume "n < LENGTH(32)"
  have m: "bit (op_mask e) (12 + n)" if "n < 4"
  proof -
    have "bit (op_mask e AND 0xF000) (12 + n) = bit (0xF000 :: u32) (12 + n)"
      using assms(2) by (simp add: entry_ok_def)
    moreover have "bit (0xF000 :: u32) (12 + n)"
      using that by (auto simp: less_Suc_eq numeral_eq_Suc)
    ultimately show ?thesis by (simp add: bit_and_iff)
  qed
  have "op_rez e = ucast op AND op_mask e" using assms(1) by (simp add: op_matches_def)
  then show "bit (drop_bit 12 (op_rez e)) n = bit (drop_bit 12 (ucast op :: u32)) n"
    using m by (cases "n < 4") (auto simp: bit_simps dest: bit_imp_le_length)
qed

lemma keys_apart_no_match:
  assumes "keys_apart (op_key e) (op_key e')" "op_matches op e" "entry_ok e" "entry_ok e'"
  shows "\<not> op_matches op e'"
proof
  assume e': "op_matches op e'"
  with assms(2) have r: "op_rez e = ucast op AND op_mask e" "op_rez e' = ucast op AND op_mask e'"
    by (simp_all add: op_matches_def)
  have "(x AND ma XOR x AND ma') AND (ma AND ma') = 0" for x ma ma' :: u32
    by (rule bit_word_eqI) (auto simp: bit_simps)
  then have z: "(op_rez e XOR op_rez e') AND (op_mask e AND op_mask e') = 0" by (simp only: r)
  have "drop_bit 12 (op_rez e) = drop_bit 12 (op_rez e')"
    by (simp only: matches_digit [OF assms(2,3)] matches_digit [OF e' assms(4)])
  with assms(1) z show False by (simp add: op_key_def)
qed

lemma matches_unique:
  assumes "keys_disjoint (map op_key es)" "list_all entry_ok es"
  shows "length (filter (op_matches op) es) \<le> 1"
  using assms
proof (induction es)
  case (Cons e es)
  show ?case
  proof (cases "op_matches op e")
    case True
    have "filter (op_matches op) es = []"
      using Cons.prems keys_apart_no_match [OF _ True]
      by (auto simp: list_all_iff filter_empty_conv)
    then show ?thesis by simp
  qed (use Cons in simp)
qed simp

text \<open>The opcodes of a mask are those the loop enumerates.\<close>

definition class_covers :: "u32 \<Rightarrow> nat \<Rightarrow> nat \<Rightarrow> bool" where
  "class_covers ma k shft \<longleftrightarrow> list_all (\<lambda>j. bit ma j \<or> (shft \<le> j \<and> j < shft + k)) [0..<16] \<and> shft + k \<le> 16"

lemma mask_class_covers:
  assumes "mask_class ma = Some (count, shft)"
  shows "\<exists>k. count = 2 ^ k \<and> class_covers ma k shft"
proof -
  have u: "[0..<16] = [0,1,2,3,4,5,6,7,8,9,10,11,12,13,14,15 :: nat]" by (simp add: upt_rec)
  have c: "class_covers Mask_none 0 0" "class_covers Mask_n 4 8" "class_covers Mask_n_m 8 4"
    "class_covers Mask_n_m_imm4 12 0" "class_covers Mask_imm8 8 0" "class_covers Mask_n_ml3bit 8 4"
    "class_covers Mask_nh3bit 3 9" "class_covers Mask_nh2bit 2 10"
    by (simp_all add: class_covers_def op_masks u)
  have "(ma = Mask_none \<and> count = 2 ^ 0 \<and> shft = 0) \<or> (ma = Mask_n \<and> count = 2 ^ 4 \<and> shft = 8) \<or>
    (ma = Mask_n_m \<and> count = 2 ^ 8 \<and> shft = 4) \<or> (ma = Mask_n_m_imm4 \<and> count = 2 ^ 12 \<and> shft = 0) \<or>
    (ma = Mask_imm8 \<and> count = 2 ^ 8 \<and> shft = 0) \<or> (ma = Mask_n_ml3bit \<and> count = 2 ^ 8 \<and> shft = 4) \<or>
    (ma = Mask_nh3bit \<and> count = 2 ^ 3 \<and> shft = 9) \<or> (ma = Mask_nh2bit \<and> count = 2 ^ 2 \<and> shft = 10)"
    using assms by (simp add: mask_class_def split: if_split_asm)
  then show ?thesis using c by (elim disjE conjE) (simp only:, blast)+
qed


lemma entry_bits:
  assumes "entry_ok e"
  shows "bit (op_rez e) n \<Longrightarrow> bit (op_mask e) n" "bit (op_rez e) n \<Longrightarrow> n < 16"
proof -
  assume b: "bit (op_rez e) n"
  have "op_rez e AND op_mask e = op_rez e" "drop_bit 16 (op_rez e) = 0"
    using assms by (simp_all add: entry_ok_def)
  from arg_cong [OF this(1), of "\<lambda>x. bit x n"] arg_cong [OF this(2), of "\<lambda>x. bit x (n - 16)"] b
  show "bit (op_mask e) n" "n < 16" by (cases "16 \<le> n"; simp add: bit_and_iff bit_drop_bit_eq)+
qed

lemma op_index_bits:
  assumes "entry_ok e"
  shows "bit (op_index (op_mask e) (op_rez e) shft i) n \<longleftrightarrow>
    (shft \<le> n \<and> n < 32 \<and> bit i (n - shft) \<and> \<not> bit (op_mask e) n) \<or> bit (op_rez e) n"
proof -
  have "(push_bit shft (of_nat i) AND NOT (op_mask e)) AND op_rez e = 0"
    by (rule bit_word_eqI) (auto simp: bit_simps dest: entry_bits [OF assms])
  then have "op_index (op_mask e) (op_rez e) shft i =
      (push_bit shft (of_nat i) AND NOT (op_mask e)) OR op_rez e"
    using word_plus_and_or [of "push_bit shft (of_nat i) AND NOT (op_mask e)" "op_rez e"]
    by (simp add: op_index_def)
  then show ?thesis
    by (auto simp: bit_simps dest: bit_imp_le_length)
qed

lemma op_index_image:
  assumes e: "entry_ok e" and c: "mask_class (op_mask e) = Some (count, shft)"
  shows "(\<lambda>i. ucast (op_index (op_mask e) (op_rez e) shft i)) ` {0..<count} = {op :: u16. op_matches op e}"
proof (intro equalityI subsetI)
  fix op :: u16 assume "op \<in> (\<lambda>i. ucast (op_index (op_mask e) (op_rez e) shft i)) ` {0..<count}"
  then obtain i where op: "op = ucast (op_index (op_mask e) (op_rez e) shft i)" by blast
  have "ucast op AND op_mask e = op_rez e"
    unfolding op
    by (rule bit_word_eqI) (auto simp: bit_simps op_index_bits [OF e] dest: entry_bits [OF e])
  then show "op \<in> {op. op_matches op e}" by (simp add: op_matches_def)
next
  fix op :: u16 assume "op \<in> {op. op_matches op e}"
  then have r: "op_rez e = ucast op AND op_mask e" by (simp add: op_matches_def)
  obtain k where k: "count = 2 ^ k" "class_covers (op_mask e) k shft"
    using mask_class_covers [OF c] by blast
  define i where "i = take_bit k (drop_bit shft (unat op))"
  have "i < count" unfolding i_def k(1) by simp
  moreover have "op = ucast (op_index (op_mask e) (op_rez e) shft i)"
  proof (rule bit_word_eqI)
    fix n assume n: "n < LENGTH(16)"
    then have "bit (op_mask e) n \<or> shft \<le> n \<and> n < shft + k"
      using k(2) by (simp add: class_covers_def list_all_iff)
    moreover have "bit (op_rez e) n \<longleftrightarrow> bit op n \<and> bit (op_mask e) n"
      using n unfolding r by (auto simp: bit_simps)
    ultimately show "bit op n = bit (ucast (op_index (op_mask e) (op_rez e) shft i) :: u16) n"
      using n by (auto simp: bit_ucast_iff op_index_bits [OF e] i_def bit_simps)
  qed
  ultimately show "op \<in> (\<lambda>i. ucast (op_index (op_mask e) (op_rez e) shft i)) ` {0..<count}" by auto
qed

text \<open>The index of every entry lies in the tables, so that the truncation loses nothing.\<close>

lemma op_index_bound:
  assumes e: "entry_ok e" and c: "mask_class (op_mask e) = Some (count, shft)" and i: "i < count"
  shows "op_index (op_mask e) (op_rez e) shft i < 0x10000"
proof -
  obtain k where k: "count = 2 ^ k" "class_covers (op_mask e) k shft"
    using mask_class_covers [OF c] by blast
  have "take_bit k i = i" using i k(1) by (simp add: take_bit_nat_eq_self)
  then have small: "bit i j \<Longrightarrow> j < k" for j by (metis bit_take_bit_iff)
  have "n < 16" if "bit (op_index (op_mask e) (op_rez e) shft i) n" for n
    using that unfolding op_index_bits [OF e]
  proof
    assume "shft \<le> n \<and> n < 32 \<and> bit i (n - shft) \<and> \<not> bit (op_mask e) n"
    then have "n - shft < k" "shft \<le> n" using small by blast+
    moreover have "shft + k \<le> 16" using k(2) by (simp add: class_covers_def)
    ultimately show "n < 16" by linarith
  qed (rule entry_bits(2) [OF e])
  then have "take_bit 16 (op_index (op_mask e) (op_rez e) shft i) = op_index (op_mask e) (op_rez e) shft i"
    by (intro bit_word_eqI) (auto simp: bit_take_bit_iff)
  then show ?thesis
    using and_mask_less' [of 16 "op_index (op_mask e) (op_rez e) shft i"] by (simp add: take_bit_eq_mask)
qed

lemma fold_tables:
  "fold (\<lambda>i (ptr, desc). (ptr(f i := x), desc(f i := y))) is (p, d) =
    ((\<lambda>op. if op \<in> f ` set is then x else p op), (\<lambda>op. if op \<in> f ` set is then y else d op))"
  by (induction "is" arbitrary: p d) (auto simp: fun_eq_iff)

lemma fill_opcode_eq:
  assumes "entry_ok e"
  shows "fill_opcode e (p, d) = Some ((\<lambda>op. if op_matches op e then oph e else p op),
    (\<lambda>op. if op_matches op e then e else d op))"
proof -
  obtain count shft where c: "mask_class (op_mask e) = Some (count, shft)"
    using assms by (auto simp: entry_ok_def)
  show ?thesis
    using op_index_image [OF assms c]
    by (simp add: fill_opcode_def c Let_def fold_tables)
qed

lemma fill_opcodes_eq:
  "list_all entry_ok es \<Longrightarrow> fill_opcodes es (p, d) = Some
    ((\<lambda>op. fold (\<lambda>e h. if op_matches op e then oph e else h) es (p op)),
     (\<lambda>op. fold (\<lambda>e h. if op_matches op e then e else h) es (d op)))"
  by (induction es arbitrary: p d) (auto simp: fill_opcode_eq)

lemma fold_last_match:
  assumes "length (filter P es) \<le> 1"
  shows "fold (\<lambda>e h. if P e then g e else h) es h = (case find P es of Some e \<Rightarrow> g e | None \<Rightarrow> h)"
  using assms
proof (induction es arbitrary: h)
  case (Cons e es)
  show ?case
  proof (cases "P e")
    case True
    then have "filter P es = []" using Cons.prems by simp
    then have "find P es = None" by (simp add: find_None_iff filter_empty_conv)
    moreover have "fold (\<lambda>e h. if P e then g e else h) es (g e) = g e"
      using \<open>filter P es = []\<close> by (induction es) (auto split: if_splits)
    ultimately show ?thesis using True by simp
  qed (use Cons in simp)
qed simp

lemma opcode_unique: "length (filter (op_matches op) opcodes) \<le> 1"
  by (rule matches_unique [OF opcodes_disjoint opcodes_ok])

lemma OpTables_eq:
  "(BuildOpcodeTables :: 'd op_tables option) = Some (OpPtr, OpDesc)"
  "OpPtr op = oph (OpDesc op :: 'd sh4_opcodelistentry)"
  "OpDesc op = (case filter (op_matches op) opcodes of [e] \<Rightarrow> e | _ \<Rightarrow> (missing_opcode :: 'd sh4_opcodelistentry))"
proof -
  define p where "p op = fold (\<lambda>e h. if op_matches op e then oph e else h) opcodes
    (iNotImplemented :: 'd env \<Rightarrow> u32 \<Rightarrow> ('d, unit) SM)" for op
  define d where "d op = fold (\<lambda>e h. if op_matches op e then e else h) opcodes
    (missing_opcode :: 'd sh4_opcodelistentry)" for op
  have b: "(BuildOpcodeTables :: 'd op_tables option) = Some (p, d)"
    by (simp add: BuildOpcodeTables_def fill_opcodes_eq opcodes_ok p_def [abs_def] d_def [abs_def])
  have t: "OpPtr = p" "OpDesc = d" unfolding OpPtr_def OpDesc_def by (simp_all only: b option.case prod.case)
  have "filter P es = (case find P es of Some e \<Rightarrow> [e] | None \<Rightarrow> [])"
    if "length (filter P es) \<le> 1" for P and es :: "'b list"
    using that by (induction es) (auto split: option.splits if_splits simp: find_None_iff filter_empty_conv)
  note f = this [OF opcode_unique [of op]] fold_last_match [OF opcode_unique [of op]]
  show "(BuildOpcodeTables :: 'd op_tables option) = Some (OpPtr, OpDesc)" using b by (simp only: t)
  show "OpPtr op = oph (OpDesc op :: 'd sh4_opcodelistentry)"
    "OpDesc op = (case filter (op_matches op) opcodes of [e] \<Rightarrow> e | _ \<Rightarrow> (missing_opcode :: 'd sh4_opcodelistentry))"
    unfolding t by (simp_all add: f p_def d_def missing_opcode_def split: option.splits)
qed


lemma OpDesc_cases:
  "OpDesc op = (missing_opcode :: 'd sh4_opcodelistentry) \<or>
   (OpDesc op :: 'd sh4_opcodelistentry) \<in> set (filter (op_matches op) opcodes)"
proof (cases "filter (op_matches op) (opcodes :: 'd sh4_opcodelistentry list)")
  case (Cons e es)
  then show ?thesis unfolding OpTables_eq(3) Cons by (cases es) simp_all
qed (simp add: OpTables_eq(3))

lemma OpDesc_match:
  assumes "filter (op_matches op) opcodes = [e :: 'd sh4_opcodelistentry]"
  shows "OpDesc op = e" "OpPtr op = oph e"
  by (simp_all add: OpTables_eq(2,3) assms)

text \<open>C19: Building the tables never meets an unknown mask; the two tables hold the one description
  whose mask and value an opcode matches, and the handler of unimplemented instructions for
  every other opcode.\<close>
theorem BuildOpcodeTables_decode:
  "(BuildOpcodeTables :: 'd op_tables option) = Some (OpPtr, OpDesc) \<and>
   length (filter (op_matches op) (opcodes :: 'd sh4_opcodelistentry list)) \<le> 1 \<and>
   OpDesc op = (case filter (op_matches op) opcodes of [e] \<Rightarrow> e | _ \<Rightarrow> (missing_opcode :: 'd sh4_opcodelistentry)) \<and>
   OpPtr op = oph (OpDesc op :: 'd sh4_opcodelistentry)"
  by (intro conjI OpTables_eq opcode_unique)

end
