(* ===== verification/Sh4_Cycles.thy ===== *)
theory Sh4_Cycles
  imports Sh4_Opcode_List
begin

text \<open>
  The cycle counter, \<^verbatim>\<open>hw/sh4/sh4_cycles.h\<close> and \<^verbatim>\<open>sh4_cycles.cpp\<close>: the cost of an instruction
  from the issue group of its predecessor, and the cost of an access to external memory. An
  \<open>int\<close> of the source is a word read with \<^const>\<open>sint\<close>. The log messages on invalid sizes are
  left out.
\<close>

section \<open>The cost of an instruction\<close>

definition isMemOp :: "bool list" where
  "isMemOp = [False, False, True, True, False, True, True, True, False, False, False, False,
     True, False, False, False, False, True, True, True, False, False, True, True, False, True,
     False, True, False, True, False, True, False, True, False, True, False, False, False, False,
     False, False, False, False, False]"

text \<open>\<open>mem_cycles\<close> is the part for memory operations and increments \<open>memOps\<close>.\<close>

definition mem_cycles :: "'d sh4_opcodelistentry \<Rightarrow> bool \<Rightarrow> cycles_state \<Rightarrow> u32 \<times> cycles_state" where
  "mem_cycles opcode mmu st =
    (if isMemOp ! unat (ex_type opcode)
     then let st1 = st\<lparr>memOps := memOps st + 1\<rparr>
          in (if sint (memOps st1) < 4 then if mmu then 5 else 2 else 0, st1)
     else (0, st))"

definition issue_cycles :: "'d sh4_opcodelistentry \<Rightarrow> cycles_state \<Rightarrow> u32 \<times> cycles_state" where
  "issue_cycles opcode st =
    (if lastUnit st = CO \<or> op_unit opcode = CO \<or> (lastUnit st = op_unit opcode \<and> lastUnit st \<noteq> MT)
     then (ucast (IssueCycles opcode), st\<lparr>lastUnit := op_unit opcode\<rparr>)
     else (0, st\<lparr>lastUnit := CO\<rparr>))"

definition countCycles_entry :: "u32 \<Rightarrow> 'd sh4_opcodelistentry \<Rightarrow> bool \<Rightarrow> cycles_state \<Rightarrow> u32 \<times> cycles_state" where
  "countCycles_entry cpuRatio opcode mmu st =
    (let (c1, st1) = mem_cycles opcode mmu st; (c2, st2) = issue_cycles opcode st1
     in ((c1 + c2) * cpuRatio, st2))"

definition countCycles :: "u32 \<Rightarrow> u16 \<Rightarrow> 'd machine \<Rightarrow> u32 \<times> 'd machine" where
  "countCycles cpuRatio op s =
    (let (c, st) = countCycles_entry cpuRatio (OpDesc op :: 'd sh4_opcodelistentry) (mmuOn (m_mmu s)) (m_cycles s)
     in (c, m_cycles_update (\<lambda>_. st) s))"

definition addCycles :: "u32 \<Rightarrow> 'd machine \<Rightarrow> 'd machine" where
  "addCycles cycles = on_ctx (ctx_cycle_counter_update (\<lambda>c. c - cycles))"

definition executeCycles :: "u32 \<Rightarrow> u16 \<Rightarrow> 'd machine \<Rightarrow> 'd machine" where
  "executeCycles cpuRatio op s = (let (c, s1) = countCycles cpuRatio op s in addCycles c s1)"

definition cycles_reset :: "'d machine \<Rightarrow> 'd machine" where
  "cycles_reset = m_cycles_update (\<lambda>_. \<lparr>lastUnit = CO, memOps = 0\<rparr>)"

definition cycles_now :: "'d machine \<Rightarrow> u64" where
  "cycles_now s = sh4_sched_now64 s + 448 - scast (ctx_cycle_counter (m_ctx s))"

section \<open>The cost of an external access\<close>

text \<open>The part of \<^verbatim>\<open>settings.platform\<close> that matters here.\<close>

datatype dc_system = DC_PLATFORM_DREAMCAST | DC_PLATFORM_DEV_UNIT | DC_PLATFORM_NAOMI | DC_PLATFORM_NAOMI2
  | DC_PLATFORM_ATOMISWAVE | DC_PLATFORM_SYSTEMSP

record platform =
  p_system :: dc_system
  flash_size :: u32

definition isAtomiswave :: "platform \<Rightarrow> bool" where
  "isAtomiswave p \<longleftrightarrow> p_system p = DC_PLATFORM_ATOMISWAVE"

definition isConsole :: "platform \<Rightarrow> bool" where
  "isConsole p \<longleftrightarrow> p_system p = DC_PLATFORM_DREAMCAST"

definition isArcade :: "platform \<Rightarrow> bool" where
  "isArcade p \<longleftrightarrow> \<not> isConsole p"

definition within :: "u32 \<Rightarrow> u32 \<Rightarrow> u32 \<Rightarrow> bool" where
  "within addr lo hi \<longleftrightarrow> lo \<le> addr \<and> addr \<le> hi"

text \<open>Read cost in area 0: boot ROM and flash, then the devices.\<close>

definition read_rom_cycles :: "platform \<Rightarrow> u32 \<Rightarrow> u32 \<Rightarrow> u32 option" where
  "read_rom_cycles p addr sz =
    (let flash = (if sz = 1 then 41 else if sz = 2 then 55 else if sz = 4 then 83 else 489)
     in if \<not> isAtomiswave p then
          if addr < 0x00200000 then Some (if sz = 1 then 44 else if sz = 2 then 63 else if sz = 4 then 99 else 618)
          else if addr < 0x00200000 + flash_size p then Some flash
          else None
        else
          if addr < 0x00020000 \<or> (0x00200000 \<le> addr \<and> addr < 0x00200000 + flash_size p) then Some flash
          else None)"

definition read_dev_cycles :: "platform \<Rightarrow> u32 \<Rightarrow> u32 \<Rightarrow> u32 option" where
  "read_dev_cycles p addr sz =
    (if within addr 0x005f6800 0x005f69ff then Some 5
     else if within addr 0x005f6c00 0x005f6cff then Some 22
     else if within addr 0x005f7000 0x005f70ff then Some (if isArcade p then 20 else 39)
     else if within addr 0x005f7400 0x005f74ff then Some 24
     else if within addr 0x005f7800 0x005f78ff then Some 38
     else if within addr 0x005f7c00 0x005f7cff then Some 24
     else if within addr 0x005f8000 0x005f9fff then Some 34
     else if within addr 0x00600000 0x006007ff then Some (if isConsole p then 20 else 67)
     else if within addr 0x00700000 0x00ffffff then Some (40 * sz div 4)
     else if within addr 0x01000000 0x01ffffff then
       Some (if sz = 1 \<or> sz = 2 then 56 else if sz = 4 then 60 else 84)
     else None)"

definition readExternalAccessCycles :: "platform \<Rightarrow> u32 \<Rightarrow> u32 \<Rightarrow> u32" where
  "readExternalAccessCycles p addr0 sz =
    (if addr0 AND 0xfc000000 = 0xe0000000 then 0
     else
       let addr = addr0 AND 0x1fffffff; area = drop_bit 26 addr
       in if area = 0 then
            (case read_rom_cycles p addr sz of Some c \<Rightarrow> c
             | None \<Rightarrow> (case read_dev_cycles p (addr AND 0x01ffffff) sz of Some c \<Rightarrow> c | None \<Rightarrow> 60))
          else if area = 1 then if sz = 1 \<or> sz = 2 \<or> sz = 4 then 41 else 61
          else if area = 2 then 60
          else if area = 3 then 7
          else if area = 4 then
            if within addr 0x11000000 0x11ffffff \<or> within addr 0x13000000 0x13ffffff then 61 else 60
          else if area = 5 then if sz = 1 \<or> sz = 2 then 56 else if sz = 4 then 60 else 84
          else if area = 6 then 60
          else 0)"

definition write_rom_cycles :: "platform \<Rightarrow> u32 \<Rightarrow> u32 option" where
  "write_rom_cycles p addr =
    (if \<not> isAtomiswave p then
       if addr < 0x00200000 then Some 99
       else if addr < 0x00200000 + flash_size p then Some 28
       else None
     else
       if addr < 0x00020000 then Some 28
       else if 0x00200000 \<le> addr \<and> addr < 0x00200000 + flash_size p then Some 14
       else None)"

definition write_dev_cycles :: "platform \<Rightarrow> u32 \<Rightarrow> u32 \<Rightarrow> u32 option" where
  "write_dev_cycles p addr sz =
    (if within addr 0x005f6800 0x005f69ff then Some 5
     else if within addr 0x005f6c00 0x005f6cff then Some 12
     else if within addr 0x005f7000 0x005f70ff then Some (if isArcade p then 14 else 28)
     else if within addr 0x005f7400 0x005f74ff then Some 12
     else if within addr 0x005f7800 0x005f78ff then Some 12
     else if within addr 0x005f7c00 0x005f7cff then Some 12
     else if within addr 0x005f8000 0x005f9fff then Some 14
     else if within addr 0x00600000 0x006007ff then Some (if isAtomiswave p then 14 else 44)
     else if within addr 0x00700000 0x00ffffff then Some (12 * sz div 4)
     else if within addr 0x01000000 0x01ffffff then
       Some (if sz = 1 \<or> sz = 2 \<or> sz = 4 then 28 else 52)
     else None)"

definition writeExternalAccessCycles :: "platform \<Rightarrow> u32 \<Rightarrow> u32 \<Rightarrow> u32" where
  "writeExternalAccessCycles p addr0 sz =
    (if addr0 AND 0xfc000000 = 0xe0000000 then 0
     else
       let addr = addr0 AND 0x1fffffff; area = drop_bit 26 addr
       in if area = 0 then
            (case write_rom_cycles p addr of Some c \<Rightarrow> c
             | None \<Rightarrow> (case write_dev_cycles p (addr AND 0x01ffffff) sz of Some c \<Rightarrow> c | None \<Rightarrow> 14))
          else if area = 1 then if sz = 1 \<or> sz = 2 \<or> sz = 4 then 12 else 38
          else if area = 2 then 12
          else if area = 3 then 4
          else if area = 4 then
            if within addr 0x10000000 0x107fffff \<or> within addr 0x12000000 0x127fffff then 7
            else if within addr 0x10800000 0x10ffffff \<or> within addr 0x12800000 0x12ffffff then 9
            else if within addr 0x11000000 0x11ffffff \<or> within addr 0x13000000 0x13ffffff then 5
            else 14
          else if area = 5 then if sz = 1 \<or> sz = 2 \<or> sz = 4 then 28 else 52
          else if area = 6 then 14
          else 0)"

definition readAccessCycles :: "platform \<Rightarrow> u32 \<Rightarrow> u32 \<Rightarrow> u32 \<Rightarrow> u32" where
  "readAccessCycles p cpuRatio addr sz = readExternalAccessCycles p addr sz * 2 * cpuRatio"

definition writeAccessCycles :: "platform \<Rightarrow> u32 \<Rightarrow> u32 \<Rightarrow> u32 \<Rightarrow> u32" where
  "writeAccessCycles p cpuRatio addr sz = writeExternalAccessCycles p addr sz * 2 * cpuRatio"

definition addReadAccessCycles :: "platform \<Rightarrow> u32 \<Rightarrow> u32 \<Rightarrow> u32 \<Rightarrow> 'd machine \<Rightarrow> 'd machine" where
  "addReadAccessCycles p cpuRatio addr sz = addCycles (readAccessCycles p cpuRatio addr sz)"

definition addWriteAccessCycles :: "platform \<Rightarrow> u32 \<Rightarrow> u32 \<Rightarrow> u32 \<Rightarrow> 'd machine \<Rightarrow> 'd machine" where
  "addWriteAccessCycles p cpuRatio addr sz = addCycles (writeAccessCycles p cpuRatio addr sz)"

section \<open>Cost of an instruction\<close>

lemma mem_cycles_bound: "unat (fst (mem_cycles e mmu st)) \<le> 5"
  by (simp add: mem_cycles_def Let_def)

lemma mem_cycles_unit: "lastUnit (snd (mem_cycles e mmu st)) = lastUnit st"
  by (simp add: mem_cycles_def Let_def)

text \<open>A memory operation is charged for memory only while fewer than four have been counted.\<close>

lemma mem_cycles_later: "4 \<le> sint (memOps st + 1) \<Longrightarrow> fst (mem_cycles e mmu st) = 0"
  by (simp add: mem_cycles_def Let_def)

lemma issue_cycles_cases:
  "issue_cycles e st = (ucast (IssueCycles e), st\<lparr>lastUnit := op_unit e\<rparr>) \<or>
   issue_cycles e st = (0, st\<lparr>lastUnit := CO\<rparr>) \<and> lastUnit st \<noteq> CO"
  by (simp add: issue_cycles_def)

lemma unat_cycles:
  assumes "entry_ok e" "unat r \<le> 8"
  shows "unat ((fst (mem_cycles e mmu st) + ucast (IssueCycles e)) * r) =
      (unat (fst (mem_cycles e mmu st)) + unat (IssueCycles e)) * unat r"
    and "unat (fst (mem_cycles e mmu st) * r) = unat (fst (mem_cycles e mmu st)) * unat r"
    and "1 \<le> unat (IssueCycles e)" "unat (IssueCycles e) \<le> 100"
proof -
  let ?m = "fst (mem_cycles e mmu st)"
  have i: "0 < IssueCycles e" "IssueCycles e \<le> 100" using assms(1) by (simp_all add: entry_ok_def)
  then show "1 \<le> unat (IssueCycles e)" "unat (IssueCycles e) \<le> 100"
    by (simp_all add: word_less_nat_alt word_le_nat_alt)
  moreover have u: "unat (ucast (IssueCycles e) :: u32) = unat (IssueCycles e)"
    using take_bit_nat_eq_self [OF le_less_trans [OF \<open>unat (IssueCycles e) \<le> 100\<close>], of 32]
    by (simp add: unsigned_ucast_eq)
  ultimately have s: "unat (?m + ucast (IssueCycles e)) = unat ?m + unat (IssueCycles e)"
    using mem_cycles_bound [of e mmu st] by (subst unat_add_lem [THEN iffD1]) simp_all
  have "(unat ?m + unat (IssueCycles e)) * unat r \<le> 105 * 8"
    using mem_cycles_bound [of e mmu st] \<open>unat (IssueCycles e) \<le> 100\<close> assms(2)
    by (intro mult_le_mono) simp_all
  then show "unat ((?m + ucast (IssueCycles e)) * r) = (unat ?m + unat (IssueCycles e)) * unat r"
    by (subst unat_mult_lem [THEN iffD1]) (simp_all add: s)
  have "unat ?m * unat r \<le> 5 * 8"
    using mem_cycles_bound [of e mmu st] assms(2) by (intro mult_le_mono)
  then show "unat (?m * r) = unat ?m * unat r"
    by (subst unat_mult_lem [THEN iffD1]) simp_all
qed

text \<open>
  The opcodes that have a description, and the cost of a sequence of them.
\<close>

definition described :: "u16 \<Rightarrow> bool" where
  "described op \<longleftrightarrow> filter (op_matches op) (opcodes :: unit sh4_opcodelistentry list) \<noteq> []"

fun count_all :: "u32 \<Rightarrow> u16 list \<Rightarrow> 'd machine \<Rightarrow> nat \<times> 'd machine" where
  "count_all r [] s = (0, s)"
| "count_all r (op # ops) s =
     (let (c, s1) = countCycles r op s; (n, s2) = count_all r ops s1 in (unat c + n, s2))"

lemma described_keys:
  "described op \<longleftrightarrow> list_ex (\<lambda>k. ucast op AND fst (snd k) = snd (snd k)) (op_keys_a @ op_keys_b)"
proof -
  have "filter (op_matches op) es \<noteq> [] \<longleftrightarrow> list_ex (\<lambda>k. ucast op AND fst (snd k) = snd (snd k)) (map op_key es)"
    for es :: "unit sh4_opcodelistentry list"
    by (induction es) (simp_all add: op_matches_def op_key_def)
  then show ?thesis by (simp only: described_def op_keys)
qed

lemma described_entry:
  assumes "described op"
  shows "entry_ok (OpDesc op :: 'd sh4_opcodelistentry)"
proof -
  have "filter (op_matches op) es \<noteq> [] \<longleftrightarrow> list_ex (\<lambda>k. ucast op AND fst (snd k) = snd (snd k)) (map op_key es)"
    for es :: "'d sh4_opcodelistentry list"
    by (induction es) (simp_all add: op_matches_def op_key_def)
  then have "filter (op_matches op) (opcodes :: 'd sh4_opcodelistentry list) \<noteq> []"
    using assms by (simp only: described_keys op_keys)
  then obtain e where e: "filter (op_matches op) (opcodes :: 'd sh4_opcodelistentry list) = [e]"
    using opcode_unique [of op, where 'a = 'd] by (cases "filter (op_matches op) (opcodes :: 'd sh4_opcodelistentry list)") auto
  have "e \<in> set (filter (op_matches op) opcodes)" by (simp add: e)
  then have "e \<in> set opcodes" by simp
  moreover have "list_all entry_ok (opcodes :: 'd sh4_opcodelistentry list)" by (rule opcodes_ok)
  ultimately show ?thesis
    by (simp add: OpDesc_match(1) [OF e] list_all_iff)
qed

lemma countCycles_cost:
  fixes s :: "'d machine"
  assumes "described op" "unat r \<le> 8"
  shows "unat (fst (countCycles r op s)) \<le> 105 * unat r"
    and "unat r \<le> unat (fst (countCycles r op s)) \<or>
      lastUnit (m_cycles s) \<noteq> CO \<and> lastUnit (m_cycles (snd (countCycles r op s))) = CO"
proof -
  let ?e = "OpDesc op :: 'd sh4_opcodelistentry" and ?mmu = "mmuOn (m_mmu s)" and ?st = "m_cycles s"
  obtain m st1 where m: "mem_cycles ?e ?mmu ?st = (m, st1)" by fastforce
  have b: "unat m \<le> 5" "lastUnit st1 = lastUnit ?st"
    using mem_cycles_bound [of ?e ?mmu ?st] mem_cycles_unit [of ?e ?mmu ?st] by (simp_all add: m)
  note u = unat_cycles(1,2) [OF described_entry [OF assms(1), where 'd = 'd] assms(2), of ?mmu ?st, unfolded m fst_conv]
    unat_cycles(3,4) [OF described_entry [OF assms(1), where 'd = 'd] assms(2)]
  have le: "unat m * unat r \<le> 105 * unat r" "(unat m + unat (IssueCycles ?e)) * unat r \<le> 105 * unat r"
    using b(1) u(4) by (auto intro: mult_le_mono1)
  have ge: "1 * unat r \<le> (unat m + unat (IssueCycles ?e)) * unat r"
    using u(3) by (intro mult_le_mono1) simp
  consider "issue_cycles ?e st1 = (ucast (IssueCycles ?e), st1\<lparr>lastUnit := op_unit ?e\<rparr>)"
    | "issue_cycles ?e st1 = (0, st1\<lparr>lastUnit := CO\<rparr>)" "lastUnit ?st \<noteq> CO"
    using issue_cycles_cases [of ?e st1] b(2) by metis
  then have "unat (fst (countCycles r op s)) \<le> 105 * unat r \<and> (unat r \<le> unat (fst (countCycles r op s)) \<or>
      lastUnit (m_cycles s) \<noteq> CO \<and> lastUnit (m_cycles (snd (countCycles r op s))) = CO)"
    by cases (use le ge in \<open>simp_all add: countCycles_def countCycles_entry_def m u(1,2)\<close>)
  then show "unat (fst (countCycles r op s)) \<le> 105 * unat r"
    "unat r \<le> unat (fst (countCycles r op s)) \<or>
      lastUnit (m_cycles s) \<noteq> CO \<and> lastUnit (m_cycles (snd (countCycles r op s))) = CO" by simp_all
qed

lemma count_all_progress:
  assumes "list_all described ops" "unat r \<le> 8"
  shows "unat r * ((length ops + of_bool (lastUnit (m_cycles s) = CO)) div 2) \<le> fst (count_all r ops s)"
  using assms(1)
proof (induction ops arbitrary: s)
  case (Cons op ops)
  obtain c s1 where c: "countCycles r op s = (c, s1)" by fastforce
  have IH: "unat r * ((length ops + of_bool (lastUnit (m_cycles s1) = CO)) div 2) \<le> fst (count_all r ops s1)"
    using Cons by simp
  from countCycles_cost(2) [of op r s] Cons.prems assms(2) c
  consider "unat r \<le> unat c" | "lastUnit (m_cycles s) \<noteq> CO" "lastUnit (m_cycles s1) = CO" by auto
  then have "unat r * ((Suc (length ops) + of_bool (lastUnit (m_cycles s) = CO)) div 2) \<le>
      unat c + fst (count_all r ops s1)"
  proof cases
    case 1
    have "unat r * ((Suc (length ops) + of_bool (lastUnit (m_cycles s) = CO)) div 2) \<le>
        unat r * (1 + (length ops + of_bool (lastUnit (m_cycles s1) = CO)) div 2)"
      by (rule mult_le_mono2) auto
    with 1 IH show ?thesis by (simp add: add_mult_distrib2)
  next
    case 2
    with IH show ?thesis by simp
  qed
  then show ?case by (cases "count_all r ops s1") (simp add: c)
qed simp

text \<open>C28: The cost of an instruction is bounded, and of two instructions in a row at least one has
  a cost: a sequence of \<open>n\<close> described instructions takes at least \<open>n div 2\<close> issue cycles at
  the CPU ratio. So the instructions of a time slice use it up.\<close>
theorem count_cycles_progress:
  assumes "list_all described ops" and "0 < r" and "r \<le> 8"
  shows "unat r * (length ops div 2) \<le> fst (count_all r ops s) \<and>
    fst (count_all r ops s) \<le> 105 * unat r * length ops"
proof
  have r: "unat r \<le> 8" using assms(3) by (simp add: word_le_nat_alt)
  have "unat r * (length ops div 2) \<le> unat r * ((length ops + of_bool (lastUnit (m_cycles s) = CO)) div 2)"
    by (intro mult_le_mono2 div_le_mono) simp
  also note count_all_progress [OF assms(1) r, of s]
  finally show "unat r * (length ops div 2) \<le> fst (count_all r ops s)" .
  show "fst (count_all r ops s) \<le> 105 * unat r * length ops"
    using assms(1)
  proof (induction ops arbitrary: s)
    case (Cons op ops)
    obtain c s1 where c: "countCycles r op s = (c, s1)" by fastforce
    obtain n s2 where n: "count_all r ops s1 = (n, s2)" by fastforce
    have "unat c \<le> 105 * unat r" using countCycles_cost(1) [of op r s] Cons.prems r by (simp add: c)
    moreover have "n \<le> 105 * unat r * length ops" using Cons.IH [of s1] Cons.prems by (simp add: n)
    ultimately show ?case by (simp add: c n)
  qed simp
qed

theorem count_cycles_progress_witness:
  "8 * 2 \<le> fst (count_all 8 [0x300C, 0x300C, 0x6002, 0x0009] (zero_machine ()))"
proof -
  have "list_all described [0x300C, 0x300C, 0x6002, 0x0009]"
    by (simp add: described_keys op_keys_a_def op_keys_b_def)
  from count_cycles_progress [OF this, of 8 "zero_machine ()"] show ?thesis by simp
qed

section \<open>Cost of an access\<close>

lemma cost_if:
  "pred_option P x \<Longrightarrow> pred_option P y \<Longrightarrow> pred_option P (if b then x else y)"
  "unat u \<le> k \<Longrightarrow> unat v \<le> k \<Longrightarrow> unat (if b then u else v) \<le> k" for u v :: u32
  by simp_all

lemma cost_some: "unat u \<le> k \<Longrightarrow> pred_option (\<lambda>c. unat c \<le> k) (Some u)" for u :: u32
  by simp

lemma cost_per_word: "unat sz \<le> 32 \<Longrightarrow> unat k \<le> 40 \<Longrightarrow> unat (k * sz div 4) \<le> unat k * 8"
  for k sz :: u32
proof -
  assume sz: "unat sz \<le> 32" and k: "unat k \<le> 40"
  have "unat k * unat sz div 4 \<le> unat k * 32 div 4" using sz by (intro div_le_mono mult_le_mono2)
  moreover have "unat k * unat sz \<le> 40 * 32" using sz k by (intro mult_le_mono)
  then have "unat (k * sz) = unat k * unat sz" by (subst unat_mult_lem [THEN iffD1]) simp_all
  ultimately show ?thesis by (simp add: unat_div)
qed

lemma read_cost_bounds:
  assumes "unat sz \<le> 32"
  shows "pred_option (\<lambda>c. unat c \<le> 320) (read_dev_cycles p a sz)"
    and "pred_option (\<lambda>c. unat c \<le> 618) (read_rom_cycles p a sz)"
proof -
  have "unat (40 * sz div 4) \<le> 320" using cost_per_word [OF assms, of 40] by simp
  then show "pred_option (\<lambda>c. unat c \<le> 320) (read_dev_cycles p a sz)"
    unfolding read_dev_cycles_def by (intro cost_if cost_some) simp_all
  show "pred_option (\<lambda>c. unat c \<le> 618) (read_rom_cycles p a sz)"
    unfolding read_rom_cycles_def Let_def by (intro cost_if cost_some) simp_all
qed

lemma write_cost_bounds:
  assumes "unat sz \<le> 32"
  shows "pred_option (\<lambda>c. unat c \<le> 99) (write_dev_cycles p a sz)"
    and "pred_option (\<lambda>c. unat c \<le> 99) (write_rom_cycles p a)"
proof -
  have "unat (12 * sz div 4) \<le> 99" using cost_per_word [OF assms, of 12] by simp
  then show "pred_option (\<lambda>c. unat c \<le> 99) (write_dev_cycles p a sz)"
    unfolding write_dev_cycles_def by (intro cost_if cost_some) simp_all
  show "pred_option (\<lambda>c. unat c \<le> 99) (write_rom_cycles p a)"
    unfolding write_rom_cycles_def by (intro cost_if cost_some) simp_all
qed

text \<open>The cost of an access of at most 32 bytes is bounded, an access through a store queue
  address is free, and outside P4 the cost does not depend on the region: the mirrors of a
  physical address cost the same.\<close>
theorem access_cycles_bounds:
  assumes "sz \<le> 32"
  shows "unat (readExternalAccessCycles p addr sz) \<le> 618 \<and>
    unat (writeExternalAccessCycles p addr sz) \<le> 99 \<and>
    (addr AND 0xfc000000 \<noteq> 0xe0000000 \<longrightarrow>
      readExternalAccessCycles p addr sz = readExternalAccessCycles p (addr AND 0x1fffffff) sz \<and>
      writeExternalAccessCycles p addr sz = writeExternalAccessCycles p (addr AND 0x1fffffff) sz)"
proof -
  have sz: "unat sz \<le> 32" using assms by (simp add: word_le_nat_alt)
  have low: "addr AND 0x1fffffff AND 0xfc000000 \<noteq> 0xe0000000"
  proof
    assume "addr AND 0x1fffffff AND 0xfc000000 = 0xe0000000"
    then have "(addr AND 0x1fffffff AND 0xfc000000) AND 0xe0000000 = 0xe0000000 AND 0xe0000000" by simp
    then show False by (simp add: and.assoc)
  qed
  have "unat (case read_rom_cycles p a sz of Some c \<Rightarrow> c
      | None \<Rightarrow> (case read_dev_cycles p b sz of Some c \<Rightarrow> c | None \<Rightarrow> 60)) \<le> 618" for a b
    using read_cost_bounds(1) [OF sz, of p b] read_cost_bounds(2) [OF sz, of p a]
    by (cases "read_rom_cycles p a sz"; cases "read_dev_cycles p b sz") simp_all
  then have "unat (readExternalAccessCycles p addr sz) \<le> 618"
    by (simp add: readExternalAccessCycles_def Let_def)
  moreover have "unat (case write_rom_cycles p a of Some c \<Rightarrow> c
      | None \<Rightarrow> (case write_dev_cycles p b sz of Some c \<Rightarrow> c | None \<Rightarrow> 14)) \<le> 99" for a b
    using write_cost_bounds(1) [OF sz, of p b] write_cost_bounds(2) [OF sz, of p a]
    by (cases "write_rom_cycles p a"; cases "write_dev_cycles p b sz") simp_all
  then have "unat (writeExternalAccessCycles p addr sz) \<le> 99"
    by (simp add: writeExternalAccessCycles_def Let_def)
  ultimately show ?thesis
    using low by (simp add: readExternalAccessCycles_def writeExternalAccessCycles_def and.assoc)
qed

definition dreamcast_platform :: platform where
  "dreamcast_platform = \<lparr>p_system = DC_PLATFORM_DREAMCAST, flash_size = 128 * 1024\<rparr>"

theorem access_cycles_bounds_witness:
  "readExternalAccessCycles dreamcast_platform 0x8C000000 4 = 7 \<and>
   readExternalAccessCycles dreamcast_platform 0x8C000000 4 =
     readExternalAccessCycles dreamcast_platform 0x0C000000 4"
  using access_cycles_bounds [of 4 dreamcast_platform "0x8C000000"]
  by (simp add: readExternalAccessCycles_def Let_def)

text \<open>
  The read cost of the registers at 0x600000 tests the platform the other way round than the
  write cost: a console is charged for the registers of an Atomiswave, which is charged for a
  modem.
\<close>

lemma read_modem_cycles:
  "readExternalAccessCycles dreamcast_platform 0x00600000 1 = 20"
  "writeExternalAccessCycles dreamcast_platform 0x00600000 1 = 44"
  by (simp_all add: readExternalAccessCycles_def writeExternalAccessCycles_def Let_def
      read_rom_cycles_def write_rom_cycles_def read_dev_cycles_def write_dev_cycles_def within_def
      dreamcast_platform_def isAtomiswave_def isConsole_def)

end
