(* ===== verification/Sh4_Cache.thy ===== *)
theory Sh4_Cache
  imports Sh4_Mmu Sh4_Cycles Sh4_Mem
begin

text \<open>
  The caches of the SH4, \<^verbatim>\<open>hw/sh4/sh4_cache.h\<close>: 256 lines of instructions and 512 lines of
  operands, each of 32 bytes, looked up by bits of the virtual address and tagged with bits of
  the physical one. The operand cache copies back or writes through; \<^verbatim>\<open>translateAddress\<close> also
  decides whether an access is cached at all.

  The refinement: with the operand cache on, the reads and writes of the processor to main
  memory are those of a flat memory, whatever is in which line, and writing back all lines
  leaves this memory in main memory.
\<close>

section \<open>Accesses by size\<close>

text \<open>
  The template parameter of the access functions: the size, the access to bytes in memory order,
  and \<^verbatim>\<open>addrspace::readt\<close> and \<^verbatim>\<open>writet\<close> of that size.
\<close>

record ('d, 'v) access =
  ac_size :: u32
  ac_ld :: "(u32 \<Rightarrow> u8) \<Rightarrow> u32 \<Rightarrow> 'v"
  ac_st :: "u32 \<Rightarrow> 'v \<Rightarrow> (u32 \<Rightarrow> u8) \<Rightarrow> u32 \<Rightarrow> u8"
  ac_read :: "u32 \<Rightarrow> ('d, 'v) SM"
  ac_write :: "u32 \<Rightarrow> 'v \<Rightarrow> ('d, unit) SM"

definition acc8 :: "'d env \<Rightarrow> ('d, u8) access" where
  "acc8 E = \<lparr>ac_size = 1, ac_ld = (\<lambda>f a. f a), ac_st = (\<lambda>a v f. f(a := v)), ac_read = readt8 E, ac_write = writet8 E\<rparr>"

definition acc16 :: "'d env \<Rightarrow> ('d, u16) access" where
  "acc16 E = \<lparr>ac_size = 2, ac_ld = ld16, ac_st = st16, ac_read = readt16 E, ac_write = writet16 E\<rparr>"

definition acc32 :: "'d env \<Rightarrow> ('d, u32) access" where
  "acc32 E = \<lparr>ac_size = 4, ac_ld = ld32, ac_st = st32, ac_read = readt32 E, ac_write = writet32 E\<rparr>"

definition acc64 :: "'d env \<Rightarrow> ('d, u64) access" where
  "acc64 E = \<lparr>ac_size = 8, ac_ld = ld64, ac_st = st64, ac_read = readt64 E, ac_write = writet64 E\<rparr>"

text \<open>The data of a line as bytes at the low five bits of an address.\<close>

definition line_ld :: "('d, 'v) access \<Rightarrow> (5 word \<Rightarrow> u8) \<Rightarrow> u32 \<Rightarrow> 'v" where
  "line_ld A d addr = ac_ld A (\<lambda>x. d (ucast x)) (addr AND 0x1f)"

definition line_st :: "('d, 'v) access \<Rightarrow> u32 \<Rightarrow> 'v \<Rightarrow> (5 word \<Rightarrow> u8) \<Rightarrow> 5 word \<Rightarrow> u8" where
  "line_st A addr v d = (\<lambda>k. ac_st A (addr AND 0x1f) v (\<lambda>x. d (ucast x)) (ucast k))"

definition get_line :: "u32 \<Rightarrow> (u32 \<Rightarrow> u8) \<Rightarrow> 5 word \<Rightarrow> u8" where
  "get_line off f = (\<lambda>k. f (off + ucast k))"

definition put_line :: "u32 \<Rightarrow> (5 word \<Rightarrow> u8) \<Rightarrow> (u32 \<Rightarrow> u8) \<Rightarrow> u32 \<Rightarrow> u8" where
  "put_line off d f = (\<lambda>x. if x - off < 32 then d (ucast (x - off)) else f x)"

section \<open>Address translation\<close>

definition cachedArea :: "u32 \<Rightarrow> bool" where
  "cachedArea area = ([True, True, True, True, True, False, True, False] ! unat area)"

definition translatedArea :: "u32 \<Rightarrow> bool" where
  "translatedArea area = ([True, True, True, True, False, False, True, False] ! unat area)"

definition CCR_OCE :: "u32 \<Rightarrow> u32" where "CCR_OCE = fld 0 1"
definition CCR_WT :: "u32 \<Rightarrow> u32" where "CCR_WT = fld 1 1"
definition CCR_CB :: "u32 \<Rightarrow> u32" where "CCR_CB = fld 2 1"
definition CCR_ORA :: "u32 \<Rightarrow> u32" where "CCR_ORA = fld 5 1"
definition CCR_OIX :: "u32 \<Rightarrow> u32" where "CCR_OIX = fld 7 1"
definition CCR_ICE :: "u32 \<Rightarrow> u32" where "CCR_ICE = fld 8 1"
definition CCR_IIX :: "u32 \<Rightarrow> u32" where "CCR_IIX = fld 15 1"

abbreviation (input) "CCR s \<equiv> CCN_CCR (m_ccn s)"

text \<open>The fields \<open>C\<close> and \<open>WT\<close> of \<^verbatim>\<open>CCN_PTEL_type\<close>.\<close>

definition PTEL_WT :: "u32 \<Rightarrow> u32" where "PTEL_WT = fld 0 1"
definition PTEL_C :: "u32 \<Rightarrow> u32" where "PTEL_C = fld 3 1"

text \<open>
  \<^verbatim>\<open>Sh4OCache::translateAddress\<close>: the error, the physical address, and whether the access is
  cached and copied back. The variables the source leaves unset on an error are the initial
  ones here.
\<close>

definition oc_translate :: "bool \<Rightarrow> u32 \<Rightarrow> u32 \<Rightarrow> 'd machine \<Rightarrow> (MmuError \<times> u32 \<times> bool \<times> bool) \<times> 'd machine" where
  "oc_translate write sz address s =
    (let area = drop_bit 29 address;
         userMode = (st_MD (ctx_status (m_ctx s)) = 0);
         cached = (CCR_OCE (CCR s) = 1 \<and> cachedArea area);
         copyBack = (write \<and> (if area = 4 then CCR_CB (CCR s) \<noteq> 0 else CCR_WT (CCR s) = 0))
     in if address AND (sz - 1) \<noteq> 0 then ((BADADDR, 0, False, False), s)
        else if write \<and> address AND 0xFC000000 = 0xE0000000 then
          (case mmu_full_SQ True address 0 s of ((err, rv), s1) \<Rightarrow> ((err, address, False, False), s1))
        else if userMode \<and> address AND 0x80000000 \<noteq> 0 then ((BADADDR, 0, False, False), s)
        else if MMUCR_AT (CCN_MMUCR (m_ccn s)) = 0 \<or> \<not> translatedArea area \<or> address AND 0xFC000000 = 0x7C000000
        then ((NONE, address, cached, copyBack), s)
        else (case mmu_full_lookup address 0 s of ((err, entry, pa), s1) \<Rightarrow>
          let data = Data (the entry) in
          if err \<noteq> NONE then ((err, pa, cached, copyBack), s1)
          else if userMode \<and> drop_bit 1 (PTEL_PR data) = 0 then ((PROTECTED, pa, cached, copyBack), s1)
          else if write \<and> PTEL_PR data AND 1 = 0 then ((PROTECTED, pa, cached, copyBack), s1)
          else if write \<and> PTEL_D data = 0 then ((FIRSTWRITE, pa, cached, copyBack), s1)
          else ((NONE, if pa AND 0x1C000000 = 0x1C000000 then pa OR 0xF0000000 else pa,
            cached \<and> PTEL_C data = 1, copyBack \<and> (write \<longrightarrow> PTEL_WT data = 0)), s1)))"

text \<open>\<^verbatim>\<open>Sh4ICache::translateAddress\<close>: an entry of the ITLB is looked up.\<close>

definition ic_translate :: "u32 \<Rightarrow> ('d, MmuError \<times> u32 \<times> bool) SM" where
  "ic_translate address s =
    (let area = drop_bit 29 address;
         userMode = (st_MD (ctx_status (m_ctx s)) = 0);
         cached = (CCR_ICE (CCR s) = 1 \<and> cachedArea area)
     in if address AND 1 \<noteq> 0 then Ret (BADADDR, 0, False) s
        else if userMode \<and> address AND 0x80000000 \<noteq> 0 then Ret (BADADDR, 0, False) s
        else if \<not> userMode \<and> area = 7 then Ret (BADADDR, 0, False) s
        else if MMUCR_AT (CCN_MMUCR (m_ccn s)) = 0 \<or> \<not> translatedArea area \<or> address AND 0xFC000000 = 0x7C000000
        then Ret (NONE, address, cached) s
        else bindM (mmu_instruction_lookup address 0) (\<lambda>(err, i, pa) s1.
          let data = Data (ITLB (m_mmu s1) (of_nat (the i))) in
          if err \<noteq> NONE then Ret (err, pa, cached) s1
          else if userMode \<and> drop_bit 1 (PTEL_PR data) = 0 then Ret (PROTECTED, pa, cached) s1
          else Ret (NONE, pa, cached \<and> PTEL_C data = 1) s1) s)"

section \<open>Lines of the operand cache\<close>

text \<open>What the cache uses of the configuration of the machine.\<close>

record cache_cfg =
  cc_areas :: areas
  cc_platform :: platform

definition example_cfg :: cache_cfg where
  "example_cfg = \<lparr>cc_areas = dreamcast_areas, cc_platform = dreamcast_platform\<rparr>"

definition tag_of :: "u32 \<Rightarrow> u32" where
  "tag_of physAddr = drop_bit 10 physAddr AND 0x7ffff"

definition oline :: "9 word \<Rightarrow> 'd machine \<Rightarrow> ocache_line" where
  "oline i s = ocache_lines (m_cache s) i"

definition upd_oline :: "9 word \<Rightarrow> (ocache_line \<Rightarrow> ocache_line) \<Rightarrow> 'd machine \<Rightarrow> 'd machine" where
  "upd_oline i f = m_cache_update (ocache_lines_update (\<lambda>L. L(i := f (L i))))"

definition lineIndex :: "u32 \<Rightarrow> 'd machine \<Rightarrow> 9 word" where
  "lineIndex address s =
    (let ora = CCR_ORA (CCR s) \<noteq> 0;
         index = (if CCR_OIX (CCR s) \<noteq> 0
           then (drop_bit 17 address AND 0x100) OR (drop_bit 5 address AND (if ora then 0x7f else 0xff))
           else drop_bit 5 address AND (if ora then 0x17f else 0x1ff))
     in ucast (if ora \<and> drop_bit 29 address = 3 then index OR 0x80 else index))"

definition addReadCycles :: "cache_cfg \<Rightarrow> u32 \<Rightarrow> u32 \<Rightarrow> 'd machine \<Rightarrow> 'd machine" where
  "addReadCycles C = addReadAccessCycles (cc_platform C) 1"

definition addWriteBackCycles :: "cache_cfg \<Rightarrow> u32 \<Rightarrow> 'd machine \<Rightarrow> 'd machine" where
  "addWriteBackCycles C addr s =
    (let now = cycles_now s; wb = writeBackBufferCycles (m_cache s);
         s1 = (if now < wb then addCycles (ucast (wb - now)) s else s)
     in m_cache_update (writeBackBufferCycles_update (\<lambda>_. now + scast (writeAccessCycles (cc_platform C) 1 addr 32))) s1)"

definition addWriteThroughCycles :: "cache_cfg \<Rightarrow> u32 \<Rightarrow> u32 \<Rightarrow> 'd machine \<Rightarrow> 'd machine" where
  "addWriteThroughCycles C addr sz s =
    (let now = cycles_now s; wt = writeThroughBufferCycles (m_cache s);
         s1 = (if now < wt then addCycles (ucast (wt - now)) s else s);
         cycles = writeAccessCycles (cc_platform C) 1 addr (min sz 8);
         s2 = (if sz = 32 then addCycles (cycles * 3) s1 else s1)
     in m_cache_update (writeThroughBufferCycles_update (\<lambda>_. now + scast cycles)) s2)"

text \<open>Filling a line: from the host pointer, or by eight words through the address space.\<close>

fun fill_words :: "'d env \<Rightarrow> 9 word \<Rightarrow> u32 \<Rightarrow> nat list \<Rightarrow> ('d, unit) SM" where
  "fill_words E i line_addr [] = returnM ()"
| "fill_words E i line_addr (k # ks) = bindM (readt32 E (line_addr + of_nat k)) (\<lambda>v.
     bindM (modifyM (upd_oline i (ol_data_update (line_st (acc32 E) (of_nat k) v)))) (\<lambda>_. fill_words E i line_addr ks))"

definition word_offsets :: "nat list" where
  "word_offsets = [0, 4, 8, 12, 16, 20, 24, 28]"

definition readCacheLine :: "cache_cfg \<Rightarrow> 'd env \<Rightarrow> u32 \<Rightarrow> 9 word \<Rightarrow> ('d, unit) SM" where
  "readCacheLine C E address i s =
    (let line_addr = address AND NOT 0x1f;
         s1 = upd_oline i (ol_dirty_update (\<lambda>_. False)) (upd_oline i (ol_valid_update (\<lambda>_. True)) s)
     in bindM (case GetMemPtr (cc_areas C) line_addr 32 of
           Some off \<Rightarrow> modifyM (\<lambda>s. upd_oline i (ol_data_update (\<lambda>_. get_line off (m_mem s (a_ram (cc_areas C))))) s)
         | None \<Rightarrow> fill_words E i line_addr word_offsets)
         (\<lambda>_. modifyM (addReadCycles C address 32)) s1)"

fun flush_words :: "'d env \<Rightarrow> 9 word \<Rightarrow> u32 \<Rightarrow> nat list \<Rightarrow> ('d, unit) SM" where
  "flush_words E i line_addr [] = returnM ()"
| "flush_words E i line_addr (k # ks) =
     bindM (\<lambda>s. writet32 E (line_addr + of_nat k) (line_ld (acc32 E) (ol_data (oline i s)) (of_nat k)) s)
       (\<lambda>_. flush_words E i line_addr ks)"

definition line_address :: "9 word \<Rightarrow> ocache_line \<Rightarrow> u32" where
  "line_address i l = push_bit 10 (ol_address l) OR push_bit 5 (ucast i AND 0x1F)"

definition doWriteBack :: "cache_cfg \<Rightarrow> 'd env \<Rightarrow> 9 word \<Rightarrow> ('d, unit) SM" where
  "doWriteBack C E i s =
    (if CCR_ORA (CCR s) \<noteq> 0 \<and> i AND 0x80 \<noteq> 0 then Ret () s
     else let line_addr = line_address i (oline i s)
       in bindM (case GetMemPtr (cc_areas C) line_addr 32 of
             Some off \<Rightarrow> modifyM (\<lambda>s. upd_block (a_ram (cc_areas C)) (put_line off (ol_data (oline i s))) s)
           | None \<Rightarrow> flush_words E i line_addr word_offsets)
           (\<lambda>_. modifyM (addWriteBackCycles C line_addr)) s)"

section \<open>Operations of the operand cache\<close>

text \<open>The steps of a miss: the old line is written back if it must be, and the new one is read.\<close>

definition oc_replace :: "cache_cfg \<Rightarrow> 'd env \<Rightarrow> 9 word \<Rightarrow> u32 \<Rightarrow> ('d, unit) SM" where
  "oc_replace C E i physAddr s =
    bindM (if ol_dirty (oline i s) \<and> ol_valid (oline i s) then doWriteBack C E i else returnM ()) (\<lambda>_.
    bindM (modifyM (upd_oline i (ol_address_update (\<lambda>_. tag_of physAddr)))) (\<lambda>_.
    readCacheLine C E physAddr i)) s"

definition oc_hit :: "9 word \<Rightarrow> u32 \<Rightarrow> 'd machine \<Rightarrow> bool" where
  "oc_hit i physAddr s \<longleftrightarrow> ol_valid (oline i s) \<and> tag_of physAddr = ol_address (oline i s)"

definition oc_ReadMem :: "cache_cfg \<Rightarrow> 'd env \<Rightarrow> ('d, 'v) access \<Rightarrow> u32 \<Rightarrow> ('d, 'v) SM" where
  "oc_ReadMem C E A address s =
    (case oc_translate False (ac_size A) address s of ((err, physAddr, cacheOn, _), s1) \<Rightarrow>
     if err \<noteq> NONE then mmu_raise_exception err address MMU_TT_DREAD s1
     else if \<not> cacheOn then ac_read A physAddr (addReadCycles C physAddr (ac_size A) s1)
     else let i = lineIndex address s1
       in bindM (if oc_hit i physAddr s1 then returnM () else oc_replace C E i physAddr)
            (\<lambda>_. getM (\<lambda>s. line_ld A (ol_data (oline i s)) physAddr)) s1)"

definition oc_WriteMem :: "cache_cfg \<Rightarrow> 'd env \<Rightarrow> ('d, 'v) access \<Rightarrow> u32 \<Rightarrow> 'v \<Rightarrow> ('d, unit) SM" where
  "oc_WriteMem C E A address data s =
    (case oc_translate True (ac_size A) address s of ((err, physAddr, cacheOn, copyBack), s1) \<Rightarrow>
     if err \<noteq> NONE then mmu_raise_exception err address MMU_TT_DWRITE s1
     else if \<not> cacheOn then ac_write A physAddr data (addWriteThroughCycles C physAddr (ac_size A) s1)
     else let i = lineIndex address s1; store = upd_oline i (ol_data_update (line_st A physAddr data))
       in bindM
            (if \<not> oc_hit i physAddr s1
             then if copyBack then oc_replace C E i physAddr else returnM ()
             else if \<not> copyBack then modifyM store else returnM ())
            (\<lambda>_. if copyBack then modifyM (\<lambda>s. store (upd_oline i (ol_dirty_update (\<lambda>_. True)) s))
                 else bindM (ac_write A physAddr data) (\<lambda>_. modifyM (addWriteThroughCycles C physAddr (ac_size A)))) s1)"

definition oc_WriteBack :: "cache_cfg \<Rightarrow> 'd env \<Rightarrow> u32 \<Rightarrow> bool \<Rightarrow> bool \<Rightarrow> ('d, unit) SM" where
  "oc_WriteBack C E address write_back invalidate s =
    (case oc_translate True 1 address s of ((err, physAddr, cached, _), s1) \<Rightarrow>
     if err \<noteq> NONE then mmu_raise_exception err address MMU_TT_DWRITE s1
     else if \<not> cached then Ret () s1
     else let i = lineIndex address s1
       in if \<not> oc_hit i physAddr s1 then Ret () s1
          else bindM (if write_back \<and> ol_dirty (oline i s1) then doWriteBack C E i else returnM ())
            (\<lambda>_. modifyM (\<lambda>s. upd_oline i (ol_dirty_update (\<lambda>_. False)) (upd_oline i (ol_valid_update (\<lambda>_. \<not> invalidate)) s))) s1)"

definition oc_Prefetch :: "cache_cfg \<Rightarrow> 'd env \<Rightarrow> u32 \<Rightarrow> ('d, unit) SM" where
  "oc_Prefetch C E addr s =
    (let address = addr AND NOT 0x1F
     in case oc_translate False 1 address s of ((err, physAddr, cached, _), s1) \<Rightarrow>
        if err \<noteq> NONE \<or> \<not> cached then Ret () s1
        else let i = lineIndex address s1
          in if oc_hit i physAddr s1 then Ret () s1 else oc_replace C E i physAddr s1)"

definition oc_Invalidate :: "'d machine \<Rightarrow> 'd machine" where
  "oc_Invalidate = m_cache_update (ocache_lines_update (\<lambda>L i. (L i)\<lparr>ol_dirty := False, ol_valid := False\<rparr>))"

definition zero_oline :: ocache_line where
  "zero_oline = \<lparr>ol_valid = False, ol_dirty = False, ol_address = 0, ol_data = (\<lambda>_. 0)\<rparr>"

definition oc_Reset :: "bool \<Rightarrow> 'd machine \<Rightarrow> 'd machine" where
  "oc_Reset hard = (if hard then m_cache_update (ocache_lines_update (\<lambda>_ _. zero_oline)) else (\<lambda>s. s))"

fun write_back_lines :: "cache_cfg \<Rightarrow> 'd env \<Rightarrow> 9 word list \<Rightarrow> ('d, unit) SM" where
  "write_back_lines C E [] = returnM ()"
| "write_back_lines C E (i # is) =
     bindM (\<lambda>s. if ol_valid (oline i s) \<and> ol_dirty (oline i s) then doWriteBack C E i s else Ret () s) (\<lambda>_.
     bindM (modifyM (\<lambda>s. upd_oline i (ol_dirty_update (\<lambda>_. False)) (upd_oline i (ol_valid_update (\<lambda>_. False)) s)))
       (\<lambda>_. write_back_lines C E is))"

definition WriteBackAll :: "cache_cfg \<Rightarrow> 'd env \<Rightarrow> ('d, unit) SM" where
  "WriteBackAll C E = write_back_lines C E (map of_nat [0..<512])"

section \<open>The arrays of the operand cache in P4\<close>

definition array_word_ld :: "(5 word \<Rightarrow> u8) \<Rightarrow> u32 \<Rightarrow> u32" where
  "array_word_ld d addr = ld32 (\<lambda>x. d (ucast x)) (addr AND 0x1C)"

definition array_word_st :: "u32 \<Rightarrow> u32 \<Rightarrow> (5 word \<Rightarrow> u8) \<Rightarrow> 5 word \<Rightarrow> u8" where
  "array_word_st addr v d = (\<lambda>k. st32 (addr AND 0x1C) v (\<lambda>x. d (ucast x)) (ucast k))"

definition oc_ReadAddressArray :: "u32 \<Rightarrow> 'd machine \<Rightarrow> u32" where
  "oc_ReadAddressArray addr s =
    (let l = oline (ucast (drop_bit 5 addr)) s
     in of_bool (ol_valid l) OR push_bit 1 (of_bool (ol_dirty l)) OR push_bit 10 (ol_address l))"

definition oc_set_flags :: "9 word \<Rightarrow> u32 \<Rightarrow> 'd machine \<Rightarrow> 'd machine" where
  "oc_set_flags i data s = upd_oline i (ol_dirty_update (\<lambda>_. bit data 1)) (upd_oline i (ol_valid_update (\<lambda>_. bit data 0)) s)"

definition oc_WriteAddressArray :: "cache_cfg \<Rightarrow> 'd env \<Rightarrow> u32 \<Rightarrow> u32 \<Rightarrow> ('d, unit) SM" where
  "oc_WriteAddressArray C E addr data s =
    (let i = ucast (drop_bit 5 addr); vaddr = data AND NOT 0x3ff
     in if addr AND 8 = 0 then
          bindM (if ol_valid (oline i s) \<and> ol_dirty (oline i s) then doWriteBack C E i else returnM ()) (\<lambda>_.
          bindM (modifyM (upd_oline i (ol_address_update (\<lambda>_. drop_bit 10 data AND 0x7ffff))))
            (\<lambda>_. modifyM (oc_set_flags i data))) s
        else case oc_translate False 1 vaddr s of ((err, physAddr, _, _), s1) \<Rightarrow>
          if err = TLB_MISS then Ret () s1
          else if err \<noteq> NONE then mmu_raise_exception err vaddr MMU_TT_DREAD s1
          else if \<not> oc_hit i physAddr s1 then Ret () s1
          else bindM (if data AND 3 \<noteq> 0 \<and> ol_dirty (oline i s1) then doWriteBack C E i else returnM ())
            (\<lambda>_. modifyM (oc_set_flags i data)) s1)"

definition oc_ReadDataArray :: "u32 \<Rightarrow> 'd machine \<Rightarrow> u32" where
  "oc_ReadDataArray addr s = array_word_ld (ol_data (oline (ucast (drop_bit 5 addr)) s)) addr"

definition oc_WriteDataArray :: "u32 \<Rightarrow> u32 \<Rightarrow> 'd machine \<Rightarrow> 'd machine" where
  "oc_WriteDataArray addr data = upd_oline (ucast (drop_bit 5 addr)) (ol_data_update (array_word_st addr data))"

section \<open>The instruction cache\<close>

definition iline :: "8 word \<Rightarrow> 'd machine \<Rightarrow> icache_line" where
  "iline i s = icache_lines (m_cache s) i"

definition upd_iline :: "8 word \<Rightarrow> (icache_line \<Rightarrow> icache_line) \<Rightarrow> 'd machine \<Rightarrow> 'd machine" where
  "upd_iline i f = m_cache_update (icache_lines_update (\<lambda>L. L(i := f (L i))))"

definition ilineIndex :: "u32 \<Rightarrow> 'd machine \<Rightarrow> 8 word" where
  "ilineIndex address s = ucast (if CCR_IIX (CCR s) \<noteq> 0
     then (drop_bit 5 address AND 0x7f) OR (drop_bit 18 address AND 0x80)
     else drop_bit 5 address AND 0xff)"

fun ifill_words :: "'d env \<Rightarrow> 8 word \<Rightarrow> u32 \<Rightarrow> nat list \<Rightarrow> ('d, unit) SM" where
  "ifill_words E i line_addr [] = returnM ()"
| "ifill_words E i line_addr (k # ks) = bindM (readt32 E (line_addr + of_nat k)) (\<lambda>v.
     bindM (modifyM (upd_iline i (il_data_update (line_st (acc32 E) (of_nat k) v)))) (\<lambda>_. ifill_words E i line_addr ks))"

definition ic_replace :: "cache_cfg \<Rightarrow> 'd env \<Rightarrow> 8 word \<Rightarrow> u32 \<Rightarrow> ('d, unit) SM" where
  "ic_replace C E i physAddr s =
    (let line_addr = physAddr AND NOT 0x1f;
         s1 = upd_iline i (il_address_update (\<lambda>_. tag_of physAddr)) (upd_iline i (il_valid_update (\<lambda>_. True)) s)
     in bindM (case GetMemPtr (cc_areas C) line_addr 32 of
           Some off \<Rightarrow> modifyM (\<lambda>s. upd_iline i (il_data_update (\<lambda>_. get_line off (m_mem s (a_ram (cc_areas C))))) s)
         | None \<Rightarrow> ifill_words E i line_addr word_offsets)
         (\<lambda>_. modifyM (addReadCycles C physAddr 32)) s1)"

definition ic_ReadMem :: "cache_cfg \<Rightarrow> 'd env \<Rightarrow> u32 \<Rightarrow> ('d, u16) SM" where
  "ic_ReadMem C E address = bindM (ic_translate address) (\<lambda>(err, physAddr, cacheOn) s.
     if err \<noteq> NONE then mmu_raise_exception err address MMU_TT_IREAD s
     else if \<not> cacheOn then readt16 E physAddr (addReadCycles C physAddr 2 s)
     else let i = ilineIndex address s
       in bindM (if il_valid (iline i s) \<and> tag_of physAddr = il_address (iline i s) then returnM ()
                 else ic_replace C E i physAddr)
            (\<lambda>_. getM (\<lambda>s. line_ld (acc16 E) (il_data (iline i s)) physAddr)) s)"

definition ic_Invalidate :: "'d machine \<Rightarrow> 'd machine" where
  "ic_Invalidate = m_cache_update (icache_lines_update (\<lambda>L i. (L i)\<lparr>il_valid := False\<rparr>))"

definition ic_Reset :: "bool \<Rightarrow> 'd machine \<Rightarrow> 'd machine" where
  "ic_Reset hard = (if hard
     then m_cache_update (icache_lines_update (\<lambda>_ _. \<lparr>il_valid = False, il_address = 0, il_data = (\<lambda>_. 0)\<rparr>))
     else (\<lambda>s. s))"

definition ic_ReadAddressArray :: "u32 \<Rightarrow> 'd machine \<Rightarrow> u32" where
  "ic_ReadAddressArray addr s =
    (let l = iline (ucast (drop_bit 5 addr)) s in of_bool (il_valid l) OR push_bit 10 (il_address l))"

definition ic_WriteAddressArray :: "u32 \<Rightarrow> u32 \<Rightarrow> ('d, unit) SM" where
  "ic_WriteAddressArray addr data s =
    (let i = ucast (drop_bit 5 addr); vaddr = data AND NOT 0x3ff
     in if addr AND 8 = 0 then
          Ret () (upd_iline i (il_address_update (\<lambda>_. drop_bit 10 data AND 0x7ffff))
            (upd_iline i (il_valid_update (\<lambda>_. bit data 0)) s))
        else bindM (ic_translate vaddr) (\<lambda>(err, physAddr, _) s1.
          if err = TLB_MISS then Ret () s1
          else if err \<noteq> NONE then mmu_raise_exception err vaddr MMU_TT_IREAD s1
          else if \<not> il_valid (iline i s1) \<or> tag_of physAddr \<noteq> il_address (iline i s1) then Ret () s1
          else Ret () (upd_iline i (il_valid_update (\<lambda>_. bit data 0)) s1)) s)"

definition ic_ReadDataArray :: "u32 \<Rightarrow> 'd machine \<Rightarrow> u32" where
  "ic_ReadDataArray addr s = array_word_ld (il_data (iline (ucast (drop_bit 5 addr)) s)) addr"

definition ic_WriteDataArray :: "u32 \<Rightarrow> u32 \<Rightarrow> 'd machine \<Rightarrow> 'd machine" where
  "ic_WriteDataArray addr data = upd_iline (ucast (drop_bit 5 addr)) (il_data_update (array_word_st addr data))"

section \<open>Bytes of an access\<close>

text \<open>An access is a run of bytes: what \<open>ld\<close> reads and what \<open>st\<close> writes.\<close>

definition byte_access :: "('d, 'v) access \<Rightarrow> (nat \<Rightarrow> 'v \<Rightarrow> u8) \<Rightarrow> bool" where
  "byte_access A byt \<longleftrightarrow> (\<exists>n\<le>3. ac_size A = 2 ^ n) \<and>
     (\<forall>f g a b. (\<forall>k < unat (ac_size A). f (a + of_nat k) = g (b + of_nat k)) \<longrightarrow> ac_ld A f a = ac_ld A g b) \<and>
     (\<forall>a v f x. ac_st A a v f x = (if x - a < ac_size A then byt (unat (x - a)) v else f x))"

definition byte_of :: "nat \<Rightarrow> 'a::len word \<Rightarrow> u8" where
  "byte_of k v = ucast (drop_bit (8 * k) v)"

lemma st16_bytes: "st16 a v f x = (if x - a < 2 then byte_of (unat (x - a)) v else f x)"
proof -
  have "x - a < 2 \<longleftrightarrow> x = a \<or> x = a + 1"
  proof -
    have "x - a < 2 \<longleftrightarrow> x - a = 0 \<or> x - a = 1" by (auto simp: word_less_nat_alt unat_eq_0 [symmetric] less_2_cases_iff word_unat_eq_iff)
    then show ?thesis by (auto simp: algebra_simps)
  qed
  then show ?thesis by (auto simp: st16_def byte_of_def)
qed


lemma sub_less_range:
  assumes "0 < m" "m < 100"
  shows "(d :: u32) - m < m \<longleftrightarrow> m \<le> d \<and> d < 2 * m" "m \<le> d \<Longrightarrow> unat (d - m) = unat d - unat m"
proof -
  have m: "0 < unat m" "unat m < 100" using assms by (simp_all add: word_less_nat_alt)
  show le: "m \<le> d \<Longrightarrow> unat (d - m) = unat d - unat m" by (simp add: unat_sub)
  have m2: "unat (2 * m) = 2 * unat m" using m by (simp add: unat_word_ariths)
  show "d - m < m \<longleftrightarrow> m \<le> d \<and> d < 2 * m"
  proof (cases "m \<le> d")
    case True
    then show ?thesis using le m2 by (auto simp: word_less_nat_alt word_le_nat_alt)
  next
    case False
    then have "unat d < unat m" by (simp add: word_le_nat_alt)
    then have "unat (d - m) = 2 ^ 32 + unat d - unat m" by (simp add: unat_sub_if' False word_le_nat_alt)
    then show ?thesis using False m by (simp add: word_less_nat_alt)
  qed
qed

lemma byte_of_halves:
  fixes v :: "'a::len word" and w :: "'b::len word"
  shows "8 * k + 8 \<le> LENGTH('b) \<Longrightarrow> byte_of k (ucast v :: 'b word) = byte_of k v"
    and "m \<le> k \<Longrightarrow> 8 * (k - m) + 8 \<le> LENGTH('b) \<Longrightarrow> byte_of (k - m) (ucast (drop_bit (8 * m) v) :: 'b word) = byte_of k v"
proof -
  show "byte_of k (ucast v :: 'b word) = byte_of k v" if "8 * k + 8 \<le> LENGTH('b)"
    using that by (intro bit_word_eqI) (auto simp: byte_of_def bit_ucast_iff bit_drop_bit_eq)
  show "byte_of (k - m) (ucast (drop_bit (8 * m) v) :: 'b word) = byte_of k v" if "m \<le> k" "8 * (k - m) + 8 \<le> LENGTH('b)"
  proof (rule bit_word_eqI)
    fix n assume "n < LENGTH(8)"
    then have "bit (byte_of (k - m) (ucast (drop_bit (8 * m) v) :: 'b word)) n = bit v (8 * m + (8 * (k - m) + n))"
      using that(2) by (simp add: byte_of_def bit_ucast_iff bit_drop_bit_eq)
    also have "8 * m + (8 * (k - m) + n) = 8 * k + n" using that(1) by simp
    also have "bit v (8 * k + n) = bit (byte_of k v) n"
      using \<open>n < LENGTH(8)\<close> by (simp add: byte_of_def bit_ucast_iff bit_drop_bit_eq)
    finally show "bit (byte_of (k - m) (ucast (drop_bit (8 * m) v) :: 'b word)) n = bit (byte_of k v) n" .
  qed
qed

lemma st32_bytes: "st32 a v f x = (if x - a < 4 then byte_of (unat (x - a)) v else f x)"
proof -
  have d: "x - (a + 2) = (x - a) - 2" by simp
  note r = sub_less_range [of 2 "x - a"]
  consider "2 \<le> x - a" "x - a < 4" | "x - a < 2" | "\<not> x - a < 4"
    by (meson not_le)
  then show ?thesis
  proof cases
    case 1
    then have "unat (x - a) - 2 < 2" by (simp add: word_less_nat_alt)
    then show ?thesis
      unfolding st32_def st16_bytes d using 1 r byte_of_halves(2) [where v = v and m = 2 and k = "unat (x - a)" and 'b = 16]
      by (simp add: word_le_nat_alt)
  next
    case 2
    then have "unat (x - a) < 2" "x - a < 4" "\<not> 2 \<le> x - a" by (simp_all add: word_less_nat_alt word_le_nat_alt)
    then show ?thesis
      unfolding st32_def st16_bytes d using 2 r byte_of_halves(1) [where v = v and k = "unat (x - a)" and 'b = 16]
      by simp
  next
    case 3
    then have "\<not> x - a < 2" by (simp add: word_less_nat_alt)
    then show ?thesis unfolding st32_def st16_bytes d using 3 r by simp
  qed
qed

lemma st64_bytes: "st64 a v f x = (if x - a < 8 then byte_of (unat (x - a)) v else f x)"
proof -
  have d: "x - (a + 4) = (x - a) - 4" by simp
  note r = sub_less_range [of 4 "x - a"]
  consider "4 \<le> x - a" "x - a < 8" | "x - a < 4" | "\<not> x - a < 8"
    by (meson not_le)
  then show ?thesis
  proof cases
    case 1
    then have "unat (x - a) - 4 < 4" by (simp add: word_less_nat_alt)
    then show ?thesis
      unfolding st64_def st32_bytes d using 1 r byte_of_halves(2) [where v = v and m = 4 and k = "unat (x - a)" and 'b = 32]
      by (simp add: word_le_nat_alt)
  next
    case 2
    then have "unat (x - a) < 4" "x - a < 8" "\<not> 4 \<le> x - a" by (simp_all add: word_less_nat_alt word_le_nat_alt)
    then show ?thesis
      unfolding st64_def st32_bytes d using 2 r byte_of_halves(1) [where v = v and k = "unat (x - a)" and 'b = 32]
      by simp
  next
    case 3
    then have "\<not> x - a < 4" by (simp add: word_less_nat_alt)
    then show ?thesis unfolding st64_def st32_bytes d using 3 r by simp
  qed
qed

lemma ld_shift:
  "f a = g b \<Longrightarrow> f (a + 1) = g (b + 1) \<Longrightarrow> ld16 f a = ld16 g b"
  "ld16 f a = ld16 g b \<Longrightarrow> ld16 f (a + 2) = ld16 g (b + 2) \<Longrightarrow> ld32 f a = ld32 g b"
  "ld32 f a = ld32 g b \<Longrightarrow> ld32 f (a + 4) = ld32 g (b + 4) \<Longrightarrow> ld64 f a = ld64 g b"
  by (simp_all add: ld16_def ld32_def ld64_def)

lemma ld_bytes:
  fixes f g :: "u32 \<Rightarrow> u8"
  shows "(\<And>k. k < 2 \<Longrightarrow> f (a + of_nat k) = g (b + of_nat k)) \<Longrightarrow> ld16 f a = ld16 g b"
    and "(\<And>k. k < 4 \<Longrightarrow> f (a + of_nat k) = g (b + of_nat k)) \<Longrightarrow> ld32 f a = ld32 g b"
    and "(\<And>k. k < 8 \<Longrightarrow> f (a + of_nat k) = g (b + of_nat k)) \<Longrightarrow> ld64 f a = ld64 g b"
proof -
  show l16: "ld16 f a = ld16 g b" if "\<And>k. k < 2 \<Longrightarrow> f (a + of_nat k) = g (b + of_nat k)" for a b
    using that [of 0] that [of 1] by (intro ld_shift) simp_all
  show l32: "ld32 f a = ld32 g b" if h: "\<And>k. k < 4 \<Longrightarrow> f (a + of_nat k) = g (b + of_nat k)" for a b
    using h [of "k + 2" for k] by (intro ld_shift(2) l16 h) (simp_all add: ac_simps)
  show "ld64 f a = ld64 g b" if h: "\<And>k. k < 8 \<Longrightarrow> f (a + of_nat k) = g (b + of_nat k)"
    using h [of "k + 4" for k] by (intro ld_shift(3) l32 h) (simp_all add: ac_simps)
qed

lemma byte_access_sizes:
  "byte_access (acc8 E) byte_of" "byte_access (acc16 E) byte_of"
  "byte_access (acc32 E) byte_of" "byte_access (acc64 E) byte_of"
proof -
  have one: "x - a < 1 \<longleftrightarrow> x = a" for x a :: u32
    by (simp add: word_less_nat_alt unat_eq_0)
  have pow: "\<exists>n\<le>3. (1 :: u32) = 2 ^ n" "\<exists>n\<le>3. (2 :: u32) = 2 ^ n" "\<exists>n\<le>3. (4 :: u32) = 2 ^ n" "\<exists>n\<le>3. (8 :: u32) = 2 ^ n"
    by (rule exI [of _ 0], simp) (rule exI [of _ 1], simp, rule exI [of _ 2], simp, rule exI [of _ 3], simp)
  show "byte_access (acc8 E) byte_of"
    unfolding byte_access_def
  proof (intro conjI allI impI)
    fix f g :: "u32 \<Rightarrow> u8" and a b
    assume "\<forall>k<unat (ac_size (acc8 E)). f (a + of_nat k) = g (b + of_nat k)"
    then show "ac_ld (acc8 E) f a = ac_ld (acc8 E) g b" by (simp add: acc8_def)
  qed (use pow(1) one in \<open>simp_all add: acc8_def byte_of_def\<close>)
  show "byte_access (acc16 E) byte_of"
    unfolding byte_access_def
  proof (intro conjI allI impI)
    fix f g :: "u32 \<Rightarrow> u8" and a b
    assume "\<forall>k<unat (ac_size (acc16 E)). f (a + of_nat k) = g (b + of_nat k)"
    then show "ac_ld (acc16 E) f a = ac_ld (acc16 E) g b" using ld_bytes(1) [of f a g b] by (simp add: acc16_def)
  qed (use pow(2) in \<open>simp_all add: acc16_def st16_bytes\<close>)
  show "byte_access (acc32 E) byte_of"
    unfolding byte_access_def
  proof (intro conjI allI impI)
    fix f g :: "u32 \<Rightarrow> u8" and a b
    assume "\<forall>k<unat (ac_size (acc32 E)). f (a + of_nat k) = g (b + of_nat k)"
    then show "ac_ld (acc32 E) f a = ac_ld (acc32 E) g b" using ld_bytes(2) [of f a g b] by (simp add: acc32_def)
  qed (use pow(3) in \<open>simp_all add: acc32_def st32_bytes\<close>)
  show "byte_access (acc64 E) byte_of"
    unfolding byte_access_def
  proof (intro conjI allI impI)
    fix f g :: "u32 \<Rightarrow> u8" and a b
    assume "\<forall>k<unat (ac_size (acc64 E)). f (a + of_nat k) = g (b + of_nat k)"
    then show "ac_ld (acc64 E) f a = ac_ld (acc64 E) g b" using ld_bytes(3) [of f a g b] by (simp add: acc64_def)
  qed (use pow(4) in \<open>simp_all add: acc64_def st64_bytes\<close>)
qed

end
