(* ===== verification/Sh4_Cache_Lines.thy ===== *)
theory Sh4_Cache_Lines
  imports Sh4_Cache
begin

unbundle bit_operations_syntax

text \<open>
  Lines of the operand cache over main memory, without the machine: which bytes a line holds, the
  invariant of the lines, and what giving up, reading in and writing a line does to the memory
  the processor sees. A byte is seen in the line its address selects when this line is a hit, and
  in main memory otherwise.
\<close>

section \<open>The index and the tag\<close>

definition p_idx :: "u32 \<Rightarrow> u32 \<Rightarrow> 9 word" where
  "p_idx ccr x = ucast (if CCR_OIX ccr \<noteq> 0
     then (drop_bit 17 x AND 0x100) OR (drop_bit 5 x AND 0xff) else drop_bit 5 x AND 0x1ff)"

lemma cache_masks:
  "(0x1F :: u32) = mask 5" "(0x7ffff :: u32) = mask 19" "(0xff :: u32) = mask 8" "(0x1ff :: u32) = mask 9"
  "(0x100 :: u32) = push_bit 8 (mask 1)" "(0x1FFFFFE0 :: u32) = push_bit 5 (mask 24)" "(0x1FFFFFFF :: u32) = mask 29"
  by (simp_all add: mask_eq_exp_minus_1 push_bit_eq_mult)

lemma p_idx_cases:
  "CCR_OIX ccr = 0 \<Longrightarrow> p_idx ccr x = ucast (take_bit 9 (drop_bit 5 x))"
  "CCR_OIX ccr \<noteq> 0 \<Longrightarrow> p_idx ccr x = ucast (push_bit 8 (take_bit 1 (drop_bit 25 x)) OR take_bit 8 (drop_bit 5 x))"
proof -
  show "p_idx ccr x = ucast (take_bit 9 (drop_bit 5 x))" if "CCR_OIX ccr = 0"
    using that by (simp only: p_idx_def cache_masks if_False if_True simp_thms not_False_eq_True take_bit_eq_mask)
  have "drop_bit 17 x AND push_bit 8 (mask 1) = push_bit 8 (take_bit 1 (drop_bit 25 x))"
    by (rule bit_word_eqI) (simp only: word_bits, auto)
  then show "p_idx ccr x = ucast (push_bit 8 (take_bit 1 (drop_bit 25 x)) OR take_bit 8 (drop_bit 5 x))" if "CCR_OIX ccr \<noteq> 0"
    using that by (simp only: p_idx_def cache_masks if_False if_True simp_thms not_False_eq_True take_bit_eq_mask)
qed

lemma p_idx_bit:
  "bit (p_idx ccr x) n \<longleftrightarrow> n < 9 \<and> (if n = 8 \<and> CCR_OIX ccr \<noteq> 0 then bit x 25 else bit x (n + 5))"
proof (cases "CCR_OIX ccr = 0")
  case True
  then show ?thesis unfolding p_idx_cases(1) [OF True] bit_ucast_iff bit_take_bit_iff bit_drop_bit_eq comp_def
    by (cases "n < 9") (simp_all add: add.commute)
next
  case False
  consider "n = 8" | "n < 8" | "8 < n" by linarith
  then show ?thesis
    unfolding p_idx_cases(2) [OF False] bit_ucast_iff bit_take_bit_iff bit_drop_bit_eq bit_or_iff bit_push_bit_iff comp_def
    using False by cases (simp_all add: add.commute)
qed

lemma lk_bit: "bit (x AND 0x1FFFFFE0 :: u32) n \<longleftrightarrow> 5 \<le> n \<and> n < 29 \<and> bit x n"
  unfolding cache_masks by (simp only: word_bits bit_ucast_iff) auto

lemma tag_bit: "bit (tag_of x) n \<longleftrightarrow> n < 19 \<and> bit x (n + 10)"
  unfolding tag_of_def cache_masks by (simp only: word_bits bit_ucast_iff) (auto simp: add.commute)


lemma p_idx_lk: "p_idx ccr (x AND 0x1FFFFFE0) = p_idx ccr x"
  by (rule bit_word_eqI) (auto simp: p_idx_bit lk_bit)

lemma p_idx_29: "p_idx ccr (x AND 0x1FFFFFFF) = p_idx ccr x"
proof -
  have "(x AND 0x1FFFFFFF) AND 0x1FFFFFE0 = x AND 0x1FFFFFE0" by (simp add: and.assoc)
  then show ?thesis using p_idx_lk [of ccr "x AND 0x1FFFFFFF"] p_idx_lk [of ccr x] by simp
qed

text \<open>The address a line stands for: the tag and five bits of the index.\<close>

lemma line_address_bit:
  "bit (line_address i l) n \<longleftrightarrow> n < 32 \<and> (if n < 10 then 5 \<le> n \<and> bit i (n - 5) else bit (ol_address l) (n - 10))"
proof -
  have i: "ucast i AND 0x1F = (take_bit 5 (ucast i) :: u32)" by (simp only: cache_masks take_bit_eq_mask)
  consider "32 \<le> n" | "10 \<le> n" "n < 32" | "n < 10" by linarith
  then show ?thesis
    unfolding line_address_def i bit_or_iff bit_push_bit_iff bit_take_bit_iff bit_ucast_iff
    by cases (auto dest: bit_imp_le_length)
qed

lemma line_address_fill: "ol_address l = tag_of x \<Longrightarrow> line_address (p_idx ccr x) l = x AND 0x1FFFFFE0"
  by (rule bit_word_eqI) (auto simp: line_address_bit lk_bit tag_bit p_idx_bit)

lemma hit_line:
  assumes "ol_address l < 2 ^ 19" "i = p_idx ccr x"
  shows "tag_of x = ol_address l \<longleftrightarrow> line_address i l = x AND 0x1FFFFFE0"
proof
  show "line_address i l = x AND 0x1FFFFFE0" if "tag_of x = ol_address l"
    using that assms(2) line_address_fill by simp
  assume h: "line_address i l = x AND 0x1FFFFFE0"
  show "tag_of x = ol_address l"
  proof (rule bit_word_eqI)
    fix n
    have "ol_address l = take_bit 19 (ol_address l)"
      using assms(1) by (intro word_unat_eq_iff [THEN iffD2]) (simp add: unsigned_take_bit_eq take_bit_nat_eq_self word_less_nat_alt)
    then have "bit (ol_address l) n \<longleftrightarrow> n < 19 \<and> bit (ol_address l) n" by (metis bit_take_bit_iff)
    moreover have "n < 19 \<Longrightarrow> bit (ol_address l) n \<longleftrightarrow> bit x (n + 10)"
      using arg_cong [OF h, of "\<lambda>w. bit w (n + 10)"] by (simp add: line_address_bit lk_bit)
    ultimately show "bit (tag_of x) n = bit (ol_address l) n" by (auto simp: tag_bit)
  qed
qed

text \<open>Lines of a store.\<close>

lemma line_off_bit: "bit (x AND NOT 0x1F :: u32) n \<longleftrightarrow> n < 32 \<and> 5 \<le> n \<and> bit x n"
  unfolding cache_masks by (simp only: word_bits) (auto dest: bit_imp_le_length)

lemma line_split: "(x AND NOT 0x1F) + ucast (ucast x :: 5 word) = (x :: u32)"
proof -
  define y where "y = x AND NOT 0x1F"
  have y: "bit y n \<longleftrightarrow> n < 32 \<and> 5 \<le> n \<and> bit x n" for n unfolding y_def by (rule line_off_bit)
  have u: "bit (ucast (ucast x :: 5 word) :: u32) n \<longleftrightarrow> n < 5 \<and> bit x n" for n
    by (auto simp: bit_ucast_iff dest: bit_imp_le_length)
  have "y AND ucast (ucast x :: 5 word) = 0"
    by (rule bit_word_eqI) (simp add: bit_and_iff y u)
  then have "y + ucast (ucast x :: 5 word) = y OR ucast (ucast x :: 5 word)"
    by (rule disjunctive_add_eq_or)
  also have "\<dots> = x" by (rule bit_word_eqI) (auto simp: bit_or_iff y u)
  finally show ?thesis unfolding y_def .
qed

lemma in_line:
  fixes x off :: u32
  assumes "off AND NOT 0x1F = off"
  shows "x - off < 32 \<longleftrightarrow> x AND NOT 0x1F = off" "x AND NOT 0x1F = off \<Longrightarrow> ucast (x - off) = (ucast x :: 5 word)"
    "x AND NOT 0x1F = off \<Longrightarrow> off + ucast (ucast x :: 5 word) = x"
proof -
  have m: "unat (ucast (k :: 5 word) :: u32) < 32" for k
    using unsigned_less [of k, where 'a = nat] by (simp add: unsigned_ucast_eq take_bit_nat_eq_self)
  show l: "x AND NOT 0x1F = off \<Longrightarrow> off + ucast (ucast x :: 5 word) = x" using line_split [of x] by simp
  have d: "x - off = ucast (ucast x :: 5 word)" if "x AND NOT 0x1F = off"
    using line_split [of x] that by (metis add_diff_cancel_left')
  have "ucast (ucast (ucast x :: 5 word) :: u32) = (ucast x :: 5 word)"
    by (rule bit_word_eqI) (auto simp: bit_ucast_iff dest: bit_imp_le_length)
  then show "ucast (x - off) = (ucast x :: 5 word)" if "x AND NOT 0x1F = off"
    unfolding d [OF that] .
  show "x - off < 32 \<longleftrightarrow> x AND NOT 0x1F = off"
  proof
    show "x - off < 32" if "x AND NOT 0x1F = off"
      unfolding d [OF that] using m [of "ucast x"] by (simp add: word_less_nat_alt)
    assume lt: "x - off < 32"
    define d where "d = x - off"
    have "d = take_bit 5 d"
      using lt by (intro word_unat_eq_iff [THEN iffD2]) (simp add: d_def unsigned_take_bit_eq take_bit_nat_eq_self word_less_nat_alt)
    then have db: "bit d n \<longleftrightarrow> n < 5 \<and> bit d n" for n by (metis bit_take_bit_iff)
    have ob: "bit off n \<longleftrightarrow> 5 \<le> n \<and> bit off n" for n
      using arg_cong [OF assms, of "\<lambda>w. bit w n"] unfolding line_off_bit by auto
    have "off AND d = 0"
    proof (rule bit_word_eqI)
      show "bit (off AND d) n = bit (0 :: u32) n" for n using db [of n] ob [of n] by (auto simp: bit_and_iff)
    qed
    then have "off + d = off OR d" by (rule disjunctive_add_eq_or)
    then have x: "x = off OR d" by (simp add: d_def)
    show "x AND NOT 0x1F = off"
    proof (rule bit_word_eqI)
      fix n assume n: "n < LENGTH(32)"
      show "bit (x AND NOT 0x1F) n = bit off n"
        unfolding line_off_bit using db [of n] ob [of n] n by (auto simp: x bit_or_iff)
    qed
  qed
qed

lemma put_line_apply:
  assumes "off AND NOT 0x1F = off"
  shows "put_line off d f x = (if x AND NOT 0x1F = off then d (ucast x) else f x)"
  using in_line [OF assms, of x] by (simp add: put_line_def)

lemma get_line_apply: "x AND NOT 0x1F = off \<Longrightarrow> get_line off f (ucast x) = f x"
  using line_split [of x] by (simp add: get_line_def)


section \<open>The refinement of a flat memory\<close>

text \<open>
  \<open>cached_ram\<close>: the addresses of the first mirror of main memory in P0, P1 and P3. \<open>ram_pa off\<close>
  is the physical address of a byte of main memory, \<open>off\<close> its offset.
\<close>

definition cached_ram :: "areas \<Rightarrow> u32 \<Rightarrow> bool" where
  "cached_ram a x \<longleftrightarrow> drop_bit 29 x \<noteq> 5 \<and> drop_bit 29 x \<noteq> 7 \<and> (x AND 0x1FFFFFFF) - 0x0C000000 < RAM_SIZE a"

definition ram_pa :: "u32 \<Rightarrow> u32" where
  "ram_pa off = 0x0C000000 + off"

type_synonym olines = "9 word \<Rightarrow> ocache_line"

definition p_hit :: "olines \<Rightarrow> u32 \<Rightarrow> u32 \<Rightarrow> bool" where
  "p_hit L ccr x \<longleftrightarrow> ol_valid (L (p_idx ccr x)) \<and> tag_of x = ol_address (L (p_idx ccr x))"

text \<open>The memory the processor sees, and the invariant of the lines.\<close>

definition p_mem :: "u32 \<Rightarrow> olines \<Rightarrow> (u32 \<Rightarrow> u8) \<Rightarrow> u32 \<Rightarrow> u8" where
  "p_mem ccr L f off = (if p_hit L ccr (ram_pa off) then ol_data (L (p_idx ccr (ram_pa off))) (ucast off) else f off)"

definition line_inv :: "areas \<Rightarrow> u32 \<Rightarrow> (u32 \<Rightarrow> u8) \<Rightarrow> 9 word \<Rightarrow> ocache_line \<Rightarrow> bool" where
  "line_inv a ccr f i l \<longleftrightarrow> (ol_valid l \<longrightarrow> ol_address l < 2 ^ 19 \<and> p_idx ccr (line_address i l) = i \<and>
     cached_ram a (line_address i l) \<and>
     (\<not> ol_dirty l \<longrightarrow> ol_data l = get_line (line_address i l AND RAM_MASK a) f))"

definition lines_inv :: "areas \<Rightarrow> u32 \<Rightarrow> olines \<Rightarrow> (u32 \<Rightarrow> u8) \<Rightarrow> bool" where
  "lines_inv a ccr L f \<longleftrightarrow> (\<forall>i. line_inv a ccr f i (L i))"

lemma RAM_SIZE_mask:
  assumes "areas_wf a"
  shows "\<exists>n. (n = 24 \<or> n = 25) \<and> RAM_SIZE a = 2 ^ n \<and> RAM_MASK a = mask n"
  using assms by (auto simp: areas_wf_def RAM_MASK_def mask_eq_exp_minus_1)

lemma take_bit_self:
  fixes x :: u32
  assumes "unat x < 2 ^ n"
  shows "bit x k \<Longrightarrow> k < n"
proof -
  have "x = take_bit n x"
    using assms by (intro word_unat_eq_iff [THEN iffD2]) (simp add: unsigned_take_bit_eq take_bit_nat_eq_self)
  then show "bit x k \<Longrightarrow> k < n" by (metis bit_take_bit_iff)
qed

lemma ram_pa_bit:
  assumes "unat off < 2 ^ 25"
  shows "bit (ram_pa off) k \<longleftrightarrow> k = 26 \<or> k = 27 \<or> bit off k"
proof -
  have c: "(0x0C000000 :: u32) = push_bit 26 (mask 2)" by (simp add: mask_eq_exp_minus_1 push_bit_eq_mult)
  have cb: "bit (push_bit 26 (mask 2) :: u32) k \<longleftrightarrow> k = 26 \<or> k = 27" for k
    unfolding bit_push_bit_iff bit_mask_iff by (auto simp: possible_bit_word)
  note o = take_bit_self [OF assms]
  have "push_bit 26 (mask 2) AND off = 0"
  proof (rule bit_word_eqI)
    show "bit (push_bit 26 (mask 2) AND off) k = bit (0 :: u32) k" for k
      unfolding bit_and_iff cb using o [of k] by auto
  qed
  then have "ram_pa off = push_bit 26 (mask 2) OR off"
    unfolding ram_pa_def c by (rule disjunctive_add_eq_or)
  then show ?thesis by (simp add: bit_or_iff cb)
qed

lemma mask29_bit: "bit (x AND 0x1FFFFFFF :: u32) k \<longleftrightarrow> k < 29 \<and> bit x k"
proof -
  have "x AND 0x1FFFFFFF = take_bit 29 x" by (simp only: cache_masks take_bit_eq_mask)
  then show ?thesis by (simp only: bit_take_bit_iff)
qed

lemma drop_26: "drop_bit 26 x AND 7 = (3 :: u32) \<longleftrightarrow> bit x 26 \<and> bit x 27 \<and> \<not> bit x 28"
proof -
  have "drop_bit 26 x AND 7 = take_bit 3 (drop_bit 26 x)" by (simp add: take_bit_eq_mask mask_eq_exp_minus_1)
  moreover have "take_bit 3 y = 3 \<longleftrightarrow> bit y 0 \<and> bit y 1 \<and> \<not> bit y 2" for y :: u32
  proof
    assume h: "take_bit 3 y = 3"
    have m: "(3 :: u32) = mask 2" by (simp add: mask_eq_exp_minus_1)
    have b: "bit (3 :: u32) 0" "bit (3 :: u32) 1" "\<not> bit (3 :: u32) 2"
      unfolding m bit_mask_iff by (simp_all add: possible_bit_word)
    show "bit y 0 \<and> bit y 1 \<and> \<not> bit y 2"
      using arg_cong [OF h, of "\<lambda>w. bit w 0"] arg_cong [OF h, of "\<lambda>w. bit w 1"] arg_cong [OF h, of "\<lambda>w. bit w 2"] b
      by (simp add: bit_take_bit_iff)
  next
    assume h: "bit y 0 \<and> bit y 1 \<and> \<not> bit y 2"
    have m: "(3 :: u32) = mask 2" by (simp add: mask_eq_exp_minus_1)
    show "take_bit 3 y = 3"
      unfolding m by (rule bit_word_eqI) (use h in \<open>auto simp: bit_take_bit_iff bit_mask_iff less_Suc_eq numeral_3_eq_3 numeral_2_eq_2 possible_bit_word\<close>)
  qed
  ultimately show ?thesis by (simp add: bit_drop_bit_eq)
qed

lemma ram_pa_props:
  assumes a: "areas_wf a" and o: "off < RAM_SIZE a"
  shows "ram_pa off AND 0x1FFFFFFF = ram_pa off" "ram_pa off AND RAM_MASK a = off" "cached_ram a (ram_pa off)"
    "ram_pa off AND 0x1FFFFFE0 = ram_pa (off AND NOT 0x1F)"
proof -
  obtain n where n: "n = 24 \<or> n = 25" "RAM_SIZE a = 2 ^ n" "RAM_MASK a = mask n" using RAM_SIZE_mask [OF a] by blast
  have ou: "unat off < 2 ^ n" using o n(1) by (auto simp: n(2) word_less_nat_alt)
  then have o25: "unat off < 2 ^ 25" using n(1) by auto
  note pb = ram_pa_bit [OF o25] and ob = take_bit_self [OF ou]
  show e: "ram_pa off AND 0x1FFFFFFF = ram_pa off"
  proof (rule bit_word_eqI)
    show "bit (ram_pa off AND 0x1FFFFFFF) k = bit (ram_pa off) k" for k
      unfolding mask29_bit pb using ob [of k] n(1) by auto
  qed
  show "ram_pa off AND RAM_MASK a = off"
  proof (rule bit_word_eqI)
    show "bit (ram_pa off AND RAM_MASK a) k = bit off k" for k
      unfolding n(3) take_bit_eq_mask [symmetric] bit_take_bit_iff pb using ob [of k] n(1) by auto
  qed
  have "drop_bit 29 (ram_pa off) = 0"
  proof (rule bit_word_eqI)
    show "bit (drop_bit 29 (ram_pa off)) k = bit (0 :: u32) k" for k
      unfolding bit_drop_bit_eq comp_def pb using ob [of "29 + k"] n(1) by auto
  qed
  then show "cached_ram a (ram_pa off)" unfolding cached_ram_def e using o by (simp add: ram_pa_def)
  have "unat (off AND NOT 0x1F) < 2 ^ 25"
    using o25 word_and_le2 [of off "NOT 0x1F"] by (simp only: word_le_nat_alt)
  note pb' = ram_pa_bit [OF this]
  show "ram_pa off AND 0x1FFFFFE0 = ram_pa (off AND NOT 0x1F)"
  proof (rule bit_word_eqI)
    show "bit (ram_pa off AND 0x1FFFFFE0) k = bit (ram_pa (off AND NOT 0x1F)) k" for k
      unfolding lk_bit pb pb' line_off_bit using ob [of k] n(1) by auto
  qed
qed

lemma cached_ram_pa:
  assumes a: "areas_wf a" and x: "cached_ram a x"
  shows "x AND 0x1FFFFFFF = ram_pa (x AND RAM_MASK a)" "x AND RAM_MASK a < RAM_SIZE a" "IsOnRam x"
    "cachedArea (drop_bit 29 x)"
proof -
  obtain n where n: "n = 24 \<or> n = 25" "RAM_SIZE a = 2 ^ n" "RAM_MASK a = mask n" using RAM_SIZE_mask [OF a] by blast
  define d where "d = (x AND 0x1FFFFFFF) - 0x0C000000"
  have d: "d < RAM_SIZE a" using x by (simp add: cached_ram_def d_def)
  have e: "x AND 0x1FFFFFFF = ram_pa d" by (simp add: ram_pa_def d_def)
  have "x AND RAM_MASK a = (x AND 0x1FFFFFFF) AND RAM_MASK a"
    using n(1) by (auto simp: n(3) and.assoc mask_eq_exp_minus_1)
  then have m: "x AND RAM_MASK a = d" unfolding e using ram_pa_props(2) [OF a d] by simp
  show "x AND 0x1FFFFFFF = ram_pa (x AND RAM_MASK a)" "x AND RAM_MASK a < RAM_SIZE a"
    unfolding m e using d by simp_all
  have "unat d < 2 ^ 25" using d n(1) by (auto simp: n(2) word_less_nat_alt)
  note pb = ram_pa_bit [OF this] and db = take_bit_self [OF this]
  have xb: "k < 29 \<Longrightarrow> bit x k = bit (ram_pa d) k" for k unfolding e [symmetric] mask29_bit by simp
  have i3: "drop_bit 26 x AND 7 = 3" unfolding drop_26 using xb [of 26] xb [of 27] xb [of 28] db [of 28] by (auto simp: pb)
  have l: "unat (drop_bit 29 x) < 8"
    using unsigned_less [of x, where 'a = nat] by (simp add: unat_drop_bit)
  have n57: "drop_bit 29 x \<noteq> 5" "drop_bit 29 x \<noteq> 7" using x by (simp_all add: cached_ram_def)
  have "drop_bit 29 x AND 7 = take_bit 3 (drop_bit 29 x)" by (simp add: take_bit_eq_mask mask_eq_exp_minus_1)
  also have "\<dots> = drop_bit 29 x"
    using l by (intro word_unat_eq_iff [THEN iffD2]) (simp add: unsigned_take_bit_eq take_bit_nat_eq_self)
  finally show "IsOnRam x" unfolding IsOnRam_def using i3 n57 by simp
  have "unat (drop_bit 29 x) \<noteq> 5" "unat (drop_bit 29 x) \<noteq> 7"
    using n57 by (simp_all add: word_unat_eq_iff)
  with l have "unat (drop_bit 29 x) \<in> {0, 1, 2, 3, 4, 6}" by auto
  then show "cachedArea (drop_bit 29 x)" unfolding cachedArea_def by auto
qed


text \<open>Hits and lines.\<close>

lemma p_hit_29: "p_hit L ccr (x AND 0x1FFFFFFF) = p_hit L ccr x"
proof -
  have "tag_of (x AND 0x1FFFFFFF) = tag_of x"
    by (rule bit_word_eqI) (auto simp: tag_bit mask29_bit)
  then show ?thesis by (simp add: p_hit_def p_idx_29)
qed

lemma p_hit_cached:
  "areas_wf a \<Longrightarrow> cached_ram a x \<Longrightarrow> p_hit L ccr x = p_hit L ccr (ram_pa (x AND RAM_MASK a))"
  using p_hit_29 [of L ccr x] cached_ram_pa(1) [of a x] by simp

lemma p_idx_cached:
  "areas_wf a \<Longrightarrow> cached_ram a x \<Longrightarrow> p_idx ccr x = p_idx ccr (ram_pa (x AND RAM_MASK a))"
  using p_idx_29 [of ccr x] cached_ram_pa(1) [of a x] by simp

lemma ram_pa_inj: "ram_pa x = ram_pa y \<longleftrightarrow> x = y"
  by (simp add: ram_pa_def)

lemma line_room:
  assumes "off AND NOT 0x1F = off" "off < (2 :: u32) ^ n" "n = 24 \<or> n = 25"
  shows "off + 32 \<le> 2 ^ n"
proof -
  have "take_bit 5 off = 0"
  proof (rule bit_word_eqI)
    show "bit (take_bit 5 off) k = bit (0 :: u32) k" for k
      using arg_cong [OF assms(1), of "\<lambda>w. bit w k"] unfolding line_off_bit bit_take_bit_iff by auto
  qed
  from arg_cong [OF this, of unat] have "take_bit 5 (unat off) = 0" by (simp only: unsigned_take_bit_eq unsigned_0)
  then have "unat off mod 32 = 0" by (simp add: take_bit_eq_mod)
  then obtain q where q: "unat off = 32 * q" by (metis mod_0_imp_dvd dvdE)
  have lt: "unat off < 2 ^ n" using assms(2,3) by (auto simp: word_less_nat_alt)
  have "(2 :: nat) ^ n = 32 * 2 ^ (n - 5)" using assms(3) by auto
  with lt q have "q + 1 \<le> 2 ^ (n - 5)" by simp
  then have le: "unat off + 32 \<le> 2 ^ n" using q \<open>(2 :: nat) ^ n = 32 * 2 ^ (n - 5)\<close> by simp
  then have "unat (off + 32) = unat off + 32" using assms(3) by (auto simp: unat_word_ariths)
  with le assms(3) show ?thesis by (auto simp: word_le_nat_alt)
qed

lemma line_inv_address:
  assumes a: "areas_wf a" and i: "line_inv a ccr f i l" "ol_valid l"
  shows "ram_pa (line_address i l AND RAM_MASK a) = line_address i l"
    "(line_address i l AND RAM_MASK a) AND NOT 0x1F = line_address i l AND RAM_MASK a"
    "line_address i l AND RAM_MASK a < RAM_SIZE a" "GetMemPtr a (line_address i l) 32 = Some (line_address i l AND RAM_MASK a)"
proof -
  let ?la = "line_address i l"
  obtain n where n: "n = 24 \<or> n = 25" "RAM_SIZE a = 2 ^ n" "RAM_MASK a = mask n" using RAM_SIZE_mask [OF a] by blast
  have c: "cached_ram a ?la" and t: "ol_address l < 2 ^ 19" using i by (simp_all add: line_inv_def)
  have "unat (ol_address l) < 2 ^ 19" using t by (simp add: word_less_nat_alt)
  note tb = take_bit_self [OF this]
  have e: "?la AND 0x1FFFFFFF = ?la"
  proof (rule bit_word_eqI)
    show "bit (?la AND 0x1FFFFFFF) k = bit ?la k" for k
      unfolding mask29_bit line_address_bit using tb [of "k - 10"] by auto
  qed
  have z: "?la AND NOT 0x1F = ?la"
  proof (rule bit_word_eqI)
    show "bit (?la AND NOT 0x1F) k = bit ?la k" for k
      unfolding line_off_bit line_address_bit by auto
  qed
  show "ram_pa (?la AND RAM_MASK a) = ?la" using cached_ram_pa(1) [OF a c] e by simp
  show z': "(?la AND RAM_MASK a) AND NOT 0x1F = ?la AND RAM_MASK a"
    using z by (metis and.assoc and.commute)
  show s: "?la AND RAM_MASK a < RAM_SIZE a" by (rule cached_ram_pa(2) [OF a c])
  have "(?la AND RAM_MASK a) + 32 \<le> RAM_SIZE a" using line_room [OF z' s [unfolded n(2)] n(1)] unfolding n(2) .
  then show "GetMemPtr a ?la 32 = Some (?la AND RAM_MASK a)"
    using cached_ram_pa(3) [OF a c] by (simp add: GetMemPtr_def IsOnRam_def not_less)
qed

lemma hit_iff_line:
  assumes a: "areas_wf a" and i: "lines_inv a ccr L f" and o: "off < RAM_SIZE a"
  shows "p_hit L ccr (ram_pa off) \<longleftrightarrow> ol_valid (L (p_idx ccr (ram_pa off))) \<and>
    off AND NOT 0x1F = line_address (p_idx ccr (ram_pa off)) (L (p_idx ccr (ram_pa off))) AND RAM_MASK a"
proof (cases "ol_valid (L (p_idx ccr (ram_pa off)))")
  case True
  let ?i = "p_idx ccr (ram_pa off)"
  have l: "line_inv a ccr f ?i (L ?i)" using i by (simp add: lines_inv_def)
  then have "ol_address (L ?i) < 2 ^ 19" using True by (simp add: line_inv_def)
  then have "tag_of (ram_pa off) = ol_address (L ?i) \<longleftrightarrow> line_address ?i (L ?i) = ram_pa (off AND NOT 0x1F)"
    unfolding ram_pa_props(4) [OF a o, symmetric] by (rule hit_line) (rule refl)
  also have "\<dots> \<longleftrightarrow> line_address ?i (L ?i) AND RAM_MASK a = off AND NOT 0x1F"
    using line_inv_address(1) [OF a l True] by (metis ram_pa_inj)
  finally show ?thesis using True by (auto simp: p_hit_def)
qed (simp add: p_hit_def)

lemma line_idx:
  assumes a: "areas_wf a" and i: "lines_inv a ccr L f" "ol_valid (L i)"
    and o: "off < RAM_SIZE a" "off AND NOT 0x1F = line_address i (L i) AND RAM_MASK a"
  shows "p_idx ccr (ram_pa off) = i" "p_hit L ccr (ram_pa off)"
proof -
  have l: "line_inv a ccr f i (L i)" using i by (simp add: lines_inv_def)
  have "ram_pa off AND 0x1FFFFFE0 = line_address i (L i)"
    using ram_pa_props(4) [OF a o(1)] o(2) line_inv_address(1) [OF a l i(2)] by simp
  then have "p_idx ccr (ram_pa off) = p_idx ccr (line_address i (L i))" using p_idx_lk [of ccr "ram_pa off"] by simp
  also have "\<dots> = i" using l i(2) by (simp add: line_inv_def)
  finally show "p_idx ccr (ram_pa off) = i" .
  then show "p_hit L ccr (ram_pa off)" using hit_iff_line [OF a i(1) o(1)] i(2) o(2) by simp
qed

text \<open>Writing a line back changes nothing the processor sees.\<close>

definition p_evict :: "areas \<Rightarrow> 9 word \<Rightarrow> ocache_line \<Rightarrow> (u32 \<Rightarrow> u8) \<Rightarrow> u32 \<Rightarrow> u8" where
  "p_evict a i l f = put_line (line_address i l AND RAM_MASK a) (ol_data l) f"

lemma p_evict_apply:
  assumes "areas_wf a" "lines_inv a ccr L f" "ol_valid (L i)"
  shows "p_evict a i (L i) f off =
    (if off AND NOT 0x1F = line_address i (L i) AND RAM_MASK a then ol_data (L i) (ucast off) else f off)"
  using assms line_inv_address(2) [OF assms(1), of ccr f i "L i"]
  by (simp add: p_evict_def put_line_apply lines_inv_def)

lemma evict_mem:
  assumes a: "areas_wf a" and i: "lines_inv a ccr L f" "ol_valid (L i)" and o: "off < RAM_SIZE a"
  shows "p_mem ccr L (p_evict a i (L i) f) off = p_mem ccr L f off"
  using line_idx [OF a i o] by (auto simp: p_mem_def p_evict_apply [OF a i])

lemma get_line_cong:
  assumes "\<And>x. x AND NOT 0x1F = off \<Longrightarrow> f x = g x" "off AND NOT 0x1F = off"
  shows "get_line off f = get_line off g"
proof
  fix k :: "5 word"
  have "(off + ucast k) AND NOT 0x1F = off"
  proof -
    have "unat (ucast k :: u32) < 32"
      using unsigned_less [of k, where 'a = nat] by (simp add: unsigned_ucast_eq take_bit_nat_eq_self)
    then have "(off + ucast k) - off < 32" by (simp add: word_less_nat_alt)
    then show ?thesis using in_line(1) [OF assms(2), of "off + ucast k"] by simp
  qed
  then show "get_line off f k = get_line off g k" using assms(1) by (simp add: get_line_def)
qed


text \<open>A line after its replacement.\<close>

definition p_new_line :: "areas \<Rightarrow> u32 \<Rightarrow> (u32 \<Rightarrow> u8) \<Rightarrow> ocache_line" where
  "p_new_line a x f = \<lparr>ol_valid = True, ol_dirty = False, ol_address = tag_of x,
     ol_data = get_line ((x AND RAM_MASK a) AND NOT 0x1F) f\<rparr>"

definition p_out :: "areas \<Rightarrow> 9 word \<Rightarrow> ocache_line \<Rightarrow> (u32 \<Rightarrow> u8) \<Rightarrow> u32 \<Rightarrow> u8" where
  "p_out a i l f = (if ol_dirty l \<and> ol_valid l then p_evict a i l f else f)"

text \<open>What a line whose place is taken held is in the memory afterwards.\<close>

lemma p_out_apply:
  assumes a: "areas_wf a" and i: "lines_inv a ccr L f" and o: "off < RAM_SIZE a"
  shows "p_out a i (L i) f off = (if p_idx ccr (ram_pa off) = i then p_mem ccr L f off else f off)"
proof (cases "ol_valid (L i) \<and> off AND NOT 0x1F = line_address i (L i) AND RAM_MASK a")
  case True
  then have v: "ol_valid (L i)" and e: "off AND NOT 0x1F = line_address i (L i) AND RAM_MASK a" by simp_all
  have h: "p_idx ccr (ram_pa off) = i" "p_hit L ccr (ram_pa off)" by (rule line_idx [OF a i v o e])+
  show ?thesis
  proof (cases "ol_dirty (L i)")
    case True
    then show ?thesis using h v e by (simp add: p_out_def p_evict_apply [OF a i v] p_mem_def)
  next
    case False
    then have "ol_data (L i) = get_line (line_address i (L i) AND RAM_MASK a) f"
      using i v by (simp add: lines_inv_def line_inv_def)
    then have "ol_data (L i) (ucast off) = f off" using get_line_apply [OF e] by simp
    then show ?thesis using h False by (simp add: p_out_def p_mem_def)
  qed
next
  case False
  have "p_out a i (L i) f off = f off"
    using False by (auto simp: p_out_def p_evict_apply [OF a i])
  moreover have "p_mem ccr L f off = f off" if "p_idx ccr (ram_pa off) = i"
  proof -
    have "\<not> p_hit L ccr (ram_pa off)" unfolding hit_iff_line [OF a i o] that by (rule False)
    then show ?thesis by (simp add: p_mem_def)
  qed
  ultimately show ?thesis by simp
qed

lemma line_in_ram:
  assumes a: "areas_wf a" and l: "lo AND NOT 0x1F = lo" "lo < RAM_SIZE a" and y: "y AND NOT 0x1F = lo"
  shows "y < RAM_SIZE a"
proof -
  obtain n where n: "n = 24 \<or> n = 25" "RAM_SIZE a = 2 ^ n" using RAM_SIZE_mask [OF a] by blast
  have r: "lo + 32 \<le> 2 ^ n" using line_room [OF l(1) _ n(1)] l(2) by (simp add: n(2))
  have d: "y - lo < 32" using in_line(1) [OF l(1)] y by simp
  have u: "unat (lo + 32) = unat lo + 32"
    using l(2) n(1) by (auto simp: n(2) unat_word_ariths word_less_nat_alt)
  have "unat y = unat (lo + (y - lo))" by simp
  also have "\<dots> \<le> unat lo + unat (y - lo)" unfolding unat_word_ariths by (rule mod_less_eq_dividend)
  also have "\<dots> < unat lo + 32" using d by (simp add: word_less_nat_alt)
  also have "\<dots> \<le> unat ((2 :: u32) ^ n)" using r u by (simp add: word_le_nat_alt)
  finally show ?thesis by (simp add: n(2) word_less_nat_alt)
qed

lemma tag_bound: "tag_of x < 2 ^ 19"
proof -
  have "unat (tag_of x) < 2 ^ 19"
    unfolding tag_of_def cache_masks take_bit_eq_mask [symmetric] unsigned_take_bit_eq by (rule take_bit_nat_less_exp)
  then show ?thesis by (simp add: word_less_nat_alt)
qed

lemma line_of_ram:
  assumes "areas_wf a" "cached_ram a x"
  shows "x AND 0x1FFFFFE0 = ram_pa ((x AND RAM_MASK a) AND NOT 0x1F)"
proof -
  have "x AND 0x1FFFFFE0 = (x AND 0x1FFFFFFF) AND 0x1FFFFFE0" by (simp add: and.assoc)
  then show ?thesis
    unfolding cached_ram_pa(1) [OF assms] ram_pa_props(4) [OF assms(1) cached_ram_pa(2) [OF assms]] .
qed

text \<open>The other lines are as before.\<close>

lemma out_other:
  assumes a: "areas_wf a" and i: "lines_inv a ccr L f" and k: "k \<noteq> j"
  shows "line_inv a ccr (p_out a j (L j) f) k (L k)"
proof (cases "ol_valid (L k) \<and> \<not> ol_dirty (L k)")
  case True
  let ?lo = "line_address k (L k) AND RAM_MASK a" and ?f = "p_out a j (L j) f"
  have l: "line_inv a ccr f k (L k)" using i by (simp add: lines_inv_def)
  note la = line_inv_address [OF a l conjunct1 [OF True]]
  have "?f y = f y" if y: "y AND NOT 0x1F = ?lo" for y
  proof -
    have r: "y < RAM_SIZE a" by (rule line_in_ram [OF a la(2,3) y])
    have "p_idx ccr (ram_pa y) = k" by (rule line_idx(1) [OF a i _ r y]) (use True in simp)
    then show ?thesis using p_out_apply [OF a i r, of j] k by simp
  qed
  then have "get_line ?lo ?f = get_line ?lo f" by (intro get_line_cong la(2)) blast
  then show ?thesis using l True by (simp add: line_inv_def)
next
  case False
  then show ?thesis using i by (auto simp: lines_inv_def line_inv_def)
qed

lemma fill_inv:
  assumes a: "areas_wf a" and i: "lines_inv a ccr L f" and x: "cached_ram a x"
  defines "j \<equiv> p_idx ccr x"
  defines "f' \<equiv> p_out a j (L j) f"
  shows "lines_inv a ccr (L(j := p_new_line a x f')) f'"
  unfolding lines_inv_def
proof
  fix k
  let ?xo = "x AND RAM_MASK a"
  have xo: "?xo < RAM_SIZE a" by (rule cached_ram_pa(2) [OF a x])
  show "line_inv a ccr f' k ((L(j := p_new_line a x f')) k)"
  proof (cases "k = j")
    case True
    have la: "line_address j (p_new_line a x f') = x AND 0x1FFFFFE0"
      unfolding j_def by (rule line_address_fill) (simp add: p_new_line_def)
    have la': "line_address j (p_new_line a x f') = ram_pa (?xo AND NOT 0x1F)"
      unfolding la by (rule line_of_ram [OF a x])
    have lo: "?xo AND NOT 0x1F < RAM_SIZE a" using xo word_and_le2 [of ?xo "NOT 0x1F"] by simp
    have c: "cached_ram a (line_address j (p_new_line a x f'))" "line_address j (p_new_line a x f') AND RAM_MASK a = ?xo AND NOT 0x1F"
      unfolding la' by (rule ram_pa_props [OF a lo])+
    have p: "p_idx ccr (line_address j (p_new_line a x f')) = j"
      using arg_cong [OF la, of "p_idx ccr"] unfolding p_idx_lk j_def .
    have d: "ol_data (p_new_line a x f') = get_line (?xo AND NOT 0x1F) f'" by (simp only: p_new_line_def ocache_line.simps)
    show ?thesis
      unfolding line_inv_def True fun_upd_same p c(2) d using c(1) tag_bound [of x] by (simp add: p_new_line_def)
  next
    case False
    then show ?thesis using out_other [OF a i False] by (simp add: f'_def)
  qed
qed

text \<open>Reading a line in changes nothing the processor sees.\<close>

lemma fill_mem:
  assumes a: "areas_wf a" and i: "lines_inv a ccr L f" and x: "cached_ram a x" and o: "off < RAM_SIZE a"
  defines "j \<equiv> p_idx ccr x"
  defines "f' \<equiv> p_out a j (L j) f"
  shows "p_mem ccr (L(j := p_new_line a x f')) f' off = p_mem ccr L f off"
proof (cases "p_idx ccr (ram_pa off) = j")
  case True
  have fo: "f' off = p_mem ccr L f off" using p_out_apply [OF a i o, of j] True by (simp add: f'_def)
  show ?thesis
  proof (cases "p_hit (L(j := p_new_line a x f')) ccr (ram_pa off)")
    case hit: True
    have "tag_of (ram_pa off) = tag_of x"
      using hit True by (simp add: p_hit_def p_new_line_def)
    then have "line_address j (p_new_line a x f') = ram_pa off AND 0x1FFFFFE0"
      using line_address_fill [of "p_new_line a x f'" "ram_pa off" ccr] True by (simp add: p_new_line_def)
    moreover have "line_address j (p_new_line a x f') = x AND 0x1FFFFFE0"
      unfolding j_def by (rule line_address_fill) (simp add: p_new_line_def)
    ultimately have "ram_pa (off AND NOT 0x1F) = ram_pa ((x AND RAM_MASK a) AND NOT 0x1F)"
      using line_of_ram [OF a x] ram_pa_props(4) [OF a o] by metis
    then have e: "off AND NOT 0x1F = (x AND RAM_MASK a) AND NOT 0x1F" unfolding ram_pa_inj .
    have "ol_data (p_new_line a x f') = get_line ((x AND RAM_MASK a) AND NOT 0x1F) f'"
      by (simp only: p_new_line_def ocache_line.simps)
    then have "ol_data (p_new_line a x f') (ucast off) = f' off" using get_line_apply [OF e] by metis
    then show ?thesis using True by (simp add: p_mem_def hit fo)
  qed (simp add: p_mem_def fo)
next
  case False
  then have "f' off = f off" using p_out_apply [OF a i o, of j] by (simp add: f'_def)
  then show ?thesis using False by (simp add: p_mem_def p_hit_def)
qed

section \<open>An access within a line\<close>

lemma aligned_same_line:
  fixes x y :: u32
  assumes x: "take_bit n x = 0" and n: "n \<le> 5" and y: "y - x < 2 ^ n"
  shows "y AND NOT 0x1F = x AND NOT 0x1F"
proof -
  define d where "d = y - x"
  have "n \<in> {0, 1, 2, 3, 4, 5}" using n by auto
  then have "unat ((2 :: u32) ^ n) = 2 ^ n" by auto
  then have "unat d < 2 ^ n" using y by (simp add: d_def word_less_nat_alt)
  note db = take_bit_self [OF this]
  have xb: "bit x k \<Longrightarrow> n \<le> k" for k
    using arg_cong [OF x, of "\<lambda>w. bit w k"] by (auto simp: bit_take_bit_iff)
  have "x AND d = 0"
  proof (rule bit_word_eqI)
    show "bit (x AND d) k = bit (0 :: u32) k" for k using db [of k] xb [of k] by (auto simp: bit_and_iff)
  qed
  then have "x + d = x OR d" by (rule disjunctive_add_eq_or)
  then have e: "y = x OR d" by (simp add: d_def)
  show ?thesis
  proof (rule bit_word_eqI)
    show "bit (y AND NOT 0x1F) k = bit (x AND NOT 0x1F) k" for k
      unfolding line_off_bit e bit_or_iff using db [of k] n by auto
  qed
qed

lemma low5: "x AND 0x1F = (ucast (ucast x :: 5 word) :: u32)"
proof (rule bit_word_eqI)
  have "x AND 0x1F = take_bit 5 x" by (simp only: cache_masks take_bit_eq_mask)
  then show "bit (x AND 0x1F) k = bit (ucast (ucast x :: 5 word) :: u32) k" for k
    by (auto simp: bit_take_bit_iff bit_ucast_iff dest: bit_imp_le_length)
qed

lemma same_line_diff:
  assumes "y AND NOT 0x1F = x AND NOT 0x1F"
  shows "(y AND 0x1F) - (x AND 0x1F) = (y - x :: u32)"
proof -
  have "y - x = ((y AND NOT 0x1F) + (y AND 0x1F)) - ((x AND NOT 0x1F) + (x AND 0x1F))"
    unfolding low5 line_split ..
  then show ?thesis unfolding assms by (metis add_diff_cancel_left)
qed

lemma ucast5_add: "(ucast (x + y :: u32) :: 5 word) = ucast x + ucast y"
proof -
  have "take_bit 5 (take_bit 32 a + take_bit 32 b) = take_bit 5 (a + b)" for a b :: int
    using take_bit_add [of 5 "take_bit 32 a" "take_bit 32 b"] take_bit_add [of 5 a b] by simp
  then show ?thesis by transfer simp
qed

lemma ucast5_low: "(ucast (x AND 0x1F :: u32) :: 5 word) = ucast x"
  unfolding low5 by (rule bit_word_eqI) (auto simp: bit_ucast_iff dest: bit_imp_le_length)

lemma line_st_apply:
  assumes A: "byte_access A byt" and l: "y AND NOT 0x1F = x AND NOT 0x1F"
  shows "line_st A x v d (ucast y) = (if y - x < ac_size A then byt (unat (y - x)) v else d (ucast y))"
proof -
  have st: "ac_st A a v f z = (if z - a < ac_size A then byt (unat (z - a)) v else f z)" for a v f z
    using A by (simp add: byte_access_def)
  show ?thesis
    unfolding line_st_def st low5 [symmetric] same_line_diff [OF l] by (simp only: ucast5_low)
qed

definition aligned :: "('d, 'v) access \<Rightarrow> u32 \<Rightarrow> bool" where
  "aligned A x \<longleftrightarrow> x AND (ac_size A - 1) = 0"

lemma aligned_line:
  assumes A: "byte_access A byt" and x: "aligned A x" and y: "y - x < ac_size A"
  shows "y AND NOT 0x1F = x AND NOT 0x1F"
proof -
  obtain n where n: "n \<le> 3" "ac_size A = 2 ^ n" using A by (auto simp: byte_access_def)
  have "take_bit n x = 0" using x by (simp add: aligned_def n(2) take_bit_eq_mask mask_eq_exp_minus_1)
  then show ?thesis using n y by (intro aligned_same_line [of n]) simp_all
qed

text \<open>The physical address and the offset into main memory have the same low bits.\<close>

lemma ram_off_low:
  assumes "areas_wf a"
  shows "(x AND RAM_MASK a) AND 0x1F = x AND 0x1F" "ucast (x AND RAM_MASK a) = (ucast x :: 5 word)"
    "byte_access A byt \<Longrightarrow> aligned A x \<Longrightarrow> aligned A (x AND RAM_MASK a)"
proof -
  obtain n where n: "n = 24 \<or> n = 25" "RAM_MASK a = mask n" using RAM_SIZE_mask [OF assms] by blast
  have "RAM_MASK a AND 0x1F = 0x1F" using n(1) by (auto simp: n(2) mask_eq_exp_minus_1)
  then show e: "(x AND RAM_MASK a) AND 0x1F = x AND 0x1F" unfolding and.assoc by simp
  then show "ucast (x AND RAM_MASK a) = (ucast x :: 5 word)"
    using ucast5_low [of x] ucast5_low [of "x AND RAM_MASK a"] by simp
  show "aligned A (x AND RAM_MASK a)" if "byte_access A byt" "aligned A x"
    using that(2) unfolding aligned_def by (metis and.assoc and.commute and_zero_eq)
qed

lemma line_st_ram:
  assumes a: "areas_wf a" and A: "byte_access A byt" and l: "off AND NOT 0x1F = (x AND RAM_MASK a) AND NOT 0x1F"
  shows "line_st A x v d (ucast off) = (if off - (x AND RAM_MASK a) < ac_size A
    then byt (unat (off - (x AND RAM_MASK a))) v else d (ucast off))"
proof -
  have "line_st A x v d = line_st A (x AND RAM_MASK a) v d"
    unfolding line_st_def ram_off_low(1) [OF a] ..
  then show ?thesis using line_st_apply [OF A l, of v d] by metis
qed

lemma line_byte:
  assumes "off AND NOT 0x1F = off"
  shows "ucast (off + ucast m :: u32) = (m :: 5 word)" "(off + ucast m) AND NOT 0x1F = off"
proof -
  have "unat (ucast m :: u32) < 32"
    using unsigned_less [of m, where 'a = nat] by (simp add: unsigned_ucast_eq take_bit_nat_eq_self)
  then have "(off + ucast m) - off < 32" by (simp add: word_less_nat_alt)
  then show e: "(off + ucast m) AND NOT 0x1F = off" using in_line(1) [OF assms, of "off + ucast m"] by simp
  have "ucast (ucast m :: u32) = m" by (rule bit_word_eqI) (auto simp: bit_ucast_iff dest: bit_imp_le_length)
  then show "ucast (off + ucast m) = m" using in_line(2) [OF assms e] by simp
qed

definition p_upd :: "('d, 'v) access \<Rightarrow> u32 \<Rightarrow> 'v \<Rightarrow> bool \<Rightarrow> 9 word \<Rightarrow> olines \<Rightarrow> olines" where
  "p_upd A x v dirty j L = L(j := (L j)\<lparr>ol_data := line_st A x v (ol_data (L j)), ol_dirty := dirty\<rparr>)"

lemma p_upd_simps [simp]:
  "ol_valid (p_upd A x v b j L i) = ol_valid (L i)" "ol_address (p_upd A x v b j L i) = ol_address (L i)"
  "line_address i (p_upd A x v b j L i) = line_address i (L i)"
  "ol_dirty (p_upd A x v b j L j) = b" "i \<noteq> j \<Longrightarrow> p_upd A x v b j L i = L i"
  "ol_data (p_upd A x v b j L j) = line_st A x v (ol_data (L j))"
  "p_hit (p_upd A x v b j L) ccr y = p_hit L ccr y"
  by (simp_all add: p_upd_def line_address_def p_hit_def)

text \<open>A byte in the line of an access that hits is in the cache, and the others are not changed.\<close>

lemma same_line_hit:
  assumes a: "areas_wf a" and i: "lines_inv a ccr L f" and x: "cached_ram a x" "p_hit L ccr x"
    and o: "off < RAM_SIZE a"
  shows "p_idx ccr (ram_pa off) = p_idx ccr x \<and> p_hit L ccr (ram_pa off) \<longleftrightarrow>
    off AND NOT 0x1F = (x AND RAM_MASK a) AND NOT 0x1F"
proof -
  let ?j = "p_idx ccr x" and ?xo = "x AND RAM_MASK a"
  have xo: "?xo < RAM_SIZE a" by (rule cached_ram_pa(2) [OF a x(1)])
  have j: "p_idx ccr (ram_pa ?xo) = ?j" using p_idx_cached [OF a x(1)] by simp
  have h: "ol_valid (L ?j)" "?xo AND NOT 0x1F = line_address ?j (L ?j) AND RAM_MASK a"
    using hit_iff_line [OF a i xo] x(2) p_hit_cached [OF a x(1)] unfolding j by blast+
  show ?thesis
    using line_idx [OF a i h(1) o] hit_iff_line [OF a i o] h by metis
qed

lemma upd_mem:
  assumes a: "areas_wf a" and i: "lines_inv a ccr L f" and x: "cached_ram a x" "p_hit L ccr x"
    and A: "byte_access A byt" "aligned A x" and o: "off < RAM_SIZE a"
  shows "p_mem ccr (p_upd A x v b (p_idx ccr x) L) f off = ac_st A (x AND RAM_MASK a) v (p_mem ccr L f) off"
proof -
  let ?j = "p_idx ccr x" and ?xo = "x AND RAM_MASK a"
  have st: "ac_st A a v g z = (if z - a < ac_size A then byt (unat (z - a)) v else g z)" for a g z
    using A(1) by (simp add: byte_access_def)
  have al: "off - ?xo < ac_size A \<Longrightarrow> off AND NOT 0x1F = ?xo AND NOT 0x1F"
    by (rule aligned_line [OF A(1) ram_off_low(3) [OF a A]])
  show ?thesis
  proof (cases "off AND NOT 0x1F = ?xo AND NOT 0x1F")
    case True
    then have "p_idx ccr (ram_pa off) = ?j" "p_hit L ccr (ram_pa off)" using same_line_hit [OF a i x o] by blast+
    then show ?thesis unfolding p_mem_def st by (simp add: line_st_ram [OF a A(1) True])
  next
    case False
    then have "p_idx ccr (ram_pa off) \<noteq> ?j \<or> \<not> p_hit L ccr (ram_pa off)" using same_line_hit [OF a i x o] by blast
    moreover have "\<not> off - ?xo < ac_size A" using al False by blast
    ultimately show ?thesis unfolding p_mem_def st by auto
  qed
qed

text \<open>What an access reads depends on main memory only.\<close>

lemma access_byte:
  assumes a: "areas_wf a" and A: "byte_access A byt" "aligned A x" and x: "cached_ram a x" and k: "k < unat (ac_size A)"
  defines "xo \<equiv> x AND RAM_MASK a"
  shows "(xo + of_nat k) AND NOT 0x1F = xo AND NOT 0x1F" "xo + of_nat k < RAM_SIZE a"
proof -
  have xo: "xo < RAM_SIZE a" unfolding xo_def by (rule cached_ram_pa(2) [OF a x])
  have "unat (ac_size A) \<le> 8"
  proof -
    obtain n where "n \<le> 3" "ac_size A = 2 ^ n" using A(1) by (auto simp: byte_access_def)
    then show ?thesis by (cases n rule: nat.exhaust) (auto simp: le_Suc_eq numeral_3_eq_3)
  qed
  then have "unat (of_nat k :: u32) = k" using k by (simp add: unat_of_nat)
  then have "(xo + of_nat k) - xo < ac_size A" using k by (simp add: word_less_nat_alt)
  then show l: "(xo + of_nat k) AND NOT 0x1F = xo AND NOT 0x1F"
    unfolding xo_def by (rule aligned_line [OF A(1) ram_off_low(3) [OF a A]])
  have "xo AND NOT 0x1F < RAM_SIZE a" using xo word_and_le2 [of xo "NOT 0x1F"] by simp
  then show "xo + of_nat k < RAM_SIZE a" using line_in_ram [OF a _ _ l] by (simp add: and.assoc)
qed

lemma ac_ld_cong:
  "byte_access A byt \<Longrightarrow> (\<And>k. k < unat (ac_size A) \<Longrightarrow> f (a + of_nat k) = g (b + of_nat k)) \<Longrightarrow> ac_ld A f a = ac_ld A g b"
  unfolding byte_access_def by blast

lemma ac_ld_ram:
  assumes "areas_wf a" "byte_access A byt" "aligned A x" "cached_ram a x" "\<And>off. off < RAM_SIZE a \<Longrightarrow> f off = g off"
  shows "ac_ld A f (x AND RAM_MASK a) = ac_ld A g (x AND RAM_MASK a)"
  using access_byte(2) [OF assms(1-4)] assms(5) by (intro ac_ld_cong [OF assms(2)]) blast

lemma read_mem:
  assumes a: "areas_wf a" and i: "lines_inv a ccr L f" and x: "cached_ram a x" "p_hit L ccr x"
    and A: "byte_access A byt" "aligned A x"
  shows "line_ld A (ol_data (L (p_idx ccr x))) x = ac_ld A (p_mem ccr L f) (x AND RAM_MASK a)"
proof -
  let ?d = "ol_data (L (p_idx ccr x))" and ?xo = "x AND RAM_MASK a"
  have xo: "?xo < RAM_SIZE a" by (rule cached_ram_pa(2) [OF a x(1)])
  show ?thesis
    unfolding line_ld_def
  proof (rule ac_ld_cong [OF A(1)])
    fix k assume k: "k < unat (ac_size A)"
    let ?o = "?xo + of_nat k"
    have l: "?o AND NOT 0x1F = ?xo AND NOT 0x1F" and o: "?o < RAM_SIZE a" by (rule access_byte [OF a A x(1) k])+
    have "p_idx ccr (ram_pa ?o) = p_idx ccr x" "p_hit L ccr (ram_pa ?o)" using same_line_hit [OF a i x o] l by blast+
    then have "p_mem ccr L f ?o = ?d (ucast ?o)" by (simp add: p_mem_def)
    also have "(ucast ?o :: 5 word) = ucast ((x AND 0x1F) + of_nat k)"
      unfolding ucast5_add ucast5_low ram_off_low(2) [OF a] ..
    finally show "?d (ucast ((x AND 0x1f) + of_nat k)) = p_mem ccr L f ?o" by simp
  qed
qed

lemma upd_inv:
  assumes "lines_inv a ccr L f"
  shows "lines_inv a ccr (p_upd A x v True j L) f"
  unfolding lines_inv_def
proof
  show "line_inv a ccr f i (p_upd A x v True j L i)" for i
    using assms by (cases "i = j") (auto simp: lines_inv_def line_inv_def)
qed

text \<open>Writing through: main memory is written, and the line too when it is a hit.\<close>

definition p_through :: "('d, 'v) access \<Rightarrow> u32 \<Rightarrow> 'v \<Rightarrow> u32 \<Rightarrow> olines \<Rightarrow> olines" where
  "p_through A x v ccr L =
    (if p_hit L ccr x then p_upd A x v (ol_dirty (L (p_idx ccr x))) (p_idx ccr x) L else L)"

lemma p_through_flags [simp]:
  "ol_valid (p_through A x v ccr L i) = ol_valid (L i)" "ol_address (p_through A x v ccr L i) = ol_address (L i)"
  "line_address i (p_through A x v ccr L i) = line_address i (L i)"
  "ol_dirty (p_through A x v ccr L i) = ol_dirty (L i)" "p_hit (p_through A x v ccr L) ccr y = p_hit L ccr y"
  by (simp_all add: p_through_def) (simp add: p_upd_def)

lemma ram_idx_hit:
  assumes "areas_wf a" "cached_ram a x"
  shows "p_idx ccr (ram_pa (x AND RAM_MASK a)) = p_idx ccr x" "p_hit L ccr (ram_pa (x AND RAM_MASK a)) = p_hit L ccr x"
  using p_idx_cached [OF assms] p_hit_cached [OF assms] by simp_all

lemma through_data:
  assumes a: "areas_wf a" and i: "lines_inv a ccr L f" and x: "cached_ram a x"
    and A: "byte_access A byt" "aligned A x" and k: "ol_valid (L k)" "\<not> ol_dirty (L k)"
  shows "ol_data (p_through A x v ccr L k) = get_line (line_address k (L k) AND RAM_MASK a) (ac_st A (x AND RAM_MASK a) v f)"
proof -
  let ?xo = "x AND RAM_MASK a" and ?j = "p_idx ccr x" and ?lo = "line_address k (L k) AND RAM_MASK a"
  let ?f = "ac_st A ?xo v f"
  have st: "ac_st A a v g z = (if z - a < ac_size A then byt (unat (z - a)) v else g z)" for a g z
    using A(1) by (simp add: byte_access_def)
  have xo: "?xo < RAM_SIZE a" by (rule cached_ram_pa(2) [OF a x])
  have l: "line_inv a ccr f k (L k)" using i by (simp add: lines_inv_def)
  then have d: "ol_data (L k) = get_line ?lo f" using k by (simp add: line_inv_def)
  note la = line_inv_address [OF a l k(1)]
  show ?thesis
  proof (cases "?lo = ?xo AND NOT 0x1F")
    case e: True
    have h: "?j = k" "p_hit L ccr x"
      using line_idx [OF a i k(1) xo e [symmetric]] unfolding ram_idx_hit [OF a x] .
    show ?thesis
    proof
      fix m :: "5 word"
      define y where "y = ?lo + ucast m"
      have m: "(ucast y :: 5 word) = m" "y AND NOT 0x1F = ?lo" unfolding y_def by (rule line_byte [OF la(2)])+
      have "ol_data (p_through A x v ccr L k) m = line_st A x v (ol_data (L k)) (ucast y)"
        using h m(1) by (simp add: p_through_def)
      also have "\<dots> = (if y - ?xo < ac_size A then byt (unat (y - ?xo)) v else ol_data (L k) (ucast y))"
        by (rule line_st_ram [OF a A(1) m(2) [unfolded e]])
      also have "ol_data (L k) (ucast y) = f y" unfolding d by (rule get_line_apply [OF m(2)])
      also have "(if y - ?xo < ac_size A then byt (unat (y - ?xo)) v else f y) = get_line ?lo ?f m"
        unfolding get_line_def st y_def ..
      finally show "ol_data (p_through A x v ccr L k) m = get_line ?lo ?f m" .
    qed
  next
    case n: False
    have "\<not> (p_hit L ccr x \<and> k = ?j)"
      using hit_iff_line [OF a i xo] n unfolding ram_idx_hit [OF a x] by metis
    then have "p_through A x v ccr L k = L k" by (auto simp: p_through_def)
    moreover have "y - ?xo < ac_size A \<Longrightarrow> y AND NOT 0x1F = ?xo AND NOT 0x1F" for y
      by (rule aligned_line [OF A(1) ram_off_low(3) [OF a A]])
    then have "get_line ?lo f = get_line ?lo ?f" using n by (intro get_line_cong la(2)) (metis st)
    ultimately show ?thesis using d by simp
  qed
qed

lemma through_inv:
  assumes a: "areas_wf a" and i: "lines_inv a ccr L f" and x: "cached_ram a x" and A: "byte_access A byt" "aligned A x"
  shows "lines_inv a ccr (p_through A x v ccr L) (ac_st A (x AND RAM_MASK a) v f)"
  unfolding lines_inv_def
proof
  show "line_inv a ccr (ac_st A (x AND RAM_MASK a) v f) k (p_through A x v ccr L k)" for k
    using i through_data [OF a i x A, of k v] by (auto simp: lines_inv_def line_inv_def)
qed

lemma through_mem:
  assumes a: "areas_wf a" and i: "lines_inv a ccr L f" and x: "cached_ram a x"
    and A: "byte_access A byt" "aligned A x" and o: "off < RAM_SIZE a"
  shows "p_mem ccr (p_through A x v ccr L) (ac_st A (x AND RAM_MASK a) v f) off =
    ac_st A (x AND RAM_MASK a) v (p_mem ccr L f) off"
proof -
  let ?xo = "x AND RAM_MASK a"
  let ?f = "ac_st A ?xo v f"
  have st: "ac_st A a v g z = (if z - a < ac_size A then byt (unat (z - a)) v else g z)" for a g z
    using A(1) by (simp add: byte_access_def)
  have xo: "?xo < RAM_SIZE a" by (rule cached_ram_pa(2) [OF a x])
  have e: "p_mem ccr (p_through A x v ccr L) ?f off =
      (if p_hit L ccr (ram_pa off) then p_mem ccr (p_through A x v ccr L) f off else ?f off)"
    by (simp add: p_mem_def)
  show ?thesis
  proof (cases "p_hit L ccr x")
    case True
    have u: "p_mem ccr (p_through A x v ccr L) f off = ac_st A ?xo v (p_mem ccr L f) off"
      using upd_mem [OF a i x True A o] True by (simp add: p_through_def)
    show ?thesis unfolding e u st by (simp add: p_mem_def)
  next
    case False
    have "off - ?xo < ac_size A \<Longrightarrow> off AND NOT 0x1F = ?xo AND NOT 0x1F"
      by (rule aligned_line [OF A(1) ram_off_low(3) [OF a A]])
    moreover have "\<not> p_hit L ccr (ram_pa off)" if "off AND NOT 0x1F = ?xo AND NOT 0x1F"
      using hit_iff_line [OF a i o] line_idx(2) [OF a i _ xo] False that unfolding ram_idx_hit [OF a x] by metis
    ultimately show ?thesis using False unfolding e st by (auto simp: p_mem_def p_through_def)
  qed
qed

text \<open>A line that is given up, once what it held is in main memory.\<close>

definition p_drop :: "bool \<Rightarrow> 9 word \<Rightarrow> olines \<Rightarrow> olines" where
  "p_drop b j L = L(j := (L j)\<lparr>ol_valid := b, ol_dirty := False\<rparr>)"

lemma drop_inv:
  assumes a: "areas_wf a" and i: "lines_inv a ccr L f" and b: "b \<longrightarrow> ol_valid (L j)"
  shows "lines_inv a ccr (p_drop b j L) (p_out a j (L j) f)"
  unfolding lines_inv_def
proof
  fix k
  let ?f = "p_out a j (L j) f"
  show "line_inv a ccr ?f k (p_drop b j L k)"
  proof (cases "k = j \<and> b")
    case True
    then have v: "ol_valid (L j)" using b by simp
    have l: "line_inv a ccr f j (L j)" using i by (simp add: lines_inv_def)
    let ?lo = "line_address j (L j) AND RAM_MASK a"
    have "ol_data (L j) = get_line ?lo ?f"
    proof
      fix m :: "5 word"
      define y where "y = ?lo + ucast m"
      note la = line_inv_address [OF a l v]
      have m: "(ucast y :: 5 word) = m" "y AND NOT 0x1F = ?lo" unfolding y_def by (rule line_byte [OF la(2)])+
      have r: "y < RAM_SIZE a" by (rule line_in_ram [OF a la(2,3) m(2)])
      have h: "p_idx ccr (ram_pa y) = j" "p_hit L ccr (ram_pa y)" by (rule line_idx [OF a i v r m(2)])+
      have "get_line ?lo ?f m = ?f y" by (simp add: get_line_def y_def)
      also have "\<dots> = ol_data (L j) m" using p_out_apply [OF a i r, of j] h m(1) by (simp add: p_mem_def)
      finally show "ol_data (L j) m = get_line ?lo ?f m" by simp
    qed
    then show ?thesis using l True v by (auto simp: line_inv_def p_drop_def line_address_def)
  next
    case False
    then show ?thesis using out_other [OF a i, of k j] by (cases "k = j") (auto simp: p_drop_def line_inv_def)
  qed
qed

lemma drop_mem:
  assumes a: "areas_wf a" and i: "lines_inv a ccr L f" and b: "b \<longrightarrow> ol_valid (L j)" and o: "off < RAM_SIZE a"
  shows "p_mem ccr (p_drop b j L) (p_out a j (L j) f) off = p_mem ccr L f off"
proof (cases "p_idx ccr (ram_pa off) = j")
  case True
  have f: "p_out a j (L j) f off = p_mem ccr L f off" using p_out_apply [OF a i o, of j] True by simp
  have "p_hit (p_drop b j L) ccr (ram_pa off) \<Longrightarrow> p_hit L ccr (ram_pa off)"
    using b True by (auto simp: p_hit_def p_drop_def)
  then show ?thesis using True by (auto simp: p_mem_def p_drop_def f)
next
  case False
  then show ?thesis using p_out_apply [OF a i o, of j] by (simp add: p_mem_def p_hit_def p_drop_def)
qed

end
