(* ===== verification/Sh4_Cache_Refine.thy ===== *)
theory Sh4_Cache_Refine
  imports Sh4_Cache_Lines
begin

unbundle bit_operations_syntax

text \<open>
  The operand cache refines a flat memory: each operation of \<^verbatim>\<open>Sh4OCache\<close> is a step on lines and main
  memory that keeps their invariant and does to the memory the processor sees what the access does
  to a flat memory; a sequence of accesses follows by induction.
\<close>

section \<open>The operations as steps on lines and memory\<close>

text \<open>
  The machine as the refinement sees it: main memory mapped, the operand cache on without its RAM
  mode, no address translation, privileged mode, the lines \<open>L\<close> and the contents \<open>f\<close> of main memory.
\<close>

definition cache_view :: "cache_cfg \<Rightarrow> u32 \<Rightarrow> 'd machine \<Rightarrow> olines \<Rightarrow> (u32 \<Rightarrow> u8) \<Rightarrow> bool" where
  "cache_view C ccr s L f \<longleftrightarrow> ram_mapped (cc_areas C) s \<and> CCR s = ccr \<and> CCR_OCE ccr = 1 \<and> CCR_ORA ccr = 0 \<and>
     MMUCR_AT (CCN_MMUCR (m_ccn s)) = 0 \<and> st_MD (ctx_status (m_ctx s)) \<noteq> 0 \<and>
     ocache_lines (m_cache s) = L \<and> m_mem s (a_ram (cc_areas C)) = f"

lemma cache_view_wf: "cache_view C ccr s L f \<Longrightarrow> areas_wf (cc_areas C)"
  by (simp add: cache_view_def ram_mapped_def)

lemma view_cycles [simp]:
  "cache_view C ccr (addCycles n s) L f = cache_view C ccr s L f"
  "cache_view C ccr (addReadCycles D x sz s) L f = cache_view C ccr s L f"
  "cache_view C ccr (addWriteBackCycles D x s) L f = cache_view C ccr s L f"
  "cache_view C ccr (addWriteThroughCycles D x sz s) L f = cache_view C ccr s L f"
  by (simp_all add: cache_view_def ram_mapped_def addReadCycles_def addReadAccessCycles_def addCycles_def
      addWriteBackCycles_def addWriteThroughCycles_def on_ctx_def Let_def ctx_status_def)

lemma view_upd_oline:
  "cache_view C ccr s L f \<Longrightarrow> cache_view C ccr (upd_oline i g s) (L(i := g (L i))) f"
  by (simp add: cache_view_def ram_mapped_def upd_oline_def)

lemma view_upd_ram:
  "cache_view C ccr s L f \<Longrightarrow> cache_view C ccr (upd_block (a_ram (cc_areas C)) g s) L (g f)"
  by (auto simp: cache_view_def ram_mapped_def upd_block_def)

lemma view_oline: "cache_view C ccr s L f \<Longrightarrow> oline i s = L i"
  by (simp add: cache_view_def oline_def)

lemma view_index: "cache_view C ccr s L f \<Longrightarrow> lineIndex x s = p_idx ccr x"
  by (simp add: cache_view_def lineIndex_def p_idx_def Let_def)

lemma view_hit: "cache_view C ccr s L f \<Longrightarrow> oc_hit (p_idx ccr x) x s = p_hit L ccr x"
  by (simp add: oc_hit_def p_hit_def view_oline)

lemma view_translate:
  assumes "cache_view C ccr s L f" "cached_ram (cc_areas C) x" "x AND (sz - 1) = 0"
  shows "\<exists>cb. oc_translate w sz x s = ((NONE, x, True, cb), s)"
proof -
  have "x AND 0xFC000000 \<noteq> 0xE0000000"
  proof
    assume h: "x AND 0xFC000000 = 0xE0000000"
    have c: "(0xFC000000 :: u32) = push_bit 26 (mask 6)" "(0xE0000000 :: u32) = push_bit 29 (mask 3)" "(7 :: u32) = mask 3"
      by (simp_all add: mask_eq_exp_minus_1 push_bit_eq_mult)
    have "drop_bit 29 x = 7"
    proof (rule bit_word_eqI)
      show "bit (drop_bit 29 x) k = bit (7 :: u32) k" if "k < LENGTH(32)" for k
        using arg_cong [OF h, of "\<lambda>w. bit w (29 + k)"] that
        unfolding c bit_and_iff bit_push_bit_iff bit_mask_iff bit_drop_bit_eq comp_def
        by (auto simp: possible_bit_word dest: bit_imp_le_length)
    qed
    then show False using assms(2) by (simp add: cached_ram_def)
  qed
  moreover have "cachedArea (drop_bit 29 x)" using cached_ram_pa(4) [OF cache_view_wf [OF assms(1)] assms(2)] .
  ultimately show ?thesis using assms by (simp add: oc_translate_def Let_def cache_view_def)
qed

text \<open>Writing back and replacing a line.\<close>

lemma view_write_back:
  assumes v: "cache_view C ccr s L f" and i: "lines_inv (cc_areas C) ccr L f" "ol_valid (L j)"
  shows "\<exists>s'. doWriteBack C E j s = Ret () s' \<and> cache_view C ccr s' L (p_evict (cc_areas C) j (L j) f)"
proof -
  have l: "line_inv (cc_areas C) ccr f j (L j)" using i(1) by (simp add: lines_inv_def)
  note la = line_inv_address(4) [OF cache_view_wf [OF v] l i(2)]
  have o: "CCR_ORA (CCR s) = 0" using v by (simp add: cache_view_def)
  show ?thesis
    using view_upd_ram [OF v, of "put_line (line_address j (L j) AND RAM_MASK (cc_areas C)) (ol_data (L j))"]
    by (simp add: doWriteBack_def o view_oline [OF v] la Let_def p_evict_def)
qed

lemma view_out:
  assumes "cache_view C ccr s L f" "lines_inv (cc_areas C) ccr L f"
  shows "\<exists>s'. (if ol_dirty (oline j s) \<and> ol_valid (oline j s) then doWriteBack C E j else returnM ()) s = Ret () s' \<and>
    cache_view C ccr s' L (p_out (cc_areas C) j (L j) f)"
  using view_write_back [OF assms, of j E] assms(1) by (auto simp: view_oline p_out_def)

lemma drop_line_off: "5 \<le> n \<Longrightarrow> drop_bit n (x AND NOT 0x1F :: u32) = drop_bit n x"
proof (rule bit_word_eqI)
  show "bit (drop_bit n (x AND NOT 0x1F)) k = bit (drop_bit n x) k" if "5 \<le> n" for k
    unfolding bit_drop_bit_eq comp_def line_off_bit using that bit_imp_le_length [of x "n + k"] by auto
qed

lemma view_line:
  assumes v: "cache_view C ccr s L f" and x: "cached_ram (cc_areas C) x"
  shows "GetMemPtr (cc_areas C) (x AND NOT 0x1F) 32 = Some ((x AND RAM_MASK (cc_areas C)) AND NOT 0x1F)"
proof -
  let ?a = "cc_areas C"
  note a = cache_view_wf [OF v]
  obtain n where n: "n = 24 \<or> n = 25" "RAM_SIZE ?a = 2 ^ n" using RAM_SIZE_mask [OF a] by blast
  have xo: "x AND RAM_MASK ?a < RAM_SIZE ?a" by (rule cached_ram_pa(2) [OF a x])
  have m: "(x AND NOT 0x1F) AND RAM_MASK ?a = (x AND RAM_MASK ?a) AND NOT 0x1F" by (metis and.assoc and.commute)
  have lo: "(x AND RAM_MASK ?a) AND NOT 0x1F < 2 ^ n"
    using xo word_and_le2 [of "x AND RAM_MASK ?a" "NOT 0x1F"] by (simp add: n(2))
  have z: "((x AND RAM_MASK ?a) AND NOT 0x1F) AND NOT 0x1F = (x AND RAM_MASK ?a) AND NOT 0x1F"
    unfolding and.assoc and.idem ..
  have r: "((x AND RAM_MASK ?a) AND NOT 0x1F) + 32 \<le> RAM_SIZE ?a" unfolding n(2) by (rule line_room [OF z lo n(1)])
  have d: "drop_bit 26 (x AND NOT 0x1F) = drop_bit 26 x" "drop_bit 29 (x AND NOT 0x1F) = drop_bit 29 x"
    by (rule drop_line_off, simp)+
  show ?thesis using cached_ram_pa(3) [OF a x] r unfolding GetMemPtr_def IsOnRam_def m d by (simp add: not_less)
qed

lemma view_replace:
  assumes v: "cache_view C ccr s L f" and i: "lines_inv (cc_areas C) ccr L f" and x: "cached_ram (cc_areas C) x"
  defines "j \<equiv> p_idx ccr x"
  defines "f' \<equiv> p_out (cc_areas C) j (L j) f"
  shows "\<exists>s'. oc_replace C E j x s = Ret () s' \<and> cache_view C ccr s' (L(j := p_new_line (cc_areas C) x f')) f'"
proof -
  obtain s1 where s1: "(if ol_dirty (oline j s) \<and> ol_valid (oline j s) then doWriteBack C E j else returnM ()) s = Ret () s1"
    "cache_view C ccr s1 L f'"
    using view_out [OF v i, of j E] by (auto simp: f'_def)
  let ?s2 = "upd_oline j (ol_address_update (\<lambda>_. tag_of x)) s1"
  let ?s3 = "upd_oline j (ol_dirty_update (\<lambda>_. False)) (upd_oline j (ol_valid_update (\<lambda>_. True)) ?s2)"
  let ?s4 = "upd_oline j (ol_data_update (\<lambda>_. get_line ((x AND RAM_MASK (cc_areas C)) AND NOT 0x1F) (m_mem ?s3 (a_ram (cc_areas C))))) ?s3"
  have m: "m_mem ?s3 (a_ram (cc_areas C)) = f'" using s1(2) by (simp add: cache_view_def upd_oline_def)
  let ?L2 = "L(j := ol_address_update (\<lambda>_. tag_of x) (L j))"
  let ?L3 = "?L2(j := ol_valid_update (\<lambda>_. True) (?L2 j))"
  let ?L4 = "?L3(j := ol_dirty_update (\<lambda>_. False) (?L3 j))"
  have "cache_view C ccr ?s3 ?L4 f'" by (intro view_upd_oline s1(2))
  from view_upd_oline [OF this] have
    "cache_view C ccr ?s4 (?L4(j := ol_data_update (\<lambda>_. get_line ((x AND RAM_MASK (cc_areas C)) AND NOT 0x1F) f') (?L4 j))) f'"
    unfolding m .
  moreover have "?L4(j := ol_data_update (\<lambda>_. get_line ((x AND RAM_MASK (cc_areas C)) AND NOT 0x1F) f') (?L4 j)) =
      L(j := p_new_line (cc_areas C) x f')"
    by (cases "L j") (simp add: p_new_line_def)
  ultimately have "cache_view C ccr ?s4 (L(j := p_new_line (cc_areas C) x f')) f'" by metis
  moreover have "oc_replace C E j x s = Ret () (addReadCycles C x 32 ?s4)"
    unfolding oc_replace_def using s1(1) view_line [OF v x] by (simp add: readCacheLine_def Let_def)
  ultimately show ?thesis by auto
qed


text \<open>
  A step: an operation returns, keeps the invariant of the lines, and does to the memory the
  processor sees what \<open>g\<close> does to a flat memory.
\<close>

definition cached_state :: "cache_cfg \<Rightarrow> u32 \<Rightarrow> 'd machine \<Rightarrow> (u32 \<Rightarrow> u8) \<Rightarrow> bool" where
  "cached_state C ccr s m \<longleftrightarrow> (\<exists>L f. cache_view C ccr s L f \<and> lines_inv (cc_areas C) ccr L f \<and>
     (\<forall>off < RAM_SIZE (cc_areas C). p_mem ccr L f off = m off))"

lemma cached_stateI:
  assumes "cache_view C ccr s L f" "lines_inv (cc_areas C) ccr L f"
    "\<And>off. off < RAM_SIZE (cc_areas C) \<Longrightarrow> p_mem ccr L f off = m off"
  shows "cached_state C ccr s m"
  using assms unfolding cached_state_def by blast

lemma cached_stateE:
  assumes "cached_state C ccr s m"
  obtains L f where "cache_view C ccr s L f" "lines_inv (cc_areas C) ccr L f"
    "\<And>off. off < RAM_SIZE (cc_areas C) \<Longrightarrow> p_mem ccr L f off = m off"
  using assms unfolding cached_state_def by blast

text \<open>What is done on a miss.\<close>

lemma cached_fill:
  assumes v: "cache_view C ccr s L f" and i: "lines_inv (cc_areas C) ccr L f" and x: "cached_ram (cc_areas C) x"
  shows "\<exists>s' L' f'. (if oc_hit (p_idx ccr x) x s then returnM () else oc_replace C E (p_idx ccr x) x) s = Ret () s' \<and>
    cache_view C ccr s' L' f' \<and> lines_inv (cc_areas C) ccr L' f' \<and> p_hit L' ccr x \<and>
    (\<forall>off < RAM_SIZE (cc_areas C). p_mem ccr L' f' off = p_mem ccr L f off)"
proof (cases "p_hit L ccr x")
  case True
  then show ?thesis using v i by (auto simp: view_hit [OF v])
next
  case False
  note a = cache_view_wf [OF v]
  obtain s' where "oc_replace C E (p_idx ccr x) x s = Ret () s'"
    "cache_view C ccr s' (L(p_idx ccr x := p_new_line (cc_areas C) x (p_out (cc_areas C) (p_idx ccr x) (L (p_idx ccr x)) f)))
      (p_out (cc_areas C) (p_idx ccr x) (L (p_idx ccr x)) f)"
    using view_replace [OF v i x, of E] by blast
  moreover have "p_hit (L(p_idx ccr x := p_new_line (cc_areas C) x g)) ccr x" for g by (simp add: p_hit_def p_new_line_def)
  ultimately show ?thesis
    using False fill_inv [OF a i x] fill_mem [OF a i x] by (auto simp: view_hit [OF v])
qed

lemma cached_read:
  assumes c: "cached_state C ccr s m" and x: "cached_ram (cc_areas C) x" and A: "byte_access A byt" "aligned A x"
  shows "\<exists>s'. oc_ReadMem C E A x s = Ret (ac_ld A m (x AND RAM_MASK (cc_areas C))) s' \<and> cached_state C ccr s' m"
  using c
proof (rule cached_stateE)
  fix L f
  assume v: "cache_view C ccr s L f" and i: "lines_inv (cc_areas C) ccr L f"
    and m: "\<And>off. off < RAM_SIZE (cc_areas C) \<Longrightarrow> p_mem ccr L f off = m off"
  note a = cache_view_wf [OF v]
  let ?j = "p_idx ccr x"
  obtain cb where t: "oc_translate False (ac_size A) x s = ((NONE, x, True, cb), s)"
    using view_translate [OF v x] A(2) by (auto simp: aligned_def)
  obtain s' L' f' where s': "(if oc_hit (p_idx ccr x) x s then returnM () else oc_replace C E (p_idx ccr x) x) s = Ret () s'"
    "cache_view C ccr s' L' f'" "lines_inv (cc_areas C) ccr L' f'" "p_hit L' ccr x"
    "\<And>off. off < RAM_SIZE (cc_areas C) \<Longrightarrow> p_mem ccr L' f' off = p_mem ccr L f off"
    using cached_fill [OF v i x, of E] by blast
  have "ac_ld A (p_mem ccr L' f') (x AND RAM_MASK (cc_areas C)) = ac_ld A m (x AND RAM_MASK (cc_areas C))"
    by (rule ac_ld_ram [OF a A x]) (simp add: s'(5) m)
  then have "line_ld A (ol_data (oline ?j s')) x = ac_ld A m (x AND RAM_MASK (cc_areas C))"
    using read_mem [OF a s'(3) x s'(4) A] by (simp only: view_oline [OF s'(2)])
  moreover have "oc_ReadMem C E A x s =
      bindM (if oc_hit ?j x s then returnM () else oc_replace C E ?j x) (\<lambda>_. getM (\<lambda>s. line_ld A (ol_data (oline ?j s)) x)) s"
    by (simp add: oc_ReadMem_def t view_index [OF v] Let_def)
  ultimately have "oc_ReadMem C E A x s = Ret (ac_ld A m (x AND RAM_MASK (cc_areas C))) s'"
    unfolding bindM_def s'(1) by simp
  then show ?thesis using cached_stateI [OF s'(2,3)] s'(5) m by metis
qed

text \<open>A write to a cached address, copied back or written through.\<close>

lemma ac_st_cong: "byte_access A byt \<Longrightarrow> g off = h off \<Longrightarrow> ac_st A z v g off = ac_st A z v h off"
  by (simp add: byte_access_def)

lemma cached_copy_back:
  assumes v: "cache_view C ccr s L f" and i: "lines_inv (cc_areas C) ccr L f" and x: "cached_ram (cc_areas C) x"
    and A: "byte_access A byt" "aligned A x" and t: "oc_translate True (ac_size A) x s = ((NONE, x, True, True), s)"
    and m: "\<And>off. off < RAM_SIZE (cc_areas C) \<Longrightarrow> p_mem ccr L f off = m off"
  shows "\<exists>s'. oc_WriteMem C E A x v s = Ret () s' \<and> cached_state C ccr s' (ac_st A (x AND RAM_MASK (cc_areas C)) v m)"
proof -
  note a = cache_view_wf [OF v]
  let ?j = "p_idx ccr x" and ?st = "ac_st A (x AND RAM_MASK (cc_areas C)) v"
  obtain s' L' f' where s': "(if oc_hit ?j x s then returnM () else oc_replace C E ?j x) s = Ret () s'"
    "cache_view C ccr s' L' f'" "lines_inv (cc_areas C) ccr L' f'" "p_hit L' ccr x"
    "\<And>off. off < RAM_SIZE (cc_areas C) \<Longrightarrow> p_mem ccr L' f' off = p_mem ccr L f off"
    using cached_fill [OF v i x, of E] by blast
  let ?s = "upd_oline ?j (ol_data_update (line_st A x v)) (upd_oline ?j (ol_dirty_update (\<lambda>_. True)) s')"
  have "cache_view C ccr ?s (p_upd A x v True ?j L') f'"
    using view_upd_oline [OF view_upd_oline [OF s'(2), of ?j "ol_dirty_update (\<lambda>_. True)"], of ?j "ol_data_update (line_st A x v)"]
    by (cases "L' ?j") (simp add: p_upd_def)
  then have "cached_state C ccr ?s (?st m)"
  proof (rule cached_stateI [OF _ upd_inv [OF s'(3)]])
    show "p_mem ccr (p_upd A x v True ?j L') f' off = ?st m off" if o: "off < RAM_SIZE (cc_areas C)" for off
      unfolding upd_mem [OF a s'(3) x s'(4) A o] by (rule ac_st_cong [OF A(1)]) (simp add: s'(5) m o)
  qed
  moreover have "oc_WriteMem C E A x v s = bindM (if oc_hit ?j x s then returnM () else oc_replace C E ?j x)
      (\<lambda>_. modifyM (\<lambda>s. upd_oline ?j (ol_data_update (line_st A x v)) (upd_oline ?j (ol_dirty_update (\<lambda>_. True)) s))) s"
    by (simp add: oc_WriteMem_def t view_index [OF v] Let_def)
  then have "oc_WriteMem C E A x v s = Ret () ?s" unfolding bindM_def s'(1) by simp
  ultimately show ?thesis by blast
qed

text \<open>Writing through: \<open>ac_write\<close> is a write to main memory.\<close>

definition writes_ram :: "areas \<Rightarrow> ('d, 'v) access \<Rightarrow> bool" where
  "writes_ram a A \<longleftrightarrow> (\<forall>s x v. ram_mapped a s \<longrightarrow> IsOnRam x \<longrightarrow>
     ac_write A x v s = Ret () (upd_block (a_ram a) (ac_st A (x AND RAM_MASK a) v) s))"

lemma writes_ram_sizes:
  "writes_ram a (acc8 E)" "writes_ram a (acc16 E)" "writes_ram a (acc32 E)" "writes_ram a (acc64 E)"
proof -
  have "writet8 E x v8 s = Ret () (upd_block (a_ram a) (\<lambda>f. f(x AND RAM_MASK a := v8)) s) \<and>
      writet16 E x v16 s = Ret () (upd_block (a_ram a) (st16 (x AND RAM_MASK a) v16) s) \<and>
      writet32 E x v32 s = Ret () (upd_block (a_ram a) (st32 (x AND RAM_MASK a) v32) s) \<and>
      writet64 E x v64 s = Ret () (upd_block (a_ram a) (st64 (x AND RAM_MASK a) v64) s)"
    if "ram_mapped a s" "IsOnRam x" for x v8 v16 v32 v64 and s :: "'a machine"
    using ram_mapped_page [OF that] by (simp add: writet8_def writet16_def writet32_def writet64_def)
  then show "writes_ram a (acc8 E)" "writes_ram a (acc16 E)" "writes_ram a (acc32 E)" "writes_ram a (acc64 E)"
    by (simp_all add: writes_ram_def acc8_def acc16_def acc32_def acc64_def)
qed

lemma cached_through:
  assumes v: "cache_view C ccr s L f" and i: "lines_inv (cc_areas C) ccr L f" and x: "cached_ram (cc_areas C) x"
    and A: "byte_access A byt" "aligned A x" "writes_ram (cc_areas C) A"
    and t: "oc_translate True (ac_size A) x s = ((NONE, x, True, False), s)"
    and m: "\<And>off. off < RAM_SIZE (cc_areas C) \<Longrightarrow> p_mem ccr L f off = m off"
  shows "\<exists>s'. oc_WriteMem C E A x v s = Ret () s' \<and> cached_state C ccr s' (ac_st A (x AND RAM_MASK (cc_areas C)) v m)"
proof -
  note a = cache_view_wf [OF v]
  let ?j = "p_idx ccr x" and ?st = "ac_st A (x AND RAM_MASK (cc_areas C)) v"
  let ?s1 = "if p_hit L ccr x then upd_oline ?j (ol_data_update (line_st A x v)) s else s"
  have "cache_view C ccr ?s1 (p_through A x v ccr L) f"
    using view_upd_oline [OF v, of ?j "ol_data_update (line_st A x v)"] v
    by (cases "L ?j") (simp add: p_through_def p_upd_def)
  then have v2: "cache_view C ccr (upd_block (a_ram (cc_areas C)) ?st ?s1) (p_through A x v ccr L) (?st f)"
    by (rule view_upd_ram)
  let ?s = "addWriteThroughCycles C x (ac_size A) (upd_block (a_ram (cc_areas C)) ?st ?s1)"
  have "cache_view C ccr ?s (p_through A x v ccr L) (?st f)" using v2 by simp
  then have "cached_state C ccr ?s (?st m)"
  proof (rule cached_stateI [OF _ through_inv [OF a i x A(1,2)]])
    show "p_mem ccr (p_through A x v ccr L) (?st f) off = ?st m off" if o: "off < RAM_SIZE (cc_areas C)" for off
      unfolding through_mem [OF a i x A(1,2) o] by (rule ac_st_cong [OF A(1)]) (simp add: m o)
  qed
  moreover have "ram_mapped (cc_areas C) ?s1" using v by (auto simp: cache_view_def ram_mapped_def upd_oline_def)
  then have "ac_write A x v ?s1 = Ret () (upd_block (a_ram (cc_areas C)) ?st ?s1)"
    using A(3) cached_ram_pa(3) [OF a x] by (simp add: writes_ram_def)
  then have "oc_WriteMem C E A x v s = Ret () ?s"
    by (simp add: oc_WriteMem_def t view_index [OF v] view_hit [OF v] Let_def split: if_splits)
  ultimately show ?thesis by blast
qed

lemma cached_write:
  assumes c: "cached_state C ccr s m" and x: "cached_ram (cc_areas C) x"
    and A: "byte_access A byt" "aligned A x" "writes_ram (cc_areas C) A"
  shows "\<exists>s'. oc_WriteMem C E A x v s = Ret () s' \<and> cached_state C ccr s' (ac_st A (x AND RAM_MASK (cc_areas C)) v m)"
  using c
proof (rule cached_stateE)
  fix L f
  assume v: "cache_view C ccr s L f" and i: "lines_inv (cc_areas C) ccr L f"
    and m: "\<And>off. off < RAM_SIZE (cc_areas C) \<Longrightarrow> p_mem ccr L f off = m off"
  obtain cb where t: "oc_translate True (ac_size A) x s = ((NONE, x, True, cb), s)"
    using view_translate [OF v x] A(2) by (auto simp: aligned_def)
  show ?thesis
    using t cached_copy_back [OF v i x A(1,2) _ m] cached_through [OF v i x A _ m] by (cases cb) simp_all
qed

text \<open>The operations on lines by address, and on all lines.\<close>

lemma cached_WriteBack:
  assumes c: "cached_state C ccr s m" and x: "cached_ram (cc_areas C) x"
  shows "\<exists>s'. oc_WriteBack C E x True inval s = Ret () s' \<and> cached_state C ccr s' m"
  using c
proof (rule cached_stateE)
  fix L f
  assume v: "cache_view C ccr s L f" and i: "lines_inv (cc_areas C) ccr L f"
    and m: "\<And>off. off < RAM_SIZE (cc_areas C) \<Longrightarrow> p_mem ccr L f off = m off"
  note a = cache_view_wf [OF v]
  let ?j = "p_idx ccr x"
  obtain cb where t: "oc_translate True 1 x s = ((NONE, x, True, cb), s)"
    using view_translate [OF v x, of 1] by auto
  show ?thesis
  proof (cases "p_hit L ccr x")
    case True
    obtain s1 where s1: "(if ol_dirty (oline ?j s) \<and> ol_valid (oline ?j s) then doWriteBack C E ?j else returnM ()) s = Ret () s1"
      "cache_view C ccr s1 L (p_out (cc_areas C) ?j (L ?j) f)"
      using view_out [OF v i] by blast
    have hv: "ol_valid (L ?j)" using True by (simp add: p_hit_def)
    let ?s = "upd_oline ?j (ol_dirty_update (\<lambda>_. False)) (upd_oline ?j (ol_valid_update (\<lambda>_. \<not> inval)) s1)"
    have "cache_view C ccr ?s (p_drop (\<not> inval) ?j L) (p_out (cc_areas C) ?j (L ?j) f)"
      using view_upd_oline [OF view_upd_oline [OF s1(2), of ?j "ol_valid_update (\<lambda>_. \<not> inval)"], of ?j "ol_dirty_update (\<lambda>_. False)"]
      by (simp add: p_drop_def)
    then have "cached_state C ccr ?s m"
      using drop_inv [OF a i] drop_mem [OF a i] hv m by (intro cached_stateI) auto
    moreover have "(if True \<and> ol_dirty (oline ?j s) then doWriteBack C E ?j else returnM ()) s = Ret () s1"
      using s1(1) hv by (simp add: view_oline [OF v])
    then have "oc_WriteBack C E x True inval s = Ret () ?s"
      using True by (simp add: oc_WriteBack_def t view_index [OF v] view_hit [OF v] Let_def split: if_splits)
    ultimately show ?thesis by blast
  next
    case False
    then have "oc_WriteBack C E x True inval s = Ret () s"
      by (simp add: oc_WriteBack_def t view_index [OF v] view_hit [OF v] Let_def)
    then show ?thesis using c by blast
  qed
qed

lemma cached_Prefetch:
  assumes c: "cached_state C ccr s m" and x: "cached_ram (cc_areas C) (x AND NOT 0x1F)"
  shows "\<exists>s'. oc_Prefetch C E x s = Ret () s' \<and> cached_state C ccr s' m"
  using c
proof (rule cached_stateE)
  fix L f
  assume v: "cache_view C ccr s L f" and i: "lines_inv (cc_areas C) ccr L f"
    and m: "\<And>off. off < RAM_SIZE (cc_areas C) \<Longrightarrow> p_mem ccr L f off = m off"
  define y where "y = x AND NOT 0x1F"
  let ?j = "p_idx ccr y"
  have y: "cached_ram (cc_areas C) y" using x by (simp only: y_def)
  obtain cb where t: "oc_translate False 1 y s = ((NONE, y, True, cb), s)"
    using view_translate [OF v y, of 1] by auto
  obtain s' L' f' where s': "(if oc_hit ?j y s then returnM () else oc_replace C E ?j y) s = Ret () s'"
    "cache_view C ccr s' L' f'" "lines_inv (cc_areas C) ccr L' f'" "p_hit L' ccr y"
    "\<And>off. off < RAM_SIZE (cc_areas C) \<Longrightarrow> p_mem ccr L' f' off = p_mem ccr L f off"
    using cached_fill [OF v i y, of E] by blast
  have "oc_Prefetch C E x s = Ret () s'"
    using s'(1) unfolding oc_Prefetch_def y_def [symmetric] Let_def t prod.case view_index [OF v]
    by (simp split: if_splits)
  then show ?thesis using cached_stateI [OF s'(2,3)] s'(5) m by metis
qed

lemma cached_flush:
  assumes v: "cache_view C ccr s L f" and i: "lines_inv (cc_areas C) ccr L f"
  shows "\<exists>s' L' f'. write_back_lines C E js s = Ret () s' \<and> cache_view C ccr s' L' f' \<and> lines_inv (cc_areas C) ccr L' f' \<and>
    (\<forall>k. ol_valid (L' k) \<longrightarrow> ol_valid (L k) \<and> k \<notin> set js) \<and>
    (\<forall>off < RAM_SIZE (cc_areas C). p_mem ccr L' f' off = p_mem ccr L f off)"
  using v i
proof (induction js arbitrary: s L f)
  case (Cons j js)
  note v = Cons.prems(1) and i = Cons.prems(2)
  note a = cache_view_wf [OF v]
  obtain s1 where s1: "(if ol_dirty (oline j s) \<and> ol_valid (oline j s) then doWriteBack C E j else returnM ()) s = Ret () s1"
    "cache_view C ccr s1 L (p_out (cc_areas C) j (L j) f)"
    using view_out [OF v i] by blast
  let ?f = "p_out (cc_areas C) j (L j) f"
  let ?s = "upd_oline j (ol_dirty_update (\<lambda>_. False)) (upd_oline j (ol_valid_update (\<lambda>_. False)) s1)"
  have v2: "cache_view C ccr ?s (p_drop False j L) ?f"
    using view_upd_oline [OF view_upd_oline [OF s1(2), of j "ol_valid_update (\<lambda>_. False)"], of j "ol_dirty_update (\<lambda>_. False)"]
    by (simp add: p_drop_def)
  have i2: "lines_inv (cc_areas C) ccr (p_drop False j L) ?f" by (rule drop_inv [OF a i]) simp
  obtain s' L' f' where s': "write_back_lines C E js ?s = Ret () s'" "cache_view C ccr s' L' f'" "lines_inv (cc_areas C) ccr L' f'"
    "\<forall>k. ol_valid (L' k) \<longrightarrow> ol_valid (p_drop False j L k) \<and> k \<notin> set js"
    "\<forall>off < RAM_SIZE (cc_areas C). p_mem ccr L' f' off = p_mem ccr (p_drop False j L) ?f off"
    using Cons.IH [OF v2 i2] by blast
  have "(if ol_valid (oline j s) \<and> ol_dirty (oline j s) then doWriteBack C E j s else Ret () s) = Ret () s1"
    using s1(1) by (auto split: if_splits)
  then have "write_back_lines C E (j # js) s = Ret () s'"
    using s'(1) by (simp add: bindM_def)
  moreover have "\<forall>k. ol_valid (L' k) \<longrightarrow> ol_valid (L k) \<and> k \<notin> set (j # js)"
    using s'(4) by (auto simp: p_drop_def split: if_splits)
  ultimately show ?case
    using s'(2,3,5) drop_mem [OF a i, of False j] by auto
qed auto

lemma all_lines: "(k :: 9 word) \<in> set (map of_nat [0..<512])"
proof -
  have "unat k < 512" using unsigned_less [of k, where 'a = nat] by simp
  moreover have "k = of_nat (unat k)" by simp
  ultimately show ?thesis unfolding set_map set_upt by (intro image_eqI [of _ _ "unat k"]) simp_all
qed

lemma cached_WriteBackAll:
  assumes c: "cached_state C ccr s m"
  shows "\<exists>s'. WriteBackAll C E s = Ret () s' \<and> cached_state C ccr s' m \<and>
    (\<forall>off < RAM_SIZE (cc_areas C). m_mem s' (a_ram (cc_areas C)) off = m off)"
  using c
proof (rule cached_stateE)
  fix L f
  assume v: "cache_view C ccr s L f" and i: "lines_inv (cc_areas C) ccr L f"
    and m: "\<And>off. off < RAM_SIZE (cc_areas C) \<Longrightarrow> p_mem ccr L f off = m off"
  obtain s' L' f' where s': "WriteBackAll C E s = Ret () s'" "cache_view C ccr s' L' f'" "lines_inv (cc_areas C) ccr L' f'"
    "\<forall>k. \<not> ol_valid (L' k)" "\<forall>off < RAM_SIZE (cc_areas C). p_mem ccr L' f' off = p_mem ccr L f off"
    using cached_flush [OF v i, of E "map of_nat [0..<512]"] all_lines unfolding WriteBackAll_def by metis
  have "f' off = m off" if "off < RAM_SIZE (cc_areas C)" for off
    using s'(4,5) m that by (simp add: p_mem_def p_hit_def)
  then show ?thesis
    using s' cached_stateI [OF s'(2,3)] m by (auto simp: cache_view_def)
qed

section \<open>Sequences of accesses\<close>

text \<open>The accesses of the processor to cached main memory; values as words of 64 bits.\<close>

datatype cpu_op =
    Read8 u32 | Read16 u32 | Read32 u32 | Read64 u32
  | Write8 u32 u8 | Write16 u32 u16 | Write32 u32 u32 | Write64 u32 u64
  | Purge u32 | Write_back u32 | Prefetch u32

fun cpu_access :: "cache_cfg \<Rightarrow> 'd env \<Rightarrow> cpu_op \<Rightarrow> ('d, u64) SM" where
  "cpu_access C E (Read8 x) = bindM (oc_ReadMem C E (acc8 E) x) (\<lambda>v. returnM (ucast v))"
| "cpu_access C E (Read16 x) = bindM (oc_ReadMem C E (acc16 E) x) (\<lambda>v. returnM (ucast v))"
| "cpu_access C E (Read32 x) = bindM (oc_ReadMem C E (acc32 E) x) (\<lambda>v. returnM (ucast v))"
| "cpu_access C E (Read64 x) = oc_ReadMem C E (acc64 E) x"
| "cpu_access C E (Write8 x v) = bindM (oc_WriteMem C E (acc8 E) x v) (\<lambda>_. returnM 0)"
| "cpu_access C E (Write16 x v) = bindM (oc_WriteMem C E (acc16 E) x v) (\<lambda>_. returnM 0)"
| "cpu_access C E (Write32 x v) = bindM (oc_WriteMem C E (acc32 E) x v) (\<lambda>_. returnM 0)"
| "cpu_access C E (Write64 x v) = bindM (oc_WriteMem C E (acc64 E) x v) (\<lambda>_. returnM 0)"
| "cpu_access C E (Purge x) = bindM (oc_WriteBack C E x True True) (\<lambda>_. returnM 0)"
| "cpu_access C E (Write_back x) = bindM (oc_WriteBack C E x True False) (\<lambda>_. returnM 0)"
| "cpu_access C E (Prefetch x) = bindM (oc_Prefetch C E x) (\<lambda>_. returnM 0)"

fun flat_access :: "areas \<Rightarrow> cpu_op \<Rightarrow> (u32 \<Rightarrow> u8) \<Rightarrow> u64 \<times> (u32 \<Rightarrow> u8)" where
  "flat_access a (Read8 x) m = (ucast (m (x AND RAM_MASK a)), m)"
| "flat_access a (Read16 x) m = (ucast (ld16 m (x AND RAM_MASK a)), m)"
| "flat_access a (Read32 x) m = (ucast (ld32 m (x AND RAM_MASK a)), m)"
| "flat_access a (Read64 x) m = (ld64 m (x AND RAM_MASK a), m)"
| "flat_access a (Write8 x v) m = (0, m(x AND RAM_MASK a := v))"
| "flat_access a (Write16 x v) m = (0, st16 (x AND RAM_MASK a) v m)"
| "flat_access a (Write32 x v) m = (0, st32 (x AND RAM_MASK a) v m)"
| "flat_access a (Write64 x v) m = (0, st64 (x AND RAM_MASK a) v m)"
| "flat_access a (Purge x) m = (0, m)"
| "flat_access a (Write_back x) m = (0, m)"
| "flat_access a (Prefetch x) m = (0, m)"

fun cpu_op_ok :: "areas \<Rightarrow> cpu_op \<Rightarrow> bool" where
  "cpu_op_ok a (Read8 x) = cached_ram a x"
| "cpu_op_ok a (Read16 x) = (cached_ram a x \<and> x AND 1 = 0)"
| "cpu_op_ok a (Read32 x) = (cached_ram a x \<and> x AND 3 = 0)"
| "cpu_op_ok a (Read64 x) = (cached_ram a x \<and> x AND 7 = 0)"
| "cpu_op_ok a (Write8 x v) = cached_ram a x"
| "cpu_op_ok a (Write16 x v) = (cached_ram a x \<and> x AND 1 = 0)"
| "cpu_op_ok a (Write32 x v) = (cached_ram a x \<and> x AND 3 = 0)"
| "cpu_op_ok a (Write64 x v) = (cached_ram a x \<and> x AND 7 = 0)"
| "cpu_op_ok a (Purge x) = cached_ram a x"
| "cpu_op_ok a (Write_back x) = cached_ram a x"
| "cpu_op_ok a (Prefetch x) = cached_ram a (x AND NOT 0x1F)"

fun cpu_accesses :: "cache_cfg \<Rightarrow> 'd env \<Rightarrow> cpu_op list \<Rightarrow> ('d, u64 list) SM" where
  "cpu_accesses C E [] = returnM []"
| "cpu_accesses C E (p # ps) =
     bindM (cpu_access C E p) (\<lambda>v. bindM (cpu_accesses C E ps) (\<lambda>vs. returnM (v # vs)))"

fun flat_accesses :: "areas \<Rightarrow> cpu_op list \<Rightarrow> (u32 \<Rightarrow> u8) \<Rightarrow> u64 list \<times> (u32 \<Rightarrow> u8)" where
  "flat_accesses a [] m = ([], m)"
| "flat_accesses a (p # ps) m =
     (case flat_access a p m of (v, m1) \<Rightarrow> case flat_accesses a ps m1 of (vs, m2) \<Rightarrow> (v # vs, m2))"

lemma ac_fields:
  "ac_ld (acc8 E) = (\<lambda>f a. f a)" "ac_st (acc8 E) = (\<lambda>a v f. f(a := v))"
  "ac_ld (acc16 E) = ld16" "ac_st (acc16 E) = st16" "ac_ld (acc32 E) = ld32" "ac_st (acc32 E) = st32"
  "ac_ld (acc64 E) = ld64" "ac_st (acc64 E) = st64"
  by (simp_all add: acc8_def acc16_def acc32_def acc64_def)

lemma aligned_sizes:
  "aligned (acc8 E) x" "aligned (acc16 E) x = (x AND 1 = 0)"
  "aligned (acc32 E) x = (x AND 3 = 0)" "aligned (acc64 E) x = (x AND 7 = 0)"
  by (simp_all add: aligned_def acc8_def acc16_def acc32_def acc64_def)

lemma bindM_exists:
  "(\<exists>s'. m s = Ret v s' \<and> P s') \<Longrightarrow> (\<And>s'. P s' \<Longrightarrow> \<exists>s''. k v s' = Ret w s'' \<and> Q s'') \<Longrightarrow> \<exists>s''. bindM m k s = Ret w s'' \<and> Q s''"
  by (auto simp: bindM_def)

lemma bindM_exists_return:
  "(\<exists>s'. m s = Ret v s' \<and> P s') \<Longrightarrow> g v = w \<Longrightarrow> \<exists>s''. bindM m (\<lambda>v. returnM (g v)) s = Ret w s'' \<and> P s''"
  by (auto simp: bindM_def)

lemma cached_sizes:
  assumes c: "cached_state C ccr s m" and x: "cached_ram (cc_areas C) x"
  defines "xo \<equiv> x AND RAM_MASK (cc_areas C)"
  shows "\<exists>s'. oc_ReadMem C E (acc8 E) x s = Ret (m xo) s' \<and> cached_state C ccr s' m"
    "x AND 1 = 0 \<Longrightarrow> \<exists>s'. oc_ReadMem C E (acc16 E) x s = Ret (ld16 m xo) s' \<and> cached_state C ccr s' m"
    "x AND 3 = 0 \<Longrightarrow> \<exists>s'. oc_ReadMem C E (acc32 E) x s = Ret (ld32 m xo) s' \<and> cached_state C ccr s' m"
    "x AND 7 = 0 \<Longrightarrow> \<exists>s'. oc_ReadMem C E (acc64 E) x s = Ret (ld64 m xo) s' \<and> cached_state C ccr s' m"
    "\<exists>s'. oc_WriteMem C E (acc8 E) x v8 s = Ret () s' \<and> cached_state C ccr s' (m(xo := v8))"
    "x AND 1 = 0 \<Longrightarrow> \<exists>s'. oc_WriteMem C E (acc16 E) x v16 s = Ret () s' \<and> cached_state C ccr s' (st16 xo v16 m)"
    "x AND 3 = 0 \<Longrightarrow> \<exists>s'. oc_WriteMem C E (acc32 E) x v32 s = Ret () s' \<and> cached_state C ccr s' (st32 xo v32 m)"
    "x AND 7 = 0 \<Longrightarrow> \<exists>s'. oc_WriteMem C E (acc64 E) x v64 s = Ret () s' \<and> cached_state C ccr s' (st64 xo v64 m)"
  using cached_read [OF c x byte_access_sizes(1), of E E] cached_read [OF c x byte_access_sizes(2), of E E]
    cached_read [OF c x byte_access_sizes(3), of E E] cached_read [OF c x byte_access_sizes(4), of E E]
    cached_write [OF c x byte_access_sizes(1) _ writes_ram_sizes(1), of E E v8] cached_write [OF c x byte_access_sizes(2) _ writes_ram_sizes(2), of E E v16]
    cached_write [OF c x byte_access_sizes(3) _ writes_ram_sizes(3), of E E v32] cached_write [OF c x byte_access_sizes(4) _ writes_ram_sizes(4), of E E v64]
  by (simp_all add: aligned_sizes xo_def ac_fields)

lemma cached_access:
  assumes c: "cached_state C ccr s m" and p: "cpu_op_ok (cc_areas C) p"
  shows "\<exists>s'. cpu_access C E p s = Ret (fst (flat_access (cc_areas C) p m)) s' \<and>
    cached_state C ccr s' (snd (flat_access (cc_areas C) p m))"
  using p cached_sizes [OF c, of _ E] cached_WriteBack [OF c, of _ E] cached_Prefetch [OF c, of _ E]
  by (cases p) (auto intro!: bindM_exists_return)

lemma cached_accesses:
  "cached_state C ccr s m \<Longrightarrow> list_all (cpu_op_ok (cc_areas C)) ps \<Longrightarrow>
    \<exists>s'. cpu_accesses C E ps s = Ret (fst (flat_accesses (cc_areas C) ps m)) s' \<and>
      cached_state C ccr s' (snd (flat_accesses (cc_areas C) ps m))"
proof (induction ps arbitrary: s m)
  case (Cons p ps)
  obtain v m1 where f: "flat_access (cc_areas C) p m = (v, m1)" by fastforce
  obtain s1 where s1: "cpu_access C E p s = Ret v s1" "cached_state C ccr s1 m1"
    using cached_access [OF Cons.prems(1), of p E] Cons.prems(2) f by auto
  obtain s2 where "cpu_accesses C E ps s1 = Ret (fst (flat_accesses (cc_areas C) ps m1)) s2"
    "cached_state C ccr s2 (snd (flat_accesses (cc_areas C) ps m1))"
    using Cons.IH [OF s1(2)] Cons.prems(2) by auto
  then show ?case using s1(1) by (simp add: f case_prod_unfold)
qed auto

text \<open>After a reset of the machine no line is valid, and the processor sees main memory.\<close>

lemma reset_cached:
  assumes "ram_mapped (cc_areas C) s" "CCR_OCE (CCR s) = 1" "CCR_ORA (CCR s) = 0"
    "MMUCR_AT (CCN_MMUCR (m_ccn s)) = 0" "st_MD (ctx_status (m_ctx s)) \<noteq> 0"
  shows "cached_state C (CCR s) (oc_Reset True s) (m_mem s (a_ram (cc_areas C)))"
proof (rule cached_stateI)
  show "cache_view C (CCR s) (oc_Reset True s) (\<lambda>_. zero_oline) (m_mem s (a_ram (cc_areas C)))"
    using assms by (simp add: cache_view_def oc_Reset_def ram_mapped_def)
qed (simp_all add: lines_inv_def line_inv_def zero_oline_def p_mem_def p_hit_def)

text \<open>C8: With the operand cache on, without its RAM mode and address translation, any sequence
  of aligned reads and writes (8 to 64 bits), prefetches, purges and write-backs of lines in the
  cached addresses of main memory returns the values a flat memory returns, whatever lines are
  replaced on the way, whichever of copy-back and write-through the areas use, and through
  whichever of P0, P1 and P3 a byte is addressed; writing back all lines then leaves the contents
  of that flat memory in main memory.\<close>
theorem cache_transparent:
  assumes "cached_state C ccr s m" and "list_all (cpu_op_ok (cc_areas C)) ps"
  shows "\<exists>s' s''. cpu_accesses C E ps s = Ret (fst (flat_accesses (cc_areas C) ps m)) s' \<and>
    cached_state C ccr s' (snd (flat_accesses (cc_areas C) ps m)) \<and>
    WriteBackAll C E s' = Ret () s'' \<and>
    (\<forall>off < RAM_SIZE (cc_areas C). m_mem s'' (a_ram (cc_areas C)) off = snd (flat_accesses (cc_areas C) ps m) off)"
proof -
  obtain s' where s': "cpu_accesses C E ps s = Ret (fst (flat_accesses (cc_areas C) ps m)) s'"
    "cached_state C ccr s' (snd (flat_accesses (cc_areas C) ps m))"
    using cached_accesses [OF assms, of E] by blast
  then show ?thesis using cached_WriteBackAll [OF s'(2), of E] by blast
qed

definition cache_example :: "unit machine" where
  "cache_example = (mapped_machine ())\<lparr>m_ccn := (m_ccn (mapped_machine ()))\<lparr>CCN_CCR := 0x105, CCN_MMUCR := 0\<rparr>,
     m_ctx := upd_status (\<lambda>_. 0x40000000) (m_ctx (mapped_machine ()))\<rparr>"

theorem cache_transparent_witness:
  "\<exists>s' s''. cpu_accesses example_cfg idle_env [Write32 0x8C000040 0x12345678, Read32 0x8C004040, Read16 0x0C000042]
      (oc_Reset True cache_example) = Ret [0, 0, 0x1234] s' \<and>
    WriteBackAll example_cfg idle_env s' = Ret () s'' \<and> m_mem s'' 0 0x43 = 0x12"
proof -
  have c: "cached_state example_cfg 0x105 (oc_Reset True cache_example) (m_mem cache_example 0)"
    using reset_cached [of example_cfg cache_example] mapped_machine_ram [of "()"]
    by (simp add: example_cfg_def cache_example_def dreamcast_RAM ram_mapped_def upd_status_def ctx_status_def
        CCR_OCE_def CCR_ORA_def MMUCR_AT_def st_MD_def fld_def)
  let ?m = "st32 0x40 0x12345678 (\<lambda>_. 0)"
  have z: "m_mem cache_example 0 = (\<lambda>_. 0)"
    by (simp add: cache_example_def mapped_machine_def zero_machine_def)
  have f: "flat_accesses dreamcast_areas [Write32 0x8C000040 0x12345678, Read32 0x8C004040, Read16 0x0C000042] (\<lambda>_. 0) =
      ([0, 0, 0x1234], ?m)" "?m 0x43 = 0x12"
    by (simp_all add: dreamcast_RAM ld32_def ld16_def st32_def st16_def)
  have k: "list_all (cpu_op_ok dreamcast_areas) [Write32 0x8C000040 0x12345678, Read32 0x8C004040, Read16 0x0C000042]"
    by (simp add: cached_ram_def dreamcast_RAM)
  have e: "cc_areas example_cfg = dreamcast_areas" by (simp add: example_cfg_def)
  have "(0x43 :: u32) < RAM_SIZE dreamcast_areas" by (simp add: dreamcast_RAM)
  then show ?thesis
    using cache_transparent [OF c, unfolded e, OF k, of idle_env]
    unfolding z f(1) fst_conv snd_conv dreamcast_RAM(3) using f(2) by metis
qed

end
