(* ===== verification/Sh4_Division.thy ===== *)
theory Sh4_Division
  imports Sh4_Ops_Arith
begin

text \<open>
  Division: \<^verbatim>\<open>div0u\<close> followed by 32 times \<^verbatim>\<open>rotcl\<close> and \<^verbatim>\<open>div1\<close>, the sequence by which SH4 programs
  divide a 64-bit number by a 32-bit one. One \<^verbatim>\<open>div1\<close> is a step of non-restoring division on
  the 33-bit partial remainder that the bit Q and the register make up.
\<close>

section \<open>One step\<close>

lemma st_Q_simps [simp]:
  "st_Q (set_Q v st) = take_bit 1 v" "st_M (set_Q v st) = st_M st"
  "st_M (set_M v st) = take_bit 1 v" "st_Q (set_M v st) = st_Q st"
  by (simp_all add: st_defs set_st_defs field_simps_bits)

lemma take_bit_1_bool [simp]: "take_bit 1 (bool_u32 b) = bool_u32 b" "take_bit (Suc 0) (bool_u32 b) = bool_u32 b"
  "bool_u32 b mod 2 = bool_u32 b"
  by (simp_all add: bool_u32_def)

lemma bool_u32_xor [simp]: "bool_u32 a XOR bool_u32 b = bool_u32 (a \<noteq> b)"
  by (simp add: bool_u32_def)

lemma st_Q_cases: "st_Q st = 0 \<or> st_Q st = 1"
proof -
  have "unat (st_Q st) < 2" using fld_less [of 1 8 st] by (simp add: st_Q_def word_less_nat_alt)
  then have "unat (st_Q st) = 0 \<or> unat (st_Q st) = 1" by linarith
  then show ?thesis by (auto simp: word_unat_eq_iff)
qed

definition div1_x :: "u32 \<Rightarrow> bool \<Rightarrow> u32" where
  "div1_x rn t = push_bit 1 rn OR bool_u32 t"

definition div1_r :: "bool \<Rightarrow> u32 \<Rightarrow> u32 \<Rightarrow> bool \<Rightarrow> u32" where
  "div1_r q d rn t = (if q then div1_x rn t + d else div1_x rn t - d)"

definition div1_q :: "bool \<Rightarrow> u32 \<Rightarrow> u32 \<Rightarrow> bool \<Rightarrow> bool" where
  "div1_q q d rn t \<longleftrightarrow> bit rn 31 \<noteq>
     (if q then div1_r q d rn t < div1_x rn t else div1_r q d rn t > div1_x rn t)"

lemma msb_test: "0x80000000 AND (x :: u32) \<noteq> 0 \<longleftrightarrow> bit x 31"
proof -
  have e: "(0x80000000 :: u32) = 2 ^ 31" by simp
  show ?thesis unfolding e by (simp only: and.commute [of "2 ^ 31"]) (simp add: bit_iff_and_push_bit_not_eq_0 push_bit_eq_mult)
qed

lemma ctx_upd_simps [simp]:
  "ctx_r (set_r n v c) = (ctx_r c)(n := v)" "ctx_status (set_r n v c) = ctx_status c"
  "ctx_T (set_r n v c) = ctx_T c" "ctx_r (upd_status f c) = ctx_r c"
  "ctx_status (upd_status f c) = f (ctx_status c)" "ctx_T (upd_status f c) = ctx_T c"
  "ctx_r (set_T v c) = ctx_r c" "ctx_status (set_T v c) = ctx_status c" "ctx_T (set_T v c) = v"
  by (simp_all add: set_r_def upd_status_def set_T_def ctx_status_def ctx_T_def)

lemma div1_step:
  assumes "GetN op = n" "GetM op = m" "n \<noteq> m" "st_M (ctx_status c) = 0" "ctx_T c = bool_u32 t"
    "st_Q (ctx_status c) = bool_u32 q"
  defines "c' \<equiv> i0011_nnnn_mmmm_0100 op c"
  shows "ctx_r c' = (ctx_r c)(n := div1_r q (ctx_r c m) (ctx_r c n) t)"
    "st_M (ctx_status c') = 0" "st_Q (ctx_status c') = bool_u32 (div1_q q (ctx_r c m) (ctx_r c n) t)"
    "ctx_T c' = bool_u32 (\<not> div1_q q (ctx_r c m) (ctx_r c n) t)"
  using assms(1-6) unfolding c'_def i0011_nnnn_mmmm_0100_def
  by (simp_all add: Let_def msb_test div1_r_def div1_q_def div1_x_def)

lemma rotcl_step:
  assumes "GetN op = l" "ctx_T c = bool_u32 t"
  defines "c' \<equiv> i0100_nnnn_0010_0100 op c"
  shows "ctx_r c' = (ctx_r c)(l := div1_x (ctx_r c l) t)" "ctx_status c' = ctx_status c"
    "ctx_T c' = bool_u32 (bit (ctx_r c l) 31)"
  using assms(1,2) unfolding c'_def i0100_nnnn_0010_0100_def
  by (simp_all add: Let_def div1_x_def drop_31 bool_u32_def)

section \<open>The arithmetic of the step\<close>

lemma uint_bool_u32: "uint (bool_u32 b) = of_bool b"
  by (simp add: bool_u32_def)

lemma uint_div1_x: "uint (div1_x rn t) = (2 * uint rn + of_bool t) mod 2 ^ 32"
proof -
  have "push_bit 1 rn AND bool_u32 t = 0"
  proof (rule bit_word_eqI)
    fix n
    show "bit (push_bit 1 rn AND bool_u32 t) n = bit (0 :: u32) n"
      by (cases "n = 0") (auto simp: bit_and_iff bool_u32_def bit_1_iff bit_0 even_and_iff)
  qed
  then have "div1_x rn t = push_bit 1 rn + bool_u32 t"
    unfolding div1_x_def by (rule disjunctive_add_eq_or [symmetric])
  then show ?thesis by (simp add: uint_word_ariths uint_bool_u32 mod_simps push_bit_eq_mult mult.commute)
qed

lemma bit_31: "bit (rn :: u32) 31 \<longleftrightarrow> 2 ^ 31 \<le> uint rn"
proof -
  define x where "x = uint rn"
  have x: "0 \<le> x" "x < 4294967296" using unsigned_less [of rn, where 'a = int] by (simp_all add: x_def)
  have "bit rn 31 \<longleftrightarrow> bit x 31" by (simp add: x_def bit_uint_iff)
  also have "\<dots> \<longleftrightarrow> odd (x div 2147483648)" by (simp add: bit_iff_odd)
  also have "\<dots> \<longleftrightarrow> 2147483648 \<le> x"
  proof (cases "2147483648 \<le> x")
    case True
    then have "x div 2147483648 = 1"
      using x(2) div_pos_pos_trivial [of "x - 2147483648" 2147483648] by simp
    with True show ?thesis by simp
  qed (use x in \<open>simp add: div_pos_pos_trivial\<close>)
  finally show ?thesis by (simp add: x_def)
qed

text \<open>
  The partial remainder that Q and the register stand for, and the step on it: \<open>p\<close> is in
  \<open>[- d, d)\<close> before the step and after.
\<close>

definition partial :: "bool \<Rightarrow> u32 \<Rightarrow> int" where
  "partial q rn = uint rn - (if q then 2 ^ 32 else 0)"

lemma partial_step:
  assumes "- uint d \<le> partial q rn" "partial q rn < uint d"
  shows "partial (div1_q q d rn t) (div1_r q d rn t) =
    2 * partial q rn + of_bool t + (if q then uint d else - uint d)"
proof -
  have u: "0 \<le> uint x" "uint x < 4294967296" for x :: u32
    using unsigned_less [of x, where 'a = int] by simp_all
  define x where "x = div1_x rn t"
  have x: "uint x = 2 * uint rn + of_bool t - (if bit rn 31 then 4294967296 else 0)"
  proof -
    have "2 * uint rn + of_bool t - (if bit rn 31 then 4294967296 else 0) \<in> {0..<4294967296}"
      using u [of rn] by (simp add: bit_31)
    moreover have "uint x = (2 * uint rn + of_bool t - (if bit rn 31 then 4294967296 else 0)) mod 4294967296"
      by (simp add: x_def uint_div1_x)
    ultimately show ?thesis by (simp add: mod_pos_pos_trivial)
  qed
  show ?thesis
  proof (cases q)
    case True
    have r: "uint (x + d) = uint x + uint d - (if x + d < x then 4294967296 else 0)"
      using u [of x] u [of d] by (simp add: uint_plus_if' word_less_def split: if_splits)
    have o: "x + d < x \<longleftrightarrow> 4294967296 \<le> uint x + uint d"
    proof
      assume "x + d < x"
      with r have "uint (x + d) = uint x + uint d - 4294967296" by simp
      with u(1) [of "x + d"] show "4294967296 \<le> uint x + uint d" by linarith
    next
      assume le: "4294967296 \<le> uint x + uint d"
      show "x + d < x"
      proof (rule ccontr)
        assume "\<not> x + d < x"
        with r have "uint (x + d) = uint x + uint d" by simp
        with le u(2) [of "x + d"] show False by linarith
      qed
    qed
    show ?thesis
      using assms True r o x u [of rn] u [of d] u [of "x + d"]
      by (simp add: partial_def div1_q_def div1_r_def x_def [symmetric] split: if_splits)
  next
    case False
    have r: "uint (x - d) = uint x - uint d + (if x < d then 4294967296 else 0)"
      using u [of x] u [of d] by (simp add: uint_sub_if' word_less_def split: if_splits)
    have o: "x - d > x \<longleftrightarrow> x < d"
      using r u [of "x - d"] u [of x] u [of d] by (auto simp: word_less_def split: if_splits)
    show ?thesis
      using assms False r o x u [of rn] u [of d] u [of "x - d"]
      by (simp add: partial_def div1_q_def div1_r_def x_def [symmetric] word_less_def split: if_splits)
  qed
qed

section \<open>The sequence\<close>

definition div_step :: "u32 \<Rightarrow> u32 \<Rightarrow> Sh4Context \<Rightarrow> Sh4Context" where
  "div_step op1 op2 c = i0011_nnnn_mmmm_0100 op1 (i0100_nnnn_0010_0100 op2 c)"

text \<open>
  After \<open>k\<close> steps on the dividend \<open>N\<close> (\<open>l0\<close> its lower word) and the divisor \<open>d\<close>: \<open>q\<close> and \<open>r\<close> are
  quotient and remainder of the upper \<open>32 + k\<close> bits of \<open>N\<close>; the quotient is spread over the
  lower end of the register of the lower word and T.
\<close>

definition div_inv :: "4 word \<Rightarrow> 4 word \<Rightarrow> 4 word \<Rightarrow> u32 \<Rightarrow> int \<Rightarrow> int \<Rightarrow> nat \<Rightarrow> Sh4Context \<Rightarrow> bool" where
  "div_inv n m l d N l0 k c \<longleftrightarrow>
    (let q = N div 2 ^ (32 - k) div uint d; r = N div 2 ^ (32 - k) mod uint d
     in ctx_r c m = d \<and> st_M (ctx_status c) = 0 \<and> ctx_T c = bool_u32 (odd q) \<and>
        uint (ctx_r c l) = take_bit 32 (push_bit k l0) + q div 2 \<and>
        (\<exists>b. st_Q (ctx_status c) = bool_u32 b \<and>
           partial b (ctx_r c n) = (if b then r - uint d else r)))"

lemma bit_31_int: "0 \<le> x \<Longrightarrow> x < 2 ^ 32 \<Longrightarrow> bit (x :: int) 31 \<longleftrightarrow> 2 ^ 31 \<le> x"
  using bit_31 [of "word_of_int x"] by (simp add: bit_word_of_int_iff unsigned_of_int take_bit_int_eq_self)

lemma multiple_le:
  fixes a :: int
  assumes "a mod 2 ^ k = 0" "a < 2 ^ n" "k \<le> n"
  shows "a \<le> 2 ^ n - 2 ^ k"
proof -
  obtain i where i: "a = 2 ^ k * i" using assms(1) by auto
  have "(2 :: int) ^ n = 2 ^ k * 2 ^ (n - k)" using assms(3) by (simp add: power_add [symmetric])
  with assms(2) i have "2 ^ k * i < 2 ^ k * 2 ^ (n - k)" by simp
  then have "i \<le> 2 ^ (n - k) - 1" by simp
  then have "2 ^ k * i \<le> 2 ^ k * (2 ^ (n - k) - 1)" by (intro mult_left_mono) simp_all
  then show ?thesis using i assms(3) by (simp add: algebra_simps power_add [symmetric])
qed

lemma shifted_multiple: "take_bit 32 (push_bit k (l :: int)) mod 2 ^ k = 0" if "k \<le> 32"
proof -
  have "take_bit k (take_bit 32 (push_bit k l)) = 0"
    using that by (simp add: take_bit_take_bit min_def take_bit_push_bit)
  then show ?thesis by (simp add: take_bit_eq_mod)
qed

text \<open>The next bit of the dividend is the top bit of the lower register.\<close>

lemma next_bit:
  fixes h l q :: int
  assumes "0 \<le> l" "l < 2 ^ 32" "k < 32" "0 \<le> q" "q < 2 ^ k"
  defines "a \<equiv> take_bit 32 (push_bit k l)"
  shows "(2 ^ 32 * h + l) div 2 ^ (32 - Suc k) = 2 * ((2 ^ 32 * h + l) div 2 ^ (32 - k)) + of_bool (2 ^ 31 \<le> a + q div 2)"
proof -
  let ?N = "2 ^ 32 * h + l"
  have a: "0 \<le> a" "a < 2 ^ 32" by (simp_all add: a_def take_bit_eq_mod)
  have e: "32 - k = Suc (31 - k)" "32 - Suc k = 31 - k" using assms(3) by simp_all
  have f: "?N div 2 ^ (31 - k) = 2 * (?N div 2 ^ (31 - k) div 2) + ?N div 2 ^ (31 - k) mod 2" by simp
  have "?N div 2 ^ (31 - k) div 2 = ?N div 2 ^ (32 - k)"
    by (simp add: e zdiv_zmult2_eq [symmetric] mult.commute)
  moreover have "?N div 2 ^ (31 - k) mod 2 = of_bool (bit ?N (31 - k))"
    unfolding bit_iff_odd by (rule mod_2_eq_odd)
  moreover have "bit ?N (31 - k) \<longleftrightarrow> bit l (31 - k)"
  proof -
    have "take_bit 32 ?N = take_bit 32 l" by (simp add: take_bit_eq_mod)
    then have "bit (take_bit 32 ?N) (31 - k) = bit (take_bit 32 l) (31 - k)" by simp
    moreover have "31 - k < 32" by simp
    ultimately show ?thesis by (simp only: bit_take_bit_iff simp_thms)
  qed
  moreover have "bit l (31 - k) \<longleftrightarrow> bit a 31"
    using assms(3) by (simp add: a_def bit_take_bit_iff bit_push_bit_iff)
  moreover have "bit a 31 \<longleftrightarrow> 2 ^ 31 \<le> a + q div 2"
  proof -
    have "2 ^ 31 \<le> a" if "2 ^ 31 \<le> a + q div 2"
    proof (rule ccontr)
      assume "\<not> 2 ^ 31 \<le> a"
      then have "a \<le> 2 ^ 31 - 2 ^ k"
        using multiple_le [of a k 31] shifted_multiple [of k l] assms(3) by (simp add: a_def)
      moreover have "q div 2 < 2 ^ k" using assms(4,5) by linarith
      ultimately show False using that by linarith
    qed
    then show ?thesis using bit_31_int [OF a] assms(4) by auto
  qed
  ultimately show ?thesis unfolding e(2) using f by simp
qed

lemma div_less_int: "0 < c \<Longrightarrow> a < c * b \<Longrightarrow> a div c < (b :: int)"
proof -
  assume c: "0 < c" and "a < c * b"
  moreover have "c * (a div c) \<le> a" using mult_div_mod_eq [of c a] pos_mod_sign [OF c, of a] by linarith
  ultimately have "c * (a div c) < c * b" by linarith
  with c show ?thesis by simp
qed

lemma div_inv_step:
  fixes N :: int
  assumes ops: "GetN op1 = n" "GetM op1 = m" "GetN op2 = l" and d: "n \<noteq> m" "n \<noteq> l" "m \<noteq> l"
    and N: "N = 2 ^ 32 * h + l0" "0 \<le> h" "h < uint d" "0 \<le> l0" "l0 < 2 ^ 32" and k: "k < 32"
    and inv: "div_inv n m l d N l0 k c"
  shows "div_inv n m l d N l0 (Suc k) (div_step op1 op2 c)"
    and "j \<noteq> n \<Longrightarrow> j \<noteq> l \<Longrightarrow> ctx_r (div_step op1 op2 c) j = ctx_r c j"
proof -
  define X where "X = N div 2 ^ (32 - k)"
  define q r where "q = X div uint d" and "r = X mod uint d"
  have dp: "0 < uint d" using N by linarith
  have r: "0 \<le> r" "r < uint d" "X = uint d * q + r" using dp by (simp_all add: q_def r_def)
  have q: "0 \<le> q" "q < 2 ^ k"
  proof -
    have "0 \<le> N" using N by simp
    then show "0 \<le> q" using dp by (simp add: q_def X_def pos_imp_zdiv_nonneg_iff)
    have "N < 2 ^ 32 * uint d" using N by simp
    then have "N < 2 ^ (32 - k) * (2 ^ k * uint d)"
      using k by (simp add: mult.assoc [symmetric] power_add [symmetric])
    then have "X < 2 ^ k * uint d" unfolding X_def by (intro div_less_int) simp_all
    then show "q < 2 ^ k" unfolding q_def using dp by (intro div_less_int) (simp_all add: mult.commute)
  qed
  define a where "a = take_bit 32 (push_bit k l0)"
  obtain b where c: "ctx_r c m = d" "st_M (ctx_status c) = 0" "ctx_T c = bool_u32 (odd q)"
    "uint (ctx_r c l) = a + q div 2" "st_Q (ctx_status c) = bool_u32 b"
    "partial b (ctx_r c n) = (if b then r - uint d else r)"
    using inv by (auto simp: div_inv_def Let_def q_def r_def X_def a_def)
  define t where "t = bit (ctx_r c l) 31"
  have t: "t \<longleftrightarrow> 2 ^ 31 \<le> a + q div 2" by (simp only: t_def bit_31 c(4))
  define c1 where "c1 = i0100_nnnn_0010_0100 op2 c"
  note R = rotcl_step [OF ops(3) c(3), folded c1_def t_def]
  define c2 where "c2 = i0011_nnnn_mmmm_0100 op1 c1"
  have c1: "st_M (ctx_status c1) = 0" "st_Q (ctx_status c1) = bool_u32 b" "ctx_r c1 n = ctx_r c n" "ctx_r c1 m = d"
    using R c d by simp_all
  note D = div1_step [OF ops(1,2) d(1) c1(1) R(3) c1(2), folded c2_def, unfolded c1(3,4)]
  have c2: "div_step op1 op2 c = c2" by (simp add: div_step_def c1_def c2_def)
  let ?b = "div1_q b d (ctx_r c n) t" and ?rn = "div1_r b d (ctx_r c n) t"
  have p: "partial ?b ?rn = 2 * r + of_bool t - uint d"
    using partial_step [of d b "ctx_r c n" t] c(6) r by (simp split: if_splits)
  have X': "N div 2 ^ (32 - Suc k) = 2 * X + of_bool t"
    using next_bit [OF N(4,5) k q, of h] by (simp add: N(1) X_def t a_def)
  have "?b \<longleftrightarrow> partial ?b ?rn < 0"
    using unsigned_less [of ?rn, where 'a = int] by (cases ?b) (simp_all add: partial_def)
  then have sign: "?b \<longleftrightarrow> 2 * r + of_bool t < uint d" unfolding p by simp
  have q': "(2 * X + of_bool t) div uint d = 2 * q + of_bool (\<not> ?b)"
    and r': "(2 * X + of_bool t) mod uint d = 2 * r + of_bool t - (if ?b then 0 else uint d)"
  proof -
    have e: "2 * X + of_bool t = (2 * q + of_bool (\<not> ?b)) * uint d + (2 * r + of_bool t - (if ?b then 0 else uint d))"
      using r(3) by (simp add: algebra_simps)
    have "0 \<le> 2 * r + of_bool t - (if ?b then 0 else uint d)" "2 * r + of_bool t - (if ?b then 0 else uint d) < uint d"
      using sign r by (cases t; auto)+
    then show "(2 * X + of_bool t) div uint d = 2 * q + of_bool (\<not> ?b)"
      "(2 * X + of_bool t) mod uint d = 2 * r + of_bool t - (if ?b then 0 else uint d)"
      unfolding e by simp_all
  qed
  have l: "uint (ctx_r c2 l) = take_bit 32 (push_bit (Suc k) l0) + q"
  proof -
    let ?a = "take_bit 32 (push_bit (Suc k) l0)"
    have "ctx_r c2 l = div1_x (ctx_r c l) (odd q)" using D(1) R(1) d by simp
    then have "uint (ctx_r c2 l) = (2 * (a + q div 2) + of_bool (odd q)) mod 2 ^ 32"
      by (simp only: uint_div1_x c(4))
    also have "2 * (a + q div 2) + of_bool (odd q) = 2 * a + q"
      using mult_div_mod_eq [of 2 q] by (simp add: mod_2_eq_odd)
    also have "(2 * a + q) mod 2 ^ 32 = (?a + q) mod 2 ^ 32"
    proof -
      have "2 * a mod 2 ^ 32 = 2 * push_bit k l0 mod 2 ^ 32"
        unfolding a_def take_bit_eq_mod by (rule mod_mult_right_eq)
      also have "\<dots> = ?a mod 2 ^ 32"
        by (simp add: take_bit_eq_mod push_bit_eq_mult mult.assoc mult.left_commute)
      finally show ?thesis by (rule mod_add_cong) simp
    qed
    also have "\<dots> = ?a + q"
    proof (rule mod_pos_pos_trivial)
      have "?a \<le> 2 ^ 32 - 2 ^ Suc k"
        using k by (intro multiple_le shifted_multiple take_bit_int_less_exp) simp_all
      moreover have "(2 :: int) ^ k \<le> 2 ^ Suc k" by simp
      ultimately show "?a + q < 2 ^ 32" using q by linarith
      show "0 \<le> ?a + q" using q by (simp add: take_bit_nonnegative)
    qed
    finally show ?thesis .
  qed
  have half: "(2 * q + of_bool (\<not> ?b)) div 2 = q" by simp
  show "div_inv n m l d N l0 (Suc k) (div_step op1 op2 c)"
    unfolding div_inv_def Let_def X' q' r' c2 half
  proof (intro conjI exI)
    show "ctx_r c2 m = d" using D(1) c1(4) d by simp
    show "st_M (ctx_status c2) = 0" by (rule D(2))
    show "ctx_T c2 = bool_u32 (odd (2 * q + of_bool (\<not> ?b)))" using D(4) by simp
    show "uint (ctx_r c2 l) = take_bit 32 (push_bit (Suc k) l0) + q" by (rule l)
    show "st_Q (ctx_status c2) = bool_u32 ?b" by (rule D(3))
    show "partial ?b (ctx_r c2 n) = (if ?b then 2 * r + of_bool t - (if ?b then 0 else uint d) - uint d
        else 2 * r + of_bool t - (if ?b then 0 else uint d))"
      using p D(1) by simp
  qed
  show "ctx_r (div_step op1 op2 c) j = ctx_r c j" if "j \<noteq> n" "j \<noteq> l"
    using that D(1) R(1) by (simp add: c2)
qed

lemma div_inv_steps:
  assumes "GetN op1 = n" "GetM op1 = m" "GetN op2 = l" "n \<noteq> m" "n \<noteq> l" "m \<noteq> l"
    and "N = 2 ^ 32 * h + l0" "0 \<le> h" "h < uint d" "0 \<le> l0" "l0 < 2 ^ 32"
    and "div_inv n m l d N l0 0 c" and "k \<le> 32"
  shows "div_inv n m l d N l0 k ((div_step op1 op2 ^^ k) c) \<and>
    (\<forall>j. j \<noteq> n \<longrightarrow> j \<noteq> l \<longrightarrow> ctx_r ((div_step op1 op2 ^^ k) c) j = ctx_r c j)"
  using assms(13)
proof (induction k)
  case (Suc k)
  then have IH: "div_inv n m l d N l0 k ((div_step op1 op2 ^^ k) c)"
    "\<And>j. j \<noteq> n \<Longrightarrow> j \<noteq> l \<Longrightarrow> ctx_r ((div_step op1 op2 ^^ k) c) j = ctx_r c j" by auto
  note div_inv_step [OF assms(1-11) _ IH(1)]
  then show ?case using Suc.prems IH(2) by simp
qed (use assms(12) in simp)

section \<open>Properties\<close>

text \<open>C5: Unsigned division of a 64-bit number by a 32-bit one with \<^verbatim>\<open>div0u\<close>, 32 times
  \<^verbatim>\<open>rotcl\<close> and \<^verbatim>\<open>div1\<close>, and a last \<^verbatim>\<open>rotcl\<close>: when the quotient fits in 32 bits, the lower register holds the
  quotient, the upper one the remainder, once the divisor is added back if Q is set, and no other register
  has changed.\<close>
theorem division_correct:
  fixes op0 op1 op2 :: u32 and c :: Sh4Context
  assumes "GetN op1 = n" and "GetM op1 = m" and "GetN op2 = l" and "n \<noteq> m" and "n \<noteq> l" and "m \<noteq> l"
    and "ctx_r c n < ctx_r c m"
  defines "c' \<equiv> i0100_nnnn_0010_0100 op2 (((\<lambda>c. i0011_nnnn_mmmm_0100 op1 (i0100_nnnn_0010_0100 op2 c)) ^^ 32)
      (i0000_0000_0001_1001 op0 c))"
    and "N \<equiv> 2 ^ 32 * uint (ctx_r c n) + uint (ctx_r c l)"
  shows "uint (ctx_r c' l) = N div uint (ctx_r c m) \<and>
    uint (ctx_r c' n + (if st_Q (ctx_status c') = 0 then 0 else ctx_r c m)) = N mod uint (ctx_r c m) \<and>
    (ctx_r c')(n := 0, l := 0) = (ctx_r c)(n := 0, l := 0)"
proof -
  let ?d = "ctx_r c m" and ?h = "uint (ctx_r c n)" and ?l = "uint (ctx_r c l)"
  have u: "0 \<le> uint x" "uint x < 2 ^ 32" for x :: u32
    using unsigned_less [of x, where 'a = int] by simp_all
  have h: "?h < uint ?d" using assms(7) by (simp add: word_less_def)
  define c0 where "c0 = i0000_0000_0001_1001 op0 c"
  have c0: "ctx_r c0 = ctx_r c" "ctx_T c0 = bool_u32 False" "st_M (ctx_status c0) = 0"
    "st_Q (ctx_status c0) = bool_u32 False"
    by (simp_all add: c0_def i0000_0000_0001_1001_def)
  have "N div 2 ^ 32 = ?h" using u(2) [of "ctx_r c l"] by (simp add: N_def div_add1_eq div_pos_pos_trivial)
  then have "div_inv n m l ?d N ?l 0 c0"
    using h u(2) [of "ctx_r c l"]
    by (simp add: div_inv_def Let_def c0 partial_def div_pos_pos_trivial
        mod_pos_pos_trivial take_bit_int_eq_self exI [of Not False])
  note S = div_inv_steps [OF assms(1-6) N_def [THEN meta_eq_to_obj_eq] u(1) h u this, of 32, simplified]
  define c1 where "c1 = (div_step op1 op2 ^^ 32) c0"
  let ?q = "N div uint ?d" and ?r = "N mod uint ?d"
  obtain b where I: "ctx_T c1 = bool_u32 (odd ?q)" "uint (ctx_r c1 l) = ?q div 2"
    "st_Q (ctx_status c1) = bool_u32 b" "partial b (ctx_r c1 n) = (if b then ?r - uint ?d else ?r)"
    and J: "\<And>j. j \<noteq> n \<Longrightarrow> j \<noteq> l \<Longrightarrow> ctx_r c1 j = ctx_r c j"
    using S by (auto simp: div_inv_def Let_def c1_def c0 take_bit_push_bit)
  have c': "c' = i0100_nnnn_0010_0100 op2 c1"
    unfolding c'_def c1_def c0_def by (simp add: div_step_def [abs_def])
  note R = rotcl_step [OF assms(3) I(1), folded c']
  have dp: "0 < uint ?d" using h u(1) [of "ctx_r c n"] by linarith
  have q: "0 \<le> ?q" "?q < 2 ^ 32"
  proof -
    have "0 \<le> N" using u by (simp add: N_def)
    then show "0 \<le> ?q" using dp by (simp add: pos_imp_zdiv_nonneg_iff)
    have "N < 2 ^ 32 * uint ?d" using u(2) [of "ctx_r c l"] h by (simp add: N_def)
    then show "?q < 2 ^ 32" using dp by (intro div_less_int) (simp_all add: mult.commute)
  qed
  have "uint (ctx_r c' l) = (2 * (?q div 2) + of_bool (odd ?q)) mod 2 ^ 32"
    using R(1) by (simp add: uint_div1_x I(2))
  also have "2 * (?q div 2) + of_bool (odd ?q) = ?q"
    using mult_div_mod_eq [of 2 ?q] by (simp add: mod_2_eq_odd)
  also have "?q mod 2 ^ 32 = ?q" using q by (rule mod_pos_pos_trivial)
  finally have 1: "uint (ctx_r c' l) = ?q" .
  have n: "ctx_r c' n = ctx_r c1 n" using R(1) assms(5) by simp
  have "0 \<le> ?r" "?r < uint ?d" using dp by simp_all
  then have 2: "uint (ctx_r c1 n + (if b then ?d else 0)) = ?r"
  proof (cases b)
    case True
    then have "uint (ctx_r c1 n) + uint ?d = ?r + 2 ^ 32" using I(4) by (simp add: partial_def)
    with True \<open>0 \<le> ?r\<close> \<open>?r < uint ?d\<close> u(2) [of ?d] show ?thesis
      by (simp add: uint_word_ariths mod_pos_pos_trivial)
  qed (use I(4) in \<open>simp add: partial_def\<close>)
  have 3: "(ctx_r c')(n := 0, l := 0) = (ctx_r c)(n := 0, l := 0)"
    using J R(1) by (simp add: fun_eq_iff)
  show ?thesis using 1 2 3 I(3) R(2) by (cases b) (simp_all add: n)
qed

definition div_witness :: Sh4Context where
  "div_witness = set_r 1 5 (set_r 2 1000 (set_r 0 77 zero_ctx))"

theorem division_correct_witness:
  "uint (ctx_r (i0100_nnnn_0010_0100 0x4024 (((\<lambda>c. i0011_nnnn_mmmm_0100 0x3124 (i0100_nnnn_0010_0100 0x4024 c)) ^^ 32)
      (i0000_0000_0001_1001 0x0019 div_witness))) 0) = (2 ^ 32 * 5 + 77) div 1000"
  using division_correct [of "0x3124" 1 2 "0x4024" 0 div_witness "0x0019"]
  by (simp add: GetN_def GetM_def div_witness_def set_r_def)

end
