(* ===== verification/Storeq.thy ===== *)
theory Storeq
  imports Sh4_Mmu Pvr_Mem
begin

text \<open>
  The store queues: \<^verbatim>\<open>hw/sh4/storeq.cpp\<close>, the block write it uses and the routing of a burst to
  the tile accelerator (\<^verbatim>\<open>TAWriteSQ\<close> of \<^verbatim>\<open>hw/pvr/pvr_mem.cpp\<close>). The two queues of 32 bytes are
  the block \<open>a_sq\<close> of the address space; the pref instruction sends one of them off through the
  handler that \<^verbatim>\<open>setSqwHandler\<close> has chosen. What the burst does in the graphics chip is a
  parameter.

  The last part shows that the handlers chosen for main memory and for the tile accelerator do
  what the general handler does.
\<close>

section \<open>Operations\<close>

definition sq_offset :: "u32 \<Rightarrow> u32" where
  "sq_offset dest = 32 * (drop_bit 5 dest AND 1)"

definition sq_bytes :: "areas \<Rightarrow> u32 \<Rightarrow> 'd machine \<Rightarrow> u32 \<Rightarrow> u8" where
  "sq_bytes a off s = (\<lambda>k. m_mem s (a_sq a) (off + k))"

definition TAWriteSQ :: "areas \<Rightarrow> 'd pvr_env \<Rightarrow> u32 \<Rightarrow> 'd machine \<Rightarrow> 'd machine" where
  "TAWriteSQ a P address s =
    (let address_w = address AND 0x01FFFFE0;
         off = sq_offset address
     in if address_w < 0x800000 then ta_vtx_data32 P (sq_bytes a off s) s
        else if address_w < 0x1000000 then YUV_data a (sq_bytes a off s) 1 s
        else
          let path64b = ((if address AND 0x02000000 \<noteq> 0 then SB_LMMODE1 s else SB_LMMODE0 s) = 0)
          in if path64b then memcpy (a_vram a) (address_w AND VRAM_MASK a) (m_mem s (a_sq a)) off 32 s
             else fold (\<lambda>i s. pvr_write32p32 a (address_w + of_nat i) (ld32 (m_mem s (a_sq a)) (off + of_nat i)) s)
               (map (\<lambda>k. 4 * k) [0..<8]) s)"

fun sq_words :: "'d env \<Rightarrow> areas \<Rightarrow> u32 \<Rightarrow> u32 \<Rightarrow> nat list \<Rightarrow> ('d, unit) SM" where
  "sq_words E a dst off [] = returnM ()"
| "sq_words E a dst off (i # is) =
     bindM (getM (\<lambda>s. ld32 (m_mem s (a_sq a)) (off + of_nat i))) (\<lambda>v.
     bindM (writet32 E (dst + of_nat i) v) (\<lambda>_. sq_words E a dst off is))"

definition WriteMemBlock_nommu_sq :: "'d env \<Rightarrow> areas \<Rightarrow> u32 \<Rightarrow> u32 \<Rightarrow> ('d, unit) SM" where
  "WriteMemBlock_nommu_sq E a dst off s = (case GetMemPtr a dst 32 of
     Some pdst \<Rightarrow> Ret () (memcpy (a_ram a) pdst (m_mem s (a_sq a)) off 32 s)
   | None \<Rightarrow> sq_words E a dst off (map (\<lambda>k. 4 * k) [0..<8]) s)"

text \<open>The template \<^verbatim>\<open>sqWrite<mmu_on>\<close>.\<close>

definition sqWrite_addr :: "bool \<Rightarrow> u32 \<Rightarrow> ('d, u32) SM" where
  "sqWrite_addr mmu_on dest =
    (if mmu_on then mmu_TranslateSQW dest
     else getM (\<lambda>s. CCN_QACR_TR (m_ccn s) + (dest AND NOT 0x1f)))"

definition sqWrite :: "'d env \<Rightarrow> areas \<Rightarrow> 'd pvr_env \<Rightarrow> bool \<Rightarrow> u32 \<Rightarrow> ('d, unit) SM" where
  "sqWrite E a P mmu_on dest = bindM (sqWrite_addr mmu_on dest) (\<lambda>address.
     if drop_bit 26 address AND 7 \<noteq> 4 then WriteMemBlock_nommu_sq E a address (sq_offset dest)
     else modifyM (TAWriteSQ a P address))"

text \<open>
  With reserved address space, \<^verbatim>\<open>sqWrite_nommu_area_3\<close> writes at an offset below
  \<open>RAM_SIZE_MAX\<close> in the window of area 3, in which main memory is mirrored.
\<close>

definition RAM_SIZE_MAX :: u32 where
  "RAM_SIZE_MAX = 32 * 1024 * 1024"

definition sqWrite_area_3 :: "areas \<Rightarrow> u32 \<Rightarrow> 'd machine \<Rightarrow> 'd machine" where
  "sqWrite_area_3 a dest s = memcpy (a_ram a)
     (32 * drop_bit 5 (dest AND (RAM_SIZE_MAX - 1)) AND RAM_MASK a) (m_mem s (a_sq a)) (sq_offset dest) 32 s"

definition sqWrite_area_3_nonvmem :: "areas \<Rightarrow> u32 \<Rightarrow> 'd machine \<Rightarrow> 'd machine" where
  "sqWrite_area_3_nonvmem a dest s = memcpy (a_ram a)
     (dest AND (RAM_MASK a - 0x1F)) (m_mem s (a_sq a)) (sq_offset dest) 32 s"

definition doSqWrite :: "'d env \<Rightarrow> areas \<Rightarrow> 'd pvr_env \<Rightarrow> SQWriteFunc \<Rightarrow> u32 \<Rightarrow> ('d, unit) SM" where
  "doSqWrite E a P f dest = (case f of
     sqWrite_null \<Rightarrow> throwM (Die ''doSqWrite is null'')
   | sqWrite_mmu \<Rightarrow> sqWrite E a P True dest
   | sqWrite_nommu \<Rightarrow> sqWrite E a P False dest
   | sqWrite_nommu_area_3 \<Rightarrow> modifyM (sqWrite_area_3 a dest)
   | sqWrite_nommu_area_3_nonvmem \<Rightarrow> modifyM (sqWrite_area_3_nonvmem a dest)
   | sqWriteTA \<Rightarrow> modifyM (TAWriteSQ a P dest))"

text \<open>\<open>vmem\<close> says whether the host address space is reserved (\<^verbatim>\<open>addrspace::virtmemEnabled\<close>).\<close>

definition setSqwHandler :: "bool \<Rightarrow> 'd machine \<Rightarrow> 'd machine" where
  "setSqwHandler vmem s =
    (if MMUCR_AT (CCN_MMUCR (m_ccn s)) = 1
     then on_ctx (ctx_doSqWrite_update (\<lambda>_. sqWrite_mmu)) s
     else
       let area = QACR_Area (CCN_QACR0 (m_ccn s));
           s1 = m_ccn_update (CCN_QACR_TR_update (\<lambda>_. push_bit 26 area - 0xE0000000)) s
       in on_ctx (ctx_doSqWrite_update (\<lambda>_.
            if area = 3 then if vmem then sqWrite_nommu_area_3 else sqWrite_nommu_area_3_nonvmem
            else if area = 4 then sqWriteTA
            else sqWrite_nommu)) s1)"

definition with_sq :: "areas \<Rightarrow> 'd pvr_env \<Rightarrow> 'd env \<Rightarrow> 'd env" where
  "with_sq a P E = E\<lparr>e_doSqWrite := doSqWrite E a P\<rparr>"

section \<open>Precise bursts\<close>

definition pvr_quiet :: "'d pvr_env \<Rightarrow> bool" where
  "pvr_quiet P \<longleftrightarrow> (\<forall>b s. regs_of (m_ctx (ta_vtx_data32 P b s)) = regs_of (m_ctx s)) \<and>
     (\<forall>b n s. regs_of (m_ctx (ta_vtx_data P b n s)) = regs_of (m_ctx s))"

lemma TAWriteSQ_regs:
  assumes "pvr_quiet P"
  shows "regs_of (m_ctx (TAWriteSQ a P x s)) = regs_of (m_ctx s)"
proof -
  have "regs_of (m_ctx (fold (\<lambda>i s. pvr_write32p32 a (y + of_nat i) (f i s) s) is s)) = regs_of (m_ctx s)" for y f "is"
    by (induction "is" arbitrary: s) (simp_all add: vram_ctx)
  then show ?thesis
    using assms by (simp add: TAWriteSQ_def Let_def pvr_quiet_def YUV_data_regs)
qed

lemma quiet_modifyM: "(\<And>s. regs_of (m_ctx (f s)) = regs_of (m_ctx s)) \<Longrightarrow> quiet (modifyM f)"
  by (simp add: quiet_def)

lemma quiet_getM: "quiet (getM f)"
  by (simp add: quiet_def)

lemma quiet_sq_words: "handlers_quiet E \<Longrightarrow> quiet (sq_words E a dst off is)"
  by (induction "is") (auto intro!: quiet_returnM quiet_bind quiet_getM addrspace_quiet)

lemma quiet_WriteMemBlock_nommu_sq: "handlers_quiet E \<Longrightarrow> quiet (WriteMemBlock_nommu_sq E a dst off)"
  by (rule quietI)
    (auto simp: WriteMemBlock_nommu_sq_def split: option.splits dest: quietD [OF quiet_sq_words])

lemma precise_TranslateSQW: "precise (mmu_TranslateSQW dest)"
  by (rule preciseI)
    (auto simp: mmu_TranslateSQW_def split: if_splits prod.splits dest!: full_SQ_ctx
      dest: preciseD [OF strict_mmu.raise_precise])

lemma precise_Die: "precise (throwM (Die m))"
  by (simp add: precise_def)

lemma precise_doSqWrite:
  assumes "handlers_quiet E" "pvr_quiet P"
  shows "precise (doSqWrite E a P f dest)"
proof -
  have "precise (sqWrite_addr b dest)" for b
    by (cases b) (auto simp: sqWrite_addr_def precise_TranslateSQW intro: quiet_precise quiet_getM)
  then have "precise (sqWrite E a P b dest)" for b
    unfolding sqWrite_def
    by (rule precise_bind) (auto intro: quiet_precise
        quiet_WriteMemBlock_nommu_sq [OF assms(1)] quiet_modifyM TAWriteSQ_regs [OF assms(2)])
  then show ?thesis
    by (cases f) (auto simp: doSqWrite_def precise_Die sqWrite_area_3_def sqWrite_area_3_nonvmem_def
        intro!: quiet_precise quiet_modifyM TAWriteSQ_regs [OF assms(2)])
qed

section \<open>The chosen handler does what the general one does\<close>

definition sq_target :: "u32 \<Rightarrow> u32" where
  "sq_target dest = dest AND push_bit 5 (mask 21)"

lemma bit_sq_target: "bit (sq_target dest) n \<longleftrightarrow> 5 \<le> n \<and> n < 26 \<and> bit dest n"
  by (auto simp: sq_target_def bit_simps)

lemma sq_dest_split:
  assumes "drop_bit 26 dest = (0x38 :: u32)"
  shows "dest AND NOT 0x1F = 0xE0000000 + sq_target dest"
proof -
  have e: "(0xE0000000 :: u32) = push_bit 29 (mask 3)" "(0x1F :: u32) = mask 5"
    by (simp_all add: mask_eq_exp_minus_1 push_bit_eq_mult)
  have hi: "bit dest n \<longleftrightarrow> 29 \<le> n \<and> n < 32" if "26 \<le> n" for n
  proof -
    have "bit (drop_bit 26 dest) (n - 26) \<longleftrightarrow> bit (push_bit 3 (mask 3) :: u32) (n - 26)"
      unfolding assms by (simp add: mask_eq_exp_minus_1 push_bit_eq_mult)
    with that show ?thesis by (auto simp: bit_simps)
  qed
  have "0xE0000000 AND sq_target dest = 0"
    unfolding e by (rule bit_word_eqI) (auto simp: bit_simps bit_sq_target)
  then have "0xE0000000 + sq_target dest = 0xE0000000 OR sq_target dest"
    using word_plus_and_or [of "0xE0000000" "sq_target dest"] by simp
  also have "\<dots> = dest AND NOT 0x1F"
  proof (rule bit_word_eqI)
    fix n assume "n < LENGTH(32)"
    then show "bit (0xE0000000 OR sq_target dest) n = bit (dest AND NOT 0x1F) n"
      unfolding e using hi [of n] by (cases "26 \<le> n") (auto simp: bit_simps bit_sq_target)
  qed
  finally show ?thesis by simp
qed

text \<open>The address of a burst without translation.\<close>

lemma sq_address:
  assumes "drop_bit 26 dest = (0x38 :: u32)" "area < 8"
  shows "(push_bit 26 area - 0xE0000000) + (dest AND NOT 0x1F) = push_bit 26 area OR sq_target dest"
    "drop_bit 26 (push_bit 26 area OR sq_target dest) AND 7 = area"
proof -
  have "push_bit 26 area AND sq_target dest = 0"
    by (rule bit_word_eqI) (auto simp: bit_simps bit_sq_target)
  then show "(push_bit 26 area - 0xE0000000) + (dest AND NOT 0x1F) = push_bit 26 area OR sq_target dest"
    using word_plus_and_or [of "push_bit 26 area" "sq_target dest"] 
    unfolding sq_dest_split [OF assms(1)] by simp
  have "take_bit 3 area = area"
    using assms(2) less_mask_eq [of area 3] by (simp add: take_bit_eq_mask)
  then have small: "bit area j \<Longrightarrow> j < 3" for j by (metis bit_take_bit_iff)
  have c: "(7 :: u32) = mask 3" by (simp add: mask_eq_exp_minus_1)
  show "drop_bit 26 (push_bit 26 area OR sq_target dest) AND 7 = area"
    unfolding c by (intro bit_word_eqI) (auto simp: bit_simps bit_sq_target dest: small)
qed

text \<open>The part of a machine's memory sizes the handlers rely on.\<close>

lemma ram_mask_cases:
  assumes "areas_wf a"
  obtains m where "RAM_MASK a = mask m" "RAM_SIZE a = 2 ^ m" "m = 24 \<or> m = 25"
proof -
  have "RAM_SIZE a = 0x1000000 \<or> RAM_SIZE a = 0x2000000" using assms by (simp add: areas_wf_def)
  then show thesis
  proof
    assume "RAM_SIZE a = 0x1000000"
    then show thesis by (intro that [of 24]) (simp_all add: RAM_MASK_def mask_eq_exp_minus_1)
  next
    assume "RAM_SIZE a = 0x2000000"
    then show thesis by (intro that [of 25]) (simp_all add: RAM_MASK_def mask_eq_exp_minus_1)
  qed
qed

lemma sq_area3_offset:
  assumes a: "areas_wf a"
  shows "GetMemPtr a (push_bit 26 3 OR sq_target dest) 32 = Some (sq_target dest AND RAM_MASK a)"
    "dest AND (RAM_MASK a - 0x1F) = sq_target dest AND RAM_MASK a"
    "32 * drop_bit 5 (dest AND (RAM_SIZE_MAX - 1)) AND RAM_MASK a = sq_target dest AND RAM_MASK a"
proof -
  obtain m where m: "RAM_MASK a = mask m" "RAM_SIZE a = 2 ^ m" "m = 24 \<or> m = 25"
    using ram_mask_cases [OF a] .
  have c: "(3 :: u32) = mask 2" "(7 :: u32) = mask 3" by (simp_all add: mask_eq_exp_minus_1)
  have "drop_bit 29 (push_bit 26 3 OR sq_target dest) AND 7 = 0"
    unfolding c by (rule bit_word_eqI) (auto simp: bit_simps bit_sq_target)
  moreover have "drop_bit 26 (push_bit 26 3 OR sq_target dest) AND 7 = 3"
    unfolding c by (rule bit_word_eqI) (auto simp: bit_simps bit_sq_target)
  moreover have off: "(push_bit 26 3 OR sq_target dest) AND RAM_MASK a = sq_target dest AND RAM_MASK a"
    unfolding c m(1) using m(3) by (intro bit_word_eqI) (auto simp: bit_simps bit_sq_target)
  moreover have "\<not> RAM_SIZE a < (sq_target dest AND RAM_MASK a) + 32"
  proof -
    have "sq_target dest AND RAM_MASK a = push_bit 5 (take_bit (m - 5) (drop_bit 5 dest))"
      unfolding m(1) using m(3) by (intro bit_word_eqI) (auto simp: bit_simps bit_sq_target)
    moreover define y where "y = take_bit (m - 5) (drop_bit 5 dest)"
    moreover have "unat y < 2 ^ (m - 5)" by (simp add: y_def unsigned_take_bit_eq)
    moreover from this have "unat (y * 32 + 32) = unat y * 32 + 32"
      using m(3) by (auto simp: unat_word_ariths)
    ultimately show ?thesis
      using m(2,3) by (auto simp: word_less_nat_alt push_bit_eq_mult)
  qed
  ultimately show "GetMemPtr a (push_bit 26 3 OR sq_target dest) 32 = Some (sq_target dest AND RAM_MASK a)"
    by (simp add: GetMemPtr_def)
  have "(0x1F :: u32) = mask 5" by (simp add: mask_eq_exp_minus_1)
  have "RAM_MASK a - 0x1F = RAM_MASK a AND NOT (mask 5)"
    unfolding m(1) using m(3) by (auto simp: mask_eq_exp_minus_1)
  then show "dest AND (RAM_MASK a - 0x1F) = sq_target dest AND RAM_MASK a"
    unfolding m(1) using m(3) by (auto intro!: bit_word_eqI simp: bit_simps bit_sq_target)
  have "RAM_SIZE_MAX - 1 = mask 25" by (simp add: RAM_SIZE_MAX_def mask_eq_exp_minus_1)
  moreover have "32 * x = push_bit 5 x" for x :: u32 by (simp add: push_bit_eq_mult mult.commute)
  ultimately show "32 * drop_bit 5 (dest AND (RAM_SIZE_MAX - 1)) AND RAM_MASK a = sq_target dest AND RAM_MASK a"
    unfolding m(1) using m(3) by (auto intro!: bit_word_eqI simp: bit_simps bit_sq_target)
qed

lemma TAWriteSQ_cong:
  "TAWriteSQ a P (push_bit 26 area OR sq_target dest) = TAWriteSQ a P dest"
proof -
  have c: "(0x01FFFFE0 :: u32) = push_bit 5 (mask 20)" "(0x02000000 :: u32) = mask 26 AND NOT (mask 25)"
    "(1 :: u32) = mask 1"
    by (simp_all add: mask_eq_exp_minus_1 push_bit_eq_mult)
  have "(push_bit 26 area OR sq_target dest) AND 0x01FFFFE0 = dest AND 0x01FFFFE0"
    "(push_bit 26 area OR sq_target dest) AND 0x02000000 = dest AND 0x02000000"
    unfolding c by (rule bit_word_eqI; auto simp: bit_simps bit_sq_target)+
  moreover have "drop_bit 5 (push_bit 26 area OR sq_target dest) AND 1 = drop_bit 5 dest AND 1"
    unfolding c(3) by (rule bit_word_eqI) (auto simp: bit_simps bit_sq_target)
  then have "sq_offset (push_bit 26 area OR sq_target dest) = sq_offset dest"
    by (simp add: sq_offset_def)
  ultimately show ?thesis by (simp add: TAWriteSQ_def fun_eq_iff)
qed

lemma bindM_getM: "bindM (getM f) g s = g (f s) s"
  by simp

lemma QACR_Area_less: "QACR_Area v < 8"
  using fld_less [of 3 2 v] by (simp add: QACR_Area_def)

text \<open>C24: Without translation, the handler that the store queue set-up chooses for the area in
  QACR0, with its direct copies into main memory and its direct call of the tile accelerator,
  does exactly what the general handler does for every address of the store queue area.\<close>
theorem sq_handler_equiv:
  assumes "areas_wf a" and "MMUCR_AT (CCN_MMUCR (m_ccn s)) \<noteq> 1" and "drop_bit 26 dest = 0x38"
  shows "doSqWrite E a P (ctx_doSqWrite (m_ctx (setSqwHandler vmem s))) dest (setSqwHandler vmem s) =
    sqWrite E a P False dest (setSqwHandler vmem s)"
proof -
  let ?s = "setSqwHandler vmem s" and ?area = "QACR_Area (CCN_QACR0 (m_ccn s))"
  have tr: "CCN_QACR_TR (m_ccn ?s) = push_bit 26 ?area - 0xE0000000"
    using assms(2) by (simp add: setSqwHandler_def Let_def on_ctx_def)
  note ad = sq_address [OF assms(3) QACR_Area_less [of "CCN_QACR0 (m_ccn s)"]]
  have h: "ctx_doSqWrite (m_ctx ?s) = (if ?area = 3
      then if vmem then sqWrite_nommu_area_3 else sqWrite_nommu_area_3_nonvmem
      else if ?area = 4 then sqWriteTA else sqWrite_nommu)"
    using assms(2) by (simp add: setSqwHandler_def Let_def on_ctx_def)
  have w: "sqWrite E a P False dest ?s =
      (if ?area \<noteq> 4 then WriteMemBlock_nommu_sq E a (push_bit 26 ?area OR sq_target dest) (sq_offset dest)
       else modifyM (TAWriteSQ a P (push_bit 26 ?area OR sq_target dest))) ?s"
    unfolding sqWrite_def sqWrite_addr_def if_False bindM_getM tr ad ..
  consider "?area = 3" | "?area = 4" | "?area \<noteq> 3" "?area \<noteq> 4" by blast
  then show ?thesis
  proof cases
    case 1
    show ?thesis
      unfolding w h 1 WriteMemBlock_nommu_sq_def sq_area3_offset [OF assms(1)] doSqWrite_def
        sqWrite_area_3_def sqWrite_area_3_nonvmem_def by simp
  next
    case 2
    show ?thesis unfolding w h 2 TAWriteSQ_cong doSqWrite_def by simp
  next
    case 3
    then show ?thesis by (simp add: h doSqWrite_def)
  qed
qed

definition pvr_witness :: "'d pvr_env" where
  "pvr_witness = \<lparr>ta_vtx_data32 = (\<lambda>_ s. s), ta_vtx_data = (\<lambda>_ _ s. s)\<rparr>"

theorem sq_handler_equiv_witness:
  "(let s = setSqwHandler True (m_ccn_update (CCN_QACR0_update (\<lambda>_. 0xC)) (mapped_machine ()))
    in ctx_doSqWrite (m_ctx s) = sqWrite_nommu_area_3 \<and>
       doSqWrite idle_env dreamcast_areas pvr_witness (ctx_doSqWrite (m_ctx s)) 0xE0000020 s =
         sqWrite idle_env dreamcast_areas pvr_witness False 0xE0000020 s)"
proof -
  let ?s = "m_ccn_update (CCN_QACR0_update (\<lambda>_. 0xC)) (mapped_machine ())"
  have "areas_wf dreamcast_areas" by (simp add: areas_wf_def dreamcast_areas_def)
  moreover have at: "MMUCR_AT (CCN_MMUCR (m_ccn ?s)) \<noteq> 1"
    by (simp add: mapped_machine_def zero_machine_def MMUCR_AT_def fld_def)
  moreover have "drop_bit 26 0xE0000020 = (0x38 :: u32)" by simp
  ultimately have e: "doSqWrite idle_env dreamcast_areas pvr_witness (ctx_doSqWrite (m_ctx (setSqwHandler True ?s)))
      0xE0000020 (setSqwHandler True ?s) = sqWrite idle_env dreamcast_areas pvr_witness False 0xE0000020 (setSqwHandler True ?s)"
    by (rule sq_handler_equiv)
  moreover have "ctx_doSqWrite (m_ctx (setSqwHandler True ?s)) = sqWrite_nommu_area_3"
    using at by (simp add: setSqwHandler_def Let_def on_ctx_def QACR_Area_def fld_def take_bit_eq_mask mask_eq_exp_minus_1)
  ultimately show ?thesis by (simp only: Let_def)
qed

end
