(* ===== verification/Sh4_Interpreter.thy ===== *)
theory Sh4_Interpreter
  imports Storeq Sh4_Cache
begin

text \<open>
  The interpreter, \<^verbatim>\<open>hw/sh4/interpr/sh4_interpreter.cpp\<close>: fetch and execution of an
  instruction, delay slots, single step, the run loop and reset. The debugger exception of the
  gdb server does not occur in a build without it. Instructions and data are accessed as in a build
  without \<^verbatim>\<open>STRICT_MODE\<close>, which does not look into the two caches; a reset clears them in every build.

  A branch calls the interpreter for its delay slot, which may hold another branch: the source
  recurses on the host stack. \<open>interp n E\<close> is the environment in which that recursion has room
  for \<open>n\<close> nested calls and then aborts; the theorems hold for every \<open>n\<close>. The two loops of
  \<^verbatim>\<open>Run\<close> count their iterations down and return false when the count is used up.
\<close>

section \<open>Catching exceptions\<close>

definition catch_sh4 :: "('s, 'a) M \<Rightarrow> (u32 \<Rightarrow> u16 \<Rightarrow> ('s, 'a) M) \<Rightarrow> ('s, 'a) M" where
  "catch_sh4 m h s = (case m s of
     Throw (SH4ThrownException epc ev) s' \<Rightarrow> h epc ev s' | r \<Rightarrow> r)"

lemma catch_sh4_simps:
  "m s = Ret a s' \<Longrightarrow> catch_sh4 m h s = Ret a s'"
  "m s = Throw (SH4ThrownException p ev) s' \<Longrightarrow> catch_sh4 m h s = h p ev s'"
  "m s = Throw e s' \<Longrightarrow> \<not> sh4_throw e \<Longrightarrow> catch_sh4 m h s = Throw e s'"
  by (auto simp: catch_sh4_def split: halt.splits)

lemma catch_sh4_Throw:
  assumes "catch_sh4 m h s = Throw e s'"
  obtains p ev s1 where "m s = Throw (SH4ThrownException p ev) s1" "h p ev s1 = Throw e s'"
  | "m s = Throw e s'" "\<not> sh4_throw e"
  using assms by (auto simp: catch_sh4_def split: outcome.splits halt.splits)

section \<open>Instructions\<close>

abbreviation (input) "CPU_RATIO \<equiv> (8 :: u32)"

definition ExecuteOpcode :: "'d env \<Rightarrow> u16 \<Rightarrow> ('d, unit) SM" where
  "ExecuteOpcode E op = with_ctx (\<lambda>c.
     if st_FD (ctx_status c) = 1 \<and> IsFloatingPoint (OpDesc op :: 'd sh4_opcodelistentry)
     then throwM (SH4ThrownException (ctx_pc c - 2) Sh4Ex_FpuDisabled)
     else bindM (OpPtr op E (ucast op)) (\<lambda>_. modifyM (executeCycles CPU_RATIO op)))"

definition ReadNexOp :: "'d env \<Rightarrow> ('d, u16) SM" where
  "ReadNexOp E s =
    (let addr = ctx_pc (m_ctx s)
     in if \<not> mmuOn (m_mmu s) \<and> addr AND 1 \<noteq> 0
        then Throw (SH4ThrownException addr Sh4Ex_AddressErrorRead) s
        else IReadMem16 E addr (on_ctx (ctx_pc_update (\<lambda>_. addr + 2)) s))"

definition AdjustDelaySlotException :: "u32 \<Rightarrow> u16 \<Rightarrow> u32 \<times> u16" where
  "AdjustDelaySlotException epc expEvn =
    (epc - 2, if expEvn = Sh4Ex_FpuDisabled then Sh4Ex_SlotFpuDisabled
              else if expEvn = Sh4Ex_IllegalInstr then Sh4Ex_SlotIllegalInstr else expEvn)"

text \<open>The body of the \<open>try\<close> blocks of \<open>Step\<close> and \<open>ExecuteDelayslot\<close>.\<close>

definition instruction :: "'d env \<Rightarrow> ('d, unit) SM" where
  "instruction E = bindM (ReadNexOp E) (ExecuteOpcode E)"

definition ExecuteDelayslot :: "'d env \<Rightarrow> ('d, unit) SM" where
  "ExecuteDelayslot E = catch_sh4 (instruction E) (\<lambda>epc ev.
     let (epc', ev') = AdjustDelaySlotException epc ev in throwM (SH4ThrownException epc' ev'))"

definition ExecuteDelayslot_RTE :: "'d env \<Rightarrow> ('d, unit) SM" where
  "ExecuteDelayslot_RTE E = catch_sh4
     (bindM (ReadNexOp E) (\<lambda>op.
        bindM (upd (\<lambda>c. c\<lparr>ctx_sr := setFull (ctx_ssr c)\<rparr>)) (\<lambda>_. ExecuteOpcode E op)))
     (\<lambda>_ _. throwM (FlycastException ''Fatal: SH4 exception in RTE delay slot''))"

fun interp :: "nat \<Rightarrow> 'd env \<Rightarrow> 'd env" where
  "interp 0 E = E\<lparr>e_ExecuteDelayslot := throwM (Die ''stack overflow''),
     e_ExecuteDelayslot_RTE := throwM (Die ''stack overflow'')\<rparr>"
| "interp (Suc n) E = E\<lparr>e_ExecuteDelayslot := ExecuteDelayslot (interp n E),
     e_ExecuteDelayslot_RTE := ExecuteDelayslot_RTE (interp n E)\<rparr>"

text \<open>The \<open>catch\<close> block of \<open>Run\<close> and \<open>Step\<close>.\<close>

definition enter_exception :: "u32 \<Rightarrow> u16 \<Rightarrow> ('d, unit) SM" where
  "enter_exception epc ev = bindM (Do_Exception epc ev) (\<lambda>_. modifyM (addCycles (5 * CPU_RATIO)))"

definition Step :: "'d env \<Rightarrow> ('d, unit) SM" where
  "Step E = catch_sh4 (instruction E) enter_exception"

section \<open>The run loop\<close>

fun Run_slice :: "nat \<Rightarrow> 'd env \<Rightarrow> ('d, bool) SM" where
  "Run_slice 0 E = returnM False"
| "Run_slice (Suc k) E = bindM (instruction E) (\<lambda>_. with_ctx (\<lambda>c.
     if 0 < sint (ctx_cycle_counter c) then Run_slice k E else returnM True))"

definition Run_pass :: "nat \<Rightarrow> 'd env \<Rightarrow> ('d, bool) SM" where
  "Run_pass k E = catch_sh4
     (bindM (Run_slice k E) (\<lambda>finished.
        if finished then
          bindM (upd (ctx_cycle_counter_update (\<lambda>c. c + SH4_TIMESLICE))) (\<lambda>_.
          bindM (UpdateSystem_INTC E) (\<lambda>_. returnM True))
        else returnM False))
     (\<lambda>epc ev. bindM (enter_exception epc ev) (\<lambda>_. returnM True))"

fun Run_loop :: "nat \<Rightarrow> nat \<Rightarrow> 'd env \<Rightarrow> ('d, bool) SM" where
  "Run_loop 0 k E = returnM False"
| "Run_loop (Suc m) k E = bindM (Run_pass k E) (\<lambda>finished.
     if finished then with_ctx (\<lambda>c. if ctx_CpuRunning c then Run_loop m k E else returnM True)
     else returnM False)"

definition Run :: "nat \<Rightarrow> nat \<Rightarrow> 'd env \<Rightarrow> ('d, bool) SM" where
  "Run m k E = bindM (Run_loop m k E) (\<lambda>finished.
     if finished then bindM (upd (ctx_CpuRunning_update (\<lambda>_. False))) (\<lambda>_. returnM True)
     else returnM False)"

definition Start :: "('d, unit) SM" where
  "Start = upd (ctx_CpuRunning_update (\<lambda>_. True))"

definition Stop :: "('d, unit) SM" where
  "Stop = upd (ctx_CpuRunning_update (\<lambda>_. False))"

definition IsCpuRunning :: "'d machine \<Rightarrow> bool" where
  "IsCpuRunning s = ctx_CpuRunning (m_ctx s)"

definition Init :: "('d, unit) SM" where
  "Init = upd (\<lambda>_. zero_ctx)"

definition Term :: "('d, unit) SM" where
  "Term = Stop"

definition Reset_regs :: "bool \<Rightarrow> Sh4Context \<Rightarrow> Sh4Context" where
  "Reset_regs hard c =
    (let c1 = (if hard then zero_ctx\<lparr>ctx_sh4_sched_next := ctx_sh4_sched_next c\<rparr> else c);
         c2 = c1\<lparr>ctx_pc := 0xA0000000, ctx_r := (\<lambda>_. 0), ctx_r_bank := (\<lambda>_. 0),
           ctx_gbr := 0, ctx_ssr := 0, ctx_spc := 0, ctx_sgr := 0, ctx_dbr := 0, ctx_vbr := 0,
           ctx_mac := 0, ctx_pr := 0, ctx_fpul := 0, ctx_sr := setFull 0x700000F0\<rparr>
     in c2\<lparr>ctx_old_sr := ctx_status c2\<rparr>)"

text \<open>
  \<open>Reset_regs\<close> is what happens to the members of the context that \<open>Sh4Context\<close> models. The store
  queues are the first member of the context too; they are the block \<open>a_sq\<close> of the address
  space, which \<open>Reset\<close> clears along with the rest.
\<close>

definition clear_sq :: "areas \<Rightarrow> bool \<Rightarrow> 'd machine \<Rightarrow> 'd machine" where
  "clear_sq a hard = (if hard then upd_block (a_sq a) (\<lambda>_ _. 0) else (\<lambda>s. s))"

definition Reset :: "areas \<Rightarrow> bool \<Rightarrow> ('d, unit) SM" where
  "Reset a hard s =
    (if ctx_CpuRunning (m_ctx s) then Throw (Die ''verify'') s
     else
       let s1 = snd (UpdateSR (on_ctx (Reset_regs hard) (clear_sq a hard s)));
           s2 = on_ctx (\<lambda>c. c\<lparr>ctx_fpscr := 0x00040001, ctx_old_fpscr := 0x00040001\<rparr>) s1;
           s3 = cycles_reset (oc_Reset hard (ic_Reset hard s2))
       in Ret () (on_ctx (ctx_cycle_counter_update (\<lambda>_. SH4_TIMESLICE)) s3))"

section \<open>Precise instructions\<close>

text \<open>
  A handler runs with the program counter behind its instruction, and a delay slot moves it
  further before it can fault. \<open>regs_nopc\<close> are the registers a program sees apart from the
  program counter. A handler is precise if an SH4 exception leaves them as they were and
  names the address of the instruction.
\<close>

definition regs_nopc :: "Sh4Context \<Rightarrow> Sh4Context" where
  "regs_nopc c = (regs_of c)\<lparr>ctx_pc := 0\<rparr>"

definition throw_at :: "u32 \<Rightarrow> Sh4Context \<Rightarrow> halt \<Rightarrow> 'd machine \<Rightarrow> bool" where
  "throw_at p c e s' = (case e of
     SH4ThrownException q ev \<Rightarrow> q = p \<and> exception_event ev \<and> regs_nopc (m_ctx s') = regs_nopc c
   | _ \<Rightarrow> True)"

definition precise_instr :: "('d, 'a) SM \<Rightarrow> bool" where
  "precise_instr m \<longleftrightarrow> (\<forall>s e s'. m s = Throw e s' \<longrightarrow> throw_at (ctx_pc (m_ctx s) - 2) (m_ctx s) e s')"

lemma precise_instrI:
  "(\<And>s e s'. m s = Throw e s' \<Longrightarrow> throw_at (ctx_pc (m_ctx s) - 2) (m_ctx s) e s') \<Longrightarrow> precise_instr m"
  by (simp add: precise_instr_def)

lemma precise_instrD:
  "precise_instr m \<Longrightarrow> m s = Throw e s' \<Longrightarrow> throw_at (ctx_pc (m_ctx s) - 2) (m_ctx s) e s'"
  by (simp add: precise_instr_def)

lemma throw_at_other: "\<not> sh4_throw e \<Longrightarrow> throw_at p c e s'"
  by (cases e) (simp_all add: throw_at_def)

lemma precise_throw_at: "precise_throw c e s' \<Longrightarrow> throw_at (ctx_pc c - 2) c e s'"
  by (cases e) (simp_all add: throw_at_def regs_nopc_def)

lemma precise_op_instr: "precise_op m \<Longrightarrow> precise_instr m"
  by (rule precise_instrI) (auto dest: precise_opD intro: precise_throw_at)

lemma precise_instr_nothrow: "(\<And>s e s'. m s = Throw e s' \<Longrightarrow> \<not> sh4_throw e) \<Longrightarrow> precise_instr m"
  by (rule precise_instrI) (auto intro: throw_at_other)

lemma precise_instr_with_ctx: "(\<And>c. precise_instr (f c)) \<Longrightarrow> precise_instr (with_ctx f)"
  by (rule precise_instrI) (auto dest: precise_instrD)

lemma precise_instr_upd: "precise_instr m \<Longrightarrow> precise_instr (bindM m (\<lambda>_. upd f))"
  by (rule precise_instrI) (auto simp: bindM_eq_Throw dest: precise_instrD)

lemma precise_op_if: "precise_op m \<Longrightarrow> precise_op n \<Longrightarrow> precise_op (if b then m else n)"
  by simp

text \<open>What the instructions rely on, apart from the delay slot, and with it.\<close>

definition base_precise :: "'d env \<Rightarrow> bool" where
  "base_precise E \<longleftrightarrow> access_ok E \<and> (\<forall>op. precise_op (e_fpu E op)) \<and>
     (\<forall>op. precise_op (e_reios_trap E op)) \<and> (\<forall>f a. precise_op (e_doSqWrite E f a))"

definition env_precise :: "'d env \<Rightarrow> bool" where
  "env_precise E \<longleftrightarrow> base_precise E \<and> precise_instr (e_ExecuteDelayslot E) \<and>
     (\<forall>s e s'. e_ExecuteDelayslot_RTE E s = Throw e s' \<longrightarrow> \<not> sh4_throw e)"

lemma pure_op_precise: "precise_op (pure_op f E op)"
  by (simp add: pure_op_def precise_op_upd)

lemma mem_ops_precise:
  assumes "access_ok E"
  shows
    "precise_op (i0000_nnnn_mmmm_1100 E op)" "precise_op (i0000_nnnn_mmmm_1101 E op)"
    "precise_op (i0000_nnnn_mmmm_1110 E op)" "precise_op (i0000_nnnn_mmmm_0100 E op)"
    "precise_op (i0000_nnnn_mmmm_0101 E op)" "precise_op (i0000_nnnn_mmmm_0110 E op)"
    "precise_op (i0001_nnnn_mmmm_iiii E op)" "precise_op (i0010_nnnn_mmmm_0000 E op)"
    "precise_op (i0010_nnnn_mmmm_0001 E op)" "precise_op (i0010_nnnn_mmmm_0010 E op)"
    "precise_op (i0010_nnnn_mmmm_0100 E op)" "precise_op (i0010_nnnn_mmmm_0101 E op)"
    "precise_op (i0010_nnnn_mmmm_0110 E op)" "precise_op (i0100_nnnn_0101_0010 E op)"
    "precise_op (i0100_nnnn_0000_0010 E op)" "precise_op (i0100_nnnn_0001_0010 E op)"
    "precise_op (i0100_nnnn_0010_0010 E op)" "precise_op (i0100_nnnn_1111_0010 E op)"
    "precise_op (i0100_nnnn_0001_0011 E op)" "precise_op (i0100_nnnn_0010_0011 E op)"
    "precise_op (i0100_nnnn_0011_0011 E op)" "precise_op (i0100_nnnn_0011_0010 E op)"
    "precise_op (i0100_nnnn_0100_0011 E op)" "precise_op (i0100_nnnn_1mmm_0011 E op)"
    "precise_op (i0100_nnnn_0000_0110 E op)" "precise_op (i0100_nnnn_0001_0110 E op)"
    "precise_op (i0100_nnnn_0010_0110 E op)" "precise_op (i0100_nnnn_0101_0110 E op)"
    "precise_op (i0100_nnnn_1111_0110 E op)" "precise_op (i0100_nnnn_0001_0111 E op)"
    "precise_op (i0100_nnnn_0010_0111 E op)" "precise_op (i0100_nnnn_0011_0111 E op)"
    "precise_op (i0100_nnnn_0011_0110 E op)" "precise_op (i0100_nnnn_0100_0111 E op)"
    "precise_op (i0100_nnnn_1mmm_0111 E op)" "precise_op (i0101_nnnn_mmmm_iiii E op)"
    "precise_op (i0110_nnnn_mmmm_0000 E op)" "precise_op (i0110_nnnn_mmmm_0001 E op)"
    "precise_op (i0110_nnnn_mmmm_0010 E op)" "precise_op (i0110_nnnn_mmmm_0100 E op)"
    "precise_op (i0110_nnnn_mmmm_0101 E op)" "precise_op (i0110_nnnn_mmmm_0110 E op)"
    "precise_op (i1000_0000_mmmm_iiii E op)" "precise_op (i1000_0001_mmmm_iiii E op)"
    "precise_op (i1000_0100_mmmm_iiii E op)" "precise_op (i1000_0101_mmmm_iiii E op)"
    "precise_op (i1001_nnnn_iiii_iiii E op)" "precise_op (i1100_0000_iiii_iiii E op)"
    "precise_op (i1100_0001_iiii_iiii E op)" "precise_op (i1100_0010_iiii_iiii E op)"
    "precise_op (i1100_0100_iiii_iiii E op)" "precise_op (i1100_0101_iiii_iiii E op)"
    "precise_op (i1100_0110_iiii_iiii E op)" "precise_op (i1101_nnnn_iiii_iiii E op)"
    "precise_op (i0000_nnnn_1100_0011 E op)" "precise_op (i0100_nnnn_mmmm_1111 E op)"
    "precise_op (i0000_nnnn_mmmm_1111 E op)" "precise_op (i1100_1100_iiii_iiii E op)"
    "precise_op (i1100_1101_iiii_iiii E op)" "precise_op (i1100_1110_iiii_iiii E op)"
    "precise_op (i1100_1111_iiii_iiii E op)" "precise_op (i0100_nnnn_0001_1011 E op)"
  unfolding transfer_ops_mem arith_ops_mem Let_def
  by (intro precise_op_rules precise_op_if precise_op_Die precise_precise_op assms)+

lemma precise_op_upd_modify: "precise_op (bindM (upd f) (\<lambda>_. modifyM g))"
  by (rule precise_opI) (simp add: bindM_eq_Throw)

lemma system_ops_precise:
  assumes "access_ok E"
  shows "precise_op (i0100_nnnn_0110_0010 E op)" "precise_op (i0100_nnnn_0000_0011 E op)"
    "precise_op (i0100_nnnn_0110_0110 E op)" "precise_op (i0100_nnnn_0000_0111 E op)"
    "precise_op (i0100_nnnn_0000_1110 E op)"
  unfolding i0100_nnnn_0110_0010_def i0100_nnnn_0000_0011_def i0100_nnnn_0110_0110_def
    i0100_nnnn_0000_0111_def i0100_nnnn_0000_1110_def
  by (intro precise_op_rules precise_op_upd_modify assms)+

lemma UpdateSystem_INTC_throw: "UpdateSystem_INTC E s = Throw e s' \<Longrightarrow> \<not> sh4_throw e"
proof -
  have h: "handle_cb E i s = Throw e s' \<Longrightarrow> \<not> sh4_throw e" for i s e and s' :: "'a machine"
    by (auto simp: handle_cb_def sh4_sched_request_def Let_def split: prod.splits if_splits)
  have t: "tick_loop E f c is s = Throw e s' \<Longrightarrow> \<not> sh4_throw e" for f c "is" s e and s' :: "'a machine"
    by (induction "is" arbitrary: s) (auto simp: Let_def bindM_eq_Throw dest: h split: if_splits)
  show "UpdateSystem_INTC E s = Throw e s' \<Longrightarrow> \<not> sh4_throw e"
    by (auto simp: UpdateSystem_INTC_def sh4_sched_tick_def Let_def bindM_eq_Throw dest: t split: if_splits)
qed

lemma sleep_wait_throw: "sleep_wait E n s = Throw e s' \<Longrightarrow> \<not> sh4_throw e"
  by (induction n arbitrary: s) (auto simp: bindM_eq_Throw dest: UpdateSystem_INTC_throw split: if_splits)

lemma Do_Exception_throw: "Do_Exception p ev s = Throw e s' \<Longrightarrow> \<not> sh4_throw e"
  by (auto simp: Do_Exception_def Let_def split: if_splits)

lemma control_ops_precise:
  assumes "env_precise E"
  shows "precise_instr (i0000_nnnn_0010_0011 E op)" "precise_instr (i0000_nnnn_0000_0011 E op)"
    "precise_instr (i0000_0000_0000_1011 E op)" "precise_instr (i1000_1111_iiii_iiii E op)"
    "precise_instr (i1000_1101_iiii_iiii E op)" "precise_instr (i1010_iiii_iiii_iiii E op)"
    "precise_instr (i1011_iiii_iiii_iiii E op)" "precise_instr (i0100_nnnn_0010_1011 E op)"
    "precise_instr (i0100_nnnn_0000_1011 E op)"
    and "precise_instr (i0000_0000_0010_1011 E op)" "precise_instr (i1100_0011_iiii_iiii E op)"
    "precise_instr (i0000_0000_0001_1011 E op)" "precise_instr (i0000_0000_0011_1000 E op)"
    "precise_instr (i0000_nnnn_1000_0011 E op)" "precise_instr (iNotImplemented E op)"
    "precise_instr (fpu_op E op)" "precise_instr (reios_trap E op)"
proof -
  have s: "precise_instr (e_ExecuteDelayslot E)" and b: "base_precise E"
    and r: "\<And>s e s'. e_ExecuteDelayslot_RTE E s = Throw e s' \<Longrightarrow> \<not> sh4_throw e"
    using assms unfolding env_precise_def by blast+
  have d: "precise_instr (e_fpu E w)" "precise_instr (e_reios_trap E w)" "precise_instr (e_doSqWrite E f w)" for w f
    using b by (simp_all add: base_precise_def precise_op_instr)
  have ret: "precise_instr (returnM ())" by (simp add: precise_instr_def)
  show "precise_instr (i0000_nnnn_0010_0011 E op)" "precise_instr (i0000_nnnn_0000_0011 E op)"
    "precise_instr (i0000_0000_0000_1011 E op)" "precise_instr (i1000_1111_iiii_iiii E op)"
    "precise_instr (i1000_1101_iiii_iiii E op)" "precise_instr (i1010_iiii_iiii_iiii E op)"
    "precise_instr (i1011_iiii_iiii_iiii E op)" "precise_instr (i0100_nnnn_0010_1011 E op)"
    "precise_instr (i0100_nnnn_0000_1011 E op)"
    by (auto simp: i0000_nnnn_0010_0011_def i0000_nnnn_0000_0011_def i0000_0000_0000_1011_def
        i1000_1111_iiii_iiii_def i1000_1101_iiii_iiii_def i1010_iiii_iiii_iiii_def
        i1011_iiii_iiii_iiii_def i0100_nnnn_0010_1011_def i0100_nnnn_0000_1011_def Let_def ret
        intro!: precise_instr_with_ctx precise_instr_upd s)
  show "precise_instr (i0000_0000_0010_1011 E op)" "precise_instr (i1100_0011_iiii_iiii E op)"
    "precise_instr (i0000_0000_0001_1011 E op)" "precise_instr (i0000_0000_0011_1000 E op)"
    by (rule precise_instr_nothrow, auto simp: i0000_0000_0010_1011_def i1100_0011_iiii_iiii_def
        i0000_0000_0001_1011_def i0000_0000_0011_1000_def Let_def bindM_eq_Throw
        dest: r Do_Exception_throw sleep_wait_throw split: if_splits)+
  show "precise_instr (i0000_nnnn_1000_0011 E op)" "precise_instr (fpu_op E op)"
    "precise_instr (reios_trap E op)"
    by (auto simp: d i0000_nnnn_1000_0011_def Let_def ret fpu_op_def reios_trap_def
        intro!: precise_instr_with_ctx)
  show "precise_instr (iNotImplemented E op)"
    by (rule precise_instrI) (auto simp: iNotImplemented_def throw_at_def exception_event_def)
qed

lemma opcodes_precise:
  assumes "env_precise E"
  shows "list_all (\<lambda>e. precise_instr (oph e E op)) opcodes"
proof -
  have a: "access_ok E" using assms by (simp add: env_precise_def base_precise_def)
  show ?thesis
    by (simp only: opcodes_defs append.simps list.pred_inject mk_sel HOL.simp_thms
        control_ops_precise [OF assms] mem_ops_precise [OF a, THEN precise_op_instr]
        system_ops_precise [OF a, THEN precise_op_instr] pure_op_precise [THEN precise_op_instr])
qed

lemma OpPtr_precise:
  fixes E :: "'d env"
  assumes "env_precise E"
  shows "precise_instr (OpPtr op E w)"
proof (cases "OpDesc op = (missing_opcode :: 'd sh4_opcodelistentry)")
  case True
  then show ?thesis
    unfolding OpTables_eq(2) by (simp add: missing_opcode_def control_ops_precise [OF assms])
next
  case False
  then have "OpDesc op \<in> set (opcodes :: 'd sh4_opcodelistentry list)"
    using OpDesc_cases [of op, where 'd = 'd] by auto
  then show ?thesis
    unfolding OpTables_eq(2) using opcodes_precise [OF assms, of w] by (simp add: list_all_iff)
qed

section \<open>Precise exceptions\<close>

text \<open>The memory accesses do not depend on the delay slot routines.\<close>

lemma data_address_slot [simp]:
  "mmu_data_address (E\<lparr>e_ExecuteDelayslot := x, e_ExecuteDelayslot_RTE := y\<rparr>) w al adr = mmu_data_address E w al adr"
  by (simp add: mmu_data_address_def)

lemma access_slot [simp]:
  "ReadMem8 (E\<lparr>e_ExecuteDelayslot := x, e_ExecuteDelayslot_RTE := y\<rparr>) = ReadMem8 E"
  "ReadMem16 (E\<lparr>e_ExecuteDelayslot := x, e_ExecuteDelayslot_RTE := y\<rparr>) = ReadMem16 E"
  "ReadMem32 (E\<lparr>e_ExecuteDelayslot := x, e_ExecuteDelayslot_RTE := y\<rparr>) = ReadMem32 E"
  "WriteMem8 (E\<lparr>e_ExecuteDelayslot := x, e_ExecuteDelayslot_RTE := y\<rparr>) = WriteMem8 E"
  "WriteMem16 (E\<lparr>e_ExecuteDelayslot := x, e_ExecuteDelayslot_RTE := y\<rparr>) = WriteMem16 E"
  "WriteMem32 (E\<lparr>e_ExecuteDelayslot := x, e_ExecuteDelayslot_RTE := y\<rparr>) = WriteMem32 E"
  "IReadMem16 (E\<lparr>e_ExecuteDelayslot := x, e_ExecuteDelayslot_RTE := y\<rparr>) = IReadMem16 E"
  by ((rule ext)+, simp add: ReadMem8_def ReadMem16_def ReadMem32_def WriteMem8_def WriteMem16_def
    WriteMem32_def IReadMem16_def mmu_ReadMem8_def mmu_ReadMem16_def mmu_ReadMem32_def
    mmu_WriteMem8_def mmu_WriteMem16_def mmu_WriteMem32_def mmu_IReadMem16_def bindM_def
    readt8_def readt16_def readt32_def writet8_def writet16_def writet32_def
    split: outcome.split meminfo.split prod.split)+

lemma base_precise_slot [simp]:
  "base_precise (E\<lparr>e_ExecuteDelayslot := x, e_ExecuteDelayslot_RTE := y\<rparr>) = base_precise E"
  by (simp add: base_precise_def access_ok_def)

lemma regs_of_nopc: "regs_of c = regs_of d \<Longrightarrow> regs_nopc c = regs_nopc d"
  by (simp add: regs_nopc_def)

lemma regs_nopc_pc [simp]: "regs_nopc (ctx_pc_update f c) = regs_nopc c"
  by (simp add: regs_nopc_def regs_of_def)

lemma base_precise_fetch: "base_precise E \<Longrightarrow> precise (IReadMem16 E a)"
  by (simp add: base_precise_def access_okD)

lemma fetch_throw:
  assumes "base_precise E" "ReadNexOp E s = Throw e s'"
  shows "throw_at (ctx_pc (m_ctx s)) (m_ctx s) e s'"
proof (cases "\<not> mmuOn (m_mmu s) \<and> ctx_pc (m_ctx s) AND 1 \<noteq> 0")
  case True
  then show ?thesis
    using assms(2) by (auto simp: ReadNexOp_def throw_at_def exception_event_def)
next
  case False
  let ?s1 = "on_ctx (ctx_pc_update (\<lambda>_. ctx_pc (m_ctx s) + 2)) s"
  have "IReadMem16 E (ctx_pc (m_ctx s)) ?s1 = Throw e s'"
    using assms(2) False by (simp add: ReadNexOp_def Let_def)
  then have "precise_throw (m_ctx ?s1) e s'"
    by (rule preciseD(2) [OF base_precise_fetch [OF assms(1)]])
  then show ?thesis by (auto dest!: precise_throw_at simp: throw_at_def split: halt.splits)
qed

lemma fetch_Ret:
  assumes "base_precise E" "ReadNexOp E s = Ret op s'"
  shows "ctx_pc (m_ctx s') = ctx_pc (m_ctx s) + 2" "regs_nopc (m_ctx s') = regs_nopc (m_ctx s)"
proof -
  let ?s1 = "on_ctx (ctx_pc_update (\<lambda>_. ctx_pc (m_ctx s) + 2)) s"
  have "IReadMem16 E (ctx_pc (m_ctx s)) ?s1 = Ret op s'"
    using assms(2) by (simp add: ReadNexOp_def Let_def split: if_splits)
  then have r: "regs_of (m_ctx s') = regs_of (m_ctx ?s1)"
    by (rule preciseD(1) [OF base_precise_fetch [OF assms(1)]])
  then show "regs_nopc (m_ctx s') = regs_nopc (m_ctx s)" by (auto dest: regs_of_nopc)
  from arg_cong [OF r, of ctx_pc] show "ctx_pc (m_ctx s') = ctx_pc (m_ctx s) + 2"
    by (simp add: regs_of_def)
qed

lemma ExecuteOpcode_precise:
  fixes E :: "'d env"
  assumes "env_precise E"
  shows "precise_instr (ExecuteOpcode E op)"
proof -
  have "precise_instr (bindM (OpPtr op E w) (\<lambda>_. modifyM f))" for w f
    by (rule precise_instrI) (auto simp: bindM_eq_Throw dest: precise_instrD [OF OpPtr_precise [OF assms]])
  moreover have "precise_instr (with_ctx (\<lambda>c. throwM (SH4ThrownException (ctx_pc c - 2) Sh4Ex_FpuDisabled)) :: ('d, unit) SM)"
    by (rule precise_instrI) (auto simp: throw_at_def exception_event_def)
  ultimately show ?thesis
    by (intro precise_instrI) (auto simp: ExecuteOpcode_def dest: precise_instrD split: if_splits)
qed

lemma instruction_throw:
  assumes "env_precise E" "instruction E s = Throw e s'"
  shows "throw_at (ctx_pc (m_ctx s)) (m_ctx s) e s'"
proof -
  have b: "base_precise E" using assms(1) by (simp add: env_precise_def)
  from assms(2) consider "ReadNexOp E s = Throw e s'"
    | op s1 where "ReadNexOp E s = Ret op s1" "ExecuteOpcode E op s1 = Throw e s'"
    by (auto simp: instruction_def bindM_eq_Throw)
  then show ?thesis
  proof cases
    case 1 then show ?thesis by (rule fetch_throw [OF b])
  next
    case 2
    from precise_instrD [OF ExecuteOpcode_precise [OF assms(1)] 2(2)] fetch_Ret [OF b 2(1)]
    show ?thesis by (cases e) (simp_all add: throw_at_def)
  qed
qed

lemma ExecuteDelayslot_precise:
  assumes "env_precise E"
  shows "precise_instr (ExecuteDelayslot E)"
proof (rule precise_instrI)
  fix s e s' assume "ExecuteDelayslot E s = Throw e s'"
  then show "throw_at (ctx_pc (m_ctx s) - 2) (m_ctx s) e s'"
    unfolding ExecuteDelayslot_def
  proof (rule catch_sh4_Throw)
    fix p ev s1 assume "instruction E s = Throw (SH4ThrownException p ev) s1"
      and h: "(let (epc', ev') = AdjustDelaySlotException p ev in throwM (SH4ThrownException epc' ev')) s1 = Throw e s'"
    from instruction_throw [OF assms this(1)] h
    show ?thesis
      by (auto simp: throw_at_def AdjustDelaySlotException_def exception_event_def)
  qed (rule throw_at_other)
qed

lemma ExecuteDelayslot_RTE_throw: "ExecuteDelayslot_RTE E s = Throw e s' \<Longrightarrow> \<not> sh4_throw e"
  by (auto simp: ExecuteDelayslot_RTE_def elim!: catch_sh4_Throw)

lemma env_precise_interp: "base_precise E \<Longrightarrow> env_precise (interp n E)"
proof (induction n)
  case 0
  then show ?case by (simp add: env_precise_def precise_instr_def throw_at_def)
next
  case (Suc n)
  then show ?case
    by (auto simp: env_precise_def ExecuteDelayslot_precise dest: ExecuteDelayslot_RTE_throw)
qed

text \<open>The context in the handler of an exception at an instruction that started in context \<open>c\<close>.\<close>

definition exception_state :: "Sh4Context \<Rightarrow> u16 \<Rightarrow> Sh4Context \<Rightarrow> bool" where
  "exception_state c ev c' \<longleftrightarrow> ctx_spc c' = ctx_pc c \<and> ctx_ssr c' = getFull (ctx_sr c) \<and>
     ctx_sgr c' = ctx_r c 15 \<and> ctx_pc c' = ctx_vbr c +
       (if ev = Sh4Ex_TlbMissRead \<or> ev = Sh4Ex_TlbMissWrite then 0x400 else 0x100) \<and>
     st_MD (ctx_status c') = 1 \<and> st_BL (ctx_status c') = 1 \<and> bank_active c' \<and>
     bank_view c' = bank_view c \<and> (\<forall>n. 8 \<le> unat n \<longrightarrow> ctx_r c' n = ctx_r c n) \<and>
     ctx_mac c' = ctx_mac c \<and> ctx_pr c' = ctx_pr c \<and> ctx_gbr c' = ctx_gbr c \<and>
     ctx_vbr c' = ctx_vbr c \<and> ctx_dbr c' = ctx_dbr c \<and> ctx_fpul c' = ctx_fpul c \<and>
     ctx_fpscr c' = ctx_fpscr c \<and> ctx_fr c' = ctx_fr c \<and> ctx_xf c' = ctx_xf c"

lemma regs_nopc_eq:
  assumes "regs_nopc c' = regs_nopc c"
  shows "ctx_sr c' = ctx_sr c" "ctx_r c' = ctx_r c" "ctx_r_bank c' = ctx_r_bank c"
    "ctx_old_sr c' = ctx_old_sr c" "ctx_mac c' = ctx_mac c" "ctx_pr c' = ctx_pr c"
    "ctx_gbr c' = ctx_gbr c" "ctx_vbr c' = ctx_vbr c" "ctx_dbr c' = ctx_dbr c"
    "ctx_fpul c' = ctx_fpul c" "ctx_fpscr c' = ctx_fpscr c" "ctx_fr c' = ctx_fr c"
    "ctx_xf c' = ctx_xf c"
  using assms by (cases c; cases c'; simp add: regs_nopc_def regs_of_def)+

lemma UpdateSR_rest [simp]:
  "ctx_mac (m_ctx (snd (UpdateSR s))) = ctx_mac (m_ctx s)"
  "ctx_pr (m_ctx (snd (UpdateSR s))) = ctx_pr (m_ctx s)"
  "ctx_gbr (m_ctx (snd (UpdateSR s))) = ctx_gbr (m_ctx s)"
  "ctx_dbr (m_ctx (snd (UpdateSR s))) = ctx_dbr (m_ctx s)"
  "ctx_fpul (m_ctx (snd (UpdateSR s))) = ctx_fpul (m_ctx s)"
  "ctx_fpscr (m_ctx (snd (UpdateSR s))) = ctx_fpscr (m_ctx s)"
  "ctx_fr (m_ctx (snd (UpdateSR s))) = ctx_fr (m_ctx s)"
  "ctx_xf (m_ctx (snd (UpdateSR s))) = ctx_xf (m_ctx s)"
  unfolding UpdateSR_def
  by (subst m_ctx_SRdecode, simp add: UpdateSR_banks_def ChangeGPR_def Let_def)+

lemma exception_entry_state:
  assumes "regs_nopc (m_ctx s1) = regs_nopc c"
  shows "exception_state c ev ((\<lambda>d. d\<lparr>ctx_pc := ctx_vbr d +
     (if ev = Sh4Ex_TlbMissRead \<or> ev = Sh4Ex_TlbMissWrite then 0x400 else 0x100)\<rparr>)
     (m_ctx (exception_entry (ctx_pc c) s1)))"
proof -
  note e = regs_nopc_eq [OF assms]
  have st: "ctx_status (m_ctx s1) = ctx_status c" by (simp add: ctx_status_def e)
  have v: "bank_view (m_ctx s1) = bank_view c" by (rule bank_view_cong) (simp_all add: e)
  have bv: "bank_view (ctx_pc_update f d) = bank_view d" "bank_active (ctx_pc_update f d) = bank_active d"
    "ctx_status (ctx_pc_update f d) = ctx_status d" for f d
    by (simp_all add: bank_view_def bank_active_def ctx_status_def fun_eq_iff)
  show ?thesis
    unfolding exception_state_def
    by (simp add: bv exception_entry_ctx v e) (simp add: exception_entry_def upd_status_def e)
qed

lemma Do_Exception_state:
  assumes "regs_nopc (m_ctx s1) = regs_nopc c"
  shows "if st_BL (ctx_status c) \<noteq> 0
    then enter_exception (ctx_pc c) ev s1 = Throw (FlycastException ''Fatal: SH4 exception when blocked'') s1
    else \<exists>s2. enter_exception (ctx_pc c) ev s1 = Ret () s2 \<and> exception_state c ev (m_ctx s2)"
proof -
  let ?s1 = "m_ccn_update (CCN_EXPEVT_update (\<lambda>_. ucast ev)) s1"
  have st: "ctx_status (m_ctx s1) = ctx_status c"
    using regs_nopc_eq(1) [OF assms] by (simp add: ctx_status_def)
  have cyc: "exception_state c ev (m_ctx (addCycles n s)) = exception_state c ev (m_ctx s)" for n and s :: "'a machine"
    by (simp add: addCycles_def exception_state_def bank_view_def bank_active_def ctx_status_def fun_eq_iff)
  show ?thesis
  proof (cases "st_BL (ctx_status c) \<noteq> 0")
    case False
    define off :: u32 where "off = (if ev = Sh4Ex_TlbMissRead \<or> ev = Sh4Ex_TlbMissWrite then 0x400 else 0x100)"
    let ?s2 = "on_ctx (\<lambda>d. d\<lparr>ctx_pc := ctx_vbr d + off\<rparr>) (exception_entry (ctx_pc c) ?s1)"
    have "enter_exception (ctx_pc c) ev s1 = Ret () (addCycles (5 * CPU_RATIO) ?s2)"
      unfolding enter_exception_def Do_Exception_def Let_def off_def [symmetric]
      using False by (simp add: bindM_def st)
    moreover have "exception_state c ev (m_ctx ?s2)"
      using exception_entry_state [of ?s1 c ev, folded off_def] assms by simp
    ultimately show ?thesis using False cyc by simp
  qed (simp add: enter_exception_def Do_Exception_def bindM_def st)
qed

section \<open>Properties\<close>

text \<open>C1: Exceptions are precise. A step of the interpreter, delay slots included and at every depth
  of their nesting, completes its instruction; or it enters the handler of an exception with
  the address of the instruction in SPC and every register as it was before the instruction
  (with a fatal error if SR.BL is set); or the emulator stops with a fatal error.\<close>
theorem Step_precise:
  assumes "base_precise E"
  shows "(\<exists>s'. instruction (interp n E) s = Ret () s' \<and> Step (interp n E) s = Ret () s') \<or>
   (\<exists>ev s1. instruction (interp n E) s = Throw (SH4ThrownException (ctx_pc (m_ctx s)) ev) s1 \<and>
      exception_event ev \<and>
      (if st_BL (ctx_status (m_ctx s)) \<noteq> 0
       then Step (interp n E) s = Throw (FlycastException ''Fatal: SH4 exception when blocked'') s1
       else \<exists>s2. Step (interp n E) s = Ret () s2 \<and> exception_state (m_ctx s) ev (m_ctx s2))) \<or>
   (\<exists>e s'. instruction (interp n E) s = Throw e s' \<and> \<not> sh4_throw e \<and> Step (interp n E) s = Throw e s')"
proof (cases "instruction (interp n E) s")
  case (Throw e s1)
  note t = instruction_throw [OF env_precise_interp [OF assms] Throw]
  show ?thesis
  proof (cases e)
    case (SH4ThrownException q ev)
    with t have q: "q = ctx_pc (m_ctx s)" "exception_event ev" "regs_nopc (m_ctx s1) = regs_nopc (m_ctx s)"
      by (simp_all add: throw_at_def)
    have "Step (interp n E) s = enter_exception (ctx_pc (m_ctx s)) ev s1"
      using Throw by (simp add: Step_def catch_sh4_def SH4ThrownException q)
    then show ?thesis
      using Do_Exception_state [OF q(3), of ev] q(2) Throw SH4ThrownException q(1) by auto
  qed (use Throw in \<open>auto simp: Step_def catch_sh4_def\<close>)
qed (simp add: Step_def catch_sh4_def)

text \<open>The environment with the address translation of \<^verbatim>\<open>mmu.cpp\<close> and the store queues of
  \<^verbatim>\<open>storeq.cpp\<close>; what is left to rely on are the device handlers and the FPU.\<close>

definition sh4_env :: "areas \<Rightarrow> 'd pvr_env \<Rightarrow> 'd env \<Rightarrow> 'd env" where
  "sh4_env a P E = with_sq a P (with_mmu E)"

lemma base_precise_sh4:
  assumes "handlers_quiet E" "pvr_quiet P"
    and "\<And>w. precise_op (e_fpu E w)" "\<And>w. precise_op (e_reios_trap E w)"
  shows "base_precise (sh4_env a P E)"
proof -
  have q: "handlers_quiet (sh4_env a P E)" "handlers_quiet (with_mmu E)"
    using assms(1) by (simp_all add: sh4_env_def with_sq_def with_mmu_def handlers_quiet_def)
  have t: "e_data_translation (sh4_env a P E) = mmu_dtrans"
    "e_instruction_translation (sh4_env a P E) = mmu_itrans"
    by (simp_all add: sh4_env_def with_sq_def with_mmu_def)
  have "access_ok (sh4_env a P E)"
    using strict_mmu.access_precise [OF q(1) t] by (simp add: access_ok_def)
  moreover have "precise_op (e_doSqWrite (sh4_env a P E) f w)" for f w
    using precise_doSqWrite [OF q(2) assms(2)]
    by (simp add: sh4_env_def with_sq_def precise_precise_op)
  ultimately show ?thesis
    using assms(3,4) by (simp add: base_precise_def sh4_env_def with_sq_def with_mmu_def)
qed

definition idle_sh4 :: "unit env" where
  "idle_sh4 = sh4_env dreamcast_areas pvr_witness idle_env"

lemma idle_sh4_precise: "base_precise idle_sh4"
  unfolding idle_sh4_def
  by (rule base_precise_sh4)
    (simp_all add: handlers_quiet_def idle_env_def quiet_def precise_op_def pvr_quiet_def pvr_witness_def)

definition at_pc :: "u32 \<Rightarrow> unit machine" where
  "at_pc pc = on_ctx (ctx_pc_update (\<lambda>_. pc)) (zero_machine ())"

theorem Step_precise_witness:
  "\<exists>s2. Step (interp 1 idle_sh4) (at_pc 0x8C000001) = Ret () s2 \<and> ctx_spc (m_ctx s2) = 0x8C000001 \<and>
     ctx_pc (m_ctx s2) = 0x100"
proof -
  have "instruction (interp 1 idle_sh4) (at_pc 0x8C000001) =
      Throw (SH4ThrownException 0x8C000001 Sh4Ex_AddressErrorRead) (at_pc 0x8C000001)"
    by (simp add: instruction_def bindM_def ReadNexOp_def at_pc_def zero_machine_def zero_ctx_def on_ctx_def)
  moreover have "st_BL (ctx_status (m_ctx (at_pc 0x8C000001))) = 0" "ctx_vbr (m_ctx (at_pc 0x8C000001)) = 0"
    "ctx_pc (m_ctx (at_pc 0x8C000001)) = 0x8C000001"
    by (simp_all add: at_pc_def zero_machine_def zero_ctx_def on_ctx_def ctx_status_def flag_bits)
  ultimately show ?thesis
    using Step_precise [OF idle_sh4_precise, of 1 "at_pc 0x8C000001"]
    by (auto simp: exception_state_def)
qed

section \<open>Return from an exception\<close>

lemma OpDesc_eq:
  assumes "e \<in> set (opcodes :: 'd sh4_opcodelistentry list)" "op_matches op e"
  shows "OpDesc op = e" "OpPtr op = oph e"
proof -
  have "e \<in> set (filter (op_matches op) opcodes)" using assms by simp
  then have "filter (op_matches op) opcodes = [e]"
    using opcode_unique [of op, where 'a = 'd]
    by (cases "filter (op_matches op) (opcodes :: 'd sh4_opcodelistentry list)") auto
  then show "OpDesc op = e" "OpPtr op = oph e" by (rule OpDesc_match)+
qed

lemma nop_entry:
  "mk (pure_op i0000_0000_0000_1001) Mask_none 0x0009 Normal 1 0 MT 1 \<in> set opcodes"
  "op_matches 0x0009 (mk (pure_op i0000_0000_0000_1001) Mask_none 0x0009 Normal 1 0 MT 1)"
  by (simp_all add: opcodes_defs op_matches_def op_masks)

lemmas nop_desc = OpDesc_eq [OF nop_entry, unfolded mk_sel]

lemma bank_pc [simp]: "bank_view (ctx_pc_update f c) = bank_view c" "bank_active (ctx_pc_update f c) = bank_active c"
    "arch_bank1 (ctx_pc_update f c) = arch_bank1 c"
  by (simp_all add: bank_view_def bank_active_def arch_bank1_def ctx_status_def fun_eq_iff)

lemma banks_eq:
  assumes "bank_view c' = bank_view c" "bank_active c' = bank_active c"
    and "\<And>n. 8 \<le> unat n \<Longrightarrow> ctx_r c' n = ctx_r c n"
  shows "ctx_r c' = ctx_r c" "ctx_r_bank c' = ctx_r_bank c"
proof -
  have v: "bank_view c' b k = bank_view c b k" for b k using assms(1) by simp
  show "ctx_r c' = ctx_r c"
  proof
    fix n
    show "ctx_r c' n = ctx_r c n"
    proof (cases "unat n < 8")
      case True
      then have "ucast (ucast n :: 3 word) = n" by (rule ucast_4_3_4)
      with v [of "bank_active c" "ucast n"] assms(2) show ?thesis by (simp add: bank_view_def)
    qed (simp add: assms(3))
  qed
  show "ctx_r_bank c' = ctx_r_bank c"
    using v [of "\<not> bank_active c"] assms(2) by (simp add: bank_view_def fun_eq_iff)
qed

lemma m_ctx_same [simp]: "m_ctx_update (\<lambda>c. c) s = s"
  by simp

lemma ReadNexOp_interp [simp]: "ReadNexOp (interp n E) = ReadNexOp E"
  by (cases n; rule ext) (simp_all add: ReadNexOp_def Let_def)

lemma execute_nop:
  "ExecuteOpcode E 0x0009 s = Ret () (executeCycles CPU_RATIO 0x0009 s)"
proof -
  have "\<not> IsFloatingPoint (OpDesc 0x0009 :: 'a sh4_opcodelistentry)"
    by (simp add: nop_desc IsFloatingPoint_def op_types)
  then show ?thesis
    by (simp add: ExecuteOpcode_def nop_desc pure_op_def i0000_0000_0000_1001_def [abs_def] bindM_def on_ctx_def)
qed

lemma executeCycles_regs [simp]: "regs_nopc (m_ctx (executeCycles r op s)) = regs_nopc (m_ctx s)"
  "m_intc (executeCycles r op s) = m_intc s" "m_mmu (executeCycles r op s) = m_mmu s"
  "regs_of (m_ctx (executeCycles r op s)) = regs_of (m_ctx s)"
  by (simp_all add: executeCycles_def countCycles_def addCycles_def regs_nopc_def regs_of_def split: prod.split)

lemma fst_UpdateSR: "fst (UpdateSR s) \<longleftrightarrow> ctx_interrupt_pend (m_ctx (snd (UpdateSR s))) \<noteq> 0"
  by (simp add: UpdateSR_def SRdecode_def Let_def)

lemma UpdateSR_INTC_eq: "UpdateSR_INTC s = snd (UpdateINTC (snd (UpdateSR s)))"
  using fst_UpdateSR [of s] by (auto simp: UpdateSR_INTC_def UpdateINTC_def split: prod.split)

text \<open>C4: RTE undoes the entry into an exception. When the handler has left SSR and SPC, the
  registers of both banks and the register bank alone, an RTE with a nop in its delay slot
  resumes at the saved address with the status register and all general registers of both
  banks as they were before the exception; an interrupt that was held back is taken then.\<close>
theorem exception_rte_roundtrip:
  assumes "base_precise E" and "ctx_wf (m_ctx s)"
    and "bank_active (m_ctx s) = arch_bank1 (m_ctx s)"
    and "Do_Exception epc ev s = Ret () s1"
    and "ctx_ssr (m_ctx s2) = ctx_ssr (m_ctx s1)" and "ctx_spc (m_ctx s2) = ctx_spc (m_ctx s1)"
    and "bank_view (m_ctx s2) = bank_view (m_ctx s1)" and "bank_active (m_ctx s2)"
    and "\<And>n. 8 \<le> unat n \<Longrightarrow> ctx_r (m_ctx s2) n = ctx_r (m_ctx s1) n"
    and "ReadNexOp E s2 = Ret 0x0009 s3"
  shows "\<exists>s4. i0000_0000_0010_1011 (interp (Suc n) E) 0x002B s2 = Ret () (snd (UpdateINTC s4)) \<and>
     ctx_pc (m_ctx s4) = epc \<and> ctx_sr (m_ctx s4) = ctx_sr (m_ctx s) \<and>
     ctx_r (m_ctx s4) = ctx_r (m_ctx s) \<and> ctx_r_bank (m_ctx s4) = ctx_r_bank (m_ctx s)"
proof -
  define s1' where "s1' = exception_entry epc (m_ccn_update (CCN_EXPEVT_update (\<lambda>_. ucast ev)) s)"
  obtain off where s1: "s1 = on_ctx (\<lambda>c. c\<lparr>ctx_pc := ctx_vbr c + off\<rparr>) s1'"
    using assms(4) by (auto simp: Do_Exception_def Let_def s1'_def split: if_splits)
  have entry: "ctx_ssr (m_ctx s1) = getFull (ctx_sr (m_ctx s))" "ctx_spc (m_ctx s1) = epc"
    "bank_view (m_ctx s1) = bank_view (m_ctx s)"
    "8 \<le> unat n \<Longrightarrow> ctx_r (m_ctx s1) n = ctx_r (m_ctx s) n" for n
    by (simp_all add: s1 s1'_def exception_entry_ctx)
  note f = fetch_Ret(2) [OF assms(1,10)]
  let ?E = "interp n E"
  let ?s3 = "executeCycles CPU_RATIO 0x0009 (on_ctx (\<lambda>c. c\<lparr>ctx_sr := setFull (ctx_ssr c)\<rparr>) s3)"
  let ?s4 = "snd (UpdateSR (on_ctx (ctx_pc_update (\<lambda>_. ctx_spc (m_ctx s2))) ?s3))"
  let ?d = "m_ctx s3\<lparr>ctx_sr := setFull (ctx_ssr (m_ctx s3))\<rparr>"
  have "regs_nopc (m_ctx ?s3) = regs_nopc ?d" by simp
  note e = regs_nopc_eq [OF this] and g = regs_nopc_eq [OF f]
  have v: "bank_view (m_ctx ?s3) = bank_view (m_ctx s)"
    by (rule trans [OF bank_view_cong [of _ "m_ctx s2"]]) (simp_all add: e g assms(7) entry)
  have "ExecuteDelayslot_RTE ?E s2 = Ret () ?s3"
    by (simp add: ExecuteDelayslot_RTE_def catch_sh4_def bindM_def assms(10) execute_nop)
  then have "i0000_0000_0010_1011 (interp (Suc n) E) 0x002B s2 = Ret () (snd (UpdateINTC ?s4))"
    by (simp add: i0000_0000_0010_1011_def bindM_def UpdateSR_INTC_eq)
  moreover have "ctx_pc (m_ctx ?s4) = epc" by (simp add: assms(6) entry)
  moreover have sr: "ctx_sr (m_ctx ?s4) = ctx_sr (m_ctx s)"
  proof -
    have "ctx_ssr (m_ctx s3) = getFull (ctx_sr (m_ctx s))"
      using arg_cong [OF f, of ctx_ssr] by (simp add: regs_nopc_def regs_of_def assms(5) entry)
    then show ?thesis using assms(2) by (simp add: e setFull_getFull ctx_wf_def)
  qed
  moreover have "bank_view (m_ctx ?s4) = bank_view (m_ctx s)"
    using v by (simp add: UpdateSR_view)
  moreover have "bank_active (m_ctx ?s4) = bank_active (m_ctx s)"
    using sr by (simp add: UpdateSR_active assms(3) arch_bank1_def ctx_status_def)
  moreover have "ctx_r (m_ctx ?s4) n = ctx_r (m_ctx s) n" if "8 \<le> unat n" for n
    using that by (simp add: e g assms(9) entry)
  ultimately show ?thesis using banks_eq [of "m_ctx ?s4" "m_ctx s"] by blast
qed

definition nop_sh4 :: "unit env" where
  "nop_sh4 = sh4_env dreamcast_areas pvr_witness (idle_env\<lparr>e_RF16 := (\<lambda>_ _. returnM 0x0009)\<rparr>)"

lemma nop_sh4_precise: "base_precise nop_sh4"
  unfolding nop_sh4_def
  by (rule base_precise_sh4)
    (simp_all add: handlers_quiet_def idle_env_def quiet_def precise_op_def pvr_quiet_def pvr_witness_def)

theorem exception_rte_roundtrip_witness:
  "\<exists>s1 s4. Do_Exception 0x8C000000 Sh4Ex_Trap (zero_machine ()) = Ret () s1 \<and>
     i0000_0000_0010_1011 (interp 1 nop_sh4) 0x002B s1 = Ret () (snd (UpdateINTC s4)) \<and>
     ctx_pc (m_ctx s4) = 0x8C000000 \<and> ctx_r (m_ctx s4) = (\<lambda>_. 0)"
proof -
  let ?s = "zero_machine ()"
  have z: "ctx_wf (m_ctx ?s)" "bank_active (m_ctx ?s) = arch_bank1 (m_ctx ?s)" "st_BL (ctx_status (m_ctx ?s)) = 0"
    "ctx_vbr (m_ctx ?s) = 0" "ctx_r (m_ctx ?s) = (\<lambda>_. 0)" "mmuOn (m_mmu ?s) = False" "m_map ?s = (\<lambda>_. Handler 0)"
    by (simp_all add: zero_machine_def zero_ctx_def ctx_wf_def sr_wf_def bank_active_def arch_bank1_def
        ctx_status_def flag_bits)
  obtain s1 where s1: "Do_Exception 0x8C000000 Sh4Ex_Trap ?s = Ret () s1"
    and pc: "ctx_pc (m_ctx s1) = 0x100" and mm: "m_mmu s1 = m_mmu ?s" "m_map s1 = m_map ?s"
    and b: "bank_active (m_ctx s1)"
    using z(3) by (auto simp: Do_Exception_def Let_def exception_entry_ctx z(4))
  have "\<exists>s3. ReadNexOp nop_sh4 s1 = Ret 0x0009 s3"
    by (simp add: ReadNexOp_def pc mm z IReadMem16_def readt16_def nop_sh4_def sh4_env_def with_sq_def with_mmu_def)
  then obtain s3 where "ReadNexOp nop_sh4 s1 = Ret 0x0009 s3" ..
  from exception_rte_roundtrip [OF nop_sh4_precise z(1,2) s1 refl refl refl b refl this, of 0] s1
  show ?thesis by (auto simp: z(5))
qed

section \<open>Reset\<close>

lemma clear_sq_frame [simp]:
  "m_ctx (clear_sq a hard s) = m_ctx s" "m_intc (clear_sq a hard s) = m_intc s"
  "m_cache (clear_sq a hard s) = m_cache s"
  by (simp_all add: clear_sq_def upd_block_def)

lemma cache_Reset_frame [simp]:
  "m_ctx (ic_Reset hard s) = m_ctx s" "m_ctx (oc_Reset hard s) = m_ctx s"
  "m_intc (ic_Reset hard s) = m_intc s" "m_intc (oc_Reset hard s) = m_intc s"
  "m_mem (ic_Reset hard s) = m_mem s" "m_mem (oc_Reset hard s) = m_mem s"
  by (simp_all add: ic_Reset_def oc_Reset_def)

lemma m_cache_on_ctx [simp]: "m_cache (on_ctx f s) = m_cache s"
  by (simp add: on_ctx_def)

lemma UpdateSR_other:
  "m_mem (snd (UpdateSR s)) = m_mem s" "m_cache (snd (UpdateSR s)) = m_cache s"
  by (simp_all add: UpdateSR_def SRdecode_def Let_def recalc_pending_itrs_def on_ctx_def)

text \<open>The registers a reset sets, whether hard or soft.\<close>

definition reset_registers :: "Sh4Context \<Rightarrow> bool" where
  "reset_registers c \<longleftrightarrow> ctx_pc c = 0xA0000000 \<and> ctx_r c = (\<lambda>_. 0) \<and> ctx_r_bank c = (\<lambda>_. 0) \<and>
     ctx_gbr c = 0 \<and> ctx_ssr c = 0 \<and> ctx_spc c = 0 \<and> ctx_sgr c = 0 \<and> ctx_dbr c = 0 \<and> ctx_vbr c = 0 \<and>
     ctx_mac c = 0 \<and> ctx_pr c = 0 \<and> ctx_fpul c = 0 \<and> ctx_fpscr c = 0x00040001 \<and> ctx_old_fpscr c = 0x00040001 \<and>
     getFull (ctx_sr c) = 0x700000F0 \<and> ctx_cycle_counter c = SH4_TIMESLICE"

lemma Reset_regs_fields:
  "ctx_sr (Reset_regs hard c) = \<lparr>sr_status = 0x700000F0, sr_T = 0\<rparr>" "ctx_old_sr (Reset_regs hard c) = 0x700000F0"
  "ctx_status (Reset_regs hard c) = 0x700000F0" "ctx_pc (Reset_regs hard c) = 0xA0000000"
  "ctx_r (Reset_regs hard c) = (\<lambda>_. 0)" "ctx_r_bank (Reset_regs hard c) = (\<lambda>_. 0)"
  "ctx_gbr (Reset_regs hard c) = 0" "ctx_ssr (Reset_regs hard c) = 0" "ctx_spc (Reset_regs hard c) = 0"
  "ctx_sgr (Reset_regs hard c) = 0" "ctx_dbr (Reset_regs hard c) = 0" "ctx_vbr (Reset_regs hard c) = 0"
  "ctx_mac (Reset_regs hard c) = 0" "ctx_pr (Reset_regs hard c) = 0" "ctx_fpul (Reset_regs hard c) = 0"
  "ctx_sh4_sched_next (Reset_regs hard c) = ctx_sh4_sched_next c"
  "ctx_CpuRunning (Reset_regs hard c) = (\<not> hard \<and> ctx_CpuRunning c)"
  "ctx_fr (Reset_regs hard c) i = (if hard then 0 else ctx_fr c i)"
  "ctx_xf (Reset_regs hard c) i = (if hard then 0 else ctx_xf c i)"
  by (simp_all add: Reset_regs_def Let_def ctx_status_def setFull_def SR_MASK_def zero_ctx_def)

text \<open>The interrupts are blocked by the new status, so that \<^verbatim>\<open>UpdateSR\<close> finds none pending.\<close>

lemma Reset_UpdateSR:
  fixes hard :: bool
  assumes "intc_wf (m_intc s)"
  defines "s1 \<equiv> snd (UpdateSR (on_ctx (Reset_regs hard) s))" and "c \<equiv> Reset_regs hard (m_ctx s)"
  shows "intc_inv s1" "sr_decoded s1" "bank_active (m_ctx s1)" "arch_bank1 (m_ctx s1)"
    "m_ctx s1 = c\<lparr>ctx_old_sr := set_RB (st_RB 0x700000F0 AND st_MD 0x700000F0) 0x700000F0, ctx_interrupt_pend := 0\<rparr>"
proof -
  have b: "UpdateSR_banks c = c\<lparr>ctx_old_sr := set_RB (st_RB 0x700000F0 AND st_MD 0x700000F0) 0x700000F0\<rparr>"
    by (simp add: UpdateSR_banks_def Let_def c_def Reset_regs_fields flag_bits)
  show inv: "intc_inv s1" "sr_decoded s1" unfolding s1_def by (rule UpdateSR_inv; simp add: assms)+
  have "arch_bank1 c" by (simp add: arch_bank1_def c_def Reset_regs_fields flag_bits)
  then show "bank_active (m_ctx s1)" "arch_bank1 (m_ctx s1)"
    by (simp_all add: UpdateSR_active arch_bank1_def s1_def c_def)
  have "\<not> interruptible s1 u" for u by (simp add: interruptible_def s1_def Reset_regs_fields flag_bits)
  then have p: "ctx_interrupt_pend (m_ctx s1) = 0" using pend_nonzero [OF inv] by blast
  have "m_ctx s1 = (UpdateSR_banks c)\<lparr>ctx_interrupt_pend := 0\<rparr>"
    using p unfolding s1_def c_def UpdateSR_def by (subst m_ctx_SRdecode) simp
  then show "m_ctx s1 = c\<lparr>ctx_old_sr := set_RB (st_RB 0x700000F0 AND st_MD 0x700000F0) 0x700000F0,
      ctx_interrupt_pend := 0\<rparr>"
    by (simp add: b)
qed

text \<open>C29: A reset is refused while the CPU runs. Otherwise it leaves the CPU at the boot address,
  privileged, on bank 1 with interrupts masked and blocked: all general registers of both banks, all
  control and system registers, the multiplication registers and the link register are zero, the
  floating-point control register has its reset value, a full time slice begins and the interrupt
  controller's invariants are in force. A hard reset also zeroes both banks of floating-point registers
  and the store queues and empties both caches; a soft reset keeps them. No other memory changes, and
  neither does the time of the next event.\<close>
theorem Reset_state:
  assumes "intc_wf (m_intc s)"
  shows "if ctx_CpuRunning (m_ctx s) then Reset a hard s = Throw (Die ''verify'') s
    else \<exists>s'. Reset a hard s = Ret () s' \<and> reset_registers (m_ctx s') \<and> \<not> ctx_CpuRunning (m_ctx s') \<and>
      ctx_wf (m_ctx s') \<and> bank_active (m_ctx s') \<and> arch_bank1 (m_ctx s') \<and>
      ctx_sh4_sched_next (m_ctx s') = ctx_sh4_sched_next (m_ctx s) \<and>
      intc_inv s' \<and> sr_decoded s' \<and> ctx_interrupt_pend (m_ctx s') = 0 \<and>
      (\<forall>i. ctx_fr (m_ctx s') i = (if hard then 0 else ctx_fr (m_ctx s) i) \<and>
           ctx_xf (m_ctx s') i = (if hard then 0 else ctx_xf (m_ctx s) i)) \<and>
      (\<forall>b k. m_mem s' b k = (if hard \<and> b = a_sq a then 0 else m_mem s b k)) \<and>
      (\<forall>i. oline i s' = (if hard then zero_oline else oline i s)) \<and>
      (\<forall>i. if hard then \<not> il_valid (iline i s') \<and> il_address (iline i s') = 0 \<and> (\<forall>k. il_data (iline i s') k = 0)
           else iline i s' = iline i s)"
proof (cases "ctx_CpuRunning (m_ctx s)")
  case False
  let ?s1 = "snd (UpdateSR (on_ctx (Reset_regs hard) (clear_sq a hard s)))"
  let ?s' = "on_ctx (ctx_cycle_counter_update (\<lambda>_. SH4_TIMESLICE)) (cycles_reset (oc_Reset hard (ic_Reset hard
      (on_ctx (\<lambda>c. c\<lparr>ctx_fpscr := 0x00040001, ctx_old_fpscr := 0x00040001\<rparr>) ?s1))))"
  have "intc_wf (m_intc (clear_sq a hard s))" using assms by simp
  note u = Reset_UpdateSR [OF this, of hard, unfolded clear_sq_frame]
  have r: "Reset a hard s = Ret () ?s'" using False by (simp add: Reset_def Let_def)
  have i: "intc_inv ?s'" "sr_decoded ?s'" "bank_active (m_ctx ?s')" "arch_bank1 (m_ctx ?s')"
    "ctx_wf (m_ctx ?s')"
    using u(1-4) by (simp_all add: intc_inv_def sr_decoded_def bank_active_def arch_bank1_def ctx_status_def
        cycles_reset_def ctx_wf_def sr_wf_def Reset_regs_fields SR_MASK_def)
  have g: "reset_registers (m_ctx ?s')" "\<not> ctx_CpuRunning (m_ctx ?s')" "ctx_interrupt_pend (m_ctx ?s') = 0"
    "ctx_sh4_sched_next (m_ctx ?s') = ctx_sh4_sched_next (m_ctx s)"
    "ctx_fr (m_ctx ?s') j = (if hard then 0 else ctx_fr (m_ctx s) j)"
    "ctx_xf (m_ctx ?s') j = (if hard then 0 else ctx_xf (m_ctx s) j)" for j
    using False by (simp_all add: reset_registers_def cycles_reset_def u(5) Reset_regs_fields getFull_def SR_MASK_def)
  have mem: "m_mem ?s' b k = (if hard \<and> b = a_sq a then 0 else m_mem s b k)" for b k
    by (simp add: cycles_reset_def UpdateSR_other clear_sq_def upd_block_def)
  have oc: "oline j ?s' = (if hard then zero_oline else oline j s)" for j
    by (simp add: oline_def cycles_reset_def oc_Reset_def ic_Reset_def UpdateSR_other)
  have ic: "if hard then \<not> il_valid (iline j ?s') \<and> il_address (iline j ?s') = 0 \<and> (\<forall>k. il_data (iline j ?s') k = 0)
      else iline j ?s' = iline j s" for j
    by (simp add: iline_def cycles_reset_def oc_Reset_def ic_Reset_def UpdateSR_other)
  show ?thesis
    using False r i g mem oc ic by (simp only: if_False) blast
qed (simp add: Reset_def)

definition stopped_machine :: "unit machine" where
  "stopped_machine = on_ctx (ctx_CpuRunning_update (\<lambda>_. False)) (interrupts_reset (zero_machine ()))"

theorem Reset_state_witness:
  "\<exists>s'. Reset dreamcast_areas True stopped_machine = Ret () s' \<and> reset_registers (m_ctx s') \<and> intc_inv s' \<and>
     m_mem s' 3 = (\<lambda>_. 0)"
proof -
  have "intc_wf (m_intc stopped_machine)"
    using interrupts_reset_inv(1) [of "zero_machine ()"] by (simp add: stopped_machine_def intc_inv_def)
  from Reset_state [OF this, of dreamcast_areas True] show ?thesis
    by (auto simp: stopped_machine_def dreamcast_areas_def fun_eq_iff)
qed

section \<open>Fuel\<close>

lemma Run_slice_mono: "Run_slice k E s = Ret True s' \<Longrightarrow> k \<le> k' \<Longrightarrow> Run_slice k' E s = Ret True s'"
proof (induction k arbitrary: k' s)
  case (Suc k)
  then obtain j where k': "k' = Suc j" "k \<le> j" by (cases k') auto
  from Suc.prems(1) show ?case
    by (auto simp: k' bindM_eq_Ret split: if_splits intro!: exI Suc.IH [OF _ k'(2)])
qed simp

lemma Run_slice_mono_throw: "Run_slice k E s = Throw e s' \<Longrightarrow> k \<le> k' \<Longrightarrow> Run_slice k' E s = Throw e s'"
proof (induction k arbitrary: k' s)
  case (Suc k)
  then obtain j where k': "k' = Suc j" "k \<le> j" by (cases k') auto
  from Suc.prems(1) show ?case
    by (auto simp: k' bindM_eq_Throw split: if_splits intro!: exI Suc.IH [OF _ k'(2)])
qed simp

lemma Run_pass_mono:
  assumes "Run_pass k E s = Ret True s'" "k \<le> k'"
  shows "Run_pass k' E s = Ret True s'"
proof -
  have "Run_slice k E s \<noteq> Ret False s1" for s1
  proof
    assume "Run_slice k E s = Ret False s1"
    then have "Run_pass k E s = Ret False s1" unfolding Run_pass_def by (simp add: catch_sh4_def bindM_def)
    then show False using assms(1) by simp
  qed
  then have "Run_slice k' E s = Run_slice k E s"
    by (cases "Run_slice k E s") (metis (full_types) Run_slice_mono Run_slice_mono_throw assms(2))+
  then have "Run_pass k' E s = Run_pass k E s"
    unfolding Run_pass_def catch_sh4_def bindM_def by (simp only:)
  then show ?thesis using assms(1) by simp
qed

text \<open>More fuel does not change the result of a run that stops.\<close>

lemma Run_mono:
  assumes "Run m k E s = Ret True s'" "m \<le> m'" "k \<le> k'"
  shows "Run m' k' E s = Ret True s'"
proof -
  have loop: "Run_loop m k E s = Ret True s' \<Longrightarrow> m \<le> m' \<Longrightarrow> Run_loop m' k' E s = Ret True s'" for m m' s s'
  proof (induction m arbitrary: m' s)
    case (Suc m)
    then obtain j where m': "m' = Suc j" "m \<le> j" by (cases m') auto
    from Suc.prems(1) obtain s1 where p: "Run_pass k E s = Ret True s1"
      and r: "(if ctx_CpuRunning (m_ctx s1) then Run_loop m k E s1 else Ret True s1) = Ret True s'"
      by (auto simp: bindM_eq_Ret split: if_splits)
    then show ?case
      using Run_pass_mono [OF p assms(3)] Suc.IH [OF _ m'(2), of s1]
      by (auto simp: m' split: if_splits)
  qed simp
  from assms(1) obtain s1 where "Run_loop m k E s = Ret True s1"
    and "Ret () (on_ctx (ctx_CpuRunning_update (\<lambda>_. False)) s1) = Ret () s'"
    by (auto simp: Run_def bindM_eq_Ret split: if_splits)
  then show ?thesis using loop [OF _ assms(2)] by (simp add: Run_def)
qed

end
