(* ===== verification/Sh4_Invariants.thy ===== *)
theory Sh4_Invariants
  imports Sh4_Interpreter
begin

text \<open>
  Invariants of the CPU over all instructions. An instruction other than a branch, a write of
  the status register or an exception changes only what \<open>plain\<close> allows; \<open>cpu_invariant\<close> is
  the interface under which every entry of the opcode list is shown to keep an assertion, once
  for all assertions. Its instances are the well-formedness of the CPU, with which the
  interpreter never misses an interrupt, and the cycle counter, with which a time slice ends.
\<close>

section \<open>Assertions and computations\<close>

text \<open>\<open>keeps I J m\<close>: from \<open>I\<close> the computation returns, or throws an SH4 exception, in \<open>J\<close>.\<close>

definition keeps :: "('d machine \<Rightarrow> bool) \<Rightarrow> ('d machine \<Rightarrow> bool) \<Rightarrow> ('d, 'a) SM \<Rightarrow> bool" where
  "keeps I J m \<longleftrightarrow> (\<forall>s. I s \<longrightarrow> (case m s of Ret a s' \<Rightarrow> J s' | Throw e s' \<Rightarrow> sh4_throw e \<longrightarrow> J s'))"

lemma keepsI:
  "(\<And>s a s'. I s \<Longrightarrow> m s = Ret a s' \<Longrightarrow> J s') \<Longrightarrow>
   (\<And>s e s'. I s \<Longrightarrow> m s = Throw e s' \<Longrightarrow> sh4_throw e \<Longrightarrow> J s') \<Longrightarrow> keeps I J m"
  by (auto simp: keeps_def split: outcome.split)

lemma keepsD:
  assumes "keeps I J m" "I s"
  shows "m s = Ret a s' \<Longrightarrow> J s'" "m s = Throw e s' \<Longrightarrow> sh4_throw e \<Longrightarrow> J s'"
  using assms by (auto simp: keeps_def dest!: spec [of _ s])

lemma keeps_bind:
  assumes "keeps I K m" "\<And>a. keeps K J (f a)" "\<And>s. K s \<Longrightarrow> J s"
  shows "keeps I J (bindM m f)"
  by (rule keepsI)
    (auto simp: bindM_eq_Ret bindM_eq_Throw dest: keepsD [OF assms(1)] keepsD [OF assms(2)] intro: assms(3))

lemma keeps_returnM [simp]: "keeps I J (returnM a) \<longleftrightarrow> (\<forall>s. I s \<longrightarrow> J s)"
  by (simp add: keeps_def)

lemma keeps_Ret [simp]: "keeps I J (Ret a) \<longleftrightarrow> (\<forall>s. I s \<longrightarrow> J s)"
  by (simp add: keeps_def)

lemma keeps_getM: "(\<And>s. I s \<Longrightarrow> J s) \<Longrightarrow> keeps I J (getM f)"
  by (simp add: keeps_def)

lemma keeps_modifyM: "(\<And>s. I s \<Longrightarrow> J (f s)) \<Longrightarrow> keeps I J (modifyM f)"
  by (simp add: keeps_def)

lemma keeps_upd: "(\<And>s. I s \<Longrightarrow> J (on_ctx f s)) \<Longrightarrow> keeps I J (upd f)"
  by (simp add: keeps_def)

lemma keeps_throwM: "(\<And>s. I s \<Longrightarrow> J s) \<Longrightarrow> keeps I J (throwM e)"
  by (simp add: keeps_def)

lemma keeps_with_ctx: "(\<And>c. keeps I J (f c)) \<Longrightarrow> keeps I J (with_ctx f)"
  by (rule keepsI) (auto dest: keepsD)

lemma keeps_if: "keeps I J m \<Longrightarrow> keeps I J n \<Longrightarrow> keeps I J (if b then m else n)"
  by simp

lemma keeps_pick: "(\<And>s. I s \<Longrightarrow> \<exists>m. keeps I J m \<and> f s = m s) \<Longrightarrow> keeps I J f"
  by (rule keepsI) (metis keepsD)+

lemma keeps_weaken: "keeps I K m \<Longrightarrow> (\<And>s. K s \<Longrightarrow> J s) \<Longrightarrow> keeps I J m"
  by (rule keepsI) (auto dest: keepsD)

section \<open>Plain instructions\<close>

text \<open>
  The system part of a context: the mode, bank, block, FPU disable and mask bits of the status
  register, and the words shared with the interrupt controller, the scheduler and the run
  loop.
\<close>

definition SYS_MASK :: u32 where
  "SYS_MASK = push_bit 28 (mask 3) OR push_bit 15 1 OR push_bit 4 (mask 4)"

definition sys_rest :: "Sh4Context \<Rightarrow> u32 \<times> u32 \<times> u32 \<times> u32 \<times> bool \<times> SQWriteFunc" where
  "sys_rest c = (ctx_old_sr c, ctx_interrupt_pend c, ctx_cycle_counter c, ctx_sh4_sched_next c,
     ctx_CpuRunning c, ctx_doSqWrite c)"

definition sys_bits :: "Sh4Context \<Rightarrow> u32" where
  "sys_bits c = ctx_status c AND SYS_MASK"

definition plain :: "(Sh4Context \<Rightarrow> Sh4Context) \<Rightarrow> bool" where
  "plain f \<longleftrightarrow> (\<forall>c. sys_rest (f c) = sys_rest c \<and> sys_bits (f c) = sys_bits c \<and> (ctx_wf c \<longrightarrow> ctx_wf (f c)))"

definition sr_write :: "(Sh4Context \<Rightarrow> Sh4Context) \<Rightarrow> bool" where
  "sr_write f \<longleftrightarrow> (\<forall>c. sys_rest (f c) = sys_rest c \<and> (ctx_wf c \<longrightarrow> ctx_wf (f c)))"

lemma sys_mask_set:
  "set_S v x AND SYS_MASK = x AND SYS_MASK" "set_Q v x AND SYS_MASK = x AND SYS_MASK"
  "set_M v x AND SYS_MASK = x AND SYS_MASK"
proof -
  have s: "set_fld lo 1 v x AND SYS_MASK = x AND SYS_MASK" if "\<not> bit SYS_MASK lo" for lo
    using that by (intro bit_word_eqI) (auto simp: bit_and_iff bit_set_fld less_Suc_eq)
  have "\<not> bit SYS_MASK 1" "\<not> bit SYS_MASK 8" "\<not> bit SYS_MASK 9"
    by (auto simp: SYS_MASK_def bit_simps)
  then show "set_S v x AND SYS_MASK = x AND SYS_MASK" "set_Q v x AND SYS_MASK = x AND SYS_MASK"
    "set_M v x AND SYS_MASK = x AND SYS_MASK"
    unfolding set_st_defs by (auto intro: s [unfolded One_nat_def])
qed

lemma sys_simps [simp]:
  "sys_rest (set_r n v c) = sys_rest c" "sys_bits (set_r n v c) = sys_bits c"
  "sys_rest (set_T v c) = sys_rest c" "sys_bits (set_T v c) = sys_bits c"
  "sys_rest (upd_status f c) = sys_rest c" "sys_rest (ctx_pc_update g c) = sys_rest c"
  "sys_bits (ctx_pc_update g c) = sys_bits c" "sys_rest (ctx_mac_update k c) = sys_rest c"
  "sys_bits (ctx_mac_update k c) = sys_bits c" "sys_rest (set_mac_l v c) = sys_rest c"
  "sys_bits (set_mac_l v c) = sys_bits c" "sys_rest (set_mac_h v c) = sys_rest c"
  "sys_bits (set_mac_h v c) = sys_bits c" "sys_rest (ctx_pr_update g c) = sys_rest c"
  "sys_bits (ctx_pr_update g c) = sys_bits c" "sys_rest (ctx_fpul_update g c) = sys_rest c"
  "sys_bits (ctx_fpul_update g c) = sys_bits c" "sys_rest (ctx_gbr_update g c) = sys_rest c"
  "sys_bits (ctx_gbr_update g c) = sys_bits c" "sys_rest (ctx_vbr_update g c) = sys_rest c"
  "sys_bits (ctx_vbr_update g c) = sys_bits c" "sys_rest (ctx_ssr_update g c) = sys_rest c"
  "sys_bits (ctx_ssr_update g c) = sys_bits c" "sys_rest (ctx_spc_update g c) = sys_rest c"
  "sys_bits (ctx_spc_update g c) = sys_bits c" "sys_rest (ctx_sgr_update g c) = sys_rest c"
  "sys_bits (ctx_sgr_update g c) = sys_bits c" "sys_rest (ctx_dbr_update g c) = sys_rest c"
  "sys_bits (ctx_dbr_update g c) = sys_bits c" "sys_rest (ctx_r_bank_update h c) = sys_rest c"
  "sys_bits (ctx_r_bank_update h c) = sys_bits c"
  by (simp_all add: sys_rest_def sys_bits_def set_r_def set_T_def upd_status_def set_mac_l_def
      set_mac_h_def ctx_status_def)

lemma sys_bits_upd_status:
  "(\<And>x. f x AND SYS_MASK = x AND SYS_MASK) \<Longrightarrow> sys_bits (upd_status f c) = sys_bits c"
  by (simp add: sys_bits_def)

lemma plainI:
  "(\<And>c. sys_rest (f c) = sys_rest c) \<Longrightarrow> (\<And>c. sys_bits (f c) = sys_bits c) \<Longrightarrow>
   (\<And>c. ctx_wf c \<Longrightarrow> ctx_wf (f c)) \<Longrightarrow> plain f"
  by (simp add: plain_def)

lemma plain_sr_write: "plain f \<Longrightarrow> sr_write f"
  by (simp add: plain_def sr_write_def)

lemma transfer_plain:
  "plain (i0000_nnnn_0001_0010 op)" "plain (i0000_nnnn_0010_0010 op)"
    "plain (i0000_nnnn_0011_0010 op)" "plain (i0000_nnnn_0011_1010 op)"
    "plain (i0000_nnnn_0100_0010 op)" "plain (i0000_nnnn_1mmm_0010 op)"
    "plain (i0000_nnnn_0101_1010 op)" "plain (i0000_nnnn_1111_1010 op)"
    "plain (i0000_nnnn_0000_1010 op)" "plain (i0000_nnnn_0001_1010 op)"
    "plain (i0000_nnnn_0010_1010 op)" "plain (i0100_nnnn_0000_1010 op)"
    "plain (i0100_nnnn_0001_1010 op)" "plain (i0100_nnnn_0010_1010 op)"
    "plain (i0100_nnnn_0101_1010 op)" "plain (i0100_nnnn_1111_1010 op)"
    "plain (i0100_nnnn_0001_1110 op)" "plain (i0100_nnnn_0010_1110 op)"
    "plain (i0100_nnnn_0011_1110 op)" "plain (i0100_nnnn_0011_1010 op)"
    "plain (i0100_nnnn_0100_1110 op)" "plain (i0100_nnnn_1mmm_1110 op)"
    "plain (i0110_nnnn_mmmm_0011 op)" "plain (i1100_0111_iiii_iiii op)"
    "plain (i1110_nnnn_iiii_iiii op)" "plain (i0000_0000_0010_1000 op)"
  by (simp_all add: plain_def transfer_ops_pure)

lemma arith_plain:
  "plain (i0011_nnnn_mmmm_1000 op)" "plain (i0011_nnnn_mmmm_1100 op)"
    "plain (i0111_nnnn_iiii_iiii op)" "plain (i0010_nnnn_mmmm_1001 op)"
    "plain (i0010_nnnn_mmmm_1010 op)" "plain (i0010_nnnn_mmmm_1011 op)"
    "plain (i0100_nnnn_0000_1000 op)" "plain (i0100_nnnn_0001_1000 op)"
    "plain (i0100_nnnn_0010_1000 op)" "plain (i0100_nnnn_0000_1001 op)"
    "plain (i0100_nnnn_0001_1001 op)" "plain (i0100_nnnn_0010_1001 op)"
    "plain (i1100_1001_iiii_iiii op)" "plain (i1100_1010_iiii_iiii op)"
    "plain (i1100_1011_iiii_iiii op)" "plain (i0000_0000_0000_1001 op)"
    "plain (i0000_0000_0101_1000 op)" "plain (i0000_0000_0100_1000 op)"
    "plain (i0000_0000_0001_1000 op)" "plain (i0000_0000_0000_1000 op)"
    "plain (i0000_nnnn_0010_1001 op)" "plain (i0100_nnnn_0001_0001 op)"
    "plain (i0100_nnnn_0001_0101 op)" "plain (i1000_1000_iiii_iiii op)"
    "plain (i0011_nnnn_mmmm_0000 op)" "plain (i0011_nnnn_mmmm_0010 op)"
    "plain (i0011_nnnn_mmmm_0011 op)" "plain (i0011_nnnn_mmmm_0110 op)"
    "plain (i0011_nnnn_mmmm_0111 op)" "plain (i0010_nnnn_mmmm_1100 op)"
    "plain (i1100_1000_iiii_iiii op)" "plain (i0010_nnnn_mmmm_1000 op)"
    "plain (i0010_nnnn_mmmm_1110 op)" "plain (i0010_nnnn_mmmm_1111 op)"
    "plain (i0011_nnnn_mmmm_0101 op)" "plain (i0011_nnnn_mmmm_1101 op)"
    "plain (i0000_nnnn_mmmm_0111 op)" "plain (i0011_nnnn_mmmm_1111 op)"
    "plain (i0011_nnnn_mmmm_1011 op)" "plain (i0100_nnnn_0001_0000 op)"
    "plain (i0110_nnnn_mmmm_1011 op)" "plain (i0110_nnnn_mmmm_0111 op)"
    "plain (i0100_nnnn_0000_0000 op)" "plain (i0100_nnnn_0010_0000 op)"
    "plain (i0100_nnnn_0000_0001 op)" "plain (i0100_nnnn_0010_0001 op)"
    "plain (i0100_nnnn_mmmm_1100 op)" "plain (i0100_nnnn_mmmm_1101 op)"
    "plain (i0100_nnnn_0000_0100 op)" "plain (i0100_nnnn_0000_0101 op)"
    "plain (i0110_nnnn_mmmm_1000 op)" "plain (i0110_nnnn_mmmm_1001 op)"
    "plain (i0110_nnnn_mmmm_1100 op)" "plain (i0110_nnnn_mmmm_1101 op)"
    "plain (i0110_nnnn_mmmm_1110 op)" "plain (i0110_nnnn_mmmm_1111 op)"
    "plain (i0010_nnnn_mmmm_1101 op)"
  by (auto simp: plain_def arith_ops_pure Let_def drop_31 and_1 sys_mask_set
      intro!: wf_rules sys_bits_upd_status)

lemma flag_plain:
  "plain (i0010_nnnn_mmmm_0111 op)" "plain (i0011_nnnn_mmmm_0100 op)"
    "plain (i0000_0000_0001_1001 op)" "plain (i0011_nnnn_mmmm_1110 op)"
    "plain (i0011_nnnn_mmmm_1010 op)" "plain (i0110_nnnn_mmmm_1010 op)"
    "plain (i0100_nnnn_0010_0100 op)" "plain (i0100_nnnn_0010_0101 op)"
  by (rule plainI, simp add: arith_ops_pure Let_def, simp add: arith_ops_pure Let_def sys_bits_upd_status sys_mask_set,
      erule flag_ops_wf)+

lemma system_plain:
  "plain (i0000_nnnn_1001_0011 op)" "plain (i0000_nnnn_1010_0011 op)" "plain (i0000_nnnn_1011_0011 op)"
  "plain (i0000_nnnn_0000_0010 op)" "plain (i0000_nnnn_0110_1010 op)" "plain (i0100_nnnn_0110_1010 op)"
  "plain (i1000_1011_iiii_iiii op)" "plain (i1000_1001_iiii_iiii op)"
  by (auto simp: plain_def i0000_nnnn_1001_0011_def i0000_nnnn_1010_0011_def i0000_nnnn_1011_0011_def
      i0000_nnnn_0000_0010_def i0000_nnnn_0110_1010_def i0100_nnnn_0110_1010_def
      i1000_1011_iiii_iiii_def i1000_1001_iiii_iiii_def UpdateFPSCR_def Let_def
      sys_rest_def sys_bits_def ctx_status_def set_r_def ctx_wf_def)

lemmas plain_ops = transfer_plain arith_plain flag_plain system_plain

section \<open>Assertions that instructions keep\<close>

text \<open>The device handlers, the translation and the other parameters keep an assertion.\<close>

definition env_keeps :: "('d machine \<Rightarrow> bool) \<Rightarrow> 'd env \<Rightarrow> bool" where
  "env_keeps I E \<longleftrightarrow>
     (\<forall>h a. keeps I I (e_RF8 E h a) \<and> keeps I I (e_RF16 E h a) \<and> keeps I I (e_RF32 E h a)) \<and>
     (\<forall>h a d. keeps I I (e_WF8 E h a d)) \<and> (\<forall>h a d. keeps I I (e_WF16 E h a d)) \<and>
     (\<forall>h a d. keeps I I (e_WF32 E h a d)) \<and>
     (\<forall>w a. keeps I I (e_data_translation E w a)) \<and> (\<forall>a. keeps I I (e_instruction_translation E a)) \<and>
     (\<forall>n s. I s \<longrightarrow> I (snd (e_UTLB_Sync E n s))) \<and>
     (\<forall>n t r j a s. I s \<longrightarrow> I (snd (e_sched_cb E n t r j a s))) \<and>
     (\<forall>f a. keeps I I (e_doSqWrite E f a)) \<and> (\<forall>w. keeps I I (e_fpu E w)) \<and>
     (\<forall>w. keeps I I (e_reios_trap E w))"

lemma env_keepsD:
  assumes "env_keeps I E"
  shows "keeps I I (e_RF8 E h a)" "keeps I I (e_RF16 E h a)" "keeps I I (e_RF32 E h a)"
    "keeps I I (e_WF8 E h a d8)" "keeps I I (e_WF16 E h a d16)" "keeps I I (e_WF32 E h a d32)"
    "keeps I I (e_data_translation E w a)" "keeps I I (e_instruction_translation E a)"
    "I s \<Longrightarrow> I (snd (e_UTLB_Sync E n s))" "I s \<Longrightarrow> I (snd (e_sched_cb E k tg r j g s))"
    "keeps I I (e_doSqWrite E f a)" "keeps I I (e_fpu E x)" "keeps I I (e_reios_trap E x)"
  using assms by (simp_all add: env_keeps_def)

lemma described_any:
  "described op \<longleftrightarrow> (\<exists>e \<in> set (opcodes :: 'd sh4_opcodelistentry list). op_matches op e)"
proof -
  have "list_ex (\<lambda>k. ucast op AND fst (snd k) = snd (snd k)) (map op_key es) \<longleftrightarrow> (\<exists>e \<in> set es. op_matches op e)"
    for es :: "'d sh4_opcodelistentry list"
    by (induction es) (simp_all add: op_matches_def op_key_def)
  then show ?thesis by (simp only: described_keys op_keys [where 'a = 'd, symmetric])
qed

text \<open>An assertion on the CPU that the devices keep is kept by every access to memory.\<close>

locale env_invariant =
  fixes E :: "'d env" and I :: "'d machine \<Rightarrow> bool"
  assumes frame: "m_ctx s' = m_ctx s \<Longrightarrow> m_intc s' = m_intc s \<Longrightarrow> m_cycles s' = m_cycles s \<Longrightarrow> I s \<Longrightarrow> I s'"
    and env: "env_keeps I E"
begin

lemma block: "I s \<Longrightarrow> I (upd_block b f s)"
  by (erule frame [rotated -1]) (simp_all add: upd_block_def)

lemma addrspace:
  "keeps I I (readt8 E a)" "keeps I I (readt16 E a)" "keeps I I (readt32 E a)"
  "keeps I I (writet8 E a d8)" "keeps I I (writet16 E a d16)" "keeps I I (writet32 E a d32)"
  by (rule keepsI; auto simp: readt8_def readt16_def readt32_def writet8_def writet16_def writet32_def
      split: meminfo.splits dest: keepsD [OF env_keepsD(1) [OF env]] keepsD [OF env_keepsD(2) [OF env]]
        keepsD [OF env_keepsD(3) [OF env]] keepsD [OF env_keepsD(4) [OF env]]
        keepsD [OF env_keepsD(5) [OF env]] keepsD [OF env_keepsD(6) [OF env]] intro: block)+

lemma raise: "keeps I I (mmu_raise_exception err adr am)"
  by (rule keepsI) (auto simp: mmu_raise_exception_def mmuException_regs_def Let_def
      split: sum.splits elim!: frame [rotated -1])

lemma data_address: "keeps I I (mmu_data_address E w al adr)"
proof -
  have "keeps I I (bindM (e_data_translation E w adr) (\<lambda>(rv, addr).
      if rv \<noteq> NONE then mmu_raise_exception rv adr am else returnM addr))" for am
    by (rule keeps_bind [OF env_keepsD(7) [OF env]]) (auto intro: raise split: prod.split)
  then show ?thesis by (simp add: mmu_data_address_def Let_def raise)
qed

lemma access:
  "keeps I I (ReadMem8 E a)" "keeps I I (ReadMem16 E a)" "keeps I I (ReadMem32 E a)"
  "keeps I I (WriteMem8 E a d8)" "keeps I I (WriteMem16 E a d16)" "keeps I I (WriteMem32 E a d32)"
  "keeps I I (IReadMem16 E a)"
proof -
  have sel: "keeps I I (\<lambda>s. if mmuOn (m_mmu s) then f s else g s)" if "keeps I I f" "keeps I I g" for f g
    using that by (intro keepsI) (auto dest: keepsD split: if_splits)
  have tr: "keeps I I (bindM (mmu_data_address E w al a) f)" if "\<And>x. keeps I I (f x)" for w al f
    using that by (intro keeps_bind [OF data_address])
  have "keeps I I (bindM (e_instruction_translation E a) (\<lambda>(rv, addr). if rv \<noteq> NONE
      then mmu_raise_exception rv a am else readt16 E addr))" for am
    by (rule keeps_bind [OF env_keepsD(8) [OF env]]) (auto intro: raise addrspace split: prod.split)
  then have it: "keeps I I (mmu_IReadMem16 E a)" by (simp add: mmu_IReadMem16_def raise)
  show "keeps I I (ReadMem8 E a)" "keeps I I (ReadMem16 E a)" "keeps I I (ReadMem32 E a)"
    "keeps I I (WriteMem8 E a d8)" "keeps I I (WriteMem16 E a d16)" "keeps I I (WriteMem32 E a d32)"
    "keeps I I (IReadMem16 E a)"
    unfolding ReadMem8_def [abs_def] ReadMem16_def [abs_def] ReadMem32_def [abs_def]
      WriteMem8_def [abs_def] WriteMem16_def [abs_def] WriteMem32_def [abs_def] IReadMem16_def [abs_def]
      mmu_ReadMem8_def mmu_ReadMem16_def mmu_ReadMem32_def mmu_WriteMem8_def
      mmu_WriteMem16_def mmu_WriteMem32_def
    by (rule sel, rule tr it, rule addrspace, rule addrspace)+ (rule sel [OF it], rule addrspace)
qed

end

text \<open>
  The laws of an assertion \<open>I\<close> before and \<open>J\<close> after an instruction. \<open>J\<close> may be weaker, as a
  delay slot leads from \<open>I\<close> to \<open>J\<close>.
\<close>

locale cpu_invariant = env_invariant E I for E :: "'d env" and I +
  fixes J :: "'d machine \<Rightarrow> bool"
  assumes weaken: "I s \<Longrightarrow> J s"
    and plain_I: "plain f \<Longrightarrow> I s \<Longrightarrow> I (on_ctx f s)"
    and plain_J: "plain f \<Longrightarrow> J s \<Longrightarrow> J (on_ctx f s)"
    and sr: "sr_write f \<Longrightarrow> I s \<Longrightarrow> I (UpdateSR_INTC (on_ctx f s))"
    and sched_next: "I s \<Longrightarrow> I (on_ctx (ctx_sh4_sched_next_update g) s)"
    and interrupt: "I s \<Longrightarrow> I (snd (UpdateINTC s))"
    and exc: "keeps I I (Do_Exception p ev)"
    and slot: "keeps I J (e_ExecuteDelayslot E)"
    and rte: "keeps I J (i0000_0000_0010_1011 E w)"
begin

lemma weaken_keeps: "keeps I I m \<Longrightarrow> keeps I J m"
  by (erule keeps_weaken) (rule weaken)

lemma bind: "keeps I I m \<Longrightarrow> (\<And>a. keeps I I (f a)) \<Longrightarrow> keeps I I (bindM m f)"
  by (rule keeps_bind)

lemma upd_plain: "plain f \<Longrightarrow> keeps I I (upd f)"
  by (intro keeps_upd plain_I)

lemma slot_upd: "plain f \<Longrightarrow> keeps I J (bindM (e_ExecuteDelayslot E) (\<lambda>_. upd f))"
  by (rule keeps_bind [OF slot]) (auto intro: keeps_upd plain_J)

lemma push: "keeps I I (push32 E n v)"
  unfolding push32_def Let_def by (intro keeps_with_ctx bind access upd_plain) (simp add: plain_def)

lemma pop: "(\<And>v. plain (f v)) \<Longrightarrow> keeps I I (pop32 E n f)"
  unfolding pop32_def by (intro keeps_with_ctx bind access upd_plain) (simp add: plain_def Let_def)

lemmas op_intros = keeps_with_ctx bind access keeps_if upd_plain push pop keeps_throwM

lemma mem_ops:
  "keeps I I (i0000_nnnn_mmmm_1100 E op)" "keeps I I (i0000_nnnn_mmmm_1101 E op)"
    "keeps I I (i0000_nnnn_mmmm_1110 E op)" "keeps I I (i0000_nnnn_mmmm_0100 E op)"
    "keeps I I (i0000_nnnn_mmmm_0101 E op)" "keeps I I (i0000_nnnn_mmmm_0110 E op)"
    "keeps I I (i0001_nnnn_mmmm_iiii E op)" "keeps I I (i0010_nnnn_mmmm_0000 E op)"
    "keeps I I (i0010_nnnn_mmmm_0001 E op)" "keeps I I (i0010_nnnn_mmmm_0010 E op)"
    "keeps I I (i0010_nnnn_mmmm_0100 E op)" "keeps I I (i0010_nnnn_mmmm_0101 E op)"
    "keeps I I (i0010_nnnn_mmmm_0110 E op)" "keeps I I (i0100_nnnn_0101_0010 E op)"
    "keeps I I (i0100_nnnn_0000_0010 E op)" "keeps I I (i0100_nnnn_0001_0010 E op)"
    "keeps I I (i0100_nnnn_0010_0010 E op)" "keeps I I (i0100_nnnn_1111_0010 E op)"
    "keeps I I (i0100_nnnn_0001_0011 E op)" "keeps I I (i0100_nnnn_0010_0011 E op)"
    "keeps I I (i0100_nnnn_0011_0011 E op)" "keeps I I (i0100_nnnn_0011_0010 E op)"
    "keeps I I (i0100_nnnn_0100_0011 E op)" "keeps I I (i0100_nnnn_1mmm_0011 E op)"
    "keeps I I (i0100_nnnn_0000_0110 E op)" "keeps I I (i0100_nnnn_0001_0110 E op)"
    "keeps I I (i0100_nnnn_0010_0110 E op)" "keeps I I (i0100_nnnn_0101_0110 E op)"
    "keeps I I (i0100_nnnn_1111_0110 E op)" "keeps I I (i0100_nnnn_0001_0111 E op)"
    "keeps I I (i0100_nnnn_0010_0111 E op)" "keeps I I (i0100_nnnn_0011_0111 E op)"
    "keeps I I (i0100_nnnn_0011_0110 E op)" "keeps I I (i0100_nnnn_0100_0111 E op)"
    "keeps I I (i0100_nnnn_1mmm_0111 E op)" "keeps I I (i0101_nnnn_mmmm_iiii E op)"
    "keeps I I (i0110_nnnn_mmmm_0000 E op)" "keeps I I (i0110_nnnn_mmmm_0001 E op)"
    "keeps I I (i0110_nnnn_mmmm_0010 E op)" "keeps I I (i0110_nnnn_mmmm_0100 E op)"
    "keeps I I (i0110_nnnn_mmmm_0101 E op)" "keeps I I (i0110_nnnn_mmmm_0110 E op)"
    "keeps I I (i1000_0000_mmmm_iiii E op)" "keeps I I (i1000_0001_mmmm_iiii E op)"
    "keeps I I (i1000_0100_mmmm_iiii E op)" "keeps I I (i1000_0101_mmmm_iiii E op)"
    "keeps I I (i1001_nnnn_iiii_iiii E op)" "keeps I I (i1100_0000_iiii_iiii E op)"
    "keeps I I (i1100_0001_iiii_iiii E op)" "keeps I I (i1100_0010_iiii_iiii E op)"
    "keeps I I (i1100_0100_iiii_iiii E op)" "keeps I I (i1100_0101_iiii_iiii E op)"
    "keeps I I (i1100_0110_iiii_iiii E op)" "keeps I I (i1101_nnnn_iiii_iiii E op)"
    "keeps I I (i0000_nnnn_1100_0011 E op)" "keeps I I (i0100_nnnn_mmmm_1111 E op)"
    "keeps I I (i0000_nnnn_mmmm_1111 E op)" "keeps I I (i1100_1100_iiii_iiii E op)"
    "keeps I I (i1100_1101_iiii_iiii E op)" "keeps I I (i1100_1110_iiii_iiii E op)"
    "keeps I I (i1100_1111_iiii_iiii E op)" "keeps I I (i0100_nnnn_0001_1011 E op)"
  unfolding transfer_ops_mem arith_ops_mem Let_def
  by (intro op_intros; auto simp: plain_def Let_def intro!: ctx_wf_set_T)+

lemma sr_update: "sr_write f \<Longrightarrow> keeps I I (bindM (upd f) (\<lambda>_. modifyM UpdateSR_INTC))"
  by (rule keepsI) (auto simp: bindM_eq_Ret bindM_eq_Throw intro: sr)

lemma system_ops:
  "keeps I I (i0100_nnnn_0110_0010 E op)" "keeps I I (i0100_nnnn_0000_0011 E op)"
  "keeps I I (i0100_nnnn_0110_0110 E op)" "keeps I I (i0100_nnnn_0000_0111 E op)"
  "keeps I I (i0100_nnnn_0000_1110 E op)" "keeps I I (iNotImplemented E op)"
  "keeps I I (fpu_op E op)" "keeps I I (reios_trap E op)" "keeps I I (i0000_nnnn_1000_0011 E op)"
  unfolding i0100_nnnn_0110_0010_def i0100_nnnn_0000_0011_def i0100_nnnn_0110_0110_def
    i0100_nnnn_0000_0111_def i0100_nnnn_0000_1110_def iNotImplemented_def fpu_op_def reios_trap_def
    i0000_nnnn_1000_0011_def Let_def
  by (intro op_intros sr_update env_keepsD [OF env];
      auto simp: plain_def sr_write_def Let_def UpdateFPSCR_def sys_rest_def sys_bits_def ctx_wf_def
        set_r_def ctx_status_def)+

lemma sched_step:
  "I s \<Longrightarrow> I (upd_sched i f s)" "I s \<Longrightarrow> I (sh4_sched_ffts s)" "I s \<Longrightarrow> I (snd (sh4_sched_elapsed i s))"
proof -
  show u: "I s \<Longrightarrow> I (upd_sched i f s)" for s f by (erule frame [rotated -1]) (simp_all add: upd_sched_def)
  have "I s \<Longrightarrow> I (m_sched_update h s)" for s h by (erule frame [rotated -1]) simp_all
  then show "I s \<Longrightarrow> I (sh4_sched_ffts s)"
    by (auto simp: sh4_sched_ffts_def Let_def split: prod.split intro!: sched_next)
  show "I s \<Longrightarrow> I (snd (sh4_sched_elapsed i s))" by (simp add: sh4_sched_elapsed_def Let_def u)
qed

lemma sched_request: "keeps I I (sh4_sched_request i c)"
  by (rule keepsI) (auto simp: sh4_sched_request_def split: if_splits intro: sched_step)

lemma handle: "keeps I I (handle_cb E i)"
proof (rule keepsI)
  fix s a s' assume I: "I s" and h: "handle_cb E i s = Ret a s'"
  let ?e = "sch_list (m_sched s) ! i"
  let ?rem = "sched_end ?e - sched_start ?e"
  obtain el s1 where e: "sh4_sched_elapsed i s = (el, s1)" by fastforce
  let ?s2 = "upd_sched i (sched_end_update (\<lambda>_. sched_none)) s1"
  obtain re s3 where c: "e_sched_cb E (the (sched_cb ?e)) (sched_tag ?e) ?rem (el - ?rem) (sched_arg ?e) ?s2 = (re, s3)"
    by fastforce
  have "I ?s2" using sched_step(3) [OF I, of i] by (simp add: e sched_step)
  then have "I s3" using env_keepsD(10) [OF env] c by (metis snd_conv)
  then show "I s'"
    using h by (auto simp: handle_cb_def e c Let_def split: if_splits dest: keepsD(1) [OF sched_request])
next
  show "handle_cb E i s = Throw e s' \<Longrightarrow> sh4_throw e \<Longrightarrow> I s'" for s e s'
    by (auto simp: handle_cb_def sh4_sched_request_def Let_def split: prod.splits if_splits)
qed

lemma tick_loop: "keeps I I (tick_loop E f c is)"
proof (induction "is")
  case (Cons i "is")
  then have b: "keeps I I (bindM (handle_cb E i) (\<lambda>_. tick_loop E f c is))" by (intro bind handle)
  show ?case
    by (rule keepsI) (auto simp: Let_def split: if_splits dest: keepsD [OF b] keepsD [OF Cons.IH])
qed (simp add: keeps_def)

lemma update_system: "keeps I I (UpdateSystem_INTC E)"
proof -
  have "keeps I I (bindM (if b then tick_loop E f c is else returnM ()) (\<lambda>_. modifyM sh4_sched_ffts))" for b f c "is"
    by (intro bind keeps_if tick_loop keeps_modifyM sched_step) simp_all
  note k = this
  have t: "keeps I I (sh4_sched_tick E c)" for c
  proof (rule keeps_pick)
    fix s assume "I s"
    let ?m = "bindM (if sh4_sched_next_id (m_sched s) \<noteq> -1
        then tick_loop E (sh4_sched_now s - c) c [0..<length (sch_list (m_sched s))] else returnM ())
        (\<lambda>_. modifyM sh4_sched_ffts)"
    have "sh4_sched_tick E c s = (if 0 \<le> sint (ctx_sh4_sched_next (m_ctx s)) then returnM () else ?m) s"
      by (simp only: sh4_sched_tick_def Let_def returnM_def if_distribR)
    moreover have "keeps I I (if b then returnM () else ?m)" for b by (intro keeps_if k) simp
    ultimately show "\<exists>m. keeps I I m \<and> sh4_sched_tick E c s = m s" by blast
  qed
  show ?thesis
  proof (rule keeps_pick)
    fix s assume "I s"
    let ?b = "sint (ctx_sh4_sched_next (m_ctx (on_ctx (ctx_sh4_sched_next_update (\<lambda>n. n - SH4_TIMESLICE)) s))) < 0"
    let ?m = "bindM (modifyM (on_ctx (ctx_sh4_sched_next_update (\<lambda>n. n - SH4_TIMESLICE)))) (\<lambda>_.
        bindM (if ?b then sh4_sched_tick E SH4_TIMESLICE else returnM ())
        (\<lambda>_ s2. if ctx_interrupt_pend (m_ctx s2) \<noteq> 0 then liftM UpdateINTC s2 else Ret 0 s2))"
    have "UpdateSystem_INTC E s = ?m s"
      by (simp only: UpdateSystem_INTC_def Let_def bindM_def modifyM_apply outcome.case)
    moreover have "keeps I I ?m"
      by (intro bind keeps_modifyM keeps_if t sched_next) (auto simp: keeps_def interrupt)
    ultimately show "\<exists>m. keeps I I m \<and> UpdateSystem_INTC E s = m s" by blast
  qed
qed

lemma sleep: "keeps I I (sleep_wait E n)"
  by (induction n) (auto intro!: bind update_system keeps_if)

lemma control_ops:
  "keeps I J (i0000_nnnn_0010_0011 E op)" "keeps I J (i0000_nnnn_0000_0011 E op)"
  "keeps I J (i0000_0000_0000_1011 E op)" "keeps I J (i1000_1111_iiii_iiii E op)"
  "keeps I J (i1000_1101_iiii_iiii E op)" "keeps I J (i1010_iiii_iiii_iiii E op)"
  "keeps I J (i1011_iiii_iiii_iiii E op)" "keeps I J (i0100_nnnn_0010_1011 E op)"
  "keeps I J (i0100_nnnn_0000_1011 E op)"
  unfolding i0000_nnnn_0010_0011_def i0000_nnnn_0000_0011_def i0000_0000_0000_1011_def
    i1000_1111_iiii_iiii_def i1000_1101_iiii_iiii_def i1010_iiii_iiii_iiii_def
    i1011_iiii_iiii_iiii_def i0100_nnnn_0010_1011_def i0100_nnnn_0000_1011_def Let_def
  by (intro keeps_with_ctx keeps_if slot_upd; simp add: plain_def weaken)+

lemma machine_ops:
  "keeps I I (i1100_0011_iiii_iiii E op)" "keeps I I (i0000_0000_0001_1011 E op)"
  "keeps I I (i0000_0000_0011_1000 E op)"
proof -
  have m: "keeps I I (modifyM (m_ccn_update f))" "keeps I I (modifyM (\<lambda>s. m_mmu_update (g s) s))"
    "keeps I I (modifyM (\<lambda>s. snd (e_UTLB_Sync E n s)))" for f g n
    by (rule keeps_modifyM, (erule frame [rotated -1], simp_all)?; rule env_keepsD(9) [OF env])+
  show "keeps I I (i1100_0011_iiii_iiii E op)" "keeps I I (i0000_0000_0001_1011 E op)"
    "keeps I I (i0000_0000_0011_1000 E op)"
    unfolding i1100_0011_iiii_iiii_def i0000_0000_0001_1011_def i0000_0000_0011_1000_def
    by (intro bind m keeps_with_ctx exc sleep keeps_if keeps_getM upd_plain; simp add: plain_def)+
qed

lemma opcodes_keep: "list_all (\<lambda>e. keeps I J (oph e E op)) opcodes"
proof -
  have p: "plain (f op) \<Longrightarrow> keeps I I (pure_op f E op)" for f op
    unfolding pure_op_def by (rule upd_plain)
  show ?thesis
    by (simp only: opcodes_defs append.simps list.pred_inject mk_sel HOL.simp_thms
        control_ops rte mem_ops [THEN weaken_keeps] system_ops [THEN weaken_keeps]
        machine_ops [THEN weaken_keeps] plain_ops [THEN p, THEN weaken_keeps])
qed

lemma OpPtr_keeps: "keeps I J (OpPtr op E w)"
proof (cases "OpDesc op = (missing_opcode :: 'd sh4_opcodelistentry)")
  case True
  then show ?thesis
    unfolding OpTables_eq(2) by (simp add: missing_opcode_def system_ops weaken_keeps)
next
  case False
  then have "OpDesc op \<in> set (opcodes :: 'd sh4_opcodelistentry list)"
    using OpDesc_cases [of op, where 'd = 'd] by auto
  then show ?thesis
    unfolding OpTables_eq(2) using opcodes_keep [of w] by (simp add: list_all_iff)
qed

lemma fetch: "keeps I I (ReadNexOp E)"
proof (rule keeps_pick)
  fix s assume "I s"
  let ?m = "if \<not> mmuOn (m_mmu s) \<and> ctx_pc (m_ctx s) AND 1 \<noteq> 0
      then throwM (SH4ThrownException (ctx_pc (m_ctx s)) Sh4Ex_AddressErrorRead)
      else bindM (upd (ctx_pc_update (\<lambda>_. ctx_pc (m_ctx s) + 2))) (\<lambda>_. IReadMem16 E (ctx_pc (m_ctx s)))"
  have "keeps I I ?m" by (intro keeps_if keeps_throwM bind upd_plain access) (simp_all add: plain_def)
  moreover have "ReadNexOp E s = ?m s" by (simp add: ReadNexOp_def Let_def bindM_def)
  ultimately show "\<exists>m. keeps I I m \<and> ReadNexOp E s = m s" by blast
qed

lemma execute_Ret:
  assumes "I s" "ExecuteOpcode E op s = Ret a s'"
  obtains s1 where "J s1" "described op" "s' = executeCycles CPU_RATIO op s1"
proof -
  from assms(2) obtain s1 where s1: "OpPtr op E (ucast op) s = Ret () s1" "s' = executeCycles CPU_RATIO op s1"
    by (auto simp: ExecuteOpcode_def bindM_eq_Ret split: if_splits)
  have "described op"
  proof (rule ccontr)
    assume "\<not> described op"
    then have "\<not> (\<exists>e \<in> set (opcodes :: 'd sh4_opcodelistentry list). op_matches op e)"
      using described_any [of op, where 'd = 'd] by simp
    then have "(OpDesc op :: 'd sh4_opcodelistentry) = missing_opcode"
      using OpDesc_cases [of op, where 'd = 'd] by auto
    then have "OpPtr op E u = iNotImplemented E u" for u
      unfolding OpTables_eq(2) by (simp add: missing_opcode_def)
    then show False using s1(1) by (simp add: iNotImplemented_def)
  qed
  then show thesis using that keepsD(1) [OF OpPtr_keeps assms(1) s1(1)] s1(2) by blast
qed

lemma execute:
  assumes w: "\<And>s. J s \<Longrightarrow> K s" and x: "\<And>op s. J s \<Longrightarrow> described op \<Longrightarrow> K (executeCycles CPU_RATIO op s)"
  shows "keeps I K (ExecuteOpcode E op)"
proof (rule keepsI)
  show "I s \<Longrightarrow> ExecuteOpcode E op s = Ret a s' \<Longrightarrow> K s'" for s a s'
    by (erule (1) execute_Ret) (simp add: x)
  show "I s \<Longrightarrow> ExecuteOpcode E op s = Throw e s' \<Longrightarrow> sh4_throw e \<Longrightarrow> K s'" for s e s'
    by (auto simp: ExecuteOpcode_def bindM_eq_Throw split: if_splits
        dest: keepsD(2) [OF OpPtr_keeps] weaken intro!: w)
qed

lemma instr_Ret:
  assumes "I s" "instruction E s = Ret a s'"
  obtains op s1 where "J s1" "described op" "s' = executeCycles CPU_RATIO op s1"
proof -
  from assms(2) obtain op s0 where "ReadNexOp E s = Ret op s0" "ExecuteOpcode E op s0 = Ret a s'"
    by (auto simp: instruction_def bindM_eq_Ret)
  then show thesis using keepsD(1) [OF fetch assms(1)] that by (blast elim: execute_Ret)
qed

lemma instr:
  assumes "\<And>s. J s \<Longrightarrow> K s" and "\<And>op s. J s \<Longrightarrow> described op \<Longrightarrow> K (executeCycles CPU_RATIO op s)"
  shows "keeps I K (instruction E)"
  unfolding instruction_def
  by (rule keeps_bind [OF fetch execute]) (auto intro: assms weaken)

lemma delayslot:
  assumes "\<And>s. J s \<Longrightarrow> K s" and "\<And>op s. J s \<Longrightarrow> described op \<Longrightarrow> K (executeCycles CPU_RATIO op s)"
  shows "keeps I K (ExecuteDelayslot E)"
proof (rule keepsI)
  note k = keepsD [OF instr [of K]]
  show "I s \<Longrightarrow> ExecuteDelayslot E s = Ret a s' \<Longrightarrow> K s'" for s a s'
    using k [OF assms, of s] by (auto simp: ExecuteDelayslot_def catch_sh4_def split: outcome.splits halt.splits prod.splits)
  show "I s \<Longrightarrow> ExecuteDelayslot E s = Throw e s' \<Longrightarrow> sh4_throw e \<Longrightarrow> K s'" for s e s'
    using k [OF assms, of s]
    by (auto simp: ExecuteDelayslot_def elim!: catch_sh4_Throw split: prod.splits)
qed

end

section \<open>The well-formed CPU\<close>

text \<open>
  \<open>cpu_base\<close>: the interrupt tables and the status register are well formed. \<open>cpu_ok\<close>: further,
  the word of pending interrupts and the decoded mask follow from the tables, the request lines
  and the status register, and the register file holds the bank that the status register
  selects. Between the write of the status register by RTE and the end of its delay slot only
  \<open>cpu_base\<close> holds.
\<close>

definition cpu_base :: "'d machine \<Rightarrow> bool" where
  "cpu_base s \<longleftrightarrow> intc_wf (m_intc s) \<and> ctx_wf (m_ctx s)"

definition cpu_ok :: "'d machine \<Rightarrow> bool" where
  "cpu_ok s \<longleftrightarrow> cpu_base s \<and> intc_inv s \<and> sr_decoded s \<and>
     bank_active (m_ctx s) = arch_bank1 (m_ctx s)"

lemma sys_bits_flags:
  assumes "sys_bits c = sys_bits d"
  shows "st_BL (ctx_status c) = st_BL (ctx_status d)" "st_MD (ctx_status c) = st_MD (ctx_status d)"
    "st_RB (ctx_status c) = st_RB (ctx_status d)" "st_IMASK (ctx_status c) = st_IMASK (ctx_status d)"
proof -
  have b: "bit (ctx_status c) i = bit (ctx_status d) i" if "bit SYS_MASK i" for i
    using arg_cong [OF assms, of "\<lambda>x. bit x i"] that by (simp add: sys_bits_def bit_and_iff)
  have m: "bit SYS_MASK i" if "i \<in> {4, 5, 6, 7, 28, 29, 30}" for i
    using that by (auto simp: SYS_MASK_def bit_simps)
  show "st_BL (ctx_status c) = st_BL (ctx_status d)" "st_MD (ctx_status c) = st_MD (ctx_status d)"
    "st_RB (ctx_status c) = st_RB (ctx_status d)"
    using b m by (simp_all add: flag_bits)
  show "st_IMASK (ctx_status c) = st_IMASK (ctx_status d)"
    unfolding st_IMASK_def
    by (rule bit_word_eqI) (use b m in \<open>auto simp: bit_fld less_Suc_eq numeral_eq_Suc\<close>)
qed

lemma cpu_ok_plain:
  assumes "plain f"
  shows "cpu_base s \<Longrightarrow> cpu_base (on_ctx f s)" "cpu_ok s \<Longrightarrow> cpu_ok (on_ctx f s)"
proof -
  have r: "sys_rest (f c) = sys_rest c" "sys_bits (f c) = sys_bits c" "ctx_wf c \<Longrightarrow> ctx_wf (f c)" for c
    using assms by (simp_all add: plain_def)
  then show "cpu_base s \<Longrightarrow> cpu_base (on_ctx f s)" by (simp add: cpu_base_def)
  have "ctx_old_sr (f c) = ctx_old_sr c" "ctx_interrupt_pend (f c) = ctx_interrupt_pend c" for c
    using r(1) [of c] by (simp_all add: sys_rest_def)
  then show "cpu_ok s \<Longrightarrow> cpu_ok (on_ctx f s)"
    using r(3) sys_bits_flags [OF r(2)]
    by (simp add: cpu_ok_def cpu_base_def intc_inv_def sr_decoded_def bank_active_def arch_bank1_def)
qed

lemma cpu_ok_frame:
  assumes "m_ctx s' = m_ctx s" "m_intc s' = m_intc s"
  shows "cpu_base s \<Longrightarrow> cpu_base s'" "cpu_ok s \<Longrightarrow> cpu_ok s'"
  using assms by (simp_all add: cpu_ok_def cpu_base_def intc_inv_def sr_decoded_def)

lemma cpu_base_sr: "sr_write f \<Longrightarrow> cpu_base s \<Longrightarrow> cpu_base (on_ctx f s)"
  by (simp add: sr_write_def cpu_base_def)

lemma exception_entry_ok: "cpu_base s \<Longrightarrow> cpu_ok (exception_entry p s)"
proof -
  assume s: "cpu_base s"
  then have wf: "intc_wf (m_intc s)" "sr_wf (ctx_sr (m_ctx s))" by (simp_all add: cpu_base_def ctx_wf_def)
  then show ?thesis
    using exception_entry_inv [OF wf(1), of p] exception_entry_sr_wf [OF wf(2), of p]
    by (simp add: cpu_ok_def cpu_base_def ctx_wf_def arch_bank1_def exception_entry_ctx)
qed

lemma cpu_ok_pc: "cpu_ok s \<Longrightarrow> cpu_ok (on_ctx (\<lambda>c. c\<lparr>ctx_pc := g c\<rparr>) s)"
  by (rule cpu_ok_plain(2)) (simp_all add: plain_def)

lemma Do_Interrupt_ok: "cpu_base s \<Longrightarrow> cpu_ok (Do_Interrupt ev s)"
  unfolding Do_Interrupt_def Let_def
  by (intro cpu_ok_pc exception_entry_ok) (simp add: cpu_base_def)

lemma Do_Exception_ok: "cpu_base s \<Longrightarrow> Do_Exception p ev s = Ret a s' \<Longrightarrow> cpu_ok s'"
  by (auto simp: Do_Exception_def Let_def split: if_splits
      intro!: cpu_ok_pc exception_entry_ok) (simp_all add: cpu_base_def)

lemma cpu_ok_base: "cpu_ok s \<Longrightarrow> cpu_base s"
  by (simp add: cpu_ok_def)

lemma UpdateINTC_ok:
  "cpu_base s \<Longrightarrow> cpu_base (snd (UpdateINTC s))" "cpu_ok s \<Longrightarrow> cpu_ok (snd (UpdateINTC s))"
  by (auto simp: UpdateINTC_def dest: cpu_ok_base Do_Interrupt_ok)

lemma UpdateSR_ok: "cpu_base s \<Longrightarrow> cpu_ok (snd (UpdateSR s))"
  using UpdateSR_inv [of s]
  by (simp add: cpu_ok_def cpu_base_def ctx_wf_def UpdateSR_active arch_bank1_def)

lemma UpdateSR_INTC_ok: "cpu_base s \<Longrightarrow> cpu_ok (UpdateSR_INTC s)"
  unfolding UpdateSR_INTC_eq by (intro UpdateINTC_ok UpdateSR_ok)

lemma Do_Exception_keeps: "keeps cpu_base cpu_base (Do_Exception p ev)" "keeps cpu_ok cpu_ok (Do_Exception p ev)"
  by (rule keepsI; auto dest: Do_Exception_ok Do_Exception_throw cpu_ok_base)+

lemma executeCycles_ok: "cpu_base (executeCycles r op s) = cpu_base s" "cpu_ok (executeCycles r op s) = cpu_ok s"
  by (simp_all add: executeCycles_def countCycles_def addCycles_def cpu_ok_def cpu_base_def intc_inv_def
      sr_decoded_def bank_active_def arch_bank1_def ctx_status_def ctx_wf_def split: prod.split)

lemma sched_next_ok:
  "cpu_base s \<Longrightarrow> cpu_base (on_ctx (ctx_sh4_sched_next_update g) s)"
  "cpu_ok s \<Longrightarrow> cpu_ok (on_ctx (ctx_sh4_sched_next_update g) s)"
  by (simp_all add: cpu_ok_def cpu_base_def intc_inv_def sr_decoded_def bank_active_def arch_bank1_def
      ctx_status_def ctx_wf_def)

lemma env_keeps_slot [simp]:
  "env_keeps I (E\<lparr>e_ExecuteDelayslot := x, e_ExecuteDelayslot_RTE := y\<rparr>) = env_keeps I E"
  by (simp add: env_keeps_def)

lemma env_keeps_interp [simp]: "env_keeps I (interp n E) = env_keeps I E"
  by (cases n) simp_all

text \<open>The two invariants satisfy the laws at every nesting depth of the delay slots.\<close>

lemma rte_keeps:
  assumes "keeps I cpu_base (e_ExecuteDelayslot_RTE E)"
    and "\<And>s e s'. e_ExecuteDelayslot_RTE E s = Throw e s' \<Longrightarrow> \<not> sh4_throw e"
    and "\<And>s. cpu_ok s \<Longrightarrow> J s"
  shows "keeps I J (i0000_0000_0010_1011 E w)"
proof (rule keepsI)
  have "plain (ctx_pc_update g)" for g by (simp add: plain_def)
  then show "I s \<Longrightarrow> i0000_0000_0010_1011 E w s = Ret a s' \<Longrightarrow> J s'" for s a s'
    by (auto simp: i0000_0000_0010_1011_def bindM_eq_Ret
        intro!: assms(3) UpdateSR_INTC_ok cpu_ok_plain(1) dest: keepsD [OF assms(1)])
  show "i0000_0000_0010_1011 E w s = Throw e s' \<Longrightarrow> sh4_throw e \<Longrightarrow> J s'" for s e s'
    by (auto simp: i0000_0000_0010_1011_def bindM_eq_Throw dest: assms(2))
qed

lemma sr_write_ok: "sr_write f \<Longrightarrow> cpu_base s \<Longrightarrow> cpu_ok (UpdateSR_INTC (on_ctx f s))"
  by (intro UpdateSR_INTC_ok cpu_base_sr)

lemma cpu_baseI:
  assumes "env_keeps cpu_base E" "keeps cpu_base cpu_base (e_ExecuteDelayslot E)"
    and "keeps cpu_base cpu_base (e_ExecuteDelayslot_RTE E)"
    and "\<And>s e s'. e_ExecuteDelayslot_RTE E s = Throw e s' \<Longrightarrow> \<not> sh4_throw e"
  shows "cpu_invariant E cpu_base cpu_base"
proof unfold_locales
  show "m_ctx s' = m_ctx s \<Longrightarrow> m_intc s' = m_intc s \<Longrightarrow> cpu_base s \<Longrightarrow> cpu_base s'" for s s' :: "'a machine"
    by (rule cpu_ok_frame(1))
  show "keeps cpu_base cpu_base (i0000_0000_0010_1011 E w)" for w
    by (rule rte_keeps [OF assms(3,4) cpu_ok_base])
qed (simp_all add: assms cpu_ok_plain cpu_ok_base sr_write_ok sched_next_ok UpdateINTC_ok Do_Exception_keeps)

lemma cpu_okI:
  assumes "env_keeps cpu_ok E" "keeps cpu_ok cpu_ok (e_ExecuteDelayslot E)"
    and "keeps cpu_base cpu_base (e_ExecuteDelayslot_RTE E)"
    and "\<And>s e s'. e_ExecuteDelayslot_RTE E s = Throw e s' \<Longrightarrow> \<not> sh4_throw e"
  shows "cpu_invariant E cpu_ok cpu_ok"
proof unfold_locales
  show "m_ctx s' = m_ctx s \<Longrightarrow> m_intc s' = m_intc s \<Longrightarrow> cpu_ok s \<Longrightarrow> cpu_ok s'" for s s' :: "'a machine"
    by (rule cpu_ok_frame(2))
  have "keeps cpu_ok cpu_base (e_ExecuteDelayslot_RTE E)"
    using assms(3) by (auto simp: keeps_def dest: cpu_ok_base)
  then show "keeps cpu_ok cpu_ok (i0000_0000_0010_1011 E w)" for w
    by (rule rte_keeps) (auto dest: assms(4))
qed (simp_all add: assms cpu_ok_plain cpu_ok_base sr_write_ok sched_next_ok UpdateINTC_ok Do_Exception_keeps)

lemma RTE_slot_base:
  assumes "cpu_invariant E cpu_base cpu_base"
  shows "keeps cpu_base cpu_base (ExecuteDelayslot_RTE E)"
proof (rule keepsI)
  have w: "sr_write (\<lambda>c. c\<lparr>ctx_sr := setFull (ctx_ssr c)\<rparr>)"
    by (simp add: sr_write_def sys_rest_def ctx_wf_def)
  have e: "keeps cpu_base cpu_base (ExecuteOpcode E op)" for op
    by (rule cpu_invariant.execute [OF assms]) (simp_all add: executeCycles_ok)
  have u: "keeps cpu_base cpu_base (upd (\<lambda>c. c\<lparr>ctx_sr := setFull (ctx_ssr c)\<rparr>))"
    by (rule keeps_upd) (rule cpu_base_sr [OF w])
  note k = keeps_bind [OF cpu_invariant.fetch [OF assms] keeps_bind [OF u e]]
  show "cpu_base s \<Longrightarrow> ExecuteDelayslot_RTE E s = Ret a s' \<Longrightarrow> cpu_base s'" for s a s'
    using keepsD(1) [OF k, of s]
    by (auto simp: ExecuteDelayslot_RTE_def catch_sh4_def split: outcome.splits halt.splits)
qed (auto dest: ExecuteDelayslot_RTE_throw)

lemma cpu_base_interp:
  assumes "env_keeps cpu_base E"
  shows "cpu_invariant (interp n E) cpu_base cpu_base"
proof (induction n)
  case (Suc n)
  show ?case
    by (rule cpu_baseI) (simp_all add: assms RTE_slot_base [OF Suc] executeCycles_ok
        ExecuteDelayslot_RTE_throw cpu_invariant.delayslot [OF Suc])
qed (auto intro!: cpu_baseI simp: assms keeps_def)

lemma cpu_ok_interp:
  assumes "env_keeps cpu_base E" "env_keeps cpu_ok E"
  shows "cpu_invariant (interp n E) cpu_ok cpu_ok"
proof (induction n)
  case (Suc n)
  show ?case
    by (rule cpu_okI) (simp_all add: assms RTE_slot_base [OF cpu_base_interp [OF assms(1)]] executeCycles_ok
        ExecuteDelayslot_RTE_throw cpu_invariant.delayslot [OF Suc])
qed (auto intro!: cpu_okI simp: assms keeps_def)

lemma counter_frame:
  "cpu_ok (on_ctx (ctx_cycle_counter_update f) s) = cpu_ok s"
  "cpu_ok (on_ctx (ctx_CpuRunning_update g) s) = cpu_ok s"
  by (simp_all add: cpu_ok_def cpu_base_def intc_inv_def sr_decoded_def bank_active_def
      arch_bank1_def ctx_status_def ctx_wf_def)

text \<open>
  The contract of the devices: through whatever handler they are reached, they keep both
  assertions. Under it the interpreter keeps them.
\<close>

locale sh4_devices =
  fixes E :: "'d env"
  assumes base: "env_keeps cpu_base E" and ok: "env_keeps cpu_ok E"

sublocale sh4_devices \<subseteq> cpu: cpu_invariant "interp n E" cpu_ok cpu_ok for n
  by (rule cpu_ok_interp [OF base ok])

context sh4_devices
begin

lemma enter_ok: "keeps cpu_ok cpu_ok (enter_exception p ev)"
  unfolding enter_exception_def
  by (intro keeps_bind [OF Do_Exception_keeps(2)] keeps_modifyM) (simp_all add: counter_frame addCycles_def)

lemma catch_ok:
  fixes m :: "('e, 'b) SM"
  assumes "keeps cpu_ok cpu_ok m" "\<And>p ev. keeps cpu_ok cpu_ok (h p ev)"
  shows "keeps cpu_ok cpu_ok (catch_sh4 m h)"
proof (rule keeps_pick)
  fix s :: "'e machine" assume s: "cpu_ok s"
  show "\<exists>m'. keeps cpu_ok cpu_ok m' \<and> catch_sh4 m h s = m' s"
  proof (cases "\<exists>p ev s'. m s = Throw (SH4ThrownException p ev) s'")
    case True
    then obtain p ev s' where e: "m s = Throw (SH4ThrownException p ev) s'" by auto
    have "cpu_ok s'" by (rule keepsD(2) [OF assms(1) s e]) simp
    then have "keeps cpu_ok cpu_ok (\<lambda>_. h p ev s')"
      by (intro keepsI) (erule keepsD [OF assms(2)], assumption+)+
    moreover have "catch_sh4 m h s = (\<lambda>_. h p ev s') s" using e by (simp add: catch_sh4_def)
    ultimately show ?thesis by (intro exI conjI)
  next
    case False
    then have "catch_sh4 m h s = m s" by (auto simp: catch_sh4_def split: outcome.split halt.split)
    then show ?thesis using assms(1) by auto
  qed
qed

lemma instruction_ok: "keeps cpu_ok cpu_ok (instruction (interp n E))"
  by (rule cpu.instr) (simp_all add: executeCycles_ok)

lemma step_ok: "keeps cpu_ok cpu_ok (Step (interp n E))"
  unfolding Step_def by (intro catch_ok instruction_ok enter_ok)

lemma counter_ok:
  "keeps cpu_ok cpu_ok (upd (ctx_cycle_counter_update f))" "keeps cpu_ok cpu_ok (upd (ctx_CpuRunning_update g))"
  by (rule keeps_upd, simp add: counter_frame)+

lemma slice_ok: "keeps cpu_ok cpu_ok (Run_slice k (interp n E))"
  by (induction k) (auto intro!: keeps_bind [OF instruction_ok] keeps_with_ctx keeps_if)

lemma pass_ok: "keeps cpu_ok cpu_ok (Run_pass k (interp n E))"
  unfolding Run_pass_def
  by (intro catch_ok keeps_bind [OF slice_ok] keeps_if keeps_bind [OF counter_ok(1)]
      keeps_bind [OF cpu.update_system] keeps_bind [OF enter_ok]) simp_all

lemma loop_ok: "keeps cpu_ok cpu_ok (Run_loop m k (interp n E))"
  by (induction m) (auto intro!: keeps_bind [OF pass_ok] keeps_with_ctx keeps_if)

lemma run_ok: "keeps cpu_ok cpu_ok (Run m k (interp n E))"
  unfolding Run_def by (intro keeps_bind [OF loop_ok] keeps_if keeps_bind [OF counter_ok(2)]) simp_all

end

section \<open>The translated environment\<close>

definition cpu_same :: "'d machine \<Rightarrow> 'd machine \<Rightarrow> bool" where
  "cpu_same s s' \<longleftrightarrow> m_ctx s' = m_ctx s \<and> m_intc s' = m_intc s \<and> m_cycles s' = m_cycles s"

lemma cpu_same_simps [simp]:
  "cpu_same s s" "cpu_same s (m_ccn_update f s)" "cpu_same s (m_mmu_update g s)"
  "cpu_same s (upd_block b h s)"
  by (simp_all add: cpu_same_def upd_block_def)

lemma cpu_same_trans: "cpu_same s s1 \<Longrightarrow> cpu_same s1 s2 \<Longrightarrow> cpu_same s s2"
  by (simp add: cpu_same_def)

lemma full_lookup_same: "mmu_full_lookup va rv s = (r, s') \<Longrightarrow> cpu_same s s'"
  by (auto simp: mmu_full_lookup_def Let_def)

lemma full_SQ_same: "mmu_full_SQ w va rv s = (r, s') \<Longrightarrow> cpu_same s s'"
  by (auto simp: mmu_full_SQ_def Let_def split: prod.splits if_splits dest: full_lookup_same)

lemma data_translation_same: "cpu_same s (snd (mmu_data_translation w va rv s))"
  by (auto simp: mmu_data_translation_def Let_def split: prod.split
      dest: full_lookup_same full_SQ_same)

lemma itlb_retry_same: "cpu_same s (state_of (itlb_retry va rv s))"
  by (auto simp: itlb_retry_def itlb_hit_def split: sum.splits prod.splits option.splits)

lemma instruction_lookup_same: "cpu_same s (state_of (mmu_instruction_lookup va rv s))"
  by (auto simp: mmu_instruction_lookup_def itlb_hit_def Let_def
      split: sum.splits prod.splits option.splits if_splits
      dest!: full_lookup_same intro: cpu_same_trans cpu_same_trans [OF _ itlb_retry_same] cpu_same_simps)

lemma itrans_same: "cpu_same s (state_of (mmu_itrans va s))"
  using instruction_lookup_same [of s va 0]
  by (auto simp: mmu_itrans_def mmu_instruction_translation_def bindM_def split: outcome.splits)

lemma UTLB_Sync_same: "cpu_same s (snd (UTLB_Sync n s))"
  by (auto simp: UTLB_Sync_def Let_def)

lemma keeps_same:
  assumes "\<And>s. cpu_same s (state_of (m s))" "\<And>s s'. cpu_same s s' \<Longrightarrow> I s \<Longrightarrow> I s'"
  shows "keeps I I m"
  unfolding keeps_def
proof (intro allI impI)
  fix s assume "I s"
  then have "I (state_of (m s))" by (rule assms(2) [OF assms(1)])
  then show "case m s of Ret a s' \<Rightarrow> I s' | Throw e s' \<Rightarrow> sh4_throw e \<longrightarrow> I s'" by (cases "m s") simp_all
qed

definition pvr_keeps :: "('d machine \<Rightarrow> bool) \<Rightarrow> 'd pvr_env \<Rightarrow> bool" where
  "pvr_keeps I P \<longleftrightarrow> (\<forall>b s. I s \<longrightarrow> I (ta_vtx_data32 P b s)) \<and> (\<forall>b n s. I s \<longrightarrow> I (ta_vtx_data P b n s))"

text \<open>An assertion on the CPU that the interrupts of the graphics chip keep.\<close>

definition asic_keeps :: "('d machine \<Rightarrow> bool) \<Rightarrow> bool" where
  "asic_keeps I \<longleftrightarrow> (\<forall>e s. I s \<longrightarrow> I (asic_RaiseInterrupt e s))"

lemma InterruptPend_wf:
  assumes "intc_wf i" "\<And>j. bit v j \<Longrightarrow> j < sh4_INT_ID_COUNT"
  shows "intc_wf (i\<lparr>interrupt_vpend := v\<rparr>)"
proof -
  have p: "GetPrLvl (i\<lparr>interrupt_vpend := v\<rparr>) = GetPrLvl i" by (rule GetPrLvl_cong) simp_all
  show ?thesis
    using assms by (simp add: intc_wf_def src_rank_cong [OF p] level_count_cong [OF p])
qed

lemma InterruptPend_cpu:
  assumes k: "k < sh4_INT_ID_COUNT"
  shows "cpu_base s \<Longrightarrow> cpu_base (InterruptPend k v s)" "cpu_ok s \<Longrightarrow> cpu_ok (InterruptPend k v (s :: 'a machine))"
proof -
  have "cpu_base (InterruptPend k v s)" if s: "cpu_base s" for s :: "'a machine"
  proof -
    let ?i = "m_intc s"
    have "InterruptBit ?i k = 2 ^ src_rank ?i k" "\<And>j. bit (interrupt_vpend ?i) j \<Longrightarrow> j < sh4_INT_ID_COUNT"
      using s k by (simp_all add: cpu_base_def intc_wf_def)
    then have "bit (interrupt_vpend ?i OR InterruptBit ?i k) j \<Longrightarrow> j < sh4_INT_ID_COUNT"
      "bit (interrupt_vpend ?i AND NOT (InterruptBit ?i k)) j \<Longrightarrow> j < sh4_INT_ID_COUNT" for j
      using src_rank_less [OF k, of ?i] by (auto simp: bit_or_iff bit_and_iff bit_exp_iff)
    with s show ?thesis
      by (simp add: cpu_base_def InterruptPend_def SetInterruptPend_def ResetInterruptPend_def
          recalc_pending_itrs_def on_ctx_def ctx_wf_def InterruptPend_wf)
  qed
  moreover have "ctx_old_sr (m_ctx (InterruptPend k v s)) = ctx_old_sr (m_ctx s)" for s :: "'a machine"
    by (simp add: InterruptPend_def SetInterruptPend_def ResetInterruptPend_def recalc_pending_itrs_def on_ctx_def)
  ultimately show "cpu_base s \<Longrightarrow> cpu_base (InterruptPend k v s)" "cpu_ok s \<Longrightarrow> cpu_ok (InterruptPend k v s)"
    using k by (simp_all add: cpu_ok_def InterruptPend_inv bank_active_def arch_bank1_def)
qed

lemma asic_keepsI:
  assumes "\<And>f s. I s \<Longrightarrow> I (m_holly_update f s)"
    and "\<And>k v s. k < sh4_INT_ID_COUNT \<Longrightarrow> I s \<Longrightarrow> I (InterruptPend k v s)"
  shows "asic_keeps I"
  using assms by (simp add: asic_keeps_def asic_RaiseInterrupt_def Let_def asic_RLPending_def RLPending_conv)

lemma asic_keeps_cpu: "asic_keeps cpu_base" "asic_keeps cpu_ok"
  by (auto intro!: asic_keepsI InterruptPend_cpu intro: cpu_ok_frame)

lemma env_keeps_with_mmu:
  assumes "\<And>s s'. cpu_same s s' \<Longrightarrow> I s \<Longrightarrow> I s'" "env_keeps I E"
  shows "env_keeps I (with_mmu E)"
proof -
  have "cpu_same s (state_of (mmu_dtrans w x s))" for w x s
    using data_translation_same [of s w x 0] by (simp add: mmu_dtrans_def)
  then have "keeps I I (mmu_dtrans w x)" "keeps I I (mmu_itrans x)" for w x
    using assms(1) itrans_same by (blast intro: keeps_same)+
  then show ?thesis
    using assms(2) assms(1) [OF UTLB_Sync_same] by (simp add: env_keeps_def with_mmu_def)
qed

lemma memcpy_same: "cpu_same s (memcpy b d src off n s)"
  by (simp add: memcpy_def)

lemma TAWriteSQ_keeps:
  assumes "\<And>s s'. cpu_same s s' \<Longrightarrow> I s \<Longrightarrow> I s'" "pvr_keeps I P" "asic_keeps I" "I s"
  shows "I (TAWriteSQ a P x s)"
proof -
  have "cpu_same s (pvr_write32p32 a y v s)" for y v s
    by (simp add: pvr_write32p32_def fb_watch_def Let_def cpu_same_def upd_block_def)
  then have "I (pvr_write32p32 a y v s)" if "I s" for y v s using assms(1) that by blast
  then have "I (fold (\<lambda>i s. pvr_write32p32 a (y + of_nat i) (f i s) s) is s)" for y f "is"
    using assms(4) by (induction "is" arbitrary: s) simp_all
  moreover have "yuv_frame I"
    unfolding yuv_frame_def using assms(3) by (auto simp: asic_keeps_def cpu_same_def intro: assms(1))
  ultimately show ?thesis
    using assms assms(1) [OF memcpy_same]
    by (simp add: TAWriteSQ_def Let_def pvr_keeps_def YUV_data_keeps)
qed

lemma doSqWrite_keeps:
  assumes f: "\<And>s s'. cpu_same s s' \<Longrightarrow> I s \<Longrightarrow> I s'" and E: "env_invariant E I" and P: "pvr_keeps I P"
    and A: "asic_keeps I"
  shows "keeps I I (doSqWrite E a P g x)"
proof -
  have w: "keeps I I (sq_words E a dst off is)" for dst off "is"
  proof (induction "is")
    case (Cons i "is")
    have "keeps I I (getM (\<lambda>s. ld32 (m_mem s (a_sq a)) (off + of_nat i)))" by (rule keeps_getM)
    then show ?case unfolding sq_words.simps
      by (rule keeps_bind) (auto intro: keeps_bind [OF env_invariant.addrspace(6) [OF E] Cons])
  qed simp
  have b: "keeps I I (WriteMemBlock_nommu_sq E a dst off)" for dst off
    by (rule keepsI) (auto simp: WriteMemBlock_nommu_sq_def intro: f [OF memcpy_same]
        split: option.splits dest: keepsD [OF w])
  have "cpu_same s (state_of (mmu_TranslateSQW y s))" for y s
    by (auto simp: mmu_TranslateSQW_def mmu_raise_exception_def mmuException_regs_def Let_def
        split: prod.splits sum.splits dest!: full_SQ_same intro: cpu_same_trans)
  then have "keeps I I (mmu_TranslateSQW y)" for y using f by (rule keeps_same)
  then have "keeps I I (sqWrite_addr m y)" for m y
    by (auto simp: sqWrite_addr_def intro: keeps_getM)
  note ad = this
  have "I (TAWriteSQ a P y s)" if "I s" for y s
    by (rule TAWriteSQ_keeps; (rule P A that | erule (1) f))
  then have t: "keeps I I (modifyM (TAWriteSQ a P y))" for y
    by (rule keeps_modifyM)
  have "keeps I I (sqWrite E a P m y)" for m y
    unfolding sqWrite_def
    by (rule keeps_bind [OF ad]) (auto intro: keeps_if b t)
  then show ?thesis
    by (cases g) (auto simp: t doSqWrite_def sqWrite_area_3_def sqWrite_area_3_nonvmem_def
        intro!: keeps_modifyM keeps_throwM intro: f [OF memcpy_same])
qed

lemma env_keeps_sh4:
  assumes f: "\<And>s s'. cpu_same s s' \<Longrightarrow> I s \<Longrightarrow> I s'" and E: "env_keeps I E" and P: "pvr_keeps I P"
    and A: "asic_keeps I"
  shows "env_keeps I (sh4_env a P E)"
proof -
  note m = env_keeps_with_mmu [OF f E]
  have "env_invariant (with_mmu E) I"
    by unfold_locales (auto intro: f m simp: cpu_same_def)
  then show ?thesis
    using m doSqWrite_keeps [OF f _ P A] by (simp add: sh4_env_def with_sq_def env_keeps_def)
qed

lemma cpu_ok_same: "cpu_same s s' \<Longrightarrow> cpu_base s \<Longrightarrow> cpu_base s'" "cpu_same s s' \<Longrightarrow> cpu_ok s \<Longrightarrow> cpu_ok s'"
  by (auto simp: cpu_same_def intro: cpu_ok_frame)

text \<open>The machine with the store queues and the address translation, and silent devices.\<close>

interpretation idle: sh4_devices idle_sh4
proof
  have "env_keeps I (idle_env :: unit env)" "pvr_keeps I pvr_witness" for I
    by (simp_all add: env_keeps_def idle_env_def pvr_keeps_def pvr_witness_def)
  then show "env_keeps cpu_base idle_sh4" "env_keeps cpu_ok idle_sh4"
    unfolding idle_sh4_def by (blast intro: env_keeps_sh4 cpu_ok_same asic_keeps_cpu)+
qed

lemma enter_exception_throw: "enter_exception p ev s = Throw e s' \<Longrightarrow> \<not> sh4_throw e"
  by (auto simp: enter_exception_def bindM_eq_Throw dest: Do_Exception_throw)

lemma Step_throw: "Step E s = Throw e s' \<Longrightarrow> \<not> sh4_throw e"
  by (auto simp: Step_def elim!: catch_sh4_Throw dest: enter_exception_throw)

lemma Run_throw:
  assumes "Run m k E s = Throw e s'"
  shows "\<not> sh4_throw e"
proof -
  have p: "Run_pass k E s = Throw e s' \<Longrightarrow> \<not> sh4_throw e" for s e s'
    by (auto simp: Run_pass_def bindM_eq_Throw elim!: catch_sh4_Throw dest: enter_exception_throw)
  have "Run_loop m k E s = Throw e s' \<Longrightarrow> \<not> sh4_throw e" for m s e s'
    by (induction m arbitrary: s) (auto simp: bindM_eq_Throw dest: p split: if_splits)
  then show ?thesis using assms by (auto simp: Run_def bindM_eq_Throw split: if_splits)
qed

section \<open>Properties\<close>

text \<open>C2: The CPU stays well formed: the status register has no undefined bit, the register file
  holds the bank the status register selects, and the word of pending interrupts is never
  stale. After a step or a run of the interpreter it is non-zero exactly if some source is
  pending, enabled and above the mask of the status register, so that no interrupt is missed
  or taken when masked. A step or a run ends with no SH4 exception in flight.\<close>
theorem interpreter_invariant:
  assumes "env_keeps cpu_base E" and "env_keeps cpu_ok E" and "cpu_ok s"
  shows "(case Step (interp n E) s of
      Ret a s' \<Rightarrow> cpu_ok s' \<and> (ctx_interrupt_pend (m_ctx s') \<noteq> 0 \<longleftrightarrow> (\<exists>t. interruptible s' t))
    | Throw e s' \<Rightarrow> \<not> sh4_throw e) \<and>
    (case Run m k (interp n E) s of
      Ret a s' \<Rightarrow> cpu_ok s' \<and> (ctx_interrupt_pend (m_ctx s') \<noteq> 0 \<longleftrightarrow> (\<exists>t. interruptible s' t))
    | Throw e s' \<Rightarrow> \<not> sh4_throw e)"
proof -
  have d: "sh4_devices E" by unfold_locales (fact assms)+
  have p: "ctx_interrupt_pend (m_ctx s') \<noteq> 0 \<longleftrightarrow> (\<exists>t. interruptible s' t)" if "cpu_ok s'" for s' :: "'a machine"
    using that pend_nonzero [of s'] by (simp add: cpu_ok_def)
  have "keeps cpu_ok cpu_ok (Step (interp n E))" "keeps cpu_ok cpu_ok (Run m k (interp n E))"
    by (rule sh4_devices.step_ok [OF d], rule sh4_devices.run_ok [OF d])
  then show ?thesis
    using p Step_throw [of "interp n E" s] Run_throw [of m k "interp n E" s] assms(3)
    by (auto split: outcome.split dest: keepsD(1))
qed

lemma idle_start: "cpu_ok (interrupts_reset (zero_machine ()) :: unit machine)"
proof -
  let ?s = "interrupts_reset (zero_machine ()) :: unit machine"
  have "ctx_sr (m_ctx ?s) = ctx_sr zero_ctx" "ctx_old_sr (m_ctx ?s) = 0"
    by (simp_all add: interrupts_reset_def SIIDRebuild_def SRdecode_def Let_def recalc_pending_itrs_def
        zero_machine_def zero_ctx_def)
  then show ?thesis
    using interrupts_reset_inv(1,2) [of "zero_machine ()"]
    by (simp add: cpu_ok_def cpu_base_def intc_inv_def bank_active_def arch_bank1_def ctx_wf_def sr_wf_def
        ctx_status_def flag_bits zero_ctx_def)
qed

theorem interpreter_invariant_witness:
  "(case Run 5 200 (interp 1 idle_sh4) (interrupts_reset (zero_machine ())) of
      Ret a s' \<Rightarrow> cpu_ok s' | Throw e s' \<Rightarrow> \<not> sh4_throw e)"
  using interpreter_invariant [OF idle.base idle.ok idle_start, of 1 5 200]
  by (simp split: outcome.splits)

section \<open>The cycle counter\<close>

text \<open>
  \<open>slice_measure\<close> is the cycles left in a time slice and four more if the next instruction may
  issue together with its predecessor. Every instruction lowers it by at least four. A device
  handler leaves the counter alone.
\<close>

definition cycles_left :: "'d machine \<Rightarrow> int" where
  "cycles_left s = sint (ctx_cycle_counter (m_ctx s))"

definition slice_measure :: "'d machine \<Rightarrow> int" where
  "slice_measure s = cycles_left s + (if lastUnit (m_cycles s) = CO then 0 else 4)"

definition slice_bounds :: "int \<Rightarrow> int \<Rightarrow> 'd machine \<Rightarrow> bool" where
  "slice_bounds lo hi s \<longleftrightarrow> lo \<le> cycles_left s \<and> slice_measure s \<le> hi"

definition cycles_kept :: "'d env \<Rightarrow> bool" where
  "cycles_kept E \<longleftrightarrow> (\<forall>c y. env_keeps (\<lambda>s. ctx_cycle_counter (m_ctx s) = c \<and> m_cycles s = y) E)"

lemma keeps_param:
  assumes "\<And>x. keeps (\<lambda>s. f s = x) (\<lambda>s. f s = x) m"
  shows "keeps (\<lambda>s. P (f s)) (\<lambda>s. P (f s)) m"
proof (rule keepsI)
  show "P (f s) \<Longrightarrow> m s = Ret a s' \<Longrightarrow> P (f s')" for s a s'
    using keepsD(1) [OF assms [of "f s"] refl] by simp
  show "P (f s) \<Longrightarrow> m s = Throw e s' \<Longrightarrow> sh4_throw e \<Longrightarrow> P (f s')" for s e s'
    using keepsD(2) [OF assms [of "f s"] refl] by simp
qed

lemma env_keeps_param:
  assumes "\<And>x. env_keeps (\<lambda>s. f s = x) E"
  shows "env_keeps (\<lambda>s. P (f s)) E"
  using env_keepsD(9,10) [OF assms refl]
  by (simp add: env_keeps_def keeps_param env_keepsD [OF assms])

lemma cycles_kept_bounds:
  assumes "cycles_kept E"
  shows "env_keeps (slice_bounds lo hi) E"
proof -
  let ?f = "\<lambda>s. (ctx_cycle_counter (m_ctx s), m_cycles s)"
  have b: "slice_bounds lo hi = (\<lambda>s. case ?f s of (c, y) \<Rightarrow>
      lo \<le> sint c \<and> sint c + (if lastUnit y = CO then 0 else 4) \<le> hi)"
    by (simp add: slice_bounds_def slice_measure_def cycles_left_def fun_eq_iff)
  have a: "env_keeps (\<lambda>s. ?f s = x) E" for x
    using assms by (cases x) (simp add: cycles_kept_def)
  show ?thesis unfolding b using env_keeps_param [OF a] .
qed

lemma executeCycles_left:
  assumes "described op" "-(2 ^ 31) + 840 \<le> cycles_left s"
  shows "cycles_left s - 840 \<le> cycles_left (executeCycles CPU_RATIO op s)"
    and "slice_measure (executeCycles CPU_RATIO op s) \<le> slice_measure s - 4"
proof -
  obtain c s1 where c: "countCycles 8 op s = (c, s1)" by fastforce
  have ctx: "m_ctx s1 = m_ctx s" using c by (auto simp: countCycles_def split: prod.splits)
  have cost: "unat c \<le> 840" "8 \<le> unat c \<or> lastUnit (m_cycles s) \<noteq> CO \<and> lastUnit (m_cycles s1) = CO"
    using countCycles_cost [OF assms(1), of 8 s] by (simp_all add: c)
  have sc: "sint c = int (unat c)"
  proof -
    have "int (unat c) \<le> 840" using cost(1) by linarith
    then have "uint c < 2 ^ 31" by simp
    moreover have "- (2 ^ 31) \<le> uint c" by (rule order_trans [OF _ uint_ge_0]) simp
    ultimately
    show ?thesis by (simp add: sint_uint signed_take_bit_int_eq_self)
  qed
  have "cycles_left s < 2 ^ 31" using sint_less [of "ctx_cycle_counter (m_ctx s)"] by (simp add: cycles_left_def)
  then have "- (2 ^ 31) \<le> cycles_left s - int (unat c)" "cycles_left s - int (unat c) < 2 ^ 31"
    using assms(2) cost(1) by linarith+
  then have "sint (ctx_cycle_counter (m_ctx s) - c) = cycles_left s - int (unat c)"
    unfolding cycles_left_def sint_word_ariths sc by (simp add: signed_take_bit_int_eq_self)
  then have "cycles_left (executeCycles CPU_RATIO op s) = cycles_left s - int (unat c)"
    by (simp add: cycles_left_def executeCycles_def c addCycles_def ctx)
  moreover define k where "k = unat c"
  ultimately have "cycles_left (executeCycles CPU_RATIO op s) = cycles_left s - int k" by simp
  moreover have "k \<le> 840" "8 \<le> k \<or> lastUnit (m_cycles s) \<noteq> CO \<and> lastUnit (m_cycles s1) = CO"
    using cost by (simp_all add: k_def)
  moreover have "m_cycles (executeCycles CPU_RATIO op s) = m_cycles s1"
    by (simp add: executeCycles_def c addCycles_def)
  ultimately show "cycles_left s - 840 \<le> cycles_left (executeCycles CPU_RATIO op s)"
    "slice_measure (executeCycles CPU_RATIO op s) \<le> slice_measure s - 4"
    by (auto simp: slice_measure_def)
qed

lemma cycle_counter_frame [simp]:
  "ctx_cycle_counter (m_ctx (snd (UpdateSR s))) = ctx_cycle_counter (m_ctx s)"
  "ctx_cycle_counter (m_ctx (exception_entry p s)) = ctx_cycle_counter (m_ctx s)"
proof -
  show u: "ctx_cycle_counter (m_ctx (snd (UpdateSR s))) = ctx_cycle_counter (m_ctx s)" for s :: "'a machine"
    unfolding UpdateSR_def by (subst m_ctx_SRdecode, simp add: UpdateSR_banks_def ChangeGPR_def Let_def)
  show "ctx_cycle_counter (m_ctx (exception_entry p s)) = ctx_cycle_counter (m_ctx s)"
    by (simp add: exception_entry_def u upd_status_def)
qed

lemma slice_bounds_eq:
  "ctx_cycle_counter (m_ctx s') = ctx_cycle_counter (m_ctx s) \<Longrightarrow> m_cycles s' = m_cycles s \<Longrightarrow>
   slice_bounds lo hi s' = slice_bounds lo hi s"
  by (simp add: slice_bounds_def slice_measure_def cycles_left_def)

lemma slice_bounds_UpdateINTC [simp]: "slice_bounds lo hi (snd (UpdateINTC s)) = slice_bounds lo hi s"
  by (rule slice_bounds_eq) (simp_all add: UpdateINTC_def Do_Interrupt_def Let_def)

lemma slice_bounds_UpdateSR_INTC [simp]: "slice_bounds lo hi (UpdateSR_INTC s) = slice_bounds lo hi s"
  unfolding UpdateSR_INTC_eq slice_bounds_UpdateINTC by (rule slice_bounds_eq) simp_all

lemma slice_bounds_on_ctx:
  "(\<And>c. ctx_cycle_counter (f c) = ctx_cycle_counter c) \<Longrightarrow> slice_bounds lo hi (on_ctx f s) = slice_bounds lo hi s"
  by (rule slice_bounds_eq) simp_all

lemma slice_bounds_exc: "keeps (slice_bounds lo hi) (slice_bounds lo hi) (Do_Exception p ev)"
  by (rule keepsI) (auto simp: Do_Exception_def Let_def slice_bounds_def slice_measure_def cycles_left_def
      split: if_splits)

lemma plain_counter: "plain f \<Longrightarrow> ctx_cycle_counter (f c) = ctx_cycle_counter c"
  "sr_write f \<Longrightarrow> ctx_cycle_counter (f c) = ctx_cycle_counter c"
  by (simp_all add: plain_def sr_write_def sys_rest_def)

lemma slice_boundsI:
  assumes "cycles_kept E" "lo' \<le> lo"
    and "keeps (slice_bounds lo hi) (slice_bounds lo' hi) (e_ExecuteDelayslot E)"
    and "keeps (slice_bounds lo hi) (slice_bounds lo' hi) (e_ExecuteDelayslot_RTE E)"
  shows "cpu_invariant E (slice_bounds lo hi) (slice_bounds lo' hi)"
proof unfold_locales
  show "env_keeps (slice_bounds lo hi) E" by (rule cycles_kept_bounds [OF assms(1)])
  show "keeps (slice_bounds lo hi) (slice_bounds lo' hi) (i0000_0000_0010_1011 E w)" for w
    by (rule keepsI) (auto simp: i0000_0000_0010_1011_def bindM_eq_Ret bindM_eq_Throw slice_bounds_on_ctx
        dest: keepsD [OF assms(4)])
  show "slice_bounds lo hi s \<Longrightarrow> slice_bounds lo' hi s" for s :: "'a machine"
    using assms(2) by (simp add: slice_bounds_def)
  show "m_ctx s' = m_ctx s \<Longrightarrow> m_intc s' = m_intc s \<Longrightarrow> m_cycles s' = m_cycles s \<Longrightarrow> slice_bounds lo hi s \<Longrightarrow>
      slice_bounds lo hi s'" for s s' :: "'a machine"
    using slice_bounds_eq [of s' s] by simp
qed (simp_all add: slice_bounds_on_ctx plain_counter slice_bounds_exc assms(3))

lemma slice_bounds_execute:
  assumes "slice_bounds lo hi s" "described op" "- (2 ^ 31) + 840 \<le> lo"
  shows "slice_bounds (lo - 840) (hi - 4) (executeCycles CPU_RATIO op s)"
  using assms executeCycles_left [OF assms(2), of s] by (simp add: slice_bounds_def)

lemma slice_bounds_mono: "slice_bounds lo hi s \<Longrightarrow> lo' \<le> lo \<Longrightarrow> hi \<le> hi' \<Longrightarrow> slice_bounds lo' hi' s"
  by (simp add: slice_bounds_def)

text \<open>An instruction with \<open>n\<close> levels of delay slots costs at most \<open>840 * (n + 1)\<close> cycles.\<close>

lemma slice_interp:
  assumes "cycles_kept E" "- (2 ^ 31) + 840 * (int n + 1) \<le> lo"
  shows "cpu_invariant (interp n E) (slice_bounds lo hi) (slice_bounds (lo - 840 * int n) hi)"
  using assms(2)
proof (induction n arbitrary: lo)
  case 0
  show ?case by (rule slice_boundsI) (simp_all add: cycles_kept_def keeps_def assms(1) [unfolded cycles_kept_def])
next
  case (Suc n)
  have IH: "cpu_invariant (interp n E) (slice_bounds lo hi) (slice_bounds (lo - 840 * int n) hi)"
    using Suc.prems by (intro Suc.IH) simp
  let ?J = "slice_bounds (lo - 840 * int (Suc n)) hi"
  have w: "?J s" if "slice_bounds (lo - 840 * int n) hi s" for s :: "'a machine"
    by (rule slice_bounds_mono [OF that]) simp_all
  have x: "?J (executeCycles CPU_RATIO op s)" if "slice_bounds (lo - 840 * int n) hi s" "described op"
    for op and s :: "'a machine"
    by (rule slice_bounds_mono [OF slice_bounds_execute [OF that]]) (use Suc.prems in simp_all)
  have c: "cycles_kept (interp n E)" using assms(1) by (simp add: cycles_kept_def)
  have j: "slice_bounds lo hi s \<Longrightarrow> ?J s" for s :: "'a machine"
    by (erule slice_bounds_mono) simp_all
  have u: "keeps (slice_bounds lo hi) (slice_bounds lo hi) (upd (\<lambda>c. c\<lparr>ctx_sr := setFull (ctx_ssr c)\<rparr>))"
    by (rule keeps_upd) (simp add: slice_bounds_on_ctx)
  have k: "keeps (slice_bounds lo hi) ?J (bindM (ReadNexOp (interp n E)) (\<lambda>op.
      bindM (upd (\<lambda>c. c\<lparr>ctx_sr := setFull (ctx_ssr c)\<rparr>)) (\<lambda>_. ExecuteOpcode (interp n E) op)))"
    by (intro keeps_bind [OF cpu_invariant.fetch [OF IH]] keeps_bind [OF u] cpu_invariant.execute [OF IH] w x j)
  have r: "keeps (slice_bounds lo hi) ?J (ExecuteDelayslot_RTE (interp n E))"
    by (rule keepsI) (auto simp: ExecuteDelayslot_RTE_def catch_sh4_def dest: keepsD [OF k]
        split: outcome.splits halt.splits)
  show ?case
    using c cpu_invariant.delayslot [where K = ?J, OF IH w x] r
    by (intro slice_boundsI) (simp_all add: cycles_kept_def)
qed

lemma slice_ends:
  assumes "cycles_kept E" "n \<le> 2000000"
  shows "0 < cycles_left s \<Longrightarrow> slice_measure s \<le> 4 * int k \<Longrightarrow>
    (\<exists>s'. Run_slice k (interp n E) s = Ret True s' \<and> cycles_left s' \<le> 0) \<or>
    (\<exists>e s'. Run_slice k (interp n E) s = Throw e s')"
proof (induction k arbitrary: s)
  case 0
  then show ?case by (simp add: slice_measure_def split: if_splits)
next
  case (Suc k)
  let ?I = "slice_bounds 1 (4 * int (Suc k))" and ?lo = "1 - 840 * int n"
  have inv: "cpu_invariant (interp n E) ?I (slice_bounds ?lo (4 * int (Suc k)))"
    using assms(2) by (intro slice_interp assms(1)) simp
  show ?case
  proof (cases "instruction (interp n E) s")
    case (Ret u s1)
    have "?I s" using Suc.prems by (simp add: slice_bounds_def)
    then obtain op s2 where s2: "slice_bounds ?lo (4 * int (Suc k)) s2" "described op"
      and s1: "s1 = executeCycles CPU_RATIO op s2"
      using Ret by (rule cpu_invariant.instr_Ret [OF inv])
    have "slice_measure s1 \<le> 4 * int k"
      using slice_bounds_execute [OF s2] assms(2) by (simp add: s1 slice_bounds_def)
    then show ?thesis
      using Suc.IH [of s1] Ret by (cases "0 < cycles_left s1") (auto simp: bindM_def cycles_left_def)
  qed (auto simp: bindM_def)
qed

text \<open>C3: A time slice ends. If the devices leave the cycle counter alone and at most two million
  delay slots are nested, a slice of at most 448 cycles uses up its cycles within 113
  instructions or is left by an exception: the interpreter always comes back to the scheduler
  and the interrupts.\<close>
theorem time_slice_ends:
  assumes "cycles_kept E" and "n \<le> 2000000"
    and "0 < sint (ctx_cycle_counter (m_ctx s))" and "sint (ctx_cycle_counter (m_ctx s)) \<le> 448"
  shows "(\<exists>s'. Run_slice 113 (interp n E) s = Ret True s' \<and> sint (ctx_cycle_counter (m_ctx s')) \<le> 0) \<or>
    (\<exists>e s'. Run_slice 113 (interp n E) s = Throw e s')"
proof -
  have "slice_measure s \<le> 4 * int 113" using assms(4) by (simp add: slice_measure_def cycles_left_def)
  from slice_ends [OF assms(1,2) _ this] assms(3) show ?thesis by (simp add: cycles_left_def)
qed

lemma idle_cycles: "cycles_kept idle_sh4"
proof -
  have "env_keeps I (idle_env :: unit env)" "pvr_keeps I pvr_witness" for I
    by (simp_all add: env_keeps_def idle_env_def pvr_keeps_def pvr_witness_def)
  moreover have "cpu_same s s' \<Longrightarrow> ctx_cycle_counter (m_ctx s) = c \<and> m_cycles s = y \<Longrightarrow>
      ctx_cycle_counter (m_ctx s') = c \<and> m_cycles s' = y" for s s' :: "unit machine" and c y
    by (simp add: cpu_same_def)
  moreover have "asic_keeps (\<lambda>s :: unit machine. ctx_cycle_counter (m_ctx s) = c \<and> m_cycles s = y)" for c y
    by (rule asic_keepsI) simp_all
  ultimately show ?thesis
    unfolding cycles_kept_def idle_sh4_def by (intro allI env_keeps_sh4)
qed

theorem time_slice_ends_witness:
  "\<forall>s'. Run_slice 113 (interp 1 idle_sh4)
     (on_ctx (ctx_cycle_counter_update (\<lambda>_. 448)) (zero_machine ())) \<noteq> Ret False s'"
  using time_slice_ends [OF idle_cycles, of 1 "on_ctx (ctx_cycle_counter_update (\<lambda>_. 448)) (zero_machine ())"]
  by auto

end
