(* ===== verification/Tmu.thy ===== *)
theory Tmu
  imports Sh4_Cycles
begin

text \<open>
  The timer unit, \<^verbatim>\<open>hw/sh4/modules/tmu.cpp\<close>. A channel does not count: the count is the
  difference between a base (\<open>tmu_ch_base\<close>) and the clock divided by the channel's prescaler,
  masked to zero while the channel is stopped, and the scheduler is asked to call back when it
  reaches zero. The source keeps counts and bases in signed 64-bit variables; here they are
  64-bit words that are read with \<^const>\<open>sint\<close>.
\<close>

section \<open>The operations\<close>

abbreviation (input) "tmu_underflow \<equiv> (0x0100 :: u16)"
abbreviation (input) "tmu_UNIE \<equiv> (0x0020 :: u16)"

definition tmu_intID :: "nat \<Rightarrow> nat" where
  "tmu_intID ch = sh4_TMU0_TUNI0 + ch"

definition tmu_now :: "'d machine \<Rightarrow> u64" where
  "tmu_now s = sh4_sched_now64 s + scast SH4_TIMESLICE - scast (ctx_cycle_counter (m_ctx s))"

definition read_TMU_TCNTch :: "nat \<Rightarrow> 'd machine \<Rightarrow> u64" where
  "read_TMU_TCNTch ch s = tmu_ch_base (m_tmu s) ch -
     (drop_bit (unat (tmu_shift (m_tmu s) ch)) (tmu_now s) AND tmu_mask (m_tmu s) ch)"

text \<open>\<^verbatim>\<open>std::clamp\<close> on \<open>s64\<close>, and the number of cycles \<^verbatim>\<open>sched_chan_tick\<close> asks for.\<close>

definition clamp :: "int \<Rightarrow> int \<Rightarrow> int \<Rightarrow> int" where
  "clamp v lo hi = (if v < lo then lo else if hi < v then hi else v)"

definition chan_cycles :: "nat \<Rightarrow> 'd machine \<Rightarrow> u32" where
  "chan_cycles ch s = word_of_int
     (clamp (sint (push_bit (unat (tmu_shift (m_tmu s) ch)) (read_TMU_TCNTch ch s))) 0 200000000)"

definition sched_chan_tick :: "nat \<Rightarrow> ('d, unit) SM" where
  "sched_chan_tick ch s =
    (if tmu_mask (m_tmu s) ch \<noteq> 0
     then sh4_sched_request (nat (tmu_sched (m_tmu s) ch)) (chan_cycles ch s) s
     else sh4_sched_request (nat (tmu_sched (m_tmu s) ch)) sched_none s)"

definition write_TMU_TCNTch :: "nat \<Rightarrow> u64 \<Rightarrow> ('d, unit) SM" where
  "write_TMU_TCNTch ch data s =
    (let base = data + (drop_bit (unat (tmu_shift (m_tmu s) ch)) (tmu_now s) AND tmu_mask (m_tmu s) ch)
     in sched_chan_tick ch (m_tmu_update (tmu_ch_base_update (\<lambda>b. b(ch := base))) s))"

definition upd_TCR :: "nat \<Rightarrow> (u16 \<Rightarrow> u16) \<Rightarrow> 'd machine \<Rightarrow> 'd machine" where
  "upd_TCR ch f = m_tmu_update (TMU_TCR_update (\<lambda>r. r(ch := f (r ch))))"

text \<open>\<open>reload_value\<close>: the new count of \<^verbatim>\<open>reloadCounter\<close>, \<open>max (tcor + curValue) 0\<close>.\<close>

definition reload_value :: "nat \<Rightarrow> u64 \<Rightarrow> 'd machine \<Rightarrow> u64" where
  "reload_value ch curValue s =
    (let v = ucast (TMU_TCOR (m_tmu s) ch) + curValue in if sint v < 0 then 0 else v)"

definition reloadCounter :: "nat \<Rightarrow> u64 \<Rightarrow> ('d, u32) SM" where
  "reloadCounter ch curValue s =
    (let s1 = upd_TCR ch (\<lambda>r. r OR tmu_underflow) s;
         s2 = InterruptPend (tmu_intID ch) True s1;
         v = reload_value ch curValue s2
     in bindM (write_TMU_TCNTch ch v) (\<lambda>_. returnM (ucast v)) s2)"

definition read_TMU_TCNT :: "nat \<Rightarrow> u32 \<Rightarrow> ('d, u32) SM" where
  "read_TMU_TCNT ch addr s =
    (let v = read_TMU_TCNTch ch s in if sint v < 0 then reloadCounter ch v s else Ret (ucast v) s)"

definition write_TMU_TCNT :: "nat \<Rightarrow> u32 \<Rightarrow> u32 \<Rightarrow> ('d, unit) SM" where
  "write_TMU_TCNT ch addr data = write_TMU_TCNTch ch (ucast data)"

definition turn_on_off_ch :: "nat \<Rightarrow> bool \<Rightarrow> ('d, unit) SM" where
  "turn_on_off_ch ch on s =
    (let TCNT = read_TMU_TCNTch ch s
     in write_TMU_TCNTch ch TCNT
          (m_tmu_update (tmu_mask_update (\<lambda>m. m(ch := if on then 0xFFFFFFFFFFFFFFFF else 0))) s))"

text \<open>The switch of \<^verbatim>\<open>UpdateTMUCounts\<close> and the addition after it: modes 5 to 7 only log.\<close>

definition mode_shift :: "u16 \<Rightarrow> u32 \<Rightarrow> u32" where
  "mode_shift mode old =
    (if mode = 0 then 2 else if mode = 1 then 4 else if mode = 2 then 6
     else if mode = 3 then 8 else if mode = 4 then 10 else old) + 2"

lemma mode_shift_reserved: "mode = 5 \<or> mode = 6 \<or> mode = 7 \<Longrightarrow> mode_shift mode old = old + 2"
  by (auto simp: mode_shift_def)

definition UpdateTMUCounts :: "nat \<Rightarrow> ('d, unit) SM" where
  "UpdateTMUCounts reg s =
    (let tcr = TMU_TCR (m_tmu s) reg;
         s1 = InterruptPend (tmu_intID reg) (tcr AND tmu_underflow \<noteq> 0) s;
         s2 = InterruptMask (tmu_intID reg) (tcr AND tmu_UNIE \<noteq> 0) s1
     in if old_mode (m_tmu s2) reg = ucast (tcr AND 7) then Ret () s2
        else let s3 = m_tmu_update (old_mode_update (\<lambda>m. m(reg := ucast (tcr AND 7)))) s2;
                 TCNT = read_TMU_TCNTch reg s3
          in write_TMU_TCNTch reg TCNT
               (m_tmu_update (tmu_shift_update (\<lambda>f. f(reg := mode_shift (tcr AND 7) (f reg)))) s3))"

definition TMU_TCR_write :: "nat \<Rightarrow> u32 \<Rightarrow> u16 \<Rightarrow> ('d, unit) SM" where
  "TMU_TCR_write ch addr data s =
     UpdateTMUCounts ch (upd_TCR ch (\<lambda>_. if ch = 2 then data AND 0x03ff else data AND 0x013f) s)"

definition TMU_TCPR2_read :: "u32 \<Rightarrow> u32" where
  "TMU_TCPR2_read addr = 0"

definition TMU_TCPR2_write :: "u32 \<Rightarrow> u32 \<Rightarrow> 'd machine \<Rightarrow> 'd machine" where
  "TMU_TCPR2_write addr data s = s"

definition write_TMU_TSTR :: "u32 \<Rightarrow> u8 \<Rightarrow> ('d, unit) SM" where
  "write_TMU_TSTR addr data s =
     bindM (turn_on_off_ch 0 (bit data 0)) (\<lambda>_.
     bindM (turn_on_off_ch 1 (bit data 1)) (\<lambda>_. turn_on_off_ch 2 (bit data 2)))
       (m_tmu_update (TMU_TSTR_update (\<lambda>_. data AND 7)) s)"

definition sched_tmu_cb :: "nat \<Rightarrow> u32 \<Rightarrow> u32 \<Rightarrow> nat \<Rightarrow> ('d, u32) SM" where
  "sched_tmu_cb ch sch_cycl jitter arg s =
    (if tmu_mask (m_tmu s) ch \<noteq> 0
     then let tcnt = read_TMU_TCNTch ch s
       in if sint tcnt < 0 then bindM (reloadCounter ch tcnt) (\<lambda>_. returnM 0) s
          else bindM (write_TMU_TCNTch ch tcnt) (\<lambda>_. returnM 0) s
     else Ret 0 s)"

text \<open>
  Reset, registration with the scheduler (\<open>cb\<close> is the number of the callback) and end. The
  register array of the module is cleared first.
\<close>

definition tmu_reset :: "('d, unit) SM" where
  "tmu_reset s =
    (let s1 = m_p4_update (\<lambda>p. p(TMU := (\<lambda>_. 0))) (m_tmu_update (\<lambda>t. t\<lparr>TMU_TSTR := 0, TMU_TCR := (\<lambda>_. 0),
           tmu_shift := (\<lambda>_. 0), tmu_mask := (\<lambda>_. 0), old_mode := (\<lambda>_. 0xFFFFFFFF),
           tmu_ch_base := (\<lambda>_. 0), TMU_TCOR := (\<lambda>_. 0xFFFFFFFF)\<rparr>) s)
     in bindM (UpdateTMUCounts 0) (\<lambda>_. bindM (UpdateTMUCounts 1) (\<lambda>_. bindM (UpdateTMUCounts 2) (\<lambda>_.
        bindM (write_TMU_TSTR 0 0) (\<lambda>_. bindM (write_TMU_TCNTch 0 0xFFFFFFFF) (\<lambda>_.
        bindM (write_TMU_TCNTch 1 0xFFFFFFFF) (\<lambda>_. write_TMU_TCNTch 2 0xFFFFFFFF)))))) s1)"

definition tmu_register :: "nat \<Rightarrow> nat \<Rightarrow> 'd machine \<Rightarrow> 'd machine" where
  "tmu_register cb ch s =
    (case sh4_sched_register (of_nat ch) (Some cb) 0 s of
       (i, s') \<Rightarrow> m_tmu_update (tmu_sched_update (\<lambda>t. t(ch := int i))) s')"

definition tmu_init :: "nat \<Rightarrow> ('d, unit) SM" where
  "tmu_init cb s = tmu_reset (tmu_register cb 2 (tmu_register cb 1 (tmu_register cb 0 s)))"

definition tmu_unregister :: "nat \<Rightarrow> ('d, unit) SM" where
  "tmu_unregister ch s = bindM (sh4_sched_unregister (tmu_sched (m_tmu s) ch))
     (\<lambda>_. modifyM (m_tmu_update (tmu_sched_update (\<lambda>t. t(ch := -1))))) s"

definition tmu_term :: "('d, unit) SM" where
  "tmu_term = bindM (tmu_unregister 0) (\<lambda>_. bindM (tmu_unregister 1) (\<lambda>_. tmu_unregister 2))"

section \<open>Every operation returns\<close>

text \<open>
  The scheduler accepts every request of the timers, so the operations are functions on the
  machine: \<open>set_count\<close> is what \<^verbatim>\<open>write_TMU_TCNTch\<close> does to it.
\<close>

definition tick_cycles :: "nat \<Rightarrow> 'd machine \<Rightarrow> u32" where
  "tick_cycles ch s = (if tmu_mask (m_tmu s) ch \<noteq> 0 then chan_cycles ch s else sched_none)"

definition arm :: "nat \<Rightarrow> 'd machine \<Rightarrow> 'd machine" where
  "arm ch s = sh4_sched_ffts (upd_sched (nat (tmu_sched (m_tmu s) ch))
     (request_entry (sh4_sched_now s) (tick_cycles ch s)) s)"

definition set_count :: "nat \<Rightarrow> u64 \<Rightarrow> 'd machine \<Rightarrow> 'd machine" where
  "set_count ch data s = arm ch (m_tmu_update (tmu_ch_base_update (\<lambda>b. b(ch :=
     data + (drop_bit (unat (tmu_shift (m_tmu s) ch)) (tmu_now s) AND tmu_mask (m_tmu s) ch)))) s)"

lemma chan_cycles_range: "0 \<le> sint (chan_cycles ch s)" "sint (chan_cycles ch s) \<le> 200000000"
proof -
  define v where "v = clamp (sint (push_bit (unat (tmu_shift (m_tmu s) ch)) (read_TMU_TCNTch ch s))) 0 200000000"
  have v: "0 \<le> v" "v \<le> 200000000" by (simp_all add: v_def clamp_def)
  have "sint (word_of_int v :: u32) = v"
    using v by (simp add: signed_of_int signed_take_bit_int_eq_self)
  with v show "0 \<le> sint (chan_cycles ch s)" "sint (chan_cycles ch s) \<le> 200000000"
    by (simp_all add: chan_cycles_def v_def [symmetric])
qed

lemma sched_chan_tick_Ret: "sched_chan_tick ch s = Ret () (arm ch s)"
proof -
  have "tick_cycles ch s = sched_none \<or> 0 \<le> sint (tick_cycles ch s) \<and>
      sint (tick_cycles ch s) \<le> sint SH4_MAIN_CLOCK"
    using chan_cycles_range [of ch s] by (simp add: tick_cycles_def)
  note r = request_valid [OF this]
  show ?thesis
  proof (cases "tmu_mask (m_tmu s) ch = 0")
    case True
    then show ?thesis using r by (simp add: sched_chan_tick_def arm_def tick_cycles_def)
  next
    case False
    then show ?thesis using r by (simp add: sched_chan_tick_def arm_def tick_cycles_def)
  qed
qed

lemma write_TMU_TCNTch_Ret: "write_TMU_TCNTch ch data s = Ret () (set_count ch data s)"
  by (simp add: write_TMU_TCNTch_def set_count_def sched_chan_tick_Ret)

section \<open>Counts\<close>

lemma arm_frame [simp]:
  "m_tmu (arm ch s) = m_tmu s" "m_intc (arm ch s) = m_intc s"
  "sh4_sched_now64 (arm ch s) = sh4_sched_now64 s"
  "ctx_cycle_counter (m_ctx (arm ch s)) = ctx_cycle_counter (m_ctx s)"
  "ctx_sr (m_ctx (arm ch s)) = ctx_sr (m_ctx s)"
  "ctx_status (m_ctx (arm ch s)) = ctx_status (m_ctx s)"
  "ctx_interrupt_pend (m_ctx (arm ch s)) = ctx_interrupt_pend (m_ctx s)"
  "tmu_now (arm ch s) = tmu_now s"
  by (simp_all add: arm_def tmu_now_def)
    (simp_all add: sh4_sched_ffts_def upd_sched_def on_ctx_def ctx_status_def split: prod.split)

lemma tmu_now_update [simp]: "tmu_now (m_tmu_update f s) = tmu_now s"
  by (simp add: tmu_now_def sh4_sched_now64_def)

lemma set_count_frame [simp]:
  "m_intc (set_count ch d s) = m_intc s"
  "ctx_sr (m_ctx (set_count ch d s)) = ctx_sr (m_ctx s)"
  "ctx_status (m_ctx (set_count ch d s)) = ctx_status (m_ctx s)"
  "ctx_interrupt_pend (m_ctx (set_count ch d s)) = ctx_interrupt_pend (m_ctx s)"
  "tmu_now (set_count ch d s) = tmu_now s"
  "TMU_TCR (m_tmu (set_count ch d s)) = TMU_TCR (m_tmu s)"
  "TMU_TCOR (m_tmu (set_count ch d s)) = TMU_TCOR (m_tmu s)"
  "TMU_TSTR (m_tmu (set_count ch d s)) = TMU_TSTR (m_tmu s)"
  "tmu_mask (m_tmu (set_count ch d s)) = tmu_mask (m_tmu s)"
  "tmu_shift (m_tmu (set_count ch d s)) = tmu_shift (m_tmu s)"
  "old_mode (m_tmu (set_count ch d s)) = old_mode (m_tmu s)"
  "tmu_sched (m_tmu (set_count ch d s)) = tmu_sched (m_tmu s)"
  by (simp_all add: set_count_def)

lemma read_set_count [simp]:
  "read_TMU_TCNTch ch (set_count ch d s) = d"
  "c \<noteq> ch \<Longrightarrow> read_TMU_TCNTch c (set_count ch d s) = read_TMU_TCNTch c s"
  by (simp_all add: read_TMU_TCNTch_def set_count_def)

lemma read_cong:
  "tmu_ch_base (m_tmu s') ch = tmu_ch_base (m_tmu s) ch \<Longrightarrow> tmu_shift (m_tmu s') ch = tmu_shift (m_tmu s) ch \<Longrightarrow>
   tmu_mask (m_tmu s') ch = tmu_mask (m_tmu s) ch \<Longrightarrow> tmu_now s' = tmu_now s \<Longrightarrow>
   read_TMU_TCNTch ch s' = read_TMU_TCNTch ch s"
  by (simp add: read_TMU_TCNTch_def)

section \<open>Interrupt lines\<close>

text \<open>
  \<open>chan_lines\<close>: what \<^verbatim>\<open>UpdateTMUCounts\<close> does to the lines of the channel. \<open>line_ok\<close>: the line
  is pending iff the underflow flag is set, and enabled iff the flag \<open>UNIE\<close> is.
\<close>

definition chan_lines :: "nat \<Rightarrow> 'd machine \<Rightarrow> 'd machine" where
  "chan_lines ch s = InterruptMask (tmu_intID ch) (TMU_TCR (m_tmu s) ch AND tmu_UNIE \<noteq> 0)
     (InterruptPend (tmu_intID ch) (TMU_TCR (m_tmu s) ch AND tmu_underflow \<noteq> 0) s)"

definition line_ok :: "nat \<Rightarrow> 'd machine \<Rightarrow> bool" where
  "line_ok ch s \<longleftrightarrow>
     (src_pending (m_intc s) (tmu_intID ch) \<longleftrightarrow> TMU_TCR (m_tmu s) ch AND tmu_underflow \<noteq> 0) \<and>
     (src_enabled (m_intc s) (tmu_intID ch) \<longleftrightarrow> TMU_TCR (m_tmu s) ch AND tmu_UNIE \<noteq> 0)"

definition intc_ok :: "'d machine \<Rightarrow> bool" where
  "intc_ok s \<longleftrightarrow> intc_inv s \<and> sr_decoded s"

lemma intc_ok_cong:
  "m_intc s' = m_intc s \<Longrightarrow> ctx_status (m_ctx s') = ctx_status (m_ctx s) \<Longrightarrow>
   ctx_interrupt_pend (m_ctx s') = ctx_interrupt_pend (m_ctx s) \<Longrightarrow> intc_ok s' = intc_ok s"
  by (simp add: intc_ok_def intc_inv_def sr_decoded_def)

lemma intc_ok_frame [simp]:
  "intc_ok (set_count ch d s) = intc_ok s" "intc_ok (m_tmu_update f s) = intc_ok s"
  by (rule intc_ok_cong; simp)+

lemma line_ok_cong:
  "m_intc s' = m_intc s \<Longrightarrow> TMU_TCR (m_tmu s') ch = TMU_TCR (m_tmu s) ch \<Longrightarrow> line_ok ch s' = line_ok ch s"
  by (simp add: line_ok_def)

lemma line_ok_frame [simp]:
  "line_ok c (set_count ch d s) = line_ok c s"
  by (rule line_ok_cong) simp_all

lemma chan_lines_frame [simp]:
  "m_tmu (chan_lines ch s) = m_tmu s"
  "tmu_now (chan_lines ch s) = tmu_now s"
  "read_TMU_TCNTch c (chan_lines ch s) = read_TMU_TCNTch c s"
  by (simp_all add: chan_lines_def tmu_now_def sh4_sched_now64_def read_TMU_TCNTch_def)

lemma tmu_intID_inj [simp]: "tmu_intID c = tmu_intID ch \<longleftrightarrow> c = ch"
  by (simp add: tmu_intID_def)

lemma tmu_intID_less: "ch < 3 \<Longrightarrow> tmu_intID ch < sh4_INT_ID_COUNT"
  by (simp add: tmu_intID_def)

lemma chan_lines_ok:
  assumes "intc_ok s" "ch < 3"
  shows "intc_ok (chan_lines ch s)" "line_ok ch (chan_lines ch s)"
    "c < 3 \<Longrightarrow> c \<noteq> ch \<Longrightarrow> line_ok c (chan_lines ch s) \<longleftrightarrow> line_ok c s"
  using assms tmu_intID_less [OF assms(2)] tmu_intID_less [of c]
  by (simp_all add: chan_lines_def intc_ok_def line_ok_def InterruptPend_inv InterruptMask_inv)

text \<open>\<open>set_mode\<close>: the change of the prescaler when the mode of the channel changes.\<close>

definition set_mode :: "nat \<Rightarrow> 'd machine \<Rightarrow> 'd machine" where
  "set_mode ch s = (let mode = TMU_TCR (m_tmu s) ch AND 7 in
     m_tmu_update (tmu_shift_update (\<lambda>f. f(ch := mode_shift mode (f ch))))
       (m_tmu_update (old_mode_update (\<lambda>m. m(ch := ucast mode))) s))"

definition update_counts :: "nat \<Rightarrow> 'd machine \<Rightarrow> 'd machine" where
  "update_counts ch s =
     (if old_mode (m_tmu s) ch = ucast (TMU_TCR (m_tmu s) ch AND 7) then chan_lines ch s
      else set_count ch (read_TMU_TCNTch ch s) (set_mode ch (chan_lines ch s)))"

lemma UpdateTMUCounts_Ret: "UpdateTMUCounts ch s = Ret () (update_counts ch s)"
proof -
  let ?t = "TMU_TCR (m_tmu s) ch"
  have l: "InterruptMask (tmu_intID ch) (?t AND tmu_UNIE \<noteq> 0) (InterruptPend (tmu_intID ch) (?t AND tmu_underflow \<noteq> 0) s)
      = chan_lines ch s" by (simp add: chan_lines_def)
  have r: "read_TMU_TCNTch ch (m_tmu_update (old_mode_update f) (chan_lines ch s)) = read_TMU_TCNTch ch s" for f
    by (rule read_cong) simp_all
  show ?thesis
    by (simp add: UpdateTMUCounts_def Let_def l r write_TMU_TCNTch_Ret update_counts_def set_mode_def)
qed

lemma set_mode_frame [simp]:
  "m_intc (set_mode ch s) = m_intc s" "m_ctx (set_mode ch s) = m_ctx s"
  "tmu_now (set_mode ch s) = tmu_now s"
  "TMU_TCR (m_tmu (set_mode ch s)) = TMU_TCR (m_tmu s)"
  "TMU_TCOR (m_tmu (set_mode ch s)) = TMU_TCOR (m_tmu s)"
  "TMU_TSTR (m_tmu (set_mode ch s)) = TMU_TSTR (m_tmu s)"
  "tmu_mask (m_tmu (set_mode ch s)) = tmu_mask (m_tmu s)"
  "tmu_sched (m_tmu (set_mode ch s)) = tmu_sched (m_tmu s)"
  "c \<noteq> ch \<Longrightarrow> read_TMU_TCNTch c (set_mode ch s) = read_TMU_TCNTch c s"
  "intc_ok (set_mode ch s) = intc_ok s"
  "line_ok c (set_mode ch s) = line_ok c s"
  by (simp_all add: set_mode_def Let_def read_TMU_TCNTch_def line_ok_def)

lemma update_counts_frame [simp]:
  "TMU_TCR (m_tmu (update_counts ch s)) = TMU_TCR (m_tmu s)"
  "TMU_TCOR (m_tmu (update_counts ch s)) = TMU_TCOR (m_tmu s)"
  "TMU_TSTR (m_tmu (update_counts ch s)) = TMU_TSTR (m_tmu s)"
  "tmu_mask (m_tmu (update_counts ch s)) = tmu_mask (m_tmu s)"
  "tmu_sched (m_tmu (update_counts ch s)) = tmu_sched (m_tmu s)"
  "tmu_now (update_counts ch s) = tmu_now s"
  "read_TMU_TCNTch c (update_counts ch s) = read_TMU_TCNTch c s"
  by (cases "c = ch"; simp add: update_counts_def)+

lemma update_counts_ok:
  assumes "intc_ok s" "ch < 3"
  shows "intc_ok (update_counts ch s)" "line_ok ch (update_counts ch s)"
    "c < 3 \<Longrightarrow> c \<noteq> ch \<Longrightarrow> line_ok c (update_counts ch s) \<longleftrightarrow> line_ok c s"
  using assms by (simp_all add: update_counts_def chan_lines_ok)

section \<open>Start and stop\<close>

definition set_on :: "nat \<Rightarrow> bool \<Rightarrow> 'd machine \<Rightarrow> 'd machine" where
  "set_on ch on s = set_count ch (read_TMU_TCNTch ch s)
     (m_tmu_update (tmu_mask_update (\<lambda>m. m(ch := if on then - 1 else 0))) s)"

lemma turn_on_off_ch_Ret: "turn_on_off_ch ch on s = Ret () (set_on ch on s)"
proof -
  have "(0xFFFFFFFFFFFFFFFF :: u64) = - 1" by simp
  then show ?thesis
    unfolding turn_on_off_ch_def Let_def set_on_def by (simp only: write_TMU_TCNTch_Ret)
qed

lemma set_on_frame [simp]:
  "m_intc (set_on ch on s) = m_intc s"
  "tmu_now (set_on ch on s) = tmu_now s"
  "TMU_TCR (m_tmu (set_on ch on s)) = TMU_TCR (m_tmu s)"
  "TMU_TCOR (m_tmu (set_on ch on s)) = TMU_TCOR (m_tmu s)"
  "TMU_TSTR (m_tmu (set_on ch on s)) = TMU_TSTR (m_tmu s)"
  "tmu_shift (m_tmu (set_on ch on s)) = tmu_shift (m_tmu s)"
  "tmu_mask (m_tmu (set_on ch on s)) = (tmu_mask (m_tmu s))(ch := if on then - 1 else 0)"
  "intc_ok (set_on ch on s) = intc_ok s" "line_ok c (set_on ch on s) = line_ok c s"
  by (simp_all add: set_on_def line_ok_def)

lemma read_set_on [simp]: "read_TMU_TCNTch c (set_on ch on s) = read_TMU_TCNTch c s"
proof (cases "c = ch")
  case False
  then have "read_TMU_TCNTch c (set_on ch on s) =
      read_TMU_TCNTch c (m_tmu_update (tmu_mask_update (\<lambda>m. m(ch := if on then - 1 else 0))) s)"
    by (simp add: set_on_def)
  also have "\<dots> = read_TMU_TCNTch c s" by (rule read_cong) (use False in simp_all)
  finally show ?thesis .
qed (simp add: set_on_def)

lemma write_TMU_TSTR_Ret:
  "write_TMU_TSTR a d s = Ret () (set_on 2 (bit d 2) (set_on 1 (bit d 1) (set_on 0 (bit d 0)
     (m_tmu_update (TMU_TSTR_update (\<lambda>_. d AND 7)) s))))"
  by (simp add: write_TMU_TSTR_def turn_on_off_ch_Ret)

lemma TMU_TCR_write_Ret:
  "TMU_TCR_write ch a d s = Ret () (update_counts ch
     (upd_TCR ch (\<lambda>_. if ch = 2 then d AND 0x03ff else d AND 0x013f) s))"
  unfolding TMU_TCR_write_def by (rule UpdateTMUCounts_Ret)

lemma read_upd [simp]:
  "read_TMU_TCNTch c (upd_TCR ch f s) = read_TMU_TCNTch c s"
  "read_TMU_TCNTch c (m_tmu_update (TMU_TSTR_update g) s) = read_TMU_TCNTch c s"
  "read_TMU_TCNTch c (InterruptPend k v s) = read_TMU_TCNTch c s"
  by (rule read_cong; simp add: upd_TCR_def tmu_now_def sh4_sched_now64_def)+

section \<open>Underflow\<close>

definition reloaded :: "nat \<Rightarrow> u64 \<Rightarrow> 'd machine \<Rightarrow> 'd machine" where
  "reloaded ch v s = (let s' = InterruptPend (tmu_intID ch) True (upd_TCR ch (\<lambda>r. r OR tmu_underflow) s)
     in set_count ch (reload_value ch v s) s')"

lemma reload_value_frame [simp]:
  "reload_value ch v (InterruptPend k b s) = reload_value ch v s"
  "reload_value ch v (upd_TCR c f s) = reload_value ch v s"
  by (simp_all add: reload_value_def upd_TCR_def)

lemma reloadCounter_Ret:
  "reloadCounter ch v s = Ret (ucast (reload_value ch v s)) (reloaded ch v s)"
  by (simp add: reloadCounter_def Let_def write_TMU_TCNTch_Ret reloaded_def)

lemma reloaded_frame [simp]:
  "tmu_now (reloaded ch v s) = tmu_now s"
  "TMU_TCR (m_tmu (reloaded ch v s)) = (TMU_TCR (m_tmu s))(ch := TMU_TCR (m_tmu s) ch OR tmu_underflow)"
  "TMU_TCOR (m_tmu (reloaded ch v s)) = TMU_TCOR (m_tmu s)"
  "TMU_TSTR (m_tmu (reloaded ch v s)) = TMU_TSTR (m_tmu s)"
  "tmu_mask (m_tmu (reloaded ch v s)) = tmu_mask (m_tmu s)"
  "read_TMU_TCNTch ch (reloaded ch v s) = reload_value ch v s"
  "c \<noteq> ch \<Longrightarrow> read_TMU_TCNTch c (reloaded ch v s) = read_TMU_TCNTch c s"
  by (simp_all add: reloaded_def Let_def)
    (simp_all add: upd_TCR_def tmu_now_def sh4_sched_now64_def)

lemma or_underflow: "(x OR tmu_underflow) AND tmu_underflow \<noteq> 0" "(x OR tmu_underflow) AND tmu_UNIE = x AND tmu_UNIE"
proof -
  have "(x OR tmu_underflow) AND tmu_underflow = tmu_underflow" by (simp add: word_ao_dist word_ao_absorbs)
  then show "(x OR tmu_underflow) AND tmu_underflow \<noteq> 0" by simp
  show "(x OR tmu_underflow) AND tmu_UNIE = x AND tmu_UNIE" by (simp add: word_ao_dist)
qed

lemma reloaded_ok:
  assumes "intc_ok s" "ch < 3"
  shows "intc_ok (reloaded ch v s)" "src_pending (m_intc (reloaded ch v s)) (tmu_intID ch)"
    "c < 3 \<Longrightarrow> line_ok c s \<Longrightarrow> line_ok c (reloaded ch v s)"
proof -
  let ?s1 = "upd_TCR ch (\<lambda>r. r OR tmu_underflow) s"
  have ok: "intc_inv ?s1" "sr_decoded ?s1"
    using assms(1) by (simp_all add: upd_TCR_def intc_ok_def intc_inv_def sr_decoded_def)
  note p = InterruptPend_inv [OF ok tmu_intID_less [OF assms(2)]]
  show "intc_ok (reloaded ch v s)" "src_pending (m_intc (reloaded ch v s)) (tmu_intID ch)"
    using p tmu_intID_less [OF assms(2)] by (simp_all add: reloaded_def Let_def intc_ok_def)
      (simp_all add: intc_inv_def sr_decoded_def)
  show "line_ok c (reloaded ch v s)" if "c < 3" "line_ok c s"
    using that p tmu_intID_less [of c] or_underflow
    by (simp add: reloaded_def Let_def line_ok_def) (auto simp: upd_TCR_def)
qed

section \<open>The steps of the unit and of its surroundings\<close>

text \<open>
  One step: the program accesses a register of the unit, the scheduler calls back, time
  passes (the clock of the scheduler and the cycle counter change) or another device drives its own line.
\<close>

inductive tmu_step :: "'d machine \<Rightarrow> 'd machine \<Rightarrow> bool" where
  read_TCNT: "ch < 3 \<Longrightarrow> read_TMU_TCNT ch a s = Ret v s' \<Longrightarrow> tmu_step s s'"
| write_TCNT: "ch < 3 \<Longrightarrow> write_TMU_TCNT ch a d s = Ret () s' \<Longrightarrow> tmu_step s s'"
| write_TCR: "ch < 3 \<Longrightarrow> TMU_TCR_write ch a w s = Ret () s' \<Longrightarrow> tmu_step s s'"
| write_TCOR: "tmu_step s (m_tmu_update (TMU_TCOR_update (\<lambda>r. r(ch := d))) s)"
| write_TSTR: "write_TMU_TSTR a b s = Ret () s' \<Longrightarrow> tmu_step s s'"
| callback: "ch < 3 \<Longrightarrow> sched_tmu_cb ch c j arg s = Ret v s' \<Longrightarrow> tmu_step s s'"
| clock: "tmu_step s (m_sched_update f (m_ctx_update
     (\<lambda>c. c\<lparr>ctx_cycle_counter := n, ctx_sh4_sched_next := m\<rparr>) s))"
| other_line: "k < sh4_INT_ID_COUNT \<Longrightarrow> k \<notin> tmu_intID ` {..<3} \<Longrightarrow> tmu_step s (InterruptPend k l s)"
| other_mask: "k < sh4_INT_ID_COUNT \<Longrightarrow> k \<notin> tmu_intID ` {..<3} \<Longrightarrow> tmu_step s (InterruptMask k l s)"

definition TCR_mask :: "nat \<Rightarrow> u16" where
  "TCR_mask ch = (if ch = 2 then 0x03ff else 0x013f)"

definition chan_ok :: "nat \<Rightarrow> 'd machine \<Rightarrow> bool" where
  "chan_ok ch s \<longleftrightarrow> line_ok ch s \<and> TMU_TCR (m_tmu s) ch AND TCR_mask ch = TMU_TCR (m_tmu s) ch \<and>
     tmu_mask (m_tmu s) ch = (if bit (TMU_TSTR (m_tmu s)) ch then - 1 else 0)"

definition tmu_inv :: "'d machine \<Rightarrow> bool" where
  "tmu_inv s \<longleftrightarrow> intc_ok s \<and> (\<forall>ch<3. chan_ok ch s)"

lemma tmu_invI: "intc_ok s \<Longrightarrow> (\<And>ch. ch < 3 \<Longrightarrow> chan_ok ch s) \<Longrightarrow> tmu_inv s"
  by (simp add: tmu_inv_def)

lemma tmu_invD: "tmu_inv s \<Longrightarrow> intc_ok s" "tmu_inv s \<Longrightarrow> ch < 3 \<Longrightarrow> chan_ok ch s"
  by (simp_all add: tmu_inv_def)

lemma TCR_mask_underflow: "x AND TCR_mask ch = x \<Longrightarrow> (x OR tmu_underflow) AND TCR_mask ch = x OR tmu_underflow"
  by (simp add: TCR_mask_def word_ao_dist split: if_splits)

lemma reloaded_inv:
  assumes "tmu_inv s" "ch < 3"
  shows "tmu_inv (reloaded ch v s)"
proof (rule tmu_invI)
  show "intc_ok (reloaded ch v s)" using assms by (simp add: reloaded_ok tmu_invD)
  fix c :: nat assume c: "c < 3"
  from tmu_invD(2) [OF assms(1) this] show "chan_ok c (reloaded ch v s)"
    using reloaded_ok(3) [OF tmu_invD(1) [OF assms(1)] assms(2) c] TCR_mask_underflow
    by (auto simp: chan_ok_def)
qed

lemma set_count_inv: "tmu_inv s \<Longrightarrow> tmu_inv (set_count ch d s)"
  by (simp add: tmu_inv_def chan_ok_def)

lemma update_counts_inv:
  assumes "intc_ok s" "ch < 3" "\<And>c. c < 3 \<Longrightarrow> c \<noteq> ch \<Longrightarrow> chan_ok c s"
    "TMU_TCR (m_tmu s) ch AND TCR_mask ch = TMU_TCR (m_tmu s) ch"
    "tmu_mask (m_tmu s) ch = (if bit (TMU_TSTR (m_tmu s)) ch then - 1 else 0)"
  shows "tmu_inv (update_counts ch s)"
proof (rule tmu_invI)
  show "intc_ok (update_counts ch s)" using assms by (simp add: update_counts_ok)
  fix c :: nat assume c: "c < 3"
  show "chan_ok c (update_counts ch s)"
  proof (cases "c = ch")
    case True
    then show ?thesis using assms by (simp add: chan_ok_def update_counts_ok)
  next
    case False
    then show ?thesis using assms(3) [OF c False] assms(1,2) c by (simp add: chan_ok_def update_counts_ok)
  qed
qed

lemma TCR_write_inv:
  assumes "tmu_inv s" "ch < 3"
  shows "tmu_inv (update_counts ch (upd_TCR ch (\<lambda>_. if ch = 2 then d AND 0x03ff else d AND 0x013f) s))"
proof (rule update_counts_inv)
  show "chan_ok c (upd_TCR ch (\<lambda>_. if ch = 2 then d AND 0x03ff else d AND 0x013f) s)"
    if "c < 3" "c \<noteq> ch" for c
    using tmu_invD(2) [OF assms(1) that(1)] that(2) by (simp add: chan_ok_def line_ok_def upd_TCR_def)
qed (use assms tmu_invD(2) [OF assms] in \<open>simp_all add: upd_TCR_def TCR_mask_def chan_ok_def tmu_inv_def\<close>)

lemma less_3: "(c :: nat) < 3 \<longleftrightarrow> c = 0 \<or> c = 1 \<or> c = 2"
  by auto

lemma TSTR_write_inv:
  assumes ok: "intc_ok s" and tcr: "\<And>c. c < 3 \<Longrightarrow> line_ok c s"
    "\<And>c. c < 3 \<Longrightarrow> TMU_TCR (m_tmu s) c AND TCR_mask c = TMU_TCR (m_tmu s) c"
  shows "tmu_inv (set_on 2 (bit b 2) (set_on 1 (bit b 1) (set_on 0 (bit b 0)
     (m_tmu_update (TMU_TSTR_update (\<lambda>_. b AND 7)) s))))"
proof -
  have l: "line_ok c (m_tmu_update (TMU_TSTR_update g) s) = line_ok c s" for c g
    by (rule line_ok_cong) simp_all
  have "bit (7 :: u8) c" if "c < 3" for c using that by (auto simp: less_3)
  then have b: "bit (b AND 7) c = bit b c" if "c < 3" for c
    using that by (simp add: bit_and_iff)
  show ?thesis
  proof (rule tmu_invI)
    fix c :: nat assume c: "c < 3"
    have "(if bit b c then - 1 else 0) = ((\<lambda>_. 0 :: u64)(0 := if bit b 0 then - 1 else 0, 1 := if bit b 1 then - 1 else 0,
        2 := if bit b 2 then - 1 else 0)) c"
      using c by (auto simp: less_3)
    then show "chan_ok c (set_on 2 (bit b 2) (set_on 1 (bit b 1) (set_on 0 (bit b 0)
        (m_tmu_update (TMU_TSTR_update (\<lambda>_. b AND 7)) s))))"
      using c l tcr [OF c] b [OF c] by (auto simp: chan_ok_def less_3)
  qed (use ok in simp)
qed

lemma clock_inv:
  "tmu_inv s \<Longrightarrow> tmu_inv (m_sched_update f (m_ctx_update
     (\<lambda>c. c\<lparr>ctx_cycle_counter := n, ctx_sh4_sched_next := m\<rparr>) s))"
  by (simp add: tmu_inv_def chan_ok_def line_ok_def intc_ok_def intc_inv_def sr_decoded_def ctx_status_def)

lemma other_inv:
  assumes "tmu_inv s" "k < sh4_INT_ID_COUNT" "k \<notin> tmu_intID ` {..<3}"
  shows "tmu_inv (InterruptPend k l s)" "tmu_inv (InterruptMask k l s)"
proof -
  have ok: "intc_inv s" "sr_decoded s" using assms(1) by (simp_all add: tmu_inv_def intc_ok_def)
  have "tmu_intID c \<noteq> k" "tmu_intID c < sh4_INT_ID_COUNT" if "c < 3" for c
    using that assms(3) tmu_intID_less by auto
  with assms(1) InterruptPend_inv [OF ok assms(2)] InterruptMask_inv [OF ok assms(2)]
  show "tmu_inv (InterruptPend k l s)" "tmu_inv (InterruptMask k l s)"
    by (simp_all add: tmu_inv_def chan_ok_def line_ok_def intc_ok_def)
qed

lemma tmu_step_inv: "tmu_step s s' \<Longrightarrow> tmu_inv s \<Longrightarrow> tmu_inv s'"
proof (induction rule: tmu_step.induct)
  case (write_TSTR a b s s')
  then have "intc_ok s" "\<And>c. c < 3 \<Longrightarrow> line_ok c s"
    "\<And>c. c < 3 \<Longrightarrow> TMU_TCR (m_tmu s) c AND TCR_mask c = TMU_TCR (m_tmu s) c"
    by (auto simp: tmu_inv_def chan_ok_def)
  from TSTR_write_inv [OF this, of b] write_TSTR(1) show ?case by (simp add: write_TMU_TSTR_Ret)
next
  case (write_TCR ch a w s s')
  with TCR_write_inv [OF write_TCR(3,1), of w] show ?case by (simp add: TMU_TCR_write_Ret)
next
  case (write_TCOR s ch d)
  then show ?case by (simp add: tmu_inv_def chan_ok_def line_ok_def)
qed (auto simp: read_TMU_TCNT_def Let_def reloadCounter_Ret reloaded_inv write_TMU_TCNT_def
    write_TMU_TCNTch_Ret set_count_inv TMU_TCR_write_Ret TCR_write_inv sched_tmu_cb_def clock_inv
    other_inv split: if_splits)

lemma tmu_reset_inv:
  assumes "intc_ok s"
  shows "\<exists>s'. tmu_reset s = Ret () s' \<and> tmu_inv s' \<and>
    (\<forall>ch<3. read_TMU_TCNTch ch s' = 0xFFFFFFFF \<and> TMU_TCOR (m_tmu s') ch = 0xFFFFFFFF)"
proof -
  let ?s1 = "m_p4_update (\<lambda>p. p(TMU := (\<lambda>_. 0))) (m_tmu_update (\<lambda>t. t\<lparr>TMU_TSTR := 0, TMU_TCR := (\<lambda>_. 0),
       tmu_shift := (\<lambda>_. 0), tmu_mask := (\<lambda>_. 0), old_mode := (\<lambda>_. 0xFFFFFFFF),
       tmu_ch_base := (\<lambda>_. 0), TMU_TCOR := (\<lambda>_. 0xFFFFFFFF)\<rparr>) s)"
  have ok1: "intc_ok ?s1" using assms by (simp add: intc_ok_def intc_inv_def sr_decoded_def)
  let ?u = "update_counts 2 (update_counts 1 (update_counts 0 ?s1))"
  have u: "intc_ok ?u" "\<And>c. c < 3 \<Longrightarrow> line_ok c ?u" "TMU_TCR (m_tmu ?u) = (\<lambda>_. 0)"
    using ok1 by (auto simp: update_counts_ok less_3)
  let ?w = "set_on 2 False (set_on 1 False (set_on 0 False (m_tmu_update (TMU_TSTR_update (\<lambda>_. 0)) ?u)))"
  let ?x = "set_count 2 0xFFFFFFFF (set_count 1 0xFFFFFFFF (set_count 0 0xFFFFFFFF ?w))"
  have "tmu_inv ?w" using TSTR_write_inv [OF u(1,2), of 0] u(3) by simp
  then have "tmu_inv ?x" by (intro set_count_inv)
  moreover have "tmu_reset s = Ret () ?x"
    by (simp add: tmu_reset_def UpdateTMUCounts_Ret write_TMU_TSTR_Ret write_TMU_TCNTch_Ret)
  moreover have "read_TMU_TCNTch ch ?x = 0xFFFFFFFF \<and> TMU_TCOR (m_tmu ?x) ch = 0xFFFFFFFF" if "ch < 3" for ch
    using that by (auto simp: less_3)
  ultimately show ?thesis by blast
qed

section \<open>Counting\<close>

text \<open>The count \<open>k\<close> cycles later, and the lower bound on it until the wake-up.\<close>

lemma count_later:
  assumes "m_tmu s' = m_tmu s"
  shows "read_TMU_TCNTch ch s' = read_TMU_TCNTch ch s -
    ((drop_bit (unat (tmu_shift (m_tmu s) ch)) (tmu_now s') AND tmu_mask (m_tmu s) ch) -
     (drop_bit (unat (tmu_shift (m_tmu s) ch)) (tmu_now s) AND tmu_mask (m_tmu s) ch))"
  using assms by (simp add: read_TMU_TCNTch_def)

lemma div_add_le: "(k :: nat) \<le> c * d \<Longrightarrow> 0 < d \<Longrightarrow> (n + k) div d \<le> n div d + c"
proof -
  assume "k \<le> c * d" "0 < d"
  then have "(n + k) div d \<le> (n + c * d) div d" by (intro div_le_mono) simp
  then show ?thesis using \<open>0 < d\<close> by simp
qed

lemma drop_bit_u64: "drop_bit n (w :: u64) = of_nat (unat w div 2 ^ n)"
proof -
  have "unat (drop_bit n w) = unat w div 2 ^ n" by (subst unat_drop_bit_eq) (rule drop_bit_eq_div)
  then show ?thesis by (metis of_nat_unat ucast_id)
qed

lemma count_before_wakeup:
  assumes on: "tmu_mask (m_tmu s) ch = - 1" and sh: "tmu_shift (m_tmu s) ch < 31"
    and c: "read_TMU_TCNTch ch s = of_nat c" "c < 2 ^ 32"
    and t: "m_tmu s' = m_tmu s" "unat (tmu_now s') = unat (tmu_now s) + k" "k \<le> unat (chan_cycles ch s)"
  shows "\<exists>d\<le>c. read_TMU_TCNTch ch s' = of_nat (c - d)"
proof -
  let ?sh = "unat (tmu_shift (m_tmu s) ch)"
  have sh': "?sh < 31" using sh by (simp add: word_less_nat_alt)
  have le: "c * 2 ^ ?sh < 2 ^ 63"
  proof -
    have "(2 :: nat) ^ ?sh \<le> 2 ^ 31" using sh' by (intro power_increasing) simp_all
    then have "c * 2 ^ ?sh \<le> c * 2 ^ 31" by (rule mult_le_mono2)
    also have "\<dots> < 2 ^ 63" using c(2) by simp
    finally show ?thesis .
  qed
  have "sint (push_bit ?sh (read_TMU_TCNTch ch s)) = int (c * 2 ^ ?sh)"
  proof -
    have "push_bit ?sh (read_TMU_TCNTch ch s) = (of_nat (c * 2 ^ ?sh) :: u64)"
      by (simp add: c push_bit_eq_mult)
    then show ?thesis using le
      by (simp add: signed_of_nat signed_take_bit_int_eq_self del: of_nat_mult of_nat_power)
  qed
  then have "chan_cycles ch s = word_of_int (min (int (c * 2 ^ ?sh)) 200000000)"
    by (simp add: chan_cycles_def clamp_def min_def del: of_nat_mult of_nat_power)
  then have "int (unat (chan_cycles ch s)) = min (int (c * 2 ^ ?sh)) 200000000"
    by (simp add: unsigned_of_int take_bit_int_eq_self min_def del: of_nat_mult of_nat_power)
  then have k: "k \<le> c * 2 ^ ?sh" using t(3) by linarith
  define q q' where "q = unat (tmu_now s) div 2 ^ ?sh" and "q' = unat (tmu_now s') div 2 ^ ?sh"
  have d: "drop_bit ?sh (tmu_now s) = of_nat q" "drop_bit ?sh (tmu_now s') = of_nat q'"
    by (simp_all add: q_def q'_def drop_bit_u64)
  have le2: "q \<le> q'" "q' \<le> q + c"
    using t(2) div_add_le [OF k, of "unat (tmu_now s)"] by (simp_all add: q_def q'_def div_le_mono)
  have "read_TMU_TCNTch ch s' = of_nat c - (of_nat q' - of_nat q)"
    using count_later [OF t(1), of ch] on by (simp add: d c)
  also have "\<dots> = of_nat (c - (q' - q))"
    using le2 by (simp add: of_nat_diff)
  finally show ?thesis using le2 by (intro exI [of _ "q' - q"]) simp
qed

lemma signed_take_bit_63:
  "- 9223372036854775808 \<le> k \<Longrightarrow> k < 9223372036854775808 \<Longrightarrow> signed_take_bit 63 k = (k :: int)"
  by (simp add: signed_take_bit_int_eq_self)

lemma sint_ucast_u64 [simp]: "sint (ucast (d :: u32) :: u64) = uint d"
proof -
  have "0 \<le> uint d" "uint d < 4294967296" using unsigned_less [of d, where 'a = int] by simp_all
  then have "signed_take_bit 63 (uint d) = uint d" by (intro signed_take_bit_63) linarith+
  then show ?thesis by (simp add: signed_ucast_eq)
qed

lemma sint_reload_value:
  assumes "sint v < 0"
  shows "sint (reload_value ch v s) = max (uint (TMU_TCOR (m_tmu s) ch) + sint v) 0"
proof -
  let ?t = "TMU_TCOR (m_tmu s) ch"
  have t: "sint (ucast ?t :: u64) = uint ?t" "0 \<le> uint ?t" "uint ?t < 4294967296"
    using unsigned_less [of ?t, where 'a = int]
    by simp_all
  have v: "- 9223372036854775808 \<le> sint v" using sint_ge [of v] by simp
  have "signed_take_bit 63 (uint ?t + sint v) = uint ?t + sint v"
    using t(2,3) v assms by (intro signed_take_bit_63) linarith+
  then have "sint (ucast ?t + v) = uint ?t + sint v" by (simp add: sint_word_ariths)
  then show ?thesis by (simp add: reload_value_def Let_def max_def)
qed

lemma callback_underflow:
  assumes "tmu_mask (m_tmu s) ch \<noteq> 0" "sint (read_TMU_TCNTch ch s) < 0"
  shows "sched_tmu_cb ch c j arg s = Ret 0 (reloaded ch (read_TMU_TCNTch ch s) s)"
  using assms by (simp add: sched_tmu_cb_def Let_def reloadCounter_Ret)

lemma GetPrLvl_reloaded [simp]:
  "GetPrLvl (m_intc (reloaded ch v s)) = GetPrLvl (m_intc s)"
  "ctx_status (m_ctx (reloaded ch v s)) = ctx_status (m_ctx s)"
  by (simp_all add: reloaded_def Let_def upd_TCR_def)

section \<open>Properties\<close>

text \<open>C11: From reset on, whatever registers are accessed, however time passes and whatever
  other devices do, the interrupt line of each channel is pending exactly while the channel's
  underflow flag is set and enabled exactly while its interrupt enable flag is, the control
  registers hold only their implemented bits, and a channel counts exactly while its start bit
  is set.\<close>
theorem tmu_lines_invariant:
  assumes "intc_inv s" and "sr_decoded s" and "tmu_reset s = Ret () s1"
    and "tmu_step\<^sup>*\<^sup>* s1 s2" and "ch < 3"
  shows "(src_pending (m_intc s2) (tmu_intID ch) \<longleftrightarrow> TMU_TCR (m_tmu s2) ch AND 0x100 \<noteq> 0) \<and>
    (src_enabled (m_intc s2) (tmu_intID ch) \<longleftrightarrow> TMU_TCR (m_tmu s2) ch AND 0x20 \<noteq> 0) \<and>
    TMU_TCR (m_tmu s2) ch AND (if ch = 2 then 0x3ff else 0x13f) = TMU_TCR (m_tmu s2) ch \<and>
    tmu_mask (m_tmu s2) ch = (if bit (TMU_TSTR (m_tmu s2)) ch then - 1 else 0)"
proof -
  have "tmu_inv s1" using tmu_reset_inv [of s] assms(1-3) by (auto simp: intc_ok_def)
  with assms(4) have "tmu_inv s2"
    by (induction rule: rtranclp_induct) (auto intro: tmu_step_inv)
  from tmu_invD(2) [OF this assms(5)] show ?thesis
    by (simp add: chan_ok_def line_ok_def TCR_mask_def)
qed

lemma TCR_pend_step:
  assumes "tmu_inv s"
  shows "\<exists>s'. tmu_step s s' \<and> TMU_TCR (m_tmu s') 0 = 0x120"
proof -
  let ?s' = "update_counts 0 (upd_TCR 0 (\<lambda>_. 0x120) s)"
  have "TMU_TCR_write 0 0 0x120 s = Ret () ?s'" by (simp add: TMU_TCR_write_Ret)
  then have "tmu_step s ?s'" by (intro tmu_step.write_TCR [of 0]) simp_all
  then show ?thesis by (intro exI [of _ ?s']) (simp add: upd_TCR_def)
qed

theorem tmu_lines_invariant_witness:
  "\<exists>s2 :: unit machine. src_pending (m_intc s2) (tmu_intID 0) \<and> src_enabled (m_intc s2) (tmu_intID 0)"
proof -
  let ?s = "interrupts_reset (zero_machine ())"
  obtain s1 where s1: "tmu_reset ?s = Ret () s1" "tmu_inv s1"
    using tmu_reset_inv [of ?s] by (auto simp: intc_ok_def interrupts_reset_inv)
  obtain s2 where s2: "tmu_step s1 s2" "TMU_TCR (m_tmu s2) 0 = 0x120" using TCR_pend_step [OF s1(2)] by auto
  show ?thesis
    using tmu_lines_invariant [OF interrupts_reset_inv(1,2) s1(1) r_into_rtranclp [of tmu_step, OF s2(1)], of 0]
    by (intro exI [of _ s2]) (simp add: s2(2))
qed

text \<open>C32: A count written to a channel is read back and the counts of the other channels stay;
  changing the mode of a channel, or starting and stopping channels, disturbs no count.\<close>
theorem tmu_counts_kept:
  "\<exists>s1 s2 s3. write_TMU_TCNT ch a d s = Ret () s1 \<and> read_TMU_TCNT ch b s1 = Ret d s1 \<and>
     (\<lambda>c. read_TMU_TCNTch c s1) = (\<lambda>c. read_TMU_TCNTch c s)(ch := ucast d) \<and>
     TMU_TCR_write ch a w s = Ret () s2 \<and> (\<lambda>c. read_TMU_TCNTch c s2) = (\<lambda>c. read_TMU_TCNTch c s) \<and>
     write_TMU_TSTR a v s = Ret () s3 \<and> (\<lambda>c. read_TMU_TCNTch c s3) = (\<lambda>c. read_TMU_TCNTch c s)"
proof -
  have nn: "\<not> sint (ucast d :: u64) < 0" by simp
  have "ucast (ucast d :: u64) = d" 
    by (rule bit_word_eqI) (simp add: bit_simps)
  with nn have "read_TMU_TCNT ch b (set_count ch (ucast d) s) = Ret d (set_count ch (ucast d) s)"
    by (simp add: read_TMU_TCNT_def)
  then show ?thesis
    by (simp add: write_TMU_TCNT_def write_TMU_TCNTch_Ret TMU_TCR_write_Ret write_TMU_TSTR_Ret fun_eq_iff)
qed

text \<open>C13: No underflow comes before the wake-up that the channel has asked the scheduler for:
  a running channel whose count is \<open>c\<close> is still at or above zero after any number of cycles
  up to the requested one.\<close>
theorem tmu_no_early_underflow:
  assumes "tmu_mask (m_tmu s) ch = - 1" and "tmu_shift (m_tmu s) ch < 31"
    and "read_TMU_TCNTch ch s = of_nat c" and "c < 2 ^ 32"
    and "m_tmu s' = m_tmu s" and "unat (tmu_now s') = unat (tmu_now s) + k"
    and "k \<le> unat (chan_cycles ch s)"
  shows "0 \<le> sint (read_TMU_TCNTch ch s') \<and> sint (read_TMU_TCNTch ch s') \<le> int c"
proof -
  obtain d where d: "read_TMU_TCNTch ch s' = of_nat (c - d)"
    using count_before_wakeup [OF assms] by auto
  have "sint (of_nat (c - d) :: u64) = int (c - d)"
    using assms(4) by (simp add: signed_of_nat signed_take_bit_int_eq_self del: of_nat_diff)
  then show ?thesis by (simp add: d del: of_nat_diff)
qed

definition tmu_witness :: "u32 \<Rightarrow> unit machine" where
  "tmu_witness n = m_ctx_update (ctx_cycle_counter_update (\<lambda>_. n))
     (m_tmu_update (\<lambda>t. t\<lparr>tmu_mask := (\<lambda>_. - 1), tmu_shift := (\<lambda>_. 4), tmu_ch_base := (\<lambda>_. 100)\<rparr>)
       (zero_machine ()))"

lemma tmu_witness_simps:
  "tmu_now (tmu_witness 0) = 448" "tmu_now (tmu_witness (- 1152)) = 1600"
  "tmu_mask (m_tmu (tmu_witness n)) ch = - 1" "tmu_shift (m_tmu (tmu_witness n)) ch = 4"
  "tmu_ch_base (m_tmu (tmu_witness n)) ch = 100"
  by (simp_all add: tmu_witness_def tmu_now_def sh4_sched_now64_def zero_machine_def zero_ctx_def)

lemma tmu_witness_same: "m_tmu (tmu_witness n) = m_tmu (tmu_witness 0)"
  by (simp add: tmu_witness_def)

theorem tmu_no_early_underflow_witness:
  "0 \<le> sint (read_TMU_TCNTch 0 (tmu_witness (- 1152)))"
proof -
  have r: "read_TMU_TCNTch 0 (tmu_witness 0) = of_nat 72"
    by (simp add: read_TMU_TCNTch_def tmu_witness_simps)
  have "chan_cycles 0 (tmu_witness 0) = 1152"
    by (simp add: chan_cycles_def r clamp_def) (simp add: tmu_witness_simps)
  then show ?thesis
    using tmu_no_early_underflow [of "tmu_witness 0" 0, OF _ _ r _ tmu_witness_same, of "- 1152" 1152]
    by (simp add: tmu_witness_simps)
qed

text \<open>C14: When the scheduler calls back after the count of a running channel has gone below
  zero, the underflow flag is set, the line is pending, the count continues from the reload
  value less what has passed since (from zero if that is negative), the other channels are as they were, and the CPU
  can be interrupted by it exactly if the channel's interrupt is enabled, interrupts are not
  blocked and the channel's priority is above the interrupt mask.\<close>
theorem tmu_underflow_reload:
  assumes "tmu_inv s" and "ch < 3" and "bit (TMU_TSTR (m_tmu s)) ch" and "sint (read_TMU_TCNTch ch s) < 0"
  shows "\<exists>s'. sched_tmu_cb ch c j arg s = Ret 0 s' \<and> TMU_TCR (m_tmu s') ch AND 0x100 \<noteq> 0 \<and>
    sint (read_TMU_TCNTch ch s') = max (uint (TMU_TCOR (m_tmu s) ch) + sint (read_TMU_TCNTch ch s)) 0 \<and>
    (\<lambda>c. read_TMU_TCNTch c s')(ch := 0) = (\<lambda>c. read_TMU_TCNTch c s)(ch := 0) \<and>
    (interruptible s' (tmu_intID ch) \<longleftrightarrow> TMU_TCR (m_tmu s) ch AND 0x20 \<noteq> 0 \<and>
       st_BL (ctx_status (m_ctx s)) = 0 \<and>
       unat (st_IMASK (ctx_status (m_ctx s))) < GetPrLvl (m_intc s) (tmu_intID ch))"
proof -
  let ?v = "read_TMU_TCNTch ch s"
  let ?s' = "reloaded ch ?v s"
  have ok: "intc_ok s" "chan_ok ch s" using assms(1,2) by (simp_all add: tmu_invD)
  then have "tmu_mask (m_tmu s) ch \<noteq> 0" using assms(3) by (simp add: chan_ok_def)
  note cb = callback_underflow [OF this assms(4)]
  have l: "line_ok ch ?s'" "src_pending (m_intc ?s') (tmu_intID ch)"
    using reloaded_ok [OF ok(1) assms(2)] ok(2) assms(2) by (auto simp: chan_ok_def)
  then have "src_enabled (m_intc ?s') (tmu_intID ch) \<longleftrightarrow> TMU_TCR (m_tmu s) ch AND 0x20 \<noteq> 0"
    by (simp add: line_ok_def or_underflow)
  with l have "interruptible ?s' (tmu_intID ch) \<longleftrightarrow> TMU_TCR (m_tmu s) ch AND 0x20 \<noteq> 0 \<and>
       st_BL (ctx_status (m_ctx s)) = 0 \<and>
       unat (st_IMASK (ctx_status (m_ctx s))) < GetPrLvl (m_intc s) (tmu_intID ch)"
    using tmu_intID_less [OF assms(2)] by (simp add: interruptible_def)
  then show ?thesis
    using cb sint_reload_value [OF assms(4)] or_underflow(1)
    by (intro exI [of _ ?s']) (simp add: fun_eq_iff)
qed

lemma tmu_witness2: "\<exists>s :: unit machine. tmu_inv s \<and> bit (TMU_TSTR (m_tmu s)) 0 \<and>
  read_TMU_TCNTch 0 s = - 5 \<and> TMU_TCOR (m_tmu s) 0 = 0xFFFFFFFF"
proof -
  let ?s = "interrupts_reset (zero_machine ())"
  obtain s1 where s1: "tmu_reset ?s = Ret () s1" "tmu_inv s1"
    "\<And>ch. ch < 3 \<Longrightarrow> TMU_TCOR (m_tmu s1) ch = 0xFFFFFFFF"
    using tmu_reset_inv [of ?s] by (auto simp: intc_ok_def interrupts_reset_inv)
  obtain s2 where s2: "write_TMU_TSTR 0 1 s1 = Ret () s2" "TMU_TCOR (m_tmu s2) = TMU_TCOR (m_tmu s1)"
    "TMU_TSTR (m_tmu s2) = 1" by (simp add: write_TMU_TSTR_Ret)
  have "tmu_inv s2" by (rule tmu_step_inv [OF tmu_step.write_TSTR [OF s2(1)] s1(2)])
  then have "tmu_inv (set_count 0 (- 5) s2)" by (rule set_count_inv)
  with s1(3) [of 0] s2(2,3) show ?thesis by (intro exI [of _ "set_count 0 (- 5) s2"]) simp
qed

theorem tmu_underflow_reload_witness:
  "\<exists>s s' :: unit machine. sched_tmu_cb 0 0 0 0 s = Ret 0 s' \<and> sint (read_TMU_TCNTch 0 s') = 4294967290"
proof -
  obtain s :: "unit machine" where s: "tmu_inv s" "bit (TMU_TSTR (m_tmu s)) 0" "read_TMU_TCNTch 0 s = - 5"
    "TMU_TCOR (m_tmu s) 0 = 0xFFFFFFFF" using tmu_witness2 by auto
  have "(0 :: nat) < 3" "sint (read_TMU_TCNTch 0 s) < 0" by (simp_all add: s(3))
  from tmu_underflow_reload [OF s(1) this(1) s(2) this(2), of 0 0 0] show ?thesis
    by (auto simp: s)
qed

end
