(* ===== verification/Dmac.thy ===== *)
theory Dmac
  imports Pvr_Mem
begin

text \<open>
  The DMA controller of the SH4 (\<^verbatim>\<open>hw/sh4/modules/dmac.cpp\<close>) and the DMA channels of the
  graphics chip (\<^verbatim>\<open>hw/pvr/pvr_sb_regs.cpp\<close>): manual transfers, which run to their end inside
  the write of the control register, channel 2 to the tile accelerator, the YUV converter and
  texture memory, the PVR channel, and the sort DMA of the tile accelerator.

  The lemmas show what a manual transfer does to main memory, where the data of a transfer over
  channel 2 arrives and in which state it leaves the channel, and what its error branches leave behind.
\<close>

section \<open>Registers\<close>

definition set_p4 :: "p4_module \<Rightarrow> nat \<Rightarrow> u32 \<Rightarrow> 'd machine \<Rightarrow> 'd machine" where
  "set_p4 m i v = m_p4_update (\<lambda>r. r(m := (r m)(i := v)))"

definition DMAC_SAR :: "nat \<Rightarrow> 'd machine \<Rightarrow> u32" where "DMAC_SAR ch s = m_p4 s DMAC (4 * ch)"
definition DMAC_DAR :: "nat \<Rightarrow> 'd machine \<Rightarrow> u32" where "DMAC_DAR ch s = m_p4 s DMAC (4 * ch + 1)"
definition DMAC_DMATCR :: "nat \<Rightarrow> 'd machine \<Rightarrow> u32" where "DMAC_DMATCR ch s = m_p4 s DMAC (4 * ch + 2)"
definition DMAC_CHCR :: "nat \<Rightarrow> 'd machine \<Rightarrow> u32" where "DMAC_CHCR ch s = m_p4 s DMAC (4 * ch + 3)"
definition DMAC_DMAOR :: "'d machine \<Rightarrow> u32" where "DMAC_DMAOR s = m_p4 s DMAC 16"

definition set_SAR :: "nat \<Rightarrow> u32 \<Rightarrow> 'd machine \<Rightarrow> 'd machine" where "set_SAR ch = set_p4 DMAC (4 * ch)"
definition set_DAR :: "nat \<Rightarrow> u32 \<Rightarrow> 'd machine \<Rightarrow> 'd machine" where "set_DAR ch = set_p4 DMAC (4 * ch + 1)"
definition set_DMATCR :: "nat \<Rightarrow> u32 \<Rightarrow> 'd machine \<Rightarrow> 'd machine" where "set_DMATCR ch = set_p4 DMAC (4 * ch + 2)"
definition set_CHCR :: "nat \<Rightarrow> u32 \<Rightarrow> 'd machine \<Rightarrow> 'd machine" where "set_CHCR ch = set_p4 DMAC (4 * ch + 3)"
definition set_DMAOR :: "u32 \<Rightarrow> 'd machine \<Rightarrow> 'd machine" where "set_DMAOR = set_p4 DMAC 16"

text \<open>Fields of \<^verbatim>\<open>DMAC_CHCR_type\<close> and \<^verbatim>\<open>DMAC_DMAOR_type\<close>.\<close>

definition ch_DE :: "u32 \<Rightarrow> u32" where "ch_DE = fld 0 1"
definition ch_TE :: "u32 \<Rightarrow> u32" where "ch_TE = fld 1 1"
definition ch_IE :: "u32 \<Rightarrow> u32" where "ch_IE = fld 2 1"
definition ch_TS :: "u32 \<Rightarrow> u32" where "ch_TS = fld 4 3"
definition ch_RS :: "u32 \<Rightarrow> u32" where "ch_RS = fld 8 4"
definition ch_SM :: "u32 \<Rightarrow> u32" where "ch_SM = fld 12 2"
definition ch_DM :: "u32 \<Rightarrow> u32" where "ch_DM = fld 14 2"
definition or_DME :: "u32 \<Rightarrow> u32" where "or_DME = fld 0 1"

definition ch_set_TE :: "nat \<Rightarrow> 'd machine \<Rightarrow> 'd machine" where
  "ch_set_TE ch s = set_CHCR ch (set_fld 1 1 1 (DMAC_CHCR ch s)) s"

definition DMAOR_MASK :: u32 where
  "DMAOR_MASK = 0xFFFF8201"

abbreviation (input) "SB_C2DSTAT_addr \<equiv> (0x005F6800 :: u32)"
abbreviation (input) "SB_C2DLEN_addr \<equiv> (0x005F6804 :: u32)"
abbreviation (input) "SB_C2DST_addr \<equiv> (0x005F6808 :: u32)"
abbreviation (input) "SB_SDSTAW_addr \<equiv> (0x005F6810 :: u32)"
abbreviation (input) "SB_SDBAAW_addr \<equiv> (0x005F6814 :: u32)"
abbreviation (input) "SB_SDWLT_addr \<equiv> (0x005F6818 :: u32)"
abbreviation (input) "SB_SDLAS_addr \<equiv> (0x005F681C :: u32)"
abbreviation (input) "SB_SDST_addr \<equiv> (0x005F6820 :: u32)"
abbreviation (input) "SB_SDDIV_addr \<equiv> (0x005F6860 :: u32)"
abbreviation (input) "SB_PDSTAP_addr \<equiv> (0x005F7C00 :: u32)"
abbreviation (input) "SB_PDSTAR_addr \<equiv> (0x005F7C04 :: u32)"
abbreviation (input) "SB_PDLEN_addr \<equiv> (0x005F7C08 :: u32)"
abbreviation (input) "SB_PDDIR_addr \<equiv> (0x005F7C0C :: u32)"
abbreviation (input) "SB_PDST_addr \<equiv> (0x005F7C18 :: u32)"

section \<open>Manual transfers\<close>

definition dmac_itr :: "nat \<Rightarrow> nat" where
  "dmac_itr ch = [5, 6, 7, 8] ! ch"

text \<open>The step of an address: \<open>SM\<close> or \<open>DM\<close> times the size of an element.\<close>

definition dma_incr :: "u32 \<Rightarrow> u32 \<Rightarrow> u32" where
  "dma_incr mode sz = (if mode = 1 then sz else if mode = 2 then - sz else 0)"

text \<open>The loop of \<^verbatim>\<open>WriteCHCR\<close>, for one element transfer \<open>xfer src dst\<close>; it returns the addresses.\<close>

fun dma_loop :: "(u32 \<Rightarrow> u32 \<Rightarrow> ('d, unit) SM) \<Rightarrow> nat \<Rightarrow> u32 \<Rightarrow> u32 \<Rightarrow> u32 \<Rightarrow> u32 \<Rightarrow> ('d, u32 \<times> u32) SM" where
  "dma_loop xfer 0 src dst srcIncr dstIncr = returnM (src, dst)"
| "dma_loop xfer (Suc len) src dst srcIncr dstIncr = bindM (xfer src dst) (\<lambda>_.
     dma_loop xfer len (src + srcIncr) (dst + dstIncr) srcIncr dstIncr)"

definition xfer8 :: "'d env \<Rightarrow> u32 \<Rightarrow> u32 \<Rightarrow> ('d, unit) SM" where
  "xfer8 E src dst = bindM (readt8 E src) (writet8 E dst)"

definition xfer16 :: "'d env \<Rightarrow> u32 \<Rightarrow> u32 \<Rightarrow> ('d, unit) SM" where
  "xfer16 E src dst = bindM (readt16 E src) (writet16 E dst)"

definition xfer32 :: "'d env \<Rightarrow> u32 \<Rightarrow> u32 \<Rightarrow> ('d, unit) SM" where
  "xfer32 E src dst = bindM (readt32 E src) (writet32 E dst)"

definition xfer64 :: "'d env \<Rightarrow> u32 \<Rightarrow> u32 \<Rightarrow> ('d, unit) SM" where
  "xfer64 E src dst = bindM (readt64 E src) (writet64 E dst)"

definition manual_dma :: "'d env \<Rightarrow> nat \<Rightarrow> ('d, unit) SM" where
  "manual_dma E ch s =
    (let c = DMAC_CHCR ch s; src = DMAC_SAR ch s; len = DMAC_DMATCR ch s; dst = DMAC_DAR ch s;
         run = (\<lambda>xfer len sz. dma_loop xfer (unat len) src dst (dma_incr (ch_SM c) sz) (dma_incr (ch_DM c) sz))
     in bindM
          (if ch_TS c = 0 then run (xfer64 E) len 8
           else if ch_TS c = 1 then run (xfer8 E) len 1
           else if ch_TS c = 2 then run (xfer16 E) len 2
           else if ch_TS c = 4 then run (xfer32 E) (len * 8) 4
           else run (xfer32 E) len 4)
          (\<lambda>(src', dst'). modifyM (\<lambda>s. set_DMATCR ch 0 (set_DAR ch dst' (set_SAR ch src' (ch_set_TE ch s))))) s)"

definition WriteCHCR :: "'d env \<Rightarrow> nat \<Rightarrow> u32 \<Rightarrow> u32 \<Rightarrow> ('d, unit) SM" where
  "WriteCHCR E ch addr data s =
    (let s1 = set_CHCR ch (data AND (if ch = 0 \<or> ch = 1 then 0xff0ffff7 else 0xff0afff7)) s;
         c = DMAC_CHCR ch s1
     in if ch_TE c = 0 \<and> ch_DE c \<noteq> 0 \<and> or_DME (DMAC_DMAOR s1) \<noteq> 0
        then bindM (if ch_RS c = 4 then manual_dma E ch else returnM ())
          (\<lambda>_. modifyM (\<lambda>s. InterruptMask (dmac_itr ch) (ch_IE (DMAC_CHCR ch s) \<noteq> 0)
            (InterruptPend (dmac_itr ch) (ch_TE (DMAC_CHCR ch s) \<noteq> 0) s))) s1
        else Ret () s1)"

section \<open>Channel 2\<close>

text \<open>
  A block of main memory handed to the tile accelerator. \<^verbatim>\<open>GetMemPtr\<close> returns a null pointer
  for an address outside main memory; reading through it is the end of the process.
\<close>

definition ch2_tawrite :: "areas \<Rightarrow> 'd pvr_env \<Rightarrow> u32 \<Rightarrow> u32 \<Rightarrow> u32 \<Rightarrow> ('d, unit) SM" where
  "ch2_tawrite a P dst src len = (case GetMemPtr a src len of
     Some off \<Rightarrow> modifyM (\<lambda>s. TAWrite a P dst (\<lambda>k. m_mem s (a_ram a) (off + k)) (len div 32) s)
   | None \<Rightarrow> if len div 32 = 0 then modifyM (TAWrite a P dst (\<lambda>_. 0) 0) else throwM (Die ''null pointer''))"

definition ch2_to_ta :: "areas \<Rightarrow> 'd pvr_env \<Rightarrow> u32 \<Rightarrow> u32 \<Rightarrow> u32 \<Rightarrow> ('d, unit) SM" where
  "ch2_to_ta a P dst src len =
    (if RAM_SIZE a < (src AND RAM_MASK a) + len
     then let newLen = RAM_SIZE a - (src AND RAM_MASK a)
          in bindM (ch2_tawrite a P dst src newLen)
               (\<lambda>_. ch2_tawrite a P dst (src + newLen) (len - newLen))
     else ch2_tawrite a P dst src len)"

definition ch2_texture64 :: "'d env \<Rightarrow> areas \<Rightarrow> u32 \<Rightarrow> u32 \<Rightarrow> u32 \<Rightarrow> ('d, u32) SM" where
  "ch2_texture64 E a dst0 src len =
    (let dst = (dst0 AND 0x00FFFFFF) OR 0xa4000000
     in if RAM_SIZE a < (src AND RAM_MASK a) + len
        then let newLen = RAM_SIZE a - (src AND RAM_MASK a)
             in bindM (WriteMemBlock_nommu_dma E dst src (unat newLen)) (\<lambda>_.
                bindM (WriteMemBlock_nommu_dma E (dst + newLen) (src + newLen) (unat (len - newLen)))
                  (\<lambda>_. returnM (dst + newLen + (len - newLen))))
        else bindM (WriteMemBlock_nommu_dma E dst src (unat len)) (\<lambda>_. returnM (dst + len)))"

text \<open>
  The loop of the 32-bit path counts \<open>len\<close> down by four until it is zero. A length that is not
  a multiple of four, which the register cannot hold, would make it wrap around and never end.
\<close>

function ch2_texture32_loop :: "'d env \<Rightarrow> areas \<Rightarrow> u32 \<Rightarrow> u32 \<Rightarrow> u32 \<Rightarrow> ('d, u32) SM" where
  "ch2_texture32_loop E a dst src len =
    (if len = 0 then returnM dst
     else bindM (readt32 E src) (\<lambda>v.
          bindM (modifyM (pvr_write32p32 a dst v)) (\<lambda>_.
          if len < 4 then throwM (Die ''endless loop'')
          else ch2_texture32_loop E a (dst + 4) (src + 4) (len - 4))))"
  by pat_completeness auto
termination
  by (relation "measure (\<lambda>(_, _, _, _, len). unat len)") (auto simp: word_less_nat_alt not_less unat_sub word_le_nat_alt)

declare ch2_texture32_loop.simps [simp del]

definition ch2_texture :: "'d env \<Rightarrow> areas \<Rightarrow> u32 \<Rightarrow> u32 \<Rightarrow> u32 \<Rightarrow> ('d, u32) SM" where
  "ch2_texture E a dst src len s =
    (let path64b = (if SB_REG_32 SB_C2DSTAT_addr s AND 0x02000000 \<noteq> 0 then SB_LMMODE1 s = 0 else SB_LMMODE0 s = 0)
     in if path64b then ch2_texture64 E a dst src len s
        else ch2_texture32_loop E a ((dst AND 0xFFFFFF) OR 0xa5000000) src len s)"

definition ch2_finish :: "'d machine \<Rightarrow> 'd machine" where
  "ch2_finish s = asic_RaiseInterrupt holly_CH2_DMA
     (set_SB SB_C2DLEN_addr 0 (set_SB SB_C2DST_addr 0 (set_DMATCR 2 0 (ch_set_TE 2 s))))"

definition DMAC_Ch2St :: "'d env \<Rightarrow> areas \<Rightarrow> 'd pvr_env \<Rightarrow> ('d, unit) SM" where
  "DMAC_Ch2St E a P s =
    (let dmaor = DMAC_DMAOR s;
         src = DMAC_SAR 2 s AND 0x1fffffe0;
         dst = SB_REG_32 SB_C2DSTAT_addr s AND 0x01ffffe0;
         len = SB_REG_32 SB_C2DLEN_addr s
     in if 0x8201 \<noteq> dmaor AND DMAOR_MASK then Ret () s
        else if drop_bit 26 src \<noteq> 3
        then Ret () (asic_RaiseInterrupt holly_CH2_DMA (set_DMAOR (set_fld 2 1 1 dmaor) s))
        else bindM
          (if dst AND 0x01000000 = 0 then ch2_to_ta a P dst src len
           else bindM (ch2_texture E a dst src len) (\<lambda>dst'. modifyM (set_SB SB_C2DSTAT_addr dst')))
          (\<lambda>_. modifyM ch2_finish) s)"

definition RegWrite_SB_C2DST :: "'d env \<Rightarrow> areas \<Rightarrow> 'd pvr_env \<Rightarrow> u32 \<Rightarrow> u32 \<Rightarrow> ('d, unit) SM" where
  "RegWrite_SB_C2DST E a P addr data =
    (if data AND 1 \<noteq> 0 then (\<lambda>s. DMAC_Ch2St E a P (set_SB SB_C2DST_addr 1 s)) else returnM ())"

section \<open>The PVR channel and the sort DMA\<close>

definition do_pvr_dma :: "'d env \<Rightarrow> ('d, unit) SM" where
  "do_pvr_dma E s =
    (let src = SB_REG_32 SB_PDSTAR_addr s; dst = SB_REG_32 SB_PDSTAP_addr s; len = SB_REG_32 SB_PDLEN_addr s
     in if 0x8201 \<noteq> DMAC_DMAOR s AND DMAOR_MASK then Ret () s
        else bindM
          (if SB_REG_32 SB_PDDIR_addr s \<noteq> 0 then WriteMemBlock_nommu_dma E src dst (unat len)
           else WriteMemBlock_nommu_dma E dst src (unat len))
          (\<lambda>_. modifyM (\<lambda>s. asic_RaiseInterrupt holly_PVR_DMA (set_SB SB_PDST_addr 0
             (set_DMATCR 0 0 (ch_set_TE 0 (set_SAR 0 (src + len) s)))))) s)"

definition RegWrite_SB_PDST :: "'d env \<Rightarrow> u32 \<Rightarrow> u32 \<Rightarrow> ('d, unit) SM" where
  "RegWrite_SB_PDST E addr data =
    (if data AND 1 \<noteq> 0 then (\<lambda>s. do_pvr_dma E (set_SB SB_PDST_addr 1 s)) else returnM ())"

definition calculate_start_link_addr :: "areas \<Rightarrow> 'd machine \<Rightarrow> u32 \<times> 'd machine" where
  "calculate_start_link_addr a s =
    (let base = SB_REG_32 SB_SDSTAW_addr s AND RAM_MASK a; div' = SB_REG_32 SB_SDDIV_addr s;
         rv = (if SB_REG_32 SB_SDWLT_addr s = 0 then ucast (ld16 (m_mem s (a_ram a)) (base + 2 * div'))
               else ld32 (m_mem s (a_ram a)) (base + 4 * div'))
     in (rv, set_SB SB_SDDIV_addr (div' + 1) s))"

text \<open>
  One turn of the loop of \<^verbatim>\<open>pvr_do_sort_dma\<close>: a list of parameters is handed to the tile
  accelerator and the next link is taken from it, or from the table when the list ends. The
  loop ends at link 2; whether it does depends on the data.
\<close>

definition sort_dma_step :: "areas \<Rightarrow> 'd pvr_env \<Rightarrow> u32 \<Rightarrow> 'd machine \<Rightarrow> u32 \<times> 'd machine" where
  "sort_dma_step a P link_addr s =
    (let link = (if SB_REG_32 SB_SDLAS_addr s = 1 then link_addr * 32 else link_addr AND NOT 31);
         ea = (SB_REG_32 SB_SDBAAW_addr s + link) AND RAM_MASK a;
         ram = m_mem s (a_ram a);
         next = ld32 ram (ea + 0x1C);
         s1 = ta_vtx_data P (\<lambda>k. ram (ea + k)) (ld32 ram (ea + 0x18)) s
     in if next = 1 then calculate_start_link_addr a s1 else (next, s1))"

partial_function (option) sort_dma_loop ::
  "areas \<Rightarrow> 'd pvr_env \<Rightarrow> u32 \<times> 'd machine \<Rightarrow> 'd machine option" where
  "sort_dma_loop a P ls = (if fst ls = 2 then Some (snd ls) else sort_dma_loop a P (sort_dma_step a P (fst ls) (snd ls)))"

definition pvr_do_sort_dma :: "areas \<Rightarrow> 'd pvr_env \<Rightarrow> 'd machine \<Rightarrow> 'd machine option" where
  "pvr_do_sort_dma a P s = map_option
     (\<lambda>s. asic_RaiseInterrupt holly_PVR_SortDMA (set_SB SB_SDSTAW_addr (SB_REG_32 SB_SDSTAW_addr s + 32)
       (set_SB SB_SDST_addr 0 s)))
     (sort_dma_loop a P (calculate_start_link_addr a (set_SB SB_SDDIV_addr 0 s)))"

definition RegWrite_SB_SDST :: "areas \<Rightarrow> 'd pvr_env \<Rightarrow> u32 \<Rightarrow> u32 \<Rightarrow> 'd machine \<Rightarrow> 'd machine option" where
  "RegWrite_SB_SDST a P addr data s = (if data AND 1 \<noteq> 0 then pvr_do_sort_dma a P s else Some s)"

section \<open>A manual transfer in main memory\<close>

lemma set_p4_simps [simp]:
  "m_ctx (set_p4 m i v s) = m_ctx s" "m_intc (set_p4 m i v s) = m_intc s"
  "m_mem (set_p4 m i v s) = m_mem s" "m_map (set_p4 m i v s) = m_map s"
  "m_sb (set_p4 m i v s) = m_sb s" "m_holly (set_p4 m i v s) = m_holly s"
  "m_pvr (set_p4 m i v s) = m_pvr s"
  "m_p4 (set_p4 m i v s) m' j = (if m' = m \<and> j = i then v else m_p4 s m' j)"
  by (simp_all add: set_p4_def)

lemmas dmac_regs = DMAC_SAR_def DMAC_DAR_def DMAC_DMATCR_def DMAC_CHCR_def DMAC_DMAOR_def
  set_SAR_def set_DAR_def set_DMATCR_def set_CHCR_def set_DMAOR_def ch_set_TE_def

text \<open>An element of 32 bits moves a word of main memory.\<close>

definition ram_off :: "areas \<Rightarrow> u32 \<Rightarrow> u32" where
  "ram_off a x = x AND RAM_MASK a"

lemma xfer32_ram:
  assumes "ram_mapped a s" "IsOnRam src" "IsOnRam dst"
  shows "xfer32 E src dst s =
    Ret () (upd_block (a_ram a) (st32 (ram_off a dst) (ld32 (m_mem s (a_ram a)) (ram_off a src))) s)"
proof -
  have "readt32 E src s = Ret (ld32 (m_mem s (a_ram a)) (ram_off a src)) s"
    using ram_mapped_page [OF assms(1,2)] by (simp add: readt32_def ram_off_def)
  moreover have "writet32 E dst v s = Ret () (upd_block (a_ram a) (st32 (ram_off a dst) v) s)" for v
    using ram_mapped_page [OF assms(1,3)] by (simp add: writet32_def ram_off_def)
  ultimately show ?thesis by (simp add: xfer32_def)
qed

text \<open>What a loop over such elements leaves in main memory: a copy, word by word, in order.\<close>

fun ram_copy :: "areas \<Rightarrow> nat \<Rightarrow> u32 \<Rightarrow> u32 \<Rightarrow> u32 \<Rightarrow> u32 \<Rightarrow> (u32 \<Rightarrow> u8) \<Rightarrow> u32 \<Rightarrow> u8" where
  "ram_copy a 0 src dst si di f = f"
| "ram_copy a (Suc n) src dst si di f =
     ram_copy a n (src + si) (dst + di) si di (st32 (ram_off a dst) (ld32 f (ram_off a src)) f)"

lemma ram_off_aligned: "take_bit 2 x = 0 \<Longrightarrow> ram_off a x AND NOT 3 = ram_off a x"
  unfolding word_aligned ram_off_def by (simp add: take_bit_and)

lemma ram_copy_other:
  assumes "take_bit 2 dst = 0" "q AND NOT 3 = q" "\<And>i. i < n \<Longrightarrow> q \<noteq> ram_off a (dst + 4 * of_nat i)"
  shows "ld32 (ram_copy a n src dst 4 4 f) q = ld32 f q"
  using assms(1,3)
proof (induction n arbitrary: src dst f)
  case (Suc n)
  have "q \<noteq> ram_off a (dst + 4 + 4 * of_nat i)" if "i < n" for i
    using Suc.prems(2) [of "Suc i"] that by (simp add: algebra_simps)
  moreover have "take_bit 2 (dst + 4) = 0" using word_aligned_add [OF Suc.prems(1), of 1] by simp
  ultimately have "ld32 (ram_copy a (Suc n) src dst 4 4 f) q =
      ld32 (st32 (ram_off a dst) (ld32 f (ram_off a src)) f) q"
    using Suc.IH by simp
  also have "\<dots> = ld32 f q"
    using ld32_st32_aligned [OF ram_off_aligned [OF Suc.prems(1)] assms(2)] Suc.prems(2) [of 0] by simp
  finally show ?case .
qed simp

lemma ram_copy_word:
  assumes "take_bit 2 src = 0" "take_bit 2 dst = 0" "i < n"
    and "\<And>i j. i < n \<Longrightarrow> j < n \<Longrightarrow> ram_off a (dst + 4 * of_nat i) \<noteq> ram_off a (src + 4 * of_nat j)"
    and "\<And>i j. i < j \<Longrightarrow> j < n \<Longrightarrow> ram_off a (dst + 4 * of_nat i) \<noteq> ram_off a (dst + 4 * of_nat j)"
  shows "ld32 (ram_copy a n src dst 4 4 f) (ram_off a (dst + 4 * of_nat i)) = ld32 f (ram_off a (src + 4 * of_nat i))"
  using assms
proof (induction n arbitrary: src dst f i)
  case (Suc n)
  let ?f1 = "st32 (ram_off a dst) (ld32 f (ram_off a src)) f"
  have nx: "x + 4 + 4 * of_nat k = x + 4 * of_nat (Suc k)" for x :: u32 and k by (simp add: algebra_simps)
  have al: "take_bit 2 (src + 4) = 0" "take_bit 2 (dst + 4) = 0"
    using word_aligned_add [OF Suc.prems(1), of 1] word_aligned_add [OF Suc.prems(2), of 1] by simp_all
  show ?case
  proof (cases i)
    case 0
    have "ram_off a dst \<noteq> ram_off a (dst + 4 + 4 * of_nat k)" if "k < n" for k
      unfolding nx using Suc.prems(5) [of 0 "Suc k"] that by simp
    then have "ld32 (ram_copy a n (src + 4) (dst + 4) 4 4 ?f1) (ram_off a dst) = ld32 ?f1 (ram_off a dst)"
      by (intro ram_copy_other al ram_off_aligned Suc.prems)
    then show ?thesis by (simp add: 0)
  next
    case (Suc k)
    have "ld32 (ram_copy a n (src + 4) (dst + 4) 4 4 ?f1) (ram_off a (dst + 4 + 4 * of_nat k)) =
        ld32 ?f1 (ram_off a (src + 4 + 4 * of_nat k))"
    proof (rule Suc.IH [OF al])
      show "k < n" using Suc Suc.prems(3) by simp
      show "ram_off a (dst + 4 + 4 * of_nat i) \<noteq> ram_off a (src + 4 + 4 * of_nat j)" if "i < n" "j < n" for i j
        unfolding nx using Suc.prems(4) [of "Suc i" "Suc j"] that by simp
      show "ram_off a (dst + 4 + 4 * of_nat i) \<noteq> ram_off a (dst + 4 + 4 * of_nat j)" if "i < j" "j < n" for i j
        unfolding nx using Suc.prems(5) [of "Suc i" "Suc j"] that by simp
    qed
    also have "\<dots> = ld32 f (ram_off a (src + 4 + 4 * of_nat k))"
    proof -
      have "ram_off a (src + 4 + 4 * of_nat k) \<noteq> ram_off a dst"
        unfolding nx using Suc.prems(4) [of 0 "Suc k"] Suc Suc.prems(3) by auto
      then show ?thesis
        using ld32_st32_aligned [OF ram_off_aligned [OF Suc.prems(2)] ram_off_aligned [OF word_aligned_add [OF al(1)]]]
        by simp
    qed
    finally show ?thesis unfolding nx by (simp add: Suc)
  qed
qed simp

lemma dma_loop_ram:
  assumes "ram_mapped a s"
    and "\<And>i. i < n \<Longrightarrow> IsOnRam (src + 4 * of_nat i) \<and> IsOnRam (dst + 4 * of_nat i)"
  shows "dma_loop (xfer32 E) n src dst 4 4 s = Ret (src + 4 * of_nat n, dst + 4 * of_nat n)
    (upd_block (a_ram a) (ram_copy a n src dst 4 4) s)"
  using assms
proof (induction n arbitrary: src dst s)
  case 0
  show ?case by (simp add: upd_block_def)
next
  case (Suc n)
  have "IsOnRam src" "IsOnRam dst" using Suc.prems(2) [of 0] by simp_all
  note x = xfer32_ram [OF Suc.prems(1) this, of E]
  let ?s1 = "upd_block (a_ram a) (st32 (ram_off a dst) (ld32 (m_mem s (a_ram a)) (ram_off a src))) s"
  have "ram_mapped a ?s1" using Suc.prems(1) by (simp add: ram_mapped_def)
  moreover have "IsOnRam (src + 4 + 4 * of_nat i) \<and> IsOnRam (dst + 4 + 4 * of_nat i)" if "i < n" for i
    using Suc.prems(2) [of "Suc i"] that by (simp add: algebra_simps)
  ultimately have "dma_loop (xfer32 E) n (src + 4) (dst + 4) 4 4 ?s1 = Ret (src + 4 + 4 * of_nat n, dst + 4 + 4 * of_nat n)
      (upd_block (a_ram a) (ram_copy a n (src + 4) (dst + 4) 4 4) ?s1)"
    by (rule Suc.IH)
  then show ?case
    by (simp add: x upd_block_def fun_upd_comp algebra_simps)
qed

text \<open>The masks of \<^verbatim>\<open>WriteCHCR\<close> keep the fields the transfer reads.\<close>

lemma chcr_fields:
  defines "c ch \<equiv> (if ch = 0 \<or> ch = (1 :: nat) then 0xff0ffff7 else 0xff0afff7 :: u32)"
  shows "ch_DE (data AND c ch) = ch_DE data" "ch_TE (data AND c ch) = ch_TE data"
    "ch_IE (data AND c ch) = ch_IE data" "ch_TS (data AND c ch) = ch_TS data"
    "ch_RS (data AND c ch) = ch_RS data" "ch_SM (data AND c ch) = ch_SM data"
    "ch_DM (data AND c ch) = ch_DM data"
proof -
  have f: "fld lo w (data AND m) = fld lo w data" if m: "drop_bit lo m AND mask w = mask w" for lo w and m :: u32
  proof -
    have "bit m (lo + i)" if "i < w" "i < 32" for i
      using arg_cong [OF m, of "\<lambda>y. bit y i"] that by (simp add: bit_and_iff bit_mask_iff bit_drop_bit_eq)
    then show ?thesis
      by (intro bit_word_eqI) (auto simp: bit_fld bit_and_iff)
  qed
  show "ch_DE (data AND c ch) = ch_DE data" "ch_TE (data AND c ch) = ch_TE data"
    "ch_IE (data AND c ch) = ch_IE data" "ch_TS (data AND c ch) = ch_TS data"
    "ch_RS (data AND c ch) = ch_RS data" "ch_SM (data AND c ch) = ch_SM data"
    "ch_DM (data AND c ch) = ch_DM data"
    unfolding ch_DE_def ch_TE_def ch_IE_def ch_TS_def ch_RS_def ch_SM_def ch_DM_def
    by (rule f; simp add: c_def mask_eq_exp_minus_1 drop_bit_eq_div)+
qed

lemma ch_set_TE_fields: "ch_TE (set_fld 1 1 1 c) = 1" "ch_IE (set_fld 1 1 1 c) = ch_IE c"
proof -
  show "ch_TE (set_fld 1 1 1 c) = 1"
    unfolding ch_TE_def by (subst fld_set_fld_same) simp_all
  show "ch_IE (set_fld 1 1 1 c) = ch_IE c"
    unfolding ch_IE_def by (rule fld_set_fld_disjoint) simp
qed

lemma manual_dma_ram:
  assumes r: "ram_mapped a s" and ts: "2 < ch_TS c" and sm: "ch_SM c = 1" "ch_DM c = 1" and c: "c = DMAC_CHCR ch s"
    and n: "n = unat (if ch_TS c = 4 then DMAC_DMATCR ch s * 8 else DMAC_DMATCR ch s)"
    and ram: "\<And>i. i < n \<Longrightarrow> IsOnRam (DMAC_SAR ch s + 4 * of_nat i) \<and> IsOnRam (DMAC_DAR ch s + 4 * of_nat i)"
  shows "manual_dma E ch s = Ret () (set_DMATCR ch 0 (set_DAR ch (DMAC_DAR ch s + 4 * of_nat n)
    (set_SAR ch (DMAC_SAR ch s + 4 * of_nat n) (ch_set_TE ch
      (upd_block (a_ram a) (ram_copy a n (DMAC_SAR ch s) (DMAC_DAR ch s) 4 4) s)))))"
proof -
  note l = dma_loop_ram [OF r ram, where E = E]
  have ts': "ch_TS c \<noteq> 0" "ch_TS c \<noteq> 1" "ch_TS c \<noteq> 2" using ts by auto
  have "dma_incr 1 4 = 4" by (simp add: dma_incr_def)
  then show ?thesis
    using l ts' sm n unfolding manual_dma_def Let_def c [symmetric]
    by (cases "ch_TS c = 4") simp_all
qed

text \<open>The regions of a transfer: words of main memory, the destination apart from the source and
  not wrapping onto itself.\<close>

definition dma_regions :: "areas \<Rightarrow> u32 \<Rightarrow> u32 \<Rightarrow> nat \<Rightarrow> bool" where
  "dma_regions a src dst n \<longleftrightarrow> take_bit 2 src = 0 \<and> take_bit 2 dst = 0 \<and>
    (\<forall>i<n. IsOnRam (src + 4 * of_nat i) \<and> IsOnRam (dst + 4 * of_nat i)) \<and>
    (\<forall>i<n. \<forall>j<n. ram_off a (dst + 4 * of_nat i) \<noteq> ram_off a (src + 4 * of_nat j)) \<and>
    (\<forall>j<n. \<forall>i<j. ram_off a (dst + 4 * of_nat i) \<noteq> ram_off a (dst + 4 * of_nat j))"

definition dma_count :: "u32 \<Rightarrow> u32 \<Rightarrow> nat" where
  "dma_count c dmatcr = unat (if ch_TS c = 4 then dmatcr * 8 else dmatcr)"

lemma dmac_itr_less: "ch < 4 \<Longrightarrow> dmac_itr ch < sh4_INT_ID_COUNT"
  by (auto simp: dmac_itr_def numeral_eq_Suc less_Suc_eq)

lemma set_p4_intc [simp]: "intc_inv (set_p4 m i v s) = intc_inv s" "sr_decoded (set_p4 m i v s) = sr_decoded s"
  "intc_inv (upd_block b f s) = intc_inv s" "sr_decoded (upd_block b f s) = sr_decoded s"
  by (simp_all add: intc_inv_def sr_decoded_def)

lemma upd_block_p4 [simp]: "m_p4 (upd_block b f s) = m_p4 s" "m_sb (upd_block b f s) = m_sb s"
  by (simp_all add: upd_block_def)

text \<open>The machine after such a transfer, before the interrupt lines are driven.\<close>

definition dma_done :: "areas \<Rightarrow> nat \<Rightarrow> u32 \<Rightarrow> nat \<Rightarrow> 'd machine \<Rightarrow> 'd machine" where
  "dma_done a ch c n s = set_DMATCR ch 0 (set_DAR ch (DMAC_DAR ch s + 4 * of_nat n)
     (set_SAR ch (DMAC_SAR ch s + 4 * of_nat n) (ch_set_TE ch
       (upd_block (a_ram a) (ram_copy a n (DMAC_SAR ch s) (DMAC_DAR ch s) 4 4) (set_CHCR ch c s)))))"

lemma dma_done_simps:
  "DMAC_SAR ch (dma_done a ch c n s) = DMAC_SAR ch s + 4 * of_nat n"
  "DMAC_DAR ch (dma_done a ch c n s) = DMAC_DAR ch s + 4 * of_nat n"
  "DMAC_DMATCR ch (dma_done a ch c n s) = 0" "DMAC_CHCR ch (dma_done a ch c n s) = set_fld 1 1 1 c"
  "m_mem (dma_done a ch c n s) (a_ram a) = ram_copy a n (DMAC_SAR ch s) (DMAC_DAR ch s) 4 4 (m_mem s (a_ram a))"
  "intc_inv (dma_done a ch c n s) = intc_inv s" "sr_decoded (dma_done a ch c n s) = sr_decoded s"
  by (simp_all add: dma_done_def dmac_regs)

definition chcr_mask :: "nat \<Rightarrow> u32" where
  "chcr_mask ch = (if ch = 0 \<or> ch = 1 then 0xff0ffff7 else 0xff0afff7)"

lemma WriteCHCR_manual:
  assumes "ram_mapped a s" and "ch_DE data = 1" "ch_TE data = 0" "or_DME (DMAC_DMAOR s) = 1"
    and "ch_RS data = 4" "ch_SM data = 1" "ch_DM data = 1" "2 < ch_TS data"
    and "n = dma_count data (DMAC_DMATCR ch s)" "dma_regions a (DMAC_SAR ch s) (DMAC_DAR ch s) n"
  defines "c \<equiv> data AND chcr_mask ch"
  shows "WriteCHCR E ch addr data s = Ret () (InterruptMask (dmac_itr ch) (ch_IE data \<noteq> 0)
    (InterruptPend (dmac_itr ch) True (dma_done a ch c n s)))"
proof -
  note cf = chcr_fields [of data ch, folded chcr_mask_def, folded c_def]
  define s1 where "s1 = set_CHCR ch c s"
  have r1: "DMAC_SAR ch s1 = DMAC_SAR ch s" "DMAC_DAR ch s1 = DMAC_DAR ch s"
    "DMAC_DMATCR ch s1 = DMAC_DMATCR ch s" "DMAC_CHCR ch s1 = c" "DMAC_DMAOR s1 = DMAC_DMAOR s"
  proof -
    have "4 * ch \<noteq> 13" by presburger
    then show "DMAC_SAR ch s1 = DMAC_SAR ch s" "DMAC_DAR ch s1 = DMAC_DAR ch s"
      "DMAC_DMATCR ch s1 = DMAC_DMATCR ch s" "DMAC_CHCR ch s1 = c" "DMAC_DMAOR s1 = DMAC_DMAOR s"
      by (simp_all add: s1_def dmac_regs)
  qed
  have ram: "\<And>i. i < n \<Longrightarrow> IsOnRam (DMAC_SAR ch s + 4 * of_nat i) \<and> IsOnRam (DMAC_DAR ch s + 4 * of_nat i)"
    using assms(10) unfolding dma_regions_def by blast
  have m1: "ram_mapped a s1" using assms(1) by (simp add: ram_mapped_def s1_def set_CHCR_def)
  have ts: "2 < ch_TS c" "ch_SM c = 1" "ch_DM c = 1" unfolding cf by (fact assms)+
  have n: "n = unat (if ch_TS c = 4 then DMAC_DMATCR ch s1 * 8 else DMAC_DMATCR ch s1)"
    unfolding cf r1 by (fact assms(9) [unfolded dma_count_def])
  note manual_dma_ram [OF m1 ts r1(4) [symmetric] n, unfolded r1(1-3), OF ram, of E]
  then have md: "manual_dma E ch s1 = Ret () (dma_done a ch c n s)" unfolding dma_done_def s1_def .
  show ?thesis
    unfolding WriteCHCR_def Let_def chcr_mask_def [symmetric] c_def [symmetric] s1_def [symmetric]
    using md assms(2-5) by (simp add: r1 cf dma_done_simps ch_set_TE_fields [simplified])
qed

text \<open>C36: A manual transfer of 32-bit elements or 32-byte blocks with both addresses counting up
  copies the words of the source to the destination in main memory, all of them inside the
  write of the control register, and changes no other word; afterwards the addresses point
  behind the regions, the count is zero, the transfer end flag is set, the interrupt line of
  the channel is asserted and the interrupt is enabled exactly as the control register says.\<close>
theorem manual_dma_copies:
  assumes "ram_mapped a s" and "intc_inv s" and "sr_decoded s" and "ch < 4"
    and "ch_DE data = 1" and "ch_TE data = 0" and "or_DME (DMAC_DMAOR s) = 1"
    and "ch_RS data = 4" and "ch_SM data = 1" and "ch_DM data = 1" and "2 < ch_TS data"
    and "n = dma_count data (DMAC_DMATCR ch s)"
    and "dma_regions a (DMAC_SAR ch s) (DMAC_DAR ch s) n"
  shows "\<exists>s'. WriteCHCR E ch addr data s = Ret () s' \<and>
    (\<forall>i<n. ld32 (m_mem s' (a_ram a)) (ram_off a (DMAC_DAR ch s + 4 * of_nat i)) =
       ld32 (m_mem s (a_ram a)) (ram_off a (DMAC_SAR ch s + 4 * of_nat i))) \<and>
    (\<forall>q. q AND NOT 3 = q \<longrightarrow> (\<forall>i<n. q \<noteq> ram_off a (DMAC_DAR ch s + 4 * of_nat i)) \<longrightarrow>
       ld32 (m_mem s' (a_ram a)) q = ld32 (m_mem s (a_ram a)) q) \<and>
    DMAC_SAR ch s' = DMAC_SAR ch s + 4 * of_nat n \<and> DMAC_DAR ch s' = DMAC_DAR ch s + 4 * of_nat n \<and>
    DMAC_DMATCR ch s' = 0 \<and> ch_TE (DMAC_CHCR ch s') = 1 \<and>
    src_pending (m_intc s') (dmac_itr ch) \<and> src_enabled (m_intc s') (dmac_itr ch) = (ch_IE data \<noteq> 0)"
proof -
  note w = WriteCHCR_manual [OF assms(1,5-13), of E addr]
  let ?c = "data AND chcr_mask ch"
  let ?s2 = "dma_done a ch ?c n s"
  let ?s' = "InterruptMask (dmac_itr ch) (ch_IE data \<noteq> 0) (InterruptPend (dmac_itr ch) True ?s2)"
  have reg: "take_bit 2 (DMAC_SAR ch s) = 0" "take_bit 2 (DMAC_DAR ch s) = 0"
    and dis: "\<And>i j. i < n \<Longrightarrow> j < n \<Longrightarrow> ram_off a (DMAC_DAR ch s + 4 * of_nat i) \<noteq> ram_off a (DMAC_SAR ch s + 4 * of_nat j)"
    "\<And>i j. i < j \<Longrightarrow> j < n \<Longrightarrow> ram_off a (DMAC_DAR ch s + 4 * of_nat i) \<noteq> ram_off a (DMAC_DAR ch s + 4 * of_nat j)"
    using assms(13) unfolding dma_regions_def by blast+
  have inv: "intc_inv ?s2" "sr_decoded ?s2" using assms(2,3) by (simp_all add: dma_done_simps)
  note l = dmac_itr_less [OF assms(4)]
  note p = InterruptPend_inv [OF inv l, where v = True]
  note q = InterruptMask_inv [OF p(1,2) l, where v = "ch_IE data \<noteq> 0"]
  have m: "m_mem ?s' (a_ram a) = ram_copy a n (DMAC_SAR ch s) (DMAC_DAR ch s) 4 4 (m_mem s (a_ram a))"
    by (simp add: dma_done_simps)
  have "DMAC_SAR ch ?s' = DMAC_SAR ch ?s2" "DMAC_DAR ch ?s' = DMAC_DAR ch ?s2"
    "DMAC_DMATCR ch ?s' = DMAC_DMATCR ch ?s2" "DMAC_CHCR ch ?s' = DMAC_CHCR ch ?s2"
    by (simp_all add: DMAC_SAR_def DMAC_DAR_def DMAC_DMATCR_def DMAC_CHCR_def)
  note regs = this [unfolded dma_done_simps]
  show ?thesis
  proof (intro exI conjI allI impI)
    show "WriteCHCR E ch addr data s = Ret () ?s'" by (rule w)
    show "ld32 (m_mem ?s' (a_ram a)) (ram_off a (DMAC_DAR ch s + 4 * of_nat i)) =
       ld32 (m_mem s (a_ram a)) (ram_off a (DMAC_SAR ch s + 4 * of_nat i))" if "i < n" for i
      unfolding m by (rule ram_copy_word [OF reg that dis])
    show "ld32 (m_mem ?s' (a_ram a)) q = ld32 (m_mem s (a_ram a)) q"
      if "q AND NOT 3 = q" "\<forall>i<n. q \<noteq> ram_off a (DMAC_DAR ch s + 4 * of_nat i)" for q
      unfolding m using that by (intro ram_copy_other reg) auto
  qed (use regs p(3) [OF l] q(3) [OF l] in \<open>simp_all add: ch_set_TE_fields [simplified]\<close>)
qed

text \<open>Four words of main memory moved by channel 0, with both mirrors of the memory in use.\<close>

definition dma_example :: "unit machine" where
  "dma_example = set_DMAOR 0x8201 (set_DMATCR 0 4 (set_DAR 0 0xAC000100 (set_SAR 0 0x8C000000
     (interrupts_reset (mapped_machine ())))))"

lemma dma_example_inv: "intc_inv dma_example" "sr_decoded dma_example" "ram_mapped dreamcast_areas dma_example"
proof -
  show "intc_inv dma_example" "sr_decoded dma_example"
    by (simp_all add: dma_example_def dmac_regs interrupts_reset_inv)
  have "m_map dma_example = m_map (mapped_machine ())"
    by (simp add: dma_example_def dmac_regs interrupts_reset_def SIIDRebuild_def recalc_pending_itrs_def on_ctx_def)
  then show "ram_mapped dreamcast_areas dma_example"
    using mapped_machine_ram [of "()"] by (simp add: ram_mapped_def)
qed

theorem manual_dma_copies_witness:
  "\<exists>s'. WriteCHCR idle_env 0 0 0x5431 dma_example = Ret () s' \<and> DMAC_SAR 0 s' = 0x8C000010 \<and> src_pending (m_intc s') 5"
proof -
  have reg: "DMAC_SAR 0 dma_example = 0x8C000000" "DMAC_DAR 0 dma_example = 0xAC000100"
    "DMAC_DMATCR 0 dma_example = 4" "DMAC_DMAOR dma_example = 0x8201"
    by (simp_all add: dma_example_def dmac_regs)
  have lt: "(\<forall>i<1 :: nat. P i) = P 0" "(\<forall>i<2 :: nat. P i) = (P 0 \<and> P 1)" "(\<forall>i<3 :: nat. P i) = (P 0 \<and> P 1 \<and> P 2)"
    "(\<forall>i<4 :: nat. P i) = (P 0 \<and> P 1 \<and> P 2 \<and> P 3)" for P
    by (auto simp: less_Suc_eq numeral_eq_Suc)
  have r: "dma_regions dreamcast_areas 0x8C000000 0xAC000100 4"
    unfolding dma_regions_def ram_off_def lt
    by (simp add: lt [simplified] IsOnRam_def dreamcast_RAM take_bit_eq_mod)
  have n: "dma_count 0x5431 4 = 4" by (simp add: dma_count_def ch_TS_def fld_def)
  have f: "ch_DE 0x5431 = 1" "ch_TE 0x5431 = 0" "or_DME 0x8201 = 1" "ch_RS 0x5431 = 4" "ch_SM 0x5431 = 1"
    "ch_DM 0x5431 = 1" "2 < ch_TS 0x5431"
    by (simp_all add: ch_DE_def ch_TE_def or_DME_def ch_RS_def ch_SM_def ch_DM_def ch_TS_def fld_def)
  have "0 < (4 :: nat)" "or_DME (DMAC_DMAOR dma_example) = 1" "4 = dma_count 0x5431 (DMAC_DMATCR 0 dma_example)"
    "dma_regions dreamcast_areas (DMAC_SAR 0 dma_example) (DMAC_DAR 0 dma_example) 4"
    using n f(3) r by (simp_all add: reg)
  note M = manual_dma_copies [OF dma_example_inv(3,1,2) this(1) f(1,2) this(2) f(4-7) this(3,4), of idle_env 0]
  then obtain s' where "WriteCHCR idle_env 0 0 0x5431 dma_example = Ret () s'"
    "DMAC_SAR 0 s' = DMAC_SAR 0 dma_example + 4 * of_nat 4" "src_pending (m_intc s') (dmac_itr 0)"
    by (elim exE conjE)
  then show ?thesis by (auto simp: reg dmac_itr_def)
qed

section \<open>The branches of channel 2\<close>

lemma set_fld_4: "set_fld 2 1 1 x = (x :: u32) OR 4"
proof (rule bit_word_eqI)
  fix n assume n: "n < LENGTH(32)"
  have b: "bit (4 :: u32) n \<longleftrightarrow> n = 2"
    using bit_exp_iff [where 'a = u32, of 2 n] n by (simp add: possible_bit_word)
  have "(2 \<le> n \<and> n < 2 + 1) = (n = 2)" by arith
  then show "bit (set_fld 2 1 1 x) n = bit (x OR 4) n"
    using n b unfolding bit_set_fld bit_or_iff by (cases "n = 2") auto
qed

text \<open>Adding to an address does not leave the region below a power of two if it does not carry.\<close>

lemma take_bit_add_no_carry:
  assumes "unat (take_bit m (x :: u32)) + k < 2 ^ m" "m \<le> 32"
  shows "take_bit m (x + of_nat k) = take_bit m x + of_nat k" "unat (x + of_nat k) = unat x + k"
    "unat (x + of_nat k) div 2 ^ m = unat x div 2 ^ m"
proof -
  let ?r = "unat x mod 2 ^ m" and ?q = "unat x div 2 ^ m"
  have tb: "unat (take_bit m y) = unat y mod 2 ^ m" for y :: u32
    by (simp only: unsigned_take_bit_eq) (simp add: take_bit_eq_mod)
  have r: "?r + k < 2 ^ m" using assms(1) unfolding tb .
  have p: "(2 :: nat) ^ m * 2 ^ (32 - m) = 2 ^ 32" using assms(2) by (simp add: power_add [symmetric])
  have x: "unat x = ?q * 2 ^ m + ?r" by (rule div_mult_mod_eq [symmetric])
  have "?q < 2 ^ (32 - m)"
    using unsigned_less [of x, where 'a = nat] p by (simp add: div_less_iff_less_mult mult.commute)
  then have "Suc ?q * 2 ^ m \<le> 2 ^ (32 - m) * 2 ^ m" by (intro mult_le_mono1) simp
  then have "?q * 2 ^ m + 2 ^ m \<le> 2 ^ 32" using p by (simp add: mult.commute)
  then have lt: "unat x + k < 2 ^ 32" using x r by linarith
  then show u: "unat (x + of_nat k) = unat x + k"
    by (simp add: unat_word_ariths unat_of_nat)
  have "(unat x + k) mod 2 ^ m = (?r + k) mod 2 ^ m" by (simp add: mod_add_left_eq)
  then have m: "(unat x + k) mod 2 ^ m = ?r + k" using r by simp
  have "?r + k < 2 ^ 32" using r power_increasing [OF assms(2), of "2 :: nat"] by simp
  then have "unat (take_bit m x + of_nat k) = ?r + k"
    by (simp add: unat_word_ariths unat_of_nat tb)
  then show "take_bit m (x + of_nat k) = take_bit m x + of_nat k"
    by (simp only: word_unat_eq_iff tb u m)
  have "unat x + k = ?q * 2 ^ m + (?r + k)" using x by linarith
  moreover have "(?q * 2 ^ m + (?r + k)) div 2 ^ m = ?q" using r by simp
  ultimately show "unat (x + of_nat k) div 2 ^ m = ?q" unfolding u by presburger
qed

lemma RAM_MASK_mask: "areas_wf a \<Longrightarrow> \<exists>m \<in> {24, 25}. RAM_MASK a = mask m \<and> unat (RAM_SIZE a) = 2 ^ m"
  by (auto simp: areas_wf_def RAM_MASK_def mask_eq_exp_minus_1)

lemma VRAM_MASK_mask: "areas_wf a \<Longrightarrow> \<exists>m \<in> {23, 24}. VRAM_MASK a = mask m \<and> unat (VRAM_MASK a) + 1 = 2 ^ m"
  by (auto simp: areas_wf_def mask_eq_exp_minus_1)

lemma ram_off_less: "areas_wf a \<Longrightarrow> unat (ram_off a x) < unat (RAM_SIZE a)"
  using and_mask_less' [of 24 x] and_mask_less' [of 25 x] RAM_MASK_mask [of a]
  by (auto simp: ram_off_def word_less_nat_alt)

lemma ram_offset:
  assumes "areas_wf a" "drop_bit 26 src = 3" "unat (ram_off a src) + k < unat (RAM_SIZE a)"
  shows "IsOnRam (src + of_nat k)" "ram_off a (src + of_nat k) = ram_off a src + of_nat k"
proof -
  obtain m where m: "m \<in> {24, 25}" "RAM_MASK a = mask m" "unat (RAM_SIZE a) = 2 ^ m"
    using RAM_MASK_mask [OF assms(1)] by blast
  then have m': "m \<le> 32" "m \<le> 26" by auto
  have t: "unat (take_bit m src) + k < 2 ^ m"
    using assms(3) by (simp add: ram_off_def m(2,3) take_bit_eq_mask)
  note n = take_bit_add_no_carry [OF t m'(1)]
  show "ram_off a (src + of_nat k) = ram_off a src + of_nat k"
    using n(1) by (simp add: ram_off_def m(2) take_bit_eq_mask)
  have e: "x div 2 ^ m div 2 ^ (26 - m) = x div 2 ^ 26" for x :: nat
    using m'(2) by (simp add: div_mult2_eq [symmetric] power_add [symmetric])
  have "unat src div 2 ^ 26 = 3" using arg_cong [OF assms(2), of unat] by (simp add: unat_drop_bit)
  then have "unat (src + of_nat k) div 2 ^ 26 = 3"
    using n(3) e [of "unat src"] e [of "unat (src + of_nat k)"] by simp
  then have "drop_bit 26 (src + of_nat k) = 3"
    by (simp add: word_unat_eq_iff unat_drop_bit)
  moreover have "drop_bit 29 (src + of_nat k) = drop_bit 3 (drop_bit 26 (src + of_nat k))" by simp
  ultimately show "IsOnRam (src + of_nat k)" by (simp add: IsOnRam_def)
qed

text \<open>A copy of bytes, byte by byte.\<close>

lemma memcpy_apply:
  assumes "n \<le> 2 ^ 32"
  shows "fold (\<lambda>k f. f(d + of_nat k := g k)) [0..<n] f (x :: u32) = (if unat (x - d) < n then g (unat (x - d)) else f x)"
  using assms
proof (induction n)
  case (Suc n)
  have "x = d + of_nat n \<longleftrightarrow> unat (x - d) = n"
  proof
    assume "x = d + of_nat n"
    then show "unat (x - d) = n" using Suc.prems by (simp add: unat_of_nat)
  next
    assume "unat (x - d) = n"
    moreover have "of_nat (unat (x - d)) = x - d" by simp
    ultimately have "of_nat n = x - d" by simp
    then show "x = d + of_nat n" by simp
  qed
  with Suc show ?case by (auto simp: less_Suc_eq)
qed simp

text \<open>The loop of the 32-bit path as a sequence of writes, and what they leave.\<close>

definition write_words :: "areas \<Rightarrow> u32 \<Rightarrow> (nat \<Rightarrow> u32) \<Rightarrow> nat \<Rightarrow> 'd machine \<Rightarrow> 'd machine" where
  "write_words a dst v n = fold (\<lambda>i. pvr_write32p32 a (dst + 4 * of_nat i) (v i)) [0..<n]"

lemma pvr_write32p32_frame:
  "m_map (pvr_write32p32 a x v s) = m_map s" "m_sb (pvr_write32p32 a x v s) = m_sb s"
  "b \<noteq> a_vram a \<Longrightarrow> m_mem (pvr_write32p32 a x v s) b = m_mem s b"
  by (simp_all add: pvr_write32p32_def fb_watch_def Let_def upd_block_def)

lemma write_words_frame:
  "m_map (write_words a dst v n s) = m_map s" "m_sb (write_words a dst v n s) = m_sb s"
  "b \<noteq> a_vram a \<Longrightarrow> m_mem (write_words a dst v n s) b = m_mem s b"
  by (induction n) (simp_all add: write_words_def pvr_write32p32_frame)

lemma write_words_Suc:
  "write_words a dst v (Suc n) s = write_words a (dst + 4) (\<lambda>i. v (Suc i)) n (pvr_write32p32 a dst (v 0) s)"
proof -
  have "[0..<Suc n] = 0 # map Suc [0..<n]" by (simp add: map_Suc_upt upt_conv_Cons del: upt_Suc)
  then have "write_words a dst v (Suc n) s = fold (\<lambda>i. pvr_write32p32 a (dst + 4 * of_nat (Suc i)) (v (Suc i))) [0..<n]
      (pvr_write32p32 a dst (v 0) s)"
    by (simp add: write_words_def fold_map comp_def del: upt_Suc)
  then show ?thesis by (simp add: write_words_def distrib_left add.assoc)
qed

lemma write_words_read:
  assumes "areas_wf a" "inj_on (\<lambda>i. vram_word a (dst + 4 * of_nat i)) {..<n}"
  shows "\<And>i. i < n \<Longrightarrow> pvr_read32p32 a (dst + 4 * of_nat i) (write_words a dst v n s) = v i"
    and "\<And>y. (\<And>i. i < n \<Longrightarrow> vram_word a y \<noteq> vram_word a (dst + 4 * of_nat i)) \<Longrightarrow>
      pvr_read32p32 a y (write_words a dst v n s) = pvr_read32p32 a y s"
proof -
  have "(\<forall>i<n. pvr_read32p32 a (dst + 4 * of_nat i) (write_words a dst v n s) = v i) \<and>
    (\<forall>y. (\<forall>i<n. vram_word a y \<noteq> vram_word a (dst + 4 * of_nat i)) \<longrightarrow>
      pvr_read32p32 a y (write_words a dst v n s) = pvr_read32p32 a y s)"
    using assms(2)
  proof (induction n)
    case (Suc n)
    have s: "write_words a dst v (Suc n) s = pvr_write32p32 a (dst + 4 * of_nat n) (v n) (write_words a dst v n s)"
      by (simp add: write_words_def)
    have "inj_on (\<lambda>i. vram_word a (dst + 4 * of_nat i)) {..<n}"
      using Suc.prems by (rule inj_on_subset) auto
    note IH = Suc.IH [OF this]
    have d: "vram_word a (dst + 4 * of_nat i) \<noteq> vram_word a (dst + 4 * of_nat n)" if "i < n" for i
      using inj_onD [OF Suc.prems, of i n] that by auto
    show ?case
      using IH d by (auto simp: s pvr_read_write32 [OF assms(1)] less_Suc_eq)
  qed (simp add: write_words_def)
  then show "\<And>i. i < n \<Longrightarrow> pvr_read32p32 a (dst + 4 * of_nat i) (write_words a dst v n s) = v i"
    and "\<And>y. (\<And>i. i < n \<Longrightarrow> vram_word a y \<noteq> vram_word a (dst + 4 * of_nat i)) \<Longrightarrow>
      pvr_read32p32 a y (write_words a dst v n s) = pvr_read32p32 a y s" by blast+
qed

lemma texture32_loop:
  assumes "ram_mapped a s" "a_ram a \<noteq> a_vram a" "4 * n < 2 ^ 32" "\<And>i. i < n \<Longrightarrow> IsOnRam (src + 4 * of_nat i)"
  shows "ch2_texture32_loop E a dst src (of_nat (4 * n)) s = Ret (dst + of_nat (4 * n))
    (write_words a dst (\<lambda>i. ld32 (m_mem s (a_ram a)) (ram_off a (src + 4 * of_nat i))) n s)"
  using assms(1,3,4)
proof (induction n arbitrary: dst src s)
  case 0
  show ?case by (subst ch2_texture32_loop.simps) (simp add: write_words_def)
next
  case (Suc n)
  have u: "unat (of_nat (4 * Suc n) :: u32) = 4 * Suc n"
    using Suc.prems(2) by (intro unat_of_nat_u32)
  have nz: "(of_nat (4 * Suc n) :: u32) \<noteq> 0" "\<not> (of_nat (4 * Suc n) :: u32) < 4"
    using u by (auto simp: word_unat_eq_iff word_less_nat_alt simp del: of_nat_mult of_nat_Suc)
  have sub: "(of_nat (4 * Suc n) :: u32) - 4 = of_nat (4 * n)" by simp
  have "IsOnRam src" using Suc.prems(3) [of 0] by simp
  then have rd: "readt32 E src s = Ret (ld32 (m_mem s (a_ram a)) (ram_off a src)) s"
    using ram_mapped_page [OF Suc.prems(1)] by (simp add: readt32_def ram_off_def)
  let ?s1 = "pvr_write32p32 a dst (ld32 (m_mem s (a_ram a)) (ram_off a src)) s"
  have "ram_mapped a ?s1" using Suc.prems(1) by (simp add: ram_mapped_def pvr_write32p32_frame)
  moreover have "IsOnRam (src + 4 + 4 * of_nat i)" if "i < n" for i
    using Suc.prems(3) [of "Suc i"] that by (simp add: algebra_simps)
  moreover have "4 * n < 2 ^ 32" using Suc.prems(2) by simp
  ultimately have "ch2_texture32_loop E a (dst + 4) (src + 4) (of_nat (4 * n)) ?s1 = Ret (dst + 4 + of_nat (4 * n))
    (write_words a (dst + 4) (\<lambda>i. ld32 (m_mem ?s1 (a_ram a)) (ram_off a (src + 4 + 4 * of_nat i))) n ?s1)"
    by (intro Suc.IH)
  moreover have "ch2_texture32_loop E a dst src (of_nat (4 * Suc n)) s =
      ch2_texture32_loop E a (dst + 4) (src + 4) (of_nat (4 * n)) ?s1"
    unfolding sub [symmetric] using nz by (subst ch2_texture32_loop.simps) (simp add: rd del: of_nat_mult of_nat_Suc)
  ultimately show ?case
    using assms(2) by (simp add: write_words_Suc pvr_write32p32_frame algebra_simps)
qed

text \<open>The end of a transfer, and where a texture goes.\<close>

lemma ch2_finish_regs:
  "ch_TE (DMAC_CHCR 2 (ch2_finish s)) = 1" "DMAC_DMATCR 2 (ch2_finish s) = 0"
  "SB_REG_32 0x005F6808 (ch2_finish s) = 0" "SB_REG_32 0x005F6804 (ch2_finish s) = 0"
  "SB_ISTNRM (m_holly (ch2_finish s)) = SB_ISTNRM (m_holly s) OR 0x80000"
  "DMAC_SAR 2 (ch2_finish s) = DMAC_SAR 2 s" "SB_REG_32 0x005F6800 (ch2_finish s) = SB_REG_32 0x005F6800 s"
  "m_mem (ch2_finish s) = m_mem s" "m_pvr (ch2_finish s) = m_pvr s"
  by (simp_all add: ch2_finish_def asic_RaiseInterrupt_def id_type_def id_bit_def dmac_regs SB_REG_32_def
      ch_set_TE_fields [simplified])

lemma unat_add_le: "unat (x + y :: u32) \<le> unat x + unat y"
  by (simp add: unat_word_ariths)

definition texture_base :: "u32 \<Rightarrow> u32 \<Rightarrow> u32" where
  "texture_base area dst = (dst AND 0xFFFFFF) OR area"

definition to_64bit_path :: "'d machine \<Rightarrow> bool" where
  "to_64bit_path s \<longleftrightarrow> (if SB_REG_32 0x005F6800 s AND 0x02000000 \<noteq> 0 then SB_LMMODE1 s else SB_LMMODE0 s) = 0"

text \<open>
  What a start of channel 2 moves from the offset \<open>off\<close> of main memory: the state \<open>t\<close> after the
  data of \<open>s\<close> has arrived. The tile accelerator and the YUV converter are given the bytes, once; a texture
  is in video memory, byte by byte on the 64-bit path and word by word, seen through the
  32-bit area, on the other one, nothing else has changed in the memories, and the
  destination register is behind it.
\<close>

definition ch2_moved :: "areas \<Rightarrow> 'd pvr_env \<Rightarrow> u32 \<Rightarrow> u32 \<Rightarrow> u32 \<Rightarrow> 'd machine \<Rightarrow> 'd machine \<Rightarrow> bool" where
  "ch2_moved a P off dst len s t \<longleftrightarrow>
    (let byte = (\<lambda>k. m_mem s (a_ram a) (off + k)); n = unat len div 4
     in if dst AND 0x01800000 = 0 then t = ta_vtx_data P byte (len div 32) s
        else if dst AND 0x01000000 = 0 then t = YUV_data a byte (len div 32) s
        else (\<forall>b. b \<noteq> a_vram a \<longrightarrow> m_mem t b = m_mem s b) \<and>
          (if to_64bit_path s
           then let d = texture_base 0xa4000000 dst
             in SB_REG_32 0x005F6800 t = d + len \<and>
                (\<forall>x. vram a t x = (if unat (x - (d AND VRAM_MASK a)) < unat len
                   then byte (x - (d AND VRAM_MASK a)) else vram a s x))
           else let d = texture_base 0xa5000000 dst
             in SB_REG_32 0x005F6800 t = d + len \<and>
                (\<forall>i<n. pvr_read32p32 a (d + 4 * of_nat i) t = ld32 (m_mem s (a_ram a)) (off + 4 * of_nat i)) \<and>
                (\<forall>y. (\<forall>i<n. vram_word a y \<noteq> vram_word a (d + 4 * of_nat i)) \<longrightarrow>
                   pvr_read32p32 a y t = pvr_read32p32 a y s)))"

lemma texture_base_simps:
  "texture_base 0xa4000000 dst = (dst AND 0x00FFFFFF) OR 0xa4000000"
  "drop_bit 24 (texture_base 0xa4000000 dst) = 0xa4"
  "areas_wf a \<Longrightarrow> texture_base 0xa5000000 dst AND VRAM_MASK a = dst AND VRAM_MASK a"
proof -
  have "texture_base 0xa5000000 dst AND m = dst AND m" if "m AND 0xFFFFFF = m" "m AND 0xa5000000 = 0" for m
  proof -
    have "texture_base 0xa5000000 dst AND m = dst AND (0xFFFFFF AND m) OR (0xa5000000 AND m)"
      by (simp only: texture_base_def bit.conj_disj_distrib2 and.assoc)
    then show ?thesis using that by (simp only: and.commute [of _ m] or.right_neutral)
  qed
  then show "areas_wf a \<Longrightarrow> texture_base 0xa5000000 dst AND VRAM_MASK a = dst AND VRAM_MASK a"
    by (auto simp: areas_wf_def)
next
  have "texture_base 0xa4000000 dst = (dst AND 0xFFFFFF) OR 0xa4000000" by (simp add: texture_base_def)
  moreover have "drop_bit 24 (0xFFFFFF :: u32) = 0" "drop_bit 24 (0xa4000000 :: u32) = 0xa4"
    by (simp_all add: drop_bit_eq_div)
  ultimately show "drop_bit 24 (texture_base 0xa4000000 dst) = 0xa4"
    by (simp only: drop_bit_and drop_bit_or and_zero_eq or.left_neutral)
qed (simp add: texture_base_def)

lemma ch2_texture64_moved:
  fixes dst :: u32
  assumes "ram_mapped a s" "drop_bit 26 src = 3" "unat (ram_off a src) + unat len \<le> unat (RAM_SIZE a)"
  defines "d \<equiv> texture_base 0xa4000000 dst"
  shows "\<exists>t. ch2_texture64 E a dst src len s = Ret (d + len) t \<and> m_sb t = m_sb s \<and>
    (\<forall>b. b \<noteq> a_vram a \<longrightarrow> m_mem t b = m_mem s b) \<and>
    (\<forall>x. vram a t x = (if unat (x - (d AND VRAM_MASK a)) < unat len
       then m_mem s (a_ram a) (ram_off a src + (x - (d AND VRAM_MASK a))) else vram a s x))"
proof -
  have wf: "areas_wf a" using assms(1) by (simp add: ram_mapped_def)
  have "IsOnRam src" using ram_offset(1) [OF wf assms(2), of 0] ram_off_less [OF wf] by simp
  note r = ram_mapped_page [OF assms(1) this]
  have "unat (page_of d) = 0xa4"
    unfolding page_of_def d_def texture_base_simps(2) by simp
  note v = vram_mapped_page [OF assms(1), of d, unfolded this]
  let ?dv = "d AND VRAM_MASK a"
  let ?t = "memcpy (a_vram a) ?dv (m_mem s (a_ram a)) (ram_off a src) (unat len) s"
  have b: "block_of d s = Some (a_vram a, ?dv)" "block_of src s = Some (a_ram a, ram_off a src)"
    using v r by (simp_all add: block_of_def ram_off_def)
  have le: "\<not> RAM_SIZE a < (src AND RAM_MASK a) + len"
  proof -
    have "unat (ram_off a src + len) \<le> unat (RAM_SIZE a)"
      using assms(3) unat_add_le [of "ram_off a src" len] by linarith
    then show ?thesis by (simp add: ram_off_def word_less_nat_alt not_less)
  qed
  have "ch2_texture64 E a dst src len s = Ret (d + len) ?t"
    using le b by (simp add: ch2_texture64_def texture_base_simps(1) [symmetric] d_def [symmetric] Let_def
        WriteMemBlock_nommu_dma_def)
  moreover have "vram a ?t x = (if unat (x - ?dv) < unat len
       then m_mem s (a_ram a) (ram_off a src + (x - ?dv)) else vram a s x)" for x
  proof -
    have "unat len \<le> 2 ^ 32" using unsigned_less [of len, where 'a = nat] by simp
    from memcpy_apply [OF this, of ?dv "\<lambda>k. m_mem s (a_ram a) (ram_off a src + of_nat k)" "m_mem s (a_vram a)" x]
    show ?thesis by (simp add: vram_def memcpy_def)
  qed
  ultimately show ?thesis by (intro exI [of _ ?t]) (simp add: memcpy_def upd_block_def)
qed

lemma vram_words_inj:
  assumes wf: "areas_wf a" and d: "take_bit 2 d = 0"
    and le: "unat (d AND VRAM_MASK a) + 4 * n \<le> unat (VRAM_MASK a) + 1"
  shows "inj_on (\<lambda>i. vram_word a (d + 4 * of_nat i)) {..<n}"
proof (rule inj_onI)
  obtain m where m: "m \<in> {23, 24}" "VRAM_MASK a = mask m" "unat (VRAM_MASK a) + 1 = 2 ^ m"
    using VRAM_MASK_mask [OF wf] by blast
  have al: "take_bit 2 (d + 4 * of_nat i) = 0" for i
    using word_aligned_add [OF d, of "of_nat i"] .
  have w: "vram_word a (d + 4 * of_nat i) = take_bit m d + of_nat (4 * i)" if "i < n" for i
  proof -
    have "unat (take_bit m d) + 4 * i < 2 ^ m" using le that m(3) by (simp add: m(2) take_bit_eq_mask)
    from take_bit_add_no_carry(1) [OF this] m(1)
    have t: "take_bit m (d + of_nat (4 * i)) = take_bit m d + of_nat (4 * i)" by auto
    have "vram_word a (d + 4 * of_nat i) = (d + 4 * of_nat i AND NOT 3) AND mask m"
      by (simp only: vram_word_def m(2) and.assoc and.commute [of "mask m"])
    also have "\<dots> = take_bit m (d + 4 * of_nat i)"
      unfolding word_aligned [THEN iffD2, OF al] take_bit_eq_mask ..
    finally show ?thesis using t by simp
  qed
  fix i j assume "i \<in> {..<n}" "j \<in> {..<n}" "vram_word a (d + 4 * of_nat i) = vram_word a (d + 4 * of_nat j)"
  then have "(of_nat (4 * i) :: u32) = of_nat (4 * j)" "i < n" "j < n" using w by simp_all
  moreover have "4 * n < 2 ^ 32" using le m(1,3) by auto
  ultimately show "i = j" using u32_of_nat_eq [of "4 * i" "4 * j"] by simp
qed

lemma ch2_texture32_moved:
  assumes "ram_mapped a s" "a_ram a \<noteq> a_vram a" "drop_bit 26 src = 3"
    and "unat (ram_off a src) + unat len \<le> unat (RAM_SIZE a)"
    and "take_bit 2 len = 0" "take_bit 2 src = 0" "take_bit 2 dst = 0"
    and "unat (dst AND VRAM_MASK a) + unat len \<le> unat (VRAM_MASK a) + 1"
  defines "d \<equiv> texture_base 0xa5000000 dst" and "n \<equiv> unat len div 4"
  shows "\<exists>t. ch2_texture32_loop E a d src len s = Ret (d + len) t \<and> m_sb t = m_sb s \<and>
    (\<forall>b. b \<noteq> a_vram a \<longrightarrow> m_mem t b = m_mem s b) \<and>
    (\<forall>i<n. pvr_read32p32 a (d + 4 * of_nat i) t = ld32 (m_mem s (a_ram a)) (ram_off a src + 4 * of_nat i)) \<and>
    (\<forall>y. (\<forall>i<n. vram_word a y \<noteq> vram_word a (d + 4 * of_nat i)) \<longrightarrow>
       pvr_read32p32 a y t = pvr_read32p32 a y s)"
proof -
  have wf: "areas_wf a" using assms(1) by (simp add: ram_mapped_def)
  have "unat (take_bit 2 len) = unat len mod 4"
    by (simp only: unsigned_take_bit_eq) (simp add: take_bit_eq_mod)
  then have n: "4 * n = unat len" using assms(5) by (simp add: n_def minus_mod_eq_mult_div [symmetric])
  then have len: "len = of_nat (4 * n)" by simp
  have n32: "4 * n < 2 ^ 32" using n unsigned_less [of len, where 'a = nat] by simp
  have src: "IsOnRam (src + 4 * of_nat i)" "ram_off a (src + 4 * of_nat i) = ram_off a src + 4 * of_nat i" if "i < n" for i
    using ram_offset [OF wf assms(3), of "4 * i"] assms(4) n that by simp_all
  have "take_bit 2 d = 0"
    using assms(7) by (simp add: d_def texture_base_def take_bit_or take_bit_and)
  then have inj: "inj_on (\<lambda>i. vram_word a (d + 4 * of_nat i)) {..<n}"
    using assms(8) n texture_base_simps(3) [OF wf, of dst]
    by (intro vram_words_inj [OF wf]) (simp_all add: d_def)
  let ?v = "\<lambda>i. ld32 (m_mem s (a_ram a)) (ram_off a (src + 4 * of_nat i))"
  note rd = write_words_read [OF wf inj, where v = ?v and s = s]
  show ?thesis
    using texture32_loop [OF assms(1,2) n32 src(1), of E d, folded len] rd src(2)
    by (intro exI [of _ "write_words a d ?v n s"]) (auto simp: write_words_frame)
qed

lemma ch2_texture_moved:
  assumes "ram_mapped a s" "a_ram a \<noteq> a_vram a" "drop_bit 26 src = 3"
    and "unat (ram_off a src) + unat len \<le> unat (RAM_SIZE a)"
    and "take_bit 2 len = 0" "take_bit 2 src = 0" "take_bit 2 dst = 0"
    and "unat (dst AND VRAM_MASK a) + unat len \<le> unat (VRAM_MASK a) + 1" and d: "dst AND 0x01000000 \<noteq> 0"
  shows "\<exists>e t. ch2_texture E a dst src len s = Ret e t \<and> ch2_moved a P (ram_off a src) dst len s (set_SB 0x005F6800 e t)"
proof -
  have d': "dst AND 0x01800000 \<noteq> 0"
  proof
    assume "dst AND 0x01800000 = 0"
    then have "(dst AND 0x01800000) AND 0x01000000 = 0" by simp
    then show False using d by (simp add: and.assoc)
  qed
  show ?thesis
  proof (cases "to_64bit_path s")
    case True
    from ch2_texture64_moved [OF assms(1,3,4), of E dst] True d d' show ?thesis
      by (auto simp: ch2_texture_def to_64bit_path_def ch2_moved_def Let_def SB_REG_32_def vram_def split: if_splits)
  next
    case False
    from ch2_texture32_moved [OF assms(1-8), of E] False d d' show ?thesis
      by (auto simp: ch2_texture_def to_64bit_path_def ch2_moved_def Let_def SB_REG_32_def vram_def
          pvr_read32p32_def texture_base_def split: if_splits)
  qed
qed

lemma ch2_transfer:
  assumes "DMAC_DMAOR s AND DMAOR_MASK = 0x8201"
  defines "src \<equiv> DMAC_SAR 2 s AND 0x1fffffe0" and "dst \<equiv> SB_REG_32 0x005F6800 s AND 0x01ffffe0"
    and "len \<equiv> SB_REG_32 0x005F6804 s"
  assumes h: "drop_bit 26 src = 3" "take_bit 2 len = 0"
      "unat (ram_off a src) + unat len \<le> unat (RAM_SIZE a)"
    and tex: "dst AND 0x01000000 \<noteq> 0 \<Longrightarrow> ram_mapped a s \<and> a_ram a \<noteq> a_vram a \<and>
      unat (dst AND VRAM_MASK a) + unat len \<le> unat (VRAM_MASK a) + 1"
  shows "\<exists>t. DMAC_Ch2St E a P s = Ret () (ch2_finish t) \<and> ch2_moved a P (ram_off a src) dst len s t"
proof (cases "dst AND 0x01000000 = 0")
  case True
  have "ram_off a src + len \<le> RAM_SIZE a"
    using h unat_add_le [of "ram_off a src" len] by (simp add: word_le_nat_alt)
  moreover have "drop_bit 29 src = drop_bit 3 (drop_bit 26 src)" by simp
  ultimately have "GetMemPtr a src len = Some (ram_off a src)" "\<not> RAM_SIZE a < (src AND RAM_MASK a) + len"
    using h by (simp_all add: GetMemPtr_def ram_off_def not_less)
  moreover have "dst AND 0x01800000 = dst AND 0x800000"
  proof -
    have "(0x01800000 :: u32) = 0x01000000 OR 0x800000" by simp
    then show ?thesis using True by (simp only: bit.conj_disj_distrib or.left_neutral)
  qed
  ultimately show ?thesis
    using h True assms(1)
    by (simp add: DMAC_Ch2St_def Let_def src_def [symmetric] dst_def [symmetric] len_def [symmetric]
        ch2_to_ta_def ch2_tawrite_def TAWrite_def ch2_moved_def)
next
  case False
  have "take_bit 2 src = 0" "take_bit 2 dst = 0" by (simp_all add: src_def dst_def take_bit_and)
  with ch2_texture_moved [of a s src len dst E P] h tex False obtain e t where
    "ch2_texture E a dst src len s = Ret e t" "ch2_moved a P (ram_off a src) dst len s (set_SB 0x005F6800 e t)" by blast
  then show ?thesis
    using h False assms(1) by (intro exI [of _ "set_SB 0x005F6800 e t"])
      (simp add: DMAC_Ch2St_def Let_def src_def [symmetric] dst_def [symmetric] len_def [symmetric])
qed

text \<open>C37: A start of channel 2 has three outcomes. With invalid settings of the operation register
  nothing happens at all, and the start bit stays set. With a source outside main memory the
  address error flag is set and the end of the transfer is signalled, while no byte is moved and
  the start bit, the length and the control register stay as they were. Otherwise, for a whole
  number of words, a source that does not run over the end of main memory and, if it is a texture, the
  memory map of the system and a destination that does not run over the end of video memory: all
  the data (whole units of 32 bytes for the first two) is moved at once to where the destination says,
  the tile accelerator, the YUV converter, or video memory through its 64-bit or its 32-bit area; then the
  transfer end flag is set, count, length and start bit are zero, the interrupt of the
  channel is raised, and the channel itself has touched neither its source register nor anything
  else in the memories and the graphics chip.\<close>
theorem ch2_dma_branches:
  fixes s :: "'d machine"
  defines "s1 \<equiv> set_SB 0x005F6808 1 s"
    and "src \<equiv> DMAC_SAR 2 s AND 0x1fffffe0" and "dst \<equiv> SB_REG_32 0x005F6800 s AND 0x01ffffe0"
    and "len \<equiv> SB_REG_32 0x005F6804 s"
  shows "(DMAC_DMAOR s AND DMAOR_MASK \<noteq> 0x8201 \<longrightarrow> RegWrite_SB_C2DST E a P addr 1 s = Ret () s1) \<and>
    (DMAC_DMAOR s AND DMAOR_MASK = 0x8201 \<and> drop_bit 26 src \<noteq> 3 \<longrightarrow>
      (\<exists>s'. RegWrite_SB_C2DST E a P addr 1 s = Ret () s' \<and>
        DMAC_DMAOR s' = DMAC_DMAOR s OR 4 \<and> SB_ISTNRM (m_holly s') = SB_ISTNRM (m_holly s) OR 0x80000 \<and>
        m_mem s' = m_mem s \<and> m_pvr s' = m_pvr s \<and> m_sb s' = m_sb s1 \<and> DMAC_CHCR 2 s' = DMAC_CHCR 2 s)) \<and>
    (DMAC_DMAOR s AND DMAOR_MASK = 0x8201 \<and> drop_bit 26 src = 3 \<and> take_bit 2 len = 0 \<and>
      unat (ram_off a src) + unat len \<le> unat (RAM_SIZE a) \<and>
      (dst AND 0x01000000 \<noteq> 0 \<longrightarrow> ram_mapped a s \<and> a_ram a \<noteq> a_vram a \<and>
         unat (dst AND VRAM_MASK a) + unat len \<le> unat (VRAM_MASK a) + 1) \<longrightarrow>
      (\<exists>t s'. RegWrite_SB_C2DST E a P addr 1 s = Ret () s' \<and> ch2_moved a P (ram_off a src) dst len s1 t \<and>
        ch_TE (DMAC_CHCR 2 s') = 1 \<and> DMAC_DMATCR 2 s' = 0 \<and>
        SB_REG_32 0x005F6808 s' = 0 \<and> SB_REG_32 0x005F6804 s' = 0 \<and>
        SB_ISTNRM (m_holly s') = SB_ISTNRM (m_holly t) OR 0x80000 \<and>
        SB_REG_32 0x005F6800 s' = SB_REG_32 0x005F6800 t \<and> DMAC_SAR 2 s' = DMAC_SAR 2 t \<and>
        m_mem s' = m_mem t \<and> m_pvr s' = m_pvr t))"
    (is "?A \<and> ?B \<and> ?C")
proof -
  have r: "DMAC_DMAOR s1 = DMAC_DMAOR s" "DMAC_SAR 2 s1 AND 0x1fffffe0 = src"
    "SB_REG_32 0x005F6800 s1 AND 0x01ffffe0 = dst" "SB_REG_32 0x005F6804 s1 = len"
    by (simp_all add: s1_def src_def dst_def len_def dmac_regs SB_REG_32_def)
  have e: "RegWrite_SB_C2DST E a P addr 1 s = DMAC_Ch2St E a P s1"
    by (simp add: RegWrite_SB_C2DST_def s1_def)
  have "?A"
    unfolding e by (simp add: DMAC_Ch2St_def Let_def r eq_commute)
  moreover have "?B"
  proof
    assume h: "DMAC_DMAOR s AND DMAOR_MASK = 0x8201 \<and> drop_bit 26 src \<noteq> 3"
    have e2: "DMAC_Ch2St E a P s1 = Ret () (asic_RaiseInterrupt holly_CH2_DMA (set_DMAOR (set_fld 2 1 1 (DMAC_DMAOR s)) s1))"
      using h by (simp add: DMAC_Ch2St_def Let_def r)
    show "\<exists>s'. RegWrite_SB_C2DST E a P addr 1 s = Ret () s' \<and>
        DMAC_DMAOR s' = DMAC_DMAOR s OR 4 \<and> SB_ISTNRM (m_holly s') = SB_ISTNRM (m_holly s) OR 0x80000 \<and>
        m_mem s' = m_mem s \<and> m_pvr s' = m_pvr s \<and> m_sb s' = m_sb s1 \<and> DMAC_CHCR 2 s' = DMAC_CHCR 2 s"
      unfolding e e2 set_fld_4
      by (simp add: asic_RaiseInterrupt_def id_type_def id_bit_def dmac_regs s1_def)
  qed
  moreover have "?C"
  proof
    assume h: "DMAC_DMAOR s AND DMAOR_MASK = 0x8201 \<and> drop_bit 26 src = 3 \<and> take_bit 2 len = 0 \<and>
      unat (ram_off a src) + unat len \<le> unat (RAM_SIZE a) \<and>
      (dst AND 0x01000000 \<noteq> 0 \<longrightarrow> ram_mapped a s \<and> a_ram a \<noteq> a_vram a \<and>
         unat (dst AND VRAM_MASK a) + unat len \<le> unat (VRAM_MASK a) + 1)"
    have m: "ram_mapped a s1 = ram_mapped a s" by (simp add: ram_mapped_def s1_def set_SB_def)
    have "\<exists>t. DMAC_Ch2St E a P s1 = Ret () (ch2_finish t) \<and> ch2_moved a P (ram_off a src) dst len s1 t"
      using ch2_transfer [of s1 a E P, unfolded r m] h by blast
    then show "\<exists>t s'. RegWrite_SB_C2DST E a P addr 1 s = Ret () s' \<and> ch2_moved a P (ram_off a src) dst len s1 t \<and>
        ch_TE (DMAC_CHCR 2 s') = 1 \<and> DMAC_DMATCR 2 s' = 0 \<and>
        SB_REG_32 0x005F6808 s' = 0 \<and> SB_REG_32 0x005F6804 s' = 0 \<and>
        SB_ISTNRM (m_holly s') = SB_ISTNRM (m_holly t) OR 0x80000 \<and>
        SB_REG_32 0x005F6800 s' = SB_REG_32 0x005F6800 t \<and> DMAC_SAR 2 s' = DMAC_SAR 2 t \<and>
        m_mem s' = m_mem t \<and> m_pvr s' = m_pvr t"
      unfolding e by (metis ch2_finish_regs)
  qed
  ultimately show ?thesis by blast
qed

text \<open>A texture of 32 bytes, sent from main memory to the 64-bit area of video memory.\<close>

definition ch2_example :: "unit machine" where
  "ch2_example = upd_block 0 (\<lambda>_ k. ucast k + 1) (set_SB 0x005F6800 0x11000040 (set_SB 0x005F6804 0x20
     (set_SAR 2 0x8C000100 (set_DMAOR 0x8201 (mapped_machine ())))))"

theorem ch2_dma_branches_witness:
  "\<exists>s'. RegWrite_SB_C2DST idle_env dreamcast_areas (\<lparr>ta_vtx_data32 = \<lambda>_ s. s, ta_vtx_data = \<lambda>_ _ s. s\<rparr>) 0 1
     ch2_example = Ret () s' \<and> m_mem s' 1 0x45 = 6 \<and> m_mem ch2_example 1 0x45 = 0 \<and>
     ch_TE (DMAC_CHCR 2 s') = 1 \<and> SB_REG_32 0x005F6808 s' = 0 \<and> SB_REG_32 0x005F6800 s' = 0xA4000060"
proof -
  let ?P = "\<lparr>ta_vtx_data32 = \<lambda>_ s. s, ta_vtx_data = \<lambda>_ _ s. s\<rparr> :: unit pvr_env"
  have r: "DMAC_DMAOR ch2_example = 0x8201" "DMAC_SAR 2 ch2_example = 0x8C000100"
    "SB_REG_32 0x005F6800 ch2_example = 0x11000040" "SB_REG_32 0x005F6804 ch2_example = 0x20"
    by (simp_all add: ch2_example_def dmac_regs SB_REG_32_def)
  have mem: "m_mem ch2_example 0 = (\<lambda>k. ucast k + 1)" "m_mem ch2_example 1 x = 0" for x
    by (simp_all add: ch2_example_def dmac_regs mapped_machine_def zero_machine_def)
  have map: "ram_mapped dreamcast_areas ch2_example"
    using mapped_machine_ram [of "()"] by (simp add: ram_mapped_def ch2_example_def dmac_regs set_SB_def)
  have a: "a_ram dreamcast_areas = 0" "a_vram dreamcast_areas = 1" "VRAM_MASK dreamcast_areas = 0x7FFFFF"
    "ram_off dreamcast_areas x = x AND 0xFFFFFF" "RAM_SIZE dreamcast_areas = 0x1000000" for x
    by (simp_all add: ram_off_def dreamcast_RAM) (simp_all add: dreamcast_areas_def)
  have l: "to_64bit_path (set_SB 0x005F6808 1 ch2_example)"
    by (simp add: to_64bit_path_def SB_REG_32_def SB_LMMODE0_def SB_LMMODE1_def ch2_example_def dmac_regs
        mapped_machine_def zero_machine_def)
  obtain t s' where t: "RegWrite_SB_C2DST idle_env dreamcast_areas ?P 0 1 ch2_example = Ret () s'"
    "ch2_moved dreamcast_areas ?P 0x100 0x01000040 0x20 (set_SB 0x005F6808 1 ch2_example) t"
    "ch_TE (DMAC_CHCR 2 s') = 1" "SB_REG_32 0x005F6808 s' = 0" "SB_REG_32 0x005F6800 s' = SB_REG_32 0x005F6800 t"
    "m_mem s' = m_mem t"
    using ch2_dma_branches [of ch2_example idle_env dreamcast_areas ?P 0, unfolded r] map
    by (auto simp: DMAOR_MASK_def a take_bit_eq_mod)
  have "m_mem t 1 0x45 = 6" "SB_REG_32 0x005F6800 t = 0xA4000060"
    using t(2) l by (simp_all add: ch2_moved_def Let_def a mem vram_def texture_base_def)
  with t mem(2) show ?thesis by auto
qed

section \<open>Clearing the transfer end flag\<close>

text \<open>
  A write that clears the transfer end flag of a stopped channel changes the control register
  alone: the interrupt line of the channel keeps whatever an earlier transfer left on it.
\<close>

lemma WriteCHCR_stopped:
  assumes "ch_DE data = 0"
  shows "WriteCHCR E ch addr data s =
    Ret () (set_CHCR ch (data AND (if ch = 0 \<or> ch = 1 then 0xff0ffff7 else 0xff0afff7)) s)"
  using assms chcr_fields(1) [of data ch]
  by (simp add: WriteCHCR_def Let_def DMAC_CHCR_def set_CHCR_def)

lemma WriteCHCR_stopped_line:
  assumes "ch_DE data = 0" "WriteCHCR E ch addr data s = Ret () s'"
  shows "m_intc s' = m_intc s"
  using assms by (auto simp: WriteCHCR_stopped set_CHCR_def)

text \<open>
  A source in the last block of the last mirror of main memory: the second part of a transfer
  that runs over the end of the memory has no host pointer.
\<close>

lemma ch2_null_pointer:
  "GetMemPtr dreamcast_areas (0x0FFFFFE0 + 0x20) len = None"
  by (simp add: GetMemPtr_def)

end
