(* ===== verification/Scif.thy ===== *)
theory Scif
  imports Tmu
begin

text \<open>
  The serial port with FIFO, \<^verbatim>\<open>hw/sh4/modules/serial.cpp\<close>: the registers, the two FIFOs, the
  bit clock (a scheduler entry), breaks (another one) and the four interrupt lines. The other
  end of the line is a \<^verbatim>\<open>Pipe\<close> of another part of the program, a parameter that works on the
  state of the devices.

  The lemmas show that the transmitter is a queue: the bytes given to the pipe followed by the
  bytes of the FIFO are the accepted bytes, in order, and the callbacks of the scheduler empty it,
  unless the bytes were written while the transmitter was neither enabled nor running.
\<close>

section \<open>Registers\<close>

record 'd pipe =
  pipe_write :: "u8 \<Rightarrow> 'd \<Rightarrow> 'd"
  pipe_available :: "'d \<Rightarrow> int"
  pipe_read :: "'d \<Rightarrow> u8 \<times> 'd"
  pipe_sendBreak :: "'d \<Rightarrow> 'd"

text \<open>The 16-bit registers are the low halves of the entries of the register bank.\<close>

definition scif_reg :: "nat \<Rightarrow> 'd machine \<Rightarrow> u16" where
  "scif_reg i s = ucast (m_p4 s SCIF i)"

definition set_scif_reg :: "nat \<Rightarrow> u16 \<Rightarrow> 'd machine \<Rightarrow> 'd machine" where
  "set_scif_reg i v = m_p4_update (\<lambda>r. r(SCIF := (r SCIF)(i := set_fld 0 16 (ucast v) (r SCIF i))))"

definition SCIF_SCBRR2 :: "'d machine \<Rightarrow> u32" where "SCIF_SCBRR2 s = m_p4 s SCIF 1"
definition set_SCBRR2 :: "u32 \<Rightarrow> 'd machine \<Rightarrow> 'd machine" where
  "set_SCBRR2 v = m_p4_update (\<lambda>r. r(SCIF := (r SCIF)(1 := v)))"

abbreviation (input) "sh4_SCIF_ERI \<equiv> (21 :: nat)"
abbreviation (input) "sh4_SCIF_RXI \<equiv> (22 :: nat)"
abbreviation (input) "sh4_SCIF_BRI \<equiv> (23 :: nat)"
abbreviation (input) "sh4_SCIF_TXI \<equiv> (24 :: nat)"
abbreviation (input) "SCSMR2 \<equiv> (0 :: nat)"
abbreviation (input) "SCSCR2 \<equiv> (2 :: nat)"
abbreviation (input) "SCFSR2 \<equiv> (4 :: nat)"
abbreviation (input) "SCFCR2 \<equiv> (6 :: nat)"
abbreviation (input) "SCSPTR2 \<equiv> (8 :: nat)"
abbreviation (input) "SCLSR2 \<equiv> (9 :: nat)"

text \<open>The enumeration \<^verbatim>\<open>StatusBit\<close>, and the register fields by bit position.\<close>

abbreviation (input) "DR_bit \<equiv> (0x01 :: u16)"
abbreviation (input) "RDF_bit \<equiv> (0x02 :: u16)"
abbreviation (input) "BRK_bit \<equiv> (0x10 :: u16)"
abbreviation (input) "TDFE_bit \<equiv> (0x20 :: u16)"
abbreviation (input) "TEND_bit \<equiv> (0x40 :: u16)"

definition sr_bit :: "nat \<Rightarrow> 'd machine \<Rightarrow> bool" where "sr_bit k s = bit (scif_reg SCFSR2 s) k"
definition cr_bit :: "nat \<Rightarrow> 'd machine \<Rightarrow> bool" where "cr_bit k s = bit (scif_reg SCSCR2 s) k"
definition TFRST :: "'d machine \<Rightarrow> bool" where "TFRST s = bit (scif_reg SCFCR2 s) 2"
definition RFRST :: "'d machine \<Rightarrow> bool" where "RFRST s = bit (scif_reg SCFCR2 s) 1"
definition TTRG :: "'d machine \<Rightarrow> nat" where "TTRG s = unat (fld 4 2 (scif_reg SCFCR2 s))"
definition RTRG :: "'d machine \<Rightarrow> nat" where "RTRG s = unat (fld 6 2 (scif_reg SCFCR2 s))"
definition SPB2DT :: "'d machine \<Rightarrow> bool" where "SPB2DT s = bit (scif_reg SCSPTR2 s) 0"
definition SPB2IO :: "'d machine \<Rightarrow> bool" where "SPB2IO s = bit (scif_reg SCSPTR2 s) 1"
definition CHR7 :: "'d machine \<Rightarrow> bool" where "CHR7 s = bit (scif_reg SCSMR2 s) 6"

abbreviation "SCSCR_TE \<equiv> cr_bit 5"
abbreviation "SCSCR_RE \<equiv> cr_bit 4"

section \<open>Interrupts and status\<close>

definition updateInterrupts :: "'d machine \<Rightarrow> 'd machine" where
  "updateInterrupts s =
    (let s1 = InterruptMask sh4_SCIF_TXI (cr_bit 7 s) (InterruptPend sh4_SCIF_TXI (sr_bit 5 s) s);
         s2 = InterruptMask sh4_SCIF_RXI (cr_bit 6 s1) (InterruptPend sh4_SCIF_RXI (sr_bit 1 s1 \<or> sr_bit 0 s1) s1);
         s3 = InterruptMask sh4_SCIF_BRI (cr_bit 6 s2 \<or> cr_bit 3 s2) (InterruptPend sh4_SCIF_BRI (sr_bit 4 s2) s2)
     in InterruptMask sh4_SCIF_ERI (cr_bit 6 s3 \<or> cr_bit 3 s3)
          (InterruptPend sh4_SCIF_ERI (sr_bit 7 s3 \<or> sr_bit 3 s3 \<or> sr_bit 2 s3) s3))"

definition isTDFE :: "'d machine \<Rightarrow> bool" where
  "isTDFE s \<longleftrightarrow> length (txFifo (m_scif s)) \<le> 2 ^ (3 - TTRG s)"

definition isRDF :: "'d machine \<Rightarrow> bool" where
  "isRDF s \<longleftrightarrow> [1, 4, 8, 14] ! RTRG s \<le> length (rxFifo (m_scif s))"

definition setStatusBit :: "u16 \<Rightarrow> 'd machine \<Rightarrow> 'd machine" where
  "setStatusBit b s =
    (let s1 = m_scif_update (statusLastRead_update (\<lambda>x. x AND NOT b)) s
     in set_scif_reg SCFSR2 (scif_reg SCFSR2 s1 OR b) s1)"

definition readStatus :: "'d machine \<Rightarrow> u16 \<times> 'd machine" where
  "readStatus s = (scif_reg SCFSR2 s, m_scif_update (statusLastRead_update (\<lambda>_. scif_reg SCFSR2 s)) s)"

definition writeStatus :: "u16 \<Rightarrow> 'd machine \<Rightarrow> 'd machine" where
  "writeStatus data s =
    (let d1 = data OR 0xFF0C OR NOT (statusLastRead (m_scif s));
         d2 = (if isRDF s then d1 OR RDF_bit else d1);
         d3 = (if isTDFE s then d2 OR TDFE_bit else d2);
         d4 = (if rxFifo (m_scif s) \<noteq> [] then d3 OR DR_bit else d3)
     in updateInterrupts (m_scif_update (statusLastRead_update (\<lambda>x. x AND d4))
          (set_scif_reg SCFSR2 (scif_reg SCFSR2 s AND d4) s)))"

section \<open>Transmission and reception\<close>

definition frame_cycles :: "'d machine \<Rightarrow> u32" where
  "frame_cycles s = word_of_int (frameSize (m_scif s) * cyclesPerBit (m_scif s))"

definition upd_pipe :: "('d \<Rightarrow> 'd) \<Rightarrow> 'd machine \<Rightarrow> 'd machine" where
  "upd_pipe f s = (if scif_pipe (m_scif s) then m_dev_update f s else s)"

definition set_transmitting :: "bool \<Rightarrow> 'd machine \<Rightarrow> 'd machine" where
  "set_transmitting b = m_scif_update (transmitting_update (\<lambda>_. b))"

definition set_txFifo :: "u8 list \<Rightarrow> 'd machine \<Rightarrow> 'd machine" where
  "set_txFifo q = m_scif_update (txFifo_update (\<lambda>_. q))"

definition set_rxFifo :: "u8 list \<Rightarrow> 'd machine \<Rightarrow> 'd machine" where
  "set_rxFifo q = m_scif_update (rxFifo_update (\<lambda>_. q))"

definition txDone :: "'d pipe \<Rightarrow> 'd machine \<Rightarrow> bool \<times> 'd machine" where
  "txDone P s =
    (if \<not> transmitting (m_scif s) \<or> TFRST s then (False, s)
     else case txFifo (m_scif s) of
       [] \<Rightarrow> (False, set_transmitting False (setStatusBit TEND_bit s))
     | v # q \<Rightarrow>
         let s1 = upd_pipe (pipe_write P v) (set_txFifo q s)
         in (True, if isTDFE s1 then updateInterrupts (setStatusBit TDFE_bit s1) else s1))"

definition rxSched :: "'d pipe \<Rightarrow> 'd machine \<Rightarrow> 'd machine" where
  "rxSched P s =
    (if \<not> scif_pipe (m_scif s) then s
     else if 0 < pipe_available P (m_dev s)
     then let (v, d) = pipe_read P (m_dev s); s1 = m_dev_update (\<lambda>_. d) s
       in if \<not> SCSCR_RE s1 \<or> RFRST s1 then s1
          else if length (rxFifo (m_scif s1)) = 16
          then updateInterrupts (set_scif_reg SCLSR2 (scif_reg SCLSR2 s1 OR 1) s1)
          else let s2 = set_rxFifo (rxFifo (m_scif s1) @ [v]) s1
               in if isRDF s2 then updateInterrupts (setStatusBit RDF_bit s2) else s2
     else if rxFifo (m_scif s) \<noteq> [] then updateInterrupts (setStatusBit DR_bit s)
     else s)"

definition sendBreak :: "'d pipe \<Rightarrow> 'd machine \<Rightarrow> 'd machine" where
  "sendBreak P = upd_pipe (pipe_sendBreak P)"

definition schedCallback :: "'d pipe \<Rightarrow> u32 \<Rightarrow> u32 \<Rightarrow> u32 \<Rightarrow> 'd machine \<Rightarrow> u32 \<times> 'd machine" where
  "schedCallback P tag cycles lag s =
    (if tag = 0
     then let (reschedule, s1) = txDone P s; s2 = rxSched P s1
          in (if reschedule \<or> scif_pipe (m_scif s2) then frame_cycles s2 else 0, s2)
     else (0, sendBreak P s))"

definition SCFTDR2_write :: "'d pipe \<Rightarrow> u8 \<Rightarrow> ('d, unit) SM" where
  "SCFTDR2_write P data0 s =
    (if TFRST s then Ret () s
     else let data = (if CHR7 s then data0 AND 0x7f else data0)
       in if txFifo (m_scif s) = [] \<and> \<not> transmitting (m_scif s) \<and> SCSCR_TE s
          then let s1 = set_transmitting True (upd_pipe (pipe_write P data) s)
               in bindM (sh4_sched_request (nat (schedId (m_scif s1))) (frame_cycles s1))
                    (\<lambda>_. modifyM (\<lambda>s. updateInterrupts (setStatusBit TDFE_bit s))) s1
          else if length (txFifo (m_scif s)) < 16
          then Ret () (set_txFifo (txFifo (m_scif s) @ [data]) s)
          else Ret () s)"

definition SCFDR2_read :: "'d machine \<Rightarrow> u16" where
  "SCFDR2_read s = of_nat (length (rxFifo (m_scif s))) OR push_bit 8 (of_nat (length (txFifo (m_scif s))))"

definition SCFRDR2_read :: "'d machine \<Rightarrow> u8 \<times> 'd machine" where
  "SCFRDR2_read s = (case rxFifo (m_scif s) of [] \<Rightarrow> (0, s) | v # q \<Rightarrow> (v, set_rxFifo q s))"

section \<open>Control registers\<close>

definition updateBaudRate :: "('d, unit) SM" where
  "updateBaudRate s =
    (let smr = scif_reg SCSMR2 s;
         fs = 1 + 8 - of_bool (bit smr 6) + of_bool (bit smr 5) + 1 + of_bool (bit smr 3);
         bauds = SH4_MAIN_CLOCK div 4 div (SCIF_SCBRR2 s + 1) div 32 div push_bit (2 * unat (fld 0 2 smr)) 1;
         cpb = uint (SH4_MAIN_CLOCK div bauds);
         s1 = m_scif_update (cyclesPerBit_update (\<lambda>_. cpb)) (m_scif_update (frameSize_update (\<lambda>_. fs)) s)
     in sh4_sched_request (nat (schedId (m_scif s1))) (frame_cycles s1) s1)"

definition setBreak :: "bool \<Rightarrow> ('d, unit) SM" where
  "setBreak on s =
    (let i = nat (brkSchedId (m_scif s))
     in if on
        then if \<not> sh4_sched_is_scheduled i s then sh4_sched_request i (frame_cycles s) s else Ret () s
        else if sh4_sched_is_scheduled i s then sh4_sched_request i sched_none s else Ret () s)"

definition SCSCR2_read :: "'d machine \<Rightarrow> u16" where
  "SCSCR2_read s = scif_reg SCSCR2 s"

definition SCSCR2_write :: "u16 \<Rightarrow> ('d, unit) SM" where
  "SCSCR2_write data s =
    (let s1 = set_scif_reg SCSCR2 (data AND 0x00fa) s
     in bindM (if \<not> SCSCR_TE s1 then (\<lambda>s. setBreak (SPB2IO s1 \<and> \<not> SPB2DT s1) (setStatusBit TEND_bit s))
               else setBreak False)
          (\<lambda>_. modifyM updateInterrupts) s1)"

definition SCSPTR2_read :: "'d machine \<Rightarrow> u16" where
  "SCSPTR2_read s = scif_reg SCSPTR2 s AND NOT 0x10"

definition SCSPTR2_write :: "u16 \<Rightarrow> ('d, unit) SM" where
  "SCSPTR2_write data s =
    (let s1 = set_scif_reg SCSPTR2 (data AND 0x00f3) s
     in if SPB2IO s1 then setBreak (\<not> SPB2DT s1 \<and> \<not> SCSCR_TE s1) s1 else setBreak False s1)"

definition SCFCR2_read :: "'d machine \<Rightarrow> u16" where
  "SCFCR2_read s = scif_reg SCFCR2 s"

definition SCFCR2_write :: "u16 \<Rightarrow> ('d, unit) SM" where
  "SCFCR2_write data s =
    (let s1 = (if TFRST s \<and> data AND 4 = 0
               then updateInterrupts (setStatusBit TDFE_bit (setStatusBit TEND_bit s)) else s);
         s2 = set_scif_reg SCFCR2 (data AND 0x00ff) s1
     in bindM
          (if TFRST s2
           then bindM (modifyM (set_txFifo [])) (\<lambda>_.
                bindM (if \<not> scif_pipe (m_scif s2) then sh4_sched_request (nat (schedId (m_scif s2))) sched_none else returnM ())
                  (\<lambda>_. modifyM (set_transmitting False)))
           else returnM ())
          (\<lambda>_. modifyM (\<lambda>s. if RFRST s then set_rxFifo [] s else s)) s2)"

definition SCBRR2_write :: "u32 \<Rightarrow> u8 \<Rightarrow> ('d, unit) SM" where
  "SCBRR2_write addr data s = updateBaudRate (set_SCBRR2 (ucast data) s)"

definition SCSMR2_write :: "u32 \<Rightarrow> u16 \<Rightarrow> ('d, unit) SM" where
  "SCSMR2_write addr data s = updateBaudRate (set_scif_reg SCSMR2 (data AND 0x007b) s)"

definition receiveBreak :: "'d machine \<Rightarrow> 'd machine" where
  "receiveBreak s = updateInterrupts (setStatusBit BRK_bit s)"

definition setPipe :: "bool \<Rightarrow> 'd machine \<Rightarrow> 'd machine" where
  "setPipe b = m_scif_update (scif_pipe_update (\<lambda>_. b))"

section \<open>Initialization and reset\<close>

text \<open>\<open>cb\<close> is the number of the callback; the tag tells the bit clock from the break.\<close>

definition scif_init :: "nat \<Rightarrow> 'd machine \<Rightarrow> 'd machine" where
  "scif_init cb s =
    (let s1 = (if schedId (m_scif s) = -1
               then case sh4_sched_register 0 (Some cb) 0 s of (i, s') \<Rightarrow> m_scif_update (schedId_update (\<lambda>_. int i)) s' else s)
     in if brkSchedId (m_scif s1) = -1
        then case sh4_sched_register 1 (Some cb) 0 s1 of (i, s') \<Rightarrow> m_scif_update (brkSchedId_update (\<lambda>_. int i)) s' else s1)"

definition scif_term :: "('d, unit) SM" where
  "scif_term s =
     bindM (if schedId (m_scif s) \<noteq> -1
            then bindM (sh4_sched_unregister (schedId (m_scif s))) (\<lambda>_. modifyM (m_scif_update (schedId_update (\<lambda>_. -1))))
            else returnM ()) (\<lambda>_.
       if brkSchedId (m_scif s) \<noteq> -1
       then bindM (sh4_sched_unregister (brkSchedId (m_scif s))) (\<lambda>_. modifyM (m_scif_update (brkSchedId_update (\<lambda>_. -1))))
       else returnM ()) s"

definition scif_reset :: "('d, unit) SM" where
  "scif_reset s = bindM (sh4_sched_request (nat (brkSchedId (m_scif s))) sched_none) (\<lambda>_ s.
     updateBaudRate (m_scif_update (\<lambda>c. c\<lparr>transmitting := False, statusLastRead := 0, txFifo := [], rxFifo := []\<rparr>) s)) s"

definition SCIFRegisters_reset :: "bool \<Rightarrow> ('d, unit) SM" where
  "SCIFRegisters_reset hard s =
    (let s1 = m_p4_update (\<lambda>r. r(SCIF := (\<lambda>_. 0))) s;
         s2 = set_scif_reg SCFSR2 0x060 (set_SCBRR2 0xFF s1)
     in scif_reset (if hard then setPipe False s2 else s2))"

definition SCIFRegisters_init :: "nat \<Rightarrow> ('d, unit) SM" where
  "SCIFRegisters_init cb s = SCIFRegisters_reset True (scif_init cb s)"


section \<open>Frames\<close>

lemma scif_reg_set [simp]:
  "scif_reg i (set_scif_reg j v s) = (if i = j then v else scif_reg i s)"
proof -
  have "(ucast (set_fld 0 16 (ucast v) w :: u32) :: u16) = v" for w
    by (rule bit_word_eqI) (auto simp: bit_set_fld bit_ucast_iff)
  then show ?thesis by (simp add: scif_reg_def set_scif_reg_def)
qed

lemma set_scif_reg_frame [simp]:
  "m_scif (set_scif_reg i v s) = m_scif s" "m_dev (set_scif_reg i v s) = m_dev s"
  "m_intc (set_scif_reg i v s) = m_intc s" "m_ctx (set_scif_reg i v s) = m_ctx s"
  "m_sched (set_scif_reg i v s) = m_sched s"
  by (simp_all add: set_scif_reg_def)

lemma scif_reg_frame [simp]:
  "scif_reg i (m_scif_update f s) = scif_reg i s" "scif_reg i (m_dev_update g s) = scif_reg i s"
  "scif_reg i (InterruptPend k b s) = scif_reg i s" "scif_reg i (InterruptMask k b s) = scif_reg i s"
  by (simp_all add: scif_reg_def)

lemma setStatusBit_frame [simp]:
  "txFifo (m_scif (setStatusBit b s)) = txFifo (m_scif s)" "rxFifo (m_scif (setStatusBit b s)) = rxFifo (m_scif s)"
  "transmitting (m_scif (setStatusBit b s)) = transmitting (m_scif s)" "scif_pipe (m_scif (setStatusBit b s)) = scif_pipe (m_scif s)"
  "frameSize (m_scif (setStatusBit b s)) = frameSize (m_scif s)" "cyclesPerBit (m_scif (setStatusBit b s)) = cyclesPerBit (m_scif s)"
  "schedId (m_scif (setStatusBit b s)) = schedId (m_scif s)" "m_dev (setStatusBit b s) = m_dev s"
  "scif_reg i (setStatusBit b s) = (if i = SCFSR2 then scif_reg SCFSR2 s OR b else scif_reg i s)"
  by (simp_all add: setStatusBit_def Let_def)

lemma updateInterrupts_frame [simp]:
  "m_scif (updateInterrupts s) = m_scif s" "m_dev (updateInterrupts s) = m_dev s"
  "scif_reg i (updateInterrupts s) = scif_reg i s"
  by (simp_all add: updateInterrupts_def Let_def)

lemma set_fifo_frame [simp]:
  "m_dev (set_txFifo q s) = m_dev s" "m_dev (set_rxFifo q s) = m_dev s" "m_dev (set_transmitting t s) = m_dev s"
  "scif_reg i (set_txFifo q s) = scif_reg i s" "scif_reg i (set_rxFifo q s) = scif_reg i s"
  "scif_reg i (set_transmitting t s) = scif_reg i s"
  "m_scif (set_txFifo q s) = m_scif s\<lparr>txFifo := q\<rparr>" "m_scif (set_rxFifo q s) = m_scif s\<lparr>rxFifo := q\<rparr>"
  "m_scif (set_transmitting t s) = m_scif s\<lparr>transmitting := t\<rparr>"
  by (simp_all add: set_txFifo_def set_rxFifo_def set_transmitting_def)

lemma upd_pipe_frame [simp]:
  "m_scif (upd_pipe f s) = m_scif s" "scif_reg i (upd_pipe f s) = scif_reg i s"
  "scif_pipe (m_scif s) \<Longrightarrow> m_dev (upd_pipe f s) = f (m_dev s)"
  by (simp_all add: upd_pipe_def)

lemma sched_frame_scif [simp]:
  "m_scif (sh4_sched_ffts s) = m_scif s" "m_dev (sh4_sched_ffts s) = m_dev s" "scif_reg i (sh4_sched_ffts s) = scif_reg i s"
  "m_scif (upd_sched n f s) = m_scif s" "m_dev (upd_sched n f s) = m_dev s" "scif_reg i (upd_sched n f s) = scif_reg i s"
  by (simp_all add: sh4_sched_ffts_def upd_sched_def scif_reg_def on_ctx_def split: prod.split)

section \<open>The transmitter is a queue\<close>

text \<open>What the processor and the clock do to the port, one step at a time.\<close>

datatype scif_op = WriteData u8 | BitClock | ReadStatus | WriteStatus u16 | ReadData | ReadCount | WriteControl u16

primrec scif_exec :: "'d pipe \<Rightarrow> scif_op \<Rightarrow> ('d, unit) SM" where
  "scif_exec P (WriteData b) = SCFTDR2_write P b"
| "scif_exec P BitClock = modifyM (\<lambda>s. snd (schedCallback P 0 0 0 s))"
| "scif_exec P ReadStatus = modifyM (\<lambda>s. snd (readStatus s))"
| "scif_exec P (WriteStatus v) = modifyM (writeStatus v)"
| "scif_exec P ReadData = modifyM (\<lambda>s. snd (SCFRDR2_read s))"
| "scif_exec P ReadCount = returnM ()"
| "scif_exec P (WriteControl v) = SCSCR2_write v"

primrec scif_run :: "'d pipe \<Rightarrow> scif_op list \<Rightarrow> ('d, unit) SM" where
  "scif_run P [] = returnM ()"
| "scif_run P (c # cs) = bindM (scif_exec P c) (\<lambda>_. scif_run P cs)"

text \<open>The bytes a step adds to the queue: a byte written while the FIFO has room.\<close>

primrec accepts :: "scif_op \<Rightarrow> 'd machine \<Rightarrow> u8 list" where
  "accepts (WriteData b) s = (if length (txFifo (m_scif s)) < 16 then [if CHR7 s then b AND 0x7f else b] else [])"
| "accepts BitClock s = []"
| "accepts ReadStatus s = []"
| "accepts (WriteStatus v) s = []"
| "accepts ReadData s = []"
| "accepts ReadCount s = []"
| "accepts (WriteControl v) s = []"

primrec accepted :: "'d pipe \<Rightarrow> scif_op list \<Rightarrow> 'd machine \<Rightarrow> u8 list" where
  "accepted P [] s = []"
| "accepted P (c # cs) s = accepts c s @ accepted P cs (state_of (scif_exec P c s))"

text \<open>\<open>sent d\<close>: the bytes the pipe has been given, for a pipe whose reads leave them alone.\<close>

definition records_bytes :: "'d pipe \<Rightarrow> ('d \<Rightarrow> u8 list) \<Rightarrow> bool" where
  "records_bytes P sent \<longleftrightarrow> (\<forall>b d. sent (pipe_write P b d) = sent d @ [b]) \<and> (\<forall>d. sent (snd (pipe_read P d)) = sent d)"

text \<open>
  A port that is connected, whose transmit FIFO is not held in reset, and whose frame takes some
  time but at most a second. Nothing is assumed of \<^verbatim>\<open>TE\<close> or of what the transmitter is doing.
\<close>

definition serial_ok :: "'d machine \<Rightarrow> bool" where
  "serial_ok s \<longleftrightarrow> scif_pipe (m_scif s) \<and> \<not> TFRST s \<and>
     0 < frameSize (m_scif s) * cyclesPerBit (m_scif s) \<and> frameSize (m_scif s) * cyclesPerBit (m_scif s) \<le> 200000000 \<and>
     length (txFifo (m_scif s)) \<le> 16"

text \<open>
  Bytes wait and the transmitter does not run. A byte written while \<^verbatim>\<open>TE\<close> is clear goes to the FIFO
  and starts nothing, and only a write that finds the FIFO empty starts the transmission.
\<close>

definition tx_stuck :: "'d machine \<Rightarrow> bool" where
  "tx_stuck s \<longleftrightarrow> txFifo (m_scif s) \<noteq> [] \<and> \<not> transmitting (m_scif s)"

lemma serial_ok_cong:
  assumes "txFifo (m_scif s') = txFifo (m_scif s)"
    "scif_pipe (m_scif s') = scif_pipe (m_scif s)" "frameSize (m_scif s') = frameSize (m_scif s)"
    "cyclesPerBit (m_scif s') = cyclesPerBit (m_scif s)" "scif_reg SCFCR2 s' = scif_reg SCFCR2 s"
  shows "serial_ok s' = serial_ok s"
  using assms by (simp add: serial_ok_def TFRST_def)

lemma frame_cycles_valid:
  assumes "serial_ok s"
  shows "0 < sint (frame_cycles s)" "sint (frame_cycles s) \<le> sint SH4_MAIN_CLOCK"
proof -
  let ?v = "frameSize (m_scif s) * cyclesPerBit (m_scif s)"
  have v: "0 < ?v" "?v \<le> 200000000" using assms by (simp_all add: serial_ok_def)
  have "sint (frame_cycles s) = ?v" unfolding frame_cycles_def by (rule sint_in_range) (use v in simp_all)
  with v show "0 < sint (frame_cycles s)" "sint (frame_cycles s) \<le> sint SH4_MAIN_CLOCK" by simp_all
qed

text \<open>The receiver leaves the transmitter alone.\<close>

lemma rxSched_tx:
  assumes "records_bytes P sent"
  shows "serial_ok (rxSched P s) = serial_ok s" "txFifo (m_scif (rxSched P s)) = txFifo (m_scif s)"
    "sent (m_dev (rxSched P s)) = sent (m_dev s)" "transmitting (m_scif (rxSched P s)) = transmitting (m_scif s)"
    "SCSCR_TE (rxSched P s) = SCSCR_TE s"
proof -
  have r: "sent d' = sent (m_dev s)" if "pipe_read P (m_dev s) = (v, d')" for v d'
    using assms that unfolding records_bytes_def by (metis snd_conv)
  show "serial_ok (rxSched P s) = serial_ok s"
    by (rule serial_ok_cong) (simp_all add: rxSched_def Let_def split: prod.split)
  show "txFifo (m_scif (rxSched P s)) = txFifo (m_scif s)" "transmitting (m_scif (rxSched P s)) = transmitting (m_scif s)"
    "SCSCR_TE (rxSched P s) = SCSCR_TE s"
    by (simp_all add: rxSched_def Let_def cr_bit_def split: prod.split)
  show "sent (m_dev (rxSched P s)) = sent (m_dev s)"
    using r by (simp add: rxSched_def Let_def split: prod.split)
qed

text \<open>A tick of the bit clock hands the next byte to the pipe, unless the transmitter is stuck.\<close>

lemma txDone_queue:
  assumes "records_bytes P sent" "serial_ok s"
  shows "serial_ok (snd (txDone P s)) \<and> tx_stuck (snd (txDone P s)) = tx_stuck s \<and>
    SCSCR_TE (snd (txDone P s)) = SCSCR_TE s \<and>
    txFifo (m_scif (snd (txDone P s))) = (if tx_stuck s then txFifo (m_scif s) else tl (txFifo (m_scif s))) \<and>
    sent (m_dev (snd (txDone P s))) = sent (m_dev s) @ (if tx_stuck s then [] else take 1 (txFifo (m_scif s)))"
proof -
  have ok: "scif_pipe (m_scif s)" "\<not> TFRST s" and w: "sent (pipe_write P b d) = sent d @ [b]" for b d
    using assms by (auto simp: serial_ok_def records_bytes_def)
  consider "\<not> transmitting (m_scif s)" | "transmitting (m_scif s)" "txFifo (m_scif s) = []"
    | v q where "transmitting (m_scif s)" "txFifo (m_scif s) = v # q" by (metis list.exhaust)
  then show ?thesis
  proof cases
    case 1
    then show ?thesis using assms(2) by (simp add: txDone_def tx_stuck_def)
  next
    case 2
    then show ?thesis
      using ok assms(2) by (simp add: txDone_def serial_ok_def tx_stuck_def cr_bit_def TFRST_def)
  next
    case 3
    then show ?thesis
      using ok assms(2) w by (simp add: txDone_def Let_def serial_ok_def tx_stuck_def cr_bit_def TFRST_def)
  qed
qed

lemma tick_queue:
  fixes c l :: u32
  assumes "records_bytes P sent" "serial_ok s"
  defines "s' \<equiv> snd (schedCallback P 0 c l s)"
  shows "serial_ok s'" "tx_stuck s' = tx_stuck s" "SCSCR_TE s' = SCSCR_TE s"
    "txFifo (m_scif s') = (if tx_stuck s then txFifo (m_scif s) else tl (txFifo (m_scif s)))"
    "sent (m_dev s') = sent (m_dev s) @ (if tx_stuck s then [] else take 1 (txFifo (m_scif s)))"
    "0 < sint (fst (schedCallback P 0 c l s))"
proof -
  obtain b s1 where d: "txDone P s = (b, s1)" by fastforce
  note t = txDone_queue [OF assms(1,2), unfolded d snd_conv]
  note r = rxSched_tx [OF assms(1), of s1]
  have s': "s' = rxSched P s1" by (simp add: s'_def schedCallback_def d Let_def)
  have "tx_stuck (rxSched P s1) = tx_stuck s1" by (simp add: tx_stuck_def r)
  with t show ok: "serial_ok s'" "tx_stuck s' = tx_stuck s" "SCSCR_TE s' = SCSCR_TE s"
    "txFifo (m_scif s') = (if tx_stuck s then txFifo (m_scif s) else tl (txFifo (m_scif s)))"
    "sent (m_dev s') = sent (m_dev s) @ (if tx_stuck s then [] else take 1 (txFifo (m_scif s)))"
    unfolding s' by (simp_all add: r)
  have "fst (schedCallback P 0 c l s) = frame_cycles s'"
    using ok(1) by (simp add: schedCallback_def d Let_def serial_ok_def s')
  then show "0 < sint (fst (schedCallback P 0 c l s))" using frame_cycles_valid [OF ok(1)] by simp
qed

lemma write_queue:
  assumes "records_bytes P sent" "serial_ok s"
  shows "\<exists>s'. SCFTDR2_write P b s = Ret () s' \<and> serial_ok s' \<and> SCSCR_TE s' = SCSCR_TE s \<and>
    (tx_stuck s' \<longleftrightarrow> tx_stuck s \<or> txFifo (m_scif s) = [] \<and> \<not> transmitting (m_scif s) \<and> \<not> SCSCR_TE s) \<and>
    (tx_stuck s \<longrightarrow> sent (m_dev s') = sent (m_dev s)) \<and>
    sent (m_dev s') @ txFifo (m_scif s') = sent (m_dev s) @ txFifo (m_scif s) @ accepts (WriteData b) s"
proof -
  define v where "v = (if CHR7 s then b AND 0x7f else b)"
  have ok: "scif_pipe (m_scif s)" "\<not> TFRST s" and w: "sent (pipe_write P b d) = sent d @ [b]" for b d
    using assms by (auto simp: serial_ok_def records_bytes_def)
  show ?thesis
  proof (cases "txFifo (m_scif s) = [] \<and> \<not> transmitting (m_scif s) \<and> SCSCR_TE s")
    case True
    let ?s1 = "set_transmitting True (upd_pipe (pipe_write P v) s)"
    have k1: "serial_ok ?s1" using assms(2) True by (simp add: serial_ok_def TFRST_def)
    note r = request_valid [OF disjI2, of "frame_cycles ?s1" "nat (schedId (m_scif ?s1))" ?s1]
    let ?s2 = "sh4_sched_ffts (upd_sched (nat (schedId (m_scif ?s1))) (request_entry (sh4_sched_now ?s1) (frame_cycles ?s1)) ?s1)"
    let ?s3 = "updateInterrupts (setStatusBit TDFE_bit ?s2)"
    have "sh4_sched_request (nat (schedId (m_scif ?s1))) (frame_cycles ?s1) ?s1 = Ret () ?s2"
      using frame_cycles_valid [OF k1] by (intro r) simp
    then have "SCFTDR2_write P b s = Ret () ?s3"
      using ok True by (simp add: SCFTDR2_write_def Let_def v_def)
    moreover have "serial_ok ?s3" "tx_stuck ?s3 = tx_stuck s" "SCSCR_TE ?s3 = SCSCR_TE s" "\<not> tx_stuck s"
      using k1 True by (simp_all add: serial_ok_def tx_stuck_def cr_bit_def TFRST_def)
    moreover have "sent (m_dev ?s3) @ txFifo (m_scif ?s3) = sent (m_dev s) @ txFifo (m_scif s) @ accepts (WriteData b) s"
      using True ok w by (simp add: v_def)
    ultimately show ?thesis using True by blast
  next
    case False
    let ?s3 = "if length (txFifo (m_scif s)) < 16 then set_txFifo (txFifo (m_scif s) @ [v]) s else s"
    have "SCFTDR2_write P b s = Ret () ?s3"
      using ok False by (auto simp: SCFTDR2_write_def Let_def v_def)
    moreover have "serial_ok ?s3" "SCSCR_TE ?s3 = SCSCR_TE s" "sent (m_dev ?s3) = sent (m_dev s)"
      "tx_stuck ?s3 \<longleftrightarrow> tx_stuck s \<or> txFifo (m_scif s) = [] \<and> \<not> transmitting (m_scif s) \<and> \<not> SCSCR_TE s"
      using assms(2) ok False by (auto simp: serial_ok_def tx_stuck_def cr_bit_def TFRST_def)
    moreover have "sent (m_dev ?s3) @ txFifo (m_scif ?s3) = sent (m_dev s) @ txFifo (m_scif s) @ accepts (WriteData b) s"
      by (simp add: v_def)
    ultimately show ?thesis by blast
  qed
qed

text \<open>A write to the control register starts or ends a break; the transmitter does not notice.\<close>

lemma setBreak_returns:
  assumes "serial_ok s"
  shows "\<exists>s'. setBreak on s = Ret () s' \<and> m_scif s' = m_scif s \<and> m_dev s' = m_dev s \<and>
    (\<forall>i. scif_reg i s' = scif_reg i s)"
proof -
  have "\<exists>s'. sh4_sched_request i v s = Ret () s' \<and> m_scif s' = m_scif s \<and> m_dev s' = m_dev s \<and>
      (\<forall>i. scif_reg i s' = scif_reg i s)" if "v = sched_none \<or> v = frame_cycles s" for i v
  proof -
    have "v = sched_none \<or> 0 \<le> sint v \<and> sint v \<le> sint SH4_MAIN_CLOCK"
      using that frame_cycles_valid [OF assms] by auto
    then show ?thesis using request_valid [of v i s] by auto
  qed
  then show ?thesis by (auto simp: setBreak_def Let_def)
qed

lemma control_queue:
  assumes "serial_ok s"
  shows "\<exists>s'. SCSCR2_write v s = Ret () s' \<and> serial_ok s' \<and> SCSCR_TE s' = bit v 5 \<and>
    tx_stuck s' = tx_stuck s \<and> m_dev s' = m_dev s \<and> txFifo (m_scif s') = txFifo (m_scif s) \<and> CHR7 s' = CHR7 s"
proof -
  let ?s1 = "set_scif_reg SCSCR2 (v AND 0x00fa) s"
  let ?s2 = "if SCSCR_TE ?s1 then ?s1 else setStatusBit TEND_bit ?s1"
  let ?on = "\<not> SCSCR_TE ?s1 \<and> SPB2IO ?s1 \<and> \<not> SPB2DT ?s1"
  have s2: "serial_ok ?s2" using assms by (simp add: serial_ok_def TFRST_def)
  have b: "bit (v AND 0xFA) 5 = bit v 5" by (simp add: bit_simps)
  obtain s3 where s3: "setBreak ?on ?s2 = Ret () s3" "m_scif s3 = m_scif ?s2" "m_dev s3 = m_dev ?s2"
    "\<And>i. scif_reg i s3 = scif_reg i ?s2" using setBreak_returns [OF s2, of ?on] by blast
  have "SCSCR2_write v s = Ret () (updateInterrupts s3)"
    using s3(1) by (cases "SCSCR_TE ?s1") (simp_all add: SCSCR2_write_def Let_def bindM_def)
  moreover have "serial_ok (updateInterrupts s3)" using s2 s3(2,4) by (simp add: serial_ok_def TFRST_def)
  moreover have "SCSCR_TE (updateInterrupts s3) = bit v 5" using s3(4) b by (simp add: cr_bit_def)
  moreover have "CHR7 (updateInterrupts s3) = CHR7 s" using s3(4) by (simp add: CHR7_def)
  ultimately show ?thesis using s3(2,3) by (simp add: tx_stuck_def)
qed

lemma exec_queue:
  assumes "records_bytes P sent" "serial_ok s"
  shows "\<exists>s'. scif_exec P c s = Ret () s' \<and> serial_ok s' \<and>
    sent (m_dev s') @ txFifo (m_scif s') = sent (m_dev s) @ txFifo (m_scif s) @ accepts c s \<and>
    (tx_stuck s \<longrightarrow> tx_stuck s' \<and> sent (m_dev s') = sent (m_dev s)) \<and>
    (\<not> tx_stuck s \<and> SCSCR_TE s \<and> (\<forall>v. c = WriteControl v \<longrightarrow> bit v 5) \<longrightarrow> \<not> tx_stuck s' \<and> SCSCR_TE s')"
proof (cases c)
  case (WriteData b)
  then show ?thesis using write_queue [OF assms, of b] by auto
next
  case BitClock
  show ?thesis
    using tick_queue [OF assms, of 0 0] by (cases "txFifo (m_scif s)") (simp_all add: BitClock)
next
  case ReadStatus
  have "serial_ok (snd (readStatus s)) = serial_ok s" by (rule serial_ok_cong) (simp_all add: readStatus_def)
  then show ?thesis using assms(2) by (simp add: ReadStatus readStatus_def tx_stuck_def cr_bit_def)
next
  case (WriteStatus v)
  have "serial_ok (writeStatus v s) = serial_ok s" by (rule serial_ok_cong) (simp_all add: writeStatus_def Let_def)
  then show ?thesis using assms(2) by (simp add: WriteStatus writeStatus_def Let_def tx_stuck_def cr_bit_def)
next
  case ReadData
  have "serial_ok (snd (SCFRDR2_read s)) = serial_ok s" by (rule serial_ok_cong) (simp_all add: SCFRDR2_read_def split: list.split)
  then show ?thesis
    using assms(2) by (simp add: ReadData SCFRDR2_read_def tx_stuck_def cr_bit_def split: list.split)
next
  case (WriteControl v)
  then show ?thesis using control_queue [OF assms(2), of v] by auto
qed (use assms(2) in simp)

lemma run_queue:
  assumes "records_bytes P sent" "serial_ok s"
  shows "\<exists>s'. scif_run P cs s = Ret () s' \<and> serial_ok s' \<and>
    sent (m_dev s') @ txFifo (m_scif s') = sent (m_dev s) @ txFifo (m_scif s) @ accepted P cs s \<and>
    (tx_stuck s \<longrightarrow> tx_stuck s' \<and> sent (m_dev s') = sent (m_dev s)) \<and>
    (\<not> tx_stuck s \<and> SCSCR_TE s \<and> (\<forall>v. WriteControl v \<in> set cs \<longrightarrow> bit v 5) \<longrightarrow> \<not> tx_stuck s')"
  using assms(2)
proof (induction cs arbitrary: s)
  case (Cons c cs)
  from exec_queue [OF assms(1) Cons.prems, of c] obtain s1 where
    s1: "scif_exec P c s = Ret () s1" "serial_ok s1"
      "sent (m_dev s1) @ txFifo (m_scif s1) = sent (m_dev s) @ txFifo (m_scif s) @ accepts c s"
      "tx_stuck s \<longrightarrow> tx_stuck s1 \<and> sent (m_dev s1) = sent (m_dev s)"
      "\<not> tx_stuck s \<and> SCSCR_TE s \<and> (\<forall>v. c = WriteControl v \<longrightarrow> bit v 5) \<longrightarrow> \<not> tx_stuck s1 \<and> SCSCR_TE s1" by blast
  have "sent (m_dev s1) @ txFifo (m_scif s1) @ xs = sent (m_dev s) @ txFifo (m_scif s) @ accepts c s @ xs" for xs
    using arg_cong [OF s1(3), of "\<lambda>l. l @ xs"] by simp
  with Cons.IH [OF s1(2)] show ?case using s1(1,4,5) by auto
qed simp

lemma drain_queue:
  assumes "records_bytes P sent" "serial_ok s" "\<not> tx_stuck s" "n = length (txFifo (m_scif s))"
  shows "\<exists>s'. scif_run P (replicate n BitClock) s = Ret () s' \<and> txFifo (m_scif s') = [] \<and>
    sent (m_dev s') = sent (m_dev s) @ txFifo (m_scif s)"
  using assms(2-4)
proof (induction n arbitrary: s)
  case (Suc n)
  let ?s1 = "snd (schedCallback P 0 0 0 s)"
  note t = tick_queue [OF assms(1) Suc.prems(1), of 0 0]
  from Suc.prems(3) obtain v q where q: "txFifo (m_scif s) = v # q" by (cases "txFifo (m_scif s)") simp_all
  have "\<not> tx_stuck ?s1" "n = length (txFifo (m_scif ?s1))" using Suc.prems(2,3) t(2,4) q by simp_all
  from Suc.IH [OF t(1) this] show ?case using t(4,5) q Suc.prems(2) by simp
qed simp

section \<open>Properties\<close>

text \<open>C38: The transmitter is a queue. Take a port with a pipe attached that keeps what it is given, its FIFO not held in reset
  and a frame time of at most a second. However the processor's accesses to the data, status and
  control registers, including those that switch the transmitter on and off, and the ticks of the
  bit clock (which also runs the receiver) are interleaved: every operation returns; the bytes
  handed to the pipe so far, followed by the bytes of the FIFO, are exactly the bytes accepted, in
  the order they were written, where a byte is accepted when the FIFO holds less than 16; and the
  bit clock always asks to be called again. Unless bytes wait with the transmitter not running,
  as many ticks as there are bytes in the FIFO deliver all of them, and this stays so while the
  transmitter is enabled. If bytes do wait with the transmitter not running, which a write
  with the transmitter disabled brings about, none leaves any more, not even once it is enabled.\<close>
theorem serial_transmit_queue:
  assumes "records_bytes P sent" and "serial_ok s"
  shows "\<exists>s'. scif_run P cs s = Ret () s' \<and> serial_ok s' \<and> length (txFifo (m_scif s')) \<le> 16 \<and>
    sent (m_dev s') @ txFifo (m_scif s') = sent (m_dev s) @ txFifo (m_scif s) @ accepted P cs s \<and>
    0 < sint (fst (schedCallback P 0 c l s')) \<and>
    (\<not> tx_stuck s' \<longrightarrow> (\<exists>s''. scif_run P (replicate (length (txFifo (m_scif s'))) BitClock) s' = Ret () s'' \<and>
       txFifo (m_scif s'') = [] \<and> sent (m_dev s'') = sent (m_dev s) @ txFifo (m_scif s) @ accepted P cs s)) \<and>
    (\<not> tx_stuck s \<and> SCSCR_TE s \<and> (\<forall>v. WriteControl v \<in> set cs \<longrightarrow> bit v 5) \<longrightarrow> \<not> tx_stuck s') \<and>
    (tx_stuck s \<longrightarrow> tx_stuck s' \<and> sent (m_dev s') = sent (m_dev s))"
proof -
  from run_queue [OF assms, of cs] obtain s' where s': "scif_run P cs s = Ret () s'" "serial_ok s'"
    "sent (m_dev s') @ txFifo (m_scif s') = sent (m_dev s) @ txFifo (m_scif s) @ accepted P cs s"
    "tx_stuck s \<longrightarrow> tx_stuck s' \<and> sent (m_dev s') = sent (m_dev s)"
    "\<not> tx_stuck s \<and> SCSCR_TE s \<and> (\<forall>v. WriteControl v \<in> set cs \<longrightarrow> bit v 5) \<longrightarrow> \<not> tx_stuck s'" by blast
  note d = drain_queue [OF assms(1) s'(2) _ refl]
  have "length (txFifo (m_scif s')) \<le> 16" using s'(2) by (simp add: serial_ok_def)
  then show ?thesis using s' d tick_queue(6) [OF assms(1) s'(2), of c l] by auto
qed

text \<open>A pipe that keeps the bytes, and a port in the middle of a transmission.\<close>

definition byte_log :: "u8 list pipe" where
  "byte_log = \<lparr>pipe_write = \<lambda>b d. d @ [b], pipe_available = \<lambda>_. 0, pipe_read = \<lambda>d. (0, d), pipe_sendBreak = \<lambda>d. d\<rparr>"

definition busy_port :: "u8 list machine" where
  "busy_port = set_scif_reg SCSCR2 0x30 (set_transmitting True (set_txFifo [1, 2] (setPipe True (zero_machine []))))"

theorem serial_transmit_queue_witness:
  "\<exists>s' s''. scif_run byte_log [WriteData 3, ReadStatus, WriteControl 0x20, WriteData 4] busy_port = Ret () s' \<and>
     scif_run byte_log (replicate (length (txFifo (m_scif s'))) BitClock) s' = Ret () s'' \<and> m_dev s'' = [1, 2, 3, 4]"
proof -
  let ?cs = "[WriteData 3, ReadStatus, WriteControl 0x20, WriteData 4]"
  have "records_bytes byte_log (\<lambda>d. d)" by (simp add: records_bytes_def byte_log_def)
  moreover have r: "scif_reg 2 busy_port = 0x30" "scif_reg 6 busy_port = 0" "scif_reg 0 busy_port = 0"
    by (simp_all add: busy_port_def setPipe_def) (simp_all add: scif_reg_def zero_machine_def)
  moreover have f: "m_scif busy_port = (m_scif (zero_machine ([] :: u8 list)))\<lparr>scif_pipe := True, txFifo := [1, 2], transmitting := True\<rparr>"
    by (simp add: busy_port_def setPipe_def)
  ultimately have p: "records_bytes byte_log (\<lambda>d. d)" "serial_ok busy_port"
    by (simp_all add: serial_ok_def TFRST_def zero_machine_def)
  note q = serial_transmit_queue [OF p, of ?cs 0 0]
  have te: "SCSCR_TE busy_port" "\<not> tx_stuck busy_port" using r f by (simp_all add: cr_bit_def tx_stuck_def bit_iff_odd)
  let ?s1 = "set_txFifo [1, 2, 3] busy_port" and ?s2 = "snd (readStatus (set_txFifo [1, 2, 3] busy_port))"
  have e: "SCFTDR2_write byte_log 3 busy_port = Ret () ?s1"
    using r f by (simp add: SCFTDR2_write_def TFRST_def CHR7_def)
  have k2: "serial_ok ?s2" using p(2) f by (simp add: readStatus_def serial_ok_def TFRST_def)
  obtain s3 where s3: "SCSCR2_write 0x20 ?s2 = Ret () s3" "txFifo (m_scif s3) = [1, 2, 3]" "CHR7 s3 = CHR7 ?s2"
    using control_queue [OF k2, of "0x20"] by (auto simp: readStatus_def)
  have "accepted byte_log ?cs busy_port = [3, 4]"
    using r f s3 e by (simp add: CHR7_def readStatus_def)
  with q te f show ?thesis by (auto simp: busy_port_def setPipe_def zero_machine_def)
qed

end
