(* ===== verification/Sh4_Mmr.thy ===== *)
theory Sh4_Mmr
  imports Tmu Dmac Scif Storeq Sh4_Cache
begin

unbundle bit_operations_syntax

text \<open>
  The registers of the SH4 in P4 and the memory in area 7: the register banks of \<^verbatim>\<open>hw/hwreg.h\<close>, the
  tables the modules fill in (\<^verbatim>\<open>hw/sh4/modules/*.cpp\<close>), and the routing of addresses in
  \<^verbatim>\<open>hw/sh4/sh4_mmr.cpp\<close>: registers, arrays of the caches and TLBs, on-chip RAM.

  A register answers to accesses of its own size only; the lemmas show what an access to any
  register without a handler does, by a table of addresses, sizes and masks.
\<close>

section \<open>Addresses\<close>

abbreviation (input) "CCN_PTEH_addr \<equiv> (0x1F000000 :: u32)"
abbreviation (input) "CCN_PTEL_addr \<equiv> (0x1F000004 :: u32)"
abbreviation (input) "CCN_TTB_addr \<equiv> (0x1F000008 :: u32)"
abbreviation (input) "CCN_TEA_addr \<equiv> (0x1F00000C :: u32)"
abbreviation (input) "CCN_MMUCR_addr \<equiv> (0x1F000010 :: u32)"
abbreviation (input) "CCN_BASRA_addr \<equiv> (0x1F000014 :: u32)"
abbreviation (input) "CCN_BASRB_addr \<equiv> (0x1F000018 :: u32)"
abbreviation (input) "CCN_CCR_addr \<equiv> (0x1F00001C :: u32)"
abbreviation (input) "CCN_TRA_addr \<equiv> (0x1F000020 :: u32)"
abbreviation (input) "CCN_EXPEVT_addr \<equiv> (0x1F000024 :: u32)"
abbreviation (input) "CCN_INTEVT_addr \<equiv> (0x1F000028 :: u32)"
abbreviation (input) "CPU_VERSION_addr \<equiv> (0x1F000030 :: u32)"
abbreviation (input) "CCN_PTEA_addr \<equiv> (0x1F000034 :: u32)"
abbreviation (input) "CCN_QACR0_addr \<equiv> (0x1F000038 :: u32)"
abbreviation (input) "CCN_QACR1_addr \<equiv> (0x1F00003C :: u32)"
abbreviation (input) "CCN_PRR_addr \<equiv> (0x1F000044 :: u32)"
abbreviation (input) "UBC_BARA_addr \<equiv> (0x1F200000 :: u32)"
abbreviation (input) "UBC_BAMRA_addr \<equiv> (0x1F200004 :: u32)"
abbreviation (input) "UBC_BBRA_addr \<equiv> (0x1F200008 :: u32)"
abbreviation (input) "UBC_BARB_addr \<equiv> (0x1F20000C :: u32)"
abbreviation (input) "UBC_BAMRB_addr \<equiv> (0x1F200010 :: u32)"
abbreviation (input) "UBC_BBRB_addr \<equiv> (0x1F200014 :: u32)"
abbreviation (input) "UBC_BDRB_addr \<equiv> (0x1F200018 :: u32)"
abbreviation (input) "UBC_BDMRB_addr \<equiv> (0x1F20001C :: u32)"
abbreviation (input) "UBC_BRCR_addr \<equiv> (0x1F200020 :: u32)"
abbreviation (input) "BSC_BCR1_addr \<equiv> (0x1F800000 :: u32)"
abbreviation (input) "BSC_BCR2_addr \<equiv> (0x1F800004 :: u32)"
abbreviation (input) "BSC_WCR1_addr \<equiv> (0x1F800008 :: u32)"
abbreviation (input) "BSC_WCR2_addr \<equiv> (0x1F80000C :: u32)"
abbreviation (input) "BSC_WCR3_addr \<equiv> (0x1F800010 :: u32)"
abbreviation (input) "BSC_MCR_addr \<equiv> (0x1F800014 :: u32)"
abbreviation (input) "BSC_PCR_addr \<equiv> (0x1F800018 :: u32)"
abbreviation (input) "BSC_RTCSR_addr \<equiv> (0x1F80001C :: u32)"
abbreviation (input) "BSC_RTCNT_addr \<equiv> (0x1F800020 :: u32)"
abbreviation (input) "BSC_RTCOR_addr \<equiv> (0x1F800024 :: u32)"
abbreviation (input) "BSC_RFCR_addr \<equiv> (0x1F800028 :: u32)"
abbreviation (input) "BSC_PCTRA_addr \<equiv> (0x1F80002C :: u32)"
abbreviation (input) "BSC_PDTRA_addr \<equiv> (0x1F800030 :: u32)"
abbreviation (input) "BSC_PCTRB_addr \<equiv> (0x1F800040 :: u32)"
abbreviation (input) "BSC_PDTRB_addr \<equiv> (0x1F800044 :: u32)"
abbreviation (input) "BSC_GPIOIC_addr \<equiv> (0x1F800048 :: u32)"
abbreviation (input) "BSC_SDMR2_addr \<equiv> (0x1F900000 :: u32)"
abbreviation (input) "BSC_SDMR3_addr \<equiv> (0x1F940000 :: u32)"
abbreviation (input) "DMAC_SAR0_addr \<equiv> (0x1FA00000 :: u32)"
abbreviation (input) "DMAC_DAR0_addr \<equiv> (0x1FA00004 :: u32)"
abbreviation (input) "DMAC_DMATCR0_addr \<equiv> (0x1FA00008 :: u32)"
abbreviation (input) "DMAC_CHCR0_addr \<equiv> (0x1FA0000C :: u32)"
abbreviation (input) "DMAC_SAR1_addr \<equiv> (0x1FA00010 :: u32)"
abbreviation (input) "DMAC_DAR1_addr \<equiv> (0x1FA00014 :: u32)"
abbreviation (input) "DMAC_DMATCR1_addr \<equiv> (0x1FA00018 :: u32)"
abbreviation (input) "DMAC_CHCR1_addr \<equiv> (0x1FA0001C :: u32)"
abbreviation (input) "DMAC_SAR2_addr \<equiv> (0x1FA00020 :: u32)"
abbreviation (input) "DMAC_DAR2_addr \<equiv> (0x1FA00024 :: u32)"
abbreviation (input) "DMAC_DMATCR2_addr \<equiv> (0x1FA00028 :: u32)"
abbreviation (input) "DMAC_CHCR2_addr \<equiv> (0x1FA0002C :: u32)"
abbreviation (input) "DMAC_SAR3_addr \<equiv> (0x1FA00030 :: u32)"
abbreviation (input) "DMAC_DAR3_addr \<equiv> (0x1FA00034 :: u32)"
abbreviation (input) "DMAC_DMATCR3_addr \<equiv> (0x1FA00038 :: u32)"
abbreviation (input) "DMAC_CHCR3_addr \<equiv> (0x1FA0003C :: u32)"
abbreviation (input) "DMAC_DMAOR_addr \<equiv> (0x1FA00040 :: u32)"
abbreviation (input) "CPG_FRQCR_addr \<equiv> (0x1FC00000 :: u32)"
abbreviation (input) "CPG_STBCR_addr \<equiv> (0x1FC00004 :: u32)"
abbreviation (input) "CPG_WTCNT_addr \<equiv> (0x1FC00008 :: u32)"
abbreviation (input) "CPG_WTCSR_addr \<equiv> (0x1FC0000C :: u32)"
abbreviation (input) "CPG_STBCR2_addr \<equiv> (0x1FC00010 :: u32)"
abbreviation (input) "RTC_R64CNT_addr \<equiv> (0x1FC80000 :: u32)"
abbreviation (input) "RTC_RSECCNT_addr \<equiv> (0x1FC80004 :: u32)"
abbreviation (input) "RTC_RMINCNT_addr \<equiv> (0x1FC80008 :: u32)"
abbreviation (input) "RTC_RHRCNT_addr \<equiv> (0x1FC8000C :: u32)"
abbreviation (input) "RTC_RWKCNT_addr \<equiv> (0x1FC80010 :: u32)"
abbreviation (input) "RTC_RDAYCNT_addr \<equiv> (0x1FC80014 :: u32)"
abbreviation (input) "RTC_RMONCNT_addr \<equiv> (0x1FC80018 :: u32)"
abbreviation (input) "RTC_RYRCNT_addr \<equiv> (0x1FC8001C :: u32)"
abbreviation (input) "RTC_RSECAR_addr \<equiv> (0x1FC80020 :: u32)"
abbreviation (input) "RTC_RMINAR_addr \<equiv> (0x1FC80024 :: u32)"
abbreviation (input) "RTC_RHRAR_addr \<equiv> (0x1FC80028 :: u32)"
abbreviation (input) "RTC_RWKAR_addr \<equiv> (0x1FC8002C :: u32)"
abbreviation (input) "RTC_RDAYAR_addr \<equiv> (0x1FC80030 :: u32)"
abbreviation (input) "RTC_RMONAR_addr \<equiv> (0x1FC80034 :: u32)"
abbreviation (input) "RTC_RCR1_addr \<equiv> (0x1FC80038 :: u32)"
abbreviation (input) "RTC_RCR2_addr \<equiv> (0x1FC8003C :: u32)"
abbreviation (input) "INTC_ICR_addr \<equiv> (0x1FD00000 :: u32)"
abbreviation (input) "INTC_IPRA_addr \<equiv> (0x1FD00004 :: u32)"
abbreviation (input) "INTC_IPRB_addr \<equiv> (0x1FD00008 :: u32)"
abbreviation (input) "INTC_IPRC_addr \<equiv> (0x1FD0000C :: u32)"
abbreviation (input) "INTC_IPRD_addr \<equiv> (0x1FD00010 :: u32)"
abbreviation (input) "TMU_TOCR_addr \<equiv> (0x1FD80000 :: u32)"
abbreviation (input) "TMU_TSTR_addr \<equiv> (0x1FD80004 :: u32)"
abbreviation (input) "TMU_TCOR0_addr \<equiv> (0x1FD80008 :: u32)"
abbreviation (input) "TMU_TCNT0_addr \<equiv> (0x1FD8000C :: u32)"
abbreviation (input) "TMU_TCR0_addr \<equiv> (0x1FD80010 :: u32)"
abbreviation (input) "TMU_TCOR1_addr \<equiv> (0x1FD80014 :: u32)"
abbreviation (input) "TMU_TCNT1_addr \<equiv> (0x1FD80018 :: u32)"
abbreviation (input) "TMU_TCR1_addr \<equiv> (0x1FD8001C :: u32)"
abbreviation (input) "TMU_TCOR2_addr \<equiv> (0x1FD80020 :: u32)"
abbreviation (input) "TMU_TCNT2_addr \<equiv> (0x1FD80024 :: u32)"
abbreviation (input) "TMU_TCR2_addr \<equiv> (0x1FD80028 :: u32)"
abbreviation (input) "TMU_TCPR2_addr \<equiv> (0x1FD8002C :: u32)"
abbreviation (input) "SCI_SCSMR1_addr \<equiv> (0x1FE00000 :: u32)"
abbreviation (input) "SCI_SCBRR1_addr \<equiv> (0x1FE00004 :: u32)"
abbreviation (input) "SCI_SCSCR1_addr \<equiv> (0x1FE00008 :: u32)"
abbreviation (input) "SCI_SCTDR1_addr \<equiv> (0x1FE0000C :: u32)"
abbreviation (input) "SCI_SCSSR1_addr \<equiv> (0x1FE00010 :: u32)"
abbreviation (input) "SCI_SCRDR1_addr \<equiv> (0x1FE00014 :: u32)"
abbreviation (input) "SCI_SCSCMR1_addr \<equiv> (0x1FE00018 :: u32)"
abbreviation (input) "SCI_SCSPTR1_addr \<equiv> (0x1FE0001C :: u32)"
abbreviation (input) "SCIF_SCSMR2_addr \<equiv> (0x1FE80000 :: u32)"
abbreviation (input) "SCIF_SCBRR2_addr \<equiv> (0x1FE80004 :: u32)"
abbreviation (input) "SCIF_SCSCR2_addr \<equiv> (0x1FE80008 :: u32)"
abbreviation (input) "SCIF_SCFTDR2_addr \<equiv> (0x1FE8000C :: u32)"
abbreviation (input) "SCIF_SCFSR2_addr \<equiv> (0x1FE80010 :: u32)"
abbreviation (input) "SCIF_SCFRDR2_addr \<equiv> (0x1FE80014 :: u32)"
abbreviation (input) "SCIF_SCFCR2_addr \<equiv> (0x1FE80018 :: u32)"
abbreviation (input) "SCIF_SCFDR2_addr \<equiv> (0x1FE8001C :: u32)"
abbreviation (input) "SCIF_SCSPTR2_addr \<equiv> (0x1FE80020 :: u32)"
abbreviation (input) "SCIF_SCLSR2_addr \<equiv> (0x1FE80024 :: u32)"
abbreviation (input) "UDI_SDIR_addr \<equiv> (0x1FF00000 :: u32)"
abbreviation (input) "UDI_SDDR_addr \<equiv> (0x1FF00008 :: u32)"

section \<open>The registers of a module\<close>

text \<open>
  The words of the array of a module. The registers that are fields of their own in this model
  are read and written there.
\<close>

definition p4_get :: "p4_module \<Rightarrow> nat \<Rightarrow> 'd machine \<Rightarrow> u32" where
  "p4_get m i s =
    (case m of
       CCN \<Rightarrow>
         if i = 0 then CCN_PTEH (m_ccn s) else if i = 1 then CCN_PTEL (m_ccn s) else if i = 3 then CCN_TEA (m_ccn s)
         else if i = 4 then CCN_MMUCR (m_ccn s) else if i = 7 then CCN_CCR (m_ccn s) else if i = 8 then CCN_TRA (m_ccn s)
         else if i = 9 then CCN_EXPEVT (m_ccn s) else if i = 10 then CCN_INTEVT (m_ccn s) else if i = 13 then CCN_PTEA (m_ccn s)
         else if i = 14 then CCN_QACR0 (m_ccn s) else if i = 15 then CCN_QACR1 (m_ccn s) else m_p4 s CCN i
     | INTC \<Rightarrow>
         if i = 1 then ucast (INTC_IPRA (m_intc s)) else if i = 2 then ucast (INTC_IPRB (m_intc s))
         else if i = 3 then ucast (INTC_IPRC (m_intc s)) else m_p4 s INTC i
     | TMU \<Rightarrow>
         if i = 1 then ucast (TMU_TSTR (m_tmu s))
         else if i \<in> {2, 5, 8} then TMU_TCOR (m_tmu s) (i div 3)
         else if i \<in> {4, 7, 10} then ucast (TMU_TCR (m_tmu s) (i div 3 - 1))
         else m_p4 s TMU i
     | _ \<Rightarrow> m_p4 s m i)"

definition p4_put :: "p4_module \<Rightarrow> nat \<Rightarrow> u32 \<Rightarrow> 'd machine \<Rightarrow> 'd machine" where
  "p4_put m i v =
    (case m of
       CCN \<Rightarrow>
         if i = 0 then m_ccn_update (CCN_PTEH_update (\<lambda>_. v)) else if i = 1 then m_ccn_update (CCN_PTEL_update (\<lambda>_. v))
         else if i = 3 then m_ccn_update (CCN_TEA_update (\<lambda>_. v)) else if i = 4 then m_ccn_update (CCN_MMUCR_update (\<lambda>_. v))
         else if i = 7 then m_ccn_update (CCN_CCR_update (\<lambda>_. v)) else if i = 8 then m_ccn_update (CCN_TRA_update (\<lambda>_. v))
         else if i = 9 then m_ccn_update (CCN_EXPEVT_update (\<lambda>_. v)) else if i = 10 then m_ccn_update (CCN_INTEVT_update (\<lambda>_. v))
         else if i = 13 then m_ccn_update (CCN_PTEA_update (\<lambda>_. v)) else if i = 14 then m_ccn_update (CCN_QACR0_update (\<lambda>_. v))
         else if i = 15 then m_ccn_update (CCN_QACR1_update (\<lambda>_. v)) else set_p4 CCN i v
     | INTC \<Rightarrow>
         if i = 1 then m_intc_update (INTC_IPRA_update (\<lambda>_. ucast v)) else if i = 2 then m_intc_update (INTC_IPRB_update (\<lambda>_. ucast v))
         else if i = 3 then m_intc_update (INTC_IPRC_update (\<lambda>_. ucast v)) else set_p4 INTC i v
     | TMU \<Rightarrow>
         if i = 1 then m_tmu_update (TMU_TSTR_update (\<lambda>_. ucast v))
         else if i \<in> {2, 5, 8} then m_tmu_update (TMU_TCOR_update (\<lambda>r. r(i div 3 := v)))
         else if i \<in> {4, 7, 10} then m_tmu_update (TMU_TCR_update (\<lambda>r. r(i div 3 - 1 := ucast v)))
         else set_p4 TMU i v
     | _ \<Rightarrow> set_p4 m i v)"

section \<open>Register banks\<close>

text \<open>\<^verbatim>\<open>HwRegister\<close>: one handler for reads and one for writes, in each size. By default they log the access.\<close>

record 'd HwRegister =
  hw_read8 :: "u32 \<Rightarrow> ('d, u8) SM"
  hw_write8 :: "u32 \<Rightarrow> u8 \<Rightarrow> ('d, unit) SM"
  hw_read16 :: "u32 \<Rightarrow> ('d, u16) SM"
  hw_write16 :: "u32 \<Rightarrow> u16 \<Rightarrow> ('d, unit) SM"
  hw_read32 :: "u32 \<Rightarrow> ('d, u32) SM"
  hw_write32 :: "u32 \<Rightarrow> u32 \<Rightarrow> ('d, unit) SM"

definition invalid_register :: "'d HwRegister" where
  "invalid_register = \<lparr>hw_read8 = (\<lambda>_. returnM 0), hw_write8 = (\<lambda>_ _. returnM ()),
     hw_read16 = (\<lambda>_. returnM 0), hw_write16 = (\<lambda>_ _. returnM ()),
     hw_read32 = (\<lambda>_. returnM 0), hw_write32 = (\<lambda>_ _. returnM ())\<rparr>"

type_synonym 'd bank = "nat \<Rightarrow> 'd HwRegister"

definition getRegIndex :: "u32 \<Rightarrow> nat" where
  "getRegIndex addr = unat (drop_bit 2 (addr AND 0xff))"

definition readModule :: "p4_module \<Rightarrow> u32 \<Rightarrow> 'd machine \<Rightarrow> 'a::len word" where
  "readModule m addr s = ucast (p4_get m (getRegIndex addr) s)"

definition writeModule :: "p4_module \<Rightarrow> u32 \<Rightarrow> u32 \<Rightarrow> u32 \<Rightarrow> 'a::len word \<Rightarrow> 'd machine \<Rightarrow> 'd machine" where
  "writeModule m addr wmask orMask data = p4_put m (getRegIndex addr) ((ucast data AND wmask) OR orMask)"

text \<open>The functions that fill in a table, by size.\<close>

definition on_reg :: "u32 \<Rightarrow> ('d HwRegister \<Rightarrow> 'd HwRegister) \<Rightarrow> 'd bank \<Rightarrow> 'd bank" where
  "on_reg addr f b = b(getRegIndex addr := f (b (getRegIndex addr)))"

definition setRW8 :: "p4_module \<Rightarrow> u32 \<Rightarrow> u32 \<Rightarrow> 'd bank \<Rightarrow> 'd bank" where
  "setRW8 m addr wmask = on_reg addr (\<lambda>r. r\<lparr>hw_read8 := (\<lambda>_. getM (readModule m addr)),
     hw_write8 := (\<lambda>_ v. modifyM (writeModule m addr wmask 0 v))\<rparr>)"

definition setHandlers8 :: "u32 \<Rightarrow> (u32 \<Rightarrow> ('d, u8) SM) \<Rightarrow> (u32 \<Rightarrow> u8 \<Rightarrow> ('d, unit) SM) \<Rightarrow> 'd bank \<Rightarrow> 'd bank" where
  "setHandlers8 addr r w = on_reg addr (\<lambda>h. h\<lparr>hw_read8 := r, hw_write8 := w\<rparr>)"

definition setWriteHandler8 :: "p4_module \<Rightarrow> u32 \<Rightarrow> (u32 \<Rightarrow> u8 \<Rightarrow> ('d, unit) SM) \<Rightarrow> 'd bank \<Rightarrow> 'd bank" where
  "setWriteHandler8 m addr w = setHandlers8 addr (\<lambda>_. getM (readModule m addr)) w"

definition setReadOnly8 :: "p4_module \<Rightarrow> u32 \<Rightarrow> (u32 \<Rightarrow> ('d, u8) SM) option \<Rightarrow> 'd bank \<Rightarrow> 'd bank" where
  "setReadOnly8 m addr r = on_reg addr (hw_read8_update (\<lambda>_. case r of None \<Rightarrow> \<lambda>_. getM (readModule m addr) | Some h \<Rightarrow> h))"

definition setRW16 :: "p4_module \<Rightarrow> u32 \<Rightarrow> u32 \<Rightarrow> 'd bank \<Rightarrow> 'd bank" where
  "setRW16 m addr wmask = on_reg addr (\<lambda>r. r\<lparr>hw_read16 := (\<lambda>_. getM (readModule m addr)),
     hw_write16 := (\<lambda>_ v. modifyM (writeModule m addr wmask 0 v))\<rparr>)"

definition setHandlers16 :: "u32 \<Rightarrow> (u32 \<Rightarrow> ('d, u16) SM) \<Rightarrow> (u32 \<Rightarrow> u16 \<Rightarrow> ('d, unit) SM) \<Rightarrow> 'd bank \<Rightarrow> 'd bank" where
  "setHandlers16 addr r w = on_reg addr (\<lambda>h. h\<lparr>hw_read16 := r, hw_write16 := w\<rparr>)"

definition setWriteHandler16 :: "p4_module \<Rightarrow> u32 \<Rightarrow> (u32 \<Rightarrow> u16 \<Rightarrow> ('d, unit) SM) \<Rightarrow> 'd bank \<Rightarrow> 'd bank" where
  "setWriteHandler16 m addr w = setHandlers16 addr (\<lambda>_. getM (readModule m addr)) w"

definition setReadOnly16 :: "p4_module \<Rightarrow> u32 \<Rightarrow> (u32 \<Rightarrow> ('d, u16) SM) option \<Rightarrow> 'd bank \<Rightarrow> 'd bank" where
  "setReadOnly16 m addr r = on_reg addr (hw_read16_update (\<lambda>_. case r of None \<Rightarrow> \<lambda>_. getM (readModule m addr) | Some h \<Rightarrow> h))"

definition setRW32 :: "p4_module \<Rightarrow> u32 \<Rightarrow> u32 \<Rightarrow> 'd bank \<Rightarrow> 'd bank" where
  "setRW32 m addr wmask = on_reg addr (\<lambda>r. r\<lparr>hw_read32 := (\<lambda>_. getM (readModule m addr)),
     hw_write32 := (\<lambda>_ v. modifyM (writeModule m addr wmask 0 v))\<rparr>)"

definition setHandlers32 :: "u32 \<Rightarrow> (u32 \<Rightarrow> ('d, u32) SM) \<Rightarrow> (u32 \<Rightarrow> u32 \<Rightarrow> ('d, unit) SM) \<Rightarrow> 'd bank \<Rightarrow> 'd bank" where
  "setHandlers32 addr r w = on_reg addr (\<lambda>h. h\<lparr>hw_read32 := r, hw_write32 := w\<rparr>)"

definition setWriteHandler32 :: "p4_module \<Rightarrow> u32 \<Rightarrow> (u32 \<Rightarrow> u32 \<Rightarrow> ('d, unit) SM) \<Rightarrow> 'd bank \<Rightarrow> 'd bank" where
  "setWriteHandler32 m addr w = setHandlers32 addr (\<lambda>_. getM (readModule m addr)) w"

definition setReadOnly32 :: "p4_module \<Rightarrow> u32 \<Rightarrow> (u32 \<Rightarrow> ('d, u32) SM) option \<Rightarrow> 'd bank \<Rightarrow> 'd bank" where
  "setReadOnly32 m addr r = on_reg addr (hw_read32_update (\<lambda>_. case r of None \<Rightarrow> \<lambda>_. getM (readModule m addr) | Some h \<Rightarrow> h))"

definition setWriteOnly8 :: "u32 \<Rightarrow> (u32 \<Rightarrow> u8 \<Rightarrow> ('d, unit) SM) \<Rightarrow> 'd bank \<Rightarrow> 'd bank" where
  "setWriteOnly8 addr w = on_reg addr (hw_write8_update (\<lambda>_. w))"

text \<open>
  Access through a bank. The size of an access is the handler it selects: \<open>hw_read8\<close> to
  \<open>hw_write32\<close>.
\<close>

definition bank_read :: "('d HwRegister \<Rightarrow> u32 \<Rightarrow> ('d, 'a::len word) SM) \<Rightarrow> nat \<Rightarrow> 'd bank \<Rightarrow> u32 \<Rightarrow> ('d, 'a word) SM" where
  "bank_read rd sz b addr =
    (if sz \<le> getRegIndex addr then returnM 0
     else if addr AND 3 \<noteq> 0 then returnM 0
     else rd (b (getRegIndex addr)) addr)"

definition bank_write :: "('d HwRegister \<Rightarrow> u32 \<Rightarrow> 'a::len word \<Rightarrow> ('d, unit) SM) \<Rightarrow> nat \<Rightarrow> 'd bank \<Rightarrow> u32 \<Rightarrow> 'a word \<Rightarrow> ('d, unit) SM" where
  "bank_write wr sz b addr data =
    (if sz \<le> getRegIndex addr then returnM ()
     else if addr AND 3 \<noteq> 0 then returnM ()
     else wr (b (getRegIndex addr)) addr data)"

fun bank_size :: "p4_module \<Rightarrow> nat" where
  "bank_size CCN = 18" | "bank_size UBC = 9" | "bank_size BSC = 19" | "bank_size DMAC = 17" | "bank_size CPG = 5"
| "bank_size RTC = 16" | "bank_size INTC = 5" | "bank_size TMU = 12" | "bank_size SCI = 8" | "bank_size SCIF = 10"

definition bank_reset :: "p4_module \<Rightarrow> 'd machine \<Rightarrow> 'd machine" where
  "bank_reset m = fold (\<lambda>i. p4_put m i 0) [0..<bank_size m]"

section \<open>What the handlers depend on\<close>

text \<open>
  Options and hardware outside this model: \<open>mr_vmem\<close> (\<^verbatim>\<open>addrspace::virtmemEnabled\<close>), \<open>mr_dynarec\<close>
  (\<^verbatim>\<open>config::DynarecEnabled\<close>), \<open>mr_Cable\<close> (\<^verbatim>\<open>config::Cable\<close>), the code cache of the executor, the
  lookup table of the fast address translation, and the port of the arcade boards.
\<close>

record 'd mmr_cfg =
  mr_env :: "'d env"
  mr_cache :: cache_cfg
  mr_vmem :: bool
  mr_dynarec :: bool
  mr_Cable :: u16
  mr_ResetCache :: "'d machine \<Rightarrow> 'd machine"
  mr_LUTFlush :: "'d machine \<Rightarrow> 'd machine"
  mr_NaomiBoardIDWrite :: "u16 \<Rightarrow> 'd machine \<Rightarrow> 'd machine"
  mr_NaomiBoardIDRead :: "'d machine \<Rightarrow> u16"
  mr_pipe :: "'d pipe"

section \<open>Cache and TLB controller\<close>

definition CCN_QACR_write :: "'d mmr_cfg \<Rightarrow> nat \<Rightarrow> u32 \<Rightarrow> u32 \<Rightarrow> ('d, unit) SM" where
  "CCN_QACR_write X idx addr value = modifyM (\<lambda>s. setSqwHandler (mr_vmem X)
     (m_ccn_update (if idx = 0 then CCN_QACR0_update (\<lambda>_. value AND 0x1c) else CCN_QACR1_update (\<lambda>_. value AND 0x1c)) s))"

definition CCN_PTEH_write :: "'d mmr_cfg \<Rightarrow> u32 \<Rightarrow> u32 \<Rightarrow> ('d, unit) SM" where
  "CCN_PTEH_write X addr value = modifyM (\<lambda>s.
     let temp = value AND 0xfffffcff;
         s1 = (if PTEH_ASID temp \<noteq> PTEH_ASID (CCN_PTEH (m_ccn s)) then mr_LUTFlush X s else s)
     in m_ccn_update (CCN_PTEH_update (\<lambda>_. temp)) s1)"

definition CCN_MMUCR_write :: "'d mmr_cfg \<Rightarrow> u32 \<Rightarrow> u32 \<Rightarrow> ('d, unit) SM" where
  "CCN_MMUCR_write X addr value = modifyM (\<lambda>s.
     let temp = value AND 0xfcfcff05;
         mmu_changed_state = (MMUCR_AT temp \<noteq> MMUCR_AT (CCN_MMUCR (m_ccn s)));
         s1 = (if fld 2 1 temp \<noteq> 0 then mmu_flush_table s else s);
         s2 = m_ccn_update (CCN_MMUCR_update (\<lambda>_. set_fld 2 1 0 temp)) s1
     in if mmu_changed_state
        then mr_ResetCache X (mmu_set_state (setSqwHandler (mr_vmem X)) (cc_areas (mr_cache X)) s2) else s2)"

definition CCN_CCR_write :: "'d mmr_cfg \<Rightarrow> u32 \<Rightarrow> u32 \<Rightarrow> ('d, unit) SM" where
  "CCN_CCR_write X addr value = modifyM (\<lambda>s.
     let temp = value AND 0x89AF;
         s1 = (if fld 11 1 temp \<noteq> 0 \<and> \<not> mr_dynarec X then ic_Invalidate s else s);
         s2 = (if fld 3 1 temp \<noteq> 0 \<and> \<not> mr_dynarec X then oc_Invalidate s1 else s1)
     in m_ccn_update (CCN_CCR_update (\<lambda>_. set_fld 3 1 0 (set_fld 11 1 0 temp))) s2)"

definition CPU_VERSION_read :: "u32 \<Rightarrow> ('d, u32) SM" where
  "CPU_VERSION_read addr = returnM 0x040205c1"

definition CCN_PRR_read :: "u32 \<Rightarrow> ('d, u32) SM" where
  "CCN_PRR_read addr = returnM 0"

definition fill_bank :: "('d bank \<Rightarrow> 'd bank) list \<Rightarrow> 'd bank" where
  "fill_bank fs = fold (\<lambda>f. f) fs (\<lambda>_. invalid_register)"

definition CCN_registers :: "'d mmr_cfg \<Rightarrow> 'd bank" where
  "CCN_registers X = fill_bank [
    setWriteHandler32 CCN CCN_PTEH_addr (CCN_PTEH_write X),
    setRW32 CCN CCN_PTEL_addr 0x1ffffdff,
    setRW32 CCN CCN_TTB_addr 0xffffffff,
    setRW32 CCN CCN_TEA_addr 0xffffffff,
    setWriteHandler32 CCN CCN_MMUCR_addr (CCN_MMUCR_write X),
    setRW8 CCN CCN_BASRA_addr 0xffffffff,
    setRW8 CCN CCN_BASRB_addr 0xffffffff,
    setWriteHandler32 CCN CCN_CCR_addr (CCN_CCR_write X),
    setRW32 CCN CCN_TRA_addr 0x000003fc,
    setRW32 CCN CCN_EXPEVT_addr 0x00000fff,
    setRW32 CCN CCN_INTEVT_addr 0x00000fff,
    setReadOnly32 CCN CPU_VERSION_addr (Some CPU_VERSION_read),
    setRW32 CCN CCN_PTEA_addr 0x0000000f,
    setWriteHandler32 CCN CCN_QACR0_addr (CCN_QACR_write X 0),
    setWriteHandler32 CCN CCN_QACR1_addr (CCN_QACR_write X 1),
    setReadOnly32 CCN CCN_PRR_addr (Some CCN_PRR_read)]"

section \<open>Tables of the other modules\<close>

definition stateM :: "('d machine \<Rightarrow> 'a \<times> 'd machine) \<Rightarrow> ('d, 'a) SM" where
  "stateM f s = (case f s of (v, s') \<Rightarrow> Ret v s')"

definition UBC_registers :: "'d bank" where
  "UBC_registers = fill_bank [
    setRW32 UBC UBC_BARA_addr 0xffffffff,
    setRW8 UBC UBC_BAMRA_addr 0x0f,
    setRW16 UBC UBC_BBRA_addr 0x007f,
    setRW32 UBC UBC_BARB_addr 0xffffffff,
    setRW8 UBC UBC_BAMRB_addr 0x0f,
    setRW16 UBC UBC_BBRB_addr 0x007f,
    setRW32 UBC UBC_BDRB_addr 0xffffffff,
    setRW32 UBC UBC_BDMRB_addr 0xffffffff,
    setRW16 UBC UBC_BRCR_addr 0xc4c9]"

section \<open>Bus state controller\<close>

definition write_BSC_PDTRA_arcade :: "'d mmr_cfg \<Rightarrow> u32 \<Rightarrow> u16 \<Rightarrow> ('d, unit) SM" where
  "write_BSC_PDTRA_arcade X addr data = modifyM (\<lambda>s. mr_NaomiBoardIDWrite X data (set_p4 BSC 12 (ucast data) s))"

definition write_BSC_PDTRA :: "u32 \<Rightarrow> u16 \<Rightarrow> ('d, unit) SM" where
  "write_BSC_PDTRA addr data = modifyM (set_p4 BSC 12 (ucast data))"

definition read_BSC_PDTRA_arcade :: "'d mmr_cfg \<Rightarrow> u32 \<Rightarrow> ('d, u16) SM" where
  "read_BSC_PDTRA_arcade X addr = getM (mr_NaomiBoardIDRead X)"

definition read_BSC_PDTRA :: "'d mmr_cfg \<Rightarrow> u32 \<Rightarrow> ('d, u16) SM" where
  "read_BSC_PDTRA X addr = getM (\<lambda>s.
     let tpctra = m_p4 s BSC 11; tpdtra = m_p4 s BSC 12;
         t1 = (if tpctra AND 0xf = 8 then 3 else if tpctra AND 0xf = 0xB then 3 else 0);
         t2 = (if tpctra AND 0xf = 0xB \<and> tpdtra AND 0xf = 2 then 0
               else if tpctra AND 0xf = 0xC \<and> tpdtra AND 0xf = 2 then 3 else t1)
     in t2 OR push_bit 8 (mr_Cable X))"

definition has_board_id :: "'d mmr_cfg \<Rightarrow> bool" where
  "has_board_id X \<longleftrightarrow>
     p_system (cc_platform (mr_cache X)) \<in> {DC_PLATFORM_NAOMI, DC_PLATFORM_NAOMI2, DC_PLATFORM_SYSTEMSP}"

text \<open>The table after \<^verbatim>\<open>init\<close>, which ends with \<^verbatim>\<open>reset\<close>: the handlers of the port depend on the platform.\<close>

definition BSC_registers :: "'d mmr_cfg \<Rightarrow> 'd bank" where
  "BSC_registers X = fill_bank [
    setRW32 BSC BSC_BCR1_addr 0x033efffd,
    setRW16 BSC BSC_BCR2_addr 0x3ffd,
    setRW32 BSC BSC_WCR1_addr 0x77777777,
    setRW32 BSC BSC_WCR2_addr 0xfffeefff,
    setRW32 BSC BSC_WCR3_addr 0x07777777,
    setRW32 BSC BSC_MCR_addr 0xf8bbffff,
    setRW16 BSC BSC_PCR_addr 0xffffffff,
    setRW16 BSC BSC_RTCSR_addr 0x00ff,
    setRW16 BSC BSC_RTCNT_addr 0x00ff,
    setRW16 BSC BSC_RTCOR_addr 0x00ff,
    setReadOnly16 BSC BSC_RFCR_addr None,
    setRW32 BSC BSC_PCTRA_addr 0xffffffff,
    setRW16 BSC BSC_PDTRA_addr 0xffffffff,
    setRW32 BSC BSC_PCTRB_addr 0x000000ff,
    setRW16 BSC BSC_PDTRB_addr 0x000f,
    setRW16 BSC BSC_GPIOIC_addr 0xffffffff,
    setHandlers16 BSC_PDTRA_addr (if has_board_id X then read_BSC_PDTRA_arcade X else read_BSC_PDTRA X)
      (if has_board_id X then write_BSC_PDTRA_arcade X else write_BSC_PDTRA)]"

definition DMAC_registers :: "'d mmr_cfg \<Rightarrow> 'd bank" where
  "DMAC_registers X = fill_bank [
    setRW32 DMAC DMAC_SAR0_addr 0xffffffff,
    setRW32 DMAC DMAC_DAR0_addr 0xffffffff,
    setRW32 DMAC DMAC_DMATCR0_addr 0x00ffffff,
    setWriteHandler32 DMAC DMAC_CHCR0_addr (WriteCHCR (mr_env X) 0),
    setRW32 DMAC DMAC_SAR1_addr 0xffffffff,
    setRW32 DMAC DMAC_DAR1_addr 0xffffffff,
    setRW32 DMAC DMAC_DMATCR1_addr 0x00ffffff,
    setWriteHandler32 DMAC DMAC_CHCR1_addr (WriteCHCR (mr_env X) 1),
    setRW32 DMAC DMAC_SAR2_addr 0xffffffff,
    setRW32 DMAC DMAC_DAR2_addr 0xffffffff,
    setRW32 DMAC DMAC_DMATCR2_addr 0x00ffffff,
    setWriteHandler32 DMAC DMAC_CHCR2_addr (WriteCHCR (mr_env X) 2),
    setRW32 DMAC DMAC_SAR3_addr 0xffffffff,
    setRW32 DMAC DMAC_DAR3_addr 0xffffffff,
    setRW32 DMAC DMAC_DMATCR3_addr 0x00ffffff,
    setWriteHandler32 DMAC DMAC_CHCR3_addr (WriteCHCR (mr_env X) 3),
    setRW32 DMAC DMAC_DMAOR_addr 0x00008307]"

definition CPG_registers :: "'d bank" where
  "CPG_registers = fill_bank [
    setRW16 CPG CPG_FRQCR_addr 0x0fff,
    setRW8 CPG CPG_STBCR_addr 0xffffffff,
    setRW8 CPG CPG_WTCNT_addr 0xffffffff,
    setRW16 CPG CPG_WTCSR_addr 0xff,
    setRW8 CPG CPG_STBCR2_addr 0x80]"

definition RTC_registers :: "'d bank" where
  "RTC_registers = fill_bank [
    setReadOnly8 RTC RTC_R64CNT_addr None,
    setRW8 RTC RTC_RSECCNT_addr 0x7f,
    setRW8 RTC RTC_RMINCNT_addr 0x7f,
    setRW8 RTC RTC_RHRCNT_addr 0x3f,
    setRW8 RTC RTC_RWKCNT_addr 0x07,
    setRW8 RTC RTC_RDAYCNT_addr 0x3f,
    setRW8 RTC RTC_RMONCNT_addr 0x1f,
    setRW16 RTC RTC_RYRCNT_addr 0xffffffff,
    setRW8 RTC RTC_RSECAR_addr 0xffffffff,
    setRW8 RTC RTC_RMINAR_addr 0xffffffff,
    setRW8 RTC RTC_RHRAR_addr 0xbf,
    setRW8 RTC RTC_RWKAR_addr 0x87,
    setRW8 RTC RTC_RDAYAR_addr 0xbf,
    setRW8 RTC RTC_RMONAR_addr 0x9f,
    setRW8 RTC RTC_RCR1_addr 0x99,
    setRW8 RTC RTC_RCR2_addr 0xffffffff]"

definition INTC_registers :: "'d bank" where
  "INTC_registers = fill_bank [
    setRW16 INTC INTC_ICR_addr 0x4380,
    setWriteHandler16 INTC INTC_IPRA_addr (\<lambda>a v. modifyM (write_INTC_IPRA a v)),
    setWriteHandler16 INTC INTC_IPRB_addr (\<lambda>a v. modifyM (write_INTC_IPRB a v)),
    setWriteHandler16 INTC INTC_IPRC_addr (\<lambda>a v. modifyM (write_INTC_IPRC a v)),
    setReadOnly16 INTC INTC_IPRD_addr (Some (\<lambda>a. returnM (read_INTC_IPRD a)))]"

definition TMU_registers :: "'d bank" where
  "TMU_registers = fill_bank [
    setRW8 TMU TMU_TOCR_addr 1,
    setWriteHandler8 TMU TMU_TSTR_addr write_TMU_TSTR,
    setRW32 TMU TMU_TCOR0_addr 0xffffffff,
    setHandlers32 TMU_TCNT0_addr (read_TMU_TCNT 0) (write_TMU_TCNT 0),
    setWriteHandler16 TMU TMU_TCR0_addr (TMU_TCR_write 0),
    setRW32 TMU TMU_TCOR1_addr 0xffffffff,
    setHandlers32 TMU_TCNT1_addr (read_TMU_TCNT 1) (write_TMU_TCNT 1),
    setWriteHandler16 TMU TMU_TCR1_addr (TMU_TCR_write 1),
    setRW32 TMU TMU_TCOR2_addr 0xffffffff,
    setHandlers32 TMU_TCNT2_addr (read_TMU_TCNT 2) (write_TMU_TCNT 2),
    setWriteHandler16 TMU TMU_TCR2_addr (TMU_TCR_write 2),
    setHandlers32 TMU_TCPR2_addr (\<lambda>a. returnM (TMU_TCPR2_read a)) (\<lambda>a v. modifyM (TMU_TCPR2_write a v))]"

definition SCI_registers :: "'d bank" where
  "SCI_registers = fill_bank [
    setRW8 SCI SCI_SCSMR1_addr 0xffffffff,
    setRW8 SCI SCI_SCBRR1_addr 0xffffffff,
    setRW8 SCI SCI_SCSCR1_addr 0xffffffff,
    setRW8 SCI SCI_SCTDR1_addr 0xffffffff,
    setRW8 SCI SCI_SCSSR1_addr 0xf9,
    setReadOnly8 SCI SCI_SCRDR1_addr None,
    setRW8 SCI SCI_SCSPTR1_addr 0x8f]"

definition SCIF_registers :: "'d mmr_cfg \<Rightarrow> 'd bank" where
  "SCIF_registers X = fill_bank [
    setWriteHandler16 SCIF SCIF_SCSMR2_addr SCSMR2_write,
    setWriteHandler8 SCIF SCIF_SCBRR2_addr SCBRR2_write,
    setHandlers16 SCIF_SCSCR2_addr (\<lambda>_. getM SCSCR2_read) (\<lambda>_. SCSCR2_write),
    setWriteOnly8 SCIF_SCFTDR2_addr (\<lambda>_. SCFTDR2_write (mr_pipe X)),
    setHandlers16 SCIF_SCFSR2_addr (\<lambda>_. stateM readStatus) (\<lambda>_ v. modifyM (writeStatus v)),
    setReadOnly8 SCIF SCIF_SCFRDR2_addr (Some (\<lambda>_. stateM SCFRDR2_read)),
    setHandlers16 SCIF_SCFCR2_addr (\<lambda>_. getM SCFCR2_read) (\<lambda>_. SCFCR2_write),
    setReadOnly16 SCIF SCIF_SCFDR2_addr (Some (\<lambda>_. getM SCFDR2_read)),
    setHandlers16 SCIF_SCSPTR2_addr (\<lambda>_. getM SCSPTR2_read) (\<lambda>_. SCSPTR2_write),
    setRW16 SCIF SCIF_SCLSR2_addr 1]"

definition registers :: "'d mmr_cfg \<Rightarrow> p4_module \<Rightarrow> 'd bank" where
  "registers X m = (case m of CCN \<Rightarrow> CCN_registers X | UBC \<Rightarrow> UBC_registers | BSC \<Rightarrow> BSC_registers X
     | DMAC \<Rightarrow> DMAC_registers X | CPG \<Rightarrow> CPG_registers | RTC \<Rightarrow> RTC_registers | INTC \<Rightarrow> INTC_registers
     | TMU \<Rightarrow> TMU_registers | SCI \<Rightarrow> SCI_registers | SCIF \<Rightarrow> SCIF_registers X)"

section \<open>Memory-mapped registers\<close>

text \<open>The modules by the upper half of the address, \<^verbatim>\<open>A7_REG_HASH\<close>.\<close>

definition mmr_module :: "u32 \<Rightarrow> p4_module option" where
  "mmr_module map_base =
    (if map_base = 0x1F00 then Some CCN else if map_base = 0x1F20 then Some UBC else if map_base = 0x1F80 then Some BSC
     else if map_base = 0x1FA0 then Some DMAC else if map_base = 0x1FC0 then Some CPG else if map_base = 0x1FC8 then Some RTC
     else if map_base = 0x1FD0 then Some INTC else if map_base = 0x1FD8 then Some TMU else if map_base = 0x1FE0 then Some SCI
     else if map_base = 0x1FE8 then Some SCIF else None)"

definition ReadMem_p4mmr :: "'d mmr_cfg \<Rightarrow> ('d HwRegister \<Rightarrow> u32 \<Rightarrow> ('d, 'a::len word) SM) \<Rightarrow> u32 \<Rightarrow> ('d, 'a word) SM" where
  "ReadMem_p4mmr X rd addr =
    (if addr = 0xFF000028 then getM (\<lambda>s. ucast (CCN_INTEVT (m_ccn s)))
     else if addr = 0xFFA0002C then getM (\<lambda>s. ucast (DMAC_CHCR 2 s))
     else let a = addr AND 0x1FFFFFFF
       in case mmr_module (drop_bit 16 a) of
            Some m \<Rightarrow> bank_read rd (bank_size m) (registers X m) a
          | None \<Rightarrow> returnM 0)"

definition WriteMem_p4mmr :: "'d mmr_cfg \<Rightarrow> ('d HwRegister \<Rightarrow> u32 \<Rightarrow> 'a::len word \<Rightarrow> ('d, unit) SM) \<Rightarrow> u32 \<Rightarrow> 'a word \<Rightarrow> ('d, unit) SM" where
  "WriteMem_p4mmr X wr addr data =
    (if addr = 0xFF000038 then CCN_QACR_write X 0 addr (ucast data)
     else if addr = 0xFF00003C then CCN_QACR_write X 1 addr (ucast data)
     else let a = addr AND 0x1FFFFFFF
       in case mmr_module (drop_bit 16 a) of
            Some m \<Rightarrow> bank_write wr (bank_size m) (registers X m) a data
          | None \<Rightarrow> returnM ())"

section \<open>The arrays of the caches and TLBs\<close>

text \<open>
  \<open>sz\<close> is the size of the access in bytes and \<open>data\<close> the value, extended to 32 bits; what is
  read is cut to the size of the access by the handler.
\<close>

definition upd_UTLB :: "6 word \<Rightarrow> (TLB_Entry \<Rightarrow> TLB_Entry) \<Rightarrow> 'd machine \<Rightarrow> 'd machine" where
  "upd_UTLB i f = m_mmu_update (UTLB_update (\<lambda>T. T(i := f (T i))))"

definition upd_ITLB :: "2 word \<Rightarrow> (TLB_Entry \<Rightarrow> TLB_Entry) \<Rightarrow> 'd machine \<Rightarrow> 'd machine" where
  "upd_ITLB i f = m_mmu_update (ITLB_update (\<lambda>T. T(i := f (T i))))"

definition ReadMem_P4 :: "nat \<Rightarrow> u32 \<Rightarrow> 'd machine \<Rightarrow> u32" where
  "ReadMem_P4 sz addr s =
    (let r = drop_bit 24 addr AND 0xFF;
         it = ITLB (m_mmu s) (ucast (drop_bit 8 addr AND 3)); ut = UTLB (m_mmu s) (ucast (drop_bit 8 addr AND 63))
     in if r = 0xF0 then if sz = 4 then ic_ReadAddressArray addr s else 0
        else if r = 0xF1 then if sz = 4 then ic_ReadDataArray addr s else 0
        else if r = 0xF2 then Address it OR push_bit 8 (PTEL_V (Data it))
        else if r = 0xF3 then Data it
        else if r = 0xF4 then if sz = 4 then oc_ReadAddressArray addr s else 0
        else if r = 0xF5 then if sz = 4 then oc_ReadDataArray addr s else 0
        else if r = 0xF6 then Address ut OR push_bit 9 (PTEL_D (Data ut)) OR push_bit 8 (PTEL_V (Data ut))
        else if r = 0xF7 then Data ut
        else 0)"

definition set_VD :: "u32 \<Rightarrow> TLB_Entry \<Rightarrow> TLB_Entry" where
  "set_VD data = Data_update (\<lambda>d. set_fld 2 1 (drop_bit 9 data AND 1) (set_fld 8 1 (drop_bit 8 data AND 1) d))"

definition utlb_assoc :: "'d env \<Rightarrow> u32 \<Rightarrow> u32 \<Rightarrow> nat \<Rightarrow> 'd machine \<Rightarrow> 'd machine" where
  "utlb_assoc E va data i s =
    (let e = UTLB (m_mmu s) (of_nat i)
     in if mmu_match va (Address e) (Data e) s
        then snd (e_UTLB_Sync E (of_nat i) (upd_UTLB (of_nat i) (set_VD data) s)) else s)"

definition itlb_assoc :: "u32 \<Rightarrow> u32 \<Rightarrow> nat \<Rightarrow> 'd machine \<Rightarrow> 'd machine" where
  "itlb_assoc va data i s =
    (let e = ITLB (m_mmu s) (of_nat i)
     in if mmu_match va (Address e) (Data e) s then upd_ITLB (of_nat i) (set_VD data) s else s)"

definition WriteMem_P4 :: "'d mmr_cfg \<Rightarrow> nat \<Rightarrow> u32 \<Rightarrow> u32 \<Rightarrow> ('d, unit) SM" where
  "WriteMem_P4 X sz addr data =
    (let r = drop_bit 24 addr AND 0xFF;
         ie = ucast (drop_bit 8 addr AND 3) :: 2 word; ue = drop_bit 8 addr AND 63;
         sync = (\<lambda>s. snd (e_UTLB_Sync (mr_env X) ue s))
     in if r = 0xF0 then if sz = 4 then ic_WriteAddressArray addr data else returnM ()
        else if r = 0xF1 then modifyM (if sz = 4 then ic_WriteDataArray addr data else (\<lambda>s. s))
        else if r = 0xF2 then
          modifyM (upd_ITLB ie (\<lambda>e. e\<lparr>Address := data AND 0xFFFFFCFF, Data := set_fld 8 1 (drop_bit 8 data AND 1) (Data e)\<rparr>))
        else if r = 0xF3 then
          modifyM (upd_ITLB ie (if addr AND 0x800000 \<noteq> 0 then Assistance_update (\<lambda>_. data AND 0xf) else Data_update (\<lambda>_. data)))
        else if r = 0xF4 then if sz = 4 then oc_WriteAddressArray (mr_cache X) (mr_env X) addr data else returnM ()
        else if r = 0xF5 then modifyM (if sz = 4 then oc_WriteDataArray addr data else (\<lambda>s. s))
        else if r = 0xF6 then
          modifyM (if addr AND 0x80 \<noteq> 0
            then (\<lambda>s. let va = push_bit 10 (PTEH_VPN data)
              in fold (itlb_assoc va data) [0..<4] (fold (utlb_assoc (mr_env X) va data) [0..<64] s))
            else (\<lambda>s. sync (upd_UTLB (ucast ue) (\<lambda>e. set_VD data (e\<lparr>Address := data AND 0xFFFFFCFF\<rparr>)) s)))
        else if r = 0xF7 then
          modifyM (\<lambda>s. sync (upd_UTLB (ucast ue)
            (if addr AND 0x800000 \<noteq> 0 then Assistance_update (\<lambda>_. data AND 0xf) else Data_update (\<lambda>_. data)) s))
        else returnM ())"

section \<open>On-chip RAM\<close>

definition onChipRamOffset :: "u32 \<Rightarrow> 'd machine \<Rightarrow> u32" where
  "onChipRamOffset addr s =
    ((if CCR_OIX (CCR s) = 1 then drop_bit 13 addr else drop_bit 1 addr) AND 0x1000) OR (addr AND 0xfff)"

definition ReadMem_area7_OCR :: "((u32 \<Rightarrow> u8) \<Rightarrow> u32 \<Rightarrow> 'a::len word) \<Rightarrow> u32 \<Rightarrow> ('d, 'a word) SM" where
  "ReadMem_area7_OCR ld addr = getM (\<lambda>s. if CCR_ORA (CCR s) = 1 then ld (m_ocr s) (onChipRamOffset addr s) else 0)"

definition WriteMem_area7_OCR :: "(u32 \<Rightarrow> 'a::len word \<Rightarrow> (u32 \<Rightarrow> u8) \<Rightarrow> u32 \<Rightarrow> u8) \<Rightarrow> u32 \<Rightarrow> 'a word \<Rightarrow> ('d, unit) SM" where
  "WriteMem_area7_OCR st addr data = modifyM (\<lambda>s.
     if CCR_ORA (CCR s) = 1 then m_ocr_update (st (onChipRamOffset addr s) data) s else s)"

section \<open>Initialization, reset and handlers\<close>

definition BSC_reset :: "'d machine \<Rightarrow> 'd machine" where
  "BSC_reset s = set_p4 BSC 10 17 (set_p4 BSC 4 0x07777777 (set_p4 BSC 3 0xFFFEEFFF (set_p4 BSC 2 0x77777777
     (set_p4 BSC 1 0x3FFC (bank_reset BSC s)))))"

definition INTC_reset :: "'d machine \<Rightarrow> 'd machine" where
  "INTC_reset s = interrupts_reset (bank_reset INTC s)"

definition RTC_reset :: "'d machine \<Rightarrow> 'd machine" where
  "RTC_reset s = set_p4 RTC 15 9 (bank_reset RTC s)"

definition SCI_reset :: "'d machine \<Rightarrow> 'd machine" where
  "SCI_reset s = set_p4 SCI 4 0x84 (set_p4 SCI 3 0xff (set_p4 SCI 1 0xff (bank_reset SCI s)))"

definition sh4_mmr_reset :: "'d mmr_cfg \<Rightarrow> bool \<Rightarrow> ('d, unit) SM" where
  "sh4_mmr_reset X hard s =
    (let a = cc_areas (mr_cache X);
         s1 = RTC_reset (INTC_reset (bank_reset DMAC (bank_reset CPG (bank_reset CCN (BSC_reset (m_ocr_update (\<lambda>_ _. 0) s))))))
     in bindM (SCIFRegisters_reset hard) (\<lambda>_.
        bindM (modifyM SCI_reset) (\<lambda>_.
        bindM tmu_reset (\<lambda>_.
        modifyM (\<lambda>s. upd_block (a_sq a) (\<lambda>f x. if x < 64 then 0 else f x)
          (MMU_reset (setSqwHandler (mr_vmem X)) a (bank_reset UBC s)))))) s1)"

definition sh4_mmr_term :: "('d, unit) SM" where
  "sh4_mmr_term = bindM tmu_term (\<lambda>_. scif_term)"

text \<open>The handlers \<^verbatim>\<open>map_area7\<close> and \<^verbatim>\<open>map_p4\<close> register.\<close>

definition with_mmr :: "'d mmr_cfg \<Rightarrow> 'd env \<Rightarrow> 'd env" where
  "with_mmr X E =
    (let a = cc_areas (mr_cache X)
     in E\<lparr>e_RF8 := (\<lambda>h addr. if h = a_p4mmr a then ReadMem_p4mmr X hw_read8 addr
            else if h = a_p4arrays a then getM (\<lambda>s. ucast (ReadMem_P4 1 addr s))
            else if h = a_area7_ocr a then ReadMem_area7_OCR (\<lambda>f x. f x) addr else e_RF8 E h addr),
          e_RF16 := (\<lambda>h addr. if h = a_p4mmr a then ReadMem_p4mmr X hw_read16 addr
            else if h = a_p4arrays a then getM (\<lambda>s. ucast (ReadMem_P4 2 addr s))
            else if h = a_area7_ocr a then ReadMem_area7_OCR ld16 addr else e_RF16 E h addr),
          e_RF32 := (\<lambda>h addr. if h = a_p4mmr a then ReadMem_p4mmr X hw_read32 addr
            else if h = a_p4arrays a then getM (ReadMem_P4 4 addr)
            else if h = a_area7_ocr a then ReadMem_area7_OCR ld32 addr else e_RF32 E h addr),
          e_WF8 := (\<lambda>h addr v. if h = a_p4mmr a then WriteMem_p4mmr X hw_write8 addr v
            else if h = a_p4arrays a then WriteMem_P4 X 1 addr (ucast v)
            else if h = a_area7_ocr a then WriteMem_area7_OCR (\<lambda>x v f. f(x := v)) addr v else e_WF8 E h addr v),
          e_WF16 := (\<lambda>h addr v. if h = a_p4mmr a then WriteMem_p4mmr X hw_write16 addr v
            else if h = a_p4arrays a then WriteMem_P4 X 2 addr (ucast v)
            else if h = a_area7_ocr a then WriteMem_area7_OCR st16 addr v else e_WF16 E h addr v),
          e_WF32 := (\<lambda>h addr v. if h = a_p4mmr a then WriteMem_p4mmr X hw_write32 addr v
            else if h = a_p4arrays a then WriteMem_P4 X 4 addr v
            else if h = a_area7_ocr a then WriteMem_area7_OCR st32 addr v else e_WF32 E h addr v)\<rparr>)"

end
