(* ===== verification/Sh4_Mmr_Access.thy ===== *)
theory Sh4_Mmr_Access
  imports Sh4_Mmr
begin

unbundle bit_operations_syntax

text \<open>
  What an access to a register of the SH4 does when it comes through the address space: the table of
  the registers without handlers agrees with what the modules set up, and each of them is a word
  behind a mask.
\<close>

section \<open>Words of the modules\<close>

text \<open>The registers that are narrower than a word in this model.\<close>

definition narrow :: "p4_module \<Rightarrow> nat \<Rightarrow> bool" where
  "narrow m i \<longleftrightarrow> m = INTC \<and> i \<in> {1, 2, 3} \<or> m = TMU \<and> i \<in> {1, 4, 7, 10}"

lemma p4_get_put_same: "\<not> narrow m i \<Longrightarrow> p4_get m i (p4_put m i v s) = v"
  by (cases m) (simp_all add: narrow_def p4_get_def p4_put_def set_p4_def)

lemma p4_put_other_module: "m \<noteq> m' \<Longrightarrow> p4_get m' i' (p4_put m i v s) = p4_get m' i' s"
  by (cases m; cases m') (simp_all add: p4_get_def p4_put_def set_p4_def)

lemma p4_put_other_CCN: "i \<noteq> i' \<Longrightarrow> p4_get CCN i' (p4_put CCN i v s) = p4_get CCN i' s"
  by (simp add: p4_get_def p4_put_def set_p4_def)

lemma p4_put_other_INTC: "i \<noteq> i' \<Longrightarrow> p4_get INTC i' (p4_put INTC i v s) = p4_get INTC i' s"
  by (simp add: p4_get_def p4_put_def set_p4_def)

lemma p4_put_other_TMU: "i \<noteq> i' \<Longrightarrow> p4_get TMU i' (p4_put TMU i v s) = p4_get TMU i' s"
  by (auto simp: p4_get_def p4_put_def set_p4_def)

lemma p4_put_other:
  assumes "(m', i') \<noteq> (m, i)"
  shows "p4_get m' i' (p4_put m i v s) = p4_get m' i' s"
proof (cases "m = m'")
  case True
  then have "i \<noteq> i'" using assms by simp
  then show ?thesis
    unfolding True using p4_put_other_CCN p4_put_other_INTC p4_put_other_TMU
    by (cases m') (simp_all add: p4_get_def p4_put_def set_p4_def)
qed (rule p4_put_other_module)

section \<open>Registers without handlers\<close>

definition rw_register :: "nat \<Rightarrow> p4_module \<Rightarrow> u32 \<Rightarrow> u32 \<Rightarrow> 'd HwRegister" where
  "rw_register n m addr k =
    (if n = 8 then invalid_register\<lparr>hw_read8 := (\<lambda>_. getM (readModule m addr)), hw_write8 := (\<lambda>_ v. modifyM (writeModule m addr k 0 v))\<rparr>
     else if n = 16 then invalid_register\<lparr>hw_read16 := (\<lambda>_. getM (readModule m addr)), hw_write16 := (\<lambda>_ v. modifyM (writeModule m addr k 0 v))\<rparr>
     else invalid_register\<lparr>hw_read32 := (\<lambda>_. getM (readModule m addr)), hw_write32 := (\<lambda>_ v. modifyM (writeModule m addr k 0 v))\<rparr>)"

text \<open>
  The module, the address in area 7, the size in bits and the mask for writes: the registers the modules
  enter with \<open>setRW\<close> and without handlers of their own. The three that are entered as read-only
  (\<open>BSC_RFCR\<close>, \<open>RTC_R64CNT\<close> and \<open>SCI_SCRDR1\<close>) are not in the table.
\<close>

definition plain_registers :: "(p4_module \<times> u32 \<times> nat \<times> u32) list" where
  "plain_registers =
    [(CCN, CCN_PTEL_addr, 32, 0x1ffffdff),
     (CCN, CCN_TTB_addr, 32, 0xffffffff),
     (CCN, CCN_TEA_addr, 32, 0xffffffff),
     (CCN, CCN_BASRA_addr, 8, 0xffffffff),
     (CCN, CCN_BASRB_addr, 8, 0xffffffff),
     (CCN, CCN_TRA_addr, 32, 0x000003fc),
     (CCN, CCN_EXPEVT_addr, 32, 0x00000fff),
     (CCN, CCN_INTEVT_addr, 32, 0x00000fff),
     (CCN, CCN_PTEA_addr, 32, 0x0000000f),
     (UBC, UBC_BARA_addr, 32, 0xffffffff),
     (UBC, UBC_BAMRA_addr, 8, 0x0f),
     (UBC, UBC_BBRA_addr, 16, 0x007f),
     (UBC, UBC_BARB_addr, 32, 0xffffffff),
     (UBC, UBC_BAMRB_addr, 8, 0x0f),
     (UBC, UBC_BBRB_addr, 16, 0x007f),
     (UBC, UBC_BDRB_addr, 32, 0xffffffff),
     (UBC, UBC_BDMRB_addr, 32, 0xffffffff),
     (UBC, UBC_BRCR_addr, 16, 0xc4c9),
     (BSC, BSC_BCR1_addr, 32, 0x033efffd),
     (BSC, BSC_BCR2_addr, 16, 0x3ffd),
     (BSC, BSC_WCR1_addr, 32, 0x77777777),
     (BSC, BSC_WCR2_addr, 32, 0xfffeefff),
     (BSC, BSC_WCR3_addr, 32, 0x07777777),
     (BSC, BSC_MCR_addr, 32, 0xf8bbffff),
     (BSC, BSC_PCR_addr, 16, 0xffffffff),
     (BSC, BSC_RTCSR_addr, 16, 0x00ff),
     (BSC, BSC_RTCNT_addr, 16, 0x00ff),
     (BSC, BSC_RTCOR_addr, 16, 0x00ff),
     (BSC, BSC_PCTRA_addr, 32, 0xffffffff),
     (BSC, BSC_PCTRB_addr, 32, 0x000000ff),
     (BSC, BSC_PDTRB_addr, 16, 0x000f),
     (BSC, BSC_GPIOIC_addr, 16, 0xffffffff),
     (DMAC, DMAC_SAR0_addr, 32, 0xffffffff),
     (DMAC, DMAC_DAR0_addr, 32, 0xffffffff),
     (DMAC, DMAC_DMATCR0_addr, 32, 0x00ffffff),
     (DMAC, DMAC_SAR1_addr, 32, 0xffffffff),
     (DMAC, DMAC_DAR1_addr, 32, 0xffffffff),
     (DMAC, DMAC_DMATCR1_addr, 32, 0x00ffffff),
     (DMAC, DMAC_SAR2_addr, 32, 0xffffffff),
     (DMAC, DMAC_DAR2_addr, 32, 0xffffffff),
     (DMAC, DMAC_DMATCR2_addr, 32, 0x00ffffff),
     (DMAC, DMAC_SAR3_addr, 32, 0xffffffff),
     (DMAC, DMAC_DAR3_addr, 32, 0xffffffff),
     (DMAC, DMAC_DMATCR3_addr, 32, 0x00ffffff),
     (DMAC, DMAC_DMAOR_addr, 32, 0x00008307),
     (CPG, CPG_FRQCR_addr, 16, 0x0fff),
     (CPG, CPG_STBCR_addr, 8, 0xffffffff),
     (CPG, CPG_WTCNT_addr, 8, 0xffffffff),
     (CPG, CPG_WTCSR_addr, 16, 0xff),
     (CPG, CPG_STBCR2_addr, 8, 0x80),
     (RTC, RTC_RSECCNT_addr, 8, 0x7f),
     (RTC, RTC_RMINCNT_addr, 8, 0x7f),
     (RTC, RTC_RHRCNT_addr, 8, 0x3f),
     (RTC, RTC_RWKCNT_addr, 8, 0x07),
     (RTC, RTC_RDAYCNT_addr, 8, 0x3f),
     (RTC, RTC_RMONCNT_addr, 8, 0x1f),
     (RTC, RTC_RYRCNT_addr, 16, 0xffffffff),
     (RTC, RTC_RSECAR_addr, 8, 0xffffffff),
     (RTC, RTC_RMINAR_addr, 8, 0xffffffff),
     (RTC, RTC_RHRAR_addr, 8, 0xbf),
     (RTC, RTC_RWKAR_addr, 8, 0x87),
     (RTC, RTC_RDAYAR_addr, 8, 0xbf),
     (RTC, RTC_RMONAR_addr, 8, 0x9f),
     (RTC, RTC_RCR1_addr, 8, 0x99),
     (RTC, RTC_RCR2_addr, 8, 0xffffffff),
     (INTC, INTC_ICR_addr, 16, 0x4380),
     (TMU, TMU_TOCR_addr, 8, 1),
     (TMU, TMU_TCOR0_addr, 32, 0xffffffff),
     (TMU, TMU_TCOR1_addr, 32, 0xffffffff),
     (TMU, TMU_TCOR2_addr, 32, 0xffffffff),
     (SCI, SCI_SCSMR1_addr, 8, 0xffffffff),
     (SCI, SCI_SCBRR1_addr, 8, 0xffffffff),
     (SCI, SCI_SCSCR1_addr, 8, 0xffffffff),
     (SCI, SCI_SCTDR1_addr, 8, 0xffffffff),
     (SCI, SCI_SCSSR1_addr, 8, 0xf9),
     (SCI, SCI_SCSPTR1_addr, 8, 0x8f),
     (SCIF, SCIF_SCLSR2_addr, 16, 1)]"

text \<open>The table agrees with what the modules set up.\<close>

definition plain_ok :: "'d mmr_cfg \<Rightarrow> p4_module \<times> u32 \<times> nat \<times> u32 \<Rightarrow> bool" where
  "plain_ok X r = (case r of (m, a, n, k) \<Rightarrow>
     registers X m (getRegIndex a) = rw_register n m a k \<and> mmr_module (drop_bit 16 a) = Some m \<and>
     getRegIndex a < bank_size m \<and> a AND 3 = 0 \<and> page_of (a OR 0xE0000000) = 0xFF \<and>
     (a OR 0xE0000000) AND 0x1FFFFFFF = a \<and> \<not> narrow m (getRegIndex a) \<and>
     a OR 0xE0000000 \<notin> {0xFF000038, 0xFF00003C, 0xFFA0002C} \<and>
     (a OR 0xE0000000 = 0xFF000028 \<longleftrightarrow> a = CCN_INTEVT_addr) \<and> n \<in> {8, 16, 32})"

lemmas set_reg_defs = fill_bank_def setRW8_def setRW16_def setRW32_def setHandlers8_def setHandlers16_def setHandlers32_def
  setWriteHandler8_def setWriteHandler16_def setWriteHandler32_def setReadOnly8_def setReadOnly16_def setReadOnly32_def
  setWriteOnly8_def

lemma on_reg_at:
  "i = getRegIndex a \<Longrightarrow> on_reg a f b i = f (b i)" "i \<noteq> getRegIndex a \<Longrightarrow> on_reg a f b i = b i"
  by (simp_all add: on_reg_def)

lemma plain_CCN:
  "list_all (plain_ok X) [(CCN, CCN_PTEL_addr, 32, 0x1ffffdff), (CCN, CCN_TTB_addr, 32, 0xffffffff), (CCN, CCN_TEA_addr, 32, 0xffffffff), (CCN, CCN_BASRA_addr, 8, 0xffffffff), (CCN, CCN_BASRB_addr, 8, 0xffffffff), (CCN, CCN_TRA_addr, 32, 0x000003fc), (CCN, CCN_EXPEVT_addr, 32, 0x00000fff), (CCN, CCN_INTEVT_addr, 32, 0x00000fff), (CCN, CCN_PTEA_addr, 32, 0x0000000f)]"
  by (simp add: plain_ok_def registers_def CCN_registers_def set_reg_defs on_reg_at getRegIndex_def rw_register_def mmr_module_def narrow_def page_of_def)

lemma plain_UBC:
  "list_all (plain_ok X) [(UBC, UBC_BARA_addr, 32, 0xffffffff), (UBC, UBC_BAMRA_addr, 8, 0x0f), (UBC, UBC_BBRA_addr, 16, 0x007f), (UBC, UBC_BARB_addr, 32, 0xffffffff), (UBC, UBC_BAMRB_addr, 8, 0x0f), (UBC, UBC_BBRB_addr, 16, 0x007f), (UBC, UBC_BDRB_addr, 32, 0xffffffff), (UBC, UBC_BDMRB_addr, 32, 0xffffffff), (UBC, UBC_BRCR_addr, 16, 0xc4c9)]"
  by (simp add: plain_ok_def registers_def UBC_registers_def set_reg_defs on_reg_at getRegIndex_def rw_register_def mmr_module_def narrow_def page_of_def)

lemma plain_BSC:
  "list_all (plain_ok X) [(BSC, BSC_BCR1_addr, 32, 0x033efffd), (BSC, BSC_BCR2_addr, 16, 0x3ffd), (BSC, BSC_WCR1_addr, 32, 0x77777777), (BSC, BSC_WCR2_addr, 32, 0xfffeefff), (BSC, BSC_WCR3_addr, 32, 0x07777777), (BSC, BSC_MCR_addr, 32, 0xf8bbffff), (BSC, BSC_PCR_addr, 16, 0xffffffff), (BSC, BSC_RTCSR_addr, 16, 0x00ff), (BSC, BSC_RTCNT_addr, 16, 0x00ff), (BSC, BSC_RTCOR_addr, 16, 0x00ff), (BSC, BSC_PCTRA_addr, 32, 0xffffffff), (BSC, BSC_PCTRB_addr, 32, 0x000000ff), (BSC, BSC_PDTRB_addr, 16, 0x000f), (BSC, BSC_GPIOIC_addr, 16, 0xffffffff)]"
  by (simp add: plain_ok_def registers_def BSC_registers_def set_reg_defs on_reg_at getRegIndex_def rw_register_def mmr_module_def narrow_def page_of_def)

lemma plain_DMAC:
  "list_all (plain_ok X) [(DMAC, DMAC_SAR0_addr, 32, 0xffffffff), (DMAC, DMAC_DAR0_addr, 32, 0xffffffff), (DMAC, DMAC_DMATCR0_addr, 32, 0x00ffffff), (DMAC, DMAC_SAR1_addr, 32, 0xffffffff), (DMAC, DMAC_DAR1_addr, 32, 0xffffffff), (DMAC, DMAC_DMATCR1_addr, 32, 0x00ffffff), (DMAC, DMAC_SAR2_addr, 32, 0xffffffff), (DMAC, DMAC_DAR2_addr, 32, 0xffffffff), (DMAC, DMAC_DMATCR2_addr, 32, 0x00ffffff), (DMAC, DMAC_SAR3_addr, 32, 0xffffffff), (DMAC, DMAC_DAR3_addr, 32, 0xffffffff), (DMAC, DMAC_DMATCR3_addr, 32, 0x00ffffff), (DMAC, DMAC_DMAOR_addr, 32, 0x00008307)]"
  by (simp add: plain_ok_def registers_def DMAC_registers_def set_reg_defs on_reg_at getRegIndex_def rw_register_def mmr_module_def narrow_def page_of_def)

lemma plain_CPG:
  "list_all (plain_ok X) [(CPG, CPG_FRQCR_addr, 16, 0x0fff), (CPG, CPG_STBCR_addr, 8, 0xffffffff), (CPG, CPG_WTCNT_addr, 8, 0xffffffff), (CPG, CPG_WTCSR_addr, 16, 0xff), (CPG, CPG_STBCR2_addr, 8, 0x80)]"
  by (simp add: plain_ok_def registers_def CPG_registers_def set_reg_defs on_reg_at getRegIndex_def rw_register_def mmr_module_def narrow_def page_of_def)

lemma plain_RTC:
  "list_all (plain_ok X) [(RTC, RTC_RSECCNT_addr, 8, 0x7f), (RTC, RTC_RMINCNT_addr, 8, 0x7f), (RTC, RTC_RHRCNT_addr, 8, 0x3f), (RTC, RTC_RWKCNT_addr, 8, 0x07), (RTC, RTC_RDAYCNT_addr, 8, 0x3f), (RTC, RTC_RMONCNT_addr, 8, 0x1f), (RTC, RTC_RYRCNT_addr, 16, 0xffffffff), (RTC, RTC_RSECAR_addr, 8, 0xffffffff), (RTC, RTC_RMINAR_addr, 8, 0xffffffff), (RTC, RTC_RHRAR_addr, 8, 0xbf), (RTC, RTC_RWKAR_addr, 8, 0x87), (RTC, RTC_RDAYAR_addr, 8, 0xbf), (RTC, RTC_RMONAR_addr, 8, 0x9f), (RTC, RTC_RCR1_addr, 8, 0x99), (RTC, RTC_RCR2_addr, 8, 0xffffffff)]"
  by (simp add: plain_ok_def registers_def RTC_registers_def set_reg_defs on_reg_at getRegIndex_def rw_register_def mmr_module_def narrow_def page_of_def)

lemma plain_INTC:
  "list_all (plain_ok X) [(INTC, INTC_ICR_addr, 16, 0x4380)]"
  by (simp add: plain_ok_def registers_def INTC_registers_def set_reg_defs on_reg_at getRegIndex_def rw_register_def mmr_module_def narrow_def page_of_def)

lemma plain_TMU:
  "list_all (plain_ok X) [(TMU, TMU_TOCR_addr, 8, 1), (TMU, TMU_TCOR0_addr, 32, 0xffffffff), (TMU, TMU_TCOR1_addr, 32, 0xffffffff), (TMU, TMU_TCOR2_addr, 32, 0xffffffff)]"
  by (simp add: plain_ok_def registers_def TMU_registers_def set_reg_defs on_reg_at getRegIndex_def rw_register_def mmr_module_def narrow_def page_of_def)

lemma plain_SCI:
  "list_all (plain_ok X) [(SCI, SCI_SCSMR1_addr, 8, 0xffffffff), (SCI, SCI_SCBRR1_addr, 8, 0xffffffff), (SCI, SCI_SCSCR1_addr, 8, 0xffffffff), (SCI, SCI_SCTDR1_addr, 8, 0xffffffff), (SCI, SCI_SCSSR1_addr, 8, 0xf9), (SCI, SCI_SCSPTR1_addr, 8, 0x8f)]"
  by (simp add: plain_ok_def registers_def SCI_registers_def set_reg_defs on_reg_at getRegIndex_def rw_register_def mmr_module_def narrow_def page_of_def)

lemma plain_SCIF:
  "list_all (plain_ok X) [(SCIF, SCIF_SCLSR2_addr, 16, 1)]"
  by (simp add: plain_ok_def registers_def SCIF_registers_def set_reg_defs on_reg_at getRegIndex_def rw_register_def mmr_module_def narrow_def page_of_def)

lemma plain_table: "r \<in> set plain_registers \<Longrightarrow> plain_ok X r"
proof -
  have "list_all (plain_ok X) plain_registers"
    using plain_CCN [of X] plain_UBC [of X] plain_BSC [of X] plain_DMAC [of X] plain_CPG [of X] plain_RTC [of X] plain_INTC [of X] plain_TMU [of X] plain_SCI [of X] plain_SCIF [of X]
    unfolding plain_registers_def by (simp only: list.pred_inject simp_thms)
  then show "r \<in> set plain_registers \<Longrightarrow> plain_ok X r" by (simp add: list_all_iff)
qed

section \<open>Accesses through the address space\<close>

lemma p4_page:
  assumes "ram_mapped a s" "page_of x = 0xFF"
  shows "m_map s (page_of x) = Handler (a_p4mmr a)"
proof -
  have "map_p4 a m = Some m' \<Longrightarrow> m' 0xFF = Handler (a_p4mmr a)" for m m'
    by (auto simp: map_p4_def mapHandler_apply split: Option.bind_splits)
  then show ?thesis using assms by (auto simp: ram_mapped_def mem_map_default_def split: Option.bind_splits)
qed

lemma with_mmr_p4:
  assumes "ram_mapped (cc_areas (mr_cache X)) s" "page_of x = 0xFF"
  shows "readt8 (with_mmr X E) x s = ReadMem_p4mmr X hw_read8 x s" "readt16 (with_mmr X E) x s = ReadMem_p4mmr X hw_read16 x s"
    "readt32 (with_mmr X E) x s = ReadMem_p4mmr X hw_read32 x s" "writet8 (with_mmr X E) x v8 s = WriteMem_p4mmr X hw_write8 x v8 s"
    "writet16 (with_mmr X E) x v16 s = WriteMem_p4mmr X hw_write16 x v16 s" "writet32 (with_mmr X E) x v32 s = WriteMem_p4mmr X hw_write32 x v32 s"
  using p4_page [OF assms]
  by (simp_all add: readt8_def readt16_def readt32_def writet8_def writet16_def writet32_def with_mmr_def Let_def)

lemma unaligned_p4:
  assumes "y AND 3 \<noteq> 0"
  shows "ReadMem_p4mmr X rd y s = Ret 0 s" "WriteMem_p4mmr X wr y v s = Ret () s"
proof -
  have "(y AND 0x1FFFFFFF) AND 3 = y AND 3" by (simp add: and.assoc)
  then show "ReadMem_p4mmr X rd y s = Ret 0 s" "WriteMem_p4mmr X wr y v s = Ret () s"
    using assms by (auto simp: ReadMem_p4mmr_def WriteMem_p4mmr_def bank_read_def bank_write_def Let_def split: option.splits)
qed

lemma ram_mapped_put [simp]: "ram_mapped a (p4_put m i v s) = ram_mapped a s"
  by (cases m) (simp_all add: ram_mapped_def p4_put_def set_p4_def)

lemma plain_access:
  assumes "plain_ok X (m, a, n, k)"
  defines "addr \<equiv> a OR 0xE0000000"
  shows "WriteMem_p4mmr X wr addr v s = wr (rw_register n m a k) a v s"
    "a \<noteq> CCN_INTEVT_addr \<Longrightarrow> ReadMem_p4mmr X rd addr s = rd (rw_register n m a k) a s"
    "a = CCN_INTEVT_addr \<Longrightarrow> ReadMem_p4mmr X rd addr s = Ret (ucast (CCN_INTEVT (m_ccn s))) s"
  using assms(1) unfolding addr_def
  by (auto simp: plain_ok_def ReadMem_p4mmr_def WriteMem_p4mmr_def bank_read_def bank_write_def Let_def)


lemma INTEVT_get:
  "plain_ok X (m, CCN_INTEVT_addr, n, k) \<Longrightarrow> p4_get m (getRegIndex CCN_INTEVT_addr) t = CCN_INTEVT (m_ccn t)"
  by (auto simp: plain_ok_def mmr_module_def p4_get_def getRegIndex_def)

lemma plain_read:
  assumes p: "plain_ok X (m, a, n, k)"
  shows "n = 8 \<Longrightarrow> ReadMem_p4mmr X hw_read8 (a OR 0xE0000000) t = Ret (ucast (p4_get m (getRegIndex a) t)) t"
    "n = 16 \<Longrightarrow> ReadMem_p4mmr X hw_read16 (a OR 0xE0000000) t = Ret (ucast (p4_get m (getRegIndex a) t)) t"
    "n = 32 \<Longrightarrow> ReadMem_p4mmr X hw_read32 (a OR 0xE0000000) t = Ret (p4_get m (getRegIndex a) t) t"
    "n \<noteq> 8 \<Longrightarrow> a \<noteq> CCN_INTEVT_addr \<Longrightarrow> ReadMem_p4mmr X hw_read8 (a OR 0xE0000000) t = Ret 0 t"
    "n \<noteq> 16 \<Longrightarrow> a \<noteq> CCN_INTEVT_addr \<Longrightarrow> ReadMem_p4mmr X hw_read16 (a OR 0xE0000000) t = Ret 0 t"
    "n \<noteq> 32 \<Longrightarrow> a \<noteq> CCN_INTEVT_addr \<Longrightarrow> ReadMem_p4mmr X hw_read32 (a OR 0xE0000000) t = Ret 0 t"
proof -
  have n: "n = 8 \<or> n = 16 \<or> n = 32" using p by (simp add: plain_ok_def)
  note r = plain_access(2) [OF p] plain_access(3) [OF p]
  have e: "a = CCN_INTEVT_addr \<Longrightarrow> CCN_INTEVT (m_ccn t) = p4_get m (getRegIndex a) t" using INTEVT_get [of X m n k t] p by simp
  show "n = 8 \<Longrightarrow> ReadMem_p4mmr X hw_read8 (a OR 0xE0000000) t = Ret (ucast (p4_get m (getRegIndex a) t)) t"
    using r(2) [where rd = hw_read8 and s = t] e
    by (cases "a = CCN_INTEVT_addr") (simp_all add: r(1) rw_register_def readModule_def)
  show "n = 16 \<Longrightarrow> ReadMem_p4mmr X hw_read16 (a OR 0xE0000000) t = Ret (ucast (p4_get m (getRegIndex a) t)) t"
    using r(2) [where rd = hw_read16 and s = t] e
    by (cases "a = CCN_INTEVT_addr") (simp_all add: r(1) rw_register_def readModule_def)
  show "n = 32 \<Longrightarrow> ReadMem_p4mmr X hw_read32 (a OR 0xE0000000) t = Ret (p4_get m (getRegIndex a) t) t"
    using r(2) [where rd = hw_read32 and s = t] e
    by (cases "a = CCN_INTEVT_addr") (simp_all add: r(1) rw_register_def readModule_def)
  show "n \<noteq> 8 \<Longrightarrow> a \<noteq> CCN_INTEVT_addr \<Longrightarrow> ReadMem_p4mmr X hw_read8 (a OR 0xE0000000) t = Ret 0 t"
    "n \<noteq> 16 \<Longrightarrow> a \<noteq> CCN_INTEVT_addr \<Longrightarrow> ReadMem_p4mmr X hw_read16 (a OR 0xE0000000) t = Ret 0 t"
    "n \<noteq> 32 \<Longrightarrow> a \<noteq> CCN_INTEVT_addr \<Longrightarrow> ReadMem_p4mmr X hw_read32 (a OR 0xE0000000) t = Ret 0 t"
    using n by (auto simp: r(1) rw_register_def invalid_register_def)
qed

lemma plain_write:
  assumes p: "plain_ok X (m, a, n, k)"
  shows "WriteMem_p4mmr X hw_write8 (a OR 0xE0000000) v8 t = Ret () (if n = 8 then p4_put m (getRegIndex a) (ucast v8 AND k) t else t)"
    "WriteMem_p4mmr X hw_write16 (a OR 0xE0000000) v16 t = Ret () (if n = 16 then p4_put m (getRegIndex a) (ucast v16 AND k) t else t)"
    "WriteMem_p4mmr X hw_write32 (a OR 0xE0000000) v32 t = Ret () (if n = 32 then p4_put m (getRegIndex a) (v32 AND k) t else t)"
proof -
  have n: "n = 8 \<or> n = 16 \<or> n = 32" using p by (simp add: plain_ok_def)
  then show "WriteMem_p4mmr X hw_write8 (a OR 0xE0000000) v8 t = Ret () (if n = 8 then p4_put m (getRegIndex a) (ucast v8 AND k) t else t)"
    "WriteMem_p4mmr X hw_write16 (a OR 0xE0000000) v16 t = Ret () (if n = 16 then p4_put m (getRegIndex a) (ucast v16 AND k) t else t)"
    "WriteMem_p4mmr X hw_write32 (a OR 0xE0000000) v32 t = Ret () (if n = 32 then p4_put m (getRegIndex a) (v32 AND k) t else t)"
    by (auto simp: plain_access(1) [OF p] rw_register_def invalid_register_def writeModule_def)
qed

lemma ucast_masked:
  "(ucast (ucast (v :: u8) AND (k :: u32)) :: u8) = v AND ucast k" "(ucast (ucast (w :: u16) AND (k :: u32)) :: u16) = w AND ucast k"
  by (rule bit_word_eqI, auto simp: bit_ucast_iff bit_and_iff)+

text \<open>C40: A readable and writable register without a handler answers to accesses of its own size only
  (the three read-only registers without a handler are not covered). A write of that size
  to its address in P4 stores the value cut by the mask of the register, a read returns it, and no
  other register changes; writes of another size change nothing, and reads of another size return
  0 (\<open>INTEVT\<close>, which is read by a shortcut in all sizes, excepted). A 32-bit access to the registers at the
  top of P4 whose address is not a multiple of 4 does nothing.\<close>
theorem plain_register_access:
  fixes v8 :: u8 and v16 :: u16 and v32 :: u32
  assumes "ram_mapped (cc_areas (mr_cache X)) s" and "(m, a, n, k) \<in> set plain_registers"
    and "i = getRegIndex a" and "addr = a OR 0xE0000000" and "E' = with_mmr X E"
  shows "(if n = 8 then writet8 E' addr v8 s = Ret () (p4_put m i (ucast v8 AND k) s) \<and>
        readt8 E' addr (p4_put m i (ucast v8 AND k) s) = Ret (v8 AND ucast k) (p4_put m i (ucast v8 AND k) s)
      else writet8 E' addr v8 s = Ret () s \<and> (a \<noteq> CCN_INTEVT_addr \<longrightarrow> readt8 E' addr s = Ret 0 s)) \<and>
    (if n = 16 then writet16 E' addr v16 s = Ret () (p4_put m i (ucast v16 AND k) s) \<and>
        readt16 E' addr (p4_put m i (ucast v16 AND k) s) = Ret (v16 AND ucast k) (p4_put m i (ucast v16 AND k) s)
      else writet16 E' addr v16 s = Ret () s \<and> (a \<noteq> CCN_INTEVT_addr \<longrightarrow> readt16 E' addr s = Ret 0 s)) \<and>
    (if n = 32 then writet32 E' addr v32 s = Ret () (p4_put m i (v32 AND k) s) \<and>
        readt32 E' addr (p4_put m i (v32 AND k) s) = Ret (v32 AND k) (p4_put m i (v32 AND k) s)
      else writet32 E' addr v32 s = Ret () s \<and> (a \<noteq> CCN_INTEVT_addr \<longrightarrow> readt32 E' addr s = Ret 0 s)) \<and>
    (\<forall>m' i' v. (m', i') \<noteq> (m, i) \<longrightarrow> p4_get m' i' (p4_put m i v s) = p4_get m' i' s) \<and>
    (\<forall>y. page_of y = 0xFF \<longrightarrow> y AND 3 \<noteq> 0 \<longrightarrow> writet32 E' y v32 s = Ret () s \<and> readt32 E' y s = Ret 0 s)"
proof -
  have p: "plain_ok X (m, a, n, k)" by (rule plain_table [OF assms(2)])
  have pg: "page_of addr = 0xFF" and nw: "\<not> narrow m i" using p by (simp_all add: plain_ok_def assms(3,4))
  note io = with_mmr_p4 [OF assms(1), where E = E, folded assms(5)]
  have io': "ram_mapped (cc_areas (mr_cache X)) (p4_put m i v s)" for v using assms(1) by simp
  note ior = with_mmr_p4(1-3) [OF io' pg, where E = E, folded assms(5)]
  note w = plain_write [OF p, folded assms(3,4)] and r = plain_read [OF p, folded assms(3,4)]
  have o: "\<forall>m' i' v. (m', i') \<noteq> (m, i) \<longrightarrow> p4_get m' i' (p4_put m i v s) = p4_get m' i' s"
    by (intro allI impI p4_put_other)
  have u: "\<forall>y. page_of y = 0xFF \<longrightarrow> y AND 3 \<noteq> 0 \<longrightarrow> writet32 E' y v32 s = Ret () s \<and> readt32 E' y s = Ret 0 s"
    by (simp add: io unaligned_p4)
  show ?thesis
    by (intro conjI o u) (simp_all add: io pg ior w r p4_get_put_same [OF nw] ucast_masked)
qed

definition mmr_example :: "u8 list mmr_cfg" where
  "mmr_example = \<lparr>mr_env = idle_env, mr_cache = example_cfg, mr_vmem = False, mr_dynarec = False, mr_Cable = 0,
     mr_ResetCache = (\<lambda>s. s), mr_LUTFlush = (\<lambda>s. s), mr_NaomiBoardIDWrite = (\<lambda>_ s. s), mr_NaomiBoardIDRead = (\<lambda>_. 0),
     mr_pipe = byte_log\<rparr>"

theorem plain_register_access_witness:
  "bindM (writet16 (with_mmr mmr_example idle_env) 0xFF800004 0xFFFF) (\<lambda>_. readt16 (with_mmr mmr_example idle_env) 0xFF800004)
     (mapped_machine []) = Ret 0x3FFD (p4_put BSC 1 0x3FFD (mapped_machine [])) \<and>
   writet32 (with_mmr mmr_example idle_env) 0xFF800004 0xFFFF (mapped_machine []) = Ret () (mapped_machine [])"
proof -
  have m: "ram_mapped (cc_areas (mr_cache mmr_example)) (mapped_machine [])"
    using mapped_machine_ram [of "[]"] by (simp add: mmr_example_def example_cfg_def)
  have e: "(BSC, BSC_BCR2_addr, 16, 0x3ffd) \<in> set plain_registers" by (simp add: plain_registers_def)
  have i: "getRegIndex BSC_BCR2_addr = 1" by (simp add: getRegIndex_def)
  show ?thesis
    using plain_register_access [OF m e refl refl refl, where E = idle_env and ?v16.0 = "0xFFFF" and ?v32.0 = "0xFFFF"]
    by (simp add: i)
qed

end
