(* ===== verification/V42bis.thy ===== *)
theory V42bis
  imports Flycast_Prelude "HOL-Library.AList"
begin

unbundle bit_operations_syntax

text \<open>
  The data compression of the modem, V.42bis, \<^verbatim>\<open>hw/modem/v42bis.h\<close> and \<^verbatim>\<open>v42bis.cpp\<close>: the dictionary of
  strings, the string matcher that both ends run, the compressor and the decompressor. The
  dictionary is the vector of nodes; a pointer to a node is its index, which is its code. A call
  that throws, that reads past the vector or that never returns is an error value. Codes and
  lengths stay far below the range of the host's integers and are numbers; the bit buffers, the
  escape character and the counters of the compressibility test are words.
\<close>

section \<open>The dictionary\<close>

abbreviation (input) "CW_RESERVED \<equiv> (3 :: nat)"
abbreviation (input) "CW_FIRST \<equiv> (259 :: nat)"
abbreviation (input) "FLUSH_CODE \<equiv> (1 :: nat)"
abbreviation (input) "STEPUP \<equiv> (2 :: nat)"
abbreviation (input) "ETM \<equiv> (0 :: nat)"
abbreviation (input) "ECM \<equiv> (0 :: u8)"
abbreviation (input) "EID \<equiv> (1 :: u8)"
abbreviation (input) "RESET_COMMAND \<equiv> (2 :: u8)"

datatype v42_error = InvalidCommand | SizeLimit | UnknownCode | OutOfRange | NoReturn

definition bindE :: "'e + 'a \<Rightarrow> ('a \<Rightarrow> 'e + 'b) \<Rightarrow> 'e + 'b" where
  "bindE m f = (case m of Inl e \<Rightarrow> Inl e | Inr x \<Rightarrow> f x)"

lemma bindE_simps [simp]: "bindE (Inl e) f = Inl e" "bindE (Inr x) f = f x"
  by (simp_all add: bindE_def)

text \<open>The parent of a node: no node, the mark of a root, or a node.\<close>

datatype node_link = Null | RootMark | Link nat

record Node =
  node_character :: u8
  node_parent :: node_link
  node_children :: "(u8 \<times> nat) list"

definition free_node :: Node where
  "free_node = \<lparr>node_character = 0, node_parent = Null, node_children = []\<rparr>"

definition isLeaf :: "Node \<Rightarrow> bool" where
  "isLeaf n = (node_children n = [])"

definition isFree :: "Node \<Rightarrow> bool" where
  "isFree n = (node_parent n = Null)"

definition isRoot :: "Node \<Rightarrow> bool" where
  "isRoot n = (node_parent n = RootMark)"

definition makeRootNode :: "u8 \<Rightarrow> Node" where
  "makeRootNode c = \<lparr>node_character = c, node_parent = RootMark, node_children = []\<rparr>"

definition getChild :: "Node list \<Rightarrow> nat \<Rightarrow> u8 \<Rightarrow> nat option" where
  "getChild d code octet = map_of (node_children (d ! code)) octet"

definition addChild :: "nat \<Rightarrow> nat \<Rightarrow> u8 \<Rightarrow> Node list \<Rightarrow> Node list" where
  "addChild childCode parent childChar d =
    (let d = d[childCode := \<lparr>node_character = childChar, node_parent = Link parent, node_children = []\<rparr>]
     in d[parent := node_children_update (AList.update childChar childCode) (d ! parent)])"

definition removeChild :: "nat \<Rightarrow> nat \<Rightarrow> Node list \<Rightarrow> Node list" where
  "removeChild parent child d =
    (let d = d[parent := node_children_update (AList.delete (node_character (d ! child))) (d ! parent)]
     in d[child := node_parent_update (\<lambda>_. Null) (d ! child)])"

definition Dictionary_reset :: "Node list \<Rightarrow> Node list" where
  "Dictionary_reset d = map (\<lambda>i. if i < CW_RESERVED then d ! i
     else if i < CW_FIRST then makeRootNode (of_nat (i - CW_RESERVED)) else free_node) [0..<length d]"

text \<open>The search of \<^verbatim>\<open>recoverNode\<close> for the next entry to use. It has no value if there is no leaf.\<close>

partial_function (option) recover_loop :: "nat \<Rightarrow> Node list \<Rightarrow> nat \<Rightarrow> (nat \<times> Node list) option" where
  "recover_loop maxCodeWords d code =
    (let code' = (if maxCodeWords \<le> code + 1 then CW_FIRST else code + 1); node = d ! code'
     in if \<not> isLeaf node then recover_loop maxCodeWords d code'
        else case node_parent node of
          Null \<Rightarrow> Some (code', d)
        | RootMark \<Rightarrow> None
        | Link p \<Rightarrow> Some (code', removeChild p code' d))"

section \<open>What both ends share\<close>

record v42base =
  v42_buffer :: "u8 list"
  maxCodeWords :: nat
  maxStringLength :: int
  nextCodeWord :: nat
  codeWordSize :: nat
  codeWordThreshold :: nat
  dict :: "Node list"
  lastAddedCode :: int
  matchLen :: int
  curCode :: int
  transparent :: bool
  modeTransition :: bool
  escapeCode :: u8

definition push :: "u8 \<Rightarrow> 'a v42base_scheme \<Rightarrow> 'a v42base_scheme" where
  "push b s = v42_buffer_update (\<lambda>q. q @ [b]) s"

definition read_byte :: "'a v42base_scheme \<Rightarrow> int \<times> 'a v42base_scheme" where
  "read_byte s = (case v42_buffer s of [] \<Rightarrow> (-1, s) | b # q \<Rightarrow> (uint b, v42_buffer_update (\<lambda>_. q) s))"

definition available :: "'a v42base_scheme \<Rightarrow> nat" where
  "available s = length (v42_buffer s)"

definition V42Base_reset :: "'a v42base_scheme \<Rightarrow> 'a v42base_scheme" where
  "V42Base_reset s = s\<lparr>dict := Dictionary_reset (dict s), nextCodeWord := CW_FIRST, codeWordSize := 9,
     codeWordThreshold := 512, lastAddedCode := -1, matchLen := 0, curCode := -1, transparent := True,
     modeTransition := False, escapeCode := 0\<rparr>"

definition recoverNode :: "'a v42base_scheme \<Rightarrow> v42_error + 'a v42base_scheme" where
  "recoverNode s = (case recover_loop (maxCodeWords s) (dict s) (nextCodeWord s) of
     None \<Rightarrow> Inl NoReturn | Some (code, d) \<Rightarrow> Inr (s\<lparr>nextCodeWord := code, dict := d\<rparr>))"

definition acceptChar ::
  "('a v42base_scheme \<Rightarrow> v42_error + 'a v42base_scheme) \<Rightarrow> u8 \<Rightarrow> 'a v42base_scheme
     \<Rightarrow> v42_error + (int \<times> 'a v42base_scheme)" where
  "acceptChar checkDictSize octet s =
    (let root = int (unat octet + CW_RESERVED) in
     if curCode s = -1 then Inr (-1, s\<lparr>curCode := root, matchLen := 1, modeTransition := False\<rparr>)
     else
      (let s = s\<lparr>matchLen := matchLen s + 1\<rparr>; node = getChild (dict s) (nat (curCode s)) octet in
       if node \<noteq> None \<and> \<not> modeTransition s \<and> int (the node) \<noteq> lastAddedCode s
       then Inr (-1, s\<lparr>curCode := int (the node)\<rparr>)
       else
        bindE (if node = None \<and> matchLen s \<le> maxStringLength s
               then bindE (checkDictSize s) (\<lambda>s.
                 recoverNode (s\<lparr>dict := addChild (nextCodeWord s) (nat (curCode s)) octet (dict s),
                   lastAddedCode := int (nextCodeWord s)\<rparr>))
               else Inr (s\<lparr>lastAddedCode := -1\<rparr>))
         (\<lambda>s. Inr (if modeTransition s then -1 else curCode s,
            s\<lparr>modeTransition := False, curCode := root, matchLen := 1\<rparr>))))"

section \<open>The compressor\<close>

record compressor = v42base +
  compressTest :: u32
  compressTestCount :: u32
  outBitBuf :: u32
  outBitPos :: int

text \<open>The loops that hand over whole bytes, at the end of \<^verbatim>\<open>pushCode\<close> and of \<^verbatim>\<open>flush\<close>.\<close>

definition put_byte :: "compressor \<Rightarrow> compressor" where
  "put_byte c = (push (ucast (outBitBuf c)) c)\<lparr>outBitBuf := drop_bit 8 (outBitBuf c), outBitPos := outBitPos c - 8\<rparr>"

lemma outBitPos_put_byte: "outBitPos (put_byte c) = outBitPos c - 8"
  by (simp add: put_byte_def)

function put_bytes :: "compressor \<Rightarrow> compressor" where
  "put_bytes c = (if 8 \<le> outBitPos c then put_bytes (put_byte c) else c)"
  by auto
termination by (relation "measure (\<lambda>c. nat (outBitPos c))") (auto simp: outBitPos_put_byte)

function put_rest :: "compressor \<Rightarrow> compressor" where
  "put_rest c = (if 0 < outBitPos c then put_rest (put_byte c) else c)"
  by auto
termination by (relation "measure (\<lambda>c. nat (outBitPos c))") (auto simp: outBitPos_put_byte)

declare put_bytes.simps [simp del] put_rest.simps [simp del]

definition pushCode :: "nat \<Rightarrow> compressor \<Rightarrow> compressor" where
  "pushCode code c = put_bytes (c\<lparr>outBitBuf := outBitBuf c OR push_bit (nat (outBitPos c)) (of_nat code),
     outBitPos := outBitPos c + int (codeWordSize c)\<rparr>)"

text \<open>The loop of \<^verbatim>\<open>checkDictSize\<close>.\<close>

partial_function (option) step_up :: "compressor \<Rightarrow> compressor option" where
  "step_up c =
    (if codeWordThreshold c \<le> nextCodeWord c \<and> codeWordThreshold c \<le> maxCodeWords c
     then step_up ((pushCode STEPUP c)\<lparr>codeWordSize := codeWordSize c + 1,
       codeWordThreshold := codeWordThreshold c * 2\<rparr>)
     else Some c)"

definition checkDictSize :: "compressor \<Rightarrow> v42_error + compressor" where
  "checkDictSize c = (if transparent c then Inr c
     else case step_up c of None \<Rightarrow> Inl NoReturn | Some c \<Rightarrow> Inr c)"

definition Compressor_flush :: "bool \<Rightarrow> compressor \<Rightarrow> compressor" where
  "Compressor_flush enterTransparent c =
    (if transparent c then c
     else
      (let c = (if curCode c \<noteq> -1 \<and> \<not> modeTransition c
                then (pushCode (nat (curCode c)) c)\<lparr>modeTransition := True\<rparr> else c);
           c = (if enterTransparent then pushCode ETM c
                else if outBitPos c mod 8 \<noteq> 0 then pushCode FLUSH_CODE c else c)
       in (put_rest c)\<lparr>outBitPos := 0\<rparr>))"

definition changeMode :: "compressor \<Rightarrow> compressor" where
  "changeMode c =
    (let c = (if transparent c
       then (push ECM (push (escapeCode c) c))\<lparr>transparent := False, compressTestCount := 256\<rparr>
       else (Compressor_flush True c)\<lparr>transparent := True, compressTestCount := 64\<rparr>)
     in c\<lparr>modeTransition := True, compressTest := 0\<rparr>)"

text \<open>The test of compressibility after a code, and the escape of a character.\<close>

definition compress_test :: "int \<Rightarrow> compressor \<Rightarrow> compressor" where
  "compress_test matchedLen c =
    (let c = c\<lparr>compressTest := compressTest c + of_int (8 * matchedLen - int (codeWordSize c)),
           compressTestCount := compressTestCount c - of_int matchedLen\<rparr>
     in if sint (compressTestCount c) \<le> 0 \<and>
           (transparent c \<and> 16 < sint (compressTest c) \<or> \<not> transparent c \<and> sint (compressTest c) < -16)
        then changeMode c else c)"

definition put_char :: "u8 \<Rightarrow> compressor \<Rightarrow> compressor" where
  "put_char b c =
    (let c = (if transparent c then push b c else c)
     in if b = escapeCode c
        then (let c = (if transparent c then push EID c else c) in c\<lparr>escapeCode := escapeCode c + 51\<rparr>)
        else c)"

definition Compressor_write :: "u8 \<Rightarrow> compressor \<Rightarrow> v42_error + compressor" where
  "Compressor_write b c =
    (let c = put_char b c; matchedLen = matchLen c
     in bindE (acceptChar checkDictSize b c) (\<lambda>(code, c).
       Inr (if code = -1 then c
            else compress_test matchedLen (if \<not> transparent c then pushCode (nat code) c else c))))"

definition Compressor_reset :: "compressor \<Rightarrow> compressor" where
  "Compressor_reset c =
    (V42Base_reset c)\<lparr>outBitBuf := 0, outBitPos := 0, compressTest := 0, compressTestCount := 64\<rparr>"

definition Compressor :: "nat \<Rightarrow> int \<Rightarrow> compressor" where
  "Compressor codeWords stringLength = Compressor_reset
    \<lparr>v42_buffer = [], maxCodeWords = codeWords, maxStringLength = stringLength, nextCodeWord = CW_FIRST,
     codeWordSize = 9, codeWordThreshold = 512, dict = Dictionary_reset (replicate codeWords free_node),
     lastAddedCode = -1, matchLen = 0, curCode = -1, transparent = True, modeTransition = False,
     escapeCode = 0, compressTest = 0, compressTestCount = 64, outBitBuf = 0, outBitPos = 0\<rparr>"

section \<open>The decompressor\<close>

record decompressor = v42base +
  escaped :: bool
  inputBitBuffer :: u32
  inputBitCount :: int

definition Decompressor_flush :: "decompressor \<Rightarrow> decompressor" where
  "Decompressor_flush d = d\<lparr>inputBitBuffer := drop_bit (nat (inputBitCount d mod 8)) (inputBitBuffer d),
     inputBitCount := inputBitCount d - inputBitCount d mod 8\<rparr>"

definition Decompressor_reset :: "decompressor \<Rightarrow> decompressor" where
  "Decompressor_reset d = (V42Base_reset d)\<lparr>escaped := False, inputBitBuffer := 0, inputBitCount := 0\<rparr>"

definition Decompressor :: "nat \<Rightarrow> int \<Rightarrow> decompressor" where
  "Decompressor codeWords stringLength = Decompressor_reset
    \<lparr>v42_buffer = [], maxCodeWords = codeWords, maxStringLength = stringLength, nextCodeWord = CW_FIRST,
     codeWordSize = 9, codeWordThreshold = 512, dict = Dictionary_reset (replicate codeWords free_node),
     lastAddedCode = -1, matchLen = 0, curCode = -1, transparent = True, modeTransition = False,
     escapeCode = 0, escaped = False, inputBitBuffer = 0, inputBitCount = 0\<rparr>"

text \<open>The walk from a node to its root, which collects the string in \<^verbatim>\<open>decodeBuf\<close>.\<close>

partial_function (option) walk_up :: "Node list \<Rightarrow> nat \<Rightarrow> u8 list \<Rightarrow> u8 list option" where
  "walk_up d code decodeBuf =
    (let node = d ! code; decodeBuf = node_character node # decodeBuf
     in case node_parent node of
          RootMark \<Rightarrow> Some decodeBuf
        | Link p \<Rightarrow> walk_up d p decodeBuf
        | Null \<Rightarrow> None)"

text \<open>The output of a string.\<close>

definition put_decoded :: "u8 \<Rightarrow> decompressor \<Rightarrow> decompressor" where
  "put_decoded v d = (push v d)\<lparr>escapeCode := (if v = escapeCode d then escapeCode d + 51 else escapeCode d)\<rparr>"

definition control_code :: "nat \<Rightarrow> decompressor \<Rightarrow> v42_error + decompressor" where
  "control_code newCode d =
    (if newCode = ETM
     then Inr (d\<lparr>transparent := True, modeTransition := True, inputBitCount := 0, inputBitBuffer := 0\<rparr>)
     else if newCode = FLUSH_CODE then Inr (Decompressor_flush d)
     else
      (let d = d\<lparr>codeWordSize := codeWordSize d + 1, codeWordThreshold := codeWordThreshold d * 2\<rparr>
       in if maxCodeWords d < codeWordThreshold d then Inl SizeLimit else Inr d))"

definition string_code :: "nat \<Rightarrow> decompressor \<Rightarrow> v42_error + decompressor" where
  "string_code newCode d =
    (let d = d\<lparr>modeTransition := False\<rparr> in
     if maxCodeWords d \<le> newCode then Inl OutOfRange
     else if isFree (dict d ! newCode) then Inl UnknownCode
     else case walk_up (dict d) newCode [] of
       None \<Rightarrow> Inl NoReturn
     | Some decodeBuf \<Rightarrow>
        (let firstChar = hd decodeBuf; d = fold put_decoded decodeBuf d
         in bindE
           (if matchLen d < maxStringLength d \<and> lastAddedCode d \<noteq> curCode d \<and>
               getChild (dict d) (nat (curCode d)) firstChar = None
            then bindE (recoverNode (d\<lparr>dict := addChild (nextCodeWord d) (nat (curCode d)) firstChar (dict d)\<rparr>))
                   (\<lambda>d. Inr (d\<lparr>lastAddedCode := int (nextCodeWord d)\<rparr>))
            else Inr (d\<lparr>lastAddedCode := -1\<rparr>))
           (\<lambda>d. Inr (d\<lparr>curCode := int newCode, matchLen := int (length decodeBuf)\<rparr>))))"

definition transparent_byte :: "u8 \<Rightarrow> decompressor \<Rightarrow> v42_error + decompressor" where
  "transparent_byte b d = bindE (acceptChar Inr b (push b d)) (\<lambda>(_, d). Inr d)"

definition Decompressor_write :: "u8 \<Rightarrow> decompressor \<Rightarrow> v42_error + decompressor" where
  "Decompressor_write b d =
    (if transparent d then
      (if escaped d then
        (let d = d\<lparr>escaped := False\<rparr> in
         if b = ECM then Inr (d\<lparr>transparent := False, modeTransition := True\<rparr>)
         else if b = EID
         then transparent_byte (escapeCode d) (d\<lparr>escapeCode := escapeCode d + 51\<rparr>)
         else if b = RESET_COMMAND then Inr (Decompressor_reset d)
         else Inl InvalidCommand)
       else if b = escapeCode d then Inr (d\<lparr>escaped := True\<rparr>)
       else transparent_byte b d)
     else
      (let d = d\<lparr>inputBitBuffer := inputBitBuffer d OR push_bit (nat (inputBitCount d)) (ucast b),
             inputBitCount := inputBitCount d + 8\<rparr>
       in if inputBitCount d < int (codeWordSize d) then Inr d
          else
           (let w = codeWordSize d;
                newCode = unat (drop_bit (32 - w) (push_bit (32 - w) (inputBitBuffer d)));
                d = d\<lparr>inputBitCount := inputBitCount d - int w, inputBitBuffer := drop_bit w (inputBitBuffer d)\<rparr>
            in if newCode < CW_RESERVED then control_code newCode d else string_code newCode d)))"

declare recover_loop.simps [code] step_up.simps [code] walk_up.simps [code]

section \<open>Sessions\<close>

text \<open>What the user of a compressor does, and the transfer of the bytes to the other end.\<close>

datatype v42_op = Write u8 | Flush | ChangeMode

fun compressor_op :: "v42_op \<Rightarrow> compressor \<Rightarrow> v42_error + compressor" where
  "compressor_op (Write b) c = Compressor_write b c"
| "compressor_op Flush c = Inr (Compressor_flush False c)"
| "compressor_op ChangeMode c = Inr (changeMode c)"

primrec run_compressor :: "v42_op list \<Rightarrow> compressor \<Rightarrow> v42_error + compressor" where
  "run_compressor [] c = Inr c"
| "run_compressor (x # xs) c = bindE (compressor_op x c) (run_compressor xs)"

primrec run_decompressor :: "u8 list \<Rightarrow> decompressor \<Rightarrow> v42_error + decompressor" where
  "run_decompressor [] d = Inr d"
| "run_decompressor (b # bs) d = bindE (Decompressor_write b d) (run_decompressor bs)"

definition written :: "v42_op list \<Rightarrow> u8 list" where
  "written xs = concat (map (\<lambda>x. case x of Write b \<Rightarrow> [b] | _ \<Rightarrow> []) xs)"

end
