(* ===== verification/V42bis_Dictionary.thy ===== *)
theory V42bis_Dictionary
  imports V42bis
begin

text \<open>
  The dictionary of strings as a tree: which string a code stands for, that the children of the
  nodes and their parents agree, and that entering a string and freeing the next entry to use keep
  this and the strings of all other codes. The search for the entry to use always ends.
\<close>

section \<open>The string of a code\<close>

inductive spells :: "Node list \<Rightarrow> nat \<Rightarrow> u8 list \<Rightarrow> bool" for d where
  root: "node_parent (d ! c) = RootMark \<Longrightarrow> spells d c [node_character (d ! c)]"
| step: "node_parent (d ! c) = Link p \<Longrightarrow> spells d p s \<Longrightarrow> spells d c (s @ [node_character (d ! c)])"

lemma spells_Null: "spells d c s \<Longrightarrow> node_parent (d ! c) \<noteq> Null"
  by (cases rule: spells.cases) auto

lemma spells_nonempty: "spells d c s \<Longrightarrow> s \<noteq> []"
  by (cases rule: spells.cases) auto

lemma spells_unique: "spells d c s \<Longrightarrow> spells d c t \<Longrightarrow> s = t"
proof (induction arbitrary: t rule: spells.induct)
  case (root c)
  from root.prems root.hyps show ?case by (cases rule: spells.cases) auto
next
  case (step c p s)
  from step.prems step.hyps show ?case by (cases rule: spells.cases) (auto dest: step.IH)
qed

lemma walk_up_spells: "spells d c s \<Longrightarrow> walk_up d c buf = Some (s @ buf)"
  by (induction arbitrary: buf rule: spells.induct) (subst walk_up.simps, simp add: Let_def)+

definition dict_ok :: "nat \<Rightarrow> Node list \<Rightarrow> bool" where
  "dict_ok N d \<longleftrightarrow> length d = N \<and> 259 \<le> N \<and>
     (\<forall>c < 3. isFree (d ! c)) \<and>
     (\<forall>c. 3 \<le> c \<and> c < 259 \<longrightarrow> isRoot (d ! c) \<and> node_character (d ! c) = of_nat (c - 3)) \<and>
     (\<forall>c < N. 259 \<le> c \<longrightarrow> \<not> isRoot (d ! c)) \<and>
     (\<forall>p < N. \<forall>x c. getChild d p x = Some c \<longleftrightarrow>
        c < N \<and> node_parent (d ! c) = Link p \<and> node_character (d ! c) = x) \<and>
     (\<forall>c < N. \<forall>p. node_parent (d ! c) = Link p \<longrightarrow> p < N \<and> \<not> isFree (d ! p)) \<and>
     (\<forall>c < N. \<not> isFree (d ! c) \<longrightarrow> (\<exists>s. spells d c s))"

definition spare :: "nat \<Rightarrow> Node list \<Rightarrow> nat \<Rightarrow> bool" where
  "spare N d next \<longleftrightarrow> 259 \<le> next \<and> next < N \<and> isFree (d ! next)"

lemma dict_okD:
  assumes "dict_ok N d"
  shows "length d = N" "259 \<le> N"
    "3 \<le> c \<Longrightarrow> c < 259 \<Longrightarrow> node_parent (d ! c) = RootMark"
    "3 \<le> c \<Longrightarrow> c < 259 \<Longrightarrow> node_character (d ! c) = of_nat (c - 3)"
    "c < N \<Longrightarrow> 259 \<le> c \<Longrightarrow> node_parent (d ! c) \<noteq> RootMark"
    "p < N \<Longrightarrow> getChild d p x = Some c \<longleftrightarrow>
        c < N \<and> node_parent (d ! c) = Link p \<and> node_character (d ! c) = x"
    "c < N \<Longrightarrow> node_parent (d ! c) = Link p \<Longrightarrow> p < N \<and> node_parent (d ! p) \<noteq> Null \<and> 259 \<le> c"
    "c < N \<Longrightarrow> node_parent (d ! c) \<noteq> Null \<Longrightarrow> \<exists>s. spells d c s"
    "c < 3 \<Longrightarrow> node_parent (d ! c) = Null"
proof -
  show "p < N \<and> node_parent (d ! p) \<noteq> Null \<and> 259 \<le> c" if "c < N" "node_parent (d ! c) = Link p"
  proof -
    have "259 \<le> c"
    proof (rule ccontr)
      assume "\<not> 259 \<le> c"
      with assms that show False by (cases "c < 3") (auto simp: dict_ok_def isFree_def isRoot_def)
    qed
    with assms that show ?thesis by (auto simp: dict_ok_def isFree_def)
  qed
qed (use assms in \<open>auto simp: dict_ok_def isFree_def isRoot_def\<close>)

lemma spells_root:
  assumes "dict_ok N d"
  shows "spells d (unat (x :: u8) + 3) [x]"
proof -
  have x: "unat x < 256" using unsigned_less [of x] by simp
  have "spells d (unat x + 3) [node_character (d ! (unat x + 3))]"
    by (rule spells.root) (use dict_okD(3) [OF assms] x in auto)
  then show ?thesis using dict_okD(4) [OF assms, of "unat x + 3"] x by simp
qed

lemma child_spells:
  assumes "dict_ok N d" "p < N" "getChild d p x = Some c" "spells d p s"
  shows "spells d c (s @ [x])" "c < N" "259 \<le> c"
proof -
  have c: "c < N" "node_parent (d ! c) = Link p" "node_character (d ! c) = x"
    using dict_okD(6) [OF assms(1,2)] assms(3) by auto
  show "spells d c (s @ [x])" using spells.step [OF c(2) assms(4)] c(3) by simp
  show "c < N" by (rule c(1))
  show "259 \<le> c" using dict_okD(7) [OF assms(1) c(1,2)] by simp
qed

lemma spells_bound:
  assumes "dict_ok N d" "spells d c s" "c < N"
  shows "3 \<le> c"
  using spells_Null [OF assms(2)] dict_okD(9) [OF assms(1), of c] by (cases "c < 3") auto

text \<open>A node without children has none in the tree.\<close>

lemma leaf_no_child:
  assumes "dict_ok N d" "p < N" "isLeaf (d ! p)" "c < N"
  shows "node_parent (d ! c) \<noteq> Link p"
  using assms(3,4) dict_okD(6) [OF assms(1,2), of "node_character (d ! c)" c] by (auto simp: isLeaf_def getChild_def)

lemma free_leaf:
  assumes "dict_ok N d" "p < N" "isFree (d ! p)"
  shows "isLeaf (d ! p)"
proof (rule ccontr)
  assume "\<not> isLeaf (d ! p)"
  then obtain x c r where "node_children (d ! p) = (x, c) # r"
    by (cases "node_children (d ! p)") (auto simp: isLeaf_def)
  then have "getChild d p x = Some c" by (simp add: getChild_def)
  then have "c < N" "node_parent (d ! c) = Link p" using dict_okD(6) [OF assms(1,2)] by auto
  with dict_okD(7) [OF assms(1)] assms(3) show False by (auto simp: isFree_def)
qed

text \<open>Changing a node that is the parent of no other one keeps the strings of the other codes.\<close>

lemma spells_cong:
  assumes "spells d c s" and "c < N" and "dict_ok N d" and "\<And>c. c < N \<Longrightarrow> node_parent (d ! c) \<noteq> Link k"
    and "\<And>c. c < N \<Longrightarrow> c \<noteq> k \<Longrightarrow> node_parent (d' ! c) = node_parent (d ! c)
        \<and> node_character (d' ! c) = node_character (d ! c)" and "c \<noteq> k"
  shows "spells d' c s"
  using assms(1,2,6)
proof (induction rule: spells.induct)
  case (root c)
  then show ?case using spells.root [of d' c] assms(5) [of c] by simp
next
  case (step c p s)
  have "p < N" using dict_okD(7) [OF assms(3) \<open>c < N\<close> step.hyps(1)] by simp
  moreover have "p \<noteq> k" using assms(4) [OF \<open>c < N\<close>] step.hyps(1) by auto
  ultimately have "spells d' p s" using step.IH by simp
  then show ?case using spells.step [of d' c p s] step.hyps(1) assms(5) [OF \<open>c < N\<close> \<open>c \<noteq> k\<close>] by simp
qed

section \<open>Entering and removing a string\<close>

lemma addChild_nth:
  assumes "length d = N" "k < N" "p < N" "p \<noteq> k"
  shows "addChild k p x d ! c =
    (if c = k then \<lparr>node_character = x, node_parent = Link p, node_children = []\<rparr>
     else if c = p then node_children_update (AList.update x k) (d ! p) else d ! c)"
    "length (addChild k p x d) = N"
  using assms by (auto simp: addChild_def Let_def nth_list_update)

lemma removeChild_nth:
  assumes "length d = N" "k < N" "p < N" "p \<noteq> k"
  shows "removeChild p k d ! c =
    (if c = k then node_parent_update (\<lambda>_. Null) (d ! k)
     else if c = p then node_children_update (AList.delete (node_character (d ! k))) (d ! p) else d ! c)"
    "length (removeChild p k d) = N"
  using assms by (auto simp: removeChild_def Let_def nth_list_update)

lemma addChild_ok:
  assumes ok: "dict_ok N d" and k: "spare N d k" and p: "p < N" "\<not> isFree (d ! p)"
    and new: "getChild d p x = None"
  shows "dict_ok N (addChild k p x d)"
    and "c < N \<Longrightarrow> c \<noteq> k \<Longrightarrow> spells (addChild k p x d) c s \<longleftrightarrow> spells d c s"
    and "isLeaf (addChild k p x d ! k)" and "259 \<le> k \<and> k < N"
    and "q < N \<Longrightarrow> getChild (addChild k p x d) q y = (if q = p \<and> y = x then Some k else getChild d q y)"
proof -
  let ?d = "addChild k p x d"
  note len = dict_okD(1) [OF ok]
  have pk: "p \<noteq> k" and k': "259 \<le> k" "k < N" and kf: "isFree (d ! k)"
    using k p by (auto simp: spare_def)
  note nth = addChild_nth [OF len k'(2) p(1) pk, of x]
  have kl: "isLeaf (d ! k)" by (rule free_leaf [OF ok k'(2) kf])
  have none: "c < N \<Longrightarrow> node_parent (d ! c) \<noteq> Link k" for c by (rule leaf_no_child [OF ok k'(2) kl])
  have par: "node_parent (?d ! c) = (if c = k then Link p else node_parent (d ! c))"
    and chr: "node_character (?d ! c) = (if c = k then x else node_character (d ! c))" for c
    by (simp_all add: nth)
  have keep: "spells ?d c s" if "spells d c s" "c < N" "c \<noteq> k" for c s
    by (rule spells_cong [OF that(1,2) ok none _ that(3)]) (simp_all add: par chr)
  have child: "getChild ?d q y = (if q = p \<and> y = x then Some k else getChild d q y)" if "q < N" for q y
    using kl by (auto simp: getChild_def nth isLeaf_def update_conv' pk)
  have new': "spells ?d k (s @ [x])" if "spells d p s" for s
    using spells.step [of ?d k p s] keep [OF that p(1) pk] by (simp add: par chr)
  show ok': "dict_ok N ?d"
    unfolding dict_ok_def
  proof (intro conjI allI impI)
    show "length ?d = N" by (rule nth(2))
    show "259 \<le> N" by (rule dict_okD(2) [OF ok])
    show "isFree (?d ! c)" if "c < 3" for c using dict_okD(9) [OF ok that] k' that by (simp add: isFree_def par)
    show "isRoot (?d ! c)" "node_character (?d ! c) = of_nat (c - 3)" if "3 \<le> c \<and> c < 259" for c
      using dict_okD(3,4) [OF ok] that k' by (simp_all add: isRoot_def par chr)
    show "\<not> isRoot (?d ! c)" if "c < N" "259 \<le> c" for c
      using dict_okD(5) [OF ok that] by (simp add: isRoot_def par)
    show "getChild ?d q y = Some c \<longleftrightarrow>
        c < N \<and> node_parent (?d ! c) = Link q \<and> node_character (?d ! c) = y" if "q < N" for q y c
    proof (cases "c = k")
      case True
      have "getChild d q y \<noteq> Some k" using dict_okD(6) [OF ok that] kf by (auto simp: isFree_def)
      then show ?thesis using True k' by (auto simp: child [OF that] par chr)
    next
      case False
      then show ?thesis
        using dict_okD(6) [OF ok that, of y c] new by (auto simp: child [OF that] par chr)
    qed
    show "q < N" "\<not> isFree (?d ! q)" if "c < N" "node_parent (?d ! c) = Link q" for c q
      using dict_okD(7) [OF ok that(1), of q] that(2) p by (auto simp: isFree_def par split: if_splits)
    show "\<exists>s. spells ?d c s" if "c < N" "\<not> isFree (?d ! c)" for c
    proof (cases "c = k")
      case True
      then show ?thesis using dict_okD(8) [OF ok p(1)] p(2) new' by (auto simp: isFree_def)
    next
      case False
      then show ?thesis using dict_okD(8) [OF ok that(1)] that keep by (auto simp: isFree_def par)
    qed
  qed
  show "spells ?d c s \<longleftrightarrow> spells d c s" if "c < N" "c \<noteq> k"
  proof
    assume "spells ?d c s"
    moreover have "\<exists>t. spells d c t"
      using spells_Null [OF calculation] dict_okD(8) [OF ok that(1)] that by (auto simp: par)
    ultimately show "spells d c s" using spells_unique keep that by metis
  qed (rule keep [OF _ that])
  show "isLeaf (?d ! k)" by (simp add: isLeaf_def nth)
  show "259 \<le> k \<and> k < N" using k' by simp
  show "getChild ?d q y = (if q = p \<and> y = x then Some k else getChild d q y)" if "q < N" by (rule child [OF that])
qed

lemma removeChild_ok:
  assumes ok: "dict_ok N d" and k: "k < N" "isLeaf (d ! k)" "node_parent (d ! k) = Link p"
  shows "dict_ok N (removeChild p k d)"
    and "c < N \<Longrightarrow> c \<noteq> k \<Longrightarrow> spells (removeChild p k d) c s \<longleftrightarrow> spells d c s"
    and "spare N (removeChild p k d) k"
    and "q < N \<Longrightarrow> getChild (removeChild p k d) q y = (if getChild d q y = Some k then None else getChild d q y)"
proof -
  let ?d = "removeChild p k d"
  note len = dict_okD(1) [OF ok]
  have p: "p < N" "259 \<le> k" using dict_okD(7) [OF ok k(1,3)] by auto
  have none: "c < N \<Longrightarrow> node_parent (d ! c) \<noteq> Link k" for c by (rule leaf_no_child [OF ok k(1,2)])
  have pk: "p \<noteq> k" using none [OF k(1)] k(3) by auto
  note nth = removeChild_nth [OF len k(1) p(1) pk]
  have par: "node_parent (?d ! c) = (if c = k then Null else node_parent (d ! c))"
    and chr: "node_character (?d ! c) = node_character (d ! c)" for c
    by (simp_all add: nth)
  have keep: "spells ?d c s" if "spells d c s" "c < N" "c \<noteq> k" for c s
    by (rule spells_cong [OF that(1,2) ok none _ that(3)]) (simp_all add: par chr)
  have pc: "getChild d q y = Some k \<longleftrightarrow> q = p \<and> y = node_character (d ! k)" if "q < N" for q y
    using dict_okD(6) [OF ok that, of y k] k by auto
  have child: "getChild ?d q y = (if getChild d q y = Some k then None else getChild d q y)" if "q < N" for q y
    using k(2) pc [OF that, of y] by (auto simp: getChild_def nth isLeaf_def delete_conv' pk)
  show "dict_ok N ?d"
    unfolding dict_ok_def
  proof (intro conjI allI impI)
    show "length ?d = N" by (rule nth(2))
    show "259 \<le> N" by (rule dict_okD(2) [OF ok])
    show "isFree (?d ! c)" if "c < 3" for c using dict_okD(9) [OF ok that] by (simp add: isFree_def par)
    show "isRoot (?d ! c)" "node_character (?d ! c) = of_nat (c - 3)" if "3 \<le> c \<and> c < 259" for c
      using dict_okD(3,4) [OF ok] that p by (simp_all add: isRoot_def par chr)
    show "\<not> isRoot (?d ! c)" if "c < N" "259 \<le> c" for c
      using dict_okD(5) [OF ok that] by (simp add: isRoot_def par)
    show "getChild ?d q y = Some c \<longleftrightarrow>
        c < N \<and> node_parent (?d ! c) = Link q \<and> node_character (?d ! c) = y" if "q < N" for q y c
      using dict_okD(6) [OF ok that, of y c] by (auto simp: child [OF that] par chr)
    show "q < N" "\<not> isFree (?d ! q)" if "c < N" "node_parent (?d ! c) = Link q" for c q
      using dict_okD(7) [OF ok that(1), of q] none [OF that(1)] that(2) by (auto simp: isFree_def par split: if_splits)
    show "\<exists>s. spells ?d c s" if "c < N" "\<not> isFree (?d ! c)" for c
      using dict_okD(8) [OF ok that(1)] that keep by (auto simp: isFree_def par split: if_splits)
  qed
  show "spells ?d c s \<longleftrightarrow> spells d c s" if "c < N" "c \<noteq> k"
  proof
    assume "spells ?d c s"
    moreover have "\<exists>t. spells d c t"
      using spells_Null [OF calculation] dict_okD(8) [OF ok that(1)] that by (auto simp: par)
    ultimately show "spells d c s" using spells_unique keep that by metis
  qed (rule keep [OF _ that])
  show "spare N ?d k" using k p by (simp add: spare_def isFree_def par)
  show "getChild ?d q y = (if getChild d q y = Some k then None else getChild d q y)" if "q < N"
    by (rule child [OF that])
qed

text \<open>The next entry to use is found if there is a leaf. Its code is not in use afterwards.\<close>

definition recovered :: "nat \<Rightarrow> Node list \<Rightarrow> nat \<Rightarrow> Node list \<Rightarrow> bool" where
  "recovered N d k d' \<longleftrightarrow> dict_ok N d' \<and> spare N d' k \<and>
     (\<forall>c < N. c \<noteq> k \<longrightarrow> (\<forall>s. spells d' c s \<longleftrightarrow> spells d c s)) \<and>
     (\<forall>q < N. \<forall>y. getChild d' q y = (if getChild d q y = Some k then None else getChild d q y)) \<and>
     isLeaf (d ! k)"

lemma recover_here:
  assumes ok: "dict_ok N d" and k: "259 \<le> k" "k < N" "isLeaf (d ! k)"
  shows "\<exists>d'. (case node_parent (d ! k) of Null \<Rightarrow> Some (k, d) | RootMark \<Rightarrow> None
      | Link p \<Rightarrow> Some (k, removeChild p k d)) = Some (k, d') \<and> recovered N d k d'"
proof (cases "node_parent (d ! k)")
  case Null
  then have "getChild d q y \<noteq> Some k" if "q < N" for q y using dict_okD(6) [OF ok that] by auto
  then show ?thesis using Null ok k by (auto simp: recovered_def spare_def isFree_def)
next
  case RootMark
  with dict_okD(5) [OF ok k(2,1)] show ?thesis by simp
next
  case (Link p)
  then show ?thesis using removeChild_ok [OF ok k(2,3) Link] k by (auto simp: recovered_def)
qed

lemma recover_loop_ends:
  assumes "dict_ok N d" "259 \<le> l" "l < N" "isLeaf (d ! l)" "259 \<le> code" "code < N"
  shows "\<exists>k d'. recover_loop N d code = Some (k, d') \<and> recovered N d k d'"
  using assms(5,6)
proof (induction "if code < l then l - code else N - code + l" arbitrary: code rule: less_induct)
  case less
  let ?k = "if N \<le> code + 1 then 259 else code + 1"
  have k: "259 \<le> ?k" "?k < N" using less.prems assms(2,3) by auto
  show ?case
  proof (cases "isLeaf (d ! ?k)")
    case True
    then obtain d' where "recovered N d ?k d'" and "(case node_parent (d ! ?k) of Null \<Rightarrow> Some (?k, d)
        | RootMark \<Rightarrow> None | Link p \<Rightarrow> Some (?k, removeChild p ?k d)) = Some (?k, d')"
      using recover_here [OF assms(1) k] by blast
    moreover have "recover_loop N d code = Some (?k, d')"
      unfolding recover_loop.simps [of N d code] Let_def using True calculation(2) by simp
    ultimately show ?thesis by blast
  next
    case False
    then have "?k \<noteq> l" using assms(4) by auto
    then have "(if ?k < l then l - ?k else N - ?k + l) < (if code < l then l - code else N - code + l)"
      using less.prems assms(2,3) by (auto split: if_splits)
    from less.hyps [OF this k] have "\<exists>k' d'. recover_loop N d ?k = Some (k', d') \<and> recovered N d k' d'" .
    moreover have "recover_loop N d code = recover_loop N d ?k"
      unfolding recover_loop.simps [of N d code] Let_def using False by simp
    ultimately show ?thesis by simp
  qed
qed

end
