(* ===== verification/V42bis_Bits.thy ===== *)
theory V42bis_Bits
  imports V42bis
begin

unbundle bit_operations_syntax

text \<open>
  The stream of bits of the compressed mode. The compressor holds the bits of the last code that do not
  fill a byte, the decompressor those that do not make a code. A decompressor that takes one bit
  at a time (\<open>dbits\<close>) describes what the decompressor does with whole bytes.
\<close>

section \<open>Bits, bytes and codes\<close>

definition code_bits :: "nat \<Rightarrow> nat \<Rightarrow> bool list" where
  "code_bits w k = map (bit k) [0..<w]"

definition byte_bits :: "u8 \<Rightarrow> bool list" where
  "byte_bits b = map (bit b) [0..<8]"

abbreviation bits_val :: "bool list \<Rightarrow> 'a::comm_semiring_1" where
  "bits_val \<equiv> horner_sum of_bool 2"

fun octets :: "bool list \<Rightarrow> u8 list" where
  "octets R = (if length R < 8 then [] else bits_val (take 8 R) # octets (drop 8 R))"

fun odd_bits :: "bool list \<Rightarrow> bool list" where
  "odd_bits R = (if length R < 8 then R else odd_bits (drop 8 R))"

declare octets.simps [simp del] odd_bits.simps [simp del]

lemma length_code_bits [simp]: "length (code_bits w k) = w"
  by (simp add: code_bits_def)

lemma length_byte_bits [simp]: "length (byte_bits b) = 8"
  by (simp add: byte_bits_def)

lemma byte_bits_nonempty [simp]: "byte_bits b \<noteq> []"
  using length_byte_bits [of b] by (metis length_0_conv zero_neq_numeral)

lemma bits_val_code_bits: "k < 2 ^ w \<Longrightarrow> bits_val (code_bits w k) = k"
  by (simp add: code_bits_def horner_sum_bit_eq_take_bit take_bit_nat_eq_self)

lemma byte_bits_val: "length R \<le> 8 \<Longrightarrow> byte_bits (bits_val R) = R @ replicate (8 - length R) False"
  by (intro nth_equalityI) (auto simp: byte_bits_def bit_horner_sum_bit_word_iff nth_append)

lemma octets_odd: "concat (map byte_bits (octets R)) @ odd_bits R = R"
proof (induction R rule: octets.induct)
  case (1 R)
  show ?case
  proof (cases "length R < 8")
    case True
    then show ?thesis by (simp add: octets.simps [of R] odd_bits.simps [of R])
  next
    case False
    with 1 have "concat (map byte_bits (octets (drop 8 R))) @ odd_bits (drop 8 R) = drop 8 R" by simp
    moreover have "byte_bits (bits_val (take 8 R)) = take 8 R" using byte_bits_val [of "take 8 R"] False by simp
    ultimately show ?thesis using False by (simp add: octets.simps [of R] odd_bits.simps [of R])
  qed
qed

lemma length_odd_bits: "length (odd_bits R) < 8"
  by (induction R rule: odd_bits.induct) (subst odd_bits.simps, auto)

section \<open>The compressor\<close>

definition with_out :: "bool list \<Rightarrow> compressor \<Rightarrow> compressor" where
  "with_out R c = c\<lparr>outBitBuf := bits_val R, outBitPos := int (length R)\<rparr>"

definition send :: "u8 list \<Rightarrow> 'a v42base_scheme \<Rightarrow> 'a v42base_scheme" where
  "send bs s = v42_buffer_update (\<lambda>q. q @ bs) s"

lemma send_simps [simp]: "send [] s = s" "send bs (send as s) = send (as @ bs) s"
  by (simp_all add: send_def o_def)

lemma with_out_with_out [simp]: "with_out R (with_out Q c) = with_out R c"
  by (simp add: with_out_def)

lemma with_out_send: "with_out R (send bs c) = send bs (with_out R c)"
  by (simp add: with_out_def send_def)

lemma with_out_fields [simp]:
  "maxCodeWords (with_out R c) = maxCodeWords c" "maxStringLength (with_out R c) = maxStringLength c"
  "nextCodeWord (with_out R c) = nextCodeWord c" "codeWordSize (with_out R c) = codeWordSize c"
  "codeWordThreshold (with_out R c) = codeWordThreshold c" "dict (with_out R c) = dict c"
  "lastAddedCode (with_out R c) = lastAddedCode c" "matchLen (with_out R c) = matchLen c"
  "curCode (with_out R c) = curCode c" "transparent (with_out R c) = transparent c"
  "modeTransition (with_out R c) = modeTransition c" "escapeCode (with_out R c) = escapeCode c"
  "v42_buffer (with_out R c) = v42_buffer c" "outBitPos (with_out R c) = int (length R)"
  by (simp_all add: with_out_def)

lemma send_fields [simp]:
  "maxCodeWords (send R c) = maxCodeWords c" "maxStringLength (send R c) = maxStringLength c"
  "nextCodeWord (send R c) = nextCodeWord c" "codeWordSize (send R c) = codeWordSize c"
  "codeWordThreshold (send R c) = codeWordThreshold c" "dict (send R c) = dict c"
  "lastAddedCode (send R c) = lastAddedCode c" "matchLen (send R c) = matchLen c"
  "curCode (send R c) = curCode c" "transparent (send R c) = transparent c"
  "modeTransition (send R c) = modeTransition c" "escapeCode (send R c) = escapeCode c"
  "v42_buffer (send R c) = v42_buffer c @ R"
  by (simp_all add: send_def)

lemma or_push_bits:
  assumes "k < 2 ^ w" "length R + w \<le> 32"
  shows "(bits_val R :: u32) OR push_bit (length R) (of_nat k) = bits_val (R @ code_bits w k)"
proof (rule bit_word_eqI)
  fix i assume i: "i < LENGTH(32)"
  have "bit k j \<Longrightarrow> j < w" for j
    using assms(1) by (metis bit_take_bit_iff take_bit_nat_eq_self)
  from this [of "i - length R"] have "bit k (i - length R) \<Longrightarrow> \<not> i < length R \<Longrightarrow> i < length R + w" by simp
  then show "bit ((bits_val R :: u32) OR push_bit (length R) (of_nat k)) i = bit (bits_val (R @ code_bits w k) :: u32) i"
    using i assms(2) by (auto simp: bit_simps bit_horner_sum_bit_word_iff nth_append code_bits_def)
qed

lemma put_byte_with_out:
  assumes "length R \<le> 32"
  shows "put_byte (with_out R c) = (send [bits_val (take 8 R)] c)\<lparr>outBitBuf := bits_val (drop 8 R),
     outBitPos := int (length R) - 8\<rparr>"
proof -
  have "(ucast (bits_val R :: u32) :: u8) = bits_val (take 8 R)"
    by (rule bit_word_eqI) (auto simp: bit_simps bit_horner_sum_bit_word_iff)
  moreover have "drop_bit 8 (bits_val R :: u32) = bits_val (drop 8 R)"
    using assms by (intro bit_word_eqI) (auto simp: bit_simps bit_horner_sum_bit_word_iff add.commute)
  ultimately show ?thesis by (simp add: put_byte_def with_out_def push_def send_def)
qed

lemma put_bytes_with_out:
  "length R \<le> 32 \<Longrightarrow> put_bytes (with_out R c) = with_out (odd_bits R) (send (octets R) c)"
proof (induction R arbitrary: c rule: octets.induct)
  case (1 R)
  show ?case
  proof (cases "length R < 8")
    case True
    then show ?thesis by (simp add: put_bytes.simps [of "with_out R c"] octets.simps [of R] odd_bits.simps [of R])
  next
    case False
    have "put_byte (with_out R c) = with_out (drop 8 R) (send [bits_val (take 8 R)] c)"
      using False put_byte_with_out [OF 1(2)] by (simp add: with_out_def of_nat_diff)
    moreover have "put_bytes (with_out (drop 8 R) (send [bits_val (take 8 R)] c)) =
        with_out (odd_bits (drop 8 R)) (send (octets (drop 8 R)) (send [bits_val (take 8 R)] c))"
      using 1 False by simp
    ultimately show ?thesis using False
      by (simp add: put_bytes.simps [of "with_out R c"] octets.simps [of R] odd_bits.simps [of R])
  qed
qed

lemma pushCode_with_out:
  assumes "length R < 8" "codeWordSize c = w" "w \<le> 16" "k < 2 ^ w"
  shows "pushCode k (with_out R c) =
    with_out (odd_bits (R @ code_bits w k)) (send (octets (R @ code_bits w k)) c)"
proof -
  have "pushCode k (with_out R c) = put_bytes (with_out (R @ code_bits w k) c)"
    using or_push_bits [OF assms(4), of R] assms by (simp add: pushCode_def with_out_def)
  then show ?thesis using put_bytes_with_out [of "R @ code_bits w k" c] assms by simp
qed

text \<open>The end of a flush.\<close>

lemma put_rest_with_out:
  assumes "length R < 8"
  shows "(put_rest (with_out R c))\<lparr>outBitPos := 0\<rparr> = with_out [] (send (if R = [] then [] else [bits_val R]) c)"
proof (cases "R = []")
  case True
  then show ?thesis by (subst put_rest.simps) (simp add: with_out_def)
next
  case False
  have "put_rest (with_out R c) = put_byte (with_out R c)"
    using False assms by (simp add: put_rest.simps [of "with_out R c"] put_rest.simps [of "put_byte (with_out R c)"]
        outBitPos_put_byte)
  then show ?thesis using False assms by (simp add: put_byte_with_out) (simp add: with_out_def)
qed

section \<open>The decompressor\<close>

definition with_in :: "bool list \<Rightarrow> decompressor \<Rightarrow> decompressor" where
  "with_in R d = d\<lparr>inputBitBuffer := bits_val R, inputBitCount := int (length R)\<rparr>"

lemma with_in_with_in [simp]: "with_in R (with_in Q d) = with_in R d"
  by (simp add: with_in_def)

lemma with_in_fields [simp]:
  "maxCodeWords (with_in R d) = maxCodeWords d" "maxStringLength (with_in R d) = maxStringLength d"
  "nextCodeWord (with_in R d) = nextCodeWord d" "codeWordSize (with_in R d) = codeWordSize d"
  "codeWordThreshold (with_in R d) = codeWordThreshold d" "dict (with_in R d) = dict d"
  "lastAddedCode (with_in R d) = lastAddedCode d" "matchLen (with_in R d) = matchLen d"
  "curCode (with_in R d) = curCode d" "transparent (with_in R d) = transparent d"
  "modeTransition (with_in R d) = modeTransition d" "escapeCode (with_in R d) = escapeCode d"
  "v42_buffer (with_in R d) = v42_buffer d" "inputBitCount (with_in R d) = int (length R)"
  "escaped (with_in R d) = escaped d"
  by (simp_all add: with_in_def)

definition receive :: "nat \<Rightarrow> decompressor \<Rightarrow> v42_error + decompressor" where
  "receive k d = (if k < 3 then control_code k d else string_code k d)"

text \<open>A decompressor in compressed mode whose code size is that of its dictionary.\<close>

definition sized :: "decompressor \<Rightarrow> bool" where
  "sized d \<longleftrightarrow> \<not> transparent d \<and> 9 \<le> codeWordSize d \<and> codeWordSize d \<le> 16 \<and>
     codeWordThreshold d = 2 ^ codeWordSize d \<and> maxCodeWords d \<le> 2 ^ 16"

definition escape_after :: "u8 list \<Rightarrow> u8 \<Rightarrow> u8" where
  "escape_after s e = fold (\<lambda>v e. if v = e then e + 51 else e) s e"

lemma escape_after_simps [simp]:
  "escape_after [] e = e"
  "escape_after (s @ [v]) e = (let e' = escape_after s e in if v = e' then e' + 51 else e')"
  by (simp_all add: escape_after_def Let_def)

lemma fold_put_decoded: "fold put_decoded s d = (send s d)\<lparr>escapeCode := escape_after s (escapeCode d)\<rparr>"
proof (induction s arbitrary: d)
  case (Cons v s)
  have "put_decoded v d = (send [v] d)\<lparr>escapeCode := escape_after [v] (escapeCode d)\<rparr>"
    by (simp add: put_decoded_def push_def send_def escape_after_def)
  then show ?case using Cons [of "put_decoded v d"] by (simp add: send_def escape_after_def o_def)
qed (simp add: send_def)

lemma fold_put_decoded_with_in: "fold put_decoded s (with_in R d) = with_in R (fold put_decoded s d)"
  by (simp add: fold_put_decoded with_in_def send_def)

lemma recoverNode_with_in: "recoverNode (with_in R d) = map_sum id (with_in R) (recoverNode d)"
  by (simp add: recoverNode_def with_in_def split: option.split)

lemma receive_with_in:
  assumes "2 \<le> k"
  shows "receive k (with_in R d) = map_sum id (with_in R) (receive k d)"
proof (cases "k < 3")
  case True
  with assms show ?thesis by (simp add: receive_def control_code_def Let_def) (simp add: with_in_def)
next
  case False
  let ?e = "\<lambda>d. fold put_decoded (the (walk_up (dict d) k [])) (d\<lparr>modeTransition := False\<rparr>)"
  have m: "(with_in R d)\<lparr>modeTransition := False\<rparr> = with_in R (d\<lparr>modeTransition := False\<rparr>)" for d
    by (simp add: with_in_def)
  have l: "(with_in R d)\<lparr>lastAddedCode := x\<rparr> = with_in R (d\<lparr>lastAddedCode := x\<rparr>)"
    "(with_in R d)\<lparr>curCode := y, matchLen := z\<rparr> = with_in R (d\<lparr>curCode := y, matchLen := z\<rparr>)"
    "(with_in R d)\<lparr>dict := w\<rparr> = with_in R (d\<lparr>dict := w\<rparr>)" for d x y z w
    by (simp_all add: with_in_def)
  have b: "bindE (map_sum id (with_in R) r) (\<lambda>d. Inr (f d)) = map_sum id (with_in R) (bindE r (\<lambda>d. Inr (g d)))"
    if "\<And>d. f (with_in R d) = with_in R (g d)" for r :: "v42_error + decompressor" and f g
    using that by (cases r) simp_all
  show ?thesis
    using False by (simp add: receive_def string_code_def m l fold_put_decoded_with_in recoverNode_with_in Let_def
        b [where g="\<lambda>d. d\<lparr>lastAddedCode := int (nextCodeWord d)\<rparr>"]
        b [where g="\<lambda>d. d\<lparr>curCode := int k, matchLen := int (length s)\<rparr>" for s] split: option.split)
qed

lemma recoverNode_fields:
  assumes "recoverNode s = Inr t"
  shows "t = s\<lparr>nextCodeWord := nextCodeWord t, dict := dict t\<rparr>"
  using assms by (auto simp: recoverNode_def split: option.splits)

lemma string_code_sized:
  assumes "string_code k d = Inr d'"
  shows "transparent d' = transparent d" "codeWordSize d' = codeWordSize d"
    "codeWordThreshold d' = codeWordThreshold d" "maxCodeWords d' = maxCodeWords d"
proof -
  have f: "transparent (fold put_decoded s d) = transparent d \<and> codeWordSize (fold put_decoded s d) = codeWordSize d \<and>
    codeWordThreshold (fold put_decoded s d) = codeWordThreshold d \<and> maxCodeWords (fold put_decoded s d) = maxCodeWords d"
    for s d by (induction s arbitrary: d) (simp_all add: put_decoded_def push_def)
  have r: "transparent t = transparent s \<and> codeWordSize t = codeWordSize s \<and>
    codeWordThreshold t = codeWordThreshold s \<and> maxCodeWords t = maxCodeWords s"
    if "recoverNode s = Inr t" for s t :: decompressor
    by (subst (1 2 3 4) recoverNode_fields [OF that]) simp
  have "transparent d' = transparent d \<and> codeWordSize d' = codeWordSize d \<and>
    codeWordThreshold d' = codeWordThreshold d \<and> maxCodeWords d' = maxCodeWords d"
    using assms f by (auto simp: string_code_def Let_def bindE_def split: if_splits option.splits sum.splits dest!: r)
  then show "transparent d' = transparent d" "codeWordSize d' = codeWordSize d"
    "codeWordThreshold d' = codeWordThreshold d" "maxCodeWords d' = maxCodeWords d" by auto
qed

lemma receive_sized:
  assumes "receive k d = Inr d'" "2 \<le> k" "sized d"
  shows "sized d'"
proof (cases "k < 3")
  case True
  have "codeWordSize d < 16" if "2 * 2 ^ codeWordSize d \<le> maxCodeWords d" "maxCodeWords d \<le> 2 ^ 16"
  proof -
    have "(2::nat) ^ (codeWordSize d + 1) \<le> 2 ^ 16" using that by simp
    then show ?thesis by (subst (asm) power_increasing_iff) simp_all
  qed
  then show ?thesis using assms True
    by (auto simp: receive_def control_code_def sized_def Let_def split: if_splits)
next
  case False
  then show ?thesis using assms string_code_sized [of k d d'] by (simp add: receive_def sized_def)
qed

text \<open>One bit at a time, for codes that do not end at a byte: \<open>P\<close> are the bits of a code that have come in.\<close>

primrec dbits :: "bool list \<Rightarrow> bool list \<times> decompressor \<Rightarrow> v42_error + (bool list \<times> decompressor)" where
  "dbits [] st = Inr st"
| "dbits (x # xs) st = (case st of (P, d) \<Rightarrow>
     if length P + 1 < codeWordSize d then dbits xs (P @ [x], d)
     else bindE (if bits_val (P @ [x]) < (2 :: nat) then Inl InvalidCommand else receive (bits_val (P @ [x])) d)
       (\<lambda>d. dbits xs ([], d)))"

lemma dbits_append: "dbits (xs @ ys) st = bindE (dbits xs st) (dbits ys)"
proof (induction xs arbitrary: st)
  case (Cons x xs)
  obtain P d where "st = (P, d)" by (cases st)
  then show ?case using Cons by (auto simp: bindE_def split: sum.splits)
qed simp

lemma dbits_short: "length P + length xs < codeWordSize d \<Longrightarrow> dbits xs (P, d) = Inr (P @ xs, d)"
  by (induction xs arbitrary: P) simp_all

lemma dbits_code:
  assumes "length P + length xs = codeWordSize d" "xs \<noteq> []"
  shows "dbits xs (P, d) = bindE (if bits_val (P @ xs) < (2 :: nat) then Inl InvalidCommand
      else receive (bits_val (P @ xs)) d) (\<lambda>d. Inr ([], d))"
proof -
  obtain ys y where xs: "xs = ys @ [y]" using assms(2) by (metis append_butlast_last_id)
  have "dbits ys (P, d) = Inr (P @ ys, d)" using assms(1) xs by (intro dbits_short) simp
  then show ?thesis using assms(1) by (simp add: xs dbits_append)
qed

lemma dbits_inv:
  assumes "dbits xs (P, d) = Inr (P', d')" "sized d" "length P < codeWordSize d"
  shows "sized d' \<and> length P' < codeWordSize d'"
  using assms
proof (induction xs arbitrary: P d)
  case (Cons x xs)
  show ?case
  proof (cases "length P + 1 < codeWordSize d")
    case True
    then show ?thesis using Cons.IH [of "P @ [x]" d] Cons.prems by simp
  next
    case False
    then obtain d1 where d1: "receive (bits_val (P @ [x])) d = Inr d1" "2 \<le> (bits_val (P @ [x]) :: nat)"
      "dbits xs ([], d1) = Inr (P', d')"
      using Cons.prems(1) by (auto simp: bindE_def split: if_splits sum.splits)
    have "sized d1" by (rule receive_sized [OF d1(1,2) Cons.prems(2)])
    moreover have "0 < codeWordSize d1" using calculation by (simp add: sized_def)
    ultimately show ?thesis using Cons.IH [OF d1(3)] by simp
  qed
qed simp

section \<open>Bytes\<close>

lemma Decompressor_write_bits:
  assumes "sized d" "length P < codeWordSize d" "S = P @ byte_bits b" "w = codeWordSize d"
  shows "Decompressor_write b (with_in P d) =
    (if length S < w then Inr (with_in S d) else receive (bits_val (take w S)) (with_in (drop w S) d))"
proof -
  have w: "w \<le> 16" "length P < w" using assms by (auto simp: sized_def)
  have l: "length S \<le> 32" using w assms(3) by simp
  have b: "bit b j \<longleftrightarrow> j < 8 \<and> byte_bits b ! j" for j
    using bit_imp_le_length [of b j] by (auto simp: byte_bits_def)
  have "(bits_val P :: u32) OR push_bit (length P) (ucast b) = bits_val S"
    by (rule bit_word_eqI)
      (use w in \<open>auto simp: bit_simps bit_horner_sum_bit_word_iff nth_append b assms(3)\<close>)
  then have d: "(with_in P d)\<lparr>inputBitBuffer := inputBitBuffer (with_in P d) OR push_bit (nat (inputBitCount (with_in P d))) (ucast b),
      inputBitCount := inputBitCount (with_in P d) + 8\<rparr> = with_in S d"
    by (simp add: with_in_def assms(3))
  have "drop_bit (32 - w) (push_bit (32 - w) (bits_val S :: u32)) = bits_val (take w S)"
    by (rule bit_word_eqI) (use w in \<open>auto simp: bit_simps bit_horner_sum_bit_word_iff\<close>)
  moreover have "unat (bits_val (take w S) :: u32) = bits_val (take w S)"
  proof -
    have "(bits_val (take w S) :: u32) = of_nat (bits_val (take w S))"
      by (rule bit_word_eqI) (auto simp: bit_simps bit_horner_sum_bit_word_iff bit_horner_sum_bit_iff)
    moreover have "(bits_val (take w S) :: nat) < 2 ^ 32"
    proof (rule less_le_trans)
      show "(bits_val (take w S) :: nat) < 2 ^ length (take w S)" by (rule horner_sum_of_bool_2_less)
      show "(2 :: nat) ^ length (take w S) \<le> 2 ^ 32" by (rule power_increasing) (use w in auto)
    qed
    ultimately show ?thesis by (simp add: unsigned_of_nat take_bit_nat_eq_self)
  qed
  moreover have "drop_bit w (bits_val S :: u32) = bits_val (drop w S)"
    by (rule bit_word_eqI) (use l in \<open>auto simp: bit_simps bit_horner_sum_bit_word_iff add.commute\<close>)
  ultimately have "Decompressor_write b (with_in P d) = (if length S < w then Inr (with_in S d) else
      receive (bits_val (take w S)) ((with_in S d)\<lparr>inputBitCount := int (length S) - int w, inputBitBuffer := bits_val (drop w S)\<rparr>))"
    unfolding Decompressor_write_def Let_def d using assms
    by (simp add: sized_def receive_def) (simp add: with_in_def)
  moreover have "(with_in S d)\<lparr>inputBitCount := int (length S) - int w, inputBitBuffer := bits_val (drop w S)\<rparr> =
      with_in (drop w S) d" if "\<not> length S < w"
    using that by (cases d) (simp add: with_in_def of_nat_diff)
  ultimately show ?thesis by auto
qed

lemma feed_byte:
  assumes "sized d" "length P < codeWordSize d" "dbits (byte_bits b) (P, d) = Inr (P', d')"
  shows "Decompressor_write b (with_in P d) = Inr (with_in P' d')"
proof (cases "length P + 8 < codeWordSize d")
  case True
  then have "P' = P @ byte_bits b" "d' = d" using dbits_short [of P "byte_bits b" d] assms(3) by auto
  then show ?thesis using True assms(1,2) by (simp add: Decompressor_write_bits)
next
  case False
  define m where "m = codeWordSize d - length P"
  have m: "m \<le> 8" "0 < m" "length P + m = codeWordSize d" using False assms(2) by (auto simp: m_def)
  let ?xs = "take m (byte_bits b)" and ?ys = "drop m (byte_bits b)"
  have "dbits (byte_bits b) (P, d) = bindE (dbits ?xs (P, d)) (dbits ?ys)"
    using dbits_append [of ?xs ?ys] by simp
  also have "dbits ?xs (P, d) = bindE (if bits_val (P @ ?xs) < (2 :: nat) then Inl InvalidCommand
      else receive (bits_val (P @ ?xs)) d) (\<lambda>d. Inr ([], d))"
    by (rule dbits_code) (use m in auto)
  finally obtain d1 where d1: "2 \<le> (bits_val (P @ ?xs) :: nat)" "receive (bits_val (P @ ?xs)) d = Inr d1"
    "dbits ?ys ([], d1) = Inr (P', d')"
    using assms(3) by (auto simp: bindE_def split: if_splits sum.splits)
  have "sized d1" by (rule receive_sized [OF d1(2,1) assms(1)])
  then have "dbits ?ys ([], d1) = Inr (?ys, d1)" using m by (subst dbits_short) (auto simp: sized_def)
  then have "P' = ?ys" "d' = d1" using d1(3) by auto
  moreover have "take (codeWordSize d) (P @ byte_bits b) = P @ ?xs" "drop (codeWordSize d) (P @ byte_bits b) = ?ys"
    using m by (auto simp flip: m(3))
  ultimately show ?thesis
    using False d1 assms(1,2) by (simp add: Decompressor_write_bits receive_with_in)
qed

lemma feed_bytes:
  assumes "sized d" "length P < codeWordSize d" "dbits (concat (map byte_bits bs)) (P, d) = Inr (P', d')"
  shows "run_decompressor bs (with_in P d) = Inr (with_in P' d')"
  using assms
proof (induction bs arbitrary: P d)
  case (Cons b bs)
  then obtain P1 d1 where 1: "dbits (byte_bits b) (P, d) = Inr (P1, d1)"
    "dbits (concat (map byte_bits bs)) (P1, d1) = Inr (P', d')"
    by (auto simp: dbits_append bindE_def split: sum.splits)
  then show ?case
    using feed_byte [OF Cons.prems(1,2) 1(1)] dbits_inv [OF 1(1) Cons.prems(1,2)] Cons.IH [of d1 P1] by simp
qed simp

lemma run_decompressor_append:
  "run_decompressor (xs @ ys) d = bindE (run_decompressor xs d) (run_decompressor ys)"
  by (induction xs arbitrary: d) (simp_all add: bindE_def split: sum.split)

text \<open>The state of the stream between the two ends: the bits the compressor still holds complete the last
  code, after which the decompressor is \<open>d0\<close>.\<close>

definition linked :: "bool list \<Rightarrow> decompressor \<Rightarrow> decompressor \<Rightarrow> bool" where
  "linked R D d0 \<longleftrightarrow> length R < 8 \<and> (\<exists>P d1. D = with_in P d1 \<and> sized d1 \<and> length P < codeWordSize d1 \<and>
     dbits R (P, d1) = Inr ([], d0))"

lemma linked_sized: "linked R D d0 \<Longrightarrow> sized d0"
  using dbits_inv by (fastforce simp: linked_def)

lemma linked_clean: "sized d0 \<Longrightarrow> linked [] (with_in [] d0) d0"
  unfolding linked_def by (auto simp: sized_def intro!: exI [of _ "[]"])

lemma linked_cleanD:
  assumes "linked [] D d0"
  shows "D = with_in [] d0"
  using assms by (auto simp: linked_def)

lemma push_code_linked:
  assumes "linked R D d0" "2 \<le> k" "k < 2 ^ w" "w = codeWordSize d0" "receive k d0 = Inr d0'"
  shows "\<exists>D'. run_decompressor (octets (R @ code_bits w k)) D = Inr D' \<and>
    linked (odd_bits (R @ code_bits w k)) D' d0'"
proof -
  let ?S = "R @ code_bits w k"
  obtain P d1 where D: "D = with_in P d1" "sized d1" "length P < codeWordSize d1" "dbits R (P, d1) = Inr ([], d0)"
    using assms(1) by (auto simp: linked_def)
  have w: "0 < w" using linked_sized [OF assms(1)] assms(4) by (simp add: sized_def)
  have "dbits (code_bits w k) ([], d0) = Inr ([], d0')"
    using w assms(2-5) by (subst dbits_code) (auto simp: bits_val_code_bits simp flip: length_greater_0_conv)
  then have "dbits ?S (P, d1) = Inr ([], d0')" using D(4) by (simp add: dbits_append)
  then have "dbits (concat (map byte_bits (octets ?S)) @ odd_bits ?S) (P, d1) = Inr ([], d0')"
    by (simp add: octets_odd)
  then obtain P' d' where "dbits (concat (map byte_bits (octets ?S))) (P, d1) = Inr (P', d')"
    and o: "dbits (odd_bits ?S) (P', d') = Inr ([], d0')"
    by (auto simp: dbits_append bindE_def split: sum.splits)
  then have "run_decompressor (octets ?S) D = Inr (with_in P' d')" "sized d' \<and> length P' < codeWordSize d'"
    using feed_bytes [OF D(2,3)] dbits_inv [OF _ D(2,3)] by (auto simp: D(1))
  then show ?thesis using o length_odd_bits unfolding linked_def by blast
qed

text \<open>A code that ends a stretch of compressed data is padded to a byte. The decompressor drops the padding.\<close>

definition padded :: "bool list \<Rightarrow> u8 list" where
  "padded R = octets R @ (if odd_bits R = [] then [] else [bits_val (odd_bits R)])"

lemma padded_bits: "\<exists>z < 8. concat (map byte_bits (padded R)) = R @ replicate z False"
proof (cases "odd_bits R = []")
  case True
  then show ?thesis using octets_odd [of R] by (intro exI [of _ 0]) (simp add: padded_def)
next
  case False
  let ?o = "odd_bits R"
  have "byte_bits (bits_val ?o) = ?o @ replicate (8 - length ?o) False"
    using length_odd_bits [of R] by (intro byte_bits_val) simp
  then have "concat (map byte_bits (padded R)) = R @ replicate (8 - length ?o) False"
    using False octets_odd [of R] by (simp add: padded_def flip: append.assoc)
  moreover have "8 - length ?o < 8" using False by (cases ?o) simp_all
  ultimately show ?thesis by blast
qed

lemma bits_val_False: "bits_val (replicate n False) = (0 :: u32)"
  by (induction n) simp_all

lemma receive_end:
  assumes "k < 2" "z < 8"
  shows "receive k (with_in (replicate z False) d) = Inr (with_in []
    (if k = 0 then d\<lparr>transparent := True, modeTransition := True\<rparr> else d))"
  using assms by (cases d)
    (auto simp: receive_def control_code_def with_in_def Decompressor_flush_def bits_val_False)

lemma end_code_linked:
  assumes "linked R D d0" "k < 2" "w = codeWordSize d0"
  shows "run_decompressor (padded (R @ code_bits w k)) D = Inr (with_in []
    (if k = 0 then d0\<lparr>transparent := True, modeTransition := True\<rparr> else d0))"
proof -
  obtain P d1 where D: "D = with_in P d1" "sized d1" "length P < codeWordSize d1" "dbits R (P, d1) = Inr ([], d0)"
    using assms(1) by (auto simp: linked_def)
  have d0: "sized d0" by (rule linked_sized [OF assms(1)])
  then have w: "9 \<le> w" using assms(3) by (simp add: sized_def)
  let ?bs = "padded (R @ code_bits w k)"
  obtain z where z: "z < 8" "concat (map byte_bits ?bs) = R @ code_bits w k @ replicate z False"
    using padded_bits [of "R @ code_bits w k"] by auto
  have "length (concat (map byte_bits ?bs)) \<noteq> 0" using w by (simp only: z(2)) simp
  then have "?bs \<noteq> []" by auto
  then obtain bs b where bs: "?bs = bs @ [b]" by (metis append_butlast_last_id)
  let ?Q = "concat (map byte_bits bs)"
  have Q: "?Q @ byte_bits b = R @ code_bits w k @ replicate z False" using z(2) by (simp add: bs)
  define m where "m = length ?Q - length R"
  have "length ?Q + 8 = length R + w + z" using arg_cong [OF Q, of length] by simp
  then have m: "length ?Q = length R + m" "m < w" "m + 8 = w + z" using w z(1) by (auto simp: m_def)
  have "take (length ?Q) (?Q @ byte_bits b) = R @ take m (code_bits w k)"
    unfolding Q using m by simp
  then have Qe: "?Q = R @ take m (code_bits w k)" by simp
  have rest: "take m (code_bits w k) @ byte_bits b = code_bits w k @ replicate z False"
    using Q unfolding Qe by simp
  have "dbits (take m (code_bits w k)) ([], d0) = Inr (take m (code_bits w k), d0)"
    using dbits_short [of "[]" "take m (code_bits w k)" d0] m assms(3) by simp
  then have "dbits ?Q (P, d1) = Inr (take m (code_bits w k), d0)"
    unfolding Qe by (simp add: dbits_append D(4))
  then have "run_decompressor bs D = Inr (with_in (take m (code_bits w k)) d0)"
    using feed_bytes [OF D(2,3)] by (simp add: D(1))
  moreover have "Decompressor_write b (with_in (take m (code_bits w k)) d0) =
      receive k (with_in (replicate z False) d0)"
  proof -
    have k: "k < 2 ^ w" using assms(2) w power_increasing [of 1 w "2 :: nat"] by simp
    have "Decompressor_write b (with_in (take m (code_bits w k)) d0) =
      (if length (code_bits w k @ replicate z False) < w then Inr (with_in (code_bits w k @ replicate z False) d0)
       else receive (bits_val (take w (code_bits w k @ replicate z False)))
         (with_in (drop w (code_bits w k @ replicate z False)) d0))"
      by (rule Decompressor_write_bits [OF d0 _ rest [symmetric] assms(3)]) (use m assms(3) in simp)
    then show ?thesis by (simp add: bits_val_code_bits [OF k])
  qed
  ultimately show ?thesis using receive_end [OF assms(2) z(1)] by (simp add: bs run_decompressor_append)
qed

lemma pushCode_end:
  assumes "length R < 8" "codeWordSize c = w" "w \<le> 16" "k < 2 ^ w"
  shows "(put_rest (pushCode k (with_out R c)))\<lparr>outBitPos := 0\<rparr> = with_out [] (send (padded (R @ code_bits w k)) c)"
  using pushCode_with_out [OF assms] put_rest_with_out [OF length_odd_bits]
  by (simp add: padded_def)

end
