(* ===== verification/V42bis_Match.thy ===== *)
theory V42bis_Match
  imports V42bis_Dictionary V42bis_Bits
begin

text \<open>
  The two ends of a connection and the strings they match: how a character changes the state of the string
  matcher, when the ends are level, when the compressor is ahead of the decompressor, and that
  the decompressor enters into its dictionary what the compressor has entered.
\<close>

section \<open>One character\<close>

lemma acceptChar_first:
  assumes "curCode s = -1"
  shows "acceptChar chk b s = Inr (-1, s\<lparr>curCode := int (unat b + 3), matchLen := 1, modeTransition := False\<rparr>)"
  using assms by (simp add: acceptChar_def)

lemma acceptChar_extend:
  assumes "curCode s = int cc" "getChild (dict s) cc b = Some k" "\<not> modeTransition s" "int k \<noteq> lastAddedCode s"
  shows "acceptChar chk b s = Inr (-1, s\<lparr>matchLen := matchLen s + 1, curCode := int k\<rparr>)"
  using assms by (simp add: acceptChar_def Let_def)

definition broken :: "u8 \<Rightarrow> nat \<Rightarrow> 'a v42base_scheme \<Rightarrow> bool" where
  "broken b cc s \<longleftrightarrow> (\<forall>k. getChild (dict s) cc b = Some k \<longrightarrow> modeTransition s \<or> int k = lastAddedCode s)"

definition learning :: "u8 \<Rightarrow> nat \<Rightarrow> 'a v42base_scheme \<Rightarrow> bool" where
  "learning b cc s \<longleftrightarrow> getChild (dict s) cc b = None \<and> matchLen s < maxStringLength s"

definition restart :: "u8 \<Rightarrow> 'a v42base_scheme \<Rightarrow> 'a v42base_scheme" where
  "restart b s = s\<lparr>modeTransition := False, curCode := int (unat b + 3), matchLen := 1\<rparr>"

lemma acceptChar_same:
  assumes "curCode s = int cc" "broken b cc s" "\<not> learning b cc s"
  shows "acceptChar chk b s = Inr (if modeTransition s then -1 else int cc, restart b (s\<lparr>lastAddedCode := -1\<rparr>))"
  using assms by (cases "getChild (dict s) cc b")
    (auto simp: acceptChar_def Let_def restart_def broken_def learning_def)

lemma acceptChar_learn:
  assumes "curCode s = int cc" "learning b cc s" "chk (s\<lparr>matchLen := matchLen s + 1\<rparr>) = Inr t"
    "curCode t = int cc" "modeTransition t = modeTransition s"
    "recover_loop (maxCodeWords t) (addChild (nextCodeWord t) cc b (dict t)) (nextCodeWord t) = Some (k, d)"
  shows "acceptChar chk b s = Inr (if modeTransition s then -1 else int cc,
    restart b (t\<lparr>dict := d, nextCodeWord := k, lastAddedCode := int (nextCodeWord t)\<rparr>))"
proof -
  have *: "getChild (dict s) cc b = None" "matchLen s + 1 \<le> maxStringLength s"
    using assms(2) by (auto simp: learning_def)
  show ?thesis using assms * by (simp add: acceptChar_def Let_def restart_def recoverNode_def)
qed

section \<open>Codes in use\<close>

definition codewords :: "nat \<Rightarrow> bool" where
  "codewords N \<longleftrightarrow> (\<exists>k. 9 \<le> k \<and> k \<le> 16 \<and> N = 2 ^ k)"

definition sizes_ok :: "'a v42base_scheme \<Rightarrow> bool" where
  "sizes_ok s \<longleftrightarrow> codewords (maxCodeWords s) \<and> codeWordThreshold s = 2 ^ codeWordSize s \<and>
     9 \<le> codeWordSize s \<and> codeWordThreshold s \<le> maxCodeWords s \<and>
     dict_ok (maxCodeWords s) (dict s) \<and> spare (maxCodeWords s) (dict s) (nextCodeWord s) \<and>
     (\<forall>c < maxCodeWords s. \<not> isFree (dict s ! c) \<longrightarrow> c < codeWordThreshold s)"

definition at_string :: "'a v42base_scheme \<Rightarrow> nat \<Rightarrow> u8 list \<Rightarrow> bool" where
  "at_string s cc str \<longleftrightarrow> curCode s = int cc \<and> cc < maxCodeWords s \<and> spells (dict s) cc str \<and>
     matchLen s = int (length str)"

lemma sizes_ok_size:
  assumes "sizes_ok s"
  shows "codeWordSize s \<le> 16" "maxCodeWords s \<le> 65536" "512 \<le> maxCodeWords s"
proof -
  obtain k where k: "9 \<le> k" "k \<le> 16" "maxCodeWords s = 2 ^ k" using assms by (auto simp: sizes_ok_def codewords_def)
  then have "(2::nat) ^ codeWordSize s \<le> 2 ^ k" using assms by (auto simp: sizes_ok_def)
  then show "codeWordSize s \<le> 16" using k(2) by (subst (asm) power_increasing_iff) simp_all
  show "maxCodeWords s \<le> 65536" "512 \<le> maxCodeWords s"
    using k power_increasing [of k 16 "2 :: nat"] power_increasing [of 9 k "2 :: nat"] by auto
qed

lemma sizes_ok_cong:
  "sizes_ok a \<Longrightarrow> maxCodeWords b = maxCodeWords a \<Longrightarrow> codeWordSize b = codeWordSize a \<Longrightarrow>
   codeWordThreshold b = codeWordThreshold a \<Longrightarrow> dict b = dict a \<Longrightarrow> nextCodeWord b = nextCodeWord a \<Longrightarrow> sizes_ok b"
  by (auto simp: sizes_ok_def)

lemma spelled_used:
  assumes "spells d c s"
  shows "\<not> isFree (d ! c)"
  using spells_Null [OF assms] by (simp add: isFree_def)

lemma root_at_string:
  assumes "dict_ok N d" "maxCodeWords s = N" "dict s = d" "curCode s = int (unat b + 3)" "matchLen s = 1"
  shows "at_string s (unat b + 3) [b]"
proof -
  have "unat b + 3 < N" using unsigned_less [of b, where 'a=nat] dict_okD(2) [OF assms(1)] by simp
  then show ?thesis using assms spells_root [OF assms(1), of b] by (simp add: at_string_def)
qed

text \<open>Entering the string of a code and a character: what the two ends do at the end of a match.\<close>

lemma learn_ok:
  assumes "dict_ok N d" "spare N d nx" "cc < N" "spells d cc str" "getChild d cc b = None"
  shows "\<exists>k d'. recover_loop N (addChild nx cc b d) nx = Some (k, d') \<and> dict_ok N d' \<and> spare N d' k \<and>
     (\<forall>c s. c < N \<longrightarrow> spells d' c s \<longrightarrow> c \<noteq> nx \<longrightarrow> spells d c s) \<and>
     (\<forall>c < N. \<not> isFree (d' ! c) \<longrightarrow> c = nx \<or> \<not> isFree (d ! c))"
proof -
  note a = addChild_ok [OF assms(1-3) spelled_used [OF assms(4)] assms(5)]
  from a(4) have nx: "259 \<le> nx" "nx < N" by auto
  from recover_loop_ends [OF a(1) nx a(3) nx] obtain k d' where
    r: "recover_loop N (addChild nx cc b d) nx = Some (k, d')" "recovered N (addChild nx cc b d) k d'" by blast
  have ok: "dict_ok N d'" "spare N d' k" using r(2) by (auto simp: recovered_def)
  have sp: "spells d c s" if "c < N" "spells d' c s" "c \<noteq> nx" for c s
  proof -
    have "c \<noteq> k" using spelled_used [OF that(2)] ok(2) by (auto simp: spare_def)
    then show ?thesis using r(2) that(1,2) a(2) [OF that(1) that(3)] by (auto simp: recovered_def)
  qed
  moreover have "\<not> isFree (d ! c)" if c: "c < N" "\<not> isFree (d' ! c)" "c \<noteq> nx" for c
  proof -
    obtain s where "spells d' c s" using dict_okD(8) [OF ok(1) c(1)] c(2) by (auto simp: isFree_def)
    from spelled_used [OF sp [OF c(1) this c(3)]] show ?thesis .
  qed
  ultimately show ?thesis using r(1) ok by blast
qed

section \<open>Ends in step\<close>

definition same_params :: "compressor \<Rightarrow> decompressor \<Rightarrow> bool" where
  "same_params c d \<longleftrightarrow> maxCodeWords c = maxCodeWords d \<and> maxStringLength c = maxStringLength d \<and>
     codeWordSize c = codeWordSize d \<and> codeWordThreshold c = codeWordThreshold d \<and> \<not> escaped d"

text \<open>Both ends have seen the same characters.\<close>

definition level :: "compressor \<Rightarrow> decompressor \<Rightarrow> bool" where
  "level c d \<longleftrightarrow> nextCodeWord c = nextCodeWord d \<and> dict c = dict d \<and> curCode c = curCode d \<and>
     matchLen c = matchLen d \<and>
     (curCode d = -1 \<and> lastAddedCode d = -1 \<and> lastAddedCode c = -1 \<or>
      (\<exists>cc str. at_string d cc str \<and> lastAddedCode d \<noteq> int cc))"

text \<open>The entry the decompressor makes when the next string starts with \<open>b\<close>.\<close>

definition learns :: "u8 \<Rightarrow> decompressor \<Rightarrow> bool" where
  "learns b d \<longleftrightarrow> matchLen d < maxStringLength d \<and> lastAddedCode d \<noteq> curCode d \<and>
     getChild (dict d) (nat (curCode d)) b = None"

definition learn :: "u8 \<Rightarrow> decompressor \<Rightarrow> (nat \<times> Node list) option" where
  "learn b d = (if learns b d
     then recover_loop (maxCodeWords d) (addChild (nextCodeWord d) (nat (curCode d)) b (dict d)) (nextCodeWord d)
     else Some (nextCodeWord d, dict d))"

text \<open>The compressor has matched \<open>s\<close> since.\<close>

definition ahead :: "compressor \<Rightarrow> decompressor \<Rightarrow> u8 list \<Rightarrow> bool" where
  "ahead c d s \<longleftrightarrow> (\<exists>cc. at_string c cc s \<and> lastAddedCode c \<noteq> int cc) \<and> \<not> modeTransition c \<and>
     learn (hd s) d = Some (nextCodeWord c, dict c) \<and>
     (\<forall>k str. k < maxCodeWords c \<longrightarrow> int k \<noteq> lastAddedCode c \<longrightarrow> spells (dict c) k str \<longrightarrow> spells (dict d) k str)"

text \<open>In transparent mode the ends are equal. In compressed mode the decompressor is \<open>d\<close> once the bits
  that are on their way complete a code.\<close>

definition in_touch :: "compressor \<Rightarrow> decompressor \<Rightarrow> bool" where
  "in_touch c d \<longleftrightarrow> same_params c d \<and> sizes_ok c \<and> sizes_ok d"

definition equal_ends :: "u8 list \<Rightarrow> compressor \<Rightarrow> decompressor \<Rightarrow> bool" where
  "equal_ends w c D \<longleftrightarrow> transparent c \<and> transparent D \<and> c = with_out [] c \<and> D = with_in [] D \<and> in_touch c D \<and>
     w = v42_buffer D \<and> escapeCode c = escapeCode D \<and> level c D \<and> modeTransition D = modeTransition c \<and>
     (lastAddedCode c = lastAddedCode D \<or> modeTransition c)"

definition follows :: "u8 list \<Rightarrow> bool list \<Rightarrow> compressor \<Rightarrow> decompressor \<Rightarrow> decompressor \<Rightarrow> u8 list \<Rightarrow> bool" where
  "follows w R c D d s \<longleftrightarrow> \<not> transparent c \<and> c = with_out R c \<and> linked R D d \<and> in_touch c d \<and>
     w = v42_buffer d @ s \<and> escapeCode c = escape_after s (escapeCode d) \<and>
     (s = [] \<and> level c d \<and> (modeTransition c \<or> curCode c = -1) \<or> ahead c d s)"

definition in_step :: "u8 list \<Rightarrow> compressor \<Rightarrow> decompressor \<Rightarrow> bool" where
  "in_step w c D \<longleftrightarrow> equal_ends w c D \<or> (\<exists>R d s. follows w R c D d s)"

section \<open>Codes and their reception\<close>

definition resize :: "nat \<Rightarrow> 'a v42base_scheme \<Rightarrow> 'a v42base_scheme" where
  "resize w s = s\<lparr>codeWordSize := w, codeWordThreshold := 2 ^ w\<rparr>"

lemma resize_fields [simp]:
  "maxCodeWords (resize w s) = maxCodeWords s" "maxStringLength (resize w s) = maxStringLength s"
  "nextCodeWord (resize w s) = nextCodeWord s" "codeWordSize (resize w s) = w"
  "codeWordThreshold (resize w s) = 2 ^ w" "dict (resize w s) = dict s"
  "lastAddedCode (resize w s) = lastAddedCode s" "matchLen (resize w s) = matchLen s"
  "curCode (resize w s) = curCode s" "transparent (resize w s) = transparent s"
  "modeTransition (resize w s) = modeTransition s" "escapeCode (resize w s) = escapeCode s"
  "v42_buffer (resize w s) = v42_buffer s"
  by (simp_all add: resize_def)

lemma resize_with_out: "resize w (with_out R c) = with_out R (resize w c)"
  "resize w (send bs c) = send bs (resize w c)" "resize w (resize w' s) = resize w s"
  for c :: compressor
  by (simp_all add: resize_def with_out_def send_def)

lemma sized_sizes: "sizes_ok d \<Longrightarrow> \<not> transparent d \<Longrightarrow> sized d"
  by (frule sizes_ok_size(1), frule sizes_ok_size(2)) (simp add: sized_def sizes_ok_def)

text \<open>A step-up code.\<close>

lemma receive_stepup:
  assumes "codeWordThreshold d = 2 ^ codeWordSize d" "2 * codeWordThreshold d \<le> maxCodeWords d"
  shows "receive 2 d = Inr (resize (codeWordSize d + 1) d)"
  using assms by (simp add: receive_def control_code_def resize_def mult.commute)

lemma next_size:
  assumes "codewords N" "t = 2 ^ w" "t < N"
  shows "2 * t \<le> N"
proof -
  obtain k where k: "N = 2 ^ k" using assms(1) by (auto simp: codewords_def)
  have "w < k" using assms(2,3) unfolding k by simp
  then show ?thesis using power_increasing [of "w + 1" k "2 :: nat"] by (simp add: k assms(2))
qed

lemma step_up_linked:
  assumes "codewords (maxCodeWords c)" "codeWordThreshold c = 2 ^ codeWordSize c" "codeWordThreshold c \<le> maxCodeWords c"
    and "9 \<le> codeWordSize c" "nextCodeWord c < maxCodeWords c" "same_params c d" "linked R D d"
  shows "\<exists>w bs R' D'. step_up (with_out R c) = Some (with_out R' (send bs (resize w c))) \<and>
    run_decompressor bs D = Inr D' \<and> linked R' D' (resize w d) \<and> codeWordSize c \<le> w \<and>
    nextCodeWord c < 2 ^ w \<and> 2 ^ w \<le> maxCodeWords c"
  using assms
proof (induction "maxCodeWords c - codeWordThreshold c" arbitrary: c d R D rule: less_induct)
  case less
  note ok = less.prems
  show ?case
  proof (cases "codeWordThreshold c \<le> nextCodeWord c")
    case False
    then have "step_up (with_out R c) = Some (with_out R c)"
      by (simp add: step_up.simps [of "with_out R c"])
    moreover have "resize (codeWordSize c) c = c" "resize (codeWordSize c) d = d"
      using ok(2,6) by (auto simp: resize_def same_params_def)
    moreover have "nextCodeWord c < 2 ^ codeWordSize c" "2 ^ codeWordSize c \<le> maxCodeWords c"
      using False ok(2,3) by auto
    ultimately show ?thesis using ok(7)
      by (intro exI [of _ "codeWordSize c"] exI [of _ "[]"] exI [of _ R] exI [of _ D]) simp
  next
    case True
    let ?w = "codeWordSize c" let ?S = "R @ code_bits ?w 2"
    let ?c = "send (octets ?S) (resize (?w + 1) c)"
    have sz: "sized d" by (rule linked_sized [OF ok(7)])
    have p: "codeWordSize d = ?w" "codeWordThreshold d = codeWordThreshold c" "maxCodeWords d = maxCodeWords c"
      using ok(6) by (auto simp: same_params_def)
    have dbl: "2 * codeWordThreshold c \<le> maxCodeWords c" by (rule next_size [OF ok(1,2)]) (use True ok(5) in simp)
    have rc: "receive 2 d = Inr (resize (?w + 1) d)"
      using receive_stepup [of d] ok(2) dbl p by simp
    have w: "?w \<le> 16" "2 < (2::nat) ^ ?w" "length R < 8"
      using sz ok(4,7) power_increasing [of 9 ?w "2 :: nat"] by (auto simp: sized_def linked_def p)
    obtain D' where D': "run_decompressor (octets ?S) D = Inr D'" "linked (odd_bits ?S) D' (resize (?w + 1) d)"
      using push_code_linked [OF ok(7) _ w(2) p(1) [symmetric] rc] by auto
    have "step_up (with_out R c) = step_up (with_out (odd_bits ?S) ?c)"
    proof -
      have "(pushCode 2 (with_out R c))\<lparr>codeWordSize := ?w + 1, codeWordThreshold := codeWordThreshold c * 2\<rparr> =
          with_out (odd_bits ?S) ?c"
        using pushCode_with_out [OF w(3) refl w(1,2)] ok(2) by (simp add: resize_def with_out_def send_def)
      then show ?thesis using True ok(3) by (simp add: step_up.simps [of "with_out R c"])
    qed
    moreover have "\<exists>w bs R' D''. step_up (with_out (odd_bits ?S) ?c) = Some (with_out R' (send bs (resize w ?c))) \<and>
      run_decompressor bs D' = Inr D'' \<and> linked R' D'' (resize w (resize (?w + 1) d)) \<and> codeWordSize ?c \<le> w \<and>
      nextCodeWord ?c < 2 ^ w \<and> 2 ^ w \<le> maxCodeWords ?c"
    proof (rule less.hyps [OF _ _ _ _ _ _ _ D'(2)])
      show "maxCodeWords ?c - codeWordThreshold ?c < maxCodeWords c - codeWordThreshold c"
        using True ok(2,5) zero_less_power [of "2 :: nat" ?w] by (auto intro!: diff_less_mono2)
      show "same_params ?c (resize (?w + 1) d)" using ok(6) by (simp add: same_params_def) (simp add: resize_def)
    qed (use ok dbl in auto)
    then obtain w bs R' D'' where "step_up (with_out (odd_bits ?S) ?c) = Some (with_out R' (send bs (resize w ?c)))"
      "run_decompressor bs D' = Inr D''" "linked R' D'' (resize w (resize (?w + 1) d))" "codeWordSize ?c \<le> w"
      "nextCodeWord ?c < 2 ^ w" "2 ^ w \<le> maxCodeWords ?c" by (elim exE conjE)
    ultimately show ?thesis using D'(1)
      by (intro exI [of _ w] exI [of _ "octets ?S @ bs"] exI [of _ R'] exI [of _ D''])
        (simp add: run_decompressor_append resize_with_out)
  qed
qed

text \<open>A code of a string.\<close>

lemma receive_string:
  assumes "sizes_ok d" "spells (dict d) k s" "k < maxCodeWords d" "learn (hd s) d = Some (nx, d')"
  shows "receive k d = Inr ((send s d)\<lparr>modeTransition := False, escapeCode := escape_after s (escapeCode d),
    nextCodeWord := nx, dict := d', lastAddedCode := (if learns (hd s) d then int nx else -1), curCode := int k,
    matchLen := int (length s)\<rparr>)"
proof -
  have "3 \<le> k" using spells_bound [OF _ assms(2,3)] assms(1) by (simp add: sizes_ok_def)
  moreover have "walk_up (dict d) k [] = Some s" using walk_up_spells [OF assms(2), of "[]"] by simp
  moreover have "fold put_decoded s (d\<lparr>modeTransition := False\<rparr>) =
      (send s d)\<lparr>modeTransition := False, escapeCode := escape_after s (escapeCode d)\<rparr>"
    by (simp add: fold_put_decoded) (simp add: send_def)
  ultimately show ?thesis
    using assms(3,4) spelled_used [OF assms(2)]
    by (auto simp: receive_def string_code_def learn_def learns_def Let_def recoverNode_def)
qed

text \<open>The decompressor catches up when the code of the match comes in.\<close>

lemma catch_up:
  assumes "in_touch c d" "ahead c d s" "curCode c = int cc"
  shows "\<exists>d'. receive cc d = Inr d' \<and> level c d' \<and> in_touch c d' \<and> v42_buffer d' = v42_buffer d @ s \<and>
    escapeCode d' = escape_after s (escapeCode d) \<and> at_string d' cc s \<and> 3 \<le> cc \<and> cc < codeWordThreshold c"
proof -
  have cc: "at_string c cc s" "lastAddedCode c \<noteq> int cc"
    using assms(2,3) by (auto simp: ahead_def at_string_def)
  have sz: "sizes_ok c" "sizes_ok d" "same_params c d" using assms(1) by (auto simp: in_touch_def)
  have N: "cc < maxCodeWords c" "spells (dict c) cc s" using cc(1) by (auto simp: at_string_def)
  have sp: "spells (dict d) cc s" using assms(2) N cc(2) by (auto simp: ahead_def)
  have max: "maxCodeWords d = maxCodeWords c" using sz(3) by (simp add: same_params_def)
  have dc: "dict_ok (maxCodeWords c) (dict c)" "spare (maxCodeWords c) (dict c) (nextCodeWord c)"
    using sz(1) by (auto simp: sizes_ok_def)
  let ?d = "(send s d)\<lparr>modeTransition := False, escapeCode := escape_after s (escapeCode d),
    nextCodeWord := nextCodeWord c, dict := dict c,
    lastAddedCode := (if learns (hd s) d then int (nextCodeWord c) else -1), curCode := int cc,
    matchLen := int (length s)\<rparr>"
  have "learn (hd s) d = Some (nextCodeWord c, dict c)" using assms(2) by (simp add: ahead_def)
  then have "receive cc d = Inr ?d" using receive_string [OF sz(2) sp] N(1) max by simp
  moreover have "cc \<noteq> nextCodeWord c" using spelled_used [OF N(2)] dc(2) by (auto simp: spare_def)
  then have "level c ?d" using cc(1) N max by (auto simp: level_def at_string_def)
  moreover have "sizes_ok ?d" by (rule sizes_ok_cong [OF sz(1)]) (use sz(3) in \<open>simp_all add: same_params_def\<close>)
  then have "in_touch c ?d" using sz by (simp add: in_touch_def same_params_def) (simp add: send_def)
  moreover have "at_string ?d cc s" using N max by (simp add: at_string_def)
  moreover have "3 \<le> cc" by (rule spells_bound [OF dc(1) N(2,1)])
  moreover have "cc < codeWordThreshold c" using sz(1) spelled_used [OF N(2)] N(1) by (auto simp: sizes_ok_def)
  ultimately show ?thesis by (intro exI [of _ ?d]) simp
qed

lemma push_string:
  assumes "c = with_out R c" "linked R D d" "codeWordSize c = codeWordSize d" "2 \<le> k" "k < 2 ^ codeWordSize c"
    and "receive k d = Inr d'"
  shows "\<exists>R' bs D'. pushCode k c = with_out R' (send bs c) \<and> run_decompressor bs D = Inr D' \<and> linked R' D' d'"
proof -
  have R: "length R < 8" "codeWordSize c \<le> 16"
    using assms(2,3) linked_sized [OF assms(2)] by (auto simp: linked_def sized_def)
  have "pushCode k c = with_out (odd_bits (R @ code_bits (codeWordSize c) k)) (send (octets (R @ code_bits (codeWordSize c) k)) c)"
    using pushCode_with_out [OF R(1) refl R(2) assms(5)] assms(1) by simp
  then show ?thesis using push_code_linked [OF assms(2,4,5,3,6)] by blast
qed

text \<open>The end of a match: what the compressor enters is what the decompressor will enter.\<close>

definition after_match :: "u8 \<Rightarrow> nat \<Rightarrow> 'a v42base_scheme \<Rightarrow> nat \<Rightarrow> Node list \<Rightarrow> 'a v42base_scheme" where
  "after_match b cc s k d = restart b (if learning b cc s
     then s\<lparr>dict := d, nextCodeWord := k, lastAddedCode := int (nextCodeWord s)\<rparr> else s\<lparr>lastAddedCode := -1\<rparr>)"

lemma learns_level:
  assumes "level c d" "in_touch c d" "curCode c = int cc"
  shows "learns b d \<longleftrightarrow> learning b cc c"
  using assms by (auto simp: learns_def learning_def level_def at_string_def in_touch_def same_params_def)

lemma after_match_sizes:
  assumes "sizes_ok c" "at_string c cc str" "learning b cc c \<longrightarrow> nextCodeWord c < codeWordThreshold c"
  shows "\<exists>k D. (learning b cc c \<longrightarrow> recover_loop (maxCodeWords c) (addChild (nextCodeWord c) cc b (dict c)) (nextCodeWord c) = Some (k, D)) \<and>
    sizes_ok (after_match b cc c k D) \<and> at_string (after_match b cc c k D) (unat b + 3) [b] \<and>
    lastAddedCode (after_match b cc c k D) \<noteq> int (unat b + 3) \<and>
    (\<forall>k' str. k' < maxCodeWords c \<longrightarrow> int k' \<noteq> lastAddedCode (after_match b cc c k D) \<longrightarrow>
      spells (dict (after_match b cc c k D)) k' str \<longrightarrow> spells (dict c) k' str)"
proof (cases "learning b cc c")
  case False
  let ?c = "restart b (c\<lparr>lastAddedCode := -1\<rparr>)"
  have c: "after_match b cc c k D = ?c" for k D using False by (simp add: after_match_def)
  have "sizes_ok ?c" using assms(1) by (auto simp: restart_def sizes_ok_def)
  moreover have "at_string ?c (unat b + 3) [b]"
    using root_at_string [of "maxCodeWords c" "dict c" ?c b] assms(1) by (simp add: restart_def sizes_ok_def)
  moreover have "lastAddedCode ?c < int (unat b + 3)" "dict ?c = dict c"
    by (simp_all add: restart_def add_pos_nonneg)
  ultimately show ?thesis using False unfolding c by (metis order.strict_implies_not_eq)
next
  case True
  let ?N = "maxCodeWords c" and ?nx = "nextCodeWord c"
  have d: "dict_ok ?N (dict c)" "spare ?N (dict c) ?nx" using assms(1) by (auto simp: sizes_ok_def)
  have cc: "cc < ?N" "spells (dict c) cc str" using assms(2) by (auto simp: at_string_def)
  have "getChild (dict c) cc b = None" using True by (simp add: learning_def)
  from learn_ok [OF d cc this] obtain k D where r:
    "recover_loop ?N (addChild ?nx cc b (dict c)) ?nx = Some (k, D)" "dict_ok ?N D" "spare ?N D k"
    "\<And>c' s. c' < ?N \<Longrightarrow> spells D c' s \<Longrightarrow> c' \<noteq> ?nx \<Longrightarrow> spells (dict c) c' s"
    "\<And>c'. c' < ?N \<Longrightarrow> \<not> isFree (D ! c') \<Longrightarrow> c' = ?nx \<or> \<not> isFree (dict c ! c')" by blast
  let ?c = "after_match b cc c k D"
  have c: "?c = restart b (c\<lparr>dict := D, nextCodeWord := k, lastAddedCode := int ?nx\<rparr>)"
    using True by (simp add: after_match_def)
  have "c' < codeWordThreshold c" if "c' < ?N" "\<not> isFree (D ! c')" for c'
    using r(5) [OF that] that(1) assms(1,3) True by (auto simp: sizes_ok_def)
  then have "sizes_ok ?c" using assms(1) r(2,3) by (auto simp: c restart_def sizes_ok_def)
  moreover have "at_string ?c (unat b + 3) [b]"
    using root_at_string [of ?N D ?c b] r(2) by (simp add: c restart_def)
  moreover have "dict ?c = D" and la: "lastAddedCode ?c = int ?nx" by (simp_all add: c restart_def)
  moreover have "?nx \<noteq> unat b + 3" using d(2) unsigned_less [of b, where 'a=nat] by (simp add: spare_def)
  then have "lastAddedCode ?c \<noteq> int (unat b + 3)" unfolding la of_nat_eq_iff .
  ultimately show ?thesis using r(1,4) by (intro exI [of _ k] exI [of _ D]) simp
qed

lemma after_match_ahead:
  assumes "level c d" "in_touch c d" "curCode c = int cc"
    and "learning b cc c \<longrightarrow> nextCodeWord c < codeWordThreshold c"
  shows "\<exists>k D. (learning b cc c \<longrightarrow> recover_loop (maxCodeWords c) (addChild (nextCodeWord c) cc b (dict c)) (nextCodeWord c) = Some (k, D)) \<and>
    in_touch (after_match b cc c k D) d \<and> ahead (after_match b cc c k D) d [b]"
proof -
  have sz: "sizes_ok c" "sizes_ok d" "same_params c d" using assms(2) by (auto simp: in_touch_def)
  have l: "nextCodeWord c = nextCodeWord d" "dict c = dict d" "curCode c = curCode d" "matchLen c = matchLen d"
    using assms(1) by (auto simp: level_def)
  have max: "maxCodeWords c = maxCodeWords d" using sz(3) by (simp add: same_params_def)
  have n: "nat (curCode d) = cc" using l(3) assms(3) by simp
  obtain str where "at_string d cc str" using assms(1,3) by (auto simp: level_def at_string_def)
  then have "at_string c cc str" using l max by (simp add: at_string_def)
  from after_match_sizes [OF sz(1) this assms(4)] obtain k D where r:
    "learning b cc c \<longrightarrow> recover_loop (maxCodeWords c) (addChild (nextCodeWord c) cc b (dict c)) (nextCodeWord c) = Some (k, D)"
    "sizes_ok (after_match b cc c k D)" "at_string (after_match b cc c k D) (unat b + 3) [b]"
    "lastAddedCode (after_match b cc c k D) \<noteq> int (unat b + 3)"
    "\<forall>k' str. k' < maxCodeWords c \<longrightarrow> int k' \<noteq> lastAddedCode (after_match b cc c k D) \<longrightarrow>
      spells (dict (after_match b cc c k D)) k' str \<longrightarrow> spells (dict c) k' str" by blast
  let ?c = "after_match b cc c k D"
  have "learn b d = Some (nextCodeWord ?c, dict ?c)"
    using r(1) l(1,2) max n learns_level [OF assms(1-3), of b]
    by (auto simp: learn_def after_match_def restart_def)
  moreover have "same_params ?c d" "maxCodeWords ?c = maxCodeWords c" "\<not> modeTransition ?c"
    using sz(3) by (simp_all add: same_params_def after_match_def restart_def)
  ultimately have "ahead ?c d [b]" using r(3,4,5) l(2) by (auto simp: ahead_def)
  moreover have "in_touch ?c d" using r(2) sz(2) \<open>same_params ?c d\<close> by (simp add: in_touch_def)
  ultimately show ?thesis using r(1) by blast
qed

end
