(* ===== verification/V42bis_Step.thy ===== *)
theory V42bis_Step
  imports V42bis_Match
begin

text \<open>
  The two ends of a connection stay in step. In transparent mode they run the same string matcher on the
  same bytes; in compressed mode the decompressor is behind by the string that the compressor is
  matching, and by the dictionary entry that the first character of this string makes.
\<close>

section \<open>Steps in compressed mode\<close>

lemma put_char_compressed:
  "\<not> transparent c \<Longrightarrow> put_char b c = c\<lparr>escapeCode := escape_after [b] (escapeCode c)\<rparr>"
  by (simp add: put_char_def escape_after_def)

lemma level_resize: "level (resize w c) (resize w' d) = level c d"
  by (simp add: level_def at_string_def)

lemma ahead_resize: "ahead (resize w c) (resize w' d) s = ahead c d s"
  by (simp add: ahead_def at_string_def learn_def learns_def)

text \<open>What the relations do not look at.\<close>

lemma relations_frame [simp]:
  "level (with_out R c) d = level c d" "level (send bs c) d = level c d"
  "ahead (with_out R c) d s = ahead c d s" "ahead (send bs c) d s = ahead c d s"
  "same_params (with_out R c) d = same_params c d" "same_params (send bs c) d = same_params c d"
  "in_touch (with_out R c) d = in_touch c d" "in_touch (send bs c) d = in_touch c d"
  "level (c\<lparr>escapeCode := e\<rparr>) d = level c d" "ahead (c\<lparr>escapeCode := e\<rparr>) d s = ahead c d s"
  "in_touch (c\<lparr>escapeCode := e\<rparr>) d = in_touch c d"
  by (simp_all add: level_def ahead_def same_params_def in_touch_def at_string_def sizes_ok_def)

lemma sizes_ok_resize:
  assumes "sizes_ok s" "codeWordSize s \<le> w" "2 ^ w \<le> maxCodeWords s"
  shows "sizes_ok (resize w s)"
proof -
  have "2 ^ codeWordSize s \<le> (2::nat) ^ w" using assms(2) by (rule power_increasing) simp
  then show ?thesis using assms by (auto simp: sizes_ok_def intro: order.strict_trans2)
qed

lemma in_touch_resize:
  assumes "in_touch c d" "codeWordSize c \<le> w" "2 ^ w \<le> maxCodeWords c"
  shows "in_touch (resize w c) (resize w d)"
  using assms sizes_ok_resize [of c w] sizes_ok_resize [of d w]
  by (simp add: in_touch_def same_params_def) (simp add: resize_def)

lemma with_out_self: "c = with_out R c \<longleftrightarrow> outBitBuf c = bits_val R \<and> outBitPos c = int (length R)"
proof
  assume "c = with_out R c"
  then have "outBitBuf c = outBitBuf (with_out R c)" "outBitPos c = outBitPos (with_out R c)" by simp_all
  then show "outBitBuf c = bits_val R \<and> outBitPos c = int (length R)" by (simp add: with_out_def)
qed (simp add: with_out_def)

lemma with_in_self: "d = with_in R d \<longleftrightarrow> inputBitBuffer d = bits_val R \<and> inputBitCount d = int (length R)"
proof
  assume "d = with_in R d"
  then have "inputBitBuffer d = inputBitBuffer (with_in R d)" "inputBitCount d = inputBitCount (with_in R d)" by simp_all
  then show "inputBitBuffer d = bits_val R \<and> inputBitCount d = int (length R)" by (simp add: with_in_def)
qed (simp add: with_in_def)

text \<open>The end of a match in compressed mode, with the step-up codes that come before the new entry.\<close>

lemma accept_restart:
  assumes c: "c = with_out R c" "\<not> transparent c" "linked R D d" "in_touch c d"
    and cc: "curCode c = int cc" "broken b cc c"
  shows "\<exists>R2 bs D2 v. run_decompressor bs D = Inr D2 \<and> linked R2 D2 (resize v d) \<and> codeWordSize c \<le> v \<and>
    2 ^ v \<le> maxCodeWords c \<and> (learning b cc c \<longrightarrow> nextCodeWord c < 2 ^ v) \<and>
    (\<forall>k Dd. (learning b cc c \<longrightarrow> recover_loop (maxCodeWords c) (addChild (nextCodeWord c) cc b (dict c)) (nextCodeWord c) = Some (k, Dd)) \<longrightarrow>
      acceptChar checkDictSize b c = Inr (if modeTransition c then -1 else int cc,
        with_out R2 (send bs (after_match b cc (resize v c) k Dd))))"
proof -
  have sz: "sizes_ok c" "same_params c d" using c(4) by (auto simp: in_touch_def)
  show ?thesis
  proof (cases "learning b cc c")
    case False
    let ?v = "codeWordSize c"
    have "resize ?v c = c" "resize ?v d = d" using sz by (auto simp: resize_def same_params_def sizes_ok_def)
    moreover have "with_out R (restart b (c\<lparr>lastAddedCode := -1\<rparr>)) = restart b (c\<lparr>lastAddedCode := -1\<rparr>)"
      using c(1) by (simp add: with_out_self restart_def) (simp add: with_out_def)
    moreover have "2 ^ ?v \<le> maxCodeWords c" using sz(1) by (auto simp: sizes_ok_def)
    ultimately show ?thesis using False acceptChar_same [OF cc False, of checkDictSize] c(3)
      by (intro exI [of _ R] exI [of _ "[]"] exI [of _ D] exI [of _ ?v]) (simp add: after_match_def)
  next
    case True
    let ?c = "c\<lparr>matchLen := matchLen c + 1\<rparr>"
    have "?c = with_out R ?c" using c(1) by (simp add: with_out_self)
    moreover have "same_params ?c d" using sz(2) by (simp add: same_params_def)
    then obtain w bs R' D' where r: "step_up (with_out R ?c) = Some (with_out R' (send bs (resize w ?c)))"
      "run_decompressor bs D = Inr D'" "linked R' D' (resize w d)" "codeWordSize ?c \<le> w"
      "nextCodeWord ?c < 2 ^ w" "2 ^ w \<le> maxCodeWords ?c"
      using step_up_linked [of ?c d R D] sz(1) c(3) by (auto simp: sizes_ok_def spare_def)
    ultimately have chk: "checkDictSize ?c = Inr (with_out R' (send bs (resize w ?c)))"
      using c(2) by (simp add: checkDictSize_def)
    have "acceptChar checkDictSize b c = Inr (if modeTransition c then -1 else int cc,
        with_out R' (send bs (after_match b cc (resize w c) k Dd)))"
      if k: "recover_loop (maxCodeWords c) (addChild (nextCodeWord c) cc b (dict c)) (nextCodeWord c) = Some (k, Dd)" for k Dd
    proof -
      have "learning b cc (resize w c)" using True by (simp add: learning_def)
      then show ?thesis
        using acceptChar_learn [where chk=checkDictSize, OF cc(1) True chk, of k Dd] cc(1) k
        by (simp add: after_match_def) (simp add: restart_def with_out_def send_def resize_def)
    qed
    then show ?thesis using r True by (intro exI [of _ R'] exI [of _ bs] exI [of _ D'] exI [of _ w]) simp
  qed
qed

lemma after_match_fields [simp]:
  "transparent (after_match b cc s k D) = transparent s" "escapeCode (after_match b cc s k D) = escapeCode s"
  "v42_buffer (after_match b cc s k D) = v42_buffer s" "codeWordSize (after_match b cc s k D) = codeWordSize s"
  "codeWordThreshold (after_match b cc s k D) = codeWordThreshold s" "maxCodeWords (after_match b cc s k D) = maxCodeWords s"
  "maxStringLength (after_match b cc s k D) = maxStringLength s"
  by (simp_all add: after_match_def restart_def)

lemma followsD:
  assumes "follows w R c D d s"
  shows "\<not> transparent c" "c = with_out R c" "linked R D d" "in_touch c d" "w = v42_buffer d @ s"
    "escapeCode c = escape_after s (escapeCode d)"
    "s = [] \<and> level c d \<and> (modeTransition c \<or> curCode c = -1) \<or> ahead c d s"
  using assms unfolding follows_def by blast+

lemma in_touch_cong:
  assumes "in_touch a d" "maxCodeWords b = maxCodeWords a" "maxStringLength b = maxStringLength a"
    "codeWordSize b = codeWordSize a" "codeWordThreshold b = codeWordThreshold a" "dict b = dict a"
    "nextCodeWord b = nextCodeWord a"
  shows "in_touch b d"
  using assms sizes_ok_cong [of a b] by (simp add: in_touch_def same_params_def)

lemma in_touch_cong2:
  assumes "in_touch c a" "maxCodeWords b = maxCodeWords a" "maxStringLength b = maxStringLength a"
    "codeWordSize b = codeWordSize a" "codeWordThreshold b = codeWordThreshold a" "dict b = dict a"
    "nextCodeWord b = nextCodeWord a" "escaped b = escaped a"
  shows "in_touch c b"
  using assms sizes_ok_cong [of a b] by (simp add: in_touch_def same_params_def)

lemma ahead_at: "ahead c d s \<Longrightarrow> \<exists>cc. curCode c = int cc"
  by (auto simp: ahead_def at_string_def)

lemma level_at: "level c d \<Longrightarrow> curCode c = -1 \<or> (\<exists>cc. curCode c = int cc)"
  by (auto simp: level_def at_string_def)

text \<open>A character that ends a match: the code of the match goes out unless a mode transition has sent it.\<close>

lemma write_restart:
  assumes f: "follows w R c D d s" and b: "c' = put_char b c"
    and cc: "curCode c = int cc" "broken b cc c" "modeTransition c \<or> ahead c d s"
  shows "\<exists>code c2 R3 bs D3 d3. acceptChar checkDictSize b c' = Inr (code, c2) \<and>
    run_decompressor bs D = Inr D3 \<and> v42_buffer (if code = -1 then c2 else pushCode (nat code) c2) = v42_buffer c @ bs \<and>
    follows (w @ [b]) R3 (if code = -1 then c2 else pushCode (nat code) c2) D3 d3 [b]"
proof -
  have F: "\<not> transparent c" "c = with_out R c" "linked R D d" "in_touch c d" "w = v42_buffer d @ s"
    "escapeCode c = escape_after s (escapeCode d)"
    and st: "s = [] \<and> level c d \<and> (modeTransition c \<or> curCode c = -1) \<or> ahead c d s"
    by (rule followsD [OF f])+
  define e where "e = escape_after (s @ [b]) (escapeCode d)"
  have c': "c' = c\<lparr>escapeCode := e\<rparr>"
    using put_char_compressed [OF F(1)] F(6) by (simp add: b e_def escape_after_def Let_def)
  have lb: "learning b cc c' = learning b cc c" "broken b cc c'" using cc(2) by (simp_all add: c' learning_def broken_def)
  have q: "\<not> transparent c'" "in_touch c' d" "curCode c' = int cc" "maxCodeWords c' = maxCodeWords c"
    "modeTransition c' = modeTransition c" "dict c' = dict c" "nextCodeWord c' = nextCodeWord c"
    "codeWordSize c' = codeWordSize c"
    using F(1,4) cc(1) by (simp_all add: c')
  have "c' = with_out R c'" using F(2) by (simp add: c' with_out_self)
  from accept_restart [OF this q(1) F(3) q(2,3) lb(2)] obtain R2 bs D2 v where r:
    "run_decompressor bs D = Inr D2" "linked R2 D2 (resize v d)" "codeWordSize c \<le> v" "2 ^ v \<le> maxCodeWords c"
    "learning b cc c \<longrightarrow> nextCodeWord c < 2 ^ v"
    "\<forall>k Dd. (learning b cc c \<longrightarrow> recover_loop (maxCodeWords c) (addChild (nextCodeWord c) cc b (dict c)) (nextCodeWord c) = Some (k, Dd)) \<longrightarrow>
      acceptChar checkDictSize b c' = Inr (if modeTransition c then -1 else int cc,
        with_out R2 (send bs (after_match b cc (resize v c') k Dd)))"
    unfolding q(4-) lb(1) by blast
  let ?c = "resize v c'" and ?d = "resize v d"
  have t: "in_touch ?c ?d" using in_touch_resize [of c' d v] F(4) r(3,4) by (simp add: c')
  have next_less: "learning b cc ?c \<longrightarrow> nextCodeWord ?c < codeWordThreshold ?c" and lc: "learning b cc ?c = learning b cc c"
    using r(5) by (simp_all add: c' learning_def)
  have ccq: "curCode ?c = int cc" and rq: "maxCodeWords ?c = maxCodeWords c" "dict ?c = dict c" "nextCodeWord ?c = nextCodeWord c"
    using cc(1) by (simp_all add: c')
  show ?thesis
  proof (cases "modeTransition c")
    case True
    then have s: "s = []" "level c d" using st by (auto simp: ahead_def)
    then have "level ?c ?d" by (simp add: level_resize c')
    from after_match_ahead [OF this t ccq next_less] obtain k Dd where k:
      "learning b cc c \<longrightarrow> recover_loop (maxCodeWords c) (addChild (nextCodeWord c) cc b (dict c)) (nextCodeWord c) = Some (k, Dd)"
      "in_touch (after_match b cc ?c k Dd) ?d" "ahead (after_match b cc ?c k Dd) ?d [b]"
      unfolding rq lc by blast
    have "acceptChar checkDictSize b c' = Inr (-1, with_out R2 (send bs (after_match b cc ?c k Dd)))"
      using r(6) k(1) True by simp
    moreover have "follows (w @ [b]) R2 (with_out R2 (send bs (after_match b cc ?c k Dd))) D2 ?d [b]"
      using r(2) k(2,3) F(1,5) s(1) by (simp add: follows_def c' e_def)
    ultimately show ?thesis using r(1) by (fastforce simp: c')
  next
    case False
    with cc(3) have a: "ahead ?c ?d s" by (simp add: ahead_resize c')
    from catch_up [OF t a ccq] obtain d3 where d3: "receive cc ?d = Inr d3" "level ?c d3" "in_touch ?c d3"
      "v42_buffer d3 = v42_buffer d @ s" "escapeCode d3 = escape_after s (escapeCode d)" "3 \<le> cc" "cc < 2 ^ v"
      by (auto simp: c')
    from after_match_ahead [OF d3(2,3) ccq next_less] obtain k Dd where k:
      "learning b cc c \<longrightarrow> recover_loop (maxCodeWords c) (addChild (nextCodeWord c) cc b (dict c)) (nextCodeWord c) = Some (k, Dd)"
      "in_touch (after_match b cc ?c k Dd) d3" "ahead (after_match b cc ?c k Dd) d3 [b]"
      unfolding rq lc by blast
    let ?m = "with_out R2 (send bs (after_match b cc ?c k Dd))"
    have acc: "acceptChar checkDictSize b c' = Inr (int cc, ?m)" using r(6) k(1) False by simp
    obtain R3 bs3 D3 where p: "pushCode cc ?m = with_out R3 (send bs3 ?m)" "run_decompressor bs3 D2 = Inr D3" "linked R3 D3 d3"
      using push_string [of ?m R2 D2 ?d cc d3] r(2) d3(1,6,7) by auto
    have "follows (w @ [b]) R3 (pushCode cc ?m) D3 d3 [b]"
      using p(1,3) k(2,3) F(1,5) d3(4,5) by (simp add: follows_def c' e_def escape_after_def Let_def)
    moreover have "run_decompressor (bs @ bs3) D = Inr D3" using r(1) p(2) by (simp add: run_decompressor_append)
    moreover have "v42_buffer (pushCode cc ?m) = v42_buffer c @ (bs @ bs3)" using p(1) by (simp add: c')
    ultimately show ?thesis using acc
      by (intro exI [of _ "int cc"] exI [of _ ?m] exI [of _ R3] exI [of _ "bs @ bs3"] exI [of _ D3] exI [of _ d3]) simp
  qed
qed

text \<open>The bytes a step adds to the output of the compressor bring the decompressor along.\<close>

definition delivers :: "u8 list \<Rightarrow> compressor \<Rightarrow> compressor \<Rightarrow> decompressor \<Rightarrow> bool" where
  "delivers w c c' D \<longleftrightarrow> (\<exists>bs D'. v42_buffer c' = v42_buffer c @ bs \<and> run_decompressor bs D = Inr D' \<and> in_step w c' D')"

lemma deliversI:
  "v42_buffer c' = v42_buffer c @ bs \<Longrightarrow> run_decompressor bs D = Inr D' \<Longrightarrow> in_step w c' D' \<Longrightarrow> delivers w c c' D"
  by (auto simp: delivers_def)

lemma delivers_trans:
  assumes "v42_buffer c1 = v42_buffer c @ bs" "run_decompressor bs D = Inr D1" "delivers w c1 c2 D1"
  shows "delivers w c c2 D"
  using assms by (fastforce simp: delivers_def run_decompressor_append)

lemma level_start:
  assumes "level c d" "curCode c = -1"
  shows "lastAddedCode c = -1 \<and> lastAddedCode d = -1 \<and> curCode d = -1 \<and> nextCodeWord c = nextCodeWord d \<and> dict c = dict d"
proof -
  have "curCode d = -1" using assms unfolding level_def by simp
  moreover have "curCode d = int cc \<Longrightarrow> False" for cc using calculation by simp
  ultimately show ?thesis using assms(1) unfolding level_def at_string_def by blast
qed

text \<open>The first character of all, and a character that extends the match.\<close>

lemma write_first:
  assumes f: "follows w R c D d s" and "curCode c = -1"
  shows "\<exists>c2. acceptChar checkDictSize b (put_char b c) = Inr (-1, c2) \<and> v42_buffer c2 = v42_buffer c \<and>
    follows (w @ [b]) R c2 D d [b]"
proof -
  have F: "\<not> transparent c" "c = with_out R c" "linked R D d" "in_touch c d" "w = v42_buffer d @ s"
    "escapeCode c = escape_after s (escapeCode d)"
    by (rule followsD [OF f])+
  have s: "s = []" "level c d" using followsD(7) [OF f] ahead_at [of c d s] assms(2) by auto
  have sz: "sizes_ok c" "same_params c d" "sizes_ok d" using F(4) by (auto simp: in_touch_def)
  let ?c = "(put_char b c)\<lparr>curCode := int (unat b + 3), matchLen := 1, modeTransition := False\<rparr>"
  have la: "lastAddedCode c = -1" "lastAddedCode d = -1" "curCode d = -1" "nextCodeWord c = nextCodeWord d" "dict c = dict d"
    using level_start [OF s(2) assms(2)] by blast+
  have p: "put_char b c = c\<lparr>escapeCode := escape_after [b] (escapeCode c)\<rparr>" by (rule put_char_compressed [OF F(1)])
  have "at_string ?c (unat b + 3) [b]"
    using root_at_string [of "maxCodeWords c" "dict c" ?c b] sz(1) by (simp add: p sizes_ok_def)
  moreover have "lastAddedCode ?c < int (unat b + 3)" using la(1) by (simp add: p add_pos_nonneg)
  ultimately have "ahead ?c d [b]" using la by (auto simp: ahead_def learn_def learns_def p)
  moreover have "in_touch ?c d" by (rule in_touch_cong [OF F(4)]) (simp_all add: p)
  ultimately have "follows (w @ [b]) R ?c D d [b]"
    using F(1,3,5,6) s(1) F(2) [unfolded with_out_self] by (simp add: follows_def p with_out_self)
  then show ?thesis using acceptChar_first [of "put_char b c" checkDictSize b] assms(2) by (simp add: p)
qed

lemma write_extend:
  assumes f: "follows w R c D d s" and "ahead c d s" "curCode c = int cc" "\<not> broken b cc c"
  shows "\<exists>c2. acceptChar checkDictSize b (put_char b c) = Inr (-1, c2) \<and> v42_buffer c2 = v42_buffer c \<and>
    follows (w @ [b]) R c2 D d (s @ [b])"
proof -
  have F: "\<not> transparent c" "c = with_out R c" "linked R D d" "in_touch c d" "w = v42_buffer d @ s"
    "escapeCode c = escape_after s (escapeCode d)"
    by (rule followsD [OF f])+
  obtain k where k: "getChild (dict c) cc b = Some k" "\<not> modeTransition c" "int k \<noteq> lastAddedCode c"
    using assms(4) by (auto simp: broken_def)
  have cc: "at_string c cc s" using assms(2,3) by (auto simp: ahead_def at_string_def)
  have dc: "dict_ok (maxCodeWords c) (dict c)" using F(4) by (auto simp: in_touch_def sizes_ok_def)
  have sp: "spells (dict c) k (s @ [b])" "k < maxCodeWords c"
    using child_spells [OF dc _ k(1)] cc by (auto simp: at_string_def)
  have p: "put_char b c = c\<lparr>escapeCode := escape_after [b] (escapeCode c)\<rparr>" by (rule put_char_compressed [OF F(1)])
  let ?c = "(put_char b c)\<lparr>matchLen := matchLen c + 1, curCode := int k\<rparr>"
  have "s \<noteq> []" using cc spells_nonempty by (auto simp: at_string_def)
  moreover have "at_string ?c k (s @ [b])" using cc sp by (simp add: at_string_def p)
  ultimately have "ahead ?c d (s @ [b])" using assms(2) k(2,3) by (auto simp: ahead_def p)
  moreover have "in_touch ?c d" by (rule in_touch_cong [OF F(4)]) (simp_all add: p)
  ultimately have "follows (w @ [b]) R ?c D d (s @ [b])"
    using F(1,3,5,6) F(2) [unfolded with_out_self] by (simp add: follows_def p with_out_self escape_after_def Let_def)
  then show ?thesis
    using acceptChar_extend [of "put_char b c" cc b k checkDictSize] assms(3) k by (simp add: p)
qed

lemma write_compressed:
  assumes "follows w R c D d s"
  shows "\<exists>code c2. acceptChar checkDictSize b (put_char b c) = Inr (code, c2) \<and> \<not> transparent c2 \<and>
    delivers (w @ [b]) c (if code = -1 then c2 else pushCode (nat code) c2) D"
proof -
  have tr: "\<not> transparent c2" if "follows w' R' (if code = -1 then c2 else pushCode (nat code) c2) D' d' s'"
    "put_char b c = c'" "acceptChar checkDictSize b c' = Inr (code, c2)" for w' R' code c2 D' d' s' c'
  proof -
    have "transparent (put_bytes x) = transparent x" for x
      by (induction x rule: put_bytes.induct) (subst put_bytes.simps, auto simp: put_byte_def push_def)
    then show ?thesis using followsD(1) [OF that(1)] by (auto simp: pushCode_def split: if_splits)
  qed
  show ?thesis
  proof (cases "curCode c = -1")
    case True
    from write_first [OF assms this] obtain c2 where c2: "acceptChar checkDictSize b (put_char b c) = Inr (-1, c2)"
      "v42_buffer c2 = v42_buffer c" "follows (w @ [b]) R c2 D d [b]" by blast
    then have "delivers (w @ [b]) c c2 D" by (intro deliversI [of _ _ "[]"]) (simp, simp, unfold in_step_def, blast)
    then show ?thesis using c2(1) followsD(1) [OF c2(3)] by auto
  next
    case False
    then obtain cc where cc: "curCode c = int cc"
      using followsD(7) [OF assms] level_at [of c d] ahead_at [of c d s] by blast
    show ?thesis
    proof (cases "broken b cc c")
      case True
      moreover have "modeTransition c \<or> ahead c d s" using followsD(7) [OF assms] False by blast
      ultimately obtain code c2 R3 bs D3 d3 where r: "acceptChar checkDictSize b (put_char b c) = Inr (code, c2)"
        "run_decompressor bs D = Inr D3" "v42_buffer (if code = -1 then c2 else pushCode (nat code) c2) = v42_buffer c @ bs"
        "follows (w @ [b]) R3 (if code = -1 then c2 else pushCode (nat code) c2) D3 d3 [b]"
        using write_restart [OF assms refl cc] by blast
      have "delivers (w @ [b]) c (if code = -1 then c2 else pushCode (nat code) c2) D"
        by (rule deliversI [OF r(3,2)]) (use r(4) in_step_def in blast)
      with tr [OF r(4) refl r(1)] r(1) show ?thesis by blast
    next
      case ext: False
      then have "ahead c d s" using followsD(7) [OF assms] False by (auto simp: broken_def)
      from write_extend [OF assms this cc ext] obtain c2 where
        c2: "acceptChar checkDictSize b (put_char b c) = Inr (-1, c2)"
        "v42_buffer c2 = v42_buffer c" "follows (w @ [b]) R c2 D d (s @ [b])" by blast
      then have "delivers (w @ [b]) c c2 D" by (intro deliversI [of _ _ "[]"]) (simp, simp, unfold in_step_def, blast)
      then show ?thesis using c2(1) followsD(1) [OF c2(3)] by auto
    qed
  qed
qed

section \<open>Flushes and changes of the mode\<close>

definition flush_pending :: "compressor \<Rightarrow> compressor" where
  "flush_pending c = (if curCode c \<noteq> -1 \<and> \<not> modeTransition c
     then (pushCode (nat (curCode c)) c)\<lparr>modeTransition := True\<rparr> else c)"

definition settled :: "compressor \<Rightarrow> compressor" where
  "settled c = c\<lparr>modeTransition := (modeTransition c \<or> curCode c \<noteq> -1)\<rparr>"

lemma settled_fields [simp]:
  "transparent (settled c) = transparent c" "escapeCode (settled c) = escapeCode c"
  "v42_buffer (settled c) = v42_buffer c" "codeWordSize (settled c) = codeWordSize c"
  "curCode (settled c) = curCode c" "level (settled c) d = level c d" "in_touch (settled c) d = in_touch c d"
  "modeTransition (settled c) = (modeTransition c \<or> curCode c \<noteq> -1)"
  by (simp_all add: settled_def level_def in_touch_def same_params_def sizes_ok_def)

lemma flush_pending_linked:
  assumes "follows w R c D d s"
  shows "\<exists>R' bs D' d'. flush_pending c = with_out R' (send bs (settled c)) \<and> run_decompressor bs D = Inr D' \<and>
    linked R' D' d' \<and> level c d' \<and> in_touch c d' \<and> w = v42_buffer d' \<and> escapeCode c = escapeCode d'"
proof -
  note F = followsD [OF assms]
  show ?thesis
  proof (cases "ahead c d s")
    case False
    then have s: "s = []" "level c d" "modeTransition c \<or> curCode c = -1" using F(7) by auto
    have "flush_pending c = settled c" using s(3) by (auto simp: flush_pending_def settled_def)
    also have "settled c = with_out R (settled c)" using F(2) by (simp add: with_out_self settled_def)
    finally show ?thesis using F(3,4,5,6) s(1,2)
      by (intro exI [of _ R] exI [of _ "[]"] exI [of _ D] exI [of _ d]) simp
  next
    case True
    then obtain cc where cc: "curCode c = int cc" "\<not> modeTransition c" by (auto simp: ahead_def at_string_def)
    obtain d' where d': "receive cc d = Inr d'" "level c d'" "in_touch c d'" "v42_buffer d' = v42_buffer d @ s"
      "escapeCode d' = escape_after s (escapeCode d)" "3 \<le> cc" "cc < codeWordThreshold c"
      using catch_up [OF F(4) True cc(1)] by auto
    have sz: "codeWordSize c = codeWordSize d" "codeWordThreshold c = 2 ^ codeWordSize c"
      using F(4) by (auto simp: in_touch_def same_params_def sizes_ok_def)
    obtain R' bs D' where p: "pushCode cc c = with_out R' (send bs c)" "run_decompressor bs D = Inr D'" "linked R' D' d'"
      using push_string [OF F(2,3) sz(1) _ _ d'(1)] d'(6,7) sz(2) by auto
    have "flush_pending c = with_out R' (send bs (settled c))"
      using cc p(1) by (simp add: flush_pending_def settled_def) (simp add: with_out_def send_def)
    then show ?thesis using p(2,3) d'(2-5) F(5,6)
      by (intro exI [of _ R'] exI [of _ bs] exI [of _ D'] exI [of _ d']) simp
  qed
qed

lemma Compressor_flush_pending:
  "\<not> transparent c \<Longrightarrow> Compressor_flush enterT c =
    (let c1 = flush_pending c in
     (put_rest (if enterT then pushCode ETM c1 else if outBitPos c1 mod 8 \<noteq> 0 then pushCode FLUSH_CODE c1 else c1))\<lparr>outBitPos := 0\<rparr>)"
  by (simp add: Compressor_flush_def flush_pending_def Let_def)

lemma flush_linked:
  assumes "follows w R c D d s"
  shows "\<exists>bs D' d'. Compressor_flush enterT c = with_out [] (send bs (settled c)) \<and>
    run_decompressor bs D = Inr D' \<and>
    D' = with_in [] (if enterT then d'\<lparr>transparent := True, modeTransition := True\<rparr> else d') \<and>
    level c d' \<and> in_touch c d' \<and> w = v42_buffer d' \<and> escapeCode c = escapeCode d' \<and> sized d'"
proof -
  note F = followsD [OF assms]
  obtain R' bs D' d' where p: "flush_pending c = with_out R' (send bs (settled c))" "run_decompressor bs D = Inr D'"
    "linked R' D' d'" and L: "level c d'" "in_touch c d'" "w = v42_buffer d'" "escapeCode c = escapeCode d'"
    using flush_pending_linked [OF assms] by blast
  have sz: "codeWordSize c = codeWordSize d'" using L(2) by (simp add: in_touch_def same_params_def)
  have R': "length R' < 8" "sized d'" using p(3) linked_sized [OF p(3)] by (auto simp: linked_def)
  have code: "\<exists>bs2. (put_rest (pushCode k (flush_pending c)))\<lparr>outBitPos := 0\<rparr> = with_out [] (send (bs @ bs2) (settled c)) \<and>
      run_decompressor bs2 D' = Inr (with_in [] (if k = 0 then d'\<lparr>transparent := True, modeTransition := True\<rparr> else d'))"
    if "k < 2" for k
  proof -
    have "k < 2 ^ codeWordSize c" "codeWordSize c \<le> 16"
      using that R'(2) sz power_increasing [of 1 "codeWordSize c" "2 :: nat"] by (auto simp: sized_def)
    then have "(put_rest (pushCode k (flush_pending c)))\<lparr>outBitPos := 0\<rparr> =
        with_out [] (send (padded (R' @ code_bits (codeWordSize c) k)) (send bs (settled c)))"
      using pushCode_end [OF R'(1), of "send bs (settled c)" "codeWordSize c" k] by (simp add: p(1))
    then show ?thesis using end_code_linked [OF p(3) that sz] by auto
  qed
  show ?thesis
  proof (cases "enterT \<or> R' \<noteq> []")
    case True
    let ?k = "if enterT then ETM else FLUSH_CODE"
    have "outBitPos (flush_pending c) mod 8 \<noteq> 0" if "R' \<noteq> []"
      using that R'(1) p(1) by (cases R') auto
    then have "Compressor_flush enterT c = (put_rest (pushCode ?k (flush_pending c)))\<lparr>outBitPos := 0\<rparr>"
      using True F(1) by (auto simp: Compressor_flush_pending Let_def)
    moreover have "?k < 2" by simp
    from code [OF this] obtain bs2 where
      "(put_rest (pushCode ?k (flush_pending c)))\<lparr>outBitPos := 0\<rparr> = with_out [] (send (bs @ bs2) (settled c)) \<and>
       run_decompressor bs2 D' = Inr (with_in [] (if ?k = 0 then d'\<lparr>transparent := True, modeTransition := True\<rparr> else d'))"
      by (rule exE)
    ultimately have "Compressor_flush enterT c = with_out [] (send (bs @ bs2) (settled c))"
      and "run_decompressor (bs @ bs2) D =
        Inr (with_in [] (if enterT then d'\<lparr>transparent := True, modeTransition := True\<rparr> else d'))"
      using p(2) by (simp_all add: run_decompressor_append)
    then show ?thesis using L R'(2) by blast
  next
    case False
    then have "Compressor_flush enterT c = with_out [] (send bs (settled c))"
      using F(1) p(1) put_rest_with_out [of "[]" "send bs (settled c)"] by (simp add: Compressor_flush_pending Let_def)
    moreover have "D' = with_in [] d'" using linked_cleanD p(3) False by auto
    ultimately show ?thesis using p(2) L R'(2) False
      by (intro exI [of _ bs] exI [of _ D'] exI [of _ d']) simp
  qed
qed

lemma level_settled:
  assumes "level c d" "c' = settled c"
  shows "lastAddedCode c' = lastAddedCode d \<or> modeTransition c'"
  using assms level_start [of c d] by (auto simp: settled_def)

lemma flush_in_step:
  assumes "in_step w c D"
  shows "delivers w c (Compressor_flush False c) D"
proof (cases "transparent c")
  case True
  then have "Compressor_flush False c = c" by (simp add: Compressor_flush_def)
  then show ?thesis using assms by (intro deliversI [of _ _ "[]"]) simp_all
next
  case False
  then obtain R d s where f: "follows w R c D d s" using assms by (auto simp: in_step_def equal_ends_def)
  obtain bs D' d' where r: "Compressor_flush False c = with_out [] (send bs (settled c))"
    "run_decompressor bs D = Inr D'" "D' = with_in [] d'" "level c d'" "in_touch c d'" "w = v42_buffer d'"
    "escapeCode c = escapeCode d'" "sized d'"
    using flush_linked [OF f, of False] by auto
  have "follows w [] (with_out [] (send bs (settled c))) D' d' []"
    using False r(3-8) linked_clean [OF r(8)] by (simp add: follows_def)
  then show ?thesis using r(1,2) by (intro deliversI [of _ _ bs]) (auto simp: in_step_def)
qed

lemma changeMode_in_step:
  assumes "in_step w c D"
  shows "delivers w c (changeMode c) D"
proof (cases "transparent c")
  case True
  then have e: "equal_ends w c D" using assms by (auto simp: in_step_def follows_def)
  then have E: "transparent D" "c = with_out [] c" "D = with_in [] D" "in_touch c D" "w = v42_buffer D"
    "escapeCode c = escapeCode D" "level c D" unfolding equal_ends_def by blast+
  let ?c = "changeMode c" let ?d = "D\<lparr>transparent := False, modeTransition := True\<rparr>"
  have c: "?c = with_out [] ((send [escapeCode c, 0] c)\<lparr>transparent := False, compressTestCount := 256, modeTransition := True, compressTest := 0\<rparr>)"
    using True E(2) by (simp add: changeMode_def Let_def push_def send_def o_def with_out_self)
  have esc: "\<not> escaped D" using E(4) by (simp add: in_touch_def same_params_def)
  have "D\<lparr>escaped := False\<rparr> = D" using esc by simp
  then have "run_decompressor [escapeCode c, 0] D = Inr ?d"
    using E(1,6) esc by (simp add: Decompressor_write_def Let_def)
  moreover have d: "?d = with_in [] ?d" using E(3) by (simp add: with_in_self)
  have "in_touch c ?d" by (rule in_touch_cong2 [OF E(4)]) simp_all
  then have t: "in_touch ?c ?d" by (rule in_touch_cong) (simp_all add: c)
  then have "sized ?d" using sized_sizes [of ?d] by (simp add: in_touch_def)
  then have "linked [] ?d ?d" using linked_clean [of ?d] d by simp
  moreover have "level ?c ?d" using E(7) by (simp add: c level_def at_string_def)
  ultimately have "follows w [] ?c ?d ?d []"
    using E(5,6) t unfolding follows_def by (simp add: c)
  with \<open>run_decompressor _ D = Inr ?d\<close> show ?thesis
    by (intro deliversI [of _ _ "[escapeCode c, 0]"]) (auto simp: c in_step_def)
next
  case False
  then obtain R d s where f: "follows w R c D d s" using assms by (auto simp: in_step_def equal_ends_def)
  obtain bs D' d' where r: "Compressor_flush True c = with_out [] (send bs (settled c))"
    "run_decompressor bs D = Inr D'" "D' = with_in [] (d'\<lparr>transparent := True, modeTransition := True\<rparr>)"
    "level c d'" "in_touch c d'" "w = v42_buffer d'" "escapeCode c = escapeCode d'"
    using flush_linked [OF f, of True] by auto
  let ?c = "changeMode c"
  have c: "?c = with_out [] ((send bs (settled c))\<lparr>transparent := True, compressTestCount := 64, modeTransition := True, compressTest := 0\<rparr>)"
    using False r(1) by (simp add: changeMode_def Let_def) (simp add: with_out_def)
  have "in_touch c D'" by (rule in_touch_cong2 [OF r(5)]) (simp_all add: r(3) with_in_def)
  then have "in_touch ?c D'" by (rule in_touch_cong) (simp_all add: c settled_def)
  moreover have "level ?c D'" using r(4) by (simp add: c r(3) level_def at_string_def settled_def)
  ultimately have "equal_ends w ?c D'" using r(6,7) unfolding equal_ends_def by (simp add: c r(3))
  then show ?thesis using r(2) by (intro deliversI [of _ _ bs]) (auto simp: c in_step_def)
qed

section \<open>Steps in transparent mode\<close>

lemma accept_plain:
  assumes "curCode s = int cc" "broken b cc s" "chk (s\<lparr>matchLen := matchLen s + 1\<rparr>) = Inr (s\<lparr>matchLen := matchLen s + 1\<rparr>)"
    and "learning b cc s \<longrightarrow> recover_loop (maxCodeWords s) (addChild (nextCodeWord s) cc b (dict s)) (nextCodeWord s) = Some (k, D)"
  shows "acceptChar chk b s = Inr (if modeTransition s then -1 else int cc, after_match b cc s k D)"
proof (cases "learning b cc s")
  case True
  then show ?thesis using acceptChar_learn [where chk=chk, OF assms(1) True assms(3)] assms(1,4)
    by (simp add: after_match_def restart_def)
qed (use acceptChar_same [OF assms(1,2)] in \<open>simp add: after_match_def\<close>)

text \<open>The two ends accept a character alike.\<close>

definition twins :: "compressor \<Rightarrow> decompressor \<Rightarrow> bool" where
  "twins c d \<longleftrightarrow> in_touch c d \<and> level c d \<and> modeTransition d = modeTransition c \<and>
     (lastAddedCode c = lastAddedCode d \<or> modeTransition c)"

lemma twins_accept:
  assumes "twins c d" "transparent c" "nextCodeWord c < codeWordThreshold c"
  shows "\<exists>code e c2 d2. acceptChar checkDictSize b c = Inr (code, c2) \<and> acceptChar Inr b d = Inr (e, d2) \<and> twins c2 d2 \<and>
    (\<exists>x y z u v t. c2 = c\<lparr>nextCodeWord := x, dict := y, lastAddedCode := z, matchLen := u, curCode := v, modeTransition := t\<rparr>) \<and>
    (\<exists>x y z u v t. d2 = d\<lparr>nextCodeWord := x, dict := y, lastAddedCode := z, matchLen := u, curCode := v, modeTransition := t\<rparr>)"
proof -
  have T: "in_touch c d" "level c d" "modeTransition d = modeTransition c" "lastAddedCode c = lastAddedCode d \<or> modeTransition c"
    using assms(1) by (auto simp: twins_def)
  have sz: "sizes_ok c" "sizes_ok d" "same_params c d" using T(1) by (auto simp: in_touch_def)
  have l: "nextCodeWord d = nextCodeWord c" "dict d = dict c" "curCode d = curCode c" "matchLen d = matchLen c"
    using T(2) by (auto simp: level_def)
  have max: "maxCodeWords d = maxCodeWords c" "maxStringLength d = maxStringLength c" using sz(3) by (auto simp: same_params_def)
  show ?thesis
  proof (cases "curCode c = -1")
    case True
    let ?u = "\<lambda>s. s\<lparr>curCode := int (unat b + 3), matchLen := 1, modeTransition := False\<rparr>"
    let ?c = "?u c" and ?d = "d\<lparr>curCode := int (unat b + 3), matchLen := 1, modeTransition := False\<rparr>"
    have la: "lastAddedCode c = -1" "lastAddedCode d = -1" using level_start [OF T(2) True] by auto
    have "at_string ?d (unat b + 3) [b]"
      using root_at_string [of "maxCodeWords c" "dict c" ?d b] sz(1) max l by (simp add: sizes_ok_def)
    moreover have "lastAddedCode ?d < int (unat b + 3)" by (simp add: la add_pos_nonneg)
    ultimately have "level ?c ?d" using l by (auto simp: level_def)
    moreover have "in_touch ?c ?d"
      by (rule in_touch_cong2, rule in_touch_cong [OF T(1)]) simp_all
    ultimately have "twins ?c ?d" using la by (simp add: twins_def)
    moreover have "acceptChar checkDictSize b c = Inr (-1, ?c)" by (rule acceptChar_first [OF True])
    moreover have "acceptChar Inr b d = Inr (-1, ?d)" by (rule acceptChar_first) (use True l in simp)
    moreover have "?c = c\<lparr>nextCodeWord := nextCodeWord c, dict := dict c, lastAddedCode := lastAddedCode c, matchLen := 1,
        curCode := int (unat b + 3), modeTransition := False\<rparr>" by simp
    moreover have "?d = d\<lparr>nextCodeWord := nextCodeWord d, dict := dict d, lastAddedCode := lastAddedCode d, matchLen := 1,
        curCode := int (unat b + 3), modeTransition := False\<rparr>" by simp
    ultimately show ?thesis by blast
  next
    case False
    then obtain cc str where cc: "curCode c = int cc" "curCode d = int cc" "at_string d cc str" "lastAddedCode d \<noteq> int cc"
      using T(2) by (auto simp: level_def at_string_def)
    have ac: "at_string c cc str" using cc(3) l max by (simp add: at_string_def)
    have br: "broken b cc d = broken b cc c" using T(3,4) l by (auto simp: broken_def)
    have lr: "learning b cc d = learning b cc c" using l max by (simp add: learning_def)
    show ?thesis
    proof (cases "broken b cc c")
      case True
      obtain k D where r:
        "learning b cc c \<longrightarrow> recover_loop (maxCodeWords c) (addChild (nextCodeWord c) cc b (dict c)) (nextCodeWord c) = Some (k, D)"
        "sizes_ok (after_match b cc c k D)" "at_string (after_match b cc c k D) (unat b + 3) [b]"
        "lastAddedCode (after_match b cc c k D) \<noteq> int (unat b + 3)"
        using after_match_sizes [OF sz(1) ac] assms(3) by blast
      let ?c = "after_match b cc c k D" and ?d = "after_match b cc d k D"
      have eq: "dict ?d = dict ?c" "nextCodeWord ?d = nextCodeWord ?c" "lastAddedCode ?d = lastAddedCode ?c"
        "curCode ?d = curCode ?c" "matchLen ?d = matchLen ?c" "modeTransition ?d = modeTransition ?c"
        using l by (simp_all add: after_match_def restart_def lr)
      have "sizes_ok ?d" by (rule sizes_ok_cong [OF r(2)]) (use sz(3) eq in \<open>simp_all add: same_params_def\<close>)
      moreover have "same_params ?c ?d" using sz(3)
        by (simp add: same_params_def) (simp add: after_match_def restart_def)
      moreover have "level ?c ?d" using r(3,4) eq max by (auto simp: level_def at_string_def)
      ultimately have "twins ?c ?d" using r(2) eq by (simp add: twins_def in_touch_def)
      moreover have "acceptChar checkDictSize b c = Inr (if modeTransition c then -1 else int cc, ?c)"
        by (rule accept_plain [OF cc(1) True _ r(1)]) (use assms(2) in \<open>simp add: checkDictSize_def\<close>)
      moreover have "acceptChar Inr b d = Inr (if modeTransition d then -1 else int cc, ?d)"
        by (rule accept_plain [OF cc(2)]) (use True br lr r(1) l max in simp_all)
      moreover have "?c = c\<lparr>nextCodeWord := nextCodeWord ?c, dict := dict ?c, lastAddedCode := lastAddedCode ?c, matchLen := matchLen ?c,
        curCode := curCode ?c, modeTransition := modeTransition ?c\<rparr>" by (simp add: after_match_def restart_def)
      moreover have "?d = d\<lparr>nextCodeWord := nextCodeWord ?d, dict := dict ?d, lastAddedCode := lastAddedCode ?d, matchLen := matchLen ?d,
        curCode := curCode ?d, modeTransition := modeTransition ?d\<rparr>" by (simp add: after_match_def restart_def)
      ultimately show ?thesis by blast
    next
      case ext: False
      then obtain k where k: "getChild (dict c) cc b = Some k" "\<not> modeTransition c" "int k \<noteq> lastAddedCode c"
        by (auto simp: broken_def)
      have dc: "dict_ok (maxCodeWords c) (dict c)" using sz(1) by (auto simp: sizes_ok_def)
      have sp: "spells (dict c) k (str @ [b])" "k < maxCodeWords c"
        using child_spells [OF dc _ k(1)] ac by (auto simp: at_string_def)
      let ?c = "c\<lparr>matchLen := matchLen c + 1, curCode := int k\<rparr>" and ?d = "d\<lparr>matchLen := matchLen d + 1, curCode := int k\<rparr>"
      have "at_string ?d k (str @ [b])" using cc(3) sp l max by (simp add: at_string_def)
      then have "level ?c ?d" using l k T(4) by (auto simp: level_def)
      moreover have "in_touch ?c ?d" by (rule in_touch_cong2, rule in_touch_cong [OF T(1)]) simp_all
      ultimately have "twins ?c ?d" using T(3,4) by (simp add: twins_def)
      moreover have "acceptChar checkDictSize b c = Inr (-1, ?c)" by (rule acceptChar_extend [OF cc(1) k])
      moreover have "acceptChar Inr b d = Inr (-1, ?d)" by (rule acceptChar_extend [OF cc(2)]) (use k l T(3,4) in auto)
      moreover have "?c = c\<lparr>nextCodeWord := nextCodeWord c, dict := dict c, lastAddedCode := lastAddedCode c,
        matchLen := matchLen c + 1, curCode := int k, modeTransition := modeTransition c\<rparr>" by simp
      moreover have "?d = d\<lparr>nextCodeWord := nextCodeWord d, dict := dict d, lastAddedCode := lastAddedCode d,
        matchLen := matchLen d + 1, curCode := int k, modeTransition := modeTransition d\<rparr>" by simp
      ultimately show ?thesis by blast
    qed
  qed
qed

lemma write_transparent:
  assumes e: "equal_ends w c D" and "nextCodeWord c < codeWordThreshold c"
  shows "\<exists>code c2. acceptChar checkDictSize b (put_char b c) = Inr (code, c2) \<and> transparent c2 \<and> delivers (w @ [b]) c c2 D"
proof -
  have E: "transparent c" "transparent D" "c = with_out [] c" "D = with_in [] D" "in_touch c D" "w = v42_buffer D"
    "escapeCode c = escapeCode D" "level c D" "modeTransition D = modeTransition c"
    "lastAddedCode c = lastAddedCode D \<or> modeTransition c"
    using e unfolding equal_ends_def by blast+
  define ec where "ec = (if b = escapeCode c then escapeCode c + 51 else escapeCode c)"
  define bs where "bs = (if b = escapeCode c then [b, 1] else [b])"
  let ?c = "(send bs c)\<lparr>escapeCode := ec\<rparr>" and ?D = "(send [b] D)\<lparr>escapeCode := ec\<rparr>"
  have p: "put_char b c = ?c"
    using E(1) by (simp add: put_char_def Let_def push_def send_def ec_def bs_def o_def)
  have esc: "\<not> escaped D" using E(5) by (simp add: in_touch_def same_params_def)
  then have De: "D\<lparr>escaped := False, escapeCode := y\<rparr> = D\<lparr>escapeCode := y\<rparr>" for y by (cases D) simp
  have run: "run_decompressor bs D = bindE (acceptChar Inr b ?D) (\<lambda>(_, d). Inr d)"
  proof (cases "b = escapeCode c")
    case True
    then have "run_decompressor bs D = transparent_byte b (D\<lparr>escapeCode := escapeCode D + 51\<rparr>)"
      using E(2,7) esc by (simp add: De bs_def Decompressor_write_def Let_def bindE_def split: sum.split)
    moreover have "push b (D\<lparr>escapeCode := escapeCode D + 51\<rparr>) = ?D"
      using True E(7) by (simp add: push_def send_def ec_def)
    ultimately show ?thesis by (simp add: transparent_byte_def)
  next
    case False
    then have "run_decompressor bs D = transparent_byte b D"
      using E(2,7) esc by (simp add: bs_def Decompressor_write_def bindE_def split: sum.split)
    moreover have "push b D = ?D" using False E(7) by (cases D) (simp add: push_def send_def ec_def)
    ultimately show ?thesis by (simp add: transparent_byte_def)
  qed
  have "in_touch ?c ?D" by (rule in_touch_cong2, rule in_touch_cong [OF E(5)]) (simp_all, simp add: send_def)
  moreover have "level ?c ?D" using E(8) by (simp add: level_def at_string_def)
  ultimately have "twins ?c ?D" using E(9,10) by (simp add: twins_def)
  moreover have "transparent ?c" "nextCodeWord ?c < codeWordThreshold ?c" using E(1) assms(2) by simp_all
  ultimately obtain code e c2 d2 where r: "acceptChar checkDictSize b ?c = Inr (code, c2)" "acceptChar Inr b ?D = Inr (e, d2)"
    "twins c2 d2"
    "\<exists>x y z u v t. c2 = ?c\<lparr>nextCodeWord := x, dict := y, lastAddedCode := z, matchLen := u, curCode := v, modeTransition := t\<rparr>"
    "\<exists>x y z u v t. d2 = ?D\<lparr>nextCodeWord := x, dict := y, lastAddedCode := z, matchLen := u, curCode := v, modeTransition := t\<rparr>"
    using twins_accept by blast
  have c2: "transparent c2" "outBitBuf c2 = outBitBuf c" "outBitPos c2 = outBitPos c" "v42_buffer c2 = v42_buffer c @ bs" "escapeCode c2 = ec"
    using r(4) E(1) by (auto simp: send_def)
  have d2: "transparent d2" "inputBitBuffer d2 = inputBitBuffer D" "inputBitCount d2 = inputBitCount D"
    "v42_buffer d2 = v42_buffer D @ [b]" "escapeCode d2 = ec"
    using r(5) E(2) by (auto simp: send_def)
  have "equal_ends (w @ [b]) c2 d2"
    using c2 d2 r(3) E(3,4,6) unfolding equal_ends_def twins_def with_out_self with_in_self by simp
  then have "delivers (w @ [b]) c c2 D"
    by (intro deliversI [of _ _ bs D d2]) (simp_all add: c2(4) run r(2) in_step_def)
  then show ?thesis using r(1) c2(1) by (simp add: p)
qed

end
