(* ===== verification/V42bis_Roundtrip.thy ===== *)
theory V42bis_Roundtrip
  imports V42bis_Step
begin

text \<open>
  Sessions of a compressor and a decompressor. Every operation of the compressor is a step that the
  decompressor follows, so what is written at one end comes out at the other.
\<close>

section \<open>Sessions\<close>

lemma in_step_test: "in_step w (c\<lparr>compressTest := x, compressTestCount := y\<rparr>) D = in_step w c D"
proof -
  let ?c = "c\<lparr>compressTest := x, compressTestCount := y\<rparr>"
  have "in_touch ?c d = in_touch c d" "level ?c d = level c d" "ahead ?c d s = ahead c d s" for d s
    by (simp_all add: in_touch_def same_params_def sizes_ok_def level_def ahead_def at_string_def)
  then show ?thesis
    by (simp add: in_step_def equal_ends_def follows_def with_out_self)
qed

lemma compress_test_in_step:
  assumes "delivers w c c' D"
  shows "delivers w c (compress_test m c') D"
proof -
  obtain bs D' where r: "v42_buffer c' = v42_buffer c @ bs" "run_decompressor bs D = Inr D'" "in_step w c' D'"
    using assms by (auto simp: delivers_def)
  let ?c = "c'\<lparr>compressTest := compressTest c' + of_int (8 * m - int (codeWordSize c')),
           compressTestCount := compressTestCount c' - of_int m\<rparr>"
  have s: "in_step w ?c D'" using r(3) by (simp only: in_step_test)
  have "delivers w ?c (changeMode ?c) D'" by (rule changeMode_in_step [OF s])
  then have "delivers w c (changeMode ?c) D" by (intro delivers_trans [OF _ r(2)]) (simp_all add: r(1))
  moreover have "delivers w c ?c D" using s by (intro deliversI [OF _ r(2)]) (simp_all add: r(1))
  ultimately show ?thesis by (auto simp: compress_test_def Let_def)
qed

lemma Compressor_write_in_step:
  assumes "in_step w c D" and "transparent c \<longrightarrow> nextCodeWord c < codeWordThreshold c"
  shows "\<exists>c'. Compressor_write b c = Inr c' \<and> delivers (w @ [b]) c c' D"
proof (cases "transparent c")
  case True
  then have "equal_ends w c D" using assms(1) by (auto simp: in_step_def follows_def)
  then obtain code c2 where "acceptChar checkDictSize b (put_char b c) = Inr (code, c2)" "transparent c2"
    "delivers (w @ [b]) c c2 D"
    using write_transparent assms(2) True by blast
  then show ?thesis using compress_test_in_step by (auto simp: Compressor_write_def Let_def)
next
  case False
  then obtain R d s where f: "follows w R c D d s" using assms(1) by (auto simp: in_step_def equal_ends_def)
  obtain code c2 where "acceptChar checkDictSize b (put_char b c) = Inr (code, c2)" "\<not> transparent c2"
    "delivers (w @ [b]) c (if code = -1 then c2 else pushCode (nat code) c2) D"
    using write_compressed [OF f] by blast
  then show ?thesis using compress_test_in_step by (auto simp: Compressor_write_def Let_def split: if_splits)
qed

text \<open>A session in which no entry is made in transparent mode whose code is wider than the code size. This is
  every session with the least dictionary, of 512 codes.\<close>

primrec in_width :: "v42_op list \<Rightarrow> compressor \<Rightarrow> bool" where
  "in_width [] c = True"
| "in_width (x # xs) c = ((\<forall>b. x = Write b \<longrightarrow> transparent c \<longrightarrow> nextCodeWord c < codeWordThreshold c) \<and>
     (\<forall>c'. compressor_op x c = Inr c' \<longrightarrow> in_width xs c'))"

lemma written_simps [simp]:
  "written [] = []" "written (Write b # xs) = b # written xs" "written (Flush # xs) = written xs"
  "written (ChangeMode # xs) = written xs"
  by (simp_all add: written_def)

lemma session_in_step:
  assumes "in_step w c D" "in_width ops c"
  shows "\<exists>c'. run_compressor ops c = Inr c' \<and> delivers (w @ written ops) c c' D"
  using assms
proof (induction ops arbitrary: w c D)
  case Nil
  then show ?case by (auto intro: deliversI [of _ _ "[]"])
next
  case (Cons x ops)
  have "\<exists>c1. compressor_op x c = Inr c1 \<and> delivers (w @ written [x]) c c1 D"
  proof (cases x)
    case (Write b)
    then show ?thesis using Compressor_write_in_step [OF Cons.prems(1), of b] Cons.prems(2) by simp
  qed (use flush_in_step [OF Cons.prems(1)] changeMode_in_step [OF Cons.prems(1)] in simp_all)
  then obtain c1 bs D1 where 1: "compressor_op x c = Inr c1" "v42_buffer c1 = v42_buffer c @ bs"
    "run_decompressor bs D = Inr D1" "in_step (w @ written [x]) c1 D1"
    by (auto simp: delivers_def)
  have "in_width ops c1" using Cons.prems(2) 1(1) by simp
  from Cons.IH [OF 1(4) this] obtain c' where c': "run_compressor ops c1 = Inr c'"
    "delivers ((w @ written [x]) @ written ops) c1 c' D1" by blast
  have "(w @ written [x]) @ written ops = w @ written (x # ops)" by (cases x) simp_all
  then show ?case using c' 1(1) delivers_trans [OF 1(2,3)] by simp
qed

text \<open>A flush leaves nothing behind.\<close>

lemma flush_delivers_all:
  assumes "in_step w c D"
  shows "\<exists>bs D'. v42_buffer (Compressor_flush False c) = v42_buffer c @ bs \<and> run_decompressor bs D = Inr D' \<and> v42_buffer D' = w"
proof (cases "transparent c")
  case True
  then have "equal_ends w c D" using assms by (auto simp: in_step_def follows_def)
  then have "v42_buffer D = w" unfolding equal_ends_def by blast
  moreover have "Compressor_flush False c = c" using True by (simp add: Compressor_flush_def)
  ultimately show ?thesis by (intro exI [of _ "[]"] exI [of _ D]) simp
next
  case False
  then obtain R d s where f: "follows w R c D d s" using assms by (auto simp: in_step_def equal_ends_def)
  obtain bs D' d' where r: "Compressor_flush False c = with_out [] (send bs (settled c))"
    "run_decompressor bs D = Inr D'" "D' = with_in [] d'" "w = v42_buffer d'"
    using flush_linked [OF f, of False] by auto
  then show ?thesis by (intro exI [of _ bs] exI [of _ D']) simp
qed

text \<open>New ends are in step.\<close>

lemma Dictionary_reset_ok:
  assumes "length d = N" "259 \<le> N" "\<And>c. c < 3 \<Longrightarrow> isFree (d ! c) \<and> isLeaf (d ! c)"
  shows "dict_ok N (Dictionary_reset d)" "c < N \<Longrightarrow> \<not> isFree (Dictionary_reset d ! c) \<Longrightarrow> c < 259"
    "259 < N \<Longrightarrow> spare N (Dictionary_reset d) 259" "length (Dictionary_reset d) = N"
proof -
  let ?d = "Dictionary_reset d"
  have nth: "?d ! c = (if c < 3 then d ! c else if c < 259 then makeRootNode (of_nat (c - 3)) else free_node)" if "c < N" for c
    using that assms(1) by (simp add: Dictionary_reset_def)
  have leaf: "getChild ?d p x = None" if "p < N" for p x
    using assms(3) [of p] by (auto simp: getChild_def nth [OF that] isLeaf_def makeRootNode_def free_node_def)
  have par: "node_parent (?d ! c) \<noteq> Link p" if "c < N" for c p
    using assms(3) [of c] by (auto simp: nth [OF that] isFree_def makeRootNode_def free_node_def)
  have free: "isFree (?d ! c) = (c < 3 \<or> 259 \<le> c)" if "c < N" for c
    using assms(3) [of c] by (auto simp: nth [OF that] isFree_def makeRootNode_def free_node_def)
  show len: "length ?d = N" using assms(1) by (simp add: Dictionary_reset_def)
  have root: "isRoot (?d ! c) \<and> node_character (?d ! c) = of_nat (c - 3)" if "3 \<le> c" "c < 259" for c
    using that assms(2) by (simp add: nth isRoot_def makeRootNode_def)
  show "dict_ok N ?d"
    unfolding dict_ok_def
  proof (intro conjI allI impI)
    show "isFree (?d ! c)" if "c < 3" for c using free [of c] that assms(2) by simp
    show "\<not> isRoot (?d ! c)" if "c < N" "259 \<le> c" for c using that by (simp add: nth isRoot_def free_node_def)
    show "\<exists>s. spells ?d c s" if "c < N" "\<not> isFree (?d ! c)" for c
      using spells.root [of ?d c] root [of c] free [OF that(1)] that(2) by (auto simp: isRoot_def)
  qed (use len assms(2) root leaf par in auto)
  show "c < 259" if "c < N" "\<not> isFree (?d ! c)" using free [OF that(1)] that(2) by simp
  show "spare N ?d 259" if "259 < N" using free [OF that] that by (simp add: spare_def)
qed

lemma ends_start:
  assumes "codewords N"
  shows "in_step [] (Compressor N m) (Decompressor N m)"
proof -
  let ?r = "replicate N free_node"
  obtain k where k: "9 \<le> k" "N = 2 ^ k" using assms by (auto simp: codewords_def)
  have N: "512 \<le> N" using k power_increasing [of 9 k "2 :: nat"] by simp
  have "isFree (?r ! c) \<and> isLeaf (?r ! c)" if "c < 3" for c
    using that N by (simp add: free_node_def isFree_def isLeaf_def)
  then have 1: "length (Dictionary_reset ?r) = N" "isFree (Dictionary_reset ?r ! c) \<and> isLeaf (Dictionary_reset ?r ! c)" if "c < 3" for c
    using that N by (simp_all add: Dictionary_reset_def)
  note ok = Dictionary_reset_ok [OF 1(1) _ 1(2), of 0]
  let ?c = "Compressor N m" and ?d = "Decompressor N m"
  have c: "dict ?c = Dictionary_reset (Dictionary_reset ?r)" "maxCodeWords ?c = N" "nextCodeWord ?c = 259" "codeWordSize ?c = 9"
    "codeWordThreshold ?c = 512" "transparent ?c" "outBitBuf ?c = 0" "outBitPos ?c = 0" "escapeCode ?c = 0" "curCode ?c = -1"
    "lastAddedCode ?c = -1" "matchLen ?c = 0" "modeTransition ?c = False" "maxStringLength ?c = m"
    by (simp_all add: Compressor_def Compressor_reset_def V42Base_reset_def)
  have d: "dict ?d = dict ?c" "maxCodeWords ?d = maxCodeWords ?c" "nextCodeWord ?d = nextCodeWord ?c" "codeWordSize ?d = codeWordSize ?c"
    "codeWordThreshold ?d = codeWordThreshold ?c" "transparent ?d" "inputBitBuffer ?d = 0" "inputBitCount ?d = 0" "escapeCode ?d = 0"
    "curCode ?d = -1" "lastAddedCode ?d = -1" "matchLen ?d = 0" "modeTransition ?d = False" "maxStringLength ?d = m" "\<not> escaped ?d"
    "v42_buffer ?d = []"
    by (simp_all add: c) (simp_all add: Decompressor_def Decompressor_reset_def V42Base_reset_def)
  have "isFree (Dictionary_reset ?r ! c) \<and> isLeaf (Dictionary_reset ?r ! c)" if "c < 3" for c using 1(2) [OF that] by simp
  then have D: "dict_ok N (dict ?c)" "spare N (dict ?c) 259" "\<And>x. x < N \<Longrightarrow> \<not> isFree (dict ?c ! x) \<Longrightarrow> x < 259"
    using Dictionary_reset_ok [of "Dictionary_reset ?r" N] N 1(1) [of 0] by (auto simp: c(1))
  have "sizes_ok ?c" using D N assms by (fastforce simp: sizes_ok_def c(2-))
  moreover from this have "sizes_ok ?d" by (rule sizes_ok_cong) (simp_all add: d)
  ultimately have "in_touch ?c ?d" by (simp add: in_touch_def same_params_def d c)
  then have "equal_ends [] ?c ?d"
    unfolding equal_ends_def with_out_self with_in_self by (simp add: d c level_def)
  then show ?thesis by (simp add: in_step_def)
qed

text \<open>The size of the dictionary does not change.\<close>

lemma maxCodeWords_put:
  "maxCodeWords (put_byte c) = maxCodeWords c" "maxCodeWords (put_bytes c) = maxCodeWords c"
  "maxCodeWords (put_rest c) = maxCodeWords c" "maxCodeWords (pushCode k c) = maxCodeWords c"
proof -
  show 1: "maxCodeWords (put_byte c) = maxCodeWords c" for c by (simp add: put_byte_def push_def)
  show 2: "maxCodeWords (put_bytes c) = maxCodeWords c" for c
    by (induction c rule: put_bytes.induct) (subst put_bytes.simps, simp add: 1)
  show "maxCodeWords (put_rest c) = maxCodeWords c"
    by (induction c rule: put_rest.induct) (subst put_rest.simps, simp add: 1)
  show "maxCodeWords (pushCode k c) = maxCodeWords c" by (simp add: pushCode_def 2)
qed

lemma maxCodeWords_step_up: "step_up c = Some c' \<Longrightarrow> maxCodeWords c' = maxCodeWords c"
  by (rule step_up.raw_induct [of "\<lambda>c c'. maxCodeWords c' = maxCodeWords c"])
    (auto simp: maxCodeWords_put split: if_splits)

lemma maxCodeWords_checkDictSize: "checkDictSize c = Inr c' \<Longrightarrow> maxCodeWords c' = maxCodeWords c"
  by (auto simp: checkDictSize_def maxCodeWords_step_up split: if_splits option.splits)

lemma maxCodeWords_acceptChar:
  assumes "acceptChar checkDictSize b c = Inr (e, c')"
  shows "maxCodeWords c' = maxCodeWords c"
proof -
  have r: "maxCodeWords t = maxCodeWords s" if "recoverNode s = Inr t" for s t :: compressor
    by (subst recoverNode_fields [OF that]) simp
  have b: "maxCodeWords c2 = maxCodeWords c"
    if "bindE (checkDictSize (c\<lparr>matchLen := m\<rparr>)) (\<lambda>s. recoverNode (s\<lparr>dict := f s, lastAddedCode := g s\<rparr>)) = Inr c2" for c2 m f g
    using that r maxCodeWords_checkDictSize [of "c\<lparr>matchLen := m\<rparr>"] by (fastforce simp: bindE_def split: sum.splits)
  show ?thesis
    using assms unfolding acceptChar_def Let_def
    by (auto simp: bindE_def [of "if _ then _ else _"] split: if_splits sum.splits dest!: b)
qed

lemma maxCodeWords_flush: "maxCodeWords (Compressor_flush b c) = maxCodeWords c"
  by (simp add: Compressor_flush_def Let_def maxCodeWords_put)

lemma maxCodeWords_changeMode: "maxCodeWords (changeMode c) = maxCodeWords c"
  by (simp add: changeMode_def Let_def maxCodeWords_flush push_def)

lemma maxCodeWords_op: "compressor_op x c = Inr c' \<Longrightarrow> maxCodeWords c' = maxCodeWords c"
proof (cases x)
  case (Write b)
  have "maxCodeWords (compress_test m c) = maxCodeWords c" for m c
    by (simp add: compress_test_def Let_def maxCodeWords_changeMode)
  moreover have "maxCodeWords (put_char b c) = maxCodeWords c" by (simp add: put_char_def Let_def push_def)
  ultimately show "compressor_op x c = Inr c' \<Longrightarrow> maxCodeWords c' = maxCodeWords c"
    using maxCodeWords_acceptChar [of b "put_char b c"]
    by (fastforce simp: Write Compressor_write_def Let_def bindE_def maxCodeWords_put split: sum.splits if_splits)
qed (auto simp: maxCodeWords_flush maxCodeWords_changeMode)

lemma in_width_512:
  assumes "in_step w c D" "maxCodeWords c = 512"
  shows "in_width ops c"
  using assms
proof (induction ops arbitrary: w c D)
  case (Cons x ops)
  have sz: "sizes_ok c" using Cons.prems(1) by (auto simp: in_step_def equal_ends_def follows_def in_touch_def)
  then have "nextCodeWord c < 512" "512 \<le> codeWordThreshold c"
    using power_increasing [of 9 "codeWordSize c" "2 :: nat"] Cons.prems(2) by (auto simp: sizes_ok_def spare_def)
  then have next_less: "nextCodeWord c < codeWordThreshold c" by simp
  have "in_width ops c'" if c': "compressor_op x c = Inr c'" for c'
  proof -
    have "\<exists>w. delivers w c c' D"
    proof (cases x)
      case (Write b)
      then show ?thesis using Compressor_write_in_step [OF Cons.prems(1), of b] next_less c' by auto
    qed (use flush_in_step [OF Cons.prems(1)] changeMode_in_step [OF Cons.prems(1)] c' in auto)
    then show ?thesis using Cons.IH maxCodeWords_op [OF c'] Cons.prems(2) by (auto simp: delivers_def)
  qed
  then show ?case using next_less by simp
qed simp

section \<open>Round trips\<close>

lemma run_compressor_append:
  "run_compressor (xs @ ys) c = bindE (run_compressor xs c) (run_compressor ys)"
  by (induction xs arbitrary: c) (simp_all add: bindE_def split: sum.split)

lemma session_delivers:
  assumes "codewords N" "in_width ops (Compressor N m)"
  shows "\<exists>c. run_compressor ops (Compressor N m) = Inr c \<and> delivers (written ops) (Compressor N m) c (Decompressor N m)"
  using session_in_step [OF ends_start [OF assms(1)] assms(2)] by simp

lemma new_buffer: "v42_buffer (Compressor N m) = []"
  by (simp add: Compressor_def Compressor_reset_def V42Base_reset_def)

lemma in_step_prefix:
  assumes "in_step w c D"
  shows "\<exists>r. w = v42_buffer D @ r"
proof -
  have f: "\<exists>r. w = v42_buffer D @ r" if "follows w R c D d s" for R d s
  proof -
    have l: "linked R D d" and w: "w = v42_buffer d @ s" using followsD(3,5) [OF that] by auto
    have "\<exists>r. v42_buffer d = v42_buffer d1 @ r" if "dbits xs (P, d1) = Inr ([], d)" for xs P d1
      using that
    proof (induction xs arbitrary: P d1)
      case (Cons x xs)
      have "\<exists>r. v42_buffer d2 = v42_buffer d1 @ r" if "receive k d1 = Inr d2" for k d2
      proof -
        have r: "v42_buffer t = v42_buffer s" if "recoverNode s = Inr t" for s t :: decompressor
          by (subst recoverNode_fields [OF that]) simp
        show ?thesis using that
          by (auto simp: receive_def control_code_def string_code_def Decompressor_flush_def Let_def fold_put_decoded bindE_def
              split: if_splits option.splits sum.splits dest!: r)
      qed
      then show ?case using Cons
        by (fastforce simp: bindE_def split: if_splits sum.splits)
    qed simp
    then show ?thesis using l w by (fastforce simp: linked_def)
  qed
  have "w = v42_buffer D @ []" if "equal_ends w c D" using that unfolding equal_ends_def by simp
  with f assms show ?thesis unfolding in_step_def by blast
qed

text \<open>The dictionary may have any size that is a power of two, as long as the session stays in width.\<close>

lemma session_roundtrip:
  assumes "codewords N" "in_width ops (Compressor N m)"
  shows "\<exists>c d c' d'. run_compressor ops (Compressor N m) = Inr c \<and>
     run_decompressor (v42_buffer c) (Decompressor N m) = Inr d \<and> (\<exists>rest. written ops = v42_buffer d @ rest) \<and>
     run_compressor (ops @ [Flush]) (Compressor N m) = Inr c' \<and>
     run_decompressor (v42_buffer c') (Decompressor N m) = Inr d' \<and> v42_buffer d' = written ops"
proof -
  from session_delivers [OF assms] obtain c d where c:
    "run_compressor ops (Compressor N m) = Inr c" "run_decompressor (v42_buffer c) (Decompressor N m) = Inr d"
    "in_step (written ops) c d"
    by (auto simp: delivers_def new_buffer)
  from flush_delivers_all [OF c(3)] obtain bs d' where f: "v42_buffer (Compressor_flush False c) = v42_buffer c @ bs"
    "run_decompressor bs d = Inr d'" "v42_buffer d' = written ops" by blast
  have "run_compressor (ops @ [Flush]) (Compressor N m) = Inr (Compressor_flush False c)"
    by (simp add: run_compressor_append c(1))
  moreover have "run_decompressor (v42_buffer (Compressor_flush False c)) (Decompressor N m) = Inr d'"
    by (simp add: f(1,2) run_decompressor_append c(2))
  ultimately show ?thesis using c(1,2) f(3) in_step_prefix [OF c(3)] by blast
qed

text \<open>Out of width a code spills into the next one: with a code size of 9 bits the code 512 and a code 256
  are the bytes of the command that ends compressed mode and of the code 257.\<close>

lemma wide_code_spills:
  assumes "c = with_out [] c" "codeWordSize c = 9"
  shows "v42_buffer (pushCode 256 (pushCode 512 c)) = v42_buffer (pushCode 257 (pushCode ETM c))"
proof -
  have "outBitBuf c = 0" "outBitPos c = 0" using assms(1) unfolding with_out_self by auto
  then show ?thesis using assms(2)
    by (simp add: pushCode_def put_bytes.simps put_byte_def push_def)
qed

text \<open>C6: Whatever is written to a compressor with the default dictionary of 512 codes, with flushes and changes
  of the mode at any place, comes out of the decompressor unchanged after a flush. Neither end fails, and what
  has come out before is a prefix of what was written.\<close>
theorem v42bis_roundtrip:
  "\<exists>c d c' d'. run_compressor ops (Compressor 512 m) = Inr c \<and>
     run_decompressor (v42_buffer c) (Decompressor 512 m) = Inr d \<and> (\<exists>rest. written ops = v42_buffer d @ rest) \<and>
     run_compressor (ops @ [Flush]) (Compressor 512 m) = Inr c' \<and>
     run_decompressor (v42_buffer c') (Decompressor 512 m) = Inr d' \<and> v42_buffer d' = written ops"
proof (rule session_roundtrip)
  show N: "codewords 512" by (auto simp: codewords_def intro: exI [of _ 9])
  show "in_width ops (Compressor 512 m)"
    by (rule in_width_512 [OF ends_start [OF N]]) (simp add: Compressor_def Compressor_reset_def V42Base_reset_def)
qed

end
