(* ===== verification/Spec2Isabelle.thy ===== *)
theory Spec2Isabelle
  imports Pvr_Regs Sh4_Cache_Refine Sh4_Division Sh4_Invariants Sh4_Mmr_Access V42bis_Roundtrip
begin

text \<open>
  This is a model of the emulation core of Flycast, a Sega Dreamcast emulator in C++: the SH4 processor
  with its interpreter, its on-chip modules and its caches, the address space, the interrupt
  controller and the DMA channels of the Holly chip, and the parts of the graphics chip that keep
  state for the processor. File names are relative to \<^verbatim>\<open>src/core\<close>; a definition has the name of the
  function, macro or register it translates wherever Isabelle allows the name.

  \<^bold>\<open>Conventions.\<close> The state of the machine is one record, \<open>machine\<close> of \<open>Sh4_State\<close>: the register file
  \<^verbatim>\<open>Sh4Context\<close>, the static variables of the modules, main memory, and the part of the chips the
  modelled code touches. A function of the program that changes state is a state transformer
  \<open>('d, 'a) SM\<close>; an SH4 exception, which the program throws in C++, is the outcome
  \<open>Throw\<close>, so that every early exit is a branch of the model. Machine integers are words of their
  width and wrap as in C++; signed reads are written out. What the program calls but this
  development does not model is an argument: \<open>env\<close> (handlers of memory areas, the store queue
  callback, address translation, the floating-point unit), \<open>pvr_env\<close> (tile accelerator and renderer),
  \<open>pipe\<close> (the far end of the serial port) and \<open>mmr_cfg\<close> (the board of arcade systems). The laws these
  arguments must obey are the assumptions of the locales or named hypotheses, and each locale is
  interpreted on the model's own handlers.

  \<^bold>\<open>Data and tools.\<close> \<open>Flycast_Prelude\<close> has the words, bit fields, lists of bytes and the lemmas all
  theories share; \<open>Sh4_State\<close> the state, the outcomes and the calculus of preserved invariants
  (\<open>keeps\<close>) and of quiet steps that the proofs over all instructions use.

  \<^bold>\<open>Memory.\<close> \<open>Addrspace\<close> is \<^verbatim>\<open>hw/mem/addrspace.cpp\<close>: the handler table by the upper byte of an
  address, the mapping of blocks and mirrors, and the memory of \<^verbatim>\<open>sh4_mem.cpp\<close>; it proves the table
  built by the program's own initialisation, reads after writes through any mirror, and that the
  pointers of \<^verbatim>\<open>GetMemPtr\<close> agree with the accesses. \<open>Sh4_Mmu\<close> is \<^verbatim>\<open>hw/sh4/modules/mmu.cpp\<close>: the two
  TLBs, their search, replacement and the checks of protection; the verdict of a translation and its
  physical address are proved to be what the matching TLB entries say, and the lookup of instructions keeps the order of least recent use.
  \<open>Sh4_Mem\<close> has the access functions above both, with alignment and exceptions. \<open>Storeq\<close> has the
  store queues and proves the fast burst equal to the general one. \<open>Sh4_Cache\<close> is the instruction and
  operand cache of \<^verbatim>\<open>sh4_cache.h\<close>; \<open>Sh4_Cache_Lines\<close> and \<open>Sh4_Cache_Refine\<close> prove that accesses
  through the operand cache behave as a flat memory and that writing all lines back leaves
  that memory. \<open>Sh4_Mmr\<close> is the register banks of \<^verbatim>\<open>hwreg.h\<close>, the tables of all modules and the
  accesses to P4 and area 7 of \<^verbatim>\<open>sh4_mmr.cpp\<close>; \<open>Sh4_Mmr_Access\<close> proves that a register without a
  handler is a word behind a mask and that no access to it touches another register.

  \<^bold>\<open>Processor.\<close> \<open>Sh4_Core_Regs\<close> (banks and status registers), \<open>Sh4_Exceptions\<close> (entry into interrupts and
  exceptions), \<open>Sh4_Ops_Base\<close>, \<open>Sh4_Ops_Transfer\<close>, \<open>Sh4_Ops_Arith\<close>, \<open>Sh4_Ops_System\<close> (one definition for
  each handler of \<^verbatim>\<open>sh4_opcodes.cpp\<close>), \<open>Sh4_Opcode_List\<close> (the table of descriptions and the decoder
  array it fills), \<open>Sh4_Cycles\<close> (the cost of instructions and accesses) and \<open>Sh4_Interpreter\<close> (fetch, delay
  slots, exceptions, the run loop, and the reset, with the values it gives to every register and what it
  clears). \<open>Sh4_Invariants\<close> proves the invariant of the processor over every
  instruction and the end of a time slice; \<open>Sh4_Division\<close> proves the division sequence of SH4
  programs, \<^verbatim>\<open>div0u\<close> and 32 times \<^verbatim>\<open>rotcl\<close>/\<^verbatim>\<open>div1\<close>, against division of numbers.

  \<^bold>\<open>Interrupts, time and devices.\<close> \<open>Sh4_Interrupts\<close> and \<open>Holly_Intc\<close> are the two interrupt controllers,
  each with the abstract controller it refines; \<open>Sh4_Sched\<close> the scheduler of timed callbacks;
  \<open>Tmu\<close> the timers, whose counts are read off the scheduler's clock; \<open>Dmac\<close> the DMA controller with the
  channel of the tile accelerator, PVR DMA and sort DMA; \<open>Scif\<close> the serial port with its FIFOs; \<open>Spg\<close>
  the raster of the graphics chip; \<open>Pvr_Mem\<close> the two views of video memory and the YUV converter;
  \<open>Pvr_Regs\<close> what a write to a register of the graphics chip starts.

  \<^bold>\<open>Data compression of the modem.\<close> \<open>V42bis\<close> is \<^verbatim>\<open>hw/modem/v42bis.cpp\<close>: the dictionary, the compressor and the
  decompressor of the V.42bis protocol, which work on streams that arrive in pieces. \<open>V42bis_Dictionary\<close>
  has the invariant of the dictionary, a tree of codewords of which leaves are recycled, \<open>V42bis_Bits\<close>
  the codewords as a stream of bits, \<open>V42bis_Match\<close> the string being matched, \<open>V42bis_Step\<close> the simulation
  of one side by the other over a codeword, and \<open>V42bis_Roundtrip\<close> the result: whatever is
  compressed, in whatever pieces, is decompressed to itself. These theories share only the prelude with the rest.

  \<^bold>\<open>Composition.\<close> A CPU access goes through \<open>Sh4_Mem\<close> to \<open>Sh4_Mmu\<close> and \<open>Addrspace\<close>, whose handlers are
  those of \<open>Sh4_Mmr\<close> (\<open>with_mmr\<close>), of \<open>Storeq\<close> and of \<open>Pvr_Mem\<close>; the registers' handlers call \<open>Tmu\<close>, \<open>Dmac\<close>,
  \<open>Scif\<close> and \<open>Sh4_Interrupts\<close>; the scheduler's callbacks raise lines of \<open>Sh4_Interrupts\<close> through
  \<open>Holly_Intc\<close>; the interpreter takes the pending interrupt at the end of a slice. The locales are the
  interfaces of this chain: what a client needs of an interrupt line, of a handler, of a memory behind
  a queue or a cache, proved by the provider at the place of the interpretation.

  \<^bold>\<open>Bounds.\<close> A branch calls the interpreter for its delay slot and the source recurses on the host's
  stack; \<open>interp n E\<close> has room for \<open>n\<close> nested calls and aborts beyond, and the theorems hold for every
  \<open>n\<close>. The loops of \<^verbatim>\<open>Run\<close> count down; \<open>time_slice_ends\<close> proves that 113 instructions are enough
  for a slice of 448 cycles. The loops of the raster and of sort DMA are partial functions whose
  value is \<^const>\<open>None\<close> where the program would not return; the raster is proved to return.

  \<^bold>\<open>Not modelled.\<close> The recompilers, which generate host code for the same instructions; the
  floating-point instructions, which are operations of the host and a parameter here; the sound
  chip and its processor, the drive, the controller bus, the arcade boards, the flash memories, the modem
  but for its data compression, the network adapter and the tile accelerator, which either are emulated through host floating point, host files and sockets or
  are further devices behind the same interfaces; the renderers, front ends, network play, user interface and
  third-party code. Saved states and log messages are left out everywhere. Reads of host time are left out
  where only statistics depend on them.
\<close>

end
